(* ===== verification/Prelude.thy ===== *)
theory Prelude
  imports Main "HOL-Library.Char_ord" "HOL-Library.List_Lexorder" "HOL-Library.Multiset"
begin

text \<open>
  Shared ground of the development: the JavaScript values the services pass around
  (\<open>jsval\<close>) with the language's truthiness and property access, the language's string
  operations on code units, decimal printing and \<open>parseInt\<close>, the stable
  \<open>Array.prototype.sort\<close> with a comparator, and the collections of lemmas the component
  theories feed to the simplifier.  Numbers are integers: the modelled code computes with
  timestamps, flags, counters and ports only.  A string is a list of code units below 256.
\<close>

named_theorems js_simps \<open>unfolding rules of the JavaScript operations\<close>
named_theorems frame_simps \<open>what an operation leaves alone\<close>

section \<open>JavaScript values\<close>

datatype jsval =
    Undef
  | Null
  | JBool bool
  | JNum int
  | JStr string
  | JArr "jsval list"
  | JObj "(string \<times> jsval) list"

type_synonym obj = "(string \<times> jsval) list"

text \<open>A thrown value: the message and the code of an \<open>Error\<close>.\<close>

record jserror =
  err_msg :: string
  err_code :: string

abbreviation Err :: "string \<Rightarrow> jserror" where
  "Err m \<equiv> \<lparr>err_msg = m, err_code = []\<rparr>"

text \<open>A promise that settles: the rejection reason or the value.\<close>

type_synonym 'a result = "jserror + 'a"

fun truthy :: "jsval \<Rightarrow> bool" where
  "truthy Undef = False"
| "truthy Null = False"
| "truthy (JBool b) = b"
| "truthy (JNum n) = (n \<noteq> 0)"
| "truthy (JStr s) = (s \<noteq> [])"
| "truthy (JArr _) = True"
| "truthy (JObj _) = True"

fun nullish :: "jsval \<Rightarrow> bool" where
  "nullish Undef = True"
| "nullish Null = True"
| "nullish _ = False"

text \<open>\<open>a || b\<close> and \<open>a ?? b\<close>.\<close>

definition js_or :: "jsval \<Rightarrow> jsval \<Rightarrow> jsval" where
  "js_or a b = (if truthy a then a else b)"

definition js_coalesce :: "jsval \<Rightarrow> jsval \<Rightarrow> jsval" where
  "js_coalesce a b = (if nullish a then b else a)"

text \<open>Own properties in insertion order: read, assign, delete, spread.\<close>

definition getp :: "obj \<Rightarrow> string \<Rightarrow> jsval" where
  "getp ps k = (case map_of ps k of None \<Rightarrow> Undef | Some v \<Rightarrow> v)"

fun put :: "string \<Rightarrow> 'v \<Rightarrow> (string \<times> 'v) list \<Rightarrow> (string \<times> 'v) list" where
  "put k v [] = [(k, v)]"
| "put k v ((k', v') # ps) = (if k = k' then (k, v) # ps else (k', v') # put k v ps)"

definition del :: "string \<Rightarrow> (string \<times> 'v) list \<Rightarrow> (string \<times> 'v) list" where
  "del k ps = filter (\<lambda>(k', _). k' \<noteq> k) ps"

fun spread :: "(string \<times> 'v) list \<Rightarrow> (string \<times> 'v) list \<Rightarrow> (string \<times> 'v) list" where
  "spread ps [] = ps"
| "spread ps ((k, v) # qs) = spread (put k v ps) qs"

lemma map_of_put [simp]: "map_of (put k v ps) = (map_of ps)(k \<mapsto> v)"
  by (induction k v ps rule: put.induct) auto

lemma map_of_del [simp]: "map_of (del k ps) = (map_of ps)(k := None)"
  by (induction ps) (auto simp: del_def)

lemma keys_put: "set (map fst (put k v ps)) = insert k (set (map fst ps))"
  by (induction k v ps rule: put.induct) auto

lemma distinct_put: "distinct (map fst ps) \<Longrightarrow> distinct (map fst (put k v ps))"
proof (induction k v ps rule: put.induct)
  case (2 k v k' v' ps)
  then show ?case using keys_put [of k v ps] by auto
qed simp

lemma distinct_del: "distinct (map fst ps) \<Longrightarrow> distinct (map fst (del k ps))"
  by (induction ps) (auto simp: del_def)

lemma map_of_spread [simp]: "map_of (spread ps qs) k =
    (case map_of (rev qs) k of None \<Rightarrow> map_of ps k | Some v \<Rightarrow> Some v)"
  by (induction ps qs rule: spread.induct) (auto simp: map_add_def split: option.splits)

lemma getp_put [simp]: "getp (put k v ps) k' = (if k' = k then v else getp ps k')"
  by (simp add: getp_def)

lemma getp_del [simp]: "getp (del k ps) k' = (if k' = k then Undef else getp ps k')"
  by (simp add: getp_def)

lemma getp_Nil [simp]: "getp [] k = Undef"
  by (simp add: getp_def)

lemma getp_Cons [simp]: "getp ((k, v) # ps) k' = (if k' = k then v else getp ps k')"
  by (auto simp: getp_def)

section \<open>Multisets\<close>

lemma size_filter_mono:
  "(\<And>x. x \<in># M \<Longrightarrow> P x \<Longrightarrow> Q x) \<Longrightarrow> size (filter_mset P M) \<le> size (filter_mset Q M)"
proof (induction M)
  case (add x M)
  then have "size (filter_mset P M) \<le> size (filter_mset Q M)" by simp
  with add.prems [of x] show ?case by auto
qed simp

section \<open>Strings\<close>

definition starts_with :: "string \<Rightarrow> string \<Rightarrow> bool" where
  "starts_with s p \<longleftrightarrow> take (length p) s = p"

text \<open>\<open>indexOf\<close> and \<open>lastIndexOf\<close> of one character; \<open>None\<close> is -1.\<close>

fun index_of :: "char \<Rightarrow> string \<Rightarrow> nat option" where
  "index_of c [] = None"
| "index_of c (x # xs) = (if x = c then Some 0 else map_option Suc (index_of c xs))"

fun last_index_of :: "char \<Rightarrow> string \<Rightarrow> nat option" where
  "last_index_of c [] = None"
| "last_index_of c (x # xs) =
     (case last_index_of c xs of
        Some i \<Rightarrow> Some (Suc i)
      | None \<Rightarrow> if x = c then Some 0 else None)"

text \<open>\<open>split\<close> at one character and \<open>join\<close>.\<close>

fun split_on :: "char \<Rightarrow> string \<Rightarrow> string list" where
  "split_on c [] = [[]]"
| "split_on c (x # xs) =
     (if x = c then [] # split_on c xs
      else case split_on c xs of [] \<Rightarrow> [[x]] | w # ws \<Rightarrow> (x # w) # ws)"

fun join :: "string \<Rightarrow> string list \<Rightarrow> string" where
  "join sep [] = []"
| "join sep [w] = w"
| "join sep (w # ws) = w @ sep @ join sep ws"

text \<open>\<open>includes\<close> of a string in a string.\<close>

fun contains :: "string \<Rightarrow> string \<Rightarrow> bool" where
  "contains s [] = True"
| "contains [] (p # ps) = False"
| "contains (x # xs) p = (starts_with (x # xs) p \<or> contains xs p)"

definition in_range :: "char \<Rightarrow> char \<Rightarrow> char \<Rightarrow> bool" where
  "in_range lo hi c \<longleftrightarrow> (of_char lo :: nat) \<le> of_char c \<and> (of_char c :: nat) \<le> of_char hi"

definition lower_char :: "char \<Rightarrow> char" where
  "lower_char c = (if in_range CHR ''A'' CHR ''Z'' c then char_of ((of_char c :: nat) + 32) else c)"

definition upper_char :: "char \<Rightarrow> char" where
  "upper_char c = (if in_range CHR ''a'' CHR ''z'' c then char_of ((of_char c :: nat) - 32) else c)"

definition to_lower :: "string \<Rightarrow> string" where
  "to_lower s = map lower_char s"

definition to_upper :: "string \<Rightarrow> string" where
  "to_upper s = map upper_char s"

lemma index_of_None: "index_of c s = None \<longleftrightarrow> c \<notin> set s"
  by (induction c s rule: index_of.induct) auto

lemma index_of_append: "c \<notin> set u \<Longrightarrow> index_of c (u @ c # v) = Some (length u)"
  by (induction u) auto

lemma index_of_Some: "index_of c s = Some i \<Longrightarrow>
    c \<notin> set (take i s) \<and> s = take i s @ c # drop (Suc i) s \<and> i < length s"
proof (induction c s arbitrary: i rule: index_of.induct)
  case (2 c x xs)
  then show ?case by (cases i) (auto split: if_splits)
qed simp

lemma last_index_of_None: "last_index_of c s = None \<longleftrightarrow> c \<notin> set s"
  by (induction c s rule: last_index_of.induct) (auto split: option.splits)

lemma last_index_of_append: "c \<notin> set v \<Longrightarrow> last_index_of c (u @ c # v) = Some (length u)"
proof (induction u)
  case Nil
  then show ?case using last_index_of_None [of c v] by simp
qed (simp split: option.splits)

lemma split_on_not_Nil [simp]: "split_on c s \<noteq> []"
  by (induction c s rule: split_on.induct) (auto split: list.splits)

lemma split_on_append: "c \<notin> set u \<Longrightarrow> split_on c (u @ c # v) = u # split_on c v"
  by (induction u) auto

lemma split_on_single: "c \<notin> set u \<Longrightarrow> split_on c u = [u]"
  by (induction u) auto

lemma split_on_no_sep: "w \<in> set (split_on c s) \<Longrightarrow> c \<notin> set w"
  by (induction c s arbitrary: w rule: split_on.induct)
     (auto split: list.splits if_splits)

lemma join_split_on: "join [c] (split_on c s) = s"
proof (induction c s rule: split_on.induct)
  case (2 c x xs)
  then show ?case
    by (cases "split_on c xs"; cases "tl (split_on c xs)") auto
qed simp

lemma split_on_join:
  "ws \<noteq> [] \<Longrightarrow> \<forall>w \<in> set ws. c \<notin> set w \<Longrightarrow> split_on c (join [c] ws) = ws"
proof (induction "[c]" ws rule: join.induct)
  case (3 w v ws)
  then show ?case by (auto simp: split_on_append)
qed (auto simp: split_on_single)

section \<open>Decimal printing and parseInt\<close>

definition is_digit :: "char \<Rightarrow> bool" where
  "is_digit c \<longleftrightarrow> in_range CHR ''0'' CHR ''9'' c"

definition digit_char :: "nat \<Rightarrow> char" where
  "digit_char n = char_of (48 + n)"

definition digit_val :: "char \<Rightarrow> nat" where
  "digit_val c = of_char c - 48"

fun nat_str :: "nat \<Rightarrow> string" where
  "nat_str n = (if n < 10 then [digit_char n] else nat_str (n div 10) @ [digit_char (n mod 10)])"

declare nat_str.simps [simp del]

definition int_str :: "int \<Rightarrow> string" where
  "int_str n = (if n < 0 then CHR ''-'' # nat_str (nat (- n)) else nat_str (nat n))"

definition dec_val :: "string \<Rightarrow> nat" where
  "dec_val ds = foldl (\<lambda>acc c. 10 * acc + digit_val c) 0 ds"

definition is_space :: "char \<Rightarrow> bool" where
  "is_space c \<longleftrightarrow> c \<in> {CHR '' '', CHR 0x09, CHR 0x0A, CHR 0x0B, CHR 0x0C, CHR 0x0D, CHR 0xA0}"

text \<open>\<open>parseInt(s)\<close> on decimal text; \<open>None\<close> is NaN.\<close>

definition parse_digits :: "string \<Rightarrow> nat option" where
  "parse_digits s = (let ds = takeWhile is_digit s in if ds = [] then None else Some (dec_val ds))"

definition parse_int :: "string \<Rightarrow> int option" where
  "parse_int s0 =
     (let s = dropWhile is_space s0 in
      case s of
        [] \<Rightarrow> None
      | c # cs \<Rightarrow>
          if c = CHR ''-'' then map_option (\<lambda>n. - int n) (parse_digits cs)
          else if c = CHR ''+'' then map_option int (parse_digits cs)
          else map_option int (parse_digits s))"

lemma digit_char_eval:
  "digit_char 0 = CHR ''0''" "digit_char (Suc 0) = CHR ''1''" "digit_char 2 = CHR ''2''"
  "digit_char 3 = CHR ''3''" "digit_char 4 = CHR ''4''" "digit_char 5 = CHR ''5''"
  "digit_char 6 = CHR ''6''" "digit_char 7 = CHR ''7''" "digit_char 8 = CHR ''8''"
  "digit_char 9 = CHR ''9''"
  by code_simp+

lemma of_char_digit_char: "n < 10 \<Longrightarrow> (of_char (digit_char n) :: nat) = 48 + n"
  by (simp add: digit_char_def)

lemma digit_val_digit_char [simp]: "n < 10 \<Longrightarrow> digit_val (digit_char n) = n"
  by (simp add: digit_val_def of_char_digit_char)

lemma is_digit_digit_char [simp]: "n < 10 \<Longrightarrow> is_digit (digit_char n)"
  by (simp add: is_digit_def in_range_def of_char_digit_char)

lemma is_digitE:
  assumes "is_digit c"
  obtains n where "n < 10" and "c = digit_char n"
proof
  from assms have b: "48 \<le> (of_char c :: nat)" "(of_char c :: nat) \<le> 57"
    by (simp_all add: is_digit_def in_range_def)
  then show "digit_val c < 10" by (simp add: digit_val_def)
  from b have "48 + digit_val c = of_char c" by (simp add: digit_val_def)
  then show "c = digit_char (digit_val c)" by (simp add: digit_char_def)
qed

lemma digit_char_inj: "m < 10 \<Longrightarrow> n < 10 \<Longrightarrow> digit_char m = digit_char n \<longleftrightarrow> m = n"
  using digit_val_digit_char by metis

lemma nat_str_digits: "c \<in> set (nat_str n) \<Longrightarrow> is_digit c"
  by (induction n rule: nat_str.induct) (subst (asm) nat_str.simps, auto split: if_splits)

lemma nat_str_not_Nil [simp]: "nat_str n \<noteq> []"
  by (subst nat_str.simps) simp

lemma dec_val_snoc [simp]: "dec_val (ds @ [c]) = 10 * dec_val ds + digit_val c"
  by (simp add: dec_val_def)

lemma dec_val_Nil [simp]: "dec_val [] = 0"
  by (simp add: dec_val_def)

lemma dec_val_nat_str [simp]: "dec_val (nat_str n) = n"
proof (induction n rule: nat_str.induct)
  case (1 n)
  show ?case
  proof (cases "n < 10")
    case True
    then show ?thesis using dec_val_snoc [of "[]"] by (simp add: nat_str.simps [of n])
  next
    case False
    with 1 show ?thesis by (simp add: nat_str.simps [of n])
  qed
qed

lemma parse_digits_nat_str [simp]: "parse_digits (nat_str n) = Some n"
proof -
  have tw: "takeWhile is_digit (nat_str n) = nat_str n"
    by (simp add: takeWhile_eq_all_conv nat_str_digits)
  show ?thesis by (simp only: parse_digits_def tw Let_def) simp
qed

lemma digit_not_special: "is_digit c \<Longrightarrow> \<not> is_space c \<and> c \<noteq> CHR ''-'' \<and> c \<noteq> CHR ''+''"
  by (auto simp: is_digit_def in_range_def is_space_def)

text \<open>\<open>parseInt\<close> reads back what a template literal printed.\<close>

lemma parse_int_int_str [simp]: "parse_int (int_str n) = Some n"
proof (cases "n < 0")
  case True
  then show ?thesis by (simp add: int_str_def parse_int_def Let_def is_space_def)
next
  case False
  obtain c cs where w: "nat_str (nat n) = c # cs" by (cases "nat_str (nat n)") auto
  then have "is_digit c" using nat_str_digits [of c "nat n"] by simp
  then have c: "\<not> is_space c" "c \<noteq> CHR ''-''" "c \<noteq> CHR ''+''" using digit_not_special by auto
  have p: "parse_digits (c # cs) = Some (nat n)" using parse_digits_nat_str [of "nat n"] w by simp
  from False c w p show ?thesis by (simp add: int_str_def parse_int_def Let_def)
qed

lemma int_str_inj: "int_str m = int_str n \<Longrightarrow> m = n"
  by (metis option.inject parse_int_int_str)

text \<open>\<open>String(v)\<close> of the values the database layer converts; arrays join with commas.\<close>

fun js_str :: "jsval \<Rightarrow> string" where
  "js_str Undef = ''undefined''"
| "js_str Null = ''null''"
| "js_str (JBool b) = (if b then ''true'' else ''false'')"
| "js_str (JNum n) = int_str n"
| "js_str (JStr s) = s"
| "js_str (JArr vs) = join '','' (map (\<lambda>v. if nullish v then [] else js_str v) vs)"
| "js_str (JObj _) = ''[object Object]''"

section \<open>Stable sorting with a comparator\<close>

text \<open>
  \<open>Array.prototype.sort\<close> is stable; for a consistent comparator the result is the only
  stable ordered permutation, so insertion from the right computes it.
\<close>

fun insert_by :: "('a \<Rightarrow> 'a \<Rightarrow> int) \<Rightarrow> 'a \<Rightarrow> 'a list \<Rightarrow> 'a list" where
  "insert_by cmp x [] = [x]"
| "insert_by cmp x (y # ys) = (if cmp x y \<le> 0 then x # y # ys else y # insert_by cmp x ys)"

definition js_sort :: "('a \<Rightarrow> 'a \<Rightarrow> int) \<Rightarrow> 'a list \<Rightarrow> 'a list" where
  "js_sort cmp xs = foldr (insert_by cmp) xs []"

lemma mset_insert_by [simp]: "mset (insert_by cmp x xs) = add_mset x (mset xs)"
  by (induction cmp x xs rule: insert_by.induct) auto

lemma mset_js_sort [simp]: "mset (js_sort cmp xs) = mset xs"
  by (induction xs) (auto simp: js_sort_def)

lemma set_js_sort [simp]: "set (js_sort cmp xs) = set xs"
  by (metis mset_js_sort set_mset_mset)

lemma length_js_sort [simp]: "length (js_sort cmp xs) = length xs"
  by (metis mset_js_sort size_mset)

lemma set_insert_by [simp]: "set (insert_by cmp x xs) = insert x (set xs)"
  by (induction cmp x xs rule: insert_by.induct) auto

text \<open>The contract of a comparator, and what it gives the sort.\<close>

locale js_comparator =
  fixes cmp :: "'a \<Rightarrow> 'a \<Rightarrow> int"
  assumes cmp_flip: "0 < cmp x y \<longleftrightarrow> cmp y x < 0"
    and cmp_trans: "cmp x y \<le> 0 \<Longrightarrow> cmp y z \<le> 0 \<Longrightarrow> cmp x z \<le> 0"
begin

lemma cmp_total: "cmp x y \<le> 0 \<or> cmp y x \<le> 0"
  using cmp_flip [of x y] cmp_flip [of y x] by linarith

lemma insert_by_sorted:
  "sorted_wrt (\<lambda>a b. cmp a b \<le> 0) xs \<Longrightarrow> sorted_wrt (\<lambda>a b. cmp a b \<le> 0) (insert_by cmp x xs)"
proof (induction xs)
  case (Cons y ys)
  show ?case
  proof (cases "cmp x y \<le> 0")
    case True
    with Cons.prems show ?thesis using cmp_trans by auto
  next
    case False
    then have "cmp y x \<le> 0" using cmp_total by blast
    with False Cons show ?thesis by auto
  qed
qed simp

lemma js_sort_sorted: "sorted_wrt (\<lambda>a b. cmp a b \<le> 0) (js_sort cmp xs)"
  by (induction xs) (auto simp: js_sort_def intro: insert_by_sorted)

lemma insert_by_filter_equal:
  "cmp k x \<le> 0 \<and> cmp x k \<le> 0 \<Longrightarrow>
   filter (\<lambda>y. cmp k y \<le> 0 \<and> cmp y k \<le> 0) (insert_by cmp x xs) =
   x # filter (\<lambda>y. cmp k y \<le> 0 \<and> cmp y k \<le> 0) xs"
proof (induction xs)
  case (Cons y ys)
  show ?case
  proof (cases "cmp x y \<le> 0")
    case True
    with Cons.prems show ?thesis by simp
  next
    case False
    then have "\<not> (cmp k y \<le> 0 \<and> cmp y k \<le> 0)"
      using Cons.prems cmp_trans [of x k y] by blast
    with False Cons show ?thesis by auto
  qed
qed simp

lemma insert_by_filter_other:
  "\<not> (cmp k x \<le> 0 \<and> cmp x k \<le> 0) \<Longrightarrow>
   filter (\<lambda>y. cmp k y \<le> 0 \<and> cmp y k \<le> 0) (insert_by cmp x xs) =
   filter (\<lambda>y. cmp k y \<le> 0 \<and> cmp y k \<le> 0) xs"
  by (induction xs) auto

text \<open>Stability: elements the comparator does not tell apart keep their order.\<close>

lemma js_sort_stable:
  "filter (\<lambda>y. cmp k y \<le> 0 \<and> cmp y k \<le> 0) (js_sort cmp xs) =
   filter (\<lambda>y. cmp k y \<le> 0 \<and> cmp y k \<le> 0) xs"
proof (induction xs)
  case (Cons x xs)
  then show ?case
    using insert_by_filter_equal [of k x "js_sort cmp xs"]
      insert_by_filter_other [of k x "js_sort cmp xs"]
    by (cases "cmp k x \<le> 0 \<and> cmp x k \<le> 0") (auto simp: js_sort_def)
qed (simp add: js_sort_def)

lemma js_sort_hd_least:
  "js_sort cmp xs = y # ys \<Longrightarrow> x \<in> set xs \<Longrightarrow> cmp y x \<le> 0"
proof -
  assume s: "js_sort cmp xs = y # ys" and x: "x \<in> set xs"
  have "x \<in> set (y # ys)" using x set_js_sort [of cmp xs] s by simp
  moreover have "sorted_wrt (\<lambda>a b. cmp a b \<le> 0) (y # ys)" using js_sort_sorted [of xs] s by simp
  moreover have "cmp y y \<le> 0" using cmp_total by blast
  ultimately show ?thesis by auto
qed

end

text \<open>
  The default order of \<open>sort()\<close> without a comparator, by code units; also the contract of
  \<open>localeCompare\<close>, which the code calls with the runtime's own collation.
\<close>

definition code_unit_compare :: "string \<Rightarrow> string \<Rightarrow> int" where
  "code_unit_compare a b = (if a < b then -1 else if b < a then 1 else 0)"

interpretation cu: js_comparator code_unit_compare
  by unfold_locales (auto simp: code_unit_compare_def split: if_splits)

end
