(* ===== verification/Regex.thy ===== *)
theory Regex
  imports Prelude
begin

text \<open>
  Regular expressions as the source writes them: character classes as lists of ranges,
  sequences, alternatives, repetition with bounds.  \<open>lang\<close> is the set of strings an
  expression anchored with \<open>^\<close> and \<open>$\<close> matches, \<open>re_test\<close> decides membership by
  Brzozowski derivatives, so the patterns of the code can be transliterated and evaluated.
\<close>

datatype re =
    RZero
  | ROne
  | RCls "(char \<times> char) list"
  | RSeq re re
  | RAlt re re
  | RStar re

inductive_set star :: "string set \<Rightarrow> string set" for A where
  star_Nil: "[] \<in> star A"
| star_app: "u \<in> A \<Longrightarrow> v \<in> star A \<Longrightarrow> u @ v \<in> star A"

definition in_cls :: "(char \<times> char) list \<Rightarrow> char \<Rightarrow> bool" where
  "in_cls rs c \<longleftrightarrow> list_ex (\<lambda>(lo, hi). in_range lo hi c) rs"

fun lang :: "re \<Rightarrow> string set" where
  "lang RZero = {}"
| "lang ROne = {[]}"
| "lang (RCls rs) = {[c] |c. in_cls rs c}"
| "lang (RSeq r s) = {u @ v |u v. u \<in> lang r \<and> v \<in> lang s}"
| "lang (RAlt r s) = lang r \<union> lang s"
| "lang (RStar r) = star (lang r)"

fun nullable :: "re \<Rightarrow> bool" where
  "nullable RZero = False"
| "nullable ROne = True"
| "nullable (RCls _) = False"
| "nullable (RSeq r s) = (nullable r \<and> nullable s)"
| "nullable (RAlt r s) = (nullable r \<or> nullable s)"
| "nullable (RStar _) = True"

definition mk_seq :: "re \<Rightarrow> re \<Rightarrow> re" where
  "mk_seq r s = (case r of RZero \<Rightarrow> RZero | ROne \<Rightarrow> s | _ \<Rightarrow> (case s of RZero \<Rightarrow> RZero | _ \<Rightarrow> RSeq r s))"

definition mk_alt :: "re \<Rightarrow> re \<Rightarrow> re" where
  "mk_alt r s = (case r of RZero \<Rightarrow> s | _ \<Rightarrow> (case s of RZero \<Rightarrow> r | _ \<Rightarrow> RAlt r s))"

fun deriv :: "char \<Rightarrow> re \<Rightarrow> re" where
  "deriv c RZero = RZero"
| "deriv c ROne = RZero"
| "deriv c (RCls rs) = (if in_cls rs c then ROne else RZero)"
| "deriv c (RSeq r s) =
     (if nullable r then mk_alt (mk_seq (deriv c r) s) (deriv c s) else mk_seq (deriv c r) s)"
| "deriv c (RAlt r s) = mk_alt (deriv c r) (deriv c s)"
| "deriv c (RStar r) = mk_seq (deriv c r) (RStar r)"

fun re_test :: "re \<Rightarrow> string \<Rightarrow> bool" where
  "re_test r [] = nullable r"
| "re_test r (c # cs) = re_test (deriv c r) cs"

lemma lang_mk_seq [simp]: "lang (mk_seq r s) = lang (RSeq r s)"
  by (auto simp: mk_seq_def split: re.splits)

lemma lang_mk_alt [simp]: "lang (mk_alt r s) = lang (RAlt r s)"
  by (auto simp: mk_alt_def split: re.splits)

lemma nullable_iff: "nullable r \<longleftrightarrow> [] \<in> lang r"
  by (induction r) (auto intro: star_Nil)

lemma star_Cons:
  "c # w \<in> star A \<longleftrightarrow> (\<exists>u v. w = u @ v \<and> c # u \<in> A \<and> v \<in> star A)"
proof
  assume "c # w \<in> star A"
  then show "\<exists>u v. w = u @ v \<and> c # u \<in> A \<and> v \<in> star A"
  proof (induction "c # w" rule: star.induct)
    case (star_app u v)
    then show ?case by (cases u) auto
  qed
next
  assume "\<exists>u v. w = u @ v \<and> c # u \<in> A \<and> v \<in> star A"
  then show "c # w \<in> star A" using star_app by fastforce
qed

lemma lang_deriv: "w \<in> lang (deriv c r) \<longleftrightarrow> c # w \<in> lang r"
proof (induction r arbitrary: w)
  case (RSeq r s)
  then show ?case
    by (auto simp: nullable_iff Cons_eq_append_conv)
next
  case (RStar r)
  then show ?case by (auto simp: star_Cons)
qed auto

theorem re_test_iff: "re_test r w \<longleftrightarrow> w \<in> lang r"
  by (induction r w rule: re_test.induct) (auto simp: nullable_iff lang_deriv)

section \<open>Derived forms\<close>

named_theorems re_defs \<open>abbreviating definitions of patterns\<close>

abbreviation RChr :: "char \<Rightarrow> re" where
  "RChr c \<equiv> RCls [(c, c)]"

fun RLit :: "string \<Rightarrow> re" where
  "RLit [] = ROne"
| "RLit (c # cs) = RSeq (RChr c) (RLit cs)"

fun RSeqs :: "re list \<Rightarrow> re" where
  "RSeqs [] = ROne"
| "RSeqs [r] = r"
| "RSeqs (r # rs) = RSeq r (RSeqs rs)"

fun RAlts :: "re list \<Rightarrow> re" where
  "RAlts [] = RZero"
| "RAlts [r] = r"
| "RAlts (r # rs) = RAlt r (RAlts rs)"

definition ROpt :: "re \<Rightarrow> re" where
  [re_defs]: "ROpt r = RAlt r ROne"

definition RPlus :: "re \<Rightarrow> re" where
  [re_defs]: "RPlus r = RSeq r (RStar r)"

text \<open>\<open>r{n}\<close> and \<open>r{m,n}\<close>.\<close>

fun RRep :: "nat \<Rightarrow> re \<Rightarrow> re" where
  "RRep 0 r = ROne"
| "RRep (Suc n) r = RSeq r (RRep n r)"

fun RUpTo :: "nat \<Rightarrow> re \<Rightarrow> re" where
  "RUpTo 0 r = ROne"
| "RUpTo (Suc n) r = ROpt (RSeq r (RUpTo n r))"

lemma RRep_numeral [simp]: "RRep (numeral k) r = RSeq r (RRep (pred_numeral k) r)"
  by (simp add: numeral_eq_Suc)

lemma RUpTo_numeral [simp]: "RUpTo (numeral k) r = ROpt (RSeq r (RUpTo (pred_numeral k) r))"
  by (simp add: numeral_eq_Suc)

definition RBetween :: "nat \<Rightarrow> nat \<Rightarrow> re \<Rightarrow> re" where
  [re_defs]: "RBetween m n r = RSeq (RRep m r) (RUpTo (n - m) r)"

lemma seq_cls_Cons [simp]:
  "c # w \<in> lang (RSeq (RCls rs) s) \<longleftrightarrow> in_cls rs c \<and> w \<in> lang s"
proof
  assume "in_cls rs c \<and> w \<in> lang s"
  then have "c # w = [c] @ w \<and> [c] \<in> lang (RCls rs) \<and> w \<in> lang s" by simp
  then show "c # w \<in> lang (RSeq (RCls rs) s)" unfolding lang.simps(4) by blast
qed auto

lemma seq_cls_Nil [simp]: "[] \<notin> lang (RSeq (RCls rs) s)"
  by simp

lemma seq_one [simp]: "lang (RSeq ROne s) = lang s" "lang (RSeq s ROne) = lang s"
  by auto

lemma lang_seq: "w \<in> lang (RSeq r s) \<longleftrightarrow> (\<exists>u v. w = u @ v \<and> u \<in> lang r \<and> v \<in> lang s)"
  by simp

declare lang.simps(4) [simp del]

lemma seq_zero [simp]: "lang (RSeq RZero s) = {}"
  by (simp add: lang.simps(4))

lemma seq_assoc [simp]: "lang (RSeq (RSeq r s) t) = lang (RSeq r (RSeq s t))"
proof (intro set_eqI iffI)
  fix w assume "w \<in> lang (RSeq (RSeq r s) t)"
  then show "w \<in> lang (RSeq r (RSeq s t))"
    by (auto simp: lang.simps(4)) (metis append.assoc)
next
  fix w assume "w \<in> lang (RSeq r (RSeq s t))"
  then show "w \<in> lang (RSeq (RSeq r s) t)"
    by (auto simp: lang.simps(4)) (metis append.assoc)
qed

lemma seq_alt [simp]: "lang (RSeq (RAlt r s) t) = lang (RSeq r t) \<union> lang (RSeq s t)"
  by (auto simp: lang.simps(4))

lemma lang_RPlus_cls:
  "lang (RPlus (RCls rs)) = {w. w \<noteq> [] \<and> (\<forall>c \<in> set w. in_cls rs c)}"
proof -
  have s: "w \<in> star (lang (RCls rs)) \<longleftrightarrow> (\<forall>c \<in> set w. in_cls rs c)" for w
    by (induction w) (auto simp: star_Cons intro: star_Nil)
  show ?thesis
  proof (intro set_eqI)
    fix w show "w \<in> lang (RPlus (RCls rs)) \<longleftrightarrow> w \<in> {w. w \<noteq> [] \<and> (\<forall>c \<in> set w. in_cls rs c)}"
      using s by (cases w) (simp_all add: RPlus_def del: lang.simps(3))
  qed
qed

lemma lang_RRep_cls:
  "lang (RRep n (RCls rs)) = {w. length w = n \<and> (\<forall>c \<in> set w. in_cls rs c)}"
proof (induction n)
  case (Suc n)
  have "w \<in> lang (RRep (Suc n) (RCls rs)) \<longleftrightarrow>
      w \<in> {w. length w = Suc n \<and> (\<forall>c \<in> set w. in_cls rs c)}" for w
    using Suc by (cases w) auto
  then show ?case by blast
qed auto

lemma lang_RUpTo_cls:
  "lang (RUpTo n (RCls rs)) = {w. length w \<le> n \<and> (\<forall>c \<in> set w. in_cls rs c)}"
proof (induction n)
  case (Suc n)
  have "w \<in> lang (RUpTo (Suc n) (RCls rs)) \<longleftrightarrow>
      w \<in> {w. length w \<le> Suc n \<and> (\<forall>c \<in> set w. in_cls rs c)}" for w
    using Suc by (cases w) (auto simp: ROpt_def)
  then show ?case by blast
qed auto

lemma lang_RBetween_cls:
  "m \<le> n \<Longrightarrow> lang (RBetween m n (RCls rs)) =
     {w. m \<le> length w \<and> length w \<le> n \<and> (\<forall>c \<in> set w. in_cls rs c)}"
proof (intro set_eqI iffI)
  fix w assume mn: "m \<le> n" and "w \<in> {w. m \<le> length w \<and> length w \<le> n \<and> (\<forall>c \<in> set w. in_cls rs c)}"
  then have "w = take m w @ drop m w" "take m w \<in> lang (RRep m (RCls rs))"
    "drop m w \<in> lang (RUpTo (n - m) (RCls rs))"
    unfolding lang_RRep_cls lang_RUpTo_cls by (auto dest: in_set_takeD in_set_dropD)
  then show "w \<in> lang (RBetween m n (RCls rs))" unfolding RBetween_def lang.simps(4) by blast
qed (auto simp: RBetween_def lang.simps(4) lang_RRep_cls lang_RUpTo_cls)

section \<open>Alphabet and length of a match\<close>

fun re_classes :: "re \<Rightarrow> (char \<times> char) list set" where
  "re_classes RZero = {}"
| "re_classes ROne = {}"
| "re_classes (RCls rs) = {rs}"
| "re_classes (RSeq r s) = re_classes r \<union> re_classes s"
| "re_classes (RAlt r s) = re_classes r \<union> re_classes s"
| "re_classes (RStar r) = re_classes r"

fun re_maxlen :: "re \<Rightarrow> nat option" where
  "re_maxlen RZero = Some 0"
| "re_maxlen ROne = Some 0"
| "re_maxlen (RCls rs) = Some 1"
| "re_maxlen (RSeq r s) =
     (case (re_maxlen r, re_maxlen s) of (Some m, Some n) \<Rightarrow> Some (m + n) | _ \<Rightarrow> None)"
| "re_maxlen (RAlt r s) =
     (case (re_maxlen r, re_maxlen s) of (Some m, Some n) \<Rightarrow> Some (max m n) | _ \<Rightarrow> None)"
| "re_maxlen (RStar r) = None"

lemma re_classes_lang:
  "w \<in> lang r \<Longrightarrow> c \<in> set w \<Longrightarrow> \<exists>rs \<in> re_classes r. in_cls rs c"
proof (induction r arbitrary: w)
  case (RSeq r s)
  then show ?case by (fastforce simp: lang.simps(4))
next
  case (RStar r)
  have "w \<in> star (lang r)" using RStar.prems by simp
  then show ?case using RStar.prems(2) RStar.IH
    by (induction rule: star.induct) auto
qed auto

lemma re_maxlen_lang: "w \<in> lang r \<Longrightarrow> re_maxlen r = Some n \<Longrightarrow> length w \<le> n"
proof (induction r arbitrary: w n)
  case (RSeq r s)
  then show ?case by (fastforce simp: lang.simps(4) split: option.splits intro: add_mono)
next
  case (RAlt r s)
  then show ?case by (fastforce split: option.splits simp: le_max_iff_disj)
qed auto

end
