(* ===== verification/MatrixIds.thy ===== *)
theory MatrixIds
  imports Regex
begin

text \<open>
  packages/utils of the chat application: the Matrix error bodies (src/errors.ts), the
  parameter check of the request handlers and the Matrix user identifiers (src/utils.ts).
  Every pattern of the source is transliterated to a \<open>re\<close>; the lookaheads of the DNS
  pattern, which is anchored, are the conjuncts of \<open>dns_name_test\<close>.
\<close>

section \<open>Error bodies\<close>

definition errCodes :: "(string \<times> string) list" where
  "errCodes =
    [(''forbidden'', ''M_FORBIDDEN''),
     (''unAuthorized'', ''M_UNAUTHORIZED''),
     (''notFound'', ''M_NOT_FOUND''),
     (''missingParams'', ''M_MISSING_PARAMS''),
     (''invalidParam'', ''M_INVALID_PARAM''),
     (''sessionNotValidated'', ''M_SESSION_NOT_VALIDATED''),
     (''noValidSession'', ''M_NO_VALID_SESSION''),
     (''sessionExpired'', ''M_SESSION_EXPIRED''),
     (''invalidEmail'', ''M_INVALID_EMAIL''),
     (''emailSendError'', ''M_EMAIL_SEND_ERROR''),
     (''invalidAddress'', ''M_INVALID_ADDRESS''),
     (''sendError'', ''M_SEND_ERROR''),
     (''termsNotSigned'', ''M_TERMS_NOT_SIGNED''),
     (''threepidInUse'', ''M_THREEPID_IN_USE''),
     (''unknown'', ''M_UNKNOWN''),
     (''unrecognized'', ''M_UNRECOGNIZED''),
     (''unknownToken'', ''M_UNKNOWN_TOKEN''),
     (''missingToken'', ''M_MISSING_TOKEN''),
     (''badJson'', ''M_BAD_JSON''),
     (''notJson'', ''M_NOT_JSON''),
     (''limitExceeded'', ''M_LIMIT_EXCEEDED''),
     (''userDeactivated'', ''M_USER_DEACTIVATED''),
     (''userInUse'', ''M_USER_IN_USE''),
     (''invalidUsername'', ''M_INVALID_USERNAME''),
     (''roomInUse'', ''M_ROOM_IN_USE''),
     (''invalidRoomState'', ''M_INVALID_ROOM_STATE''),
     (''threepidNotFound'', ''M_THREEPID_NOT_FOUND''),
     (''threepidAuthFailed'', ''M_THREEPID_AUTH_FAILED''),
     (''threepidDenied'', ''M_THREEPID_DENIED''),
     (''serverNotTrusted'', ''M_SERVER_NOT_TRUSTED''),
     (''unsupportedRoomVersion'', ''M_UNSUPPORTED_ROOM_VERSION''),
     (''incompatibleRoomVersion'', ''M_INCOMPATIBLE_ROOM_VERSION''),
     (''badState'', ''M_BAD_STATE''),
     (''guestAccessForbidden'', ''M_GUEST_ACCESS_FORBIDDEN''),
     (''captchaNeeded'', ''M_CAPTCHA_NEEDED''),
     (''captchaInvalid'', ''M_CAPTCHA_INVALID''),
     (''missingParam'', ''M_MISSING_PARAM''),
     (''tooLarge'', ''M_TOO_LARGE''),
     (''exclusive'', ''M_EXCLUSIVE''),
     (''resourceLimitExceeded'', ''M_RESOURCE_LIMIT_EXCEEDED''),
     (''cannotLeaveServerNoticeRoom'', ''M_CANNOT_LEAVE_SERVER_NOTICE_ROOM''),
     (''tokenMax'', ''TOKEN_USED_TOO_MANY_TIMES'')]"

definition capitalise :: "string \<Rightarrow> string" where
  "capitalise s = (case to_lower s of [] \<Rightarrow> [] | c # cs \<Rightarrow> upper_char c # cs)"

definition defaultMsg :: "string \<Rightarrow> string" where
  "defaultMsg s =
     join '' '' (map capitalise
       (split_on CHR ''_'' (if starts_with s ''M_'' then drop 2 s else s)))"

definition errMsg :: "string \<Rightarrow> string option \<Rightarrow> jsval" where
  "errMsg code explanation =
     (let errCode = getp (map (\<lambda>(k, c). (k, JStr c)) errCodes) code in
      JObj [(''errcode'', errCode),
            (''error'', case explanation of
                          Some e \<Rightarrow> JStr e
                        | None \<Rightarrow> JStr (defaultMsg (js_str errCode)))])"

section \<open>Required parameters\<close>

datatype reply = Sent int jsval | Callback obj

definition missing_params :: "(string \<times> bool) list \<Rightarrow> obj \<Rightarrow> string list" where
  "missing_params desc content =
     map fst (filter (\<lambda>(key, required). required \<and> nullish (getp content key)) desc)"

definition validateParameters :: "(string \<times> bool) list \<Rightarrow> obj \<Rightarrow> reply" where
  "validateParameters desc content =
     (let missingParameters = missing_params desc content in
      if length missingParameters > 0 then
        Sent 400 (errMsg ''missingParams''
          (Some (''Missing parameters '' @ join '', '' missingParameters)))
      else Callback content)"

section \<open>The patterns\<close>

definition MAX_MATRIX_ID_LENGTH :: nat where
  "MAX_MATRIX_ID_LENGTH = 255"

abbreviation d09 :: "(char \<times> char) list" where
  "d09 \<equiv> [(CHR ''0'', CHR ''9'')]"

abbreviation hex_cls :: "(char \<times> char) list" where
  "hex_cls \<equiv> [(CHR ''0'', CHR ''9''), (CHR ''a'', CHR ''f''), (CHR ''A'', CHR ''F'')]"

abbreviation alnum_cls :: "(char \<times> char) list" where
  "alnum_cls \<equiv> [(CHR ''a'', CHR ''z''), (CHR ''A'', CHR ''Z''), (CHR ''0'', CHR ''9'')]"

abbreviation alnum_dash_cls :: "(char \<times> char) list" where
  "alnum_dash_cls \<equiv>
     [(CHR ''a'', CHR ''z''), (CHR ''A'', CHR ''Z''), (CHR ''0'', CHR ''9''), (CHR ''-'', CHR ''-'')]"

definition localpart_cls :: "(char \<times> char) list" where
  "localpart_cls =
     [(CHR ''a'', CHR ''z''), (CHR ''0'', CHR ''9''), (CHR ''_'', CHR ''_''), (CHR ''-'', CHR ''-''),
      (CHR ''.'', CHR ''.''), (CHR ''='', CHR ''=''), (CHR ''/'', CHR ''/''), (CHR ''+'', CHR ''+'')]"

definition VALID_LOCALPART_REGEX :: re where
  "VALID_LOCALPART_REGEX = RPlus (RCls localpart_cls)"

text \<open>\<open>25[0-5]|2[0-4][0-9]|[01]?[0-9][0-9]?\<close>\<close>

definition octet_re :: re where
  "octet_re =
     RAlts [RSeq (RLit ''25'') (RCls [(CHR ''0'', CHR ''5'')]),
            RSeqs [RChr CHR ''2'', RCls [(CHR ''0'', CHR ''4'')], RCls d09],
            RSeqs [ROpt (RCls [(CHR ''0'', CHR ''1'')]), RCls d09, ROpt (RCls d09)]]"

definition IPV4_REGEX :: re where
  "IPV4_REGEX = RSeq (RRep 3 (RSeq octet_re (RChr CHR ''.''))) octet_re"

text \<open>\<open>(?:\d{1,3}\.){3}\d{1,3}\<close>\<close>

definition looks_like_ipv4_re :: re where
  "looks_like_ipv4_re =
     RSeq (RRep 3 (RSeq (RBetween 1 3 (RCls d09)) (RChr CHR ''.''))) (RBetween 1 3 (RCls d09))"

definition h16 :: re where
  "h16 = RBetween 1 4 (RCls hex_cls)"

definition h16c :: re where
  "h16c = RSeq h16 (RChr CHR '':'')"

definition ch16 :: re where
  "ch16 = RSeq (RChr CHR '':'') h16"

text \<open>\<open>25[0-5]|(?:2[0-4]|1?[0-9])?[0-9]\<close>\<close>

definition octet6_re :: re where
  "octet6_re =
     RAlt (RSeq (RLit ''25'') (RCls [(CHR ''0'', CHR ''5'')]))
          (RSeq (ROpt (RAlt (RSeq (RChr CHR ''2'') (RCls [(CHR ''0'', CHR ''4'')]))
                            (RSeq (ROpt (RChr CHR ''1'')) (RCls d09))))
                (RCls d09))"

definition IPV6_REGEX :: re where
  "IPV6_REGEX =
     RSeqs [RChr CHR ''['',
       RAlts [RSeq (RRep 7 h16c) h16,
              RSeq (RBetween 1 7 h16c) (RChr CHR '':''),
              RSeq (RBetween 1 6 h16c) ch16,
              RSeq (RBetween 1 5 h16c) (RBetween 1 2 ch16),
              RSeq (RBetween 1 4 h16c) (RBetween 1 3 ch16),
              RSeq (RBetween 1 3 h16c) (RBetween 1 4 ch16),
              RSeq (RBetween 1 2 h16c) (RBetween 1 5 ch16),
              RSeq h16c (RBetween 1 6 ch16),
              RSeq (RChr CHR '':'') (RAlt (RBetween 1 7 ch16) (RChr CHR '':'')),
              RSeqs [RLit ''::'',
                ROpt (RSeqs [RLit ''ffff'', ROpt (RSeq (RChr CHR '':'') (RBetween 1 4 (RChr CHR ''0''))),
                             RChr CHR '':'']),
                RRep 3 (RSeq octet6_re (RChr CHR ''.'')), octet6_re]],
       RChr CHR '']'']"

text \<open>One label: \<open>[a-zA-Z0-9](?:[a-zA-Z0-9-]{0,61}[a-zA-Z0-9])?\<close>\<close>

definition label_re :: re where
  "label_re =
     RSeq (RCls alnum_cls) (ROpt (RSeq (RBetween 0 61 (RCls alnum_dash_cls)) (RCls alnum_cls)))"

definition DNS_NAME_REGEX :: re where
  "DNS_NAME_REGEX = RSeq (RStar (RSeq label_re (RChr CHR ''.''))) label_re"

definition dns_name_test :: "string \<Rightarrow> bool" where
  "dns_name_test h \<longleftrightarrow>
     \<not> contains h ''..'' \<and>
     \<not> (h \<noteq> [] \<and> last h = CHR ''-'') \<and>
     \<not> starts_with h ''-'' \<and>
     re_test DNS_NAME_REGEX h"

text \<open>\<open>6553[0-5]|655[0-2][0-9]|65[0-4][0-9]{2}|6[0-4][0-9]{3}|[1-5][0-9]{4}|[1-9][0-9]{0,3}\<close>\<close>

definition port_number_re :: re where
  "port_number_re =
     RAlts [RSeq (RLit ''6553'') (RCls [(CHR ''0'', CHR ''5'')]),
            RSeq (RLit ''655'') (RSeq (RCls [(CHR ''0'', CHR ''2'')]) (RCls d09)),
            RSeq (RLit ''65'') (RSeq (RCls [(CHR ''0'', CHR ''4'')]) (RRep 2 (RCls d09))),
            RSeq (RLit ''6'') (RSeq (RCls [(CHR ''0'', CHR ''4'')]) (RRep 3 (RCls d09))),
            RSeq (RCls [(CHR ''1'', CHR ''5'')]) (RRep 4 (RCls d09)),
            RSeq (RCls [(CHR ''1'', CHR ''9'')]) (RBetween 0 3 (RCls d09))]"

definition PORT_REGEX :: re where
  "PORT_REGEX = RSeq (RChr CHR '':'') port_number_re"

section \<open>Server names and user identifiers\<close>

definition isValidServerName :: "string \<Rightarrow> bool" where
  "isValidServerName serverName =
     (if serverName = [] then False
      else if starts_with serverName ''['' then
        (case index_of CHR '']'' serverName of
           None \<Rightarrow> False
         | Some bracketEnd \<Rightarrow>
             let hostname = take (bracketEnd + 1) serverName;
                 portPart = drop (bracketEnd + 1) serverName
             in if \<not> re_test IPV6_REGEX hostname then False
                else if length portPart > 0 then re_test PORT_REGEX portPart
                else True)
      else
        (let (hostname, portPart) =
               (case last_index_of CHR '':'' serverName of
                  Some i \<Rightarrow> if i > 0 then (take i serverName, drop i serverName) else (serverName, [])
                | None \<Rightarrow> (serverName, []))
         in if re_test looks_like_ipv4_re hostname \<and> \<not> re_test IPV4_REGEX hostname then False
            else if \<not> re_test looks_like_ipv4_re hostname \<and> \<not> dns_name_test hostname then False
            else if length portPart > 0 then re_test PORT_REGEX portPart
            else True))"

text \<open>What \<open>toMatrixId\<close> throws: a \<open>TypeError\<close> or an \<open>errMsg\<close> body.\<close>

datatype mxid_error = TypeErr string | MatrixErr jsval

definition toMatrixId :: "string \<Rightarrow> string \<Rightarrow> mxid_error + string" where
  "toMatrixId localpart serverName =
     (if localpart = [] then Inl (TypeErr ''localpart must be a non-empty string'')
      else if serverName = [] then Inl (TypeErr ''serverName must be a non-empty string'')
      else if \<not> re_test VALID_LOCALPART_REGEX localpart
        then Inl (MatrixErr (errMsg ''invalidUsername'' None))
      else if \<not> isValidServerName serverName
        then Inl (TypeErr ''serverName contains invalid characters or format according to Matrix specification.'')
      else
        let matrixId = ''@'' @ localpart @ '':'' @ serverName in
        if length matrixId > MAX_MATRIX_ID_LENGTH
        then Inl (TypeErr (''Matrix ID exceeds maximum length of '' @ nat_str MAX_MATRIX_ID_LENGTH
                           @ '' characters (got '' @ nat_str (length matrixId) @ '')''))
        else Inr matrixId)"

definition isMatrixId :: "string \<Rightarrow> bool" where
  "isMatrixId i =
     (if \<not> starts_with i ''@'' then False
      else if length i > MAX_MATRIX_ID_LENGTH then False
      else case index_of CHR '':'' (drop 1 i) of
             None \<Rightarrow> False
           | Some j \<Rightarrow>
               let firstColonIndex = j + 1;
                   localpart = drop 1 (take firstColonIndex i);
                   serverName = drop (firstColonIndex + 1) i
               in if localpart = [] \<or> serverName = [] then False
                  else if \<not> re_test VALID_LOCALPART_REGEX localpart then False
                  else isValidServerName serverName)"

definition getLocalPart :: "string \<Rightarrow> string option" where
  "getLocalPart i =
     (if i = [] \<or> \<not> starts_with i ''@'' then None
      else let parts = split_on CHR '':'' i in
           if length parts < 2 then None else Some (drop 1 (hd parts)))"

section \<open>What the patterns accept\<close>

lemma digit0 [simp]: "digit_char 0 = CHR ''0''"
proof -
  have "char_of (of_char (CHR ''0'') :: nat) = CHR ''0''" by (rule char_of_char)
  then show ?thesis by (simp add: digit_char_def)
qed

lemma digit_char_0 [simp]: "n < 10 \<Longrightarrow> digit_char n = CHR ''0'' \<longleftrightarrow> n = 0"
  using digit_char_inj [of n 0] by simp

lemma in_cls_digit:
  "n < 10 \<Longrightarrow> in_cls [(CHR ''0'', CHR ''9'')] (digit_char n)"
  "n < 10 \<Longrightarrow> in_cls [(CHR ''0'', CHR ''5'')] (digit_char n) \<longleftrightarrow> n \<le> 5"
  "n < 10 \<Longrightarrow> in_cls [(CHR ''0'', CHR ''4'')] (digit_char n) \<longleftrightarrow> n \<le> 4"
  "n < 10 \<Longrightarrow> in_cls [(CHR ''0'', CHR ''2'')] (digit_char n) \<longleftrightarrow> n \<le> 2"
  "n < 10 \<Longrightarrow> in_cls [(CHR ''0'', CHR ''1'')] (digit_char n) \<longleftrightarrow> n \<le> 1"
  "n < 10 \<Longrightarrow> in_cls [(CHR ''1'', CHR ''5'')] (digit_char n) \<longleftrightarrow> 1 \<le> n \<and> n \<le> 5"
  "n < 10 \<Longrightarrow> in_cls [(CHR ''1'', CHR ''9'')] (digit_char n) \<longleftrightarrow> 1 \<le> n"
  "n < 10 \<Longrightarrow> in_cls [(CHR ''2'', CHR ''2'')] (digit_char n) \<longleftrightarrow> n = 2"
  "n < 10 \<Longrightarrow> in_cls [(CHR ''3'', CHR ''3'')] (digit_char n) \<longleftrightarrow> n = 3"
  "n < 10 \<Longrightarrow> in_cls [(CHR ''5'', CHR ''5'')] (digit_char n) \<longleftrightarrow> n = 5"
  "n < 10 \<Longrightarrow> in_cls [(CHR ''6'', CHR ''6'')] (digit_char n) \<longleftrightarrow> n = 6"
  by (auto simp: in_cls_def in_range_def of_char_digit_char)

lemma in_d09: "in_cls [(CHR ''0'', CHR ''9'')] c \<longleftrightarrow> is_digit c"
  by (simp add: in_cls_def is_digit_def)

lemma digit_sub:
  "in_cls [(lo, hi)] c \<Longrightarrow> is_digit lo \<Longrightarrow> is_digit hi \<Longrightarrow> is_digit c"
  by (auto simp: in_cls_def in_range_def is_digit_def)

lemma nat_str_dec_val:
  "w \<noteq> [] \<Longrightarrow> \<forall>c \<in> set w. is_digit c \<Longrightarrow> hd w \<noteq> CHR ''0'' \<or> length w = 1 \<Longrightarrow> nat_str (dec_val w) = w"
proof (induction w rule: rev_induct)
  case (snoc c w)
  obtain n where n: "n < 10" "c = digit_char n" using snoc.prems(2) is_digitE [of c] by auto
  show ?case
  proof (cases "w = []")
    case True
    with n show ?thesis using dec_val_snoc [of "[]" c] by (simp add: nat_str.simps [of n])
  next
    case False
    with snoc.prems have IH: "nat_str (dec_val w) = w" and h: "hd w \<noteq> CHR ''0''"
      using snoc.IH by auto
    have "dec_val w \<noteq> 0"
    proof
      assume "dec_val w = 0"
      with IH have "w = nat_str 0" by simp
      then show False using h by (simp add: nat_str.simps [of 0])
    qed
    then have "\<not> 10 * dec_val w + n < 10" by simp
    with n IH show ?thesis by (subst nat_str.simps) simp
  qed
qed simp

lemma hd_nat_str: "0 < n \<Longrightarrow> hd (nat_str n) \<noteq> CHR ''0''"
proof (induction n rule: nat_str.induct)
  case (1 n)
  show ?case
  proof (cases "n < 10")
    case True
    with 1 show ?thesis by (simp add: nat_str.simps [of n])
  next
    case False
    with 1 show ?thesis by (simp add: nat_str.simps [of n])
  qed
qed

lemma dec_val_ge: "\<forall>c \<in> set w. is_digit c \<Longrightarrow> w \<noteq> [] \<Longrightarrow> hd w \<noteq> CHR ''0'' \<Longrightarrow> 10 ^ (length w - 1) \<le> dec_val w"
proof (induction w rule: rev_induct)
  case (snoc c w)
  show ?case
  proof (cases "w = []")
    case True
    obtain n where n: "n < 10" "c = digit_char n" using snoc.prems is_digitE [of c] by auto
    with True snoc.prems have "n \<noteq> 0" by auto
    with True n show ?thesis using dec_val_snoc [of "[]" c] by simp
  next
    case False
    with snoc have "10 ^ (length w - 1) \<le> dec_val w" by simp
    moreover have "length w = Suc (length w - 1)" using False by (cases w) auto
    ultimately have "10 ^ length w \<le> 10 * dec_val w" by (metis mult_le_mono2 power_Suc)
    then show ?thesis by simp
  qed
qed simp

lemma dec_val_Cons_expand:
  "dec_val [a] = digit_val a"
  "dec_val [a, b] = 10 * digit_val a + digit_val b"
  "dec_val [a, b, c] = 100 * digit_val a + 10 * digit_val b + digit_val c"
  "dec_val [a, b, c, d] = 1000 * digit_val a + 100 * digit_val b + 10 * digit_val c + digit_val d"
  "dec_val [a, b, c, d, e] =
     10000 * digit_val a + 1000 * digit_val b + 100 * digit_val c + 10 * digit_val d + digit_val e"
  by (simp_all add: dec_val_def)


lemma port_alts:
  "w \<in> lang port_number_re \<longleftrightarrow>
     w \<in> lang (RSeq (RLit ''6553'') (RCls [(CHR ''0'', CHR ''5'')])) \<or>
     w \<in> lang (RSeq (RLit ''655'') (RSeq (RCls [(CHR ''0'', CHR ''2'')]) (RCls d09))) \<or>
     w \<in> lang (RSeq (RLit ''65'') (RSeq (RCls [(CHR ''0'', CHR ''4'')]) (RRep 2 (RCls d09)))) \<or>
     w \<in> lang (RSeq (RLit ''6'') (RSeq (RCls [(CHR ''0'', CHR ''4'')]) (RRep 3 (RCls d09)))) \<or>
     w \<in> lang (RSeq (RCls [(CHR ''1'', CHR ''5'')]) (RRep 4 (RCls d09))) \<or>
     w \<in> lang (RSeq (RCls [(CHR ''1'', CHR ''9'')]) (RBetween 0 3 (RCls d09)))"
  by (simp add: port_number_re_def)


lemma port5:
  assumes "a < 10" "b < 10" "c < 10" "d < 10" "e < 10"
  shows "map digit_char [a, b, c, d, e] \<in> lang port_number_re \<longleftrightarrow>
    a \<noteq> 0 \<and> 10000 * a + 1000 * b + 100 * c + 10 * d + e \<le> 65535"
proof -
  have "map digit_char [a, b, c, d, e] \<in> lang port_number_re \<longleftrightarrow>
      a = 6 \<and> b = 5 \<and> c = 5 \<and> d = 3 \<and> e \<le> 5 \<or> a = 6 \<and> b = 5 \<and> c = 5 \<and> d \<le> 2 \<or>
      a = 6 \<and> b = 5 \<and> c \<le> 4 \<or> a = 6 \<and> b \<le> 4 \<or> 1 \<le> a \<and> a \<le> 5"
    unfolding port_alts using assms by (simp add: in_cls_digit re_defs)
  also have "\<dots> \<longleftrightarrow> a \<noteq> 0 \<and> 10000 * a + 1000 * b + 100 * c + 10 * d + e \<le> 65535"
    using assms by (cases "a = 6"; cases "b = 5"; cases "c = 5"; cases "d = 3"; simp; linarith?)
  finally show ?thesis .
qed

lemma port_short:
  assumes "a < 10" "\<forall>c \<in> set w. is_digit c" "length w \<le> 3"
  shows "digit_char a # w \<in> lang port_number_re \<longleftrightarrow> a \<noteq> 0"
  unfolding port_alts using assms
   by (cases w; cases "tl w"; cases "tl (tl w)")
      (auto simp: in_cls_digit re_defs in_d09)

lemma port_lang_digits:
  assumes "w \<in> lang port_number_re"
  shows "(\<forall>c \<in> set w. is_digit c) \<and> w \<noteq> [] \<and> length w \<le> 5"
proof (intro conjI ballI)
  fix c assume "c \<in> set w"
  then obtain rs where "rs \<in> re_classes port_number_re" "in_cls rs c"
    using assms re_classes_lang by blast
  then show "is_digit c"
    by (auto simp: port_number_re_def re_defs in_cls_def in_range_def is_digit_def)
next
  show "w \<noteq> []" using assms unfolding nullable_iff [symmetric] port_alts
     by (auto simp: lang.simps(4) re_defs)
  have "re_maxlen port_number_re = Some 5" by (simp add: port_number_re_def re_defs)
  then show "length w \<le> 5" using assms re_maxlen_lang by blast
qed

lemma digits_map:
  "\<forall>c \<in> set w. is_digit c \<Longrightarrow> \<exists>ns. w = map digit_char ns \<and> (\<forall>n \<in> set ns. n < 10)"
proof (induction w)
  case (Cons c w)
  then obtain ns where "w = map digit_char ns" "\<forall>n \<in> set ns. n < 10" by auto
  moreover obtain n where "n < 10" "c = digit_char n" using Cons.prems is_digitE [of c] by auto
  ultimately have "c # w = map digit_char (n # ns) \<and> (\<forall>k \<in> set (n # ns). k < 10)" by simp
  then show ?case by (rule exI)
qed simp

lemma dec_val_less: "\<forall>c \<in> set w. is_digit c \<Longrightarrow> dec_val w < 10 ^ length w"
proof (induction w rule: rev_induct)
  case (snoc c w)
  then have "dec_val w < 10 ^ length w" "digit_val c < 10" by (auto elim: is_digitE)
  then show ?case by simp
qed simp

lemma in_cls_single: "in_cls [(c, c)] x \<longleftrightarrow> x = c"
proof -
  have "(of_char c :: nat) = of_char x \<longleftrightarrow> x = c" by auto
  then show ?thesis by (auto simp: in_cls_def in_range_def)
qed

lemma port_number_iff:
  "w \<in> lang port_number_re \<longleftrightarrow>
     w \<noteq> [] \<and> (\<forall>c \<in> set w. is_digit c) \<and> hd w \<noteq> CHR ''0'' \<and> dec_val w \<le> 65535"
proof (cases "w \<noteq> [] \<and> (\<forall>c \<in> set w. is_digit c) \<and> length w \<le> 5")
  case True
  then obtain x xs where w: "w = x # xs" by (cases w) auto
  with True obtain a where a: "a < 10" "x = digit_char a" using is_digitE [of x] by auto
  show ?thesis
  proof (cases "length xs \<le> 3")
    case short: True
    have "dec_val w < 10 ^ length w" using True dec_val_less by blast
    also have "(10::nat) ^ length w \<le> 10 ^ 4" using short w by (intro power_increasing) auto
    finally have "dec_val w \<le> 65535" by simp
    with short True w a show ?thesis using port_short [of a xs] by auto
  next
    case False
    from True w obtain ns where ns: "xs = map digit_char ns" "\<forall>n \<in> set ns. n < 10"
      using digits_map [of xs] by auto
    from False True w ns have "length ns = 4" by simp
    then obtain b c d e where "ns = [b, c, d, e]" by (auto simp: length_Suc_conv numeral_eq_Suc)
    with a w ns True show ?thesis
      using port5 [of a b c d e] by (simp add: dec_val_Cons_expand) 
  qed
next
  case False
  have "\<not> (w \<noteq> [] \<and> (\<forall>c \<in> set w. is_digit c) \<and> hd w \<noteq> CHR ''0'' \<and> dec_val w \<le> 65535)"
  proof
    assume r: "w \<noteq> [] \<and> (\<forall>c \<in> set w. is_digit c) \<and> hd w \<noteq> CHR ''0'' \<and> dec_val w \<le> 65535"
    with False have "5 \<le> length w - 1" by auto
    then have "(10::nat) ^ 5 \<le> 10 ^ (length w - 1)" by (rule power_increasing) simp
    with r dec_val_ge [of w] show False by simp
  qed
  with False port_lang_digits show ?thesis by blast
qed

text \<open>
  the port pattern accepts a colon and a number without leading zero in 1..65535,
  all of them and nothing else.
\<close>

theorem port_regex:
  "re_test PORT_REGEX w \<longleftrightarrow> (\<exists>n. 1 \<le> n \<and> n \<le> 65535 \<and> w = '':'' @ nat_str n)"
proof -
  have "re_test PORT_REGEX w \<longleftrightarrow> (\<exists>u. w = CHR '':'' # u \<and> u \<in> lang port_number_re)"
    by (cases w) (auto simp: re_test_iff PORT_REGEX_def in_cls_single)
  also have "\<dots> \<longleftrightarrow> (\<exists>n. 1 \<le> n \<and> n \<le> 65535 \<and> w = '':'' @ nat_str n)"
  proof -
    have "u \<in> lang port_number_re \<longleftrightarrow> (\<exists>n. 1 \<le> n \<and> n \<le> 65535 \<and> u = nat_str n)" for u
    proof
      assume "u \<in> lang port_number_re"
      then have u: "u \<noteq> []" "\<forall>c \<in> set u. is_digit c" "hd u \<noteq> CHR ''0''" "dec_val u \<le> 65535"
        unfolding port_number_iff by auto
      from u dec_val_ge [of u] have "1 \<le> dec_val u" by (metis le_trans one_le_power one_le_numeral)
      with u nat_str_dec_val [of u] show "\<exists>n. 1 \<le> n \<and> n \<le> 65535 \<and> u = nat_str n" by metis
    next
      assume "\<exists>n. 1 \<le> n \<and> n \<le> 65535 \<and> u = nat_str n"
      then show "u \<in> lang port_number_re"
        unfolding port_number_iff using hd_nat_str nat_str_digits by auto
    qed
    then show ?thesis by auto
  qed
  finally show ?thesis .
qed

definition dns_label :: "string \<Rightarrow> bool" where
  "dns_label l \<longleftrightarrow> l \<noteq> [] \<and> length l \<le> 63 \<and> (\<forall>c \<in> set l. in_cls alnum_dash_cls c) \<and>
     in_cls alnum_cls (hd l) \<and> in_cls alnum_cls (last l)"

lemma alnum_dash: "in_cls alnum_cls c \<Longrightarrow> in_cls alnum_dash_cls c"
  by (auto simp: in_cls_def)

lemma dash_not_alnum: "\<not> in_cls alnum_cls CHR ''-''" "\<not> in_cls alnum_dash_cls CHR ''.''"
  by (simp_all add: in_cls_def in_range_def)

lemma tail_lang:
  "w \<in> lang (RSeq (RBetween 0 61 (RCls alnum_dash_cls)) (RCls alnum_cls)) \<longleftrightarrow>
   w \<noteq> [] \<and> length w \<le> 62 \<and> (\<forall>c \<in> set (butlast w). in_cls alnum_dash_cls c) \<and> in_cls alnum_cls (last w)"
proof
  assume "w \<noteq> [] \<and> length w \<le> 62 \<and> (\<forall>c \<in> set (butlast w). in_cls alnum_dash_cls c) \<and> in_cls alnum_cls (last w)"
  then have "w = butlast w @ [last w]" "butlast w \<in> lang (RBetween 0 61 (RCls alnum_dash_cls))"
    "[last w] \<in> lang (RCls alnum_cls)"
    by (auto simp: lang_RBetween_cls)
  then show "w \<in> lang (RSeq (RBetween 0 61 (RCls alnum_dash_cls)) (RCls alnum_cls))"
    unfolding lang_seq by blast
qed (auto simp: lang_seq lang_RBetween_cls)

lemma lang_label: "l \<in> lang label_re \<longleftrightarrow> dns_label l"
proof (cases l)
  case (Cons c w)
  have "l \<in> lang label_re \<longleftrightarrow>
      in_cls alnum_cls c \<and> (w = [] \<or> w \<in> lang (RSeq (RBetween 0 61 (RCls alnum_dash_cls)) (RCls alnum_cls)))"
    by (auto simp: label_re_def ROpt_def Cons)
  also have "\<dots> \<longleftrightarrow> dns_label l"
    unfolding tail_lang by (cases w rule: rev_cases) (auto simp: dns_label_def Cons alnum_dash)
  finally show ?thesis .
qed (simp add: label_re_def dns_label_def)

lemma dns_label_no_dot: "dns_label l \<Longrightarrow> CHR ''.'' \<notin> set l"
  using dash_not_alnum by (auto simp: dns_label_def)

lemma star_dotted:
  "w \<in> star (lang (RSeq label_re (RChr CHR ''.''))) \<longleftrightarrow>
     (\<exists>ls. (\<forall>l \<in> set ls. dns_label l) \<and> w = concat (map (\<lambda>l. l @ ''.'') ls))"
proof
  assume "w \<in> star (lang (RSeq label_re (RChr CHR ''.'')))"
  then show "\<exists>ls. (\<forall>l \<in> set ls. dns_label l) \<and> w = concat (map (\<lambda>l. l @ ''.'') ls)"
  proof (induction rule: star.induct)
    case (star_app u v)
    then obtain l ls where "u = l @ ''.''" "dns_label l" "\<forall>l \<in> set ls. dns_label l"
      "v = concat (map (\<lambda>l. l @ ''.'') ls)"
      by (auto simp: lang_seq lang_label in_cls_single)
    then have "(\<forall>l \<in> set (l # ls). dns_label l) \<and> u @ v = concat (map (\<lambda>l. l @ ''.'') (l # ls))"
      by simp
    then show ?case by (rule exI)
  qed (auto intro: exI [of _ "[]"])
next
  assume "\<exists>ls. (\<forall>l \<in> set ls. dns_label l) \<and> w = concat (map (\<lambda>l. l @ ''.'') ls)"
  then obtain ls where ls: "\<forall>l \<in> set ls. dns_label l" "w = concat (map (\<lambda>l. l @ ''.'') ls)" by blast
  have "l @ ''.'' \<in> lang (RSeq label_re (RChr CHR ''.''))" if "dns_label l" for l
    using that by (auto simp: lang_seq lang_label in_cls_single)
  then have "concat (map (\<lambda>l. l @ ''.'') ls) \<in> star (lang (RSeq label_re (RChr CHR ''.'')))"
    using ls(1) by (induction ls) (auto intro: star_Nil simp del: append_assoc intro!: star_app)
  with ls show "w \<in> star (lang (RSeq label_re (RChr CHR ''.'')))" by simp
qed

lemma split_on_dotted:
  "\<forall>l \<in> set ls. CHR ''.'' \<notin> set l \<Longrightarrow> CHR ''.'' \<notin> set k \<Longrightarrow>
   split_on CHR ''.'' (concat (map (\<lambda>l. l @ ''.'') ls) @ k) = ls @ [k]"
  by (induction ls) (auto simp: split_on_append split_on_single)

lemma lang_dns:
  "w \<in> lang DNS_NAME_REGEX \<longleftrightarrow> (\<forall>l \<in> set (split_on CHR ''.'' w). dns_label l)"
proof
  assume "w \<in> lang DNS_NAME_REGEX"
  then obtain ls k where w: "\<forall>l \<in> set ls. dns_label l" "dns_label k"
    "w = concat (map (\<lambda>l. l @ ''.'') ls) @ k"
    by (auto simp: DNS_NAME_REGEX_def lang_seq [of _ _ label_re] lang_label star_dotted)
  then have "split_on CHR ''.'' w = ls @ [k]" using split_on_dotted dns_label_no_dot by auto
  with w show "\<forall>l \<in> set (split_on CHR ''.'' w). dns_label l" by auto
next
  assume a: "\<forall>l \<in> set (split_on CHR ''.'' w). dns_label l"
  have j: "join ''.'' (ls @ [k]) = concat (map (\<lambda>l. l @ ''.'') ls) @ k" for ls k
  proof (induction ls)
    case (Cons l ls)
    then show ?case by (cases "ls @ [k]") auto
  qed simp
  obtain ls k where s: "split_on CHR ''.'' w = ls @ [k]" by (metis split_on_not_Nil rev_exhaust)
  then have "w = concat (map (\<lambda>l. l @ ''.'') ls) @ k"
    using join_split_on [of "CHR ''.''" w] j by metis
  with a s show "w \<in> lang DNS_NAME_REGEX"
    by (auto simp: DNS_NAME_REGEX_def lang_seq [of _ _ label_re] lang_label star_dotted)
qed

lemma contains_iff: "contains s p \<longleftrightarrow> (\<exists>u v. s = u @ p @ v)"
proof (induction s p rule: contains.induct)
  case (3 x xs p ps)
  have "starts_with (x # xs) (p # ps) \<longleftrightarrow> (\<exists>v. x # xs = (p # ps) @ v)"
    by (auto simp: starts_with_def) (metis append_take_drop_id)
  with 3 show ?case by (auto simp: Cons_eq_append_conv)
qed auto

lemma split_on_double: "[] \<in> set (split_on c (u @ c # c # v))"
proof -
  have "split_on c (u @ c # w) = split_on c u @ split_on c w" for w
  proof (induction u)
    case (Cons x u)
    then show ?case by (cases "split_on c u") auto
  qed simp
  then show ?thesis by simp
qed

text \<open>
  the DNS branch of the server name check accepts exactly the names whose dot separated
  labels are non-empty, at most 63 characters of letters, digits and dashes, and start and end
  with a letter or digit; the three lookaheads of the pattern are implied.
\<close>

theorem dns_name_iff: "dns_name_test h \<longleftrightarrow> (\<forall>l \<in> set (split_on CHR ''.'' h). dns_label l)"
proof -
  have "dns_name_test h" if a: "\<forall>l \<in> set (split_on CHR ''.'' h). dns_label l"
  proof -
    have "\<not> contains h ''..''"
      using a split_on_double [of "CHR ''.''"] by (auto simp: contains_iff dns_label_def)
    moreover obtain l ls where s: "split_on CHR ''.'' h = l # ls" by (cases "split_on CHR ''.'' h") auto
    have h: "h = join ''.'' (l # ls)" using join_split_on [of "CHR ''.''" h] s by simp
    have l: "l \<noteq> []" "hd l \<noteq> CHR ''-''" using a s dash_not_alnum by (auto simp: dns_label_def)
    then have "hd h = hd l" using h by (cases ls) auto
    with l have "\<not> starts_with h ''-''" by (cases h) (auto simp: starts_with_def)
    moreover have "join ''.'' ws \<noteq> [] \<and> last (join ''.'' ws) = last (last ws)"
      if "ws \<noteq> []" "\<forall>w \<in> set ws. w \<noteq> []" for ws
      using that by (induction "''.''" ws rule: join.induct) auto
    then have "last h = last (last (l # ls))" using h s a by (metis dns_label_def list.distinct(1))
    then have "last h \<noteq> CHR ''-''"
      using a s dash_not_alnum by (metis dns_label_def last_in_set list.distinct(1))
    ultimately show ?thesis using a by (simp add: dns_name_test_def re_test_iff lang_dns)
  qed
  then show ?thesis by (auto simp: dns_name_test_def re_test_iff lang_dns)
qed

definition octet :: "string \<Rightarrow> bool" where
  "octet w \<longleftrightarrow> w \<noteq> [] \<and> length w \<le> 3 \<and> (\<forall>c \<in> set w. is_digit c) \<and> dec_val w \<le> 255"

lemma octet_alts:
  "w \<in> lang octet_re \<longleftrightarrow>
     w \<in> lang (RSeq (RLit ''25'') (RCls [(CHR ''0'', CHR ''5'')])) \<or>
     w \<in> lang (RSeqs [RChr CHR ''2'', RCls [(CHR ''0'', CHR ''4'')], RCls d09]) \<or>
     w \<in> lang (RSeqs [ROpt (RCls [(CHR ''0'', CHR ''1'')]), RCls d09, ROpt (RCls d09)])"
  by (simp add: octet_re_def)

lemma octet_lang: "w \<in> lang octet_re \<longleftrightarrow> octet w"
proof (cases "w \<noteq> [] \<and> length w \<le> 3 \<and> (\<forall>c \<in> set w. is_digit c)")
  case True
  then obtain ns where ns: "w = map digit_char ns" "\<forall>n \<in> set ns. n < 10" using digits_map [of w] by auto
  with True have "length ns \<noteq> 0" "length ns \<le> 3" by auto
  then have "length ns = 1 \<or> length ns = 2 \<or> length ns = 3" by linarith
  then consider a where "ns = [a]" | a b where "ns = [a, b]" | a b c where "ns = [a, b, c]"
    by (auto simp: length_Suc_conv numeral_eq_Suc)
  then show ?thesis
  proof cases
    case 1
    with ns True show ?thesis
      unfolding octet_alts by (auto simp: octet_def in_cls_digit re_defs dec_val_Cons_expand)
  next
    case 2
    with ns True show ?thesis
      unfolding octet_alts by (auto simp: octet_def in_cls_digit re_defs dec_val_Cons_expand)
  next
    case 3
    with ns have "a < 10" "b < 10" "c < 10" by auto
    then have "w \<in> lang octet_re \<longleftrightarrow> a = 2 \<and> b = 5 \<and> c \<le> 5 \<or> a = 2 \<and> b \<le> 4 \<or> a \<le> 1"
      unfolding octet_alts using ns 3 by (auto simp: in_cls_digit re_defs)
    also have "\<dots> \<longleftrightarrow> 100 * a + 10 * b + c \<le> 255"
      using \<open>b < 10\<close> \<open>c < 10\<close> by (cases "a = 2"; cases "b = 5"; simp; linarith?)
    also have "\<dots> \<longleftrightarrow> octet w"
      using ns 3 True \<open>a < 10\<close> \<open>b < 10\<close> \<open>c < 10\<close> by (simp add: octet_def dec_val_Cons_expand)
    finally show ?thesis .
  qed
next
  case False
  have "w \<noteq> [] \<and> length w \<le> 3 \<and> (\<forall>c \<in> set w. is_digit c)" if w: "w \<in> lang octet_re"
  proof (intro conjI ballI)
    show "w \<noteq> []" using w unfolding octet_alts by (auto simp: re_defs)
    have "re_maxlen octet_re = Some 3" by (simp add: octet_re_def re_defs)
    then show "length w \<le> 3" using w re_maxlen_lang by blast
    fix c assume "c \<in> set w"
    then obtain rs where "rs \<in> re_classes octet_re" "in_cls rs c" using w re_classes_lang by blast
    then show "is_digit c" by (auto simp: octet_re_def re_defs in_cls_def in_range_def is_digit_def)
  qed
  with False show ?thesis unfolding octet_def by blast
qed

text \<open>
  the IPv4 pattern accepts exactly four dot separated groups of one to three digits
  whose values are at most 255.
\<close>

theorem ipv4_iff:
  "re_test IPV4_REGEX h \<longleftrightarrow>
     (\<exists>a b c d. octet a \<and> octet b \<and> octet c \<and> octet d \<and> h = join ''.'' [a, b, c, d])"
proof -
  have step: "w \<in> lang (RSeq octet_re (RSeq (RChr CHR ''.'') s)) \<longleftrightarrow>
      (\<exists>a v. octet a \<and> v \<in> lang s \<and> w = a @ CHR ''.'' # v)" for w s
    by (auto simp: lang_seq [of _ octet_re] lang_seq [of _ "RChr _"] octet_lang in_cls_single)
  have "h \<in> lang IPV4_REGEX \<longleftrightarrow>
      (\<exists>a b c d. octet a \<and> octet b \<and> octet c \<and> octet d \<and> h = a @ ''.'' @ b @ ''.'' @ c @ ''.'' @ d)"
    by (simp add: IPV4_REGEX_def step octet_lang) metis
  then show ?thesis by (simp add: re_test_iff)
qed

lemma localpart_no_colon:
  "re_test VALID_LOCALPART_REGEX l \<Longrightarrow> CHR '':'' \<notin> set l"
  by (auto simp: re_test_iff VALID_LOCALPART_REGEX_def lang_RPlus_cls localpart_cls_def in_cls_def in_range_def)

lemma toMatrixId_Inr:
  "toMatrixId l s = Inr m \<longleftrightarrow>
     l \<noteq> [] \<and> s \<noteq> [] \<and> re_test VALID_LOCALPART_REGEX l \<and> isValidServerName s \<and>
     m = ''@'' @ l @ '':'' @ s \<and> length m \<le> 255"
  by (auto simp: toMatrixId_def Let_def MAX_MATRIX_ID_LENGTH_def)

lemma isMatrixId_split:
  "CHR '':'' \<notin> set l \<Longrightarrow> isMatrixId (''@'' @ l @ '':'' @ s) \<longleftrightarrow>
     l \<noteq> [] \<and> s \<noteq> [] \<and> length l + length s \<le> 253 \<and> re_test VALID_LOCALPART_REGEX l \<and> isValidServerName s"
  by (auto simp: isMatrixId_def starts_with_def MAX_MATRIX_ID_LENGTH_def index_of_append Let_def)

text \<open>
  C34: the validator and the constructor agree: \<open>isMatrixId\<close> accepts exactly the strings
  \<open>toMatrixId\<close> can build from some local part and server name.
\<close>

theorem isMatrixId_iff_toMatrixId:
  "isMatrixId i \<longleftrightarrow> (\<exists>l s. toMatrixId l s = Inr i)"
proof
  assume a: "isMatrixId i"
  then obtain r where i: "i = ''@'' @ r"
    by (cases i) (auto simp: isMatrixId_def starts_with_def split: if_splits)
  with a obtain j where "index_of CHR '':'' r = Some j"
    by (auto simp: isMatrixId_def split: if_splits option.splits)
  then have r: "r = take j r @ '':'' @ drop (Suc j) r" "CHR '':'' \<notin> set (take j r)"
    using index_of_Some by auto
  define l s where "l = take j r" and "s = drop (Suc j) r"
  with r i have e: "i = ''@'' @ l @ '':'' @ s" "CHR '':'' \<notin> set l" by auto
  with a isMatrixId_split [of l s] have "toMatrixId l s = Inr i"
    unfolding toMatrixId_Inr by auto
  then show "\<exists>l s. toMatrixId l s = Inr i" by blast
next
  assume "\<exists>l s. toMatrixId l s = Inr i"
  then show "isMatrixId i"
    using isMatrixId_split localpart_no_colon by (auto simp: toMatrixId_Inr)
qed

text \<open>
  an identifier that \<open>toMatrixId\<close> builds gives its local part back through
  \<open>getLocalPart\<close>, and no other local part or server name builds the same identifier.
\<close>

theorem toMatrixId_roundtrip:
  assumes "toMatrixId l s = Inr m"
  shows "getLocalPart m = Some l \<and> (\<forall>l' s'. toMatrixId l' s' = Inr m \<longrightarrow> l' = l \<and> s' = s)"
proof (intro conjI allI impI)
  from assms have m: "m = ''@'' @ l @ '':'' @ s" "CHR '':'' \<notin> set l"
    using localpart_no_colon by (auto simp: toMatrixId_Inr)
  then have "split_on CHR '':'' m = (''@'' @ l) # split_on CHR '':'' s"
    using split_on_append [of "CHR '':''" "''@'' @ l" s] by simp
  with m show "getLocalPart m = Some l"
    by (cases "split_on CHR '':'' s") (auto simp: getLocalPart_def starts_with_def)
  fix l' s' assume "toMatrixId l' s' = Inr m"
  then have m': "m = ''@'' @ l' @ '':'' @ s'" "CHR '':'' \<notin> set l'"
    using localpart_no_colon by (auto simp: toMatrixId_Inr)
  from m m' have e: "l @ '':'' @ s = l' @ '':'' @ s'" by simp
  then have "length l = length l'"
    using index_of_append m(2) m'(2) by (metis append_Cons append_Nil option.inject)
  with e show "l' = l" and "s' = s" by auto
qed

text \<open>
  \<open>validateParameters\<close> calls back with the body exactly when no required key is
  missing or null, and otherwise answers 400 naming exactly the missing required keys.
\<close>

theorem validateParameters_spec:
  "(\<exists>ks. set ks = {k. (k, True) \<in> set desc \<and> nullish (getp content k)} \<and>
      validateParameters desc content =
        (if ks = [] then Callback content
         else Sent 400 (JObj [(''errcode'', JStr ''M_MISSING_PARAMS''),
                (''error'', JStr (''Missing parameters '' @ join '', '' ks))])))"
proof -
  have "set (missing_params desc content) = {k. (k, True) \<in> set desc \<and> nullish (getp content k)}"
    by (force simp: missing_params_def)
  moreover have "errMsg ''missingParams'' (Some e) =
      JObj [(''errcode'', JStr ''M_MISSING_PARAMS''), (''error'', JStr e)]" for e
    by (simp add: errMsg_def errCodes_def)
  ultimately show ?thesis
    by (intro exI [of _ "missing_params desc content"]) (simp add: validateParameters_def)
qed

theorem dns_name_iff_witness:
  "list_all dns_label (split_on CHR ''.'' ''chat.twake-1.org'') \<and> dns_name_test ''chat.twake-1.org''"
proof
  show l: "list_all dns_label (split_on CHR ''.'' ''chat.twake-1.org'')" by code_simp
  show "dns_name_test ''chat.twake-1.org''"
    using l dns_name_iff [of "''chat.twake-1.org''"] by (simp only: list_all_iff)
qed

theorem toMatrixId_roundtrip_witness:
  "toMatrixId ''alice'' ''[::1]:8448'' = Inr ''@alice:[::1]:8448'' \<and>
   getLocalPart ''@alice:[::1]:8448'' = Some ''alice''"
proof -
  have h: "toMatrixId ''alice'' ''[::1]:8448'' = Inr ''@alice:[::1]:8448''" by code_simp
  with toMatrixId_roundtrip [OF h] show ?thesis by blast
qed

end
