(* ===== verification/Crypto.thy ===== *)
theory Crypto
  imports Prelude
begin

text \<open>
  packages/crypto (src/index.ts): unpadded base64url, the salted lookup hash, key identifiers,
  canonical JSON and JSON signing.  The primitives of js-nacl and tweetnacl (hash functions,
  key pairs, random bytes, \<open>sign\<close>, the UTF-8 and base64 codecs) and \<open>Math.random\<close> are
  parameters; \<open>Buffer.toString('base64')\<close> and \<open>JSON.stringify\<close> of the runtime are
  modelled.  Object keys that are canonical array indices, which the runtime enumerates
  first, do not occur in the signed documents and are not treated apart.
\<close>

section \<open>Base64\<close>

text \<open>\<open>Buffer.from(bytes).toString('base64')\<close>, on bytes as characters.\<close>

definition b64_char :: "nat \<Rightarrow> char" where
  "b64_char n =
     (if n < 26 then char_of (65 + n)
      else if n < 52 then char_of (71 + n)
      else if n < 62 then char_of (n - 4)
      else if n = 62 then CHR ''+'' else CHR ''/'')"

fun b64 :: "string \<Rightarrow> string" where
  "b64 [] = []"
| "b64 [a] =
     (let x = of_char a * 16 :: nat in [b64_char (x div 64), b64_char (x mod 64), CHR ''='', CHR ''=''])"
| "b64 [a, b] =
     (let x = (of_char a * 256 + of_char b) * 4 :: nat in
      [b64_char (x div 4096), b64_char (x div 64 mod 64), b64_char (x mod 64), CHR ''=''])"
| "b64 (a # b # c # rest) =
     (let x = (of_char a * 256 + of_char b) * 256 + of_char c :: nat in
      b64_char (x div 262144) # b64_char (x div 4096 mod 64) # b64_char (x div 64 mod 64)
        # b64_char (x mod 64) # b64 rest)"

text \<open>\<open>replace(/=+$/, '')\<close> and \<open>replace(/a/g, b)\<close>.\<close>

definition strip_trailing :: "char \<Rightarrow> string \<Rightarrow> string" where
  "strip_trailing c s = rev (dropWhile (\<lambda>x. x = c) (rev s))"

definition replace_all :: "char \<Rightarrow> char \<Rightarrow> string \<Rightarrow> string" where
  "replace_all a b s = map (\<lambda>x. if x = a then b else x) s"

definition toBase64Url :: "string \<Rightarrow> string" where
  "toBase64Url base64 =
     replace_all CHR ''+'' CHR ''-'' (replace_all CHR ''/'' CHR ''_'' (strip_trailing CHR ''='' base64))"

text \<open>The loop \<open>while (base64.length % 4 !== 0) base64 += '='\<close>.\<close>

function pad4 :: "string \<Rightarrow> string" where
  "pad4 s = (if length s mod 4 \<noteq> 0 then pad4 (s @ ''='') else s)"
  by pat_completeness auto
termination
proof (relation "measure (\<lambda>s. if length s mod 4 = 0 then 0 else 4 - length s mod 4)")
  fix s :: string
  assume a: "length s mod 4 \<noteq> 0"
  have "length s mod 4 < 4" by simp
  then have "3 - length s mod 4 < 4 - length s mod 4" by linarith
  with a show "(s @ ''='', s) \<in> measure (\<lambda>s. if length s mod 4 = 0 then 0 else 4 - length s mod 4)"
    by (simp add: mod_Suc)
qed simp

declare pad4.simps [simp del]

definition fromBase64Url :: "string \<Rightarrow> string" where
  "fromBase64Url base64Url =
     pad4 (replace_all CHR ''_'' CHR ''/'' (replace_all CHR ''-'' CHR ''+'' base64Url))"

section \<open>The lookup hash and random strings\<close>

text \<open>\<open>enc\<close> is nacl's \<open>encode_utf8\<close>; no method means the library is not instantiated.\<close>

definition hash_strs :: "(string \<Rightarrow> string) \<Rightarrow> (string \<Rightarrow> string) option \<Rightarrow> string list \<Rightarrow> string result" where
  "hash_strs enc nacl_method strs =
     (case nacl_method of
        None \<Rightarrow> Inl (Err ''Not initialized'')
      | Some h \<Rightarrow>
          Inr (replace_all CHR ''+'' CHR ''-'' (replace_all CHR ''/'' CHR ''_''
            (strip_trailing CHR ''='' (b64 (h (enc (join '' '' strs))))))))"

text \<open>\<open>rnd i\<close> is the last base 36 digit of the \<open>i\<close>th call of \<open>Math.random\<close>.\<close>

fun randomString_loop :: "(nat \<Rightarrow> char) \<Rightarrow> nat \<Rightarrow> nat \<Rightarrow> string \<Rightarrow> string" where
  "randomString_loop rnd i 0 res = res"
| "randomString_loop rnd i (Suc k) res = randomString_loop rnd (Suc i) k (res @ [rnd i])"

definition randomString :: "(nat \<Rightarrow> char) \<Rightarrow> nat \<Rightarrow> nat \<Rightarrow> string" where
  "randomString rnd from n = randomString_loop rnd from n []"

lemma randomString_eq: "randomString rnd i n = map rnd [i..<i + n]"
proof -
  have "randomString_loop rnd i n res = res @ map rnd [i..<i + n]" for res
    by (induction rnd i n res rule: randomString_loop.induct) (auto simp: upt_conv_Cons simp del: upt_Suc)
  then show ?thesis by (simp add: randomString_def)
qed

section \<open>Key pairs\<close>

record key_pair =
  publicKey :: string
  privateKey :: string
  keyId :: string

definition generateKeyId :: "string \<Rightarrow> string \<Rightarrow> string" where
  "generateKeyId algorithm identifier = algorithm @ '':'' @ identifier"

text \<open>
  \<open>kp\<close> is the pair (public, secret) the nacl generator of the algorithm returns, \<open>ident\<close>
  the eight random bytes, \<open>enc64\<close> tweetnacl-util's \<open>encodeBase64\<close>.
\<close>

definition generateEdKeyPair :: "(string \<Rightarrow> string) \<Rightarrow> string \<times> string \<Rightarrow> string \<Rightarrow> key_pair" where
  "generateEdKeyPair enc64 kp ident =
     \<lparr>publicKey = toBase64Url (enc64 (fst kp)), privateKey = toBase64Url (enc64 (snd kp)),
      keyId = generateKeyId ''ed25519'' (toBase64Url (enc64 ident))\<rparr>"

definition generateCurveKeyPair :: "(string \<Rightarrow> string) \<Rightarrow> string \<times> string \<Rightarrow> string \<Rightarrow> key_pair" where
  "generateCurveKeyPair enc64 kp ident =
     \<lparr>publicKey = toBase64Url (enc64 (fst kp)), privateKey = toBase64Url (enc64 (snd kp)),
      keyId = generateKeyId ''curve25519'' (toBase64Url (enc64 ident))\<rparr>"

definition generateKeyPair ::
    "(string \<Rightarrow> string) \<Rightarrow> string \<times> string \<Rightarrow> string \<times> string \<Rightarrow> string \<Rightarrow> string \<Rightarrow> key_pair result" where
  "generateKeyPair enc64 sign_kp box_kp ident algorithm =
     (if algorithm = ''ed25519'' then Inr (generateEdKeyPair enc64 sign_kp ident)
      else if algorithm = ''curve25519'' then Inr (generateCurveKeyPair enc64 box_kp ident)
      else Inl (Err ''Unsupported algorithm''))"

section \<open>Canonical JSON\<close>

definition hex_char :: "nat \<Rightarrow> char" where
  "hex_char n = (if n < 10 then char_of (48 + n) else char_of (87 + n))"

definition quote_char :: "char \<Rightarrow> string" where
  "quote_char c =
     (if c = CHR 0x22 then [CHR 0x5C, CHR 0x22]
      else if c = CHR 0x5C then [CHR 0x5C, CHR 0x5C]
      else if c = CHR 0x08 then [CHR 0x5C, CHR ''b'']
      else if c = CHR 0x09 then [CHR 0x5C, CHR ''t'']
      else if c = CHR 0x0A then [CHR 0x5C, CHR ''n'']
      else if c = CHR 0x0C then [CHR 0x5C, CHR ''f'']
      else if c = CHR 0x0D then [CHR 0x5C, CHR ''r'']
      else if (of_char c :: nat) < 32 then
        [CHR 0x5C, CHR ''u'', CHR ''0'', CHR ''0'', hex_char (of_char c div 16), hex_char (of_char c mod 16)]
      else [c])"

definition quote :: "string \<Rightarrow> string" where
  "quote s = CHR 0x22 # concat (map quote_char s) @ [CHR 0x22]"

text \<open>\<open>JSON.stringify\<close>: \<open>None\<close> where it returns \<open>undefined\<close>.\<close>

fun stringify :: "jsval \<Rightarrow> string option" where
  "stringify Undef = None"
| "stringify Null = Some ''null''"
| "stringify (JBool b) = Some (if b then ''true'' else ''false'')"
| "stringify (JNum n) = Some (int_str n)"
| "stringify (JStr s) = Some (quote s)"
| "stringify (JArr vs) =
     Some (''['' @ join '','' (map (\<lambda>v. case stringify v of None \<Rightarrow> ''null'' | Some t \<Rightarrow> t) vs) @ '']'')"
| "stringify (JObj ps) =
     Some (''{'' @ join '','' (concat (map (\<lambda>(k, v).
        case stringify v of None \<Rightarrow> [] | Some t \<Rightarrow> [quote k @ '':'' @ t]) ps)) @ ''}'')"

text \<open>The replacer: every object is rebuilt with its keys in the default sort order.\<close>

definition sort_entries :: "(string \<times> 'v) list \<Rightarrow> (string \<times> 'v) list" where
  "sort_entries ps = map (\<lambda>k. (k, the (map_of ps k))) (js_sort code_unit_compare (map fst ps))"

fun canon :: "jsval \<Rightarrow> jsval" where
  "canon (JArr vs) = JArr (map canon vs)"
| "canon (JObj ps) = JObj (sort_entries (map (\<lambda>(k, v). (k, canon v)) ps))"
| "canon v = v"

text \<open>
  The final \<open>replace\<close> maps every character of its class to itself; on \<open>undefined\<close> the
  call of \<open>replace\<close> throws.
\<close>

definition canonicalJson :: "jsval \<Rightarrow> string result" where
  "canonicalJson v =
     (case stringify (canon v) of
        None \<Rightarrow> Inl (Err ''Cannot read properties of undefined (reading 'replace')'')
      | Some t \<Rightarrow> Inr (map (\<lambda>c. if 127 \<le> (of_char c :: nat) then c else c) t))"

section \<open>Signing\<close>

definition as_obj :: "jsval \<Rightarrow> obj" where
  "as_obj v = (case v of JObj ps \<Rightarrow> ps | _ \<Rightarrow> [])"

text \<open>
  \<open>nacl_sign msg key\<close> is \<open>nacl.sign(decodeUTF8(msg), decodeBase64(key))\<close>, which throws on a bad
  key.  The argument object is updated in place and returned; the model returns its final
  contents.
\<close>

definition signJson ::
    "(string \<Rightarrow> string \<Rightarrow> string result) \<Rightarrow> obj \<Rightarrow> string \<Rightarrow> string \<Rightarrow> string \<Rightarrow> obj result" where
  "signJson nacl_sign jsonObj signingKey signingName kid =
     (let signatures = as_obj (js_coalesce (getp jsonObj ''signatures'') (JObj []));
          unsigned = getp jsonObj ''unsigned'';
          body = del ''unsigned'' (del ''signatures'' jsonObj)
      in case canonicalJson (JObj body) of
           Inl e \<Rightarrow> Inl e
         | Inr msg \<Rightarrow>
             (case nacl_sign msg (fromBase64Url signingKey) of
                Inl e \<Rightarrow> Inl e
              | Inr signed \<Rightarrow>
                  let signatures' =
                        put signingName
                          (JObj (put kid (JStr (b64 signed)) (as_obj (getp signatures signingName))))
                          signatures;
                      signedObj = put ''signatures'' (JObj signatures') body
                  in Inr (if truthy unsigned then put ''unsigned'' unsigned signedObj else signedObj)))"

section \<open>Properties\<close>

lemma b64_char_alphabet:
  assumes "n < 64"
  shows "b64_char n \<notin> {CHR ''='', CHR ''-'', CHR ''_''}"
proof -
  have n: "(of_char (b64_char n) :: nat) =
      (if n < 26 then 65 + n else if n < 52 then 71 + n else if n < 62 then n - 4
       else if n = 62 then 43 else 47)"
    using assms by (simp add: b64_char_def)
  then have "(of_char (b64_char n) :: nat) \<notin> {61, 45, 95}" using assms by auto
  then show ?thesis by auto
qed

lemma four_dvd: "(4 :: nat) dvd Suc (Suc (Suc (Suc 0)))"
  by presburger

lemma b64_bound2: "a < 256 \<Longrightarrow> b < 256 \<Longrightarrow> (a * 256 + b) * 4 div 4096 < (64 :: nat)"
  by (rule less_mult_imp_div_less) simp

lemma b64_bound3: "a < 256 \<Longrightarrow> b < 256 \<Longrightarrow> c < 256 \<Longrightarrow>
    ((a * 256 + b) * 256 + c) div 262144 < (64 :: nat)"
  by (rule less_mult_imp_div_less) simp

lemma b64_shape:
  "\<exists>core p. b64 s = core @ replicate p CHR ''='' \<and> p \<le> 2 \<and> 4 dvd (length core + p) \<and>
     (\<forall>c \<in> set core. c \<notin> {CHR ''='', CHR ''-'', CHR ''_''})"
proof (induction s rule: b64.induct)
  case (2 a)
  let ?x = "of_char a * 16 :: nat"
  have "?x div 64 < 64" by (rule less_mult_imp_div_less) simp
  then show ?case
    using four_dvd b64_char_alphabet [of "?x div 64"] b64_char_alphabet [of "?x mod 64"]
    by (intro exI [of _ "[b64_char (?x div 64), b64_char (?x mod 64)]"] exI [of _ "Suc (Suc 0)"])
       (simp add: Let_def)
next
  case (3 a b)
  let ?x = "(of_char a * 256 + of_char b) * 4 :: nat"
  have "?x div 4096 < 64" using nat_of_char_less_256 [of a] nat_of_char_less_256 [of b]
    by (rule b64_bound2)
  then show ?case
    using four_dvd b64_char_alphabet [of "?x div 4096"] b64_char_alphabet [of "?x div 64 mod 64"]
      b64_char_alphabet [of "?x mod 64"]
    by (intro exI [of _ "[b64_char (?x div 4096), b64_char (?x div 64 mod 64), b64_char (?x mod 64)]"]
          exI [of _ 1]) (simp add: Let_def)
next
  case (4 a b c rest)
  let ?x = "(of_char a * 256 + of_char b) * 256 + of_char c :: nat"
  let ?q = "[b64_char (?x div 262144), b64_char (?x div 4096 mod 64), b64_char (?x div 64 mod 64),
             b64_char (?x mod 64)]"
  have "?x div 262144 < 64"
    using nat_of_char_less_256 [of a] nat_of_char_less_256 [of b] nat_of_char_less_256 [of c]
    by (rule b64_bound3)
  then have q: "\<forall>d \<in> set ?q. d \<notin> {CHR ''='', CHR ''-'', CHR ''_''}"
    using b64_char_alphabet by simp
  obtain core p where r: "b64 rest = core @ replicate p CHR ''=''" "p \<le> 2" "4 dvd (length core + p)"
    "\<forall>d \<in> set core. d \<notin> {CHR ''='', CHR ''-'', CHR ''_''}"
    using "4.IH" by (auto simp: Let_def)
  have "b64 (a # b # c # rest) = (?q @ core) @ replicate p CHR ''=''" using r(1) by (simp add: Let_def)
  moreover have "4 dvd (length (?q @ core) + p)" using r(3) by simp presburger
  moreover have "\<forall>d \<in> set (?q @ core). d \<notin> {CHR ''='', CHR ''-'', CHR ''_''}"
    using q r(4) unfolding set_append ball_Un by (rule conjI)
  ultimately show ?case using r(2) by (intro exI [of _ "?q @ core"] exI [of _ p] conjI)
qed (auto intro: exI [of _ "[]"])

lemma strip_trailing_replicate:
  "\<forall>x \<in> set s. x \<noteq> c \<Longrightarrow> strip_trailing c (s @ replicate n c) = s"
proof -
  assume "\<forall>x \<in> set s. x \<noteq> c"
  then have "dropWhile (\<lambda>x. x = c) (rev s) = rev s" by (cases "rev s") (auto simp: rev_eq_Cons_iff)
  moreover have "dropWhile (\<lambda>x. x = c) (replicate n c @ rev s) = dropWhile (\<lambda>x. x = c) (rev s)"
    by (induction n) auto
  ultimately show ?thesis by (simp add: strip_trailing_def)
qed

lemma replace_all_back:
  "b \<notin> set s \<Longrightarrow> replace_all b a (replace_all a b s) = s"
  by (induction s) (auto simp: replace_all_def)

lemma pad4_eq: "pad4 s = s @ replicate ((4 - length s mod 4) mod 4) CHR ''=''"
proof (induction s rule: pad4.induct)
  case (1 s)
  show ?case
  proof (cases "length s mod 4 = 0")
    case True
    then show ?thesis by (simp add: pad4.simps [of s])
  next
    case False
    moreover have "length s mod 4 < 4" by simp
    ultimately consider "length s mod 4 = 1" | "length s mod 4 = 2" | "length s mod 4 = 3" by linarith
    then have "(4 - length s mod 4) mod 4 = Suc ((4 - (length s + 1) mod 4) mod 4)"
      by cases (simp_all add: mod_Suc)
    with 1 False show ?thesis by (simp add: pad4.simps [of s])
  qed
qed

text \<open>
  a key or hash written as unpadded base64url reads back: converting the runtime's
  base64 text to base64url and back restores it with its padding.
\<close>

theorem base64url_roundtrip: "fromBase64Url (toBase64Url (b64 bytes)) = b64 bytes"
proof -
  obtain core p where s: "b64 bytes = core @ replicate p CHR ''=''" "p \<le> 2" "4 dvd (length core + p)"
    and c: "\<forall>c \<in> set core. c \<notin> {CHR ''='', CHR ''-'', CHR ''_''}"
    using b64_shape by blast
  have t: "toBase64Url (b64 bytes) =
      replace_all CHR ''+'' CHR ''-'' (replace_all CHR ''/'' CHR ''_'' core)"
    using strip_trailing_replicate [of core] c by (simp add: toBase64Url_def s(1))
  have "CHR ''-'' \<notin> set (replace_all CHR ''/'' CHR ''_'' core)" "CHR ''_'' \<notin> set core"
    using c by (auto simp: replace_all_def)
  then have "replace_all CHR ''_'' CHR ''/'' (replace_all CHR ''-'' CHR ''+'' (toBase64Url (b64 bytes))) = core"
    using replace_all_back by (simp add: t)
  moreover have "(4 - length core mod 4) mod 4 = p"
  proof -
    from s(2) consider "p = 0" | "p = 1" | "p = 2" by linarith
    then show ?thesis
    proof cases
      case 2
      with s(3) have "length core mod 4 = 3" by presburger
      with 2 show ?thesis by simp
    next
      case 3
      with s(3) have "length core mod 4 = 2" by presburger
      with 3 show ?thesis by simp
    qed (use s(3) in auto)
  qed
  ultimately show ?thesis by (simp add: fromBase64Url_def pad4_eq s(1))
qed

text \<open>Two documents that differ only in the order of object keys, at any depth.\<close>

inductive same_json :: "jsval \<Rightarrow> jsval \<Rightarrow> bool" where
  same_refl: "same_json v v"
| same_arr: "list_all2 same_json vs ws \<Longrightarrow> same_json (JArr vs) (JArr ws)"
| same_obj: "list_all2 (\<lambda>p q. fst p = fst q \<and> same_json (snd p) (snd q)) ps rs \<Longrightarrow>
    mset rs = mset qs \<Longrightarrow> distinct (map fst qs) \<Longrightarrow> same_json (JObj ps) (JObj qs)"

lemma js_sort_code_unit: "js_sort code_unit_compare xs = sort xs"
proof -
  have "sorted_wrt (\<lambda>a b. code_unit_compare a b \<le> 0) (js_sort code_unit_compare xs)"
    by (rule cu.js_sort_sorted)
  moreover have "code_unit_compare a b \<le> 0 \<longleftrightarrow> a \<le> b" for a b
    by (auto simp: code_unit_compare_def)
  ultimately have "sorted (js_sort code_unit_compare xs)" by simp
  then show ?thesis by (metis mset_js_sort properties_for_sort)
qed

lemma sort_entries_perm:
  assumes "mset ps = mset qs" "distinct (map fst qs)"
  shows "sort_entries ps = sort_entries qs"
proof -
  have m: "mset (map fst ps) = mset (map fst qs)" using assms(1) by simp
  then have d: "distinct (map fst ps)" using assms(2) by (metis mset_eq_imp_distinct_iff)
  have "map_of ps = map_of qs"
    using assms d map_of_eqI by (metis map_of_inject_set mset_eq_setD)
  moreover have "sort (map fst ps) = sort (map fst qs)"
    using m by (metis properties_for_sort sorted_sort mset_sort)
  ultimately show ?thesis by (simp add: sort_entries_def js_sort_code_unit)
qed

lemma same_json_canon: "same_json v w \<Longrightarrow> canon v = canon w"
proof (induction rule: same_json.induct)
  case (same_arr vs ws)
  then have "map canon vs = map canon ws"
    by (induction vs ws rule: list_all2_induct) auto
  then show ?case by simp
next
  case (same_obj ps rs qs)
  let ?f = "\<lambda>(k, v). (k, canon v)"
  from same_obj(1) have "map ?f ps = map ?f rs"
    by (induction ps rs rule: list_all2_induct) auto
  moreover have "mset (map ?f rs) = mset (map ?f qs)" using same_obj(2) by simp
  moreover have "distinct (map fst (map ?f qs))" using same_obj(3) by (simp add: case_prod_unfold comp_def)
  ultimately show ?case using sort_entries_perm [of "map ?f rs" "map ?f qs"] by simp
qed simp

text \<open>
  canonical JSON does not depend on the order of object keys: documents equal up to
  reordering keys, at any depth, have the same canonical text, so they sign alike.
\<close>

theorem canonicalJson_order_independent:
  "same_json v w \<Longrightarrow> canonicalJson v = canonicalJson w"
  by (simp add: canonicalJson_def same_json_canon)

theorem canonicalJson_order_independent_witness:
  "canonicalJson (JObj [(''b'', JNum 1), (''a'', JArr [JObj [(''y'', Null), (''x'', JBool True)]])]) =
   canonicalJson (JObj [(''a'', JArr [JObj [(''x'', JBool True), (''y'', Null)]]), (''b'', JNum 1)])"
proof -
  have i: "same_json (JObj [(''y'', Null), (''x'', JBool True)]) (JObj [(''x'', JBool True), (''y'', Null)])"
    by (rule same_obj [where rs = "[(''y'', Null), (''x'', JBool True)]"]) (auto intro: same_refl)
  have "same_json (JObj [(''b'', JNum 1), (''a'', JArr [JObj [(''y'', Null), (''x'', JBool True)]])])
      (JObj [(''a'', JArr [JObj [(''x'', JBool True), (''y'', Null)]]), (''b'', JNum 1)])"
    by (rule same_obj [where rs = "[(''b'', JNum 1), (''a'', JArr [JObj [(''x'', JBool True), (''y'', Null)]])]"])
       (auto intro: same_refl i same_arr)
  then show ?thesis by (rule canonicalJson_order_independent)
qed

definition signature_of :: "obj \<Rightarrow> string \<Rightarrow> string \<Rightarrow> jsval" where
  "signature_of ob signer kid = getp (as_obj (getp (as_obj (getp ob ''signatures'')) signer)) kid"

text \<open>
  \<open>signJson\<close> stores the signature of the canonical text of the document without its
  \<open>signatures\<close> and \<open>unsigned\<close> fields, keeps every signature made by another signer or
  another key, keeps all other fields, and keeps \<open>unsigned\<close> unless it is falsy.
\<close>

theorem signJson_spec:
  assumes "signJson nacl_sign ob key signer kid = Inr ob'"
  shows "(\<exists>msg signed. canonicalJson (JObj (del ''unsigned'' (del ''signatures'' ob))) = Inr msg \<and>
            nacl_sign msg (fromBase64Url key) = Inr signed \<and>
            signature_of ob' signer kid = JStr (b64 signed)) \<and>
         (\<forall>s k. (s, k) \<noteq> (signer, kid) \<longrightarrow> signature_of ob' s k = signature_of ob s k) \<and>
         (\<forall>f. f \<noteq> ''signatures'' \<and> f \<noteq> ''unsigned'' \<longrightarrow> getp ob' f = getp ob f) \<and>
         getp ob' ''unsigned'' = (if truthy (getp ob ''unsigned'') then getp ob ''unsigned'' else Undef)"
proof -
  obtain msg signed where m: "canonicalJson (JObj (del ''unsigned'' (del ''signatures'' ob))) = Inr msg"
    "nacl_sign msg (fromBase64Url key) = Inr signed"
    using assms by (auto simp: signJson_def Let_def split: sum.splits)
  have a: "as_obj (js_coalesce v (JObj [])) = as_obj v" for v
    by (cases v) (simp_all add: js_coalesce_def as_obj_def)
  show ?thesis
    using assms m by (auto simp: signJson_def Let_def signature_of_def a as_obj_def [of "JObj _"])
qed

theorem signJson_spec_witness:
  "\<exists>ob'. signJson (\<lambda>msg key. Inr (key @ msg)) [(''x'', JNum 1), (''unsigned'', JObj [])] ''QUJD'' ''hs'' ''ed25519:1''
            = Inr ob' \<and> getp ob' ''x'' = JNum 1"
proof -
  let ?s = "\<lambda>msg key. Inr (key @ msg) :: string result"
  have "\<exists>ob'. signJson ?s [(''x'', JNum 1), (''unsigned'', JObj [])] ''QUJD'' ''hs'' ''ed25519:1'' = Inr ob'"
    by (simp add: signJson_def Let_def canonicalJson_def del_def)
  then obtain ob' where h: "signJson ?s [(''x'', JNum 1), (''unsigned'', JObj [])] ''QUJD'' ''hs'' ''ed25519:1'' = Inr ob'"
    by blast
  with signJson_spec [OF h] have "getp ob' ''x'' = JNum 1" by simp
  with h show ?thesis by blast
qed

end
