(* ===== verification/Json.thy ===== *)
theory Json
  imports Crypto
begin

text \<open>
  \<open>JSON.parse\<close> as the services use it on what \<open>JSON.stringify\<close> wrote into the database: a
  recursive descent over the text whose fuel is the length of the text, with the round trip on
  values without \<open>undefined\<close>.  Numbers are integers; a fraction or an exponent is rejected.
\<close>

definition is_ws :: "char \<Rightarrow> bool" where
  "is_ws c \<longleftrightarrow> c \<in> {CHR '' '', CHR 0x09, CHR 0x0A, CHR 0x0D}"

definition skip_ws :: "string \<Rightarrow> string" where
  "skip_ws s = dropWhile is_ws s"

definition hex_val :: "char \<Rightarrow> nat option" where
  "hex_val c =
     (if is_digit c then Some (digit_val c)
      else if in_range CHR ''a'' CHR ''f'' c then Some (of_char c - 87)
      else if in_range CHR ''A'' CHR ''F'' c then Some (of_char c - 55)
      else None)"

definition unescape :: "char \<Rightarrow> char option" where
  "unescape c =
     (if c \<in> {CHR 0x22, CHR 0x5C, CHR ''/''} then Some c
      else if c = CHR ''b'' then Some CHR 0x08
      else if c = CHR ''t'' then Some CHR 0x09
      else if c = CHR ''n'' then Some CHR 0x0A
      else if c = CHR ''f'' then Some CHR 0x0C
      else if c = CHR ''r'' then Some CHR 0x0D
      else None)"

text \<open>The rest of a string literal after its opening quote; code units are below 256.\<close>

fun p_string :: "string \<Rightarrow> (string \<times> string) option" where
  "p_string [] = None"
| "p_string (c # s) =
     (if c = CHR 0x22 then Some ([], s)
      else if c = CHR 0x5C then
        (case s of
           [] \<Rightarrow> None
         | e # s' \<Rightarrow>
             if e = CHR ''u'' then
               (case s' of
                  a # b # x # y # s'' \<Rightarrow>
                    (case (hex_val a, hex_val b, hex_val x, hex_val y) of
                       (Some 0, Some 0, Some i, Some j) \<Rightarrow>
                         map_option (\<lambda>(t, r). (char_of (16 * i + j) # t, r)) (p_string s'')
                     | _ \<Rightarrow> None)
                | _ \<Rightarrow> None)
             else
               (case unescape e of
                  None \<Rightarrow> None
                | Some d \<Rightarrow> map_option (\<lambda>(t, r). (d # t, r)) (p_string s')))
      else if (of_char c :: nat) < 32 then None
      else map_option (\<lambda>(t, r). (c # t, r)) (p_string s))"

definition p_digits :: "string \<Rightarrow> (nat \<times> string) option" where
  "p_digits s =
     (let ds = takeWhile is_digit s
      in if ds = [] \<or> (length ds > 1 \<and> hd ds = CHR ''0'') then None
         else Some (dec_val ds, dropWhile is_digit s))"

definition p_number :: "string \<Rightarrow> (jsval \<times> string) option" where
  "p_number s =
     (case s of
        [] \<Rightarrow> None
      | c # s' \<Rightarrow>
          if c = CHR ''-'' then map_option (\<lambda>(n, r). (JNum (- int n), r)) (p_digits s')
          else map_option (\<lambda>(n, r). (JNum (int n), r)) (p_digits s))"

definition p_word :: "string \<Rightarrow> jsval \<Rightarrow> string \<Rightarrow> (jsval \<times> string) option" where
  "p_word w v s = (if starts_with s w then Some (v, drop (length w) s) else None)"

fun p_value :: "nat \<Rightarrow> string \<Rightarrow> (jsval \<times> string) option"
  and p_elems :: "nat \<Rightarrow> string \<Rightarrow> (jsval list \<times> string) option"
  and p_members :: "nat \<Rightarrow> string \<Rightarrow> (obj \<times> string) option" where
  "p_value 0 s = None"
| "p_value (Suc n) s =
     (case skip_ws s of
        [] \<Rightarrow> None
      | c # s' \<Rightarrow>
          if c = CHR 0x22 then map_option (\<lambda>(t, r). (JStr t, r)) (p_string s')
          else if c = CHR ''['' then
            (case skip_ws s' of
               [] \<Rightarrow> None
             | d # r \<Rightarrow>
                 if d = CHR '']'' then Some (JArr [], r)
                 else map_option (\<lambda>(vs, r). (JArr vs, r)) (p_elems n s'))
          else if c = CHR ''{'' then
            (case skip_ws s' of
               [] \<Rightarrow> None
             | d # r \<Rightarrow>
                 if d = CHR ''}'' then Some (JObj [], r)
                 else map_option (\<lambda>(ps, r). (JObj (spread [] ps), r)) (p_members n s'))
          else if c = CHR ''n'' then p_word ''null'' Null (c # s')
          else if c = CHR ''t'' then p_word ''true'' (JBool True) (c # s')
          else if c = CHR ''f'' then p_word ''false'' (JBool False) (c # s')
          else p_number (c # s'))"
| "p_elems 0 s = None"
| "p_elems (Suc n) s =
     (case p_value n s of
        None \<Rightarrow> None
      | Some (v, r) \<Rightarrow>
          (case skip_ws r of
             [] \<Rightarrow> None
           | c # r' \<Rightarrow>
               if c = CHR '']'' then Some ([v], r')
               else if c = CHR '','' then map_option (\<lambda>(vs, r). (v # vs, r)) (p_elems n r')
               else None))"
| "p_members 0 s = None"
| "p_members (Suc n) s =
     (case skip_ws s of
        [] \<Rightarrow> None
      | q # s1 \<Rightarrow>
          if q \<noteq> CHR 0x22 then None
          else (case p_string s1 of
             None \<Rightarrow> None
           | Some (k, s2) \<Rightarrow>
               (case skip_ws s2 of
                  [] \<Rightarrow> None
                | d # s3 \<Rightarrow>
                    if d \<noteq> CHR '':'' then None
                    else (case p_value n s3 of
                       None \<Rightarrow> None
                     | Some (v, r) \<Rightarrow>
                         (case skip_ws r of
                            [] \<Rightarrow> None
                          | c # r' \<Rightarrow>
                              if c = CHR ''}'' then Some ([(k, v)], r')
                              else if c = CHR '','' then
                                map_option (\<lambda>(ps, r). ((k, v) # ps, r)) (p_members n r')
                              else None)))))"

definition json_parse :: "string \<Rightarrow> jsval result" where
  "json_parse s =
     (case p_value (Suc (length s)) s of
        Some (v, r) \<Rightarrow> if skip_ws r = [] then Inr v else Inl (Err ''Unexpected token in JSON'')
      | None \<Rightarrow> Inl (Err ''Unexpected token in JSON''))"

section \<open>Round trip\<close>

text \<open>The values a document can hold: no \<open>undefined\<close> inside, no repeated keys.\<close>

fun json_value :: "jsval \<Rightarrow> bool" where
  "json_value Undef = False"
| "json_value (JArr vs) = list_all json_value vs"
| "json_value (JObj ps) = (distinct (map fst ps) \<and> list_all (\<lambda>(_, v). json_value v) ps)"
| "json_value _ = True"

fun str_of :: "jsval \<Rightarrow> string" where
  "str_of v = (case stringify v of None \<Rightarrow> [] | Some t \<Rightarrow> t)"

declare str_of.simps [simp del]

lemma char_of_48: "char_of (48 :: nat) = CHR ''0''"
  using char_of_char [of "CHR ''0''"] by simp

lemma hex_val_hex_char: "n < 16 \<Longrightarrow> hex_val (hex_char n) = Some n"
proof -
  assume n: "n < 16"
  show ?thesis
  proof (cases "n < 10")
    case True
    then have "hex_char n = digit_char n" by (simp add: hex_char_def digit_char_def)
    with True show ?thesis by (simp add: hex_val_def)
  next
    case False
    with n have "(of_char (hex_char n) :: nat) = 87 + n" by (simp add: hex_char_def)
    with False n show ?thesis by (simp add: hex_val_def is_digit_def in_range_def)
  qed
qed

lemma p_string_quote_char:
  "p_string (quote_char c @ s) = map_option (\<lambda>(t, r). (c # t, r)) (p_string s)"
proof (cases "c \<in> {CHR 0x22, CHR 0x5C, CHR 0x08, CHR 0x09, CHR 0x0A, CHR 0x0C, CHR 0x0D}")
  case True
  then show ?thesis by (auto simp: quote_char_def unescape_def)
next
  case False
  show ?thesis
  proof (cases "(of_char c :: nat) < 32")
    case True
    have d: "(of_char c :: nat) div 16 < 16" "(of_char c :: nat) mod 16 < 16" using True by auto
    have z: "hex_val CHR ''0'' = Some 0" using hex_val_hex_char [of 0] by (simp add: hex_char_def char_of_48)
    have e: "quote_char c = [CHR 0x5C, CHR ''u'', CHR ''0'', CHR ''0'',
        hex_char (of_char c div 16), hex_char (of_char c mod 16)]"
      using False True by (simp add: quote_char_def)
    have "char_of (16 * ((of_char c :: nat) div 16) + of_char c mod 16) = c" by simp
    then show ?thesis unfolding e using hex_val_hex_char [OF d(1)] hex_val_hex_char [OF d(2)] z by simp
  next
    case nc: False
    with False have "quote_char c = [c]" by (simp add: quote_char_def)
    with False nc show ?thesis by simp
  qed
qed

lemma p_string_quote: "p_string (concat (map quote_char s) @ CHR 0x22 # rest) = Some (s, rest)"
  by (induction s) (simp_all add: p_string_quote_char del: p_string.simps(2), simp)

definition no_digit :: "string \<Rightarrow> bool" where
  "no_digit s = (case s of [] \<Rightarrow> True | c # _ \<Rightarrow> \<not> is_digit c)"

lemma nat_str_leading: "hd (nat_str n) = CHR ''0'' \<Longrightarrow> n = 0"
proof (induction n rule: nat_str.induct)
  case (1 n)
  show ?case
  proof (cases "n < 10")
    case True
    then have "digit_char n = digit_char 0" using 1(2) by (simp add: nat_str.simps [of n] digit_char_def char_of_48)
    with True show ?thesis by (simp add: digit_char_inj)
  next
    case False
    then have "hd (nat_str n) = hd (nat_str (n div 10))" by (simp add: nat_str.simps [of n])
    with 1 False have "n div 10 = 0" by simp
    with False show ?thesis by simp
  qed
qed

lemma p_digits_nat_str: "no_digit rest \<Longrightarrow> p_digits (nat_str n @ rest) = Some (n, rest)"
proof -
  assume r: "no_digit rest"
  have a: "\<And>c. c \<in> set (nat_str n) \<Longrightarrow> is_digit c" by (rule nat_str_digits)
  have t: "takeWhile is_digit (nat_str n @ rest) = nat_str n"
    using a r by (cases rest) (auto simp: no_digit_def takeWhile_append2)
  have d: "dropWhile is_digit (nat_str n @ rest) = rest"
    using a r by (cases rest) (auto simp: no_digit_def dropWhile_append2)
  have "length (nat_str n) > 1 \<Longrightarrow> hd (nat_str n) \<noteq> CHR ''0''"
    using nat_str_leading [of n] by (auto simp: nat_str.simps [of 0])
  then show ?thesis by (simp add: p_digits_def t d Let_def)
qed

lemma p_number_int_str: "no_digit rest \<Longrightarrow> p_number (int_str n @ rest) = Some (JNum n, rest)"
proof (cases "n < 0")
  case True
  assume "no_digit rest"
  with True show ?thesis by (simp add: p_number_def int_str_def p_digits_nat_str)
next
  case False
  assume r: "no_digit rest"
  obtain c cs where w: "nat_str (nat n) = c # cs" by (cases "nat_str (nat n)") auto
  then have "c \<noteq> CHR ''-''" using nat_str_digits [of c "nat n"] digit_not_special by auto
  with False w p_digits_nat_str [OF r, of "nat n"] show ?thesis
    by (simp add: p_number_def int_str_def)
qed

lemma int_str_head:
  obtains c cs where "int_str n = c # cs" "c = CHR ''-'' \<or> is_digit c"
proof (cases "n < 0")
  case False
  obtain c cs where w: "nat_str (nat n) = c # cs" by (cases "nat_str (nat n)") auto
  then have "is_digit c" using nat_str_digits [of c "nat n"] by simp
  with w False that show ?thesis by (simp add: int_str_def)
qed (use that in \<open>simp add: int_str_def\<close>)

lemma digit_chars:
  "is_digit c \<Longrightarrow> c \<notin> {CHR '' '', CHR 0x09, CHR 0x0A, CHR 0x0D, CHR 0x22, CHR ''['', CHR '']'', CHR ''{'',
     CHR ''}'', CHR ''n'', CHR ''t'', CHR ''f'', CHR '',''}"
  by (auto simp: is_digit_def in_range_def)

lemma number_start:
  assumes "c = CHR ''-'' \<or> is_digit c"
  shows "\<not> is_ws c" "c \<notin> {CHR 0x22, CHR ''['', CHR ''{'', CHR ''n'', CHR ''t'', CHR ''f''}"
proof -
  have d: "\<not> is_ws c \<and> c \<notin> {CHR 0x22, CHR ''['', CHR ''{'', CHR ''n'', CHR ''t'', CHR ''f''}"
    if "is_digit c"
    using digit_chars [OF that] by (simp add: is_ws_def)
  have m: "\<not> is_ws CHR ''-'' \<and>
      CHR ''-'' \<notin> {CHR 0x22, CHR ''['', CHR ''{'', CHR ''n'', CHR ''t'', CHR ''f''}"
    by (simp add: is_ws_def)
  have both: "\<not> is_ws c \<and> c \<notin> {CHR 0x22, CHR ''['', CHR ''{'', CHR ''n'', CHR ''t'', CHR ''f''}"
    using assms
  proof
    assume "c = CHR ''-''"
    then show ?thesis using m by (simp only: simp_thms)
  qed (rule d)
  from both show "\<not> is_ws c" by (rule conjunct1)
  from both show "c \<notin> {CHR 0x22, CHR ''['', CHR ''{'', CHR ''n'', CHR ''t'', CHR ''f''}"
    by (rule conjunct2)
qed

definition first_char :: "char \<Rightarrow> bool" where
  "first_char c \<longleftrightarrow> \<not> is_ws c \<and> c \<noteq> CHR '']'' \<and> c \<noteq> CHR ''}''"

lemma first_chars:
  "first_char CHR ''n''" "first_char CHR ''t''" "first_char CHR ''f''" "first_char CHR 0x22"
  "first_char CHR ''[''" "first_char CHR ''{''"
  by (simp_all add: first_char_def is_ws_def)

lemma str_of_head:
  assumes "json_value v"
  obtains c t where "str_of v = c # t" "first_char c"
proof (cases v)
  case Undef
  with assms show ?thesis by simp
next
  case Null
  with that [of "CHR ''n''"] show ?thesis by (simp add: str_of.simps first_chars)
next
  case (JBool b)
  with that [of "CHR ''t''"] that [of "CHR ''f''"] show ?thesis
    by (cases b) (simp_all add: str_of.simps first_chars)
next
  case (JNum n)
  obtain c cs where "int_str n = c # cs" "c = CHR ''-'' \<or> is_digit c" by (rule int_str_head)
  have "first_char CHR ''-''" by (simp add: first_char_def is_ws_def)
  moreover have "first_char c" if "is_digit c"
    using digit_chars [OF that] by (simp add: first_char_def is_ws_def)
  ultimately have "first_char c" using \<open>c = CHR ''-'' \<or> is_digit c\<close> by blast
  moreover have "str_of v = c # cs" using JNum \<open>int_str n = c # cs\<close> by (simp add: str_of.simps)
  ultimately show ?thesis by (intro that)
next
  case (JStr s)
  with that [of "CHR 0x22"] show ?thesis by (simp add: str_of.simps quote_def first_chars)
next
  case (JArr vs)
  have "str_of v = CHR ''['' # tl (str_of v)" by (simp add: JArr str_of.simps)
  then show ?thesis by (rule that) (rule first_chars)
next
  case (JObj ps)
  have "str_of v = CHR ''{'' # tl (str_of v)" by (simp add: JObj str_of.simps)
  then show ?thesis by (rule that) (rule first_chars)
qed

lemma stringify_Some: "json_value v \<Longrightarrow> stringify v = Some (str_of v)"
  by (cases v) (auto simp: str_of.simps)

lemma skip_ws_str: "json_value v \<Longrightarrow> skip_ws (str_of v @ s) = str_of v @ s"
  by (erule str_of_head) (simp add: skip_ws_def first_char_def)

text \<open>What the induction says of one value: the parser reads it back and stops behind it.\<close>

definition reads :: "jsval \<Rightarrow> bool" where
  "reads v \<longleftrightarrow> (\<forall>n rest. length (str_of v) \<le> n \<longrightarrow> no_digit rest \<longrightarrow>
     p_value n (str_of v @ rest) = Some (v, rest))"

definition elems_text :: "jsval list \<Rightarrow> string" where
  "elems_text vs = join '','' (map str_of vs) @ '']''"

lemma elems_text_Cons:
  "elems_text (v # vs) = str_of v @ (if vs = [] then '']'' else '','' @ elems_text vs)"
  by (cases vs) (auto simp: elems_text_def)

lemma p_elems_reads:
  assumes "list_all json_value vs" "list_all reads vs" "vs \<noteq> []" "length (elems_text vs) \<le> n"
  shows "p_elems n (elems_text vs @ rest) = Some (vs, rest)"
  using assms
proof (induction vs arbitrary: n)
  case (Cons v vs)
  obtain m where n: "n = Suc m" using Cons.prems(4) by (cases n) (auto simp: elems_text_def)
  have nd: "no_digit ('']'' @ r)" "no_digit ('','' @ r)" for r
    by (auto simp: no_digit_def is_digit_def in_range_def)
  have l: "length (str_of v) \<le> m" using Cons.prems(4) n by (auto simp: elems_text_Cons split: if_splits)
  show ?case
  proof (cases "vs = []")
    case True
    then have "p_value m (str_of v @ '']'' @ rest) = Some (v, '']'' @ rest)"
      using Cons.prems(2) l nd by (simp add: reads_def)
    then show ?thesis using n True by (simp add: elems_text_Cons skip_ws_def is_ws_def)
  next
    case False
    then have "p_value m (str_of v @ '','' @ elems_text vs @ rest) = Some (v, '','' @ elems_text vs @ rest)"
      using Cons.prems(2) l nd(2) by (simp add: reads_def)
    moreover have "p_elems m (elems_text vs @ rest) = Some (vs, rest)"
      using Cons False n by (auto simp: elems_text_Cons)
    ultimately show ?thesis using n False by (simp add: elems_text_Cons skip_ws_def is_ws_def)
  qed
qed simp

definition member_text :: "string \<times> jsval \<Rightarrow> string" where
  "member_text p = (case p of (k, v) \<Rightarrow> quote k @ '':'' @ str_of v)"

definition members_text :: "obj \<Rightarrow> string" where
  "members_text ps = join '','' (map member_text ps) @ ''}''"

lemma members_text_Cons:
  "members_text (p # ps) = member_text p @ (if ps = [] then ''}'' else '','' @ members_text ps)"
  by (cases ps) (auto simp: members_text_def)

lemma p_members_reads:
  assumes "list_all (\<lambda>(_, v). json_value v) ps" "list_all (\<lambda>(_, v). reads v) ps" "ps \<noteq> []"
    "length (members_text ps) \<le> n"
  shows "p_members n (members_text ps @ rest) = Some (ps, rest)"
  using assms
proof (induction ps arbitrary: n)
  case (Cons p ps)
  obtain k v where p: "p = (k, v)" by fastforce
  obtain m where n: "n = Suc m" using Cons.prems(4) by (cases n) (auto simp: members_text_def)
  have nd: "no_digit (''}'' @ r)" "no_digit ('','' @ r)" for r
    by (auto simp: no_digit_def is_digit_def in_range_def)
  have l: "length (str_of v) \<le> m"
    using Cons.prems(4) n p by (auto simp: members_text_Cons member_text_def split: if_splits)
  let ?tail = "if ps = [] then ''}'' else '','' @ members_text ps"
  have v: "p_value m (str_of v @ ?tail @ rest) = Some (v, ?tail @ rest)"
    using Cons.prems(2) l nd p by (simp add: reads_def)
  have q: "p_string (concat (map quote_char k) @ CHR 0x22 # CHR '':'' # str_of v @ ?tail @ rest) =
      Some (k, CHR '':'' # str_of v @ ?tail @ rest)"
    by (rule p_string_quote)
  have t: "members_text (p # ps) @ rest =
      CHR 0x22 # concat (map quote_char k) @ CHR 0x22 # CHR '':'' # str_of v @ ?tail @ rest"
    by (simp add: members_text_Cons member_text_def p quote_def)
  show ?case
  proof (cases "ps = []")
    case True
    then show ?thesis unfolding t n using q v p by (simp add: skip_ws_def is_ws_def)
  next
    case False
    have "p_members m (members_text ps @ rest) = Some (ps, rest)"
      using Cons False n p by (auto simp: members_text_Cons)
    with False show ?thesis unfolding t n using q v p by (simp add: skip_ws_def is_ws_def)
  qed
qed simp

lemma stringify_list:
  "list_all json_value vs \<Longrightarrow>
   map (\<lambda>v. case stringify v of None \<Rightarrow> ''null'' | Some t \<Rightarrow> t) vs = map str_of vs"
  by (induction vs) (auto simp: stringify_Some)

lemma stringify_members:
  "list_all (\<lambda>(_, v). json_value v) ps \<Longrightarrow>
   concat (map (\<lambda>(k, v). case stringify v of None \<Rightarrow> [] | Some t \<Rightarrow> [quote k @ '':'' @ t]) ps) =
   map member_text ps"
  by (induction ps) (auto simp: stringify_Some member_text_def)

lemma str_of_arr: "list_all json_value vs \<Longrightarrow> str_of (JArr vs) = CHR ''['' # elems_text vs"
  by (simp add: stringify_list elems_text_def str_of.simps [of "JArr vs"])

lemma str_of_obj:
  "list_all (\<lambda>(_, v). json_value v) ps \<Longrightarrow> str_of (JObj ps) = CHR ''{'' # members_text ps"
  by (simp add: stringify_members members_text_def str_of.simps [of "JObj ps"])

lemma spread_distinct_aux:
  "distinct (map fst (ps @ qs)) \<Longrightarrow> spread ps qs = ps @ qs"
proof (induction ps qs rule: spread.induct)
  case (2 ps k v qs)
  have "put k v ps = ps @ [(k, v)]" if "k \<notin> set (map fst ps)" for ps
    using that by (induction k v ps rule: put.induct) auto
  with 2 show ?case by auto
qed simp

lemma reads_all: "json_value v \<Longrightarrow> reads v"
proof (induction v)
  case (JArr vs)
  then have j: "list_all json_value vs" and r: "list_all reads vs" by (auto simp: list_all_iff)
  show ?case unfolding reads_def
  proof (intro allI impI)
    fix n and rest :: string
    assume l: "length (str_of (JArr vs)) \<le> n"
    then obtain m where n: "n = Suc m" by (cases n) (auto simp: str_of_arr j)
    show "p_value n (str_of (JArr vs) @ rest) = Some (JArr vs, rest)"
    proof (cases vs)
      case Nil
      then show ?thesis using n by (simp add: str_of_arr elems_text_def skip_ws_def is_ws_def)
    next
      case (Cons w ws)
      obtain c t where c: "str_of w = c # t" "first_char c"
        using str_of_head [of w] j Cons by auto
      then obtain e where e: "elems_text vs @ rest = c # e" using Cons by (simp add: elems_text_Cons)
      have w: "skip_ws (c # e) = c # e" "c \<noteq> CHR '']''"
        using c(2) by (simp_all add: skip_ws_def first_char_def)
      have "p_elems m (c # e) = Some (vs, rest)"
        using p_elems_reads [OF j r, of m rest] Cons l n j e by (simp add: str_of_arr)
      moreover have "str_of (JArr vs) @ rest = CHR ''['' # c # e" using j e by (simp add: str_of_arr)
      moreover have "skip_ws (CHR ''['' # c # e) = CHR ''['' # c # e" by (simp add: skip_ws_def is_ws_def)
      ultimately show ?thesis using n w by simp
    qed
  qed
next
  case (JObj ps)
  then have j: "list_all (\<lambda>(_, v). json_value v) ps" and r: "list_all (\<lambda>(_, v). reads v) ps"
    and d: "distinct (map fst ps)"
    by (auto simp: list_all_iff)
  show ?case unfolding reads_def
  proof (intro allI impI)
    fix n and rest :: string
    assume l: "length (str_of (JObj ps)) \<le> n"
    then obtain m where n: "n = Suc m" by (cases n) (auto simp: str_of_obj j)
    show "p_value n (str_of (JObj ps) @ rest) = Some (JObj ps, rest)"
    proof (cases ps)
      case Nil
      then show ?thesis using n by (simp add: str_of_obj members_text_def skip_ws_def is_ws_def)
    next
      case (Cons q qs)
      then obtain e where e: "members_text ps @ rest = CHR 0x22 # e"
        by (cases q) (simp add: members_text_Cons member_text_def quote_def)
      have w: "skip_ws (CHR 0x22 # e) = CHR 0x22 # e" by (simp add: skip_ws_def is_ws_def)
      have "p_members m (CHR 0x22 # e) = Some (ps, rest)"
        using p_members_reads [OF j r, of m rest] Cons l n j e by (simp add: str_of_obj)
      moreover have "str_of (JObj ps) @ rest = CHR ''{'' # CHR 0x22 # e" using j e by (simp add: str_of_obj)
      moreover have "skip_ws (CHR ''{'' # CHR 0x22 # e) = CHR ''{'' # CHR 0x22 # e"
        by (simp add: skip_ws_def is_ws_def)
      moreover have "spread [] ps = ps" using spread_distinct_aux [of "[]" ps] d by simp
      ultimately show ?thesis using n w by simp
    qed
  qed
next
  case (JNum k)
  show ?case unfolding reads_def
  proof (intro allI impI)
    fix n and rest :: string
    assume l: "length (str_of (JNum k)) \<le> n" and d: "no_digit rest"
    obtain c cs where i: "int_str k = c # cs" "c = CHR ''-'' \<or> is_digit c" by (rule int_str_head)
    obtain m where n: "n = Suc m" using l i by (cases n) (auto simp: str_of.simps)
    note c = number_start [OF i(2)]
    show "p_value n (str_of (JNum k) @ rest) = Some (JNum k, rest)"
      using p_number_int_str [OF d, of k] c i(1) n by (simp add: str_of.simps skip_ws_def)
  qed
next
  case (JStr s)
  show ?case unfolding reads_def
  proof (intro allI impI)
    fix n and rest :: string
    assume "length (str_of (JStr s)) \<le> n"
    then obtain m where n: "n = Suc m" by (cases n) (auto simp: str_of.simps quote_def)
    show "p_value n (str_of (JStr s) @ rest) = Some (JStr s, rest)"
      using n p_string_quote [of s rest] by (simp add: str_of.simps quote_def skip_ws_def is_ws_def)
  qed
next
  case (JBool b)
  show ?case unfolding reads_def
  proof (intro allI impI)
    fix n and rest :: string
    assume "length (str_of (JBool b)) \<le> n"
    then obtain m where n: "n = Suc m" by (cases n) (auto simp: str_of.simps split: if_splits)
    show "p_value n (str_of (JBool b) @ rest) = Some (JBool b, rest)"
      using n by (simp add: str_of.simps skip_ws_def is_ws_def p_word_def starts_with_def)
  qed
next
  case Null
  show ?case unfolding reads_def
  proof (intro allI impI)
    fix n and rest :: string
    assume "length (str_of Null) \<le> n"
    then obtain m where n: "n = Suc m" by (cases n) (auto simp: str_of.simps)
    show "p_value n (str_of Null @ rest) = Some (Null, rest)"
      using n by (simp add: str_of.simps skip_ws_def is_ws_def p_word_def starts_with_def)
  qed
qed simp

lemma json_parse_str_of: "json_value v \<Longrightarrow> json_parse (str_of v) = Inr v"
proof -
  assume "json_value v"
  moreover have "no_digit []" by (simp add: no_digit_def)
  ultimately have "p_value (Suc (length (str_of v))) (str_of v @ []) = Some (v, [])"
    using reads_all [of v] unfolding reads_def by (metis le_SucI order_refl)
  then show ?thesis by (simp add: json_parse_def skip_ws_def del: p_value.simps)
qed

end
