(* ===== verification/Sql.thy ===== *)
theory Sql
  imports Prelude
begin

text \<open>
  The SQL layer of the identity database: the statements that \<open>db/sql/sqlite.ts\<close> and
  \<open>db/sql/pg.ts\<close> build.  A statement is kept as the pieces the code concatenates, with
  \<open>sql_text\<close> printing exactly what the template literals print; the values travel beside it,
  as they do in the calls of the two drivers.  A placeholder carries the position of the value
  it stands for: \<open>Qmark n\<close> prints as a question mark, \<open>Dollar n\<close> as its number.
\<close>

section \<open>Statements and their text\<close>

datatype ph = Qmark nat | Dollar nat

fun ph_text :: "ph \<Rightarrow> string" where
  "ph_text (Qmark _) = ''?''"
| "ph_text (Dollar n) = CHR ''$'' # nat_str n"

fun ph_pos :: "ph \<Rightarrow> nat" where
  "ph_pos (Qmark n) = n"
| "ph_pos (Dollar n) = n"

text \<open>One conjunct of a condition: a comparison, or a disjunction of comparisons.\<close>

datatype cond = Cmp string string ph | AnyOf "(string \<times> string \<times> ph) list"

definition cmp_text :: "string \<times> string \<times> ph \<Rightarrow> string" where
  "cmp_text c = (case c of (k, oper, p) \<Rightarrow> k @ oper @ ph_text p)"

fun cond_text :: "cond \<Rightarrow> string" where
  "cond_text (Cmp k oper p) = cmp_text (k, oper, p)"
| "cond_text (AnyOf cs) = ''('' @ join '' OR '' (map cmp_text cs) @ '')''"

definition conds_text :: "cond list \<Rightarrow> string" where
  "conds_text cs = join '' AND '' (map cond_text cs)"

datatype minmax = SqlMIN | SqlMAX

fun minmax_text :: "minmax \<Rightarrow> string" where
  "minmax_text SqlMIN = ''MIN''"
| "minmax_text SqlMAX = ''MAX''"

text \<open>How a \<open>SET\<close> clause is spaced by the method that writes it.\<close>

datatype spacing = Tight | TightJoin | Spaced

datatype stmt =
    Select "string list" "string list" "(string \<times> cond list) list" "(string \<times> string) list option"
      "string option"
  | SelectExt minmax string "string list" "string list" "(string \<times> cond list) list"
      "(string \<times> string) list option" "string option"
  | SelectLike "string list" string "(string \<times> ph) list" string "string option"
  | Insert string "(string \<times> ph) list"
  | Update string spacing "(string \<times> ph) list" "(string \<times> ph) list"
  | Delete string "(string \<times> string \<times> ph) list"
  | CreateTable string string
  | CreateIndex string string
  | PgTableExists string

text \<open>The accumulation \<open>condition += \<dots>\<close> of \<open>_get\<close> over the conditions, the join and the order.\<close>

definition add_cond :: "string \<Rightarrow> string \<times> cond list \<Rightarrow> string" where
  "add_cond acc g =
     (case g of (lnk, cs) \<Rightarrow>
        let c = conds_text cs in
        if c \<noteq> [] then acc @ (if acc \<noteq> [] then '' '' @ lnk @ '' '' else ''WHERE '') @ c else acc)"

definition join_text :: "(string \<times> string) list \<Rightarrow> string" where
  "join_text js = join '' AND '' (map (\<lambda>(k, v). k @ ''='' @ v) js)"

definition where_text ::
  "(string \<times> cond list) list \<Rightarrow> (string \<times> string) list option \<Rightarrow> string option \<Rightarrow> string" where
  "where_text gs js ord =
     (let c = foldl add_cond [] gs;
          c' = (case js of None \<Rightarrow> c
                | Some j \<Rightarrow> c @ (if c \<noteq> [] then '' AND '' else ''WHERE '') @ join_text j)
      in (case ord of None \<Rightarrow> c' | Some f \<Rightarrow> c' @ '' ORDER BY '' @ f))"

fun set_text :: "spacing \<Rightarrow> (string \<times> ph) list \<Rightarrow> string" where
  "set_text Tight ss = join '','' (map (\<lambda>(n, p). n @ ''='' @ ph_text p) ss)"
| "set_text TightJoin ss = join ''=?,'' (map fst ss) @ ''=?''"
| "set_text Spaced ss = join '', '' (map (\<lambda>(n, p). n @ '' = '' @ ph_text p) ss)"

definition eq_text :: "spacing \<Rightarrow> string \<times> ph \<Rightarrow> string" where
  "eq_text sp c = (case c of (f, p) \<Rightarrow> f @ (if sp = Spaced then '' = '' else ''='') @ ph_text p)"

definition replace_dots :: "string \<Rightarrow> string" where
  "replace_dots = map (\<lambda>c. if c = CHR ''.'' then CHR ''_'' else c)"

fun sql_text :: "stmt \<Rightarrow> string" where
  "sql_text (Select fs ts gs js ord) =
     ''SELECT '' @ join '','' fs @ '' FROM '' @ join '','' ts @ '' '' @ where_text gs js ord"
| "sql_text (SelectExt m target fs ts gs js ord) =
     ''SELECT '' @ join '','' fs @ '', '' @ minmax_text m @ ''('' @ target @ '') AS max_'' @
     replace_dots target @ '' FROM '' @ join '','' ts @ '' '' @ where_text gs js ord @
     '' HAVING COUNT(*) > 0''"
| "sql_text (SelectLike fs t likes lead ord) =
     ''SELECT '' @ join '','' fs @ '' FROM '' @ t @ '' WHERE '' @
     join '' OR '' (map (\<lambda>(f, p). f @ '' LIKE '' @ ph_text p) likes) @
     (case ord of None \<Rightarrow> [] | Some f \<Rightarrow> lead @ ''ORDER BY '' @ f)"
| "sql_text (Insert t vs) =
     ''INSERT INTO '' @ t @ ''('' @ join '','' (map fst vs) @ '') VALUES('' @
     join '','' (map (\<lambda>(_, p). ph_text p) vs) @ '') RETURNING *;''"
| "sql_text (Update t sp ss cs) =
     ''UPDATE '' @ t @ '' SET '' @ set_text sp ss @ '' WHERE '' @
     join '' AND '' (map (eq_text sp) cs) @ '' RETURNING *;''"
| "sql_text (Delete t cs) = ''DELETE FROM '' @ t @ '' WHERE '' @ join '' AND '' (map cmp_text cs)"
| "sql_text (CreateTable t cols) = ''CREATE TABLE '' @ t @ ''('' @ cols @ '')''"
| "sql_text (CreateIndex t i) = ''CREATE INDEX i_'' @ t @ ''_'' @ i @ '' ON '' @ t @ '' ('' @ i @ '')''"
| "sql_text (PgTableExists t) =
     ''SELECT EXISTS (SELECT FROM pg_tables WHERE tablename='' @ [CHR 0x27] @ to_lower t @
     [CHR 0x27] @ '')''"

section \<open>Building the statements\<close>

text \<open>The filter of \<open>buildCondition\<close>: null, undefined and whatever prints as the empty text go.\<close>

definition kept :: "obj \<Rightarrow> obj" where
  "kept fl = filter (\<lambda>(_, v). \<not> nullish v \<and> js_str v \<noteq> js_str (JArr [])) fl"

text \<open>\<open>index\<close> counts the placeholders and \<open>values\<close> collects the texts, over all conditions.\<close>

definition number_array :: "string \<Rightarrow> string \<Rightarrow> nat \<Rightarrow> jsval list \<Rightarrow> (string \<times> string \<times> ph) list" where
  "number_array key oper index vs = map (\<lambda>i. (key, oper, Dollar (index + Suc i))) [0..<length vs]"

definition cond_for :: "string \<Rightarrow> nat \<Rightarrow> string \<Rightarrow> jsval \<Rightarrow> cond \<times> jsval list" where
  "cond_for oper index key v =
     (case v of
        JArr vs \<Rightarrow> (AnyOf (number_array key oper index vs), map (\<lambda>x. JStr (js_str x)) vs)
      | _ \<Rightarrow> (Cmp key oper (Dollar (Suc index)), [JStr (js_str v)]))"

fun build_conds :: "string \<Rightarrow> nat \<Rightarrow> obj \<Rightarrow> cond list \<times> nat \<times> jsval list" where
  "build_conds oper index [] = ([], index, [])"
| "build_conds oper index ((key, v) # fl) =
     (let (c, vs) = cond_for oper index key v;
          (cs, index', values) = build_conds oper (index + length vs) fl
      in (c # cs, index', vs @ values))"

definition buildCondition :: "string \<Rightarrow> nat \<Rightarrow> obj \<Rightarrow> cond list \<times> nat \<times> jsval list" where
  "buildCondition oper index fl = build_conds oper index (kept fl)"

text \<open>A condition argument of \<open>_get\<close>: operator, link to the previous one, filters; each may be absent.\<close>

type_synonym filter_arg = "string option \<times> string option \<times> obj option"

fun build_groups :: "nat \<Rightarrow> filter_arg list \<Rightarrow> (string \<times> cond list) list \<times> jsval list" where
  "build_groups index [] = ([], [])"
| "build_groups index ((Some oper, Some lnk, Some fl) # args) =
     (if fl \<noteq> [] then
        let (cs, index', vs) = buildCondition oper index fl;
            (gs, vs') = build_groups index' args
        in ((lnk, cs) # gs, vs @ vs')
      else let (gs, vs) = build_groups index args in (([], []) # gs, vs))"
| "build_groups index (_ # args) = (let (gs, vs) = build_groups index args in (([], []) # gs, vs))"

definition alias_fields :: "string list \<Rightarrow> string list" where
  "alias_fields flds =
     (if flds = [] then [''*'']
      else map (\<lambda>f. if CHR ''.'' \<in> set f then f @ '' AS '' @ replace_dots f else f) flds)"

definition kept_joins :: "obj option \<Rightarrow> (string \<times> string) list option" where
  "kept_joins = map_option (\<lambda>js. map (\<lambda>(k, v). (k, js_str v)) (kept js))"

text \<open>
  \<open>_get\<close> of both classes.  The first condition has no link operator of its own: its test is on
  \<open>op1\<close> and \<open>filterFields1\<close> only.
\<close>

definition get_stmt ::
  "string list \<Rightarrow> string list \<Rightarrow> string option \<Rightarrow> obj option \<Rightarrow> string option \<Rightarrow> string option \<Rightarrow>
   obj option \<Rightarrow> string option \<Rightarrow> string option \<Rightarrow> obj option \<Rightarrow> obj option \<Rightarrow> string option \<Rightarrow>
   stmt \<times> jsval list" where
  "get_stmt tables flds op1 filterFields1 op2 linkop1 filterFields2 op3 linkop2 filterFields3
     joinFields order =
     (let (gs, values) =
        build_groups 0 [(op1, Some [], filterFields1), (op2, linkop1, filterFields2),
                        (op3, linkop2, filterFields3)]
      in (Select (alias_fields flds) tables gs (kept_joins joinFields) order, values))"

definition getMinMax_stmt ::
  "minmax \<Rightarrow> string list \<Rightarrow> string \<Rightarrow> string list \<Rightarrow> string option \<Rightarrow> obj option \<Rightarrow> string option \<Rightarrow>
   string option \<Rightarrow> obj option \<Rightarrow> obj option \<Rightarrow> string option \<Rightarrow> stmt \<times> jsval list" where
  "getMinMax_stmt m tables targetField flds op1 filterFields1 op2 linkop filterFields2 joinFields
     order =
     (let (gs, values) =
        build_groups 0 [(op1, Some [], filterFields1), (op2, linkop, filterFields2)]
      in (SelectExt m targetField (alias_fields flds) tables gs (kept_joins joinFields) order,
          values))"

section \<open>The connection\<close>

text \<open>
  What a driver does with a statement and its values: the error it reports, or the rows, and the
  state of the database afterwards.  It is a parameter of every method (the drivers are not part
  of the repository).  \<open>ready\<close> is the test \<open>this.db == null\<close>.
\<close>

type_synonym 's driver = "stmt \<Rightarrow> jsval list \<Rightarrow> 's \<Rightarrow> obj list result \<times> 's"

record 's conn =
  ready :: bool
  driver :: "'s driver"

definition not_ready :: "string \<Rightarrow> 's \<Rightarrow> 'a result \<times> 's" where
  "not_ready msg s = (Inl (Err msg), s)"

definition void_result :: "obj list result \<times> 's \<Rightarrow> unit result \<times> 's" where
  "void_result r = (case r of (Inl e, s) \<Rightarrow> (Inl e, s) | (Inr _, s) \<Rightarrow> (Inr (), s))"

definition WAIT :: string where "WAIT = ''Wait for database to be ready''"

definition qmarks :: "nat \<Rightarrow> string list \<Rightarrow> (string \<times> ph) list" where
  "qmarks start names = map (\<lambda>i. (names ! i, Qmark (start + Suc i))) [0..<length names]"

definition dollars :: "nat \<Rightarrow> string list \<Rightarrow> (string \<times> ph) list" where
  "dollars start names = map (\<lambda>i. (names ! i, Dollar (start + Suc i))) [0..<length names]"

section \<open>SQLite\<close>

definition sqlite_rawQuery :: "'s conn \<Rightarrow> stmt \<Rightarrow> 's \<Rightarrow> unit result \<times> 's" where
  "sqlite_rawQuery c st s =
     (if \<not> ready c then not_ready ''DB not ready'' s else void_result (driver c st [] s))"

definition sqlite_insert :: "'s conn \<Rightarrow> string \<Rightarrow> obj \<Rightarrow> 's \<Rightarrow> obj list result \<times> 's" where
  "sqlite_insert c table values s =
     (if \<not> ready c then not_ready WAIT s
      else driver c (Insert table (qmarks 0 (map fst values))) (map snd values) s)"

definition sqlite_update ::
  "'s conn \<Rightarrow> string \<Rightarrow> obj \<Rightarrow> string \<Rightarrow> jsval \<Rightarrow> 's \<Rightarrow> obj list result \<times> 's" where
  "sqlite_update c table values field v s =
     (if \<not> ready c then not_ready WAIT s
      else driver c
             (Update table TightJoin (qmarks 0 (map fst values)) (qmarks (length values) [field]))
             (map snd values @ [v]) s)"

definition sqlite_updateAnd ::
  "'s conn \<Rightarrow> string \<Rightarrow> obj \<Rightarrow> string \<times> jsval \<Rightarrow> string \<times> jsval \<Rightarrow> 's \<Rightarrow> obj list result \<times> 's" where
  "sqlite_updateAnd c table values condition1 condition2 s =
     (if \<not> ready c then not_ready WAIT s
      else driver c
             (Update table Spaced (qmarks 0 (map fst values))
                (qmarks (length values) [fst condition1, fst condition2]))
             (map snd values @ [snd condition1, snd condition2]) s)"

definition sqlite_raw_get ::
  "'s conn \<Rightarrow> string list \<Rightarrow> string list \<Rightarrow> string option \<Rightarrow> obj option \<Rightarrow> string option \<Rightarrow>
   string option \<Rightarrow> obj option \<Rightarrow> string option \<Rightarrow> string option \<Rightarrow> obj option \<Rightarrow> obj option \<Rightarrow>
   string option \<Rightarrow> 's \<Rightarrow> obj list result \<times> 's" where
  "sqlite_raw_get c tables flds op1 f1 op2 linkop1 f2 op3 linkop2 f3 joinFields order s =
     (if \<not> ready c then not_ready WAIT s
      else let (st, values) =
                 get_stmt tables flds op1 f1 op2 linkop1 f2 op3 linkop2 f3 joinFields order
           in driver c st values s)"

definition sqlite_get ::
  "'s conn \<Rightarrow> string \<Rightarrow> string list \<Rightarrow> obj option \<Rightarrow> string option \<Rightarrow> 's \<Rightarrow> obj list result \<times> 's" where
  "sqlite_get c table flds filterFields order =
     sqlite_raw_get c [table] flds (Some ''='') filterFields None None None None None None None order"

definition sqlite_getJoin ::
  "'s conn \<Rightarrow> string list \<Rightarrow> string list \<Rightarrow> obj option \<Rightarrow> obj option \<Rightarrow> string option \<Rightarrow> 's \<Rightarrow>
   obj list result \<times> 's" where
  "sqlite_getJoin c tables flds filterFields joinFields order =
     sqlite_raw_get c tables flds (Some ''='') filterFields None None None None None None joinFields
       order"

definition sqlite_getHigherThan ::
  "'s conn \<Rightarrow> string \<Rightarrow> string list \<Rightarrow> obj option \<Rightarrow> string option \<Rightarrow> 's \<Rightarrow> obj list result \<times> 's" where
  "sqlite_getHigherThan c table flds filterFields order =
     sqlite_raw_get c [table] flds (Some ''>'') filterFields None None None None None None None order"

definition sqlite_getWhereEqualOrDifferent ::
  "'s conn \<Rightarrow> string \<Rightarrow> string list \<Rightarrow> obj option \<Rightarrow> obj option \<Rightarrow> string option \<Rightarrow> 's \<Rightarrow>
   obj list result \<times> 's" where
  "sqlite_getWhereEqualOrDifferent c table flds f1 f2 order =
     sqlite_raw_get c [table] flds (Some ''='') f1 (Some ''<>'') (Some '' OR '') f2 None None None
       None order"

definition sqlite_getWhereEqualAndHigher ::
  "'s conn \<Rightarrow> string \<Rightarrow> string list \<Rightarrow> obj option \<Rightarrow> obj option \<Rightarrow> string option \<Rightarrow> 's \<Rightarrow>
   obj list result \<times> 's" where
  "sqlite_getWhereEqualAndHigher c table flds f1 f2 order =
     sqlite_raw_get c [table] flds (Some ''='') f1 (Some ''>'') (Some '' AND '') f2 None None None
       None order"

definition sqlite_raw_getMinMax ::
  "'s conn \<Rightarrow> minmax \<Rightarrow> string list \<Rightarrow> string \<Rightarrow> string list \<Rightarrow> string option \<Rightarrow> obj option \<Rightarrow>
   string option \<Rightarrow> string option \<Rightarrow> obj option \<Rightarrow> obj option \<Rightarrow> string option \<Rightarrow> 's \<Rightarrow>
   obj list result \<times> 's" where
  "sqlite_raw_getMinMax c m tables target flds op1 f1 op2 linkop f2 joinFields order s =
     (if \<not> ready c then not_ready WAIT s
      else let (st, values) =
                 getMinMax_stmt m tables target flds op1 f1 op2 linkop f2 joinFields order
           in driver c st values s)"

definition sqlite_getMaxWhereEqual ::
  "'s conn \<Rightarrow> string \<Rightarrow> string \<Rightarrow> string list \<Rightarrow> obj option \<Rightarrow> string option \<Rightarrow> 's \<Rightarrow>
   obj list result \<times> 's" where
  "sqlite_getMaxWhereEqual c table target flds f order =
     sqlite_raw_getMinMax c SqlMAX [table] target flds (Some ''='') f None None None None order"

definition sqlite_getMaxWhereEqualAndLower ::
  "'s conn \<Rightarrow> string \<Rightarrow> string \<Rightarrow> string list \<Rightarrow> obj option \<Rightarrow> obj option \<Rightarrow> string option \<Rightarrow> 's \<Rightarrow>
   obj list result \<times> 's" where
  "sqlite_getMaxWhereEqualAndLower c table target flds f1 f2 order =
     sqlite_raw_getMinMax c SqlMAX [table] target flds (Some ''='') f1 (Some ''<'') (Some '' AND '') f2
       None order"

definition sqlite_getMinWhereEqualAndHigher ::
  "'s conn \<Rightarrow> string \<Rightarrow> string \<Rightarrow> string list \<Rightarrow> obj option \<Rightarrow> obj option \<Rightarrow> string option \<Rightarrow> 's \<Rightarrow>
   obj list result \<times> 's" where
  "sqlite_getMinWhereEqualAndHigher c table target flds f1 f2 order =
     sqlite_raw_getMinMax c SqlMIN [table] target flds (Some ''='') f1 (Some ''>'') (Some '' AND '') f2
       None order"

definition sqlite_getMaxWhereEqualAndLowerJoin ::
  "'s conn \<Rightarrow> string list \<Rightarrow> string \<Rightarrow> string list \<Rightarrow> obj option \<Rightarrow> obj option \<Rightarrow> obj option \<Rightarrow>
   string option \<Rightarrow> 's \<Rightarrow> obj list result \<times> 's" where
  "sqlite_getMaxWhereEqualAndLowerJoin c tables target flds f1 f2 joinFields order =
     sqlite_raw_getMinMax c SqlMAX tables target flds (Some ''='') f1 (Some ''<'') (Some '' AND '') f2
       joinFields order"

definition sqlite_match ::
  "'s conn \<Rightarrow> string \<Rightarrow> string list \<Rightarrow> string list \<Rightarrow> jsval \<Rightarrow> string option \<Rightarrow> 's \<Rightarrow>
   obj list result \<times> 's" where
  "sqlite_match c table flds searchFields v order s =
     (if \<not> ready c then not_ready WAIT s
      else driver c
             (SelectLike (if flds = [] then [''*''] else flds) table (qmarks 0 searchFields) []
                order)
             (map (\<lambda>_. JStr (''%'' @ js_str v @ ''%'')) searchFields) s)"

definition sqlite_deleteEqual :: "'s conn \<Rightarrow> string \<Rightarrow> string \<Rightarrow> jsval \<Rightarrow> 's \<Rightarrow> unit result \<times> 's" where
  "sqlite_deleteEqual c table field v s =
     (if \<not> ready c then not_ready WAIT s
      else void_result (driver c (Delete table [(field, ''='', Qmark 1)]) [v] s))"

definition sqlite_deleteEqualAnd ::
  "'s conn \<Rightarrow> string \<Rightarrow> string \<times> jsval \<Rightarrow> string \<times> jsval \<Rightarrow> 's \<Rightarrow> unit result \<times> 's" where
  "sqlite_deleteEqualAnd c table condition1 condition2 s =
     (if \<not> ready c then not_ready WAIT s
      else void_result
             (driver c
                (Delete table [(fst condition1, ''='', Qmark 1), (fst condition2, ''='', Qmark 2)])
                [snd condition1, snd condition2] s))"

definition sqlite_deleteLowerThan :: "'s conn \<Rightarrow> string \<Rightarrow> string \<Rightarrow> jsval \<Rightarrow> 's \<Rightarrow> unit result \<times> 's" where
  "sqlite_deleteLowerThan c table field v s =
     (if \<not> ready c then not_ready WAIT s
      else void_result (driver c (Delete table [(field, ''<'', Qmark 1)]) [v] s))"

text \<open>A condition of \<open>deleteWhere\<close>: the field, the operator (absent: equality), the value.\<close>

type_synonym sql_condition = "string \<times> string option \<times> jsval"

definition where_conds :: "(nat \<Rightarrow> ph) \<Rightarrow> sql_condition list \<Rightarrow> (string \<times> string \<times> ph) list" where
  "where_conds mk conditions =
     map (\<lambda>i. case conditions ! i of (f, oper, _) \<Rightarrow>
            (f, (case oper of None \<Rightarrow> ''='' | Some x \<Rightarrow> x), mk (Suc i)))
       [0..<length conditions]"

definition sqlite_deleteWhere :: "'s conn \<Rightarrow> string \<Rightarrow> sql_condition list \<Rightarrow> 's \<Rightarrow> unit result \<times> 's" where
  "sqlite_deleteWhere c table conditions s =
     (if \<not> ready c then not_ready WAIT s
      else void_result
             (driver c (Delete table (where_conds Qmark conditions)) (map (snd \<circ> snd) conditions) s))"

section \<open>Postgres\<close>

definition pg_rawQuery :: "'s conn \<Rightarrow> stmt \<Rightarrow> 's \<Rightarrow> unit result \<times> 's" where
  "pg_rawQuery c st s =
     (if \<not> ready c then not_ready ''DB not ready'' s else void_result (driver c st [] s))"

text \<open>\<open>exists\<close> of the Postgres class: a failing query counts as a missing table.\<close>

definition pg_exists :: "'s conn \<Rightarrow> string \<Rightarrow> 's \<Rightarrow> bool result \<times> 's" where
  "pg_exists c table s =
     (if \<not> ready c then not_ready ''DB not ready'' s
      else case driver c (PgTableExists table) [] s of
             (Inl e, s') \<Rightarrow> (Inr False, s')
           | (Inr rows, s') \<Rightarrow> (Inr (rows \<noteq> [] \<and> truthy (getp (hd rows) ''exists'')), s'))"

definition pg_insert :: "'s conn \<Rightarrow> string \<Rightarrow> obj \<Rightarrow> 's \<Rightarrow> obj list result \<times> 's" where
  "pg_insert c table values s =
     (if \<not> ready c then not_ready WAIT s
      else driver c (Insert table (dollars 0 (map fst values))) (map snd values) s)"

definition pg_update ::
  "'s conn \<Rightarrow> string \<Rightarrow> obj \<Rightarrow> string \<Rightarrow> jsval \<Rightarrow> 's \<Rightarrow> obj list result \<times> 's" where
  "pg_update c table values field v s =
     (if \<not> ready c then not_ready WAIT s
      else driver c
             (Update table Tight (dollars 0 (map fst values)) (dollars (length values) [field]))
             (map snd values @ [v]) s)"

definition pg_updateAnd ::
  "'s conn \<Rightarrow> string \<Rightarrow> obj \<Rightarrow> string \<times> jsval \<Rightarrow> string \<times> jsval \<Rightarrow> 's \<Rightarrow> obj list result \<times> 's" where
  "pg_updateAnd c table values condition1 condition2 s =
     (if \<not> ready c then not_ready WAIT s
      else driver c
             (Update table Tight (dollars 0 (map fst values))
                (dollars (length values) [fst condition1, fst condition2]))
             (map snd values @ [snd condition1, snd condition2]) s)"

definition pg_raw_get ::
  "'s conn \<Rightarrow> string list \<Rightarrow> string list \<Rightarrow> string option \<Rightarrow> obj option \<Rightarrow> string option \<Rightarrow>
   string option \<Rightarrow> obj option \<Rightarrow> string option \<Rightarrow> string option \<Rightarrow> obj option \<Rightarrow> obj option \<Rightarrow>
   string option \<Rightarrow> 's \<Rightarrow> obj list result \<times> 's" where
  "pg_raw_get c tables flds op1 f1 op2 linkop1 f2 op3 linkop2 f3 joinFields order s =
     (if \<not> ready c then not_ready WAIT s
      else let (st, values) =
                 get_stmt tables flds op1 f1 op2 linkop1 f2 op3 linkop2 f3 joinFields order
           in driver c st values s)"

definition pg_get ::
  "'s conn \<Rightarrow> string \<Rightarrow> string list \<Rightarrow> obj option \<Rightarrow> string option \<Rightarrow> 's \<Rightarrow> obj list result \<times> 's" where
  "pg_get c table flds filterFields order =
     pg_raw_get c [table] flds (Some ''='') filterFields None None None None None None None order"

definition pg_getJoin ::
  "'s conn \<Rightarrow> string list \<Rightarrow> string list \<Rightarrow> obj option \<Rightarrow> obj option \<Rightarrow> string option \<Rightarrow> 's \<Rightarrow>
   obj list result \<times> 's" where
  "pg_getJoin c tables flds filterFields joinFields order =
     pg_raw_get c tables flds (Some ''='') filterFields None None None None None None joinFields
       order"

definition pg_getHigherThan ::
  "'s conn \<Rightarrow> string \<Rightarrow> string list \<Rightarrow> obj option \<Rightarrow> string option \<Rightarrow> 's \<Rightarrow> obj list result \<times> 's" where
  "pg_getHigherThan c table flds filterFields order =
     pg_raw_get c [table] flds (Some ''>'') filterFields None None None None None None None order"

definition pg_getWhereEqualOrDifferent ::
  "'s conn \<Rightarrow> string \<Rightarrow> string list \<Rightarrow> obj option \<Rightarrow> obj option \<Rightarrow> string option \<Rightarrow> 's \<Rightarrow>
   obj list result \<times> 's" where
  "pg_getWhereEqualOrDifferent c table flds f1 f2 order =
     pg_raw_get c [table] flds (Some ''='') f1 (Some ''<>'') (Some '' OR '') f2 None None None
       None order"

definition pg_getWhereEqualAndHigher ::
  "'s conn \<Rightarrow> string \<Rightarrow> string list \<Rightarrow> obj option \<Rightarrow> obj option \<Rightarrow> string option \<Rightarrow> 's \<Rightarrow>
   obj list result \<times> 's" where
  "pg_getWhereEqualAndHigher c table flds f1 f2 order =
     pg_raw_get c [table] flds (Some ''='') f1 (Some ''>'') (Some '' AND '') f2 None None None
       None order"

definition pg_raw_getMinMax ::
  "'s conn \<Rightarrow> minmax \<Rightarrow> string list \<Rightarrow> string \<Rightarrow> string list \<Rightarrow> string option \<Rightarrow> obj option \<Rightarrow>
   string option \<Rightarrow> string option \<Rightarrow> obj option \<Rightarrow> obj option \<Rightarrow> string option \<Rightarrow> 's \<Rightarrow>
   obj list result \<times> 's" where
  "pg_raw_getMinMax c m tables target flds op1 f1 op2 linkop f2 joinFields order s =
     (if \<not> ready c then not_ready WAIT s
      else let (st, values) =
                 getMinMax_stmt m tables target flds op1 f1 op2 linkop f2 joinFields order
           in driver c st values s)"

definition pg_getMaxWhereEqual ::
  "'s conn \<Rightarrow> string \<Rightarrow> string \<Rightarrow> string list \<Rightarrow> obj option \<Rightarrow> string option \<Rightarrow> 's \<Rightarrow>
   obj list result \<times> 's" where
  "pg_getMaxWhereEqual c table target flds f order =
     pg_raw_getMinMax c SqlMAX [table] target flds (Some ''='') f None None None None order"

definition pg_getMaxWhereEqualAndLower ::
  "'s conn \<Rightarrow> string \<Rightarrow> string \<Rightarrow> string list \<Rightarrow> obj option \<Rightarrow> obj option \<Rightarrow> string option \<Rightarrow> 's \<Rightarrow>
   obj list result \<times> 's" where
  "pg_getMaxWhereEqualAndLower c table target flds f1 f2 order =
     pg_raw_getMinMax c SqlMAX [table] target flds (Some ''='') f1 (Some ''<'') (Some '' AND '') f2
       None order"

definition pg_getMinWhereEqualAndHigher ::
  "'s conn \<Rightarrow> string \<Rightarrow> string \<Rightarrow> string list \<Rightarrow> obj option \<Rightarrow> obj option \<Rightarrow> string option \<Rightarrow> 's \<Rightarrow>
   obj list result \<times> 's" where
  "pg_getMinWhereEqualAndHigher c table target flds f1 f2 order =
     pg_raw_getMinMax c SqlMIN [table] target flds (Some ''='') f1 (Some ''>'') (Some '' AND '') f2
       None order"

definition pg_getMaxWhereEqualAndLowerJoin ::
  "'s conn \<Rightarrow> string list \<Rightarrow> string \<Rightarrow> string list \<Rightarrow> obj option \<Rightarrow> obj option \<Rightarrow> obj option \<Rightarrow>
   string option \<Rightarrow> 's \<Rightarrow> obj list result \<times> 's" where
  "pg_getMaxWhereEqualAndLowerJoin c tables target flds f1 f2 joinFields order =
     pg_raw_getMinMax c SqlMAX tables target flds (Some ''='') f1 (Some ''<'') (Some '' AND '') f2
       joinFields order"

definition pg_match ::
  "'s conn \<Rightarrow> string \<Rightarrow> string list \<Rightarrow> string list \<Rightarrow> jsval \<Rightarrow> string option \<Rightarrow> 's \<Rightarrow>
   obj list result \<times> 's" where
  "pg_match c table flds searchFields v order s =
     (if \<not> ready c then not_ready WAIT s
      else driver c
             (SelectLike (if flds = [] then [''*''] else flds) table (dollars 0 searchFields) '' ''
                order)
             (map (\<lambda>_. JStr (if truthy v then ''%'' @ js_str v @ ''%'' else ''%'')) searchFields) s)"

text \<open>The guard of the Postgres deletions: field and value must not be falsy, nor print as empty.\<close>

definition bad_condition :: "string \<Rightarrow> jsval \<Rightarrow> bool" where
  "bad_condition field v \<longleftrightarrow> field = [] \<or> \<not> truthy v \<or> js_str v = []"

definition pg_deleteEqual :: "'s conn \<Rightarrow> string \<Rightarrow> string \<Rightarrow> jsval \<Rightarrow> 's \<Rightarrow> unit result \<times> 's" where
  "pg_deleteEqual c table field v s =
     (if \<not> ready c then not_ready ''DB not ready'' s
      else if bad_condition field v then
        (Inl (Err (''Bad deleteEqual call, field: '' @ field @ '', value: '' @ js_str v)), s)
      else void_result (driver c (Delete table [(field, ''='', Dollar 1)]) [v] s))"

definition pg_deleteEqualAnd ::
  "'s conn \<Rightarrow> string \<Rightarrow> string \<times> jsval \<Rightarrow> string \<times> jsval \<Rightarrow> 's \<Rightarrow> unit result \<times> 's" where
  "pg_deleteEqualAnd c table condition1 condition2 s =
     (if \<not> ready c then not_ready ''DB not ready'' s
      else if bad_condition (fst condition1) (snd condition1) \<or>
              bad_condition (fst condition2) (snd condition2) then
        (Inl (Err (''Bad deleteAnd call, conditions: '' @ fst condition1 @ ''='' @
               js_str (snd condition1) @ '', '' @ fst condition2 @ ''='' @ js_str (snd condition2))), s)
      else void_result
             (driver c
                (Delete table [(fst condition1, ''='', Dollar 1), (fst condition2, ''='', Dollar 2)])
                [snd condition1, snd condition2] s))"

definition pg_deleteLowerThan :: "'s conn \<Rightarrow> string \<Rightarrow> string \<Rightarrow> jsval \<Rightarrow> 's \<Rightarrow> unit result \<times> 's" where
  "pg_deleteLowerThan c table field v s =
     (if \<not> ready c then not_ready ''Database not ready'' s
      else if bad_condition field v then
        (Inl (Err (''Bad deleteLowerThan call, field: '' @ field @ '', value: '' @ js_str v)), s)
      else void_result (driver c (Delete table [(field, ''<'', Dollar 1)]) [v] s))"

definition pg_deleteWhere :: "'s conn \<Rightarrow> string \<Rightarrow> sql_condition list \<Rightarrow> 's \<Rightarrow> unit result \<times> 's" where
  "pg_deleteWhere c table conditions s =
     (if \<not> ready c then not_ready ''Database not ready'' s
      else void_result
             (driver c (Delete table (where_conds Dollar conditions)) (map (snd \<circ> snd) conditions) s))"

section \<open>The interface of a backend, and what the base class adds\<close>

text \<open>
  \<open>IdDbBackend\<close>: the operations the rest of the server calls.  \<open>getCount\<close> and \<open>getAll\<close> are
  methods of the common base class, written over \<open>get\<close>.
\<close>

record 's backend =
  db_exists :: "string \<Rightarrow> 's \<Rightarrow> bool result \<times> 's"
  db_rawQuery :: "stmt \<Rightarrow> 's \<Rightarrow> unit result \<times> 's"
  db_insert :: "string \<Rightarrow> obj \<Rightarrow> 's \<Rightarrow> obj list result \<times> 's"
  db_update :: "string \<Rightarrow> obj \<Rightarrow> string \<Rightarrow> jsval \<Rightarrow> 's \<Rightarrow> obj list result \<times> 's"
  db_updateAnd :: "string \<Rightarrow> obj \<Rightarrow> string \<times> jsval \<Rightarrow> string \<times> jsval \<Rightarrow> 's \<Rightarrow> obj list result \<times> 's"
  db_get :: "string \<Rightarrow> string list \<Rightarrow> obj option \<Rightarrow> string option \<Rightarrow> 's \<Rightarrow> obj list result \<times> 's"
  db_getHigherThan :: "string \<Rightarrow> string list \<Rightarrow> obj option \<Rightarrow> string option \<Rightarrow> 's \<Rightarrow> obj list result \<times> 's"
  db_deleteEqual :: "string \<Rightarrow> string \<Rightarrow> jsval \<Rightarrow> 's \<Rightarrow> unit result \<times> 's"
  db_deleteEqualAnd :: "string \<Rightarrow> string \<times> jsval \<Rightarrow> string \<times> jsval \<Rightarrow> 's \<Rightarrow> unit result \<times> 's"
  db_deleteLowerThan :: "string \<Rightarrow> string \<Rightarrow> jsval \<Rightarrow> 's \<Rightarrow> unit result \<times> 's"
  db_deleteWhere :: "string \<Rightarrow> sql_condition list \<Rightarrow> 's \<Rightarrow> unit result \<times> 's"

text \<open>\<open>getCount\<close>; \<open>None\<close> in the result is the NaN of \<open>parseInt\<close>.\<close>

definition getCount ::
  "(string \<Rightarrow> string list \<Rightarrow> obj option \<Rightarrow> string option \<Rightarrow> 's \<Rightarrow> obj list result \<times> 's) \<Rightarrow>
   string \<Rightarrow> string \<Rightarrow> jsval \<Rightarrow> 's \<Rightarrow> int option result \<times> 's" where
  "getCount get table field v s =
     (case get table [''count('' @ field @ '') as count'']
             (if nullish v then None else Some [(field, v)]) None s of
        (Inl e, s') \<Rightarrow> (Inl e, s')
      | (Inr [], s') \<Rightarrow> (Inl (Err ''Cannot read properties of undefined''), s')
      | (Inr (row # _), s') \<Rightarrow> (Inr (parse_int (js_str (getp row ''count''))), s'))"

definition getAll ::
  "(string \<Rightarrow> string list \<Rightarrow> obj option \<Rightarrow> string option \<Rightarrow> 's \<Rightarrow> obj list result \<times> 's) \<Rightarrow>
   string \<Rightarrow> string list \<Rightarrow> string option \<Rightarrow> 's \<Rightarrow> obj list result \<times> 's" where
  "getAll get table flds order = get table flds None order"

text \<open>\<open>exists\<close> of the SQLite class returns the count; the caller only tests whether it is truthy.\<close>

definition sqlite_exists :: "'s conn \<Rightarrow> string \<Rightarrow> 's \<Rightarrow> bool result \<times> 's" where
  "sqlite_exists c table s =
     (case getCount (sqlite_get c) ''sqlite_master'' ''name'' (JStr table) s of
        (Inl e, s') \<Rightarrow> (Inl e, s')
      | (Inr n, s') \<Rightarrow> (Inr (case n of None \<Rightarrow> False | Some k \<Rightarrow> k \<noteq> 0), s'))"

definition sqlite_backend :: "'s conn \<Rightarrow> 's backend" where
  "sqlite_backend c = \<lparr>db_exists = sqlite_exists c, db_rawQuery = sqlite_rawQuery c,
     db_insert = sqlite_insert c, db_update = sqlite_update c, db_updateAnd = sqlite_updateAnd c,
     db_get = sqlite_get c, db_getHigherThan = sqlite_getHigherThan c,
     db_deleteEqual = sqlite_deleteEqual c, db_deleteEqualAnd = sqlite_deleteEqualAnd c,
     db_deleteLowerThan = sqlite_deleteLowerThan c, db_deleteWhere = sqlite_deleteWhere c\<rparr>"

definition pg_backend :: "'s conn \<Rightarrow> 's backend" where
  "pg_backend c = \<lparr>db_exists = pg_exists c, db_rawQuery = pg_rawQuery c,
     db_insert = pg_insert c, db_update = pg_update c, db_updateAnd = pg_updateAnd c,
     db_get = pg_get c, db_getHigherThan = pg_getHigherThan c,
     db_deleteEqual = pg_deleteEqual c, db_deleteEqualAnd = pg_deleteEqualAnd c,
     db_deleteLowerThan = pg_deleteLowerThan c, db_deleteWhere = pg_deleteWhere c\<rparr>"

section \<open>Creating the tables\<close>

text \<open>\<open>Promise.all\<close>: every step runs, the first rejection is the result.\<close>

fun promise_all :: "('s \<Rightarrow> unit result \<times> 's) list \<Rightarrow> 's \<Rightarrow> unit result \<times> 's" where
  "promise_all [] s = (Inr (), s)"
| "promise_all (p # ps) s =
     (case p s of
        (Inl e, s') \<Rightarrow> (Inl e, snd (promise_all ps s'))
      | (Inr _, s') \<Rightarrow> promise_all ps s')"

definition swallow :: "unit result \<times> 's \<Rightarrow> unit result \<times> 's" where
  "swallow r = (Inr (), snd r)"

definition create_one ::
  "'s backend \<Rightarrow> (string \<times> string list) list \<Rightarrow> (string \<times> obj list) list \<Rightarrow> string \<times> string \<Rightarrow> 's \<Rightarrow>
   unit result \<times> 's" where
  "create_one db indexes initializeValues tc s =
     (case tc of (table, columns) \<Rightarrow>
      (case db_exists db table s of
         (Inl e, s1) \<Rightarrow> (Inl e, s1)
       | (Inr present, s1) \<Rightarrow>
           if present then (Inr (), s1)
           else
             (case db_rawQuery db (CreateTable table columns) s1 of
                (Inl e, s2) \<Rightarrow> (Inl e, s2)
              | (Inr _, s2) \<Rightarrow>
                  (let s3 = snd (promise_all
                       (map (\<lambda>index s. swallow (db_rawQuery db (CreateIndex table index) s))
                          (case map_of indexes table of None \<Rightarrow> [] | Some is \<Rightarrow> is)) s2)
                   in promise_all
                        (map (\<lambda>entry s. void_result (db_insert db table entry s))
                           (case map_of initializeValues table of None \<Rightarrow> [] | Some es \<Rightarrow> es)) s3))))"

definition createTables ::
  "'s backend \<Rightarrow> (string \<times> string) list \<Rightarrow> (string \<times> string list) list \<Rightarrow>
   (string \<times> obj list) list \<Rightarrow> 's \<Rightarrow> unit result \<times> 's" where
  "createTables db tables indexes initializeValues =
     promise_all (map (create_one db indexes initializeValues) tables)"

section \<open>Properties of the statements\<close>

text \<open>The positions of the placeholders of a statement, in the order of its text.\<close>

fun cond_marks :: "cond \<Rightarrow> nat list" where
  "cond_marks (Cmp _ _ p) = [ph_pos p]"
| "cond_marks (AnyOf cs) = map (\<lambda>(_, _, p). ph_pos p) cs"

definition group_marks :: "(string \<times> cond list) list \<Rightarrow> nat list" where
  "group_marks gs = concat (map cond_marks (concat (map snd gs)))"

fun marks :: "stmt \<Rightarrow> nat list" where
  "marks (Select _ _ gs _ _) = group_marks gs"
| "marks (SelectExt _ _ _ _ gs _ _) = group_marks gs"
| "marks (SelectLike _ _ likes _ _) = map (ph_pos \<circ> snd) likes"
| "marks (Insert _ ps) = map (ph_pos \<circ> snd) ps"
| "marks (Update _ _ ss cs) = map (ph_pos \<circ> snd) ss @ map (ph_pos \<circ> snd) cs"
| "marks (Delete _ cs) = map (\<lambda>(_, _, p). ph_pos p) cs"
| "marks _ = []"

text \<open>Every value has its placeholder, and they are numbered in order.\<close>

definition bound :: "stmt \<times> jsval list \<Rightarrow> bool" where
  "bound q \<longleftrightarrow> marks (fst q) = [1..<Suc (length (snd q))]"

lemma cond_for_marks:
  "cond_for oper index k v = (c, vs) \<Longrightarrow> cond_marks c = [Suc index..<Suc (index + length vs)]"
proof -
  have a: "map (\<lambda>i. index + Suc i) [0..<n] = [Suc index..<Suc (index + n)]" for n
    by (rule nth_equalityI) (auto simp: nth_append)
  show "cond_for oper index k v = (c, vs) \<Longrightarrow> cond_marks c = [Suc index..<Suc (index + length vs)]"
    using a by (auto simp: cond_for_def number_array_def comp_def split: jsval.splits)
qed

lemma upt_join: "a \<le> b \<Longrightarrow> b \<le> c \<Longrightarrow> [a..<b] @ [b..<c] = [a..<c]"
  by (metis le_iff_add upt_add_eq_append)

lemma build_conds_marks:
  "build_conds oper index fl = (cs, index', vs) \<Longrightarrow>
   index' = index + length vs \<and> concat (map cond_marks cs) = [Suc index..<Suc index']"
proof (induction oper index fl arbitrary: cs index' vs rule: build_conds.induct)
  case (2 oper index key v fl)
  obtain c ws where c: "cond_for oper index key v = (c, ws)" by fastforce
  obtain cs1 i1 vs1 where b: "build_conds oper (index + length ws) fl = (cs1, i1, vs1)"
    using prod_cases3 by blast
  have e: "cs = c # cs1" "vs = ws @ vs1" "index' = i1" using 2(2) c b by auto
  have "i1 = index + length ws + length vs1 \<and>
      concat (map cond_marks cs1) = [Suc (index + length ws)..<Suc i1]"
    using "2.IH" [OF c [symmetric] refl b] .
  then show ?case
    using e cond_for_marks [OF c] upt_join [of "Suc index" "Suc (index + length ws)" "Suc i1"]
    by (simp del: upt_Suc)
qed simp

lemma build_groups_marks:
  "build_groups index args = (gs, vs) \<Longrightarrow> group_marks gs = [Suc index..<Suc (index + length vs)]"
proof (induction index args arbitrary: gs vs rule: build_groups.induct)
  case (2 index oper lnk fl args)
  show ?case
  proof (cases "fl = []")
    case True
    then show ?thesis using 2 by (cases "build_groups index args") (auto simp: group_marks_def)
  next
    case False
    obtain cs i ws where b: "buildCondition oper index fl = (cs, i, ws)" using prod_cases3 by blast
    obtain gs1 vs1 where g: "build_groups i args = (gs1, vs1)" by fastforce
    have m: "i = index + length ws" "concat (map cond_marks cs) = [Suc index..<Suc i]"
      using build_conds_marks b by (auto simp: buildCondition_def)
    have "group_marks gs1 = [Suc i..<Suc (i + length vs1)]"
      using "2.IH"(1) [OF False refl b [symmetric] refl g] .
    then show ?thesis
      using 2(3) False b g m upt_join [of "Suc index" "Suc i" "Suc (i + length vs1)"]
      by (auto simp: group_marks_def add.assoc simp del: upt_Suc)
  qed
qed (auto simp: group_marks_def split: prod.splits)

text \<open>
  The text of a read names each of its values exactly once and in order: the placeholders of
  the statements built by \<open>_get\<close> and \<open>_getMinMax\<close> are $1, $2, \<dots>, $n for n values, however many
  conditions are given and whichever filters are dropped.
\<close>

theorem read_placeholders_numbered:
  "bound (get_stmt tables flds op1 f1 op2 linkop1 f2 op3 linkop2 f3 joinFields order) \<and>
   bound (getMinMax_stmt m tables target flds op1 f1 op2 linkop1 f2 joinFields order)"
proof -
  obtain gs vs where g: "build_groups 0 [(op1, Some [], f1), (op2, linkop1, f2), (op3, linkop2, f3)] = (gs, vs)"
    by fastforce
  obtain gs' vs' where g': "build_groups 0 [(op1, Some [], f1), (op2, linkop1, f2)] = (gs', vs')"
    by fastforce
  show ?thesis
    using build_groups_marks [OF g] build_groups_marks [OF g']
    by (simp add: get_stmt_def getMinMax_stmt_def g g' bound_def del: build_groups.simps upt_Suc)
qed

text \<open>The writes, with what the driver is handed recorded instead of executed.\<close>

definition recorder :: "(stmt \<times> jsval list) list conn" where
  "recorder = \<lparr>ready = True, driver = (\<lambda>st vs log. (Inr [], log @ [(st, vs)]))\<rparr>"

lemma marks_positions [simp]:
  "map (ph_pos \<circ> snd) (qmarks n names) = [Suc n..<Suc (n + length names)]"
  "map (ph_pos \<circ> snd) (dollars n names) = [Suc n..<Suc (n + length names)]"
proof -
  show "map (ph_pos \<circ> snd) (qmarks n names) = [Suc n..<Suc (n + length names)]"
    by (rule nth_equalityI) (auto simp: qmarks_def simp del: upt_Suc)
  show "map (ph_pos \<circ> snd) (dollars n names) = [Suc n..<Suc (n + length names)]"
    by (rule nth_equalityI) (auto simp: dollars_def simp del: upt_Suc)
qed

lemma where_conds_positions:
  "(\<And>n. ph_pos (mk n) = n) \<Longrightarrow>
   map (\<lambda>(_, _, p). ph_pos p) (where_conds mk cs) = [Suc 0..<Suc (length cs)]"
  by (rule nth_equalityI) (auto simp: where_conds_def simp del: upt_Suc split: prod.splits)

text \<open>
  The writes of both classes bind their values in order as well: an insertion, an update by
  one or two conditions and a deletion by a list of conditions hand the driver a statement whose
  placeholders are numbered 1 to n, together with n values.
\<close>

theorem write_placeholders_numbered:
  "list_all bound
     (snd (sqlite_insert recorder t vals []) @ snd (pg_insert recorder t vals []) @
      snd (sqlite_update recorder t vals f v []) @ snd (pg_update recorder t vals f v []) @
      snd (sqlite_updateAnd recorder t vals c1 c2 []) @ snd (pg_updateAnd recorder t vals c1 c2 []) @
      snd (sqlite_deleteWhere recorder t cs []) @ snd (pg_deleteWhere recorder t cs []))"
proof -
  have u: "[Suc 0..<Suc n] @ [Suc n..<Suc (n + k)] = [Suc 0..<Suc (n + k)]" for n k
    by (rule upt_join) auto
  note s = recorder_def bound_def void_result_def
  have a: "list_all bound (snd (sqlite_insert recorder t vals []))" "list_all bound (snd (pg_insert recorder t vals []))"
    by (simp_all add: s sqlite_insert_def pg_insert_def del: upt_Suc)
  have b: "list_all bound (snd (sqlite_update recorder t vals f v []))"
    "list_all bound (snd (pg_update recorder t vals f v []))"
    using u [of "length vals" 1] by (simp_all add: s sqlite_update_def pg_update_def del: upt_Suc)
  have c: "list_all bound (snd (sqlite_updateAnd recorder t vals c1 c2 []))"
    "list_all bound (snd (pg_updateAnd recorder t vals c1 c2 []))"
    using u [of "length vals" 2] by (simp_all add: s sqlite_updateAnd_def pg_updateAnd_def del: upt_Suc)
  have d: "list_all bound (snd (sqlite_deleteWhere recorder t cs []))"
    "list_all bound (snd (pg_deleteWhere recorder t cs []))"
    using where_conds_positions [of Qmark cs] where_conds_positions [of Dollar cs]
    by (simp_all add: s sqlite_deleteWhere_def pg_deleteWhere_def del: upt_Suc)
  show ?thesis using a b c d by simp
qed

text \<open>What a statement may depend on: the keys, which entries are dropped, the lengths of arrays.\<close>

definition skeleton :: "obj \<Rightarrow> (string \<times> nat option option) list" where
  "skeleton fl = map (\<lambda>(k, v). (k, if nullish v \<or> js_str v = [] then None
     else Some (case v of JArr vs \<Rightarrow> Some (length vs) | _ \<Rightarrow> None))) fl"

lemma kept_Cons: "kept ((k, v) # fl) = (if nullish v \<or> js_str v = [] then kept fl else (k, v) # kept fl)"
  by (simp add: kept_def)

lemma kept_Nil [simp]: "kept [] = []"
  by (simp add: kept_def)

lemma cond_for_skeleton:
  "(case v of JArr vs \<Rightarrow> Some (length vs) | _ \<Rightarrow> None) = (case w of JArr vs \<Rightarrow> Some (length vs) | _ \<Rightarrow> None) \<Longrightarrow>
   fst (cond_for oper i k v) = fst (cond_for oper i k w) \<and>
   length (snd (cond_for oper i k v)) = length (snd (cond_for oper i k w))"
  by (auto simp: cond_for_def number_array_def split: jsval.splits)

lemma build_conds_skeleton:
  "skeleton fl = skeleton fl' \<Longrightarrow>
   fst (build_conds oper i (kept fl)) = fst (build_conds oper i (kept fl')) \<and>
   fst (snd (build_conds oper i (kept fl))) = fst (snd (build_conds oper i (kept fl')))"
proof (induction fl arbitrary: fl' i)
  case Nil
  then show ?case by (simp add: skeleton_def)
next
  case (Cons a fl)
  obtain k v where a: "a = (k, v)" by fastforce
  obtain w gl where f: "fl' = (k, w) # gl" "skeleton fl = skeleton gl"
    "(nullish v \<or> js_str v = []) = (nullish w \<or> js_str w = [])"
    "\<not> (nullish v \<or> js_str v = []) \<Longrightarrow>
      (case v of JArr vs \<Rightarrow> Some (length vs) | _ \<Rightarrow> None) = (case w of JArr vs \<Rightarrow> Some (length vs) | _ \<Rightarrow> None)"
    using Cons.prems a by (cases fl') (auto simp: skeleton_def split: if_splits)
  show ?case
  proof (cases "nullish v \<or> js_str v = []")
    case True
    then show ?thesis using Cons.IH [OF f(2)] f(1,3) a by (simp add: kept_Cons)
  next
    case False
    have c: "fst (cond_for oper i k v) = fst (cond_for oper i k w)"
      "length (snd (cond_for oper i k v)) = length (snd (cond_for oper i k w))"
      using cond_for_skeleton [OF f(4) [OF False]] by blast+
    show ?thesis using Cons.IH [OF f(2), of "i + length (snd (cond_for oper i k v))"] c f(1,3) a False
      by (auto simp: kept_Cons split: prod.splits)
  qed
qed

definition same_arg :: "filter_arg \<Rightarrow> filter_arg \<Rightarrow> bool" where
  "same_arg a b \<longleftrightarrow> fst a = fst b \<and> fst (snd a) = fst (snd b) \<and>
     map_option skeleton (snd (snd a)) = map_option skeleton (snd (snd b))"

lemma build_groups_skeleton:
  "list_all2 same_arg args args' \<Longrightarrow> fst (build_groups i args) = fst (build_groups i args')"
proof (induction i args arbitrary: args' rule: build_groups.induct)
  case (2 index oper lnk fl args)
  obtain b rest where b: "args' = b # rest" "same_arg (Some oper, Some lnk, Some fl) b"
    "list_all2 same_arg args rest"
    using 2(3) by (auto simp: list_all2_Cons1)
  obtain fl' where a: "b = (Some oper, Some lnk, Some fl')" "skeleton fl = skeleton fl'"
    using b(2) by (cases b; cases "snd (snd b)") (auto simp: same_arg_def)
  have e: "fl = [] \<longleftrightarrow> fl' = []" using a(2) by (auto simp: skeleton_def)
  show ?case
  proof (cases "fl = []")
    case True
    then have "fst (build_groups index args) = fst (build_groups index rest)"
      using "2.IH"(2) [OF _ b(3)] by simp
    then show ?thesis using True a(1) b(1) e by (simp add: case_prod_unfold Let_def)
  next
    case False
    obtain cs j ws where c: "buildCondition oper index fl = (cs, j, ws)" using prod_cases3 by blast
    obtain ws' where c': "buildCondition oper index fl' = (cs, j, ws')"
      using build_conds_skeleton [OF a(2), of oper index] c
      by (cases "buildCondition oper index fl'") (auto simp: buildCondition_def)
    have "fst (build_groups j args) = fst (build_groups j rest)"
      using "2.IH"(1) [OF False refl c [symmetric] refl b(3)] .
    then show ?thesis using False e a(1) b(1) c c' by (simp add: case_prod_unfold Let_def)
  qed
qed (auto simp: list_all2_Cons1 same_arg_def case_prod_unfold Let_def)

text \<open>
  The statement of a read does not depend on the values it filters by (no value reaches the
  SQL text): two calls whose filters have the same keys, drop the same entries and have arrays of
  the same lengths send the same text.
\<close>

theorem read_text_value_independent:
  assumes "map_option skeleton f1 = map_option skeleton g1" "map_option skeleton f2 = map_option skeleton g2"
    "map_option skeleton f3 = map_option skeleton g3"
  shows "sql_text (fst (get_stmt tables flds op1 f1 op2 linkop1 f2 op3 linkop2 f3 joinFields order)) =
         sql_text (fst (get_stmt tables flds op1 g1 op2 linkop1 g2 op3 linkop2 g3 joinFields order))"
proof -
  have "fst (build_groups 0 [(op1, Some [], f1), (op2, linkop1, f2), (op3, linkop2, f3)]) =
        fst (build_groups 0 [(op1, Some [], g1), (op2, linkop1, g2), (op3, linkop2, g3)])"
    by (rule build_groups_skeleton) (simp add: assms same_arg_def)
  then show ?thesis by (simp add: get_stmt_def case_prod_unfold Let_def del: build_groups.simps)
qed

theorem read_text_value_independent_witness:
  "sql_text (fst (get_stmt [''hashes''] [''value''] (Some ''='') (Some [(''hash'', JStr ''a'')]) None None None
      None None None None None)) =
   sql_text (fst (get_stmt [''hashes''] [''value''] (Some ''='') (Some [(''hash'', JStr ''x; DROP TABLE hashes'')])
      None None None None None None None None)) \<and>
   sql_text (fst (get_stmt [''hashes''] [''value''] (Some ''='') (Some [(''hash'', JStr ''a'')]) None None None
      None None None None None)) = ''SELECT value FROM hashes WHERE hash=$1''"
proof
  show "sql_text (fst (get_stmt [''hashes''] [''value''] (Some ''='') (Some [(''hash'', JStr ''a'')]) None None
      None None None None None None)) =
    sql_text (fst (get_stmt [''hashes''] [''value''] (Some ''='') (Some [(''hash'', JStr ''x; DROP TABLE hashes'')])
      None None None None None None None None))"
    by (rule read_text_value_independent) (simp_all add: skeleton_def)
  show "sql_text (fst (get_stmt [''hashes''] [''value''] (Some ''='') (Some [(''hash'', JStr ''a'')]) None None None
      None None None None None)) = ''SELECT value FROM hashes WHERE hash=$1''"
    by code_simp
qed

end
