(* ===== verification/SqlStore.thy ===== *)
theory SqlStore
  imports Sql
begin

text \<open>
  What the statements of the SQL layer mean on tables, and the interface the services rely on.
  \<open>exec_stmt\<close> gives the documented behaviour of the statements the services send on an in-memory store with
  primary keys and a schedule of driver failures; \<open>table_db\<close> states what a client of a
  backend may assume, with tables as multisets of rows (SQL promises no order); the
  interpretation discharges it for the code's SQLite and Postgres methods over that store.
\<close>

section \<open>Tables and comparisons\<close>

record table =
  t_cols :: "string list"
  t_pkey :: "string list"
  t_rows :: "obj list"

record store =
  tabs :: "(string \<times> table) list"
  faults :: "jserror option list"

datatype dialect = SQLITE | PG

text \<open>The column list of a \<open>CREATE TABLE\<close>.\<close>

definition words :: "string \<Rightarrow> string list" where
  "words s = filter (\<lambda>w. w \<noteq> []) (split_on CHR '' '' s)"

fun split_defs :: "nat \<Rightarrow> string \<Rightarrow> string \<Rightarrow> string list" where
  "split_defs n acc [] = [rev acc]"
| "split_defs n acc (c # cs) =
     (if c = CHR '','' \<and> n = 0 then rev acc # split_defs 0 [] cs
      else split_defs (if c = CHR ''('' then n + 1 else if c = CHR '')'' then n - 1 else n) (c # acc) cs)"

definition column_defs :: "string \<Rightarrow> string list list" where
  "column_defs ddl = filter (\<lambda>ws. ws \<noteq> []) (map words (split_defs 0 [] ddl))"

definition col_names :: "string \<Rightarrow> string list" where
  "col_names ddl = map hd (filter (\<lambda>ws. hd ws \<noteq> ''PRIMARY'') (column_defs ddl))"

text \<open>
  The columns of the primary key: the names in the table constraint \<open>PRIMARY KEY (a, b, c)\<close>, or
  the column whose definition has the words; no column when there is no key.
\<close>

definition pk_of :: "string \<Rightarrow> string list" where
  "pk_of ddl =
     (case find (\<lambda>ws. hd ws = ''PRIMARY'') (column_defs ddl) of
        Some ws \<Rightarrow>
          drop 2 (words (map (\<lambda>c. if c \<in> {CHR ''('', CHR '')'', CHR '',''} then CHR '' '' else c)
                           (join '' '' ws)))
      | None \<Rightarrow>
          (case find (\<lambda>ws. ''PRIMARY'' \<in> set ws) (column_defs ddl) of
             Some ws \<Rightarrow> [hd ws] | None \<Rightarrow> []))"

text \<open>Comparison of a stored value with a bound value; NULL compares with nothing.\<close>

definition sql_eq :: "jsval \<Rightarrow> jsval \<Rightarrow> bool" where
  "sql_eq x p \<longleftrightarrow> \<not> nullish x \<and> \<not> nullish p \<and> js_str x = js_str p"

fun as_number :: "jsval \<Rightarrow> int option" where
  "as_number (JNum n) = Some n"
| "as_number (JStr s) = (case parse_int s of None \<Rightarrow> None | Some n \<Rightarrow> if int_str n = s then Some n else None)"
| "as_number _ = None"

definition sql_less :: "jsval \<Rightarrow> jsval \<Rightarrow> bool" where
  "sql_less x p \<longleftrightarrow> \<not> nullish x \<and> \<not> nullish p \<and>
     (case (x, as_number p) of
        (JNum n, Some m) \<Rightarrow> n < m
      | _ \<Rightarrow> js_str x < js_str p)"

definition sql_greater :: "jsval \<Rightarrow> jsval \<Rightarrow> bool" where
  "sql_greater x p \<longleftrightarrow> \<not> nullish x \<and> \<not> nullish p \<and>
     (case (x, as_number p) of
        (JNum n, Some m) \<Rightarrow> m < n
      | _ \<Rightarrow> js_str p < js_str x)"

definition sql_cmp :: "string \<Rightarrow> jsval \<Rightarrow> jsval \<Rightarrow> bool" where
  "sql_cmp oper x p =
     (if oper = ''='' then sql_eq x p
      else if oper = ''<'' then sql_less x p
      else if oper = ''<='' then sql_less x p \<or> sql_eq x p
      else if oper = ''>'' then sql_greater x p
      else if oper = ''>='' then sql_greater x p \<or> sql_eq x p
      else \<not> nullish x \<and> \<not> nullish p \<and> js_str x \<noteq> js_str p)"

text \<open>The drivers bind \<open>undefined\<close> as NULL.\<close>

definition stored :: "jsval \<Rightarrow> jsval" where
  "stored v = (if nullish v then Null else v)"

definition param :: "jsval list \<Rightarrow> ph \<Rightarrow> jsval" where
  "param vs p = (if 0 < ph_pos p \<and> ph_pos p \<le> length vs then stored (vs ! (ph_pos p - 1)) else Null)"

definition cmp_holds :: "jsval list \<Rightarrow> obj \<Rightarrow> string \<times> string \<times> ph \<Rightarrow> bool" where
  "cmp_holds vs row c = (case c of (k, oper, p) \<Rightarrow> sql_cmp oper (getp row k) (param vs p))"

fun cond_holds :: "jsval list \<Rightarrow> obj \<Rightarrow> cond \<Rightarrow> bool" where
  "cond_holds vs row (Cmp k oper p) = cmp_holds vs row (k, oper, p)"
| "cond_holds vs row (AnyOf cs) = list_ex (cmp_holds vs row) cs"

text \<open>
  \<open>WHERE c1 AND .. OR d1 AND ..\<close>: conjunction binds tighter than disjunction, so the groups
  linked by \<open>OR\<close> split the condition.
\<close>

fun groups_hold :: "jsval list \<Rightarrow> obj \<Rightarrow> bool \<Rightarrow> (string \<times> cond list) list \<Rightarrow> bool" where
  "groups_hold vs row acc [] = acc"
| "groups_hold vs row acc ((lnk, cs) # gs) =
     (if contains lnk ''OR'' then acc \<or> groups_hold vs row (list_all (cond_holds vs row) cs) gs
      else groups_hold vs row (acc \<and> list_all (cond_holds vs row) cs) gs)"

definition where_holds :: "jsval list \<Rightarrow> obj \<Rightarrow> (string \<times> cond list) list \<Rightarrow> bool" where
  "where_holds vs row gs =
     (case filter (\<lambda>(_, cs). cs \<noteq> []) gs of
        [] \<Rightarrow> True
      | (_, cs) # rest \<Rightarrow> groups_hold vs row (list_all (cond_holds vs row) cs) rest)"

fun cond_cols :: "cond \<Rightarrow> string list" where
  "cond_cols (Cmp k _ _) = [k]"
| "cond_cols (AnyOf cs) = map fst cs"

section \<open>Executing a statement\<close>

definition project :: "string list \<Rightarrow> obj \<Rightarrow> obj" where
  "project flds row = (if flds = [''*''] \<or> flds = [] then row else map (\<lambda>f. (f, getp row f)) flds)"

definition row_cmp :: "string \<Rightarrow> obj \<Rightarrow> obj \<Rightarrow> int" where
  "row_cmp f r1 r2 =
     (let x = getp r1 f; y = getp r2 f
      in if sql_less x y then -1 else if sql_less y x then 1 else 0)"

definition order_rows :: "string option \<Rightarrow> obj list \<Rightarrow> obj list" where
  "order_rows ord rows =
     (case ord of
        None \<Rightarrow> rows
      | Some ddl \<Rightarrow>
          (case words ddl of
             [] \<Rightarrow> rows
           | [f] \<Rightarrow> js_sort (row_cmp f) rows
           | f # d # _ \<Rightarrow>
               if d = ''DESC'' then js_sort (\<lambda>a b. row_cmp f b a) rows
               else js_sort (row_cmp f) rows))"

definition SQL_ERROR :: "string \<Rightarrow> jserror" where
  "SQL_ERROR m = \<lparr>err_msg = m, err_code = ''SQLITE_ERROR''\<rparr>"

fun dup_error :: "dialect \<Rightarrow> string \<Rightarrow> string list \<Rightarrow> jserror" where
  "dup_error SQLITE t ks =
     \<lparr>err_msg = ''SQLITE_CONSTRAINT: UNIQUE constraint failed: '' @ join '', '' (map (\<lambda>k. t @ ''.'' @ k) ks),
      err_code = ''SQLITE_CONSTRAINT''\<rparr>"
| "dup_error PG t ks =
     \<lparr>err_msg = ''duplicate key value violates unique constraint '' @ t @ ''_pkey'',
      err_code = ''23505''\<rparr>"

text \<open>
  The rows a primary key admits: no two rows agree on all columns of the key, of which none is NULL.
\<close>

definition keys_of :: "string list \<Rightarrow> obj list \<Rightarrow> string list list" where
  "keys_of ks rows =
     (if ks = [] then []
      else concat (map (\<lambda>r. if list_ex (\<lambda>k. nullish (getp r k)) ks then []
                             else [map (\<lambda>k. js_str (getp r k)) ks]) rows))"

definition same_key :: "string list \<Rightarrow> (string \<Rightarrow> jsval) \<Rightarrow> obj \<Rightarrow> bool" where
  "same_key ks w r = list_all (\<lambda>k. sql_eq (getp r k) (w k)) ks"

lemma same_key_one [simp]: "same_key [k] w = (\<lambda>r. sql_eq (getp r k) (w k))"
  by (simp add: same_key_def fun_eq_iff)

definition complete :: "string list \<Rightarrow> obj \<Rightarrow> obj" where
  "complete cs vs = map (\<lambda>c. (c, case map_of vs c of None \<Rightarrow> Null | Some v \<Rightarrow> v)) cs"

definition assign :: "obj \<Rightarrow> obj \<Rightarrow> obj" where
  "assign vs row = map (\<lambda>(c, old). (c, case map_of vs c of None \<Rightarrow> old | Some v \<Rightarrow> v)) row"

definition with_rows :: "store \<Rightarrow> string \<Rightarrow> obj list \<Rightarrow> store" where
  "with_rows s t rows =
     (case map_of (tabs s) t of
        None \<Rightarrow> s
      | Some tb \<Rightarrow> s\<lparr>tabs := put t (tb\<lparr>t_rows := rows\<rparr>) (tabs s)\<rparr>)"

text \<open>The catalogue of SQLite is a table of its own.\<close>

definition find_table :: "store \<Rightarrow> string \<Rightarrow> table option" where
  "find_table s t =
     (if t = ''sqlite_master''
      then Some \<lparr>t_cols = [''name''], t_pkey = [],
                 t_rows = map (\<lambda>(n, _). [(''name'', JStr n)]) (tabs s)\<rparr>
      else map_of (tabs s) t)"

definition no_table :: "string \<Rightarrow> store \<Rightarrow> 'a result \<times> store" where
  "no_table t s = (Inl (SQL_ERROR (''no such table: '' @ t)), s)"

definition is_count :: "string list \<Rightarrow> bool" where
  "is_count flds = (case flds of [f] \<Rightarrow> starts_with f ''count('' | _ \<Rightarrow> False)"

definition bad_col :: "string list \<Rightarrow> string list \<Rightarrow> bool" where
  "bad_col cols used \<longleftrightarrow> \<not> set used \<subseteq> set cols"

definition run_stmt :: "dialect \<Rightarrow> stmt \<Rightarrow> jsval list \<Rightarrow> store \<Rightarrow> obj list result \<times> store" where
  "run_stmt dia st vs s =
     (case st of
        Select flds [t] gs None ord \<Rightarrow>
          (case find_table s t of
             None \<Rightarrow> no_table t s
           | Some tb \<Rightarrow>
               if bad_col (t_cols tb) (concat (map cond_cols (concat (map snd gs)))) then
                 (Inl (SQL_ERROR ''no such column''), s)
               else
                 (let rows = filter (\<lambda>r. where_holds vs r gs) (t_rows tb)
                  in if is_count flds then (Inr [[(''count'', JNum (int (length rows)))]], s)
                     else if flds \<noteq> [''*''] \<and> bad_col (t_cols tb) flds then
                       (Inl (SQL_ERROR ''no such column''), s)
                     else (Inr (map (project flds) (order_rows ord rows)), s)))
      | Insert t ps \<Rightarrow>
          (case map_of (tabs s) t of
             None \<Rightarrow> no_table t s
           | Some tb \<Rightarrow>
               if ps = [] \<or> bad_col (t_cols tb) (map fst ps) then
                 (Inl (SQL_ERROR ''no such column''), s)
               else
                 (let row = complete (t_cols tb) (map (\<lambda>(c, p). (c, param vs p)) ps);
                      rows = t_rows tb @ [row]
                  in if distinct (keys_of (t_pkey tb) rows) then (Inr [row], with_rows s t rows)
                     else (Inl (dup_error dia t (t_pkey tb)), s)))
      | Update t sp ss cs \<Rightarrow>
          (case map_of (tabs s) t of
             None \<Rightarrow> no_table t s
           | Some tb \<Rightarrow>
               if ss = [] \<or> bad_col (t_cols tb) (map fst ss @ map fst cs) then
                 (Inl (SQL_ERROR ''no such column''), s)
               else
                 (let sel = (\<lambda>r. list_all (\<lambda>(f, p). sql_eq (getp r f) (param vs p)) cs);
                      upd = assign (map (\<lambda>(c, p). (c, param vs p)) ss);
                      rows = map (\<lambda>r. if sel r then upd r else r) (t_rows tb)
                  in if distinct (keys_of (t_pkey tb) rows)
                     then (Inr (map upd (filter sel (t_rows tb))), with_rows s t rows)
                     else (Inl (dup_error dia t (t_pkey tb)), s)))
      | Delete t cs \<Rightarrow>
          (case map_of (tabs s) t of
             None \<Rightarrow> no_table t s
           | Some tb \<Rightarrow>
               if cs = [] \<or> bad_col (t_cols tb) (map fst cs) then
                 (Inl (SQL_ERROR ''no such column''), s)
               else (Inr [], with_rows s t (filter (\<lambda>r. \<not> list_all (cmp_holds vs r) cs) (t_rows tb))))
      | CreateTable t ddl \<Rightarrow>
          if map_of (tabs s) t \<noteq> None then (Inl (SQL_ERROR (''table '' @ t @ '' already exists'')), s)
          else (Inr [], s\<lparr>tabs := tabs s @ [(t, \<lparr>t_cols = col_names ddl, t_pkey = pk_of ddl, t_rows = []\<rparr>)]\<rparr>)
      | CreateIndex t i \<Rightarrow> if map_of (tabs s) t = None then no_table t s else (Inr [], s)
      | PgTableExists t \<Rightarrow>
          (Inr [[(''exists'', JBool (to_lower t \<in> set (map (to_lower \<circ> fst) (tabs s))))]], s)
      | _ \<Rightarrow> (Inl (SQL_ERROR ''not supported by this store''), s))"

definition exec_stmt :: "dialect \<Rightarrow> store driver" where
  "exec_stmt dia st vs s =
     (case faults s of
        [] \<Rightarrow> run_stmt dia st vs s
      | None # fs \<Rightarrow> run_stmt dia st vs (s\<lparr>faults := fs\<rparr>)
      | Some e # fs \<Rightarrow> (Inl e, s\<lparr>faults := fs\<rparr>))"

definition mem_conn :: "dialect \<Rightarrow> store conn" where
  "mem_conn dia = \<lparr>ready = True, driver = exec_stmt dia\<rparr>"

fun mem_db :: "dialect \<Rightarrow> store backend" where
  "mem_db SQLITE = sqlite_backend (mem_conn SQLITE)"
| "mem_db PG = pg_backend (mem_conn PG)"

section \<open>The interface of a backend\<close>

text \<open>Which rows a filter selects: every kept entry must match, an array matches by any element.\<close>

definition match_val :: "jsval \<Rightarrow> jsval \<Rightarrow> bool" where
  "match_val x v =
     (case v of JArr vs \<Rightarrow> list_ex (\<lambda>w. sql_eq x (JStr (js_str w))) vs | _ \<Rightarrow> sql_eq x (JStr (js_str v)))"

definition both :: "string \<times> jsval \<Rightarrow> string \<times> jsval \<Rightarrow> obj \<Rightarrow> bool" where
  "both c1 c2 r \<longleftrightarrow> sql_eq (getp r (fst c1)) (snd c1) \<and> sql_eq (getp r (fst c2)) (snd c2)"

text \<open>The same for any comparison.\<close>

definition op_val :: "string \<Rightarrow> jsval \<Rightarrow> jsval \<Rightarrow> bool" where
  "op_val oper x v =
     (case v of JArr vs \<Rightarrow> list_ex (\<lambda>w. sql_cmp oper x (JStr (js_str w))) vs
      | _ \<Rightarrow> sql_cmp oper x (JStr (js_str v)))"

definition matches :: "obj \<Rightarrow> obj \<Rightarrow> bool" where
  "matches fl row = list_all (\<lambda>(k, v). match_val (getp row k) v) (kept fl)"

lemma matches_Nil: "matches [] = (\<lambda>_. True)"
  by (rule ext) (simp add: matches_def kept_def)

definition stored_obj :: "obj \<Rightarrow> obj" where
  "stored_obj vs = map (\<lambda>(k, v). (k, stored v)) vs"

lemma getp_assign_other: "k \<notin> set (map fst vs) \<Longrightarrow> getp (assign vs r) k = getp r k"
proof -
  assume "k \<notin> set (map fst vs)"
  then have "map_of vs k = None" by (simp add: map_of_eq_None_iff)
  then have "map_of (assign vs r) k = map_of r k" by (induction r) (auto simp: assign_def)
  then show ?thesis by (simp add: getp_def)
qed

lemma getp_assign_same: "map_of vs k = Some v \<Longrightarrow> k \<in> set (map fst r) \<Longrightarrow> getp (assign vs r) k = v"
  by (induction r) (auto simp: assign_def getp_def)

text \<open>
  \<open>wf\<close> is the state invariant, \<open>tab\<close> the rows of a table, \<open>healthy\<close> says that the driver
  reports no failure of its own from here on.  Every operation that reports an error leaves the
  tables alone; on a healthy database only a duplicate key makes an insertion fail.
\<close>

locale table_db =
  fixes d :: "'s backend" and wf :: "'s \<Rightarrow> bool" and healthy :: "'s \<Rightarrow> bool"
    and tab :: "'s \<Rightarrow> string \<Rightarrow> obj multiset"
    and schema :: "string \<Rightarrow> string list" and key :: "string \<Rightarrow> string list"
  assumes row_cols: "wf s \<Longrightarrow> r \<in># tab s t \<Longrightarrow> map fst r = schema t"
    and cols_distinct: "wf s \<Longrightarrow> distinct (schema t)"
    and keys_unique: "wf s \<Longrightarrow> key t \<noteq> [] \<Longrightarrow> size {# r \<in># tab s t. same_key (key t) w r #} \<le> 1"
    and get_law: "wf s \<Longrightarrow> schema t \<noteq> [] \<Longrightarrow> fs = [''*''] \<or> set fs \<subseteq> set (schema t) \<Longrightarrow>
          set (map fst (kept f)) \<subseteq> set (schema t) \<Longrightarrow> db_get d t fs (Some f) ord s = (res, s') \<Longrightarrow>
          wf s' \<and> (healthy s \<longrightarrow> healthy s') \<and> tab s' = tab s \<and>
          (case res of
             Inl e \<Rightarrow> \<not> healthy s
           | Inr rs \<Rightarrow> mset rs = {# project fs r. r \<in># {# r \<in># tab s t. matches f r #} #})"
    and get_higher_law: "wf s \<Longrightarrow> k \<in> set (schema t) \<Longrightarrow> fs = [''*''] \<or> set fs \<subseteq> set (schema t) \<Longrightarrow>
          db_getHigherThan d t fs (Some [(k, v)]) ord s = (res, s') \<Longrightarrow>
          wf s' \<and> (healthy s \<longrightarrow> healthy s') \<and> tab s' = tab s \<and>
          (case res of
             Inl e \<Rightarrow> \<not> healthy s
           | Inr rs \<Rightarrow> mset rs = {# project fs r. r \<in># {# r \<in># tab s t. kept [(k, v)] = [] \<or> op_val ''>'' (getp r k) v #} #})"
    and get_unfiltered: "db_get d t fs None ord s = db_get d t fs (Some []) ord s"
    and insert_law: "wf s \<Longrightarrow> schema t \<noteq> [] \<Longrightarrow> vs \<noteq> [] \<Longrightarrow> set (map fst vs) \<subseteq> set (schema t) \<Longrightarrow>
          db_insert d t vs s = (res, s') \<Longrightarrow>
          wf s' \<and> (healthy s \<longrightarrow> healthy s') \<and>
          (case res of
             Inl e \<Rightarrow> tab s' = tab s \<and>
               (healthy s \<longrightarrow> key t \<noteq> [] \<and>
                  (\<exists>r \<in># tab s t. same_key (key t) (getp (complete (schema t) (stored_obj vs))) r))
           | Inr rs \<Rightarrow> rs = [complete (schema t) (stored_obj vs)] \<and>
               tab s' = (tab s)(t := add_mset (complete (schema t) (stored_obj vs)) (tab s t)))"
    and update_law: "wf s \<Longrightarrow> schema t \<noteq> [] \<Longrightarrow> vs \<noteq> [] \<Longrightarrow>
          set (fld # map fst vs) \<subseteq> set (schema t) \<Longrightarrow> db_update d t vs fld v s = (res, s') \<Longrightarrow>
          wf s' \<and> (healthy s \<longrightarrow> healthy s') \<and>
          (case res of
             Inl e \<Rightarrow> tab s' = tab s \<and>
               (healthy s \<longrightarrow> key t \<noteq> [] \<and> (\<exists>w. 1 < size {# r \<in>#
                  {# if sql_eq (getp r fld) v then assign (stored_obj vs) r else r. r \<in># tab s t #}.
                  same_key (key t) w r #}))
           | Inr rs \<Rightarrow>
               mset rs = {# assign (stored_obj vs) r. r \<in># {# r \<in># tab s t. sql_eq (getp r fld) v #} #} \<and>
               tab s' = (tab s)(t := {# if sql_eq (getp r fld) v then assign (stored_obj vs) r else r.
                                        r \<in># tab s t #}))"
    and delete_law: "wf s \<Longrightarrow> fld \<in> set (schema t) \<Longrightarrow> db_deleteEqual d t fld v s = (ures, s') \<Longrightarrow>
          wf s' \<and> (healthy s \<longrightarrow> healthy s') \<and>
          (case ures of
             Inl e \<Rightarrow> tab s' = tab s \<and> (healthy s \<longrightarrow> bad_condition fld v)
           | Inr _ \<Rightarrow> tab s' = (tab s)(t := {# r \<in># tab s t. \<not> sql_eq (getp r fld) v #}))"
    and delete_lower_law: "wf s \<Longrightarrow> fld \<in> set (schema t) \<Longrightarrow>
          db_deleteLowerThan d t fld v s = (ures, s') \<Longrightarrow>
          wf s' \<and> (healthy s \<longrightarrow> healthy s') \<and>
          (case ures of
             Inl e \<Rightarrow> tab s' = tab s \<and> (healthy s \<longrightarrow> bad_condition fld v)
           | Inr _ \<Rightarrow> tab s' = (tab s)(t := {# r \<in># tab s t. \<not> sql_less (getp r fld) v #}))"
    and delete_where_law: "wf s \<Longrightarrow> fld \<in> set (schema t) \<Longrightarrow>
          db_deleteWhere d t [(fld, Some ''='', v)] s = (ures, s') \<Longrightarrow>
          wf s' \<and> (healthy s \<longrightarrow> healthy s') \<and>
          (case ures of
             Inl e \<Rightarrow> tab s' = tab s \<and> \<not> healthy s
           | Inr _ \<Rightarrow> tab s' = (tab s)(t := {# r \<in># tab s t. \<not> sql_eq (getp r fld) v #}))"
    and update_and_law: "wf s \<Longrightarrow> schema t \<noteq> [] \<Longrightarrow> vs \<noteq> [] \<Longrightarrow>
          set (fst c1 # fst c2 # map fst vs) \<subseteq> set (schema t) \<Longrightarrow> db_updateAnd d t vs c1 c2 s = (res, s') \<Longrightarrow>
          wf s' \<and> (healthy s \<longrightarrow> healthy s') \<and>
          (case res of
             Inl e \<Rightarrow> tab s' = tab s \<and>
               (healthy s \<longrightarrow> key t \<noteq> [] \<and> (\<exists>w. 1 < size {# r \<in>#
                  {# if both c1 c2 r then assign (stored_obj vs) r else r. r \<in># tab s t #}. same_key (key t) w r #}))
           | Inr rs \<Rightarrow>
               mset rs = {# assign (stored_obj vs) r. r \<in># {# r \<in># tab s t. both c1 c2 r #} #} \<and>
               tab s' = (tab s)(t := {# if both c1 c2 r then assign (stored_obj vs) r else r. r \<in># tab s t #}))"
    and delete_and_law: "wf s \<Longrightarrow> {fst c1, fst c2} \<subseteq> set (schema t) \<Longrightarrow>
          db_deleteEqualAnd d t c1 c2 s = (ures, s') \<Longrightarrow>
          wf s' \<and> (healthy s \<longrightarrow> healthy s') \<and>
          (case ures of
             Inl e \<Rightarrow> tab s' = tab s \<and>
               (healthy s \<longrightarrow> bad_condition (fst c1) (snd c1) \<or> bad_condition (fst c2) (snd c2))
           | Inr _ \<Rightarrow> tab s' = (tab s)(t := {# r \<in># tab s t. \<not> both c1 c2 r #}))"
begin

lemma key_unique: "wf s \<Longrightarrow> key t = [k] \<Longrightarrow> size {# r \<in># tab s t. sql_eq (getp r k) v #} \<le> 1"
  using keys_unique [of s t "\<lambda>_. v"] by simp

lemma update_other_ok:
  assumes "wf s" "schema t \<noteq> []" "vs \<noteq> []" "set (fld # map fst vs) \<subseteq> set (schema t)"
    "set (key t) \<inter> set (map fst vs) = {}" "db_update d t vs fld v s = (Inl e, s')"
  shows "\<not> healthy s"
proof
  assume "healthy s"
  then obtain w where k: "key t \<noteq> []" and big: "1 < size {# r \<in>#
      {# if sql_eq (getp r fld) v then assign (stored_obj vs) r else r. r \<in># tab s t #}. same_key (key t) w r #}"
    using update_law [OF assms(1-4,6)] by auto
  have "map fst (stored_obj vs) = map fst vs" by (simp add: stored_obj_def comp_def case_prod_unfold)
  then have "k \<notin> set (map fst (stored_obj vs))" if "k \<in> set (key t)" for k
    using assms(5) that by (simp add: disjoint_iff)
  then have g: "same_key (key t) w (if sql_eq (getp r fld) v then assign (stored_obj vs) r else r)
      = same_key (key t) w r" for r
    by (simp add: same_key_def list_all_iff getp_assign_other)
  have "size {# r \<in># {# if sql_eq (getp r fld) v then assign (stored_obj vs) r else r. r \<in># tab s t #}.
      same_key (key t) w r #} = size {# r \<in># tab s t. same_key (key t) w r #}"
    by (simp only: filter_mset_image_mset g size_image_mset)
  with big keys_unique [OF assms(1) k, of w] show False by simp
qed

lemma matches_one: "matches [(k, JStr x)] r = (x = [] \<or> sql_eq (getp r k) (JStr x))"
  by (simp add: matches_def kept_def match_val_def)

lemma kept_one: "set (map fst (kept [(k, v)])) \<subseteq> {k}"
  by (simp add: kept_def)

lemma get_one_Inr:
  "db_get d t fs (Some [(k, v)]) ord s = (Inr rs, s') \<Longrightarrow> wf s \<Longrightarrow> k \<in> set (schema t) \<Longrightarrow>
   fs = [''*''] \<or> set fs \<subseteq> set (schema t) \<Longrightarrow>
   wf s' \<and> (healthy s \<longrightarrow> healthy s') \<and> tab s' = tab s \<and>
   mset rs = {# project fs r. r \<in># {# r \<in># tab s t. matches [(k, v)] r #} #}"
  using get_law [of s t fs "[(k, v)]" ord "Inr rs" s'] kept_one [of k v] by fastforce

lemma get_one_Inl:
  "db_get d t fs (Some [(k, v)]) ord s = (Inl e, s') \<Longrightarrow> wf s \<Longrightarrow> k \<in> set (schema t) \<Longrightarrow>
   fs = [''*''] \<or> set fs \<subseteq> set (schema t) \<Longrightarrow> wf s' \<and> tab s' = tab s \<and> \<not> healthy s"
  using get_law [of s t fs "[(k, v)]" ord "Inl e" s'] kept_one [of k v] by fastforce

lemma get_all_Inr:
  "db_get d t fs None ord s = (Inr rs, s') \<Longrightarrow> wf s \<Longrightarrow> schema t \<noteq> [] \<Longrightarrow>
   fs = [''*''] \<or> set fs \<subseteq> set (schema t) \<Longrightarrow>
   wf s' \<and> (healthy s \<longrightarrow> healthy s') \<and> tab s' = tab s \<and> mset rs = {# project fs r. r \<in># tab s t #}"
  using get_law [of s t fs "[]" ord "Inr rs" s']
  by (simp add: get_unfiltered kept_def matches_Nil)

lemma get_all_Inl:
  "db_get d t fs None ord s = (Inl e, s') \<Longrightarrow> wf s \<Longrightarrow> schema t \<noteq> [] \<Longrightarrow>
   fs = [''*''] \<or> set fs \<subseteq> set (schema t) \<Longrightarrow> wf s' \<and> tab s' = tab s \<and> \<not> healthy s"
  using get_law [of s t fs "[]" ord "Inl e" s'] by (simp add: get_unfiltered kept_def)

lemma key_unique_rows:
  "wf s \<Longrightarrow> key t = [k] \<Longrightarrow> r \<in># tab s t \<Longrightarrow> sql_eq (getp r k) v \<Longrightarrow>
   {# r \<in># tab s t. sql_eq (getp r k) v #} = {#r#}"
proof -
  assume a: "wf s" "key t = [k]" and r: "r \<in># tab s t" "sql_eq (getp r k) v"
  then have "r \<in># {# r \<in># tab s t. sql_eq (getp r k) v #}" by simp
  then obtain m where m: "{# r \<in># tab s t. sql_eq (getp r k) v #} = add_mset r m"
    by (rule mset_add)
  with key_unique [OF a, of v] show ?thesis by auto
qed

end

section \<open>The store as a backend\<close>

definition rows_of :: "store \<Rightarrow> string \<Rightarrow> obj multiset" where
  "rows_of s t = (case map_of (tabs s) t of None \<Rightarrow> {#} | Some tb \<Rightarrow> mset (t_rows tb))"

definition schema_of :: "(string \<times> string) list \<Rightarrow> string \<Rightarrow> string list" where
  "schema_of conf t = (case map_of conf t of None \<Rightarrow> [] | Some ddl \<Rightarrow> col_names ddl)"

definition key_of :: "(string \<times> string) list \<Rightarrow> string \<Rightarrow> string list" where
  "key_of conf t = (case map_of conf t of None \<Rightarrow> [] | Some ddl \<Rightarrow> pk_of ddl)"

definition plain_col :: "string \<Rightarrow> bool" where
  "plain_col c \<longleftrightarrow> c \<noteq> [] \<and> CHR ''.'' \<notin> set c \<and> CHR ''('' \<notin> set c \<and> CHR ''*'' \<notin> set c"

definition table_wf :: "string \<Rightarrow> table \<Rightarrow> bool" where
  "table_wf ddl tb \<longleftrightarrow> t_cols tb = col_names ddl \<and> t_pkey tb = pk_of ddl \<and>
     list_all (\<lambda>r. map fst r = col_names ddl) (t_rows tb) \<and> distinct (keys_of (pk_of ddl) (t_rows tb))"

definition store_wf :: "(string \<times> string) list \<Rightarrow> store \<Rightarrow> bool" where
  "store_wf conf s \<longleftrightarrow> ''sqlite_master'' \<notin> set (map fst conf) \<and>
     list_all (\<lambda>(t, ddl). list_all plain_col (col_names ddl) \<and> distinct (col_names ddl)) conf \<and>
     map fst (tabs s) = map fst conf \<and> distinct (map fst conf) \<and>
     list_all2 (\<lambda>(t, ddl) (t', tb). table_wf ddl tb) conf (tabs s)"

definition store_healthy :: "store \<Rightarrow> bool" where
  "store_healthy s \<longleftrightarrow> list_all (\<lambda>f. f = None) (faults s)"

lemma store_wf_faults [simp]: "store_wf conf (s\<lparr>faults := fs\<rparr>) = store_wf conf s"
  by (simp add: store_wf_def)

lemma rows_of_faults [simp]: "rows_of (s\<lparr>faults := fs\<rparr>) = rows_of s"
  by (auto simp: rows_of_def)

lemma with_rows_faults [simp]: "faults (with_rows s t rows) = faults s"
  by (simp add: with_rows_def split: option.splits)

lemma exec_stmt_cases:
  assumes "exec_stmt dia st vs s = (res, s')"
  obtains (failed) e fs where "faults s = Some e # fs" "res = Inl e" "s' = s\<lparr>faults := fs\<rparr>"
  | (ran) fs where "run_stmt dia st vs (s\<lparr>faults := fs\<rparr>) = (res, s')"
      "store_healthy s \<longrightarrow> store_healthy (s\<lparr>faults := fs\<rparr>)"
proof (cases "faults s")
  case Nil
  then have "s\<lparr>faults := []\<rparr> = s" by simp
  with Nil assms ran [of "[]"] show ?thesis by (simp add: exec_stmt_def)
next
  case (Cons f fs)
  then show ?thesis
    using assms failed ran [of fs]
    by (cases f) (auto simp: exec_stmt_def store_healthy_def)
qed

lemma list_all2_map_of:
  "list_all2 (\<lambda>(t, x) (t', y). P x y) xs ys \<Longrightarrow> map fst ys = map fst xs \<Longrightarrow>
   map_of xs t = Some x \<Longrightarrow> \<exists>y. map_of ys t = Some y \<and> P x y"
  by (induction xs ys rule: list_all2_induct) (auto split: if_splits)

lemma store_wf_table:
  assumes "store_wf conf s" "schema_of conf t \<noteq> []"
  obtains ddl tb where "map_of conf t = Some ddl" "map_of (tabs s) t = Some tb" "table_wf ddl tb"
    "schema_of conf t = col_names ddl" "key_of conf t = pk_of ddl"
    "list_all plain_col (col_names ddl)" "distinct (col_names ddl)" "t \<noteq> ''sqlite_master''"
proof -
  from assms(2) obtain ddl where ddl: "map_of conf t = Some ddl"
    by (auto simp: schema_of_def split: option.splits)
  then have m: "(t, ddl) \<in> set conf" by (rule map_of_SomeD)
  from assms(1) obtain tb where "map_of (tabs s) t = Some tb" "table_wf ddl tb"
    using list_all2_map_of [of table_wf conf "tabs s" t ddl] ddl by (auto simp: store_wf_def)
  moreover have "list_all plain_col (col_names ddl)" "distinct (col_names ddl)"
    using assms(1) m by (auto simp: store_wf_def list_all_iff)
  moreover have "t \<noteq> ''sqlite_master''"
    using assms(1) m by (force simp: store_wf_def)
  ultimately show ?thesis using ddl that by (simp add: schema_of_def key_of_def)
qed

lemma put_same_keys: "k \<in> set (map fst ps) \<Longrightarrow> map fst (put k v ps) = map fst ps"
  by (induction k v ps rule: put.induct) auto

lemma list_all2_put:
  "list_all2 (\<lambda>(t, x) (t', y). P x y) xs ys \<Longrightarrow> map fst ys = map fst xs \<Longrightarrow>
   map_of xs t = Some x \<Longrightarrow> P x y' \<Longrightarrow> list_all2 (\<lambda>(t, x) (t', y). P x y) xs (put t y' ys)"
  by (induction xs ys rule: list_all2_induct) (auto split: if_splits)

lemma store_wf_with_rows:
  assumes "store_wf conf s" "map_of conf t = Some ddl" "map_of (tabs s) t = Some tb"
    "table_wf ddl tb" "table_wf ddl (tb\<lparr>t_rows := rows\<rparr>)"
  shows "store_wf conf (with_rows s t rows)"
    and "rows_of (with_rows s t rows) = (rows_of s)(t := mset rows)"
proof -
  have k: "t \<in> set (map fst (tabs s))" using assms(3) by (metis map_of_eq_None_iff option.distinct(1) set_map)
  have "list_all2 (\<lambda>(t, x) (t', y). table_wf x y) conf (put t (tb\<lparr>t_rows := rows\<rparr>) (tabs s))"
    using assms by (intro list_all2_put) (auto simp: store_wf_def)
  then show "store_wf conf (with_rows s t rows)"
    using assms k by (simp add: store_wf_def with_rows_def put_same_keys)
  show "rows_of (with_rows s t rows) = (rows_of s)(t := mset rows)"
    using assms(3) by (auto simp: rows_of_def with_rows_def)
qed

lemma with_rows_ok:
  assumes "store_wf conf s" "schema_of conf t \<noteq> []" "list_all (\<lambda>r. map fst r = schema_of conf t) rows"
    "distinct (keys_of (key_of conf t) rows)"
  shows "store_wf conf (with_rows s t rows)" "rows_of (with_rows s t rows) = (rows_of s)(t := mset rows)"
    "faults (with_rows s t rows) = faults s"
proof -
  obtain ddl tb where w: "map_of conf t = Some ddl" "map_of (tabs s) t = Some tb" "table_wf ddl tb"
    "schema_of conf t = col_names ddl" "key_of conf t = pk_of ddl"
    using store_wf_table [OF assms(1,2)] by blast
  have "table_wf ddl (tb\<lparr>t_rows := rows\<rparr>)" using w(3) assms(3,4) unfolding w(4,5) by (simp add: table_wf_def)
  note n = store_wf_with_rows [OF assms(1) w(1-3) this]
  show "store_wf conf (with_rows s t rows)" "rows_of (with_rows s t rows) = (rows_of s)(t := mset rows)"
    "faults (with_rows s t rows) = faults s"
    using n w(2) by (simp_all add: with_rows_def)
qed

section \<open>The methods of both classes keep the interface's laws\<close>

lemma js_str_JStr_filter: "\<not> nullish v \<Longrightarrow> kept [(k, v)] = (if js_str v = [] then [] else [(k, v)])"
  by (simp add: kept_def)

text \<open>What a built condition tests, wherever its values stand in the parameter list.\<close>

lemma param_Dollar:
  "length pre = n \<Longrightarrow> i < length vs \<Longrightarrow> param (pre @ vs @ post) (Dollar (Suc (n + i))) = stored (vs ! i)"
  by (simp add: param_def nth_append)

lemma number_array_holds:
  assumes "length pre = index"
  shows "list_ex (cmp_holds (pre @ map (\<lambda>x. JStr (js_str x)) vs @ post) row)
           (number_array k oper index vs) = list_ex (\<lambda>w. sql_cmp oper (getp row k) (JStr (js_str w))) vs"
proof -
  have "cmp_holds (pre @ map (\<lambda>x. JStr (js_str x)) vs @ post) row (k, oper, Dollar (index + Suc i)) =
        sql_cmp oper (getp row k) (JStr (js_str (vs ! i)))" if "i < length vs" for i
    using param_Dollar [OF assms, of i "map (\<lambda>x. JStr (js_str x)) vs" post] that
    by (simp add: cmp_holds_def stored_def)
  then have "list_ex (cmp_holds (pre @ map (\<lambda>x. JStr (js_str x)) vs @ post) row)
           (number_array k oper index vs) \<longleftrightarrow>
         (\<exists>i < length vs. sql_cmp oper (getp row k) (JStr (js_str (vs ! i))))"
    by (auto simp: number_array_def list_ex_iff)
  also have "\<dots> \<longleftrightarrow> list_ex (\<lambda>w. sql_cmp oper (getp row k) (JStr (js_str w))) vs"
    by (metis in_set_conv_nth list_ex_iff)
  finally show ?thesis .
qed

lemma cond_for_holds:
  assumes "cond_for oper index key v = (c, vs)" "length pre = index"
  shows "cond_holds (pre @ vs @ post) row c = op_val oper (getp row key) v"
proof (cases "\<exists>ws. v = JArr ws")
  case True
  then show ?thesis
    using assms number_array_holds [OF assms(2)] by (auto simp: cond_for_def op_val_def)
next
  case False
  then have "c = Cmp key oper (Dollar (Suc index))" "vs = [JStr (js_str v)]"
    "op_val oper (getp row key) v = sql_cmp oper (getp row key) (JStr (js_str v))"
    using assms(1) by (auto simp: cond_for_def op_val_def split: jsval.splits)
  then show ?thesis
    using param_Dollar [OF assms(2), of 0 "[JStr (js_str v)]" post]
    by (simp add: cmp_holds_def stored_def)
qed

lemma build_conds_holds:
  "build_conds oper index fl = (cs, index', vs) \<Longrightarrow> length pre = index \<Longrightarrow>
   list_all (cond_holds (pre @ vs @ post) row) cs = list_all (\<lambda>(k, v). op_val oper (getp row k) v) fl"
proof (induction oper index fl arbitrary: cs index' vs pre rule: build_conds.induct)
  case (2 oper index key v fl)
  obtain c ws where c: "cond_for oper index key v = (c, ws)" by fastforce
  obtain cs1 i1 vs1 where b: "build_conds oper (index + length ws) fl = (cs1, i1, vs1)"
    using prod_cases3 by blast
  have e: "cs = c # cs1" "vs = ws @ vs1" using 2(2) c b by auto
  have "list_all (cond_holds ((pre @ ws) @ vs1 @ post) row) cs1 =
        list_all (\<lambda>(k, v). op_val oper (getp row k) v) fl"
    using "2.IH" [OF c [symmetric] refl b, of "pre @ ws"] 2(3) by simp
  then show ?case using e cond_for_holds [OF c 2(3), of "vs1 @ post"] by simp
qed simp

lemma build_conds_cols:
  "build_conds oper index fl = (cs, index', vs) \<Longrightarrow>
   set (concat (map cond_cols cs)) \<subseteq> set (map fst fl)"
proof (induction oper index fl arbitrary: cs index' vs rule: build_conds.induct)
  case (2 oper index key v fl)
  obtain c ws where c: "cond_for oper index key v = (c, ws)" by fastforce
  obtain cs1 i1 vs1 where b: "build_conds oper (index + length ws) fl = (cs1, i1, vs1)"
    using prod_cases3 by blast
  have k: "set (cond_cols c) \<subseteq> {key}"
    using c by (auto simp: cond_for_def number_array_def split: jsval.splits)
  have e: "cs = c # cs1" using 2(2) c b by simp
  have "set (concat (map cond_cols cs1)) \<subseteq> set (map fst fl)"
    using "2.IH" [OF c [symmetric] refl b] .
  with k show ?case unfolding e by simp blast
qed simp

text \<open>The read of a plain filter: what is sent and what it selects.\<close>

lemma op_val_eq: "op_val ''='' = match_val"
  by (rule ext, rule ext) (auto simp: op_val_def match_val_def sql_cmp_def split: jsval.splits)

lemma eq_groups:
  assumes "build_groups 0 [(Some oper, Some [], Some f), (None, l1, f1), (None, l2, f2)] = (gs, vs)"
  shows "where_holds vs r gs = list_all (\<lambda>(k, v). op_val oper (getp r k) v) (kept f)"
    and "set (concat (map cond_cols (concat (map snd gs)))) \<subseteq> set (map fst (kept f))"
proof -
  obtain cs i ws where b: "build_conds oper 0 (kept f) = (cs, i, ws)" using prod_cases3 by blast
  have e: "gs = [([], if f = [] then [] else cs), ([], []), ([], [])]" "vs = (if f = [] then [] else ws)"
    using assms b by (auto simp: buildCondition_def split: if_splits)
  have h: "list_all (cond_holds ws r) cs = list_all (\<lambda>(k, v). op_val oper (getp r k) v) (kept f)"
    using build_conds_holds [OF b, of "[]" "[]"] by simp
  show "where_holds vs r gs = list_all (\<lambda>(k, v). op_val oper (getp r k) v) (kept f)"
    using h e by (cases "f = []"; cases "cs = []") (auto simp: where_holds_def)
  show "set (concat (map cond_cols (concat (map snd gs)))) \<subseteq> set (map fst (kept f))"
    using build_conds_cols [OF b] e by (cases "f = []") auto
qed

lemma mset_order_rows [simp]: "mset (order_rows ord rows) = mset rows"
  by (auto simp: order_rows_def split: option.splits list.splits)

lemma alias_plain:
  assumes "list_all plain_col cols" "fs = [''*''] \<or> set fs \<subseteq> set cols"
  shows "alias_fields fs = (if fs = [] then [''*''] else fs)" "\<not> is_count fs"
    "fs \<noteq> [''*''] \<Longrightarrow> \<not> bad_col cols fs"
proof -
  have p: "CHR ''.'' \<notin> set f \<and> (f = ''*'' \<or> CHR ''('' \<notin> set f)" if "f \<in> set fs" for f
    using assms that by (auto simp: list_all_iff plain_col_def)
  then have "map (\<lambda>f. if CHR ''.'' \<in> set f then f @ '' AS '' @ replace_dots f else f) fs = fs"
    by (simp add: map_idI)
  then show "alias_fields fs = (if fs = [] then [''*''] else fs)" by (simp add: alias_fields_def)
  show "\<not> is_count fs"
  proof
    assume "is_count fs"
    then obtain f where f: "fs = [f]" "starts_with f ''count(''"
      by (auto simp: is_count_def split: list.splits)
    then have "take (length ''count('') f = ''count(''" by (simp only: starts_with_def)
    then have "CHR ''('' \<in> set (take (length ''count('') f)" by (simp only:) simp
    then have "CHR ''('' \<in> set f" by (rule in_set_takeD)
    moreover have "f \<noteq> ''*''" using f(2) by (auto simp: starts_with_def)
    ultimately show False using p [of f] f(1) by simp
  qed
  show "fs \<noteq> [''*''] \<Longrightarrow> \<not> bad_col cols fs" using assms by (auto simp: bad_col_def)
qed

lemma run_select:
  assumes "store_wf conf s" "schema_of conf t \<noteq> []" "fs = [''*''] \<or> set fs \<subseteq> set (schema_of conf t)"
    "set (concat (map cond_cols (concat (map snd gs)))) \<subseteq> set (schema_of conf t)"
  shows "\<exists>rs. run_stmt dia (Select (alias_fields fs) [t] gs None ord) vs s = (Inr rs, s) \<and>
     mset rs = {# project fs r. r \<in># {# r \<in># rows_of s t. where_holds vs r gs #} #}"
proof -
  obtain ddl tb where w: "map_of conf t = Some ddl" "map_of (tabs s) t = Some tb" "table_wf ddl tb"
    "schema_of conf t = col_names ddl" "list_all plain_col (col_names ddl)" "t \<noteq> ''sqlite_master''"
    using store_wf_table [OF assms(1,2)] by metis
  define gfs where "gfs = (if fs = [] then [''*''] else fs)"
  note f = alias_plain [of "col_names ddl" fs]
  have a: "alias_fields fs = gfs" and c: "\<not> is_count gfs"
    and b: "gfs \<noteq> [''*''] \<Longrightarrow> \<not> bad_col (t_cols tb) gfs"
    using f w assms(3)
    by (auto simp: table_wf_def is_count_def starts_with_def gfs_def split: if_splits)
  have p: "project gfs = project fs" by (rule ext) (simp add: project_def gfs_def)
  have g: "\<not> bad_col (t_cols tb) (concat (map cond_cols (concat (map snd gs))))"
    using assms(4) w by (simp add: bad_col_def table_wf_def)
  have ft: "find_table s t = Some tb" using w by (simp add: find_table_def)
  let ?rs = "map (project fs) (order_rows ord (filter (\<lambda>r. where_holds vs r gs) (t_rows tb)))"
  have "run_stmt dia (Select gfs [t] gs None ord) vs s = (Inr ?rs, s)"
    unfolding run_stmt_def using ft g c p b by (cases "gfs = [''*'']") (simp_all add: Let_def)
  moreover have "mset ?rs = {# project fs r. r \<in># {# r \<in># rows_of s t. where_holds vs r gs #} #}"
    using w(2) by (simp add: rows_of_def)
  ultimately show ?thesis using a by blast
qed

definition read_by :: "string \<Rightarrow> dialect \<Rightarrow> string \<Rightarrow> string list \<Rightarrow> obj \<Rightarrow> string option \<Rightarrow> store \<Rightarrow> obj list result \<times> store" where
  "read_by oper dia t fs f ord s =
     (case build_groups 0 [(Some oper, Some [], Some f), (None, None, None), (None, None, None)] of
        (gs, vs) \<Rightarrow> exec_stmt dia (Select (alias_fields fs) [t] gs None ord) vs s)"

lemma mem_get_eq: "db_get (mem_db dia) t fs (Some f) ord s = read_by ''='' dia t fs f ord s"
  by (cases dia)
     (auto simp: sqlite_backend_def pg_backend_def sqlite_get_def pg_get_def sqlite_raw_get_def
        pg_raw_get_def mem_conn_def get_stmt_def kept_joins_def read_by_def split: prod.splits)

lemma mem_higher_eq: "db_getHigherThan (mem_db dia) t fs (Some f) ord s = read_by ''>'' dia t fs f ord s"
  by (cases dia)
     (auto simp: sqlite_backend_def pg_backend_def sqlite_getHigherThan_def pg_getHigherThan_def sqlite_raw_get_def
        pg_raw_get_def mem_conn_def get_stmt_def kept_joins_def read_by_def split: prod.splits)

lemma read_by_law:
  assumes "store_wf conf s" "schema_of conf t \<noteq> []" "fs = [''*''] \<or> set fs \<subseteq> set (schema_of conf t)"
    "set (map fst (kept f)) \<subseteq> set (schema_of conf t)"
    "read_by oper dia t fs f ord s = (res, s')"
  shows "store_wf conf s' \<and> (store_healthy s \<longrightarrow> store_healthy s') \<and> rows_of s' = rows_of s \<and>
     (case res of
        Inl e \<Rightarrow> \<not> store_healthy s
      | Inr rs \<Rightarrow> mset rs = {# project fs r. r \<in># {# r \<in># rows_of s t. list_all (\<lambda>(k, v). op_val oper (getp r k) v) (kept f) #} #})"
proof -
  obtain gs vs where g:
    "build_groups 0 [(Some oper, Some [], Some f), (None, None, None), (None, None, None)] = (gs, vs)"
    by fastforce
  note h = eq_groups [OF g]
  have m: "where_holds vs r gs = list_all (\<lambda>(k, v). op_val oper (getp r k) v) (kept f)" for r by (rule h(1))
  have e: "exec_stmt dia (Select (alias_fields fs) [t] gs None ord) vs s = (res, s')"
    using assms(5) g by (simp add: read_by_def)
  from e show ?thesis
  proof (cases rule: exec_stmt_cases)
    case (failed e fs)
    then show ?thesis using assms(1) by (simp add: store_healthy_def)
  next
    case (ran fl)
    have sub: "set (concat (map cond_cols (concat (map snd gs)))) \<subseteq> set (schema_of conf t)"
      using h(2) assms(4) by blast
    obtain rs where "run_stmt dia (Select (alias_fields fs) [t] gs None ord) vs (s\<lparr>faults := fl\<rparr>) =
        (Inr rs, s\<lparr>faults := fl\<rparr>)"
      "mset rs = {# project fs r. r \<in># {# r \<in># rows_of s t. where_holds vs r gs #} #}"
      using run_select [OF _ assms(2,3) sub, of "s\<lparr>faults := fl\<rparr>" dia ord vs] assms(1) by auto
    then show ?thesis using ran assms(1) m by simp
  qed
qed

lemma mem_get_law:
  assumes "store_wf conf s" "schema_of conf t \<noteq> []" "fs = [''*''] \<or> set fs \<subseteq> set (schema_of conf t)"
    "set (map fst (kept f)) \<subseteq> set (schema_of conf t)" "db_get (mem_db dia) t fs (Some f) ord s = (res, s')"
  shows "store_wf conf s' \<and> (store_healthy s \<longrightarrow> store_healthy s') \<and> rows_of s' = rows_of s \<and>
     (case res of
        Inl e \<Rightarrow> \<not> store_healthy s
      | Inr rs \<Rightarrow> mset rs = {# project fs r. r \<in># {# r \<in># rows_of s t. matches f r #} #})"
proof -
  have "(\<lambda>r. list_all (\<lambda>(k, v). op_val ''='' (getp r k) v) (kept f)) = matches f"
    by (rule ext) (simp add: op_val_eq matches_def)
  from read_by_law [OF assms(1-4) assms(5) [unfolded mem_get_eq], unfolded this] show ?thesis .
qed

lemma mem_higher_law:
  assumes "store_wf conf s" "k \<in> set (schema_of conf t)" "fs = [''*''] \<or> set fs \<subseteq> set (schema_of conf t)"
    "db_getHigherThan (mem_db dia) t fs (Some [(k, v)]) ord s = (res, s')"
  shows "store_wf conf s' \<and> (store_healthy s \<longrightarrow> store_healthy s') \<and> rows_of s' = rows_of s \<and>
     (case res of
        Inl e \<Rightarrow> \<not> store_healthy s
      | Inr rs \<Rightarrow> mset rs = {# project fs r. r \<in># {# r \<in># rows_of s t. kept [(k, v)] = [] \<or> op_val ''>'' (getp r k) v #} #})"
proof -
  have c: "schema_of conf t \<noteq> []" "set (map fst (kept [(k, v)])) \<subseteq> set (schema_of conf t)"
    using assms(2) by (auto simp: kept_def)
  have e: "list_all (\<lambda>(k, v). op_val ''>'' (getp r k) v) (kept [(k, v)]) \<longleftrightarrow> kept [(k, v)] = [] \<or> op_val ''>'' (getp r k) v" for r
    by (simp add: kept_def)
  show ?thesis using read_by_law [OF assms(1) c(1) assms(3) c(2) assms(4) [unfolded mem_higher_eq], unfolded e] .
qed

lemma bind_marks:
  assumes "\<And>n. ph_pos (mk n) = n" "length vals = length names"
  shows "map (\<lambda>(c, p). (c, param (pre @ vals @ post) p))
           (map (\<lambda>i. (names ! i, mk (length pre + Suc i))) [0..<length names]) =
         zip names (map stored vals)"
  by (rule nth_equalityI) (auto simp: assms param_def nth_append)

lemma bind_values:
  "map (\<lambda>(c, p). (c, param (map snd vs @ post) p)) (qmarks 0 (map fst vs)) = stored_obj vs"
  "map (\<lambda>(c, p). (c, param (map snd vs @ post) p)) (dollars 0 (map fst vs)) = stored_obj vs"
proof -
  have z: "zip (map fst vs) (map stored (map snd vs)) = stored_obj vs"
    by (induction vs) (auto simp: stored_obj_def)
  show "map (\<lambda>(c, p). (c, param (map snd vs @ post) p)) (qmarks 0 (map fst vs)) = stored_obj vs"
    using bind_marks [of Qmark "map snd vs" "map fst vs" "[]" post] z by (simp add: qmarks_def)
  show "map (\<lambda>(c, p). (c, param (map snd vs @ post) p)) (dollars 0 (map fst vs)) = stored_obj vs"
    using bind_marks [of Dollar "map snd vs" "map fst vs" "[]" post] z by (simp add: dollars_def)
qed

lemma marks_names [simp]: "map fst (qmarks n names) = names" "map fst (dollars n names) = names"
  by (auto simp: qmarks_def dollars_def intro: nth_equalityI)

lemma marks_Nil [simp]: "qmarks n names = [] \<longleftrightarrow> names = []" "dollars n names = [] \<longleftrightarrow> names = []"
  by (auto simp: qmarks_def dollars_def)

lemma complete_cols [simp]: "map fst (complete cs vs) = cs"
  by (simp add: complete_def comp_def)

lemma assign_cols [simp]: "map fst (assign vs row) = map fst row"
  by (auto simp: assign_def)

lemma keys_of_Nil [simp]: "keys_of ks [] = []"
  by (simp add: keys_of_def)

lemma keys_of_Cons:
  "keys_of ks (r # rows) =
     (if ks = [] \<or> list_ex (\<lambda>k. nullish (getp r k)) ks then [] else [map (\<lambda>k. js_str (getp r k)) ks]) @ keys_of ks rows"
  by (simp add: keys_of_def)

lemma keys_of_append: "keys_of ks (rows @ rows') = keys_of ks rows @ keys_of ks rows'"
  by (simp add: keys_of_def)

lemma keys_of_mem:
  "x \<in> set (keys_of ks rows) \<longleftrightarrow> ks \<noteq> [] \<and>
     (\<exists>r \<in> set rows. \<not> list_ex (\<lambda>k. nullish (getp r k)) ks \<and> x = map (\<lambda>k. js_str (getp r k)) ks)"
  by (induction rows) (auto simp: keys_of_Cons)

lemma same_key_iff:
  "same_key ks w r \<longleftrightarrow> \<not> list_ex (\<lambda>k. nullish (getp r k)) ks \<and> \<not> list_ex (\<lambda>k. nullish (w k)) ks \<and>
     map (\<lambda>k. js_str (getp r k)) ks = map (\<lambda>k. js_str (w k)) ks"
  by (induction ks) (auto simp: same_key_def sql_eq_def)

lemma keys_of_dup:
  assumes "distinct (keys_of ks rows)" "\<not> distinct (keys_of ks (rows @ [r]))"
  obtains r' where "ks \<noteq> []" "r' \<in> set rows" "same_key ks (getp r) r'"
proof -
  have k: "ks \<noteq> []" using assms(2) by (auto simp: keys_of_def)
  have n: "\<not> list_ex (\<lambda>k. nullish (getp r k)) ks"
    using assms by (auto simp: keys_of_append keys_of_Cons)
  have "map (\<lambda>k. js_str (getp r k)) ks \<in> set (keys_of ks rows)"
    using assms n k by (simp add: keys_of_append keys_of_Cons)
  then obtain r' where "r' \<in> set rows" "\<not> list_ex (\<lambda>k. nullish (getp r' k)) ks"
    "map (\<lambda>k. js_str (getp r k)) ks = map (\<lambda>k. js_str (getp r' k)) ks"
    unfolding keys_of_mem by blast
  with n that [OF k] show ?thesis by (simp add: same_key_iff)
qed

text \<open>An insertion: one more row, or a row with the same key was there.\<close>

lemma run_insert:
  assumes wf: "store_wf conf s" and sc: "schema_of conf t \<noteq> []" and
    ps: "ps \<noteq> []" "set (map fst ps) \<subseteq> set (schema_of conf t)"
    and vs: "map (\<lambda>(c, p). (c, param vals p)) ps = stored_obj vs"
    and run: "run_stmt dia (Insert t ps) vals s = (res, s')"
  shows "store_wf conf s' \<and> faults s' = faults s \<and>
    (case res of
       Inl e \<Rightarrow> rows_of s' = rows_of s \<and> key_of conf t \<noteq> [] \<and>
         (\<exists>r \<in># rows_of s t. same_key (key_of conf t) (getp (complete (schema_of conf t) (stored_obj vs))) r)
     | Inr rs \<Rightarrow> rs = [complete (schema_of conf t) (stored_obj vs)] \<and>
         rows_of s' = (rows_of s)(t := add_mset (complete (schema_of conf t) (stored_obj vs)) (rows_of s t)))"
proof -
  obtain ddl tb where w: "map_of conf t = Some ddl" "map_of (tabs s) t = Some tb" "table_wf ddl tb"
    "schema_of conf t = col_names ddl" "key_of conf t = pk_of ddl" "list_all plain_col (col_names ddl)"
    using store_wf_table [OF wf sc] by metis
  have c: "t_cols tb = col_names ddl" "t_pkey tb = pk_of ddl"
    "list_all (\<lambda>r. map fst r = col_names ddl) (t_rows tb)" "distinct (keys_of (pk_of ddl) (t_rows tb))"
    using w(3) by (auto simp: table_wf_def)
  define row where "row = complete (col_names ddl) (stored_obj vs)"
  have r: "run_stmt dia (Insert t ps) vals s =
      (if distinct (keys_of (pk_of ddl) (t_rows tb @ [row]))
       then (Inr [row], with_rows s t (t_rows tb @ [row]))
       else (Inl (dup_error dia t (pk_of ddl)), s))"
    using w c ps vs by (simp add: run_stmt_def bad_col_def Let_def row_def)
  show ?thesis
  proof (cases "distinct (keys_of (pk_of ddl) (t_rows tb @ [row]))")
    case True
    then have t: "table_wf ddl (tb\<lparr>t_rows := t_rows tb @ [row]\<rparr>)"
      using c by (simp add: table_wf_def row_def)
    note n = store_wf_with_rows [OF wf w(1,2,3) t]
    show ?thesis using True r run n w by (auto simp: row_def rows_of_def)
  next
    case False
    obtain r' where "pk_of ddl \<noteq> []" "r' \<in> set (t_rows tb)" "same_key (pk_of ddl) (getp row) r'"
      by (rule keys_of_dup [OF c(4) False])
    then show ?thesis using False r run wf w by (auto simp: row_def rows_of_def)
  qed
qed

lemma mem_insert_law:
  assumes "store_wf conf s" "schema_of conf t \<noteq> []" "vs \<noteq> []" "set (map fst vs) \<subseteq> set (schema_of conf t)"
    "db_insert (mem_db dia) t vs s = (res, s')"
  shows "store_wf conf s' \<and> (store_healthy s \<longrightarrow> store_healthy s') \<and>
    (case res of
       Inl e \<Rightarrow> rows_of s' = rows_of s \<and> (store_healthy s \<longrightarrow> key_of conf t \<noteq> [] \<and>
         (\<exists>r \<in># rows_of s t. same_key (key_of conf t) (getp (complete (schema_of conf t) (stored_obj vs))) r))
     | Inr rs \<Rightarrow> rs = [complete (schema_of conf t) (stored_obj vs)] \<and>
         rows_of s' = (rows_of s)(t := add_mset (complete (schema_of conf t) (stored_obj vs)) (rows_of s t)))"
proof -
  obtain ps where ps: "exec_stmt dia (Insert t ps) (map snd vs) s = (res, s')" "ps \<noteq> []"
    "map fst ps = map fst vs" "map (\<lambda>(c, p). (c, param (map snd vs) p)) ps = stored_obj vs"
  proof (cases dia)
    case SQLITE
    then show ?thesis
      using assms(3,5) bind_values(1) [of vs "[]"] that [of "qmarks 0 (map fst vs)"]
      by (simp add: sqlite_backend_def sqlite_insert_def mem_conn_def)
  next
    case PG
    then show ?thesis
      using assms(3,5) bind_values(2) [of vs "[]"] that [of "dollars 0 (map fst vs)"]
      by (simp add: pg_backend_def pg_insert_def mem_conn_def)
  qed
  from ps(1) show ?thesis
  proof (cases rule: exec_stmt_cases)
    case (failed e fs)
    then show ?thesis using assms(1) by (simp add: store_healthy_def)
  next
    case (ran fl)
    have "store_wf conf (s\<lparr>faults := fl\<rparr>)" using assms(1) by simp
    from run_insert [OF this assms(2) ps(2) _ ps(4) ran(1)] ps(3) assms(4) ran(2)
    show ?thesis by (auto simp: store_healthy_def split: sum.splits)
  qed
qed

lemma sql_eq_stored [simp]: "sql_eq x (stored v) = sql_eq x v"
  by (simp add: sql_eq_def stored_def)

lemma sql_less_stored [simp]: "sql_less x (stored v) = sql_less x v"
  by (cases v) (auto simp: sql_less_def stored_def)

lemma not_distinct_keys:
  assumes "\<not> distinct (keys_of ks rows)"
  shows "ks \<noteq> [] \<and> (\<exists>w. 1 < size {# r \<in># mset rows. same_key ks w r #})"
  using assms
proof (induction rows)
  case (Cons r rows)
  show ?case
  proof (cases "distinct (keys_of ks rows)")
    case True
    then have k: "ks \<noteq> []" and n: "\<not> list_ex (\<lambda>k. nullish (getp r k)) ks"
      and "map (\<lambda>k. js_str (getp r k)) ks \<in> set (keys_of ks rows)"
      using Cons.prems by (auto simp: keys_of_Cons split: if_splits)
    then obtain r' where "r' \<in> set rows" "\<not> list_ex (\<lambda>k. nullish (getp r' k)) ks"
      "map (\<lambda>k. js_str (getp r k)) ks = map (\<lambda>k. js_str (getp r' k)) ks"
      unfolding keys_of_mem by blast
    with n have "r' \<in># {# r' \<in># mset rows. same_key ks (getp r) r' #}" by (simp add: same_key_iff)
    then have "0 < size {# r' \<in># mset rows. same_key ks (getp r) r' #}"
      by (metis empty_iff nonempty_has_size set_mset_empty)
    moreover have "same_key ks (getp r) r" using n by (simp add: same_key_iff)
    ultimately show ?thesis using k by (intro conjI exI [of _ "getp r"]) simp_all
  next
    case False
    then obtain w where "ks \<noteq> []" "1 < size {# r \<in># mset rows. same_key ks w r #}" using Cons.IH by blast
    then show ?thesis by (intro conjI exI [of _ w]) simp_all
  qed
qed simp

lemma run_update:
  assumes wf: "store_wf conf s" and sc: "schema_of conf t \<noteq> []" and
    ss: "ss \<noteq> []" "set (map fst ss @ map fst cs) \<subseteq> set (schema_of conf t)"
    and vs: "map (\<lambda>(c, p). (c, param vals p)) ss = stored_obj vs" and sel: "(\<lambda>r. list_all (\<lambda>(f, p). sql_eq (getp r f) (param vals p)) cs) = sel"
    and run: "run_stmt dia (Update t sp ss cs) vals s = (res, s')"
  shows "store_wf conf s' \<and> faults s' = faults s \<and>
    (case res of
       Inl e \<Rightarrow> rows_of s' = rows_of s \<and> key_of conf t \<noteq> [] \<and> (\<exists>w. 1 < size {# r \<in>#
         {# if sel r then assign (stored_obj vs) r else r. r \<in># rows_of s t #}.
         same_key (key_of conf t) w r #})
     | Inr rs \<Rightarrow>
         mset rs = {# assign (stored_obj vs) r. r \<in># {# r \<in># rows_of s t. sel r #} #} \<and>
         rows_of s' = (rows_of s)(t := {# if sel r then assign (stored_obj vs) r else r.
                                          r \<in># rows_of s t #}))"
proof -
  obtain ddl tb where w: "map_of conf t = Some ddl" "map_of (tabs s) t = Some tb" "table_wf ddl tb"
    "schema_of conf t = col_names ddl" "key_of conf t = pk_of ddl" "list_all plain_col (col_names ddl)"
    using store_wf_table [OF wf sc] by metis
  have c: "t_cols tb = col_names ddl" "t_pkey tb = pk_of ddl"
    "list_all (\<lambda>r. map fst r = col_names ddl) (t_rows tb)" "distinct (keys_of (pk_of ddl) (t_rows tb))"
    using w(3) by (auto simp: table_wf_def)
  have ks: "map fst ss = map fst (stored_obj vs)"
    unfolding vs [symmetric] by (simp add: comp_def case_prod_unfold)
  define rows where
    "rows = map (\<lambda>r. if sel r then assign (stored_obj vs) r else r) (t_rows tb)"
  have r: "run_stmt dia (Update t sp ss cs) vals s =
      (if distinct (keys_of (pk_of ddl) rows)
       then (Inr (map (assign (stored_obj vs)) (filter (\<lambda>r. sel r) (t_rows tb))),
             with_rows s t rows)
       else (Inl (dup_error dia t (pk_of ddl)), s))"
    using w c ss vs by (simp add: run_stmt_def bad_col_def Let_def rows_def sel)
  show ?thesis
  proof (cases "distinct (keys_of (pk_of ddl) rows)")
    case True
    have "list_all (\<lambda>r. map fst r = col_names ddl) rows"
      using c(3) by (auto simp: rows_def list_all_iff)
    with True have t: "table_wf ddl (tb\<lparr>t_rows := rows\<rparr>)" using c by (simp add: table_wf_def)
    note n = store_wf_with_rows [OF wf w(1,2,3) t]
    show ?thesis using True r run n w by (auto simp: rows_def rows_of_def)
  next
    case False
    obtain k where "pk_of ddl \<noteq> []" "1 < size {# r \<in># mset rows. same_key (pk_of ddl) k r #}"
      using not_distinct_keys [OF False] by blast
    moreover have "mset rows =
        {# if sel r then assign (stored_obj vs) r else r. r \<in># rows_of s t #}"
      using w(2) by (simp add: rows_def rows_of_def)
    ultimately show ?thesis using False r run wf w by auto
  qed
qed

lemma bind_last:
  "param (map snd vs @ [v]) (Qmark (Suc (length vs))) = stored v"
  "param (map snd vs @ [v]) (Dollar (Suc (length vs))) = stored v"
  by (simp_all add: param_def nth_append)

lemma mem_update_law:
  assumes "store_wf conf s" "schema_of conf t \<noteq> []" "vs \<noteq> []"
    "set (fld # map fst vs) \<subseteq> set (schema_of conf t)" "db_update (mem_db dia) t vs fld v s = (res, s')"
  shows "store_wf conf s' \<and> (store_healthy s \<longrightarrow> store_healthy s') \<and>
    (case res of
       Inl e \<Rightarrow> rows_of s' = rows_of s \<and>
         (store_healthy s \<longrightarrow> key_of conf t \<noteq> [] \<and> (\<exists>w. 1 < size {# r \<in>#
            {# if sql_eq (getp r fld) v then assign (stored_obj vs) r else r. r \<in># rows_of s t #}.
            same_key (key_of conf t) w r #}))
     | Inr rs \<Rightarrow>
         mset rs = {# assign (stored_obj vs) r. r \<in># {# r \<in># rows_of s t. sql_eq (getp r fld) v #} #} \<and>
         rows_of s' = (rows_of s)(t := {# if sql_eq (getp r fld) v then assign (stored_obj vs) r else r.
                                          r \<in># rows_of s t #}))"
proof -
  obtain ss sp p where ss: "exec_stmt dia (Update t sp ss [(fld, p)]) (map snd vs @ [v]) s = (res, s')"
    "ss \<noteq> []" "map fst ss = map fst vs"
    "map (\<lambda>(c, p). (c, param (map snd vs @ [v]) p)) ss = stored_obj vs"
    "param (map snd vs @ [v]) p = stored v"
  proof (cases dia)
    case SQLITE
    have "qmarks (length vs) [fld] = [(fld, Qmark (Suc (length vs)))]" by (simp add: qmarks_def)
    then show ?thesis
      using SQLITE assms(3,5) bind_values(1) [of vs "[v]"] bind_last(1) [of vs v]
        that [of TightJoin "qmarks 0 (map fst vs)" "Qmark (Suc (length vs))"]
      by (simp add: sqlite_backend_def sqlite_update_def mem_conn_def)
  next
    case PG
    have "dollars (length vs) [fld] = [(fld, Dollar (Suc (length vs)))]" by (simp add: dollars_def)
    then show ?thesis
      using PG assms(3,5) bind_values(2) [of vs "[v]"] bind_last(2) [of vs v]
        that [of Tight "dollars 0 (map fst vs)" "Dollar (Suc (length vs))"]
      by (simp add: pg_backend_def pg_update_def mem_conn_def)
  qed
  from ss(1) show ?thesis
  proof (cases rule: exec_stmt_cases)
    case (failed e fs)
    then show ?thesis using assms(1) by (simp add: store_healthy_def)
  next
    case (ran fl)
    have w: "store_wf conf (s\<lparr>faults := fl\<rparr>)" using assms(1) by simp
    have sel: "(\<lambda>r. list_all (\<lambda>(f, p). sql_eq (getp r f) (param (map snd vs @ [v]) p)) [(fld, p)]) = (\<lambda>r. sql_eq (getp r fld) v)"
      by (simp add: ss(5))
    have cols: "set (map fst ss @ map fst [(fld, p)]) \<subseteq> set (schema_of conf t)" using ss(3) assms(4) by simp
    from run_update [OF w assms(2) ss(2) cols ss(4) sel ran(1)] ran(2)
    show ?thesis by (auto simp: store_healthy_def split: sum.splits)
  qed
qed

lemma bind_last_two:
  "param (map snd vs @ [v, w]) (Qmark (Suc (length vs))) = stored v"
  "param (map snd vs @ [v, w]) (Qmark (Suc (Suc (length vs)))) = stored w"
  "param (map snd vs @ [v, w]) (Dollar (Suc (length vs))) = stored v"
  "param (map snd vs @ [v, w]) (Dollar (Suc (Suc (length vs)))) = stored w"
  by (simp_all add: param_def nth_append)

lemma mem_update_and_law:
  assumes "store_wf conf s" "schema_of conf t \<noteq> []" "vs \<noteq> []"
    "set (fst c1 # fst c2 # map fst vs) \<subseteq> set (schema_of conf t)" "db_updateAnd (mem_db dia) t vs c1 c2 s = (res, s')"
  shows "store_wf conf s' \<and> (store_healthy s \<longrightarrow> store_healthy s') \<and>
    (case res of
       Inl e \<Rightarrow> rows_of s' = rows_of s \<and>
         (store_healthy s \<longrightarrow> key_of conf t \<noteq> [] \<and> (\<exists>w. 1 < size {# r \<in>#
            {# if both c1 c2 r then assign (stored_obj vs) r else r. r \<in># rows_of s t #}. same_key (key_of conf t) w r #}))
     | Inr rs \<Rightarrow>
         mset rs = {# assign (stored_obj vs) r. r \<in># {# r \<in># rows_of s t. both c1 c2 r #} #} \<and>
         rows_of s' = (rows_of s)(t := {# if both c1 c2 r then assign (stored_obj vs) r else r. r \<in># rows_of s t #}))"
proof -
  let ?vals = "map snd vs @ [snd c1, snd c2]"
  obtain ss sp p q where ss: "exec_stmt dia (Update t sp ss [(fst c1, p), (fst c2, q)]) ?vals s = (res, s')"
    "ss \<noteq> []" "map fst ss = map fst vs" "map (\<lambda>(c, p). (c, param ?vals p)) ss = stored_obj vs"
    "param ?vals p = stored (snd c1)" "param ?vals q = stored (snd c2)"
  proof (cases dia)
    case SQLITE
    have "qmarks (length vs) [fst c1, fst c2] = [(fst c1, Qmark (Suc (length vs))), (fst c2, Qmark (Suc (Suc (length vs))))]"
      by (simp add: qmarks_def)
    then show ?thesis
      using SQLITE assms(3,5) bind_values(1) [of vs "[snd c1, snd c2]"] bind_last_two(1,2) [of vs "snd c1" "snd c2"]
        that [of Spaced "qmarks 0 (map fst vs)" "Qmark (Suc (length vs))" "Qmark (Suc (Suc (length vs)))"]
      by (simp add: sqlite_backend_def sqlite_updateAnd_def mem_conn_def)
  next
    case PG
    have "dollars (length vs) [fst c1, fst c2] = [(fst c1, Dollar (Suc (length vs))), (fst c2, Dollar (Suc (Suc (length vs))))]"
      by (simp add: dollars_def)
    then show ?thesis
      using PG assms(3,5) bind_values(2) [of vs "[snd c1, snd c2]"] bind_last_two(3,4) [of vs "snd c1" "snd c2"]
        that [of Tight "dollars 0 (map fst vs)" "Dollar (Suc (length vs))" "Dollar (Suc (Suc (length vs)))"]
      by (simp add: pg_backend_def pg_updateAnd_def mem_conn_def)
  qed
  from ss(1) show ?thesis
  proof (cases rule: exec_stmt_cases)
    case (failed e fs)
    then show ?thesis using assms(1) by (simp add: store_healthy_def)
  next
    case (ran fl)
    have w: "store_wf conf (s\<lparr>faults := fl\<rparr>)" using assms(1) by simp
    have sel: "(\<lambda>r. list_all (\<lambda>(f, p). sql_eq (getp r f) (param ?vals p)) [(fst c1, p), (fst c2, q)]) = both c1 c2"
      by (rule ext) (simp add: ss(5,6) both_def)
    have cols: "set (map fst ss @ map fst [(fst c1, p), (fst c2, q)]) \<subseteq> set (schema_of conf t)" using ss(3) assms(4) by auto
    from run_update [OF w assms(2) ss(2) cols ss(4) sel ran(1)] ran(2)
    show ?thesis by (auto simp: store_healthy_def split: sum.splits)
  qed
qed

text \<open>A deletion keeps the rows whose field does not compare.\<close>

lemma keys_of_filter: "distinct (keys_of ks rows) \<Longrightarrow> distinct (keys_of ks (filter P rows))"
  by (induction rows) (auto simp: keys_of_Cons keys_of_mem)

lemma run_delete:
  assumes wf: "store_wf conf s" and sc: "schema_of conf t \<noteq> []" and
    cs: "cs \<noteq> []" "set (map fst cs) \<subseteq> set (schema_of conf t)" and sel: "(\<lambda>r. list_all (cmp_holds vals r) cs) = sel"
    and run: "run_stmt dia (Delete t cs) vals s = (res, s')"
  shows "store_wf conf s' \<and> faults s' = faults s \<and> (\<exists>rs. res = Inr rs) \<and>
    rows_of s' = (rows_of s)(t := {# r \<in># rows_of s t. \<not> sel r #})"
proof -
  obtain ddl tb where w: "map_of conf t = Some ddl" "map_of (tabs s) t = Some tb" "table_wf ddl tb"
    "schema_of conf t = col_names ddl"
    using store_wf_table [OF wf sc] by metis
  define rows where "rows = filter (\<lambda>r. \<not> sel r) (t_rows tb)"
  have r: "run_stmt dia (Delete t cs) vals s = (Inr [], with_rows s t rows)"
    using w cs fun_cong [OF sel] by (simp add: run_stmt_def bad_col_def table_wf_def rows_def)
  have "distinct (keys_of k rows)" if "distinct (keys_of k (t_rows tb))" for k
    using that unfolding rows_def by (rule keys_of_filter)
  then have "table_wf ddl (tb\<lparr>t_rows := rows\<rparr>)"
    using w(3) by (auto simp: table_wf_def rows_def list_all_iff)
  note n = store_wf_with_rows [OF wf w(1,2,3) this]
  show ?thesis using r run n w by (auto simp: rows_def rows_of_def)
qed

lemma mem_delete_conds:
  assumes wf: "store_wf conf s" and sc: "schema_of conf t \<noteq> []" and
    cs: "cs \<noteq> []" "set (map fst cs) \<subseteq> set (schema_of conf t)" and sel: "(\<lambda>r. list_all (cmp_holds vals r) cs) = sel"
    and ex: "void_result (exec_stmt dia (Delete t cs) vals s) = (res, s')"
  shows "store_wf conf s' \<and> (store_healthy s \<longrightarrow> store_healthy s') \<and>
    (case res of
       Inl e \<Rightarrow> rows_of s' = rows_of s \<and> \<not> store_healthy s
     | Inr _ \<Rightarrow> rows_of s' = (rows_of s)(t := {# r \<in># rows_of s t. \<not> sel r #}))"
proof -
  obtain r0 where e: "exec_stmt dia (Delete t cs) vals s = (r0, s')"
    "res = (case r0 of Inl e \<Rightarrow> Inl e | Inr _ \<Rightarrow> Inr ())"
    using ex by (auto simp: void_result_def split: prod.splits sum.splits)
  from e(1) show ?thesis
  proof (cases rule: exec_stmt_cases)
    case (failed e fs)
    then show ?thesis using wf \<open>res = _\<close> by (simp add: store_healthy_def)
  next
    case (ran fl)
    have "store_wf conf (s\<lparr>faults := fl\<rparr>)" using wf by simp
    from run_delete [OF this sc cs sel ran(1)] ran(2) e(2)
    show ?thesis by (auto simp: store_healthy_def)
  qed
qed

lemma mem_delete_step:
  assumes wf: "store_wf conf s" and fld: "fld \<in> set (schema_of conf t)" and pv: "param [v] p = stored v"
    and ex: "void_result (exec_stmt dia (Delete t [(fld, oper, p)]) [v] s) = (res, s')"
  shows "store_wf conf s' \<and> (store_healthy s \<longrightarrow> store_healthy s') \<and>
    (case res of
       Inl e \<Rightarrow> rows_of s' = rows_of s \<and> \<not> store_healthy s
     | Inr _ \<Rightarrow> rows_of s' =
         (rows_of s)(t := {# r \<in># rows_of s t. \<not> sql_cmp oper (getp r fld) (stored v) #}))"
proof -
  have sel: "(\<lambda>r. list_all (cmp_holds [v] r) [(fld, oper, p)]) = (\<lambda>r. sql_cmp oper (getp r fld) (stored v))"
    by (simp add: cmp_holds_def pv)
  show ?thesis by (rule mem_delete_conds [OF wf _ _ _ sel ex]) (use fld in auto)
qed

lemma mem_delete_and_law:
  assumes "store_wf conf s" "{fst c1, fst c2} \<subseteq> set (schema_of conf t)"
    "db_deleteEqualAnd (mem_db dia) t c1 c2 s = (res, s')"
  shows "store_wf conf s' \<and> (store_healthy s \<longrightarrow> store_healthy s') \<and>
    (case res of
       Inl e \<Rightarrow> rows_of s' = rows_of s \<and>
         (store_healthy s \<longrightarrow> bad_condition (fst c1) (snd c1) \<or> bad_condition (fst c2) (snd c2))
     | Inr _ \<Rightarrow> rows_of s' = (rows_of s)(t := {# r \<in># rows_of s t. \<not> both c1 c2 r #}))"
proof (cases "dia = PG \<and> (bad_condition (fst c1) (snd c1) \<or> bad_condition (fst c2) (snd c2))")
  case True
  then show ?thesis
    using assms by (auto simp: pg_backend_def pg_deleteEqualAnd_def mem_conn_def split: sum.splits)
next
  case False
  let ?vals = "[snd c1, snd c2]"
  have "\<exists>p q. param ?vals p = stored (snd c1) \<and> param ?vals q = stored (snd c2) \<and>
      void_result (exec_stmt dia (Delete t [(fst c1, ''='', p), (fst c2, ''='', q)]) ?vals s) = (res, s')"
  proof (cases dia)
    case SQLITE
    then show ?thesis using assms(3)
      by (intro exI [of _ "Qmark 1"] exI [of _ "Qmark 2"])
         (simp add: sqlite_backend_def sqlite_deleteEqualAnd_def mem_conn_def param_def)
  next
    case PG
    then show ?thesis using assms(3) False
      by (intro exI [of _ "Dollar 1"] exI [of _ "Dollar 2"])
         (simp add: pg_backend_def pg_deleteEqualAnd_def mem_conn_def param_def)
  qed
  then obtain p q where p: "param ?vals p = stored (snd c1)" "param ?vals q = stored (snd c2)"
    "void_result (exec_stmt dia (Delete t [(fst c1, ''='', p), (fst c2, ''='', q)]) ?vals s) = (res, s')" by blast
  have sel: "(\<lambda>r. list_all (cmp_holds ?vals r) [(fst c1, ''='', p), (fst c2, ''='', q)]) = both c1 c2"
    by (rule ext) (simp add: cmp_holds_def p(1,2) both_def sql_cmp_def)
  have "store_wf conf s' \<and> (store_healthy s \<longrightarrow> store_healthy s') \<and>
    (case res of
       Inl e \<Rightarrow> rows_of s' = rows_of s \<and> \<not> store_healthy s
     | Inr _ \<Rightarrow> rows_of s' = (rows_of s)(t := {# r \<in># rows_of s t. \<not> both c1 c2 r #}))"
    by (rule mem_delete_conds [OF assms(1) _ _ _ sel p(3)]) (use assms(2) in auto)
  then show ?thesis by (cases res) auto
qed

lemma param_single: "param [v] (Qmark 1) = stored v" "param [v] (Dollar 1) = stored v"
  by (simp_all add: param_def)

lemma mem_delete_law:
  assumes "store_wf conf s" "fld \<in> set (schema_of conf t)" "db_deleteEqual (mem_db dia) t fld v s = (res, s')"
  shows "store_wf conf s' \<and> (store_healthy s \<longrightarrow> store_healthy s') \<and>
    (case res of
       Inl e \<Rightarrow> rows_of s' = rows_of s \<and> (store_healthy s \<longrightarrow> bad_condition fld v)
     | Inr _ \<Rightarrow> rows_of s' = (rows_of s)(t := {# r \<in># rows_of s t. \<not> sql_eq (getp r fld) v #}))"
proof (cases "dia = PG \<and> bad_condition fld v")
  case True
  then show ?thesis
    using assms by (auto simp: pg_backend_def pg_deleteEqual_def mem_conn_def split: sum.splits)
next
  case False
  then have "\<exists>p. param [v] p = stored v \<and>
      void_result (exec_stmt dia (Delete t [(fld, ''='', p)]) [v] s) = (res, s')"
    using assms(3) param_single
    by (cases dia) (auto simp: sqlite_backend_def sqlite_deleteEqual_def pg_backend_def
        pg_deleteEqual_def mem_conn_def)
  then obtain p where p: "param [v] p = stored v"
    "void_result (exec_stmt dia (Delete t [(fld, ''='', p)]) [v] s) = (res, s')" by blast
  from mem_delete_step [OF assms(1,2) p] show ?thesis
    by (auto simp: sql_cmp_def split: sum.splits)
qed

lemma mem_delete_lower_law:
  assumes "store_wf conf s" "fld \<in> set (schema_of conf t)"
    "db_deleteLowerThan (mem_db dia) t fld v s = (res, s')"
  shows "store_wf conf s' \<and> (store_healthy s \<longrightarrow> store_healthy s') \<and>
    (case res of
       Inl e \<Rightarrow> rows_of s' = rows_of s \<and> (store_healthy s \<longrightarrow> bad_condition fld v)
     | Inr _ \<Rightarrow> rows_of s' = (rows_of s)(t := {# r \<in># rows_of s t. \<not> sql_less (getp r fld) v #}))"
proof (cases "dia = PG \<and> bad_condition fld v")
  case True
  then show ?thesis
    using assms by (auto simp: pg_backend_def pg_deleteLowerThan_def mem_conn_def split: sum.splits)
next
  case False
  then have "\<exists>p. param [v] p = stored v \<and>
      void_result (exec_stmt dia (Delete t [(fld, ''<'', p)]) [v] s) = (res, s')"
    using assms(3) param_single
    by (cases dia) (auto simp: sqlite_backend_def sqlite_deleteLowerThan_def pg_backend_def
        pg_deleteLowerThan_def mem_conn_def)
  then obtain p where p: "param [v] p = stored v"
    "void_result (exec_stmt dia (Delete t [(fld, ''<'', p)]) [v] s) = (res, s')" by blast
  from mem_delete_step [OF assms(1,2) p] show ?thesis
    by (auto simp: sql_cmp_def split: sum.splits)
qed

lemma mem_delete_where_law:
  assumes "store_wf conf s" "fld \<in> set (schema_of conf t)"
    "db_deleteWhere (mem_db dia) t [(fld, Some ''='', v)] s = (res, s')"
  shows "store_wf conf s' \<and> (store_healthy s \<longrightarrow> store_healthy s') \<and>
    (case res of
       Inl e \<Rightarrow> rows_of s' = rows_of s \<and> \<not> store_healthy s
     | Inr _ \<Rightarrow> rows_of s' = (rows_of s)(t := {# r \<in># rows_of s t. \<not> sql_eq (getp r fld) v #}))"
proof -
  have "\<exists>p. param [v] p = stored v \<and>
      void_result (exec_stmt dia (Delete t [(fld, ''='', p)]) [v] s) = (res, s')"
    using assms(3) param_single
    by (cases dia) (auto simp: sqlite_backend_def sqlite_deleteWhere_def pg_backend_def
        pg_deleteWhere_def mem_conn_def where_conds_def)
  then obtain p where p: "param [v] p = stored v"
    "void_result (exec_stmt dia (Delete t [(fld, ''='', p)]) [v] s) = (res, s')" by blast
  from mem_delete_step [OF assms(1,2) p] show ?thesis
    by (auto simp: sql_cmp_def split: sum.splits)
qed

lemma distinct_keys_size:
  "distinct (keys_of ks rows) \<Longrightarrow> ks \<noteq> [] \<Longrightarrow> size {# r \<in># mset rows. same_key ks w r #} \<le> 1"
proof (induction rows)
  case (Cons r rows)
  have d: "distinct (keys_of ks rows)" using Cons.prems(1) by (simp add: keys_of_Cons)
  show ?case
  proof (cases "same_key ks w r")
    case True
    then have n: "map (\<lambda>k. js_str (getp r k)) ks \<notin> set (keys_of ks rows)"
      using Cons.prems by (simp add: keys_of_Cons same_key_iff)
    have "\<not> same_key ks w r'" if "r' \<in> set rows" for r'
    proof
      assume "same_key ks w r'"
      then have "map (\<lambda>k. js_str (getp r k)) ks \<in> set (keys_of ks rows)"
        using True that Cons.prems(2) unfolding keys_of_mem same_key_iff by metis
      with n show False ..
    qed
    then have "{# r \<in># mset rows. same_key ks w r #} = {#}" by simp
    with True show ?thesis by simp
  next
    case False
    with Cons.IH [OF d Cons.prems(2)] show ?thesis by simp
  qed
qed simp

lemma store_wf_find:
  assumes "store_wf conf s" "map_of (tabs s) t = Some tb"
  obtains ddl where "map_of conf t = Some ddl" "table_wf ddl tb"
proof -
  from assms(2) have "t \<in> set (map fst (tabs s))" by (force dest: map_of_SomeD)
  then have "t \<in> set (map fst conf)" using assms(1) by (simp only: store_wf_def)
  then obtain ddl where d: "map_of conf t = Some ddl"
    by (cases "map_of conf t") (auto simp: map_of_eq_None_iff)
  then show ?thesis
    using list_all2_map_of [of table_wf conf "tabs s" t ddl] assms that by (auto simp: store_wf_def)
qed

lemma store_row_cols: "store_wf conf s \<Longrightarrow> r \<in># rows_of s t \<Longrightarrow> map fst r = schema_of conf t"
proof -
  assume a: "store_wf conf s" "r \<in># rows_of s t"
  then obtain tb where tb: "map_of (tabs s) t = Some tb" "r \<in> set (t_rows tb)"
    by (cases "map_of (tabs s) t") (simp_all add: rows_of_def)
  obtain ddl where "map_of conf t = Some ddl" "table_wf ddl tb" by (rule store_wf_find [OF a(1) tb(1)])
  then show ?thesis using tb(2) by (simp add: schema_of_def table_wf_def list_all_iff)
qed

lemma store_cols_distinct: "store_wf conf s \<Longrightarrow> distinct (schema_of conf t)"
proof (cases "schema_of conf t = []")
  case False
  assume "store_wf conf s"
  then show ?thesis using False by (rule store_wf_table) simp
qed simp

lemma store_key_unique:
  assumes "store_wf conf s" "key_of conf t \<noteq> []"
  shows "size {# r \<in># rows_of s t. same_key (key_of conf t) w r #} \<le> 1"
proof (cases "map_of (tabs s) t")
  case None
  then show ?thesis by (simp add: rows_of_def)
next
  case (Some tb)
  obtain ddl where "map_of conf t = Some ddl" "table_wf ddl tb"
    by (rule store_wf_find [OF assms(1) Some])
  then have "distinct (keys_of (key_of conf t) (t_rows tb))" by (simp add: key_of_def table_wf_def)
  then show ?thesis using Some distinct_keys_size [OF _ assms(2), of "t_rows tb" w] by (simp add: rows_of_def)
qed

lemma mem_get_unfiltered: "db_get (mem_db dia) t fs None ord s = db_get (mem_db dia) t fs (Some []) ord s"
  by (cases dia)
     (simp_all add: sqlite_backend_def pg_backend_def sqlite_get_def pg_get_def sqlite_raw_get_def
        pg_raw_get_def mem_conn_def get_stmt_def)

interpretation mem: table_db "mem_db dia" "store_wf conf" store_healthy rows_of "schema_of conf" "key_of conf"
  for dia conf
proof (unfold_locales, goal_cases)
  case 1 then show ?case by (rule store_row_cols)
next
  case 2 then show ?case by (rule store_cols_distinct)
next
  case 3 then show ?case by (rule store_key_unique)
next
  case 4 then show ?case by (rule mem_get_law)
next
  case 5 then show ?case by (rule mem_higher_law)
next
  case 6 then show ?case by (rule mem_get_unfiltered)
next
  case 7 then show ?case by (rule mem_insert_law)
next
  case 8 then show ?case by (rule mem_update_law)
next
  case 9 then show ?case by (rule mem_delete_law)
next
  case 10 then show ?case by (rule mem_delete_lower_law)
next
  case 11 then show ?case by (rule mem_delete_where_law)
next
  case 12 then show ?case by (rule mem_update_and_law)
next
  case 13 then show ?case by (rule mem_delete_and_law)
qed

declare mem_db.simps [simp del]

section \<open>Properties\<close>

definition empty_store :: "(string \<times> string) list \<Rightarrow> store" where
  "empty_store conf =
     \<lparr>tabs = map (\<lambda>(t, ddl). (t, \<lparr>t_cols = col_names ddl, t_pkey = pk_of ddl, t_rows = []\<rparr>)) conf,
      faults = []\<rparr>"

text \<open>
  C32: A read through either backend returns exactly the rows of the table that match every kept
  filter entry, projected to the requested columns, leaves every table alone, and fails only when
  the driver does.
\<close>

theorem get_returns_matching_rows:
  assumes "store_wf conf s" "schema_of conf t \<noteq> []" "fs = [''*''] \<or> set fs \<subseteq> set (schema_of conf t)"
    "set (map fst (kept f)) \<subseteq> set (schema_of conf t)" "db_get (mem_db dia) t fs (Some f) ord s = (res, s')"
  shows "rows_of s' = rows_of s \<and>
    (case res of
       Inl e \<Rightarrow> \<not> store_healthy s
     | Inr rs \<Rightarrow> mset rs = {# project fs r. r \<in># {# r \<in># rows_of s t. matches f r #} #})"
  using mem.get_law [OF assms] by blast

definition two_users :: store where
  "two_users = with_rows (empty_store [(''users'', ''id text PRIMARY KEY, age int'')]) ''users''
     [[(''id'', JStr ''ann''), (''age'', JNum 30)], [(''id'', JStr ''bob''), (''age'', JNum 41)]]"

theorem get_returns_matching_rows_witness:
  "fst (db_get (mem_db PG) ''users'' [''age''] (Some [(''id'', JStr ''bob'')]) None two_users) =
     Inr [[(''age'', JNum 41)]] \<and>
   mset [[(''age'', JNum 41)]] = {# project [''age''] r.
     r \<in># {# r \<in># rows_of two_users ''users''. matches [(''id'', JStr ''bob'')] r #} #}"
proof
  let ?c = "[(''users'', ''id text PRIMARY KEY, age int'')]"
  have g: "db_get (mem_db PG) ''users'' [''age''] (Some [(''id'', JStr ''bob'')]) None two_users =
      (Inr [[(''age'', JNum 41)]], two_users)"
    by code_simp
  have "store_wf ?c two_users" "schema_of ?c ''users'' \<noteq> []"
    "[''age''] = [''*''] \<or> set [''age''] \<subseteq> set (schema_of ?c ''users'')"
    "set (map fst (kept [(''id'', JStr ''bob'')])) \<subseteq> set (schema_of ?c ''users'')"
    by code_simp+
  from get_returns_matching_rows [OF this g]
  show "mset [[(''age'', JNum 41)]] = {# project [''age''] r.
     r \<in># {# r \<in># rows_of two_users ''users''. matches [(''id'', JStr ''bob'')] r #} #}"
    by simp
  show "fst (db_get (mem_db PG) ''users'' [''age''] (Some [(''id'', JStr ''bob'')]) None two_users) =
      Inr [[(''age'', JNum 41)]]"
    by (simp add: g)
qed

text \<open>
  A filter by the empty text is no filter: looking a row up by an empty value returns every
  row of the table, not none.
\<close>

theorem empty_filter_returns_all:
  assumes "store_wf conf s" "k \<in> set (schema_of conf t)"
    "db_get (mem_db dia) t [''*''] (Some [(k, JStr [])]) ord s = (Inr rs, s')"
  shows "mset rs = rows_of s t"
proof -
  have "(\<lambda>r. matches [(k, JStr [])] r) = (\<lambda>_. True)" by (rule ext) (simp add: mem.matches_one)
  then show ?thesis
    using mem.get_one_Inr [OF assms(3,1,2)] by (simp add: project_def)
qed

theorem empty_filter_returns_all_witness:
  "mset (case fst (db_get (mem_db SQLITE) ''users'' [''*''] (Some [(''id'', JStr [])]) None two_users) of
           Inr rs \<Rightarrow> rs | Inl _ \<Rightarrow> []) = rows_of two_users ''users'' \<and>
   size (rows_of two_users ''users'') = 2"
proof
  let ?c = "[(''users'', ''id text PRIMARY KEY, age int'')]"
  let ?rs = "[[(''id'', JStr ''ann''), (''age'', JNum 30)], [(''id'', JStr ''bob''), (''age'', JNum 41)]]"
  have g: "db_get (mem_db SQLITE) ''users'' [''*''] (Some [(''id'', JStr [])]) None two_users =
      (Inr ?rs, two_users)"
    by code_simp
  have "store_wf ?c two_users" "''id'' \<in> set (schema_of ?c ''users'')" by code_simp+
  from empty_filter_returns_all [OF this g]
  show "mset (case fst (db_get (mem_db SQLITE) ''users'' [''*''] (Some [(''id'', JStr [])]) None two_users) of
           Inr rs \<Rightarrow> rs | Inl _ \<Rightarrow> []) = rows_of two_users ''users''"
    by (simp add: g)
  show "size (rows_of two_users ''users'') = 2" by code_simp
qed

text \<open>What any statement leaves of the tables it is not about.\<close>

definition keeps :: "(string \<times> table) list \<Rightarrow> store \<Rightarrow> bool" where
  "keeps old s \<longleftrightarrow> (\<forall>u tb. map_of old u = Some tb \<longrightarrow> map_of (tabs s) u = Some tb)"

definition table_names :: "store \<Rightarrow> string set" where
  "table_names s = fst ` set (tabs s)"

lemma table_names_faults [simp]: "table_names (s\<lparr>faults := fs\<rparr>) = table_names s"
  by (simp add: table_names_def)

lemma map_of_names: "map_of (tabs s) t = None \<longleftrightarrow> t \<notin> table_names s"
  by (simp add: map_of_eq_None_iff table_names_def)

lemma exec_create:
  assumes "exec_stmt dia (CreateTable t ddl) [] s = (res, s')"
  shows "keeps (tabs s) s' \<and>
    (case res of Inl _ \<Rightarrow> table_names s' = table_names s
     | Inr _ \<Rightarrow> t \<notin> table_names s \<and> table_names s' = insert t (table_names s))"
  using assms
proof (cases rule: exec_stmt_cases)
  case (ran fs)
  then show ?thesis
    by (cases "map_of (tabs s) t = None")
       (auto simp: run_stmt_def keeps_def map_of_names table_names_def map_of_eq_None_iff)
qed (simp add: keeps_def)

lemma exec_index:
  "exec_stmt dia (CreateIndex t i) [] s = (res, s') \<Longrightarrow> tabs s' = tabs s"
  by (erule exec_stmt_cases) (auto simp: run_stmt_def no_table_def split: if_splits)

lemma tabs_with_rows: "u \<noteq> t \<Longrightarrow> map_of (tabs (with_rows s t rows)) u = map_of (tabs s) u"
  "map fst (tabs (with_rows s t rows)) = map fst (tabs s)"
proof -
  show "u \<noteq> t \<Longrightarrow> map_of (tabs (with_rows s t rows)) u = map_of (tabs s) u"
    by (auto simp: with_rows_def split: option.splits)
  show "map fst (tabs (with_rows s t rows)) = map fst (tabs s)"
  proof (cases "map_of (tabs s) t")
    case (Some tb)
    then have "t \<in> set (map fst (tabs s))" by (force dest: map_of_SomeD)
    with Some show ?thesis by (simp add: with_rows_def put_same_keys)
  qed (simp add: with_rows_def)
qed

lemma exec_insert:
  assumes "exec_stmt dia (Insert t ps) vs s = (res, s')"
  shows "(\<forall>u. u \<noteq> t \<longrightarrow> map_of (tabs s') u = map_of (tabs s) u) \<and>
    map fst (tabs s') = map fst (tabs s)"
  using assms
proof (cases rule: exec_stmt_cases)
  case (ran fs)
  then show ?thesis
    by (auto simp: run_stmt_def no_table_def Let_def tabs_with_rows split: if_splits option.splits)
qed simp

lemma mem_raw:
  "db_rawQuery (mem_db dia) st s = void_result (exec_stmt dia st [] s)"
  "\<exists>ps. db_insert (mem_db dia) t vs s = exec_stmt dia (Insert t ps) (map snd vs) s"
  by (cases dia; simp add: mem_db.simps sqlite_backend_def pg_backend_def sqlite_rawQuery_def
      pg_rawQuery_def sqlite_insert_def pg_insert_def mem_conn_def)
     (cases dia; auto simp add: mem_db.simps sqlite_backend_def pg_backend_def sqlite_rawQuery_def
      pg_rawQuery_def sqlite_insert_def pg_insert_def mem_conn_def)

lemma exists_sqlite:
  assumes "t \<noteq> []" "sqlite_exists (mem_conn SQLITE) t s = (res, s')"
  shows "tabs s' = tabs s \<and> (res = Inr True \<longrightarrow> t \<in> table_names s)"
proof -
  let ?st = "Select (alias_fields [''count(name) as count'']) [''sqlite_master'']
    [([], [Cmp ''name'' ''='' (Dollar 1)]), ([], []), ([], [])] None None"
  have f: "alias_fields [''count(name) as count''] = [''count(name) as count'']"
    by (simp add: alias_fields_def)
  obtain r0 where e: "exec_stmt SQLITE ?st [JStr t] s = (r0, s')"
    "res = (case r0 of Inl e \<Rightarrow> Inl e | Inr [] \<Rightarrow> Inl (Err ''Cannot read properties of undefined'')
       | Inr (row # _) \<Rightarrow> Inr (case parse_int (js_str (getp row ''count'')) of None \<Rightarrow> False | Some k \<Rightarrow> k \<noteq> 0))"
    using assms
    by (auto simp: sqlite_exists_def getCount_def sqlite_get_def sqlite_raw_get_def mem_conn_def get_stmt_def
        kept_joins_def buildCondition_def kept_def cond_for_def split: prod.splits sum.splits list.splits)
  from e(1) show ?thesis
  proof (cases rule: exec_stmt_cases)
    case (failed e fs)
    then show ?thesis using \<open>res = _\<close> by simp
  next
    case (ran fs)
    let ?n = "length (filter (\<lambda>r. where_holds [JStr t] r [([], [Cmp ''name'' ''='' (Dollar 1)]), ([], []), ([], [])])
        (map (\<lambda>(n, _). [(''name'', JStr n)]) (tabs s)))"
    have "run_stmt SQLITE ?st [JStr t] (s\<lparr>faults := fs\<rparr>) =
        (Inr [[(''count'', JNum (int ?n))]], s\<lparr>faults := fs\<rparr>)"
      by (simp add: run_stmt_def find_table_def f bad_col_def is_count_def starts_with_def Let_def)
    with ran(1) e(2) have r: "res = Inr (int ?n \<noteq> 0)" "s' = s\<lparr>faults := fs\<rparr>" by simp_all
    have "t \<in> table_names s" if "?n \<noteq> 0"
      using that by (force simp: table_names_def filter_empty_conv where_holds_def cmp_holds_def param_def stored_def sql_cmp_def sql_eq_def)
    with r show ?thesis by auto
  qed
qed

lemma exists_mem:
  assumes "t \<noteq> []" "t \<in> N" "table_names s \<subseteq> N" "inj_on to_lower N" "db_exists (mem_db dia) t s = (res, s')"
  shows "tabs s' = tabs s \<and> (res = Inr True \<longrightarrow> t \<in> table_names s)"
proof (cases dia)
  case SQLITE
  then show ?thesis using exists_sqlite assms(1,5) by (simp add: mem_db.simps sqlite_backend_def)
next
  case PG
  obtain r0 where e: "exec_stmt PG (PgTableExists t) [] s = (r0, s')"
    "res = (case r0 of Inl e \<Rightarrow> Inr False | Inr rows \<Rightarrow> Inr (rows \<noteq> [] \<and> truthy (getp (hd rows) ''exists'')))"
    using assms(5) PG
    by (auto simp: mem_db.simps pg_backend_def pg_exists_def mem_conn_def split: prod.splits sum.splits)
  from e(1) show ?thesis
  proof (cases rule: exec_stmt_cases)
    case (failed e fs)
    then show ?thesis using \<open>res = _\<close> by simp
  next
    case (ran fs)
    then have r: "r0 = Inr [[(''exists'', JBool (to_lower t \<in> to_lower ` table_names s))]]" "tabs s' = tabs s"
      by (auto simp: run_stmt_def table_names_def image_comp)
    have "t \<in> table_names s" if "to_lower t \<in> to_lower ` table_names s"
      using that assms(2-4) by (meson inj_on_image_mem_iff)
    then show ?thesis using r e(2) by auto
  qed
qed

lemma promise_all_inv:
  assumes "\<And>p s. p \<in> set ps \<Longrightarrow> P s \<Longrightarrow> P (snd (p s))" "P s"
  shows "P (snd (promise_all ps s))"
  using assms
proof (induction ps s rule: promise_all.induct)
  case (2 p ps s)
  have "P (snd (p s))" using 2 by simp
  then show ?case using 2 by (cases "p s"; cases "fst (p s)") auto
qed simp

text \<open>One table: the tables that were there stay as they are, the new one exists on success.\<close>

lemma create_one_keeps:
  assumes "t \<noteq> []" "t \<in> N" "table_names s \<subseteq> N" "inj_on to_lower N"
    "create_one (mem_db dia) idx ini (t, ddl) s = (res, s')"
  shows "keeps (tabs s) s' \<and> table_names s' \<subseteq> insert t (table_names s) \<and> table_names s \<subseteq> table_names s' \<and>
    (res = Inr () \<longrightarrow> t \<in> table_names s')"
proof -
  obtain r1 s1 where e1: "db_exists (mem_db dia) t s = (r1, s1)" by fastforce
  have t1: "tabs s1 = tabs s" "r1 = Inr True \<longrightarrow> t \<in> table_names s" using exists_mem [OF assms(1-4) e1] by auto
  then have n1: "table_names s1 = table_names s" by (simp add: table_names_def)
  show ?thesis
  proof (cases "r1 = Inr False")
    case False
    then show ?thesis
      using assms(5) e1 t1 n1 by (cases r1) (auto simp: create_one_def keeps_def)
  next
    case True
    obtain r2 s2 where e2: "exec_stmt dia (CreateTable t ddl) [] s1 = (r2, s2)" by fastforce
    note c = exec_create [OF e2]
    show ?thesis
    proof (cases r2)
      case (Inl e)
      then have "s' = s2" "res = Inl e"
        using assms(5) e1 e2 True by (simp_all add: create_one_def mem_raw(1) void_result_def)
      then show ?thesis using c Inl t1 n1 by auto
    next
      case (Inr x)
      define I where "I = map (\<lambda>index s. swallow (db_rawQuery (mem_db dia) (CreateIndex t index) s))
          (case map_of idx t of None \<Rightarrow> [] | Some is \<Rightarrow> is)"
      define J where "J = map (\<lambda>entry s. void_result (db_insert (mem_db dia) t entry s))
          (case map_of ini t of None \<Rightarrow> [] | Some es \<Rightarrow> es)"
      let ?P = "\<lambda>s'. (\<forall>u. u \<noteq> t \<longrightarrow> map_of (tabs s') u = map_of (tabs s2) u) \<and> table_names s' = table_names s2"
      have i: "?P (snd (p u))" if a: "p \<in> set I" "?P u" for p u
      proof -
        obtain k where p: "p = (\<lambda>s. swallow (void_result (exec_stmt dia (CreateIndex t k) [] s)))"
          using a(1) by (auto simp: I_def mem_raw(1))
        obtain r3 u' where e3: "exec_stmt dia (CreateIndex t k) [] u = (r3, u')" by fastforce
        have "snd (p u) = u'" by (cases r3) (simp_all add: p e3 swallow_def void_result_def)
        then have "tabs (snd (p u)) = tabs u" using exec_index [OF e3] by simp
        then show ?thesis using a(2) by (simp add: table_names_def)
      qed
      have j: "?P (snd (p u))" if a: "p \<in> set J" "?P u" for p u
      proof -
        obtain vs where p: "p = (\<lambda>s. void_result (db_insert (mem_db dia) t vs s))"
          using a(1) by (auto simp: J_def)
        obtain ps where q: "db_insert (mem_db dia) t vs u = exec_stmt dia (Insert t ps) (map snd vs) u"
          using mem_raw(2) by blast
        obtain r3 u' where e3: "exec_stmt dia (Insert t ps) (map snd vs) u = (r3, u')" by fastforce
        have "snd (p u) = u'" by (cases r3) (simp_all add: p q e3 void_result_def)
        moreover have "table_names u' = table_names u"
          using exec_insert [OF e3] by (metis set_map table_names_def)
        ultimately show ?thesis using exec_insert [OF e3] a(2) by simp
      qed
      have r: "(res, s') = promise_all J (snd (promise_all I s2))"
        using assms(5) e1 e2 True Inr
        by (simp add: create_one_def mem_raw(1) void_result_def I_def J_def Let_def)
      have "?P (snd (promise_all I s2))" by (rule promise_all_inv [of I ?P]) (use i in auto)
      then have "?P (snd (promise_all J (snd (promise_all I s2))))"
        by (rule promise_all_inv [of J ?P, rotated]) (use j in auto)
      then have p: "?P s'" using r by (metis snd_conv)
      have new: "t \<notin> table_names s" "table_names s2 = insert t (table_names s)" "keeps (tabs s) s2"
        using c Inr t1 n1 by auto
      have "keeps (tabs s) s'"
        unfolding keeps_def
      proof (intro allI impI)
        fix u tb assume u: "map_of (tabs s) u = Some tb"
        then have "u \<noteq> t" using new(1) map_of_names [of s t] by auto
        then show "map_of (tabs s') u = Some tb" using p u new(3) by (simp add: keeps_def)
      qed
      then show ?thesis using p new by auto
    qed
  qed
qed

lemma keeps_trans: "keeps old s \<Longrightarrow> keeps (tabs s) s' \<Longrightarrow> keeps old s'"
  by (auto simp: keeps_def)

lemma create_all_keeps:
  assumes "\<And>t ddl. (t, ddl) \<in> set tables \<Longrightarrow> t \<noteq> [] \<and> t \<in> N" "table_names s \<subseteq> N" "inj_on to_lower N"
    "promise_all (map (create_one (mem_db dia) idx ini) tables) s = (res, s')"
  shows "keeps (tabs s) s' \<and> table_names s \<subseteq> table_names s' \<and>
    (res = Inr () \<longrightarrow> fst ` set tables \<subseteq> table_names s')"
  using assms(1,2,4)
proof (induction tables arbitrary: s res)
  case Nil
  then show ?case by (simp add: keeps_def)
next
  case (Cons a tables)
  obtain t ddl where a: "a = (t, ddl)" by fastforce
  obtain r1 s1 where e: "create_one (mem_db dia) idx ini (t, ddl) s = (r1, s1)" by fastforce
  have t: "t \<noteq> []" "t \<in> N" using Cons.prems(1) [of t ddl] a by auto
  note c = create_one_keeps [OF t Cons.prems(2) assms(3) e]
  then have n: "table_names s1 \<subseteq> N" using t(2) Cons.prems(2) by auto
  obtain r2 where r2: "promise_all (map (create_one (mem_db dia) idx ini) tables) s1 = (r2, s')"
    "res = Inr () \<longrightarrow> r1 = Inr () \<and> r2 = Inr ()"
    using Cons.prems(3) a e
    by (cases r1; cases "promise_all (map (create_one (mem_db dia) idx ini) tables) s1") auto
  have "keeps (tabs s1) s' \<and> table_names s1 \<subseteq> table_names s' \<and>
      (r2 = Inr () \<longrightarrow> fst ` set tables \<subseteq> table_names s')"
    using Cons.prems(1) by (intro Cons.IH [OF _ n r2(1)]) auto
  then show ?case using c r2(2) a keeps_trans [of "tabs s" s1 s'] by auto
qed

text \<open>
  C35: Starting the server never touches a table that already exists: whatever the driver does on
  the way, \<open>createTables\<close> leaves every existing table with its columns and rows, and when it
  resolves every requested table exists.  Table names must not be empty nor differ only in case,
  which is how Postgres looks them up.
\<close>

theorem createTables_keeps_tables:
  assumes "\<And>t ddl. (t, ddl) \<in> set tables \<Longrightarrow> t \<noteq> []" "inj_on to_lower (table_names s \<union> fst ` set tables)"
    "createTables (mem_db dia) tables idx ini s = (res, s')"
  shows "keeps (tabs s) s' \<and> (res = Inr () \<longrightarrow> fst ` set tables \<subseteq> table_names s')"
proof -
  have "t \<noteq> [] \<and> t \<in> table_names s \<union> fst ` set tables" if "(t, ddl) \<in> set tables" for t ddl
    using assms(1) [OF that] that by force
  then show ?thesis
    using create_all_keeps [OF _ Un_upper1 assms(2) assms(3) [unfolded createTables_def]] by blast
qed

theorem createTables_keeps_tables_witness:
  "\<exists>s'. createTables (mem_db PG) [(''users'', ''id text''), (''keys'', ''name text PRIMARY KEY, data text'')]
       [(''keys'', [''data''])] [(''keys'', [[(''name'', JStr ''pepper'')]])] two_users = (Inr (), s') \<and>
     map_of (tabs s') ''users'' = map_of (tabs two_users) ''users'' \<and> ''keys'' \<in> table_names s'"
proof -
  let ?ts = "[(''users'', ''id text''), (''keys'', ''name text PRIMARY KEY, data text'')]"
  let ?r = "createTables (mem_db PG) ?ts [(''keys'', [''data''])] [(''keys'', [[(''name'', JStr ''pepper'')]])] two_users"
  obtain res s' where r: "?r = (res, s')" by fastforce
  have "fst ?r = Inr ()" by code_simp
  then have ok: "res = Inr ()" using r by simp
  have n: "table_names two_users = {''users''}" by code_simp
  have u: "map_of (tabs two_users) ''users'' \<noteq> None" by code_simp
  have i: "inj_on to_lower (table_names two_users \<union> fst ` set ?ts)"
    unfolding n by (auto simp: inj_on_def to_lower_def lower_char_def in_range_def)
  have "keeps (tabs two_users) s' \<and> (res = Inr () \<longrightarrow> fst ` set ?ts \<subseteq> table_names s')"
    by (rule createTables_keeps_tables [OF _ i r]) auto
  then show ?thesis using r ok u by (auto simp: keeps_def)
qed

end
