(* ===== verification/IdDb.thy ===== *)
theory IdDb
  imports SqlStore Json
begin

text \<open>
  The identity database (\<open>packages/matrix-identity-server/src/db/index.ts\<close>): its tables, the
  one-time tokens and invitation tokens, the long and short term key pairs and the clean-up of
  expired rows, over any backend.  A promise that never settles is \<open>None\<close>.  \<open>now\<close> is the
  value of \<open>epoch()\<close>, \<open>rnd\<close> and \<open>pos\<close> are the stream of random digits and how many of them
  were drawn.
\<close>

section \<open>Tables\<close>

definition identity_tables :: "(string \<times> string) list" where
  "identity_tables =
    [(''accessTokens'', ''id varchar(64) PRIMARY KEY, data text''),
     (''attempts'', ''email text PRIMARY KEY, expires int, attempt int''),
     (''oneTimeTokens'', ''id varchar(64) PRIMARY KEY, expires int, data text''),
     (''hashes'', ''hash varchar(48) PRIMARY KEY, pepper varchar(32), type varchar(8), value text, active integer''),
     (''invitationTokens'', ''id varchar(64) PRIMARY KEY, address text, data text''),
     (''keys'', ''name varchar(32) PRIMARY KEY, data text''),
     (''longTermKeypairs'', ''name text PRIMARY KEY, keyID varchar(64), public text, private text''),
     (''mappings'', ''client_secret varchar(255) PRIMARY KEY, session_id varchar(12), medium varchar(8), valid integer, address text, submit_time integer, send_attempt integer''),
     (''shortTermKeypairs'', ''keyID varchar(64) PRIMARY KEY, public text, private text, active integer''),
     (''userHistory'', ''address text PRIMARY KEY, active integer, timestamp integer''),
     (''userPolicies'', ''user_id text, policy_name text, accepted integer''),
     (''userQuotas'', ''user_id varchar(64) PRIMARY KEY, size int''),
     (''invitations'', ''id varchar(64) PRIMARY KEY, sender varchar(64), recipient varchar(64), medium varchar(64), expiration varchar(64), accessed int, room_id varchar(64), matrix_id varchar(64)''),
     (''addressbooks'', ''id varchar(64) PRIMARY KEY, owner varchar(64)''),
     (''contacts'', ''id varchar(64) PRIMARY KEY, addressbook_id varchar(64), mxid varchar(64), display_name varchar(64), active int'')]"

definition identity_indexes :: "(string \<times> string list) list" where
  "identity_indexes =
    [(''attempts'', [''expires'']), (''invitationTokens'', [''address'']),
     (''oneTimeTokens'', [''expires'']), (''userHistory'', [''timestamp''])]"

definition identity_initializeValues :: "(string \<times> obj list) list" where
  "identity_initializeValues =
    [(''keys'', [[(''name'', JStr ''pepper''), (''data'', JStr [])],
                 [(''name'', JStr ''previousPepper''), (''data'', JStr [])]])]"

text \<open>The tables \<open>tom-server/src/utils.ts\<close> adds.\<close>

definition tom_additional_tables :: "(string \<times> string) list" where
  "tom_additional_tables =
    [(''recoveryWords'', ''userId text PRIMARY KEY, words TEXT''),
     (''matrixTokens'', ''id varchar(64) PRIMARY KEY, data text''),
     (''userQuotas'', ''user_id varchar(64) PRIMARY KEY, size int''),
     (''rooms'', ''id varchar(64) PRIMARY KEY, filter varchar(64)''),
     (''invitations'', ''id varchar(64) PRIMARY KEY, sender varchar(64), recipient varchar(64), medium varchar(64), expiration varchar(64), accessed int, room_id varchar(64), matrix_id varchar(64)''),
     (''addressbooks'', ''id varchar(64) PRIMARY KEY, owner varchar(64)''),
     (''contacts'', ''id varchar(64) PRIMARY KEY, addressbook_id varchar(64), mxid varchar(64), display_name varchar(64), active int''),
     (''usersettings'', ''matrix_id varchar(64) PRIMARY KEY, settings jsonb, version int''),
     (''profileSettings'', ''matrix_id varchar(64) PRIMARY KEY, visibility VARCHAR(20) NOT NULL, visible_fields TEXT[] NOT NULL'')]"

text \<open>The constructor: the backend by engine name, and the merged tables.\<close>

definition merged_tables :: "(string \<times> string) list option \<Rightarrow> (string \<times> string) list" where
  "merged_tables additional =
     (case additional of None \<Rightarrow> identity_tables | Some ts \<Rightarrow> spread identity_tables ts)"

definition select_backend :: "string \<Rightarrow> 's conn \<Rightarrow> 's backend result" where
  "select_backend engine c =
     (if engine = ''sqlite'' then Inr (sqlite_backend c)
      else if engine = ''pg'' then Inr (pg_backend c)
      else Inl (Err (''Unsupported database type '' @ engine)))"

definition init_db ::
  "string \<Rightarrow> (string \<times> string) list option \<Rightarrow> 's conn \<Rightarrow> 's \<Rightarrow> unit result \<times> 's" where
  "init_db engine additional c s =
     (case select_backend engine c of
        Inl e \<Rightarrow> (Inl e, s)
      | Inr db \<Rightarrow> createTables db (merged_tables additional) identity_indexes identity_initializeValues s)"

section \<open>Tokens\<close>

definition createOneTimeToken ::
  "'s backend \<Rightarrow> (nat \<Rightarrow> char) \<Rightarrow> nat \<Rightarrow> int \<Rightarrow> obj \<Rightarrow> int option \<Rightarrow> string \<Rightarrow> 's \<Rightarrow>
   string result option \<times> 's" where
  "createOneTimeToken d rnd pos now data expires nextLink s =
     (let data' = (if nextLink \<noteq> [] then put ''next_link'' (JStr nextLink) data else data);
          tok = randomString rnd pos 64;
          expiresForDb = now + 1000 * (case expires of Some e \<Rightarrow> if e > 0 then e else 600 | None \<Rightarrow> 600)
      in case db_insert d ''oneTimeTokens''
                [(''id'', JStr tok), (''expires'', JNum expiresForDb), (''data'', JStr (str_of (JObj data')))] s of
           (Inr _, s') \<Rightarrow> (Some (Inr tok), s')
         | (Inl _, s') \<Rightarrow> (None, s'))"

definition createToken ::
  "'s backend \<Rightarrow> (nat \<Rightarrow> char) \<Rightarrow> nat \<Rightarrow> int \<Rightarrow> obj \<Rightarrow> int option \<Rightarrow> 's \<Rightarrow> string result option \<times> 's" where
  "createToken d rnd pos now data expires s = createOneTimeToken d rnd pos now data expires [] s"

definition createInvitationToken ::
  "'s backend \<Rightarrow> (nat \<Rightarrow> char) \<Rightarrow> nat \<Rightarrow> string \<Rightarrow> obj \<Rightarrow> 's \<Rightarrow> string result \<times> 's" where
  "createInvitationToken d rnd pos address data s =
     (let tok = randomString rnd pos 64
      in case db_insert d ''invitationTokens''
                [(''id'', JStr tok), (''address'', JStr address), (''data'', JStr (str_of (JObj data)))] s of
           (Inr _, s') \<Rightarrow> (Inr tok, s')
         | (Inl e, s') \<Rightarrow> (Inl e, s'))"

text \<open>\<open>JSON.parse\<close> of a column.\<close>

definition parse_col :: "jsval \<Rightarrow> jsval result" where
  "parse_col v = json_parse (js_str v)"

fun parse_all :: "jsval list \<Rightarrow> jsval list result" where
  "parse_all [] = Inr []"
| "parse_all (v # vs) =
     (case parse_col v of
        Inl e \<Rightarrow> Inl e
      | Inr x \<Rightarrow> (case parse_all vs of Inl e \<Rightarrow> Inl e | Inr xs \<Rightarrow> Inr (x # xs)))"

text \<open>Errors are logged and the caller gets \<open>undefined\<close> (\<open>None\<close>).\<close>

definition listInvitationTokens :: "'s backend \<Rightarrow> string \<Rightarrow> 's \<Rightarrow> jsval list option \<times> 's" where
  "listInvitationTokens d address s =
     (case db_get d ''invitationTokens'' [''data'', ''address'', ''id''] (Some [(''address'', JStr address)]) None s of
        (Inl _, s') \<Rightarrow> (None, s')
      | (Inr rows, s') \<Rightarrow>
          (case parse_all (map (\<lambda>r. getp r ''data'') rows) of Inl _ \<Rightarrow> (None, s') | Inr vs \<Rightarrow> (Some vs, s')))"

definition verifyInvitationToken :: "'s backend \<Rightarrow> string \<Rightarrow> 's \<Rightarrow> jsval result \<times> 's" where
  "verifyInvitationToken d tok s =
     (case db_get d ''invitationTokens'' [''data'', ''address''] (Some [(''id'', JStr tok)]) None s of
        (Inl e, s') \<Rightarrow> (Inl e, s')
      | (Inr [], s') \<Rightarrow> (Inl (Err ''Unknown token''), s')
      | (Inr (row # _), s') \<Rightarrow> (parse_col (getp row ''data''), s'))"

text \<open>
  With no row the error branch reads \<open>rows[0].expires\<close> and the rejection is the TypeError that
  throws.  The token is whatever the caller passes on, a text or another value of the request.
\<close>

definition verifyToken :: "'s backend \<Rightarrow> int \<Rightarrow> jsval \<Rightarrow> 's \<Rightarrow> jsval result \<times> 's" where
  "verifyToken d now tok s =
     (case db_get d ''oneTimeTokens'' [''data'', ''expires''] (Some [(''id'', tok)]) None s of
        (Inl e, s') \<Rightarrow> (Inl e, s')
      | (Inr [], s') \<Rightarrow> (Inl (Err ''Cannot read properties of undefined''), s')
      | (Inr (row # _), s') \<Rightarrow>
          (if (case as_number (getp row ''expires'') of Some n \<Rightarrow> now \<le> n | None \<Rightarrow> False)
           then (parse_col (getp row ''data''), s')
           else (Inl (Err (''Token expired'' @ js_str (getp row ''expires''))), s')))"

definition deleteToken :: "'s backend \<Rightarrow> jsval \<Rightarrow> 's \<Rightarrow> unit result \<times> 's" where
  "deleteToken d tok s = swallow (db_deleteEqual d ''oneTimeTokens'' ''id'' tok s)"

definition verifyOneTimeToken :: "'s backend \<Rightarrow> int \<Rightarrow> string \<Rightarrow> 's \<Rightarrow> jsval result \<times> 's" where
  "verifyOneTimeToken d now tok s =
     (case verifyToken d now (JStr tok) s of
        (Inl e, s') \<Rightarrow> (Inl e, s')
      | (Inr data, s') \<Rightarrow>
          (case deleteToken d (JStr tok) s' of
             (Inl e, s'') \<Rightarrow> (Inl e, s'')
           | (Inr _, s'') \<Rightarrow> (Inr data, s'')))"

section \<open>Key pairs\<close>

definition col_str :: "obj \<Rightarrow> string \<Rightarrow> string" where
  "col_str row k = js_str (getp row k)"

definition getKeys :: "'s backend \<Rightarrow> string \<Rightarrow> 's \<Rightarrow> key_pair result \<times> 's" where
  "getKeys d type s =
     (let type' = (if type = ''current'' then ''currentKey'' else ''previousKey'')
      in case getAll (db_get d) ''longTermKeypairs'' [''keyID'', ''public'', ''private''] None s of
           (Inl e, s') \<Rightarrow> (Inl e, s')
         | (Inr [], s') \<Rightarrow> (Inl (Err (''No '' @ type' @ '' found'')), s')
         | (Inr (row # _), s') \<Rightarrow>
             (Inr \<lparr>publicKey = col_str row ''public'', privateKey = col_str row ''private'',
                   keyId = col_str row ''keyID''\<rparr>, s'))"

text \<open>The rotation before a new long term key is stored; any error ends it and is only logged.\<close>

definition rotate_long_term :: "'s backend \<Rightarrow> 's \<Rightarrow> 's" where
  "rotate_long_term d s =
     (case db_get d ''longTermKeypairs'' [''name''] (Some [(''name'', JStr ''currentKey'')]) None s of
        (Inl _, s1) \<Rightarrow> s1
      | (Inr currentKey, s1) \<Rightarrow>
          if currentKey = [] then s1
          else
            (case db_get d ''longTermKeypairs'' [''name''] (Some [(''name'', JStr ''previousKey'')]) None s1 of
               (Inl _, s2) \<Rightarrow> s2
             | (Inr previousKey, s2) \<Rightarrow>
                 (case (if previousKey \<noteq> []
                        then db_deleteEqual d ''longTermKeypairs'' ''name'' (JStr ''previousKey'') s2
                        else (Inr (), s2)) of
                    (Inl _, s3) \<Rightarrow> s3
                  | (Inr _, s3) \<Rightarrow>
                      snd (db_update d ''longTermKeypairs'' [(''name'', JStr ''previousKey'')] ''name''
                             (JStr ''currentKey'') s3))))"

text \<open>\<open>new_pair\<close> is what \<open>generateKeyPair\<close> returned (it throws on an unknown algorithm).\<close>

definition createKeypair ::
  "'s backend \<Rightarrow> bool \<Rightarrow> key_pair result \<Rightarrow> 's \<Rightarrow> key_pair result option \<times> 's" where
  "createKeypair d longTerm new_pair s =
     (case new_pair of
        Inl e \<Rightarrow> (Some (Inl e), s)
      | Inr kp \<Rightarrow>
          (let s1 = (if longTerm then rotate_long_term d s else s);
               cols = [(''keyID'', JStr (keyId kp)), (''public'', JStr (publicKey kp)),
                       (''private'', JStr (privateKey kp))]
           in case db_insert d (if longTerm then ''longTermKeypairs'' else ''shortTermKeypairs'')
                     (if longTerm then cols @ [(''name'', JStr ''currentKey'')] else cols) s1 of
                (Inr _, s2) \<Rightarrow> (Some (Inr kp), s2)
              | (Inl _, s2) \<Rightarrow> (None, s2)))"

definition deleteKey :: "'s backend \<Rightarrow> string \<Rightarrow> 's \<Rightarrow> unit result \<times> 's" where
  "deleteKey d keyID s = swallow (db_deleteEqual d ''shortTermKeypairs'' ''KeyID'' (JStr keyID) s)"

section \<open>Expired rows\<close>

definition cleanByExpires :: "string list" where
  "cleanByExpires = [''oneTimeTokens'', ''attempts'']"

definition vacuum :: "'s backend \<Rightarrow> int \<Rightarrow> 's \<Rightarrow> unit result \<times> 's" where
  "vacuum d now = promise_all (map (\<lambda>table. db_deleteLowerThan d table ''expires'' (JNum now)) cleanByExpires)"

section \<open>What the interface gives the tokens\<close>

lemma length_randomString [simp]: "length (randomString rnd pos n) = n"
  by (simp add: randomString_eq)

definition token_cols :: "string list" where
  "token_cols = [''id'', ''expires'', ''data'']"

definition token_row :: "string \<Rightarrow> int \<Rightarrow> obj \<Rightarrow> obj" where
  "token_row tok expiry data =
     [(''id'', JStr tok), (''expires'', JNum expiry), (''data'', JStr (str_of (JObj data)))]"

definition token_expiry :: "int \<Rightarrow> int option \<Rightarrow> int" where
  "token_expiry now expires =
     now + 1000 * (case expires of Some e \<Rightarrow> if e > 0 then e else 600 | None \<Rightarrow> 600)"

definition token_data :: "obj \<Rightarrow> string \<Rightarrow> obj" where
  "token_data data nextLink = (if nextLink \<noteq> [] then put ''next_link'' (JStr nextLink) data else data)"

lemma complete_token:
  "complete token_cols (stored_obj
     [(''id'', JStr tok), (''expires'', JNum e), (''data'', JStr (str_of (JObj data)))]) = token_row tok e data"
  by (simp add: complete_def token_cols_def stored_obj_def stored_def token_row_def)

context table_db
begin

lemma create_token:
  assumes "wf s" "schema ''oneTimeTokens'' = token_cols"
    "createOneTimeToken d rnd pos now data expires nextLink s = (res, s')"
  shows "wf s' \<and> (healthy s \<longrightarrow> healthy s') \<and>
    (case res of
       None \<Rightarrow> tab s' = tab s
     | Some r \<Rightarrow> r = Inr (randomString rnd pos 64) \<and>
         tab s' = (tab s)(''oneTimeTokens'' := add_mset
           (token_row (randomString rnd pos 64) (token_expiry now expires) (token_data data nextLink))
           (tab s ''oneTimeTokens'')))"
proof -
  let ?vs = "[(''id'', JStr (randomString rnd pos 64)), (''expires'', JNum (token_expiry now expires)),
    (''data'', JStr (str_of (JObj (token_data data nextLink))))]"
  obtain r0 where ins: "db_insert d ''oneTimeTokens'' ?vs s = (r0, s')"
    "res = (case r0 of Inl _ \<Rightarrow> None | Inr _ \<Rightarrow> Some (Inr (randomString rnd pos 64)))"
    using assms(3)
    by (auto simp: createOneTimeToken_def Let_def token_expiry_def token_data_def split: prod.splits sum.splits)
  show ?thesis
    using insert_law [OF assms(1) _ _ _ ins(1)] assms(2) ins(2) complete_token
    by (auto simp: token_cols_def split: sum.splits)
qed

lemma create_token_fresh:
  assumes "wf s" "healthy s" "schema ''oneTimeTokens'' = token_cols" "key ''oneTimeTokens'' = [''id'']"
    "\<And>r. r \<in># tab s ''oneTimeTokens'' \<Longrightarrow> \<not> sql_eq (getp r ''id'') (JStr (randomString rnd pos 64))"
  shows "\<exists>s'. createOneTimeToken d rnd pos now data expires nextLink s = (Some (Inr (randomString rnd pos 64)), s')"
proof -
  let ?vs = "[(''id'', JStr (randomString rnd pos 64)), (''expires'', JNum (token_expiry now expires)),
    (''data'', JStr (str_of (JObj (token_data data nextLink))))]"
  obtain r0 s' where ins: "db_insert d ''oneTimeTokens'' ?vs s = (r0, s')" by fastforce
  have c: "schema ''oneTimeTokens'' \<noteq> []" "?vs \<noteq> []" "set (map fst ?vs) \<subseteq> set (schema ''oneTimeTokens'')"
    by (simp_all add: assms(3) token_cols_def)
  have "getp (complete (schema ''oneTimeTokens'') (stored_obj ?vs)) ''id'' = JStr (randomString rnd pos 64)"
    by (simp add: assms(3) complete_token token_row_def)
  then obtain rows where "r0 = Inr rows"
    using insert_law [OF assms(1) c ins] assms(2,4,5) by (cases r0) auto
  with ins show ?thesis
    by (auto simp: createOneTimeToken_def Let_def token_expiry_def token_data_def)
qed

lemma get_token:
  assumes "wf s" "schema ''oneTimeTokens'' = token_cols"
    "db_get d ''oneTimeTokens'' [''data'', ''expires''] (Some [(''id'', tok)]) None s = (r0, s')"
  shows "wf s' \<and> (healthy s \<longrightarrow> healthy s' \<and> (\<exists>rs. r0 = Inr rs)) \<and> tab s' = tab s \<and>
    (\<forall>rs. r0 = Inr rs \<longrightarrow> mset rs = {# project [''data'', ''expires''] r.
       r \<in># {# r \<in># tab s ''oneTimeTokens''. matches [(''id'', tok)] r #} #})"
proof (cases r0)
  case (Inl e)
  then show ?thesis using get_one_Inl [OF assms(3) [unfolded Inl]] assms(1,2) by (simp add: token_cols_def)
next
  case (Inr rs)
  then show ?thesis using get_one_Inr [OF assms(3) [unfolded Inr]] assms(1,2) by (simp add: token_cols_def)
qed

lemma verify_token_frame:
  assumes "wf s" "schema ''oneTimeTokens'' = token_cols" "verifyToken d now tok s = (res, s')"
  shows "wf s' \<and> (healthy s \<longrightarrow> healthy s') \<and> tab s' = tab s"
proof -
  obtain r0 where "db_get d ''oneTimeTokens'' [''data'', ''expires''] (Some [(''id'', tok)]) None s = (r0, s')"
    using assms(3) by (auto simp: verifyToken_def split: prod.splits sum.splits list.splits if_splits)
  from get_token [OF assms(1,2) this] show ?thesis by blast
qed

text \<open>A token without a row is refused, whatever the time.\<close>

lemma verify_token_unknown:
  assumes "wf s" "schema ''oneTimeTokens'' = token_cols" "tok \<noteq> []"
    "\<And>r. r \<in># tab s ''oneTimeTokens'' \<Longrightarrow> \<not> sql_eq (getp r ''id'') (JStr tok)"
  shows "\<exists>e. fst (verifyToken d now (JStr tok) s) = Inl e"
proof -
  obtain r0 s' where g:
    "db_get d ''oneTimeTokens'' [''data'', ''expires''] (Some [(''id'', JStr tok)]) None s = (r0, s')"
    by fastforce
  have e: "{# r \<in># tab s ''oneTimeTokens''. matches [(''id'', JStr tok)] r #} = {#}"
    using assms(3,4) by (auto simp: matches_one filter_mset_eq_conv)
  have "rs = []" if "r0 = Inr rs" for rs
  proof -
    have "mset rs = image_mset (project [''data'', ''expires''])
        {# r \<in># tab s ''oneTimeTokens''. matches [(''id'', JStr tok)] r #}"
      using get_token [OF assms(1,2) g] that by blast
    then show ?thesis by (simp only: e) simp
  qed
  then show ?thesis using g by (cases r0) (auto simp: verifyToken_def)
qed

text \<open>The row of a token decides: its data before the expiry, a rejection after it.\<close>

lemma verify_token_row:
  assumes "wf s" "healthy s" "schema ''oneTimeTokens'' = token_cols" "key ''oneTimeTokens'' = [''id'']"
    "tok \<noteq> []" "token_row tok expiry data \<in># tab s ''oneTimeTokens''" "json_value (JObj data)"
  shows "fst (verifyToken d now (JStr tok) s) =
    (if now \<le> expiry then Inr (JObj data) else Inl (Err (''Token expired'' @ int_str expiry)))"
proof -
  obtain r0 s' where g:
    "db_get d ''oneTimeTokens'' [''data'', ''expires''] (Some [(''id'', JStr tok)]) None s = (r0, s')"
    by fastforce
  have "{# r \<in># tab s ''oneTimeTokens''. sql_eq (getp r ''id'') (JStr tok) #} = {#token_row tok expiry data#}"
    using assms(1,4,6) by (intro key_unique_rows) (simp_all add: token_row_def sql_eq_def)
  then have "mset rs = {#project [''data'', ''expires''] (token_row tok expiry data)#}" if "r0 = Inr rs" for rs
    using that get_token [OF assms(1,3) g] assms(5) by (simp add: matches_one)
  moreover obtain rs where rs: "r0 = Inr rs" using get_token [OF assms(1,3) g] assms(2) by blast
  ultimately have "rs = [project [''data'', ''expires''] (token_row tok expiry data)]" by simp
  then show ?thesis
    using g rs assms(7) by (simp add: verifyToken_def project_def token_row_def parse_col_def json_parse_str_of)
qed

lemma verify_one_time:
  assumes "wf s" "schema ''oneTimeTokens'' = token_cols" "tok \<noteq> []"
    "verifyOneTimeToken d now tok s = (Inr v, s')"
  shows "wf s' \<and> (healthy s \<longrightarrow> healthy s') \<and> fst (verifyToken d now (JStr tok) s) = Inr v \<and>
    (tab s' = (tab s)(''oneTimeTokens'' :=
      {# r \<in># tab s ''oneTimeTokens''. \<not> sql_eq (getp r ''id'') (JStr tok) #}) \<or> \<not> healthy s \<and> tab s' = tab s)"
proof -
  obtain s1 where v: "verifyToken d now (JStr tok) s = (Inr v, s1)" "s' = snd (deleteToken d (JStr tok) s1)"
    using assms(4) by (auto simp: verifyOneTimeToken_def split: prod.splits sum.splits)
  have f: "wf s1" "healthy s \<longrightarrow> healthy s1" "tab s1 = tab s" using verify_token_frame [OF assms(1,2) v(1)] by auto
  obtain r1 s2 where del: "db_deleteEqual d ''oneTimeTokens'' ''id'' (JStr tok) s1 = (r1, s2)" by fastforce
  have "''id'' \<in> set (schema ''oneTimeTokens'')" using assms(2) by (simp add: token_cols_def)
  note dl = delete_law [OF f(1) this del]
  have s': "s' = s2" using v(2) del by (simp add: deleteToken_def swallow_def split: sum.splits)
  show ?thesis
    using dl f assms(3) v(1) unfolding s' by (cases r1) (auto simp: bad_condition_def)
qed

end


text \<open>
  What the long term table holds after a rotation and the insertion of a pair: the old current
  row under the name of the previous one, and the new row; every other row stays.
\<close>

definition named :: "string \<Rightarrow> obj \<Rightarrow> bool" where
  "named n r = sql_eq (getp r ''name'') (JStr n)"

definition pair_row :: "key_pair \<Rightarrow> obj" where
  "pair_row kp = [(''name'', JStr ''currentKey''), (''keyID'', JStr (keyId kp)),
     (''public'', JStr (publicKey kp)), (''private'', JStr (privateKey kp))]"

definition long_term_cols :: "string list" where
  "long_term_cols = [''name'', ''keyID'', ''public'', ''private'']"

definition rotated :: "obj multiset \<Rightarrow> obj multiset" where
  "rotated rows =
     (if {# r \<in># rows. named ''currentKey'' r #} = {#} then rows
      else {# if named ''currentKey'' r then assign [(''name'', JStr ''previousKey'')] r else r.
              r \<in># {# r \<in># rows. \<not> named ''previousKey'' r #} #})"

context table_db
begin

lemma get_named:
  assumes "wf s" "healthy s" "schema ''longTermKeypairs'' = long_term_cols"
  shows "\<exists>rs s'. db_get d ''longTermKeypairs'' [''name''] (Some [(''name'', JStr n)]) None s = (Inr rs, s') \<and>
    wf s' \<and> healthy s' \<and> tab s' = tab s \<and>
    (n \<noteq> [] \<longrightarrow> (rs = []) = ({# r \<in># tab s ''longTermKeypairs''. named n r #} = {#}))"
proof -
  obtain r0 s' where g: "db_get d ''longTermKeypairs'' [''name''] (Some [(''name'', JStr n)]) None s = (r0, s')"
    by fastforce
  show ?thesis
  proof (cases r0)
    case (Inl e)
    then show ?thesis using get_one_Inl [OF g [unfolded Inl]] assms by (simp add: long_term_cols_def)
  next
    case (Inr rs)
    have m: "wf s'" "healthy s'" "tab s' = tab s"
      "mset rs = {# project [''name''] r. r \<in># {# r \<in># tab s ''longTermKeypairs''. matches [(''name'', JStr n)] r #} #}"
      using get_one_Inr [OF g [unfolded Inr]] assms by (simp_all add: long_term_cols_def)
    have "(rs = []) = ({# r \<in># tab s ''longTermKeypairs''. named n r #} = {#})" if "n \<noteq> []"
    proof -
      have "(\<lambda>r. matches [(''name'', JStr n)] r) = named n"
        using that by (auto simp: fun_eq_iff matches_one named_def)
      then have "mset rs = {# project [''name''] r. r \<in># {# r \<in># tab s ''longTermKeypairs''. named n r #} #}"
        using m(4) by simp
      then show ?thesis by (metis image_mset_is_empty_iff mset_zero_iff)
    qed
    with m g Inr show ?thesis by blast
  qed
qed

lemma rotate_previous_gone:
  assumes "wf s" "healthy s" "schema ''longTermKeypairs'' = long_term_cols"
    "key ''longTermKeypairs'' = [''name'']"
    "\<And>r. r \<in># tab s ''longTermKeypairs'' \<Longrightarrow> \<not> named ''previousKey'' r"
    "db_update d ''longTermKeypairs'' [(''name'', JStr ''previousKey'')] ''name'' (JStr ''currentKey'') s = (res, s')"
  shows "wf s' \<and> healthy s' \<and> tab s' = (tab s)(''longTermKeypairs'' :=
    {# if named ''currentKey'' r then assign [(''name'', JStr ''previousKey'')] r else r.
       r \<in># tab s ''longTermKeypairs'' #})"
proof -
  let ?t = "''longTermKeypairs''" and ?vs = "[(''name'', JStr ''previousKey'')]"
  let ?f = "\<lambda>r. if sql_eq (getp r ''name'') (JStr ''currentKey'') then assign ?vs r else r"
  have sv: "stored_obj ?vs = ?vs" by (simp add: stored_obj_def stored_def)
  have c: "schema ?t \<noteq> []" "?vs \<noteq> []" "set (''name'' # map fst ?vs) \<subseteq> set (schema ?t)"
    using assms(3) by (auto simp: long_term_cols_def)
  note law = update_law [OF assms(1) c assms(6), unfolded sv]
  have "\<not> 1 < size {# r \<in># {# ?f r. r \<in># tab s ?t #}. sql_eq (getp r ''name'') w #}" for w
  proof (cases "sql_eq (JStr ''previousKey'') w")
    case True
    have a: "getp (assign ?vs r) ''name'' = JStr ''previousKey''" if "r \<in># tab s ?t" for r
    proof -
      have "map fst r = schema ?t" using row_cols [OF assms(1) that] .
      then obtain v rest where "r = (''name'', v) # rest" using assms(3) by (cases r) (auto simp: long_term_cols_def)
      then show ?thesis by (simp add: assign_def)
    qed
    have "sql_eq (getp (?f r) ''name'') w = named ''currentKey'' r" if "r \<in># tab s ?t" for r
      using a [OF that] assms(5) [OF that] True
      by (auto simp: named_def sql_eq_def)
    then have "{# r \<in># {# ?f r. r \<in># tab s ?t #}. sql_eq (getp r ''name'') w #} =
        image_mset ?f {# r \<in># tab s ?t. named ''currentKey'' r #}"
      by (simp add: filter_mset_image_mset cong: filter_mset_cong)
    then show ?thesis
      using key_unique [OF assms(1,4), of "JStr ''currentKey''"] by (simp add: named_def)
  next
    case False
    have "sql_eq (getp (?f r) ''name'') w \<Longrightarrow> sql_eq (getp r ''name'') w" if "r \<in># tab s ?t" for r
    proof -
      have "map fst r = schema ?t" using row_cols [OF assms(1) that] .
      then obtain v rest where "r = (''name'', v) # rest" using assms(3) by (cases r) (auto simp: long_term_cols_def)
      then show "sql_eq (getp (?f r) ''name'') w \<Longrightarrow> sql_eq (getp r ''name'') w"
        using False by (auto simp: assign_def split: if_splits)
    qed
    then have "size {# r \<in># {# ?f r. r \<in># tab s ?t #}. sql_eq (getp r ''name'') w #} \<le>
        size {# r \<in># tab s ?t. sql_eq (getp r ''name'') w #}"
      by (simp add: filter_mset_image_mset size_filter_mono)
    then show ?thesis using key_unique [OF assms(1,4), of w] by linarith
  qed
  then show ?thesis using law assms(2,4) by (cases res) (auto simp: named_def)
qed

lemma rotate_spec:
  assumes "wf s" "healthy s" "schema ''longTermKeypairs'' = long_term_cols"
    "key ''longTermKeypairs'' = [''name'']"
  shows "wf (rotate_long_term d s) \<and> healthy (rotate_long_term d s) \<and>
    tab (rotate_long_term d s) = (tab s)(''longTermKeypairs'' := rotated (tab s ''longTermKeypairs''))"
proof -
  let ?t = "''longTermKeypairs''"
  obtain cur s1 where g1: "db_get d ?t [''name''] (Some [(''name'', JStr ''currentKey'')]) None s = (Inr cur, s1)"
    "wf s1" "healthy s1" "tab s1 = tab s"
    "(cur = []) = ({# r \<in># tab s ?t. named ''currentKey'' r #} = {#})"
    using get_named [OF assms(1-3), of "''currentKey''"] by auto
  show ?thesis
  proof (cases "cur = []")
    case True
    then show ?thesis using g1 by (simp add: rotate_long_term_def rotated_def)
  next
    case False
    obtain prv s2 where g2: "db_get d ?t [''name''] (Some [(''name'', JStr ''previousKey'')]) None s1 = (Inr prv, s2)"
      "wf s2" "healthy s2" "tab s2 = tab s"
      "(prv = []) = ({# r \<in># tab s ?t. named ''previousKey'' r #} = {#})"
      using get_named [OF g1(2,3) assms(3), of "''previousKey''"] g1(4) by auto
    define s3 where "s3 = (if prv \<noteq> [] then snd (db_deleteEqual d ?t ''name'' (JStr ''previousKey'') s2) else s2)"
    have del: "fst (if prv \<noteq> [] then db_deleteEqual d ?t ''name'' (JStr ''previousKey'') s2 else (Inr (), s2)) = Inr ()
        \<and> wf s3 \<and> healthy s3 \<and> tab s3 = (tab s)(?t := {# r \<in># tab s ?t. \<not> named ''previousKey'' r #})"
    proof (cases "prv = []")
      case True
      then have "{# r \<in># tab s ?t. \<not> named ''previousKey'' r #} = tab s ?t"
        using g2(5) by (simp add: filter_mset_eq_conv)
      with True g2 show ?thesis by (simp add: s3_def)
    next
      case False
      obtain r0 s' where e: "db_deleteEqual d ?t ''name'' (JStr ''previousKey'') s2 = (r0, s')" by fastforce
      have "''name'' \<in> set (schema ?t)" using assms(3) by (simp add: long_term_cols_def)
      from delete_law [OF g2(2) this e] g2 False e show ?thesis
        by (auto simp: s3_def bad_condition_def named_def split: sum.splits)
    qed
    obtain r4 s4 where up: "db_update d ?t [(''name'', JStr ''previousKey'')] ''name'' (JStr ''currentKey'') s3 = (r4, s4)"
      by fastforce
    have np: "\<And>r. r \<in># tab s3 ?t \<Longrightarrow> \<not> named ''previousKey'' r" using del by auto
    have "rotate_long_term d s = s4"
      using g1(1) g2(1) False del up
      by (cases "prv = []") (auto simp: rotate_long_term_def s3_def split: prod.splits sum.splits)
    moreover have "wf s4 \<and> healthy s4 \<and> tab s4 = (tab s3)(?t :=
        {# if named ''currentKey'' r then assign [(''name'', JStr ''previousKey'')] r else r. r \<in># tab s3 ?t #})"
      using del np by (intro rotate_previous_gone [OF _ _ assms(3,4) _ up]) auto
    moreover have "{# r \<in># tab s ?t. named ''currentKey'' r #} \<noteq> {#}" using g1(5) False by blast
    ultimately show ?thesis using del unfolding rotated_def by (simp only: if_False) simp
  qed
qed

lemma rotated_no_current:
  assumes "\<And>r. r \<in># rows \<Longrightarrow> map fst r = long_term_cols" "r \<in># rotated rows"
  shows "\<not> named ''currentKey'' r"
proof (cases "{# r \<in># rows. named ''currentKey'' r #} = {#}")
  case True
  then show ?thesis using assms(2) by (auto simp: rotated_def)
next
  case False
  then have "rotated rows = {# if named ''currentKey'' r then assign [(''name'', JStr ''previousKey'')] r else r.
      r \<in># {# r \<in># rows. \<not> named ''previousKey'' r #} #}"
    by (simp only: rotated_def if_False)
  then obtain r0 where r0: "r0 \<in># rows"
    "r = (if named ''currentKey'' r0 then assign [(''name'', JStr ''previousKey'')] r0 else r0)"
    using assms(2) by fastforce
  obtain v rest where "r0 = (''name'', v) # rest"
    using assms(1) [OF r0(1)] by (cases r0) (auto simp: long_term_cols_def)
  then show ?thesis using r0(2) by (auto simp: assign_def named_def sql_eq_def)
qed

lemma create_long_term:
  assumes "wf s" "healthy s" "schema ''longTermKeypairs'' = long_term_cols"
    "key ''longTermKeypairs'' = [''name'']" "createKeypair d True (Inr kp) s = (res, s')"
  shows "res = Some (Inr kp) \<and> wf s' \<and> healthy s' \<and> tab s' = (tab s)(''longTermKeypairs'' :=
    add_mset (pair_row kp) (rotated (tab s ''longTermKeypairs'')))"
proof -
  let ?t = "''longTermKeypairs''"
  let ?vs = "[(''keyID'', JStr (keyId kp)), (''public'', JStr (publicKey kp)),
      (''private'', JStr (privateKey kp)), (''name'', JStr ''currentKey'')]"
  define s1 where "s1 = rotate_long_term d s"
  have s1: "wf s1" "healthy s1" "tab s1 = (tab s)(?t := rotated (tab s ?t))"
    using rotate_spec [OF assms(1-4)] by (simp_all add: s1_def)
  obtain r0 s2 where ins: "db_insert d ?t ?vs s1 = (r0, s2)" by fastforce
  have row: "complete (schema ?t) (stored_obj ?vs) = pair_row kp"
    by (simp add: assms(3) long_term_cols_def complete_def stored_obj_def stored_def pair_row_def)
  have c: "schema ?t \<noteq> []" "?vs \<noteq> []" "set (map fst ?vs) \<subseteq> set (schema ?t)"
    using assms(3) by (auto simp: long_term_cols_def)
  have "\<not> named ''currentKey'' r" if "r \<in># tab s1 ?t" for r
    using that rotated_no_current [of "tab s ?t" r] row_cols [OF assms(1), of _ ?t] assms(3) s1(3) by simp
  then have "\<not> (\<exists>r \<in># tab s1 ?t. sql_eq (getp r ''name'') (getp (pair_row kp) ''name''))"
    by (simp add: pair_row_def named_def)
  with insert_law [OF s1(1) c ins] row s1(2,3) assms(4) ins assms(5)
  show ?thesis by (cases r0) (auto simp: createKeypair_def s1_def [symmetric] Let_def)
qed

text \<open>The clean-up removes the rows that expired before \<open>now\<close> and nothing else.\<close>

lemma vacuum_rows:
  assumes "wf s" "healthy s" "''expires'' \<in> set (schema ''oneTimeTokens'')"
    "''expires'' \<in> set (schema ''attempts'')" "now \<noteq> 0" "vacuum d now s = (res, s')"
  shows "res = Inr () \<and> wf s' \<and> healthy s' \<and> tab s' = (tab s)
    (''oneTimeTokens'' := {# r \<in># tab s ''oneTimeTokens''. \<not> sql_less (getp r ''expires'') (JNum now) #},
     ''attempts'' := {# r \<in># tab s ''attempts''. \<not> sql_less (getp r ''expires'') (JNum now) #})"
proof -
  have ok: "\<not> bad_condition ''expires'' (JNum now)"
    using assms(5) by (cases "now < 0") (auto simp: bad_condition_def int_str_def)
  obtain r1 s1 where a: "db_deleteLowerThan d ''oneTimeTokens'' ''expires'' (JNum now) s = (r1, s1)" by fastforce
  obtain r2 s2 where b: "db_deleteLowerThan d ''attempts'' ''expires'' (JNum now) s1 = (r2, s2)" by fastforce
  note l1 = delete_lower_law [OF assms(1,3) a]
  have s1: "r1 = Inr ()" "wf s1" "healthy s1" "tab s1 = (tab s)(''oneTimeTokens'' :=
      {# r \<in># tab s ''oneTimeTokens''. \<not> sql_less (getp r ''expires'') (JNum now) #})"
    using l1 ok assms(2) by (cases r1; simp)+
  note l2 = delete_lower_law [OF s1(2) assms(4) b]
  have s2: "r2 = Inr ()" "wf s2" "healthy s2" "tab s2 = (tab s1)(''attempts'' :=
      {# r \<in># tab s1 ''attempts''. \<not> sql_less (getp r ''expires'') (JNum now) #})"
    using l2 ok s1(3) by (cases r2; simp)+
  show ?thesis using assms(6) a b s1 s2 by (auto simp: vacuum_def cleanByExpires_def)
qed

end

section \<open>Properties\<close>

definition tom_tables :: "(string \<times> string) list" where
  "tom_tables = merged_tables (Some tom_additional_tables)"

text \<open>The columns and the key of every table, read off the statements that create them.\<close>

definition tom_layout :: "(string \<times> string list \<times> string list) list" where
  "tom_layout =
    [(''accessTokens'', [''id'', ''data''], [''id'']),
     (''attempts'', [''email'', ''expires'', ''attempt''], [''email'']),
     (''oneTimeTokens'', [''id'', ''expires'', ''data''], [''id'']),
     (''hashes'', [''hash'', ''pepper'', ''type'', ''value'', ''active''], [''hash'']),
     (''invitationTokens'', [''id'', ''address'', ''data''], [''id'']),
     (''keys'', [''name'', ''data''], [''name'']),
     (''longTermKeypairs'', [''name'', ''keyID'', ''public'', ''private''], [''name'']),
     (''mappings'', [''client_secret'', ''session_id'', ''medium'', ''valid'', ''address'', ''submit_time'', ''send_attempt''], [''client_secret'']),
     (''shortTermKeypairs'', [''keyID'', ''public'', ''private'', ''active''], [''keyID'']),
     (''userHistory'', [''address'', ''active'', ''timestamp''], [''address'']),
     (''userPolicies'', [''user_id'', ''policy_name'', ''accepted''], []),
     (''userQuotas'', [''user_id'', ''size''], [''user_id'']),
     (''invitations'', [''id'', ''sender'', ''recipient'', ''medium'', ''expiration'', ''accessed'', ''room_id'', ''matrix_id''], [''id'']),
     (''addressbooks'', [''id'', ''owner''], [''id'']),
     (''contacts'', [''id'', ''addressbook_id'', ''mxid'', ''display_name'', ''active''], [''id'']),
     (''recoveryWords'', [''userId'', ''words''], [''userId'']),
     (''matrixTokens'', [''id'', ''data''], [''id'']),
     (''rooms'', [''id'', ''filter''], [''id'']),
     (''usersettings'', [''matrix_id'', ''settings'', ''version''], [''matrix_id'']),
     (''profileSettings'', [''matrix_id'', ''visibility'', ''visible_fields''], [''matrix_id''])]"

lemma tom_layout_read: "map (\<lambda>(t, ddl). (t, col_names ddl, pk_of ddl)) tom_tables = tom_layout"
  by code_simp

definition tom_store :: store where
  "tom_store = \<lparr>tabs = map (\<lambda>(t, c, k). (t, \<lparr>t_cols = c, t_pkey = k, t_rows = []\<rparr>)) tom_layout, faults = []\<rparr>"

lemma tom_store_empty: "tom_store = empty_store tom_tables"
  by (simp add: tom_store_def empty_store_def tom_layout_read [symmetric] case_prod_unfold comp_def)

lemma tom_schema: "schema_of tom_tables t = (case map_of tom_layout t of None \<Rightarrow> [] | Some (c, k) \<Rightarrow> c)"
  and tom_key: "key_of tom_tables t = (case map_of tom_layout t of None \<Rightarrow> [] | Some (c, k) \<Rightarrow> k)"
proof -
  have "map_of (map (\<lambda>(t, ddl). (t, col_names ddl, pk_of ddl)) conf) t =
      map_option (\<lambda>ddl. (col_names ddl, pk_of ddl)) (map_of conf t)" for conf
    by (induction conf) auto
  then have "map_of tom_layout t = map_option (\<lambda>ddl. (col_names ddl, pk_of ddl)) (map_of tom_tables t)"
    unfolding tom_layout_read [symmetric] .
  then show "schema_of tom_tables t = (case map_of tom_layout t of None \<Rightarrow> [] | Some (c, k) \<Rightarrow> c)"
    "key_of tom_tables t = (case map_of tom_layout t of None \<Rightarrow> [] | Some (c, k) \<Rightarrow> k)"
    by (simp_all add: schema_of_def key_of_def split: option.splits)
qed

lemma tom_store_wf: "store_wf tom_tables tom_store"
proof -
  have "list_all2 (\<lambda>(t, ddl) (t', tb). table_wf ddl tb) tom_tables (tabs (empty_store tom_tables))" for conf
    by (simp add: empty_store_def list.rel_map case_prod_unfold table_wf_def keys_of_def list.rel_refl split: option.split)
  moreover have "list_all (\<lambda>(t, c, k). list_all plain_col c \<and> distinct c) tom_layout" "''sqlite_master'' \<notin> set (map fst tom_layout)"
    "distinct (map fst tom_layout)"
    by code_simp+
  ultimately show ?thesis
    unfolding store_wf_def tom_store_empty tom_layout_read [symmetric]
    by (simp add: empty_store_def comp_def case_prod_unfold list_all_iff)
qed

lemma tom_store_rows: "rows_of tom_store t = {#}" "faults tom_store = []"
proof -
  have "map_of (tabs (empty_store conf)) t = Some tb \<Longrightarrow> t_rows tb = []" for conf tb
    by (induction conf) (auto simp: empty_store_def split: if_splits)
  then show "rows_of tom_store t = {#}" by (auto simp: rows_of_def tom_store_empty split: option.splits)
qed (simp add: tom_store_def)

lemma tom_schema_tokens: "schema_of tom_tables ''oneTimeTokens'' = token_cols"
  unfolding tom_schema by code_simp

lemma tom_key_tokens: "key_of tom_tables ''oneTimeTokens'' = [''id'']"
  unfolding tom_key by code_simp

lemma tom_schema_pairs: "schema_of tom_tables ''longTermKeypairs'' = long_term_cols"
  unfolding tom_schema by code_simp

lemma tom_key_pairs: "key_of tom_tables ''longTermKeypairs'' = [''name'']"
  unfolding tom_key by code_simp

lemma tom_expires:
  "''expires'' \<in> set (schema_of tom_tables ''oneTimeTokens'')" "''expires'' \<in> set (schema_of tom_tables ''attempts'')"
  unfolding tom_schema by code_simp+

text \<open>
  A database opened with these tables: any backend that keeps the laws of the interface.  The
  in-memory engine behind the code's own statements is one, under either class.
\<close>

abbreviation tom_database ::
  "'s backend \<Rightarrow> ('s \<Rightarrow> bool) \<Rightarrow> ('s \<Rightarrow> bool) \<Rightarrow> ('s \<Rightarrow> string \<Rightarrow> obj multiset) \<Rightarrow> bool" where
  "tom_database d ok healthy tab \<equiv> table_db d ok healthy tab (schema_of tom_tables) (key_of tom_tables)"

lemma mem_tom: "tom_database (mem_db dia) (store_wf tom_tables) store_healthy rows_of"
  by (rule mem.table_db_axioms)

text \<open>A small database: one stored token and one stored pair.\<close>

definition pair_a :: key_pair where
  "pair_a = \<lparr>publicKey = ''pa'', privateKey = ''sa'', keyId = ''ed25519:a''\<rparr>"

definition pair_b :: key_pair where
  "pair_b = \<lparr>publicKey = ''pb'', privateKey = ''sb'', keyId = ''ed25519:b''\<rparr>"

definition demo_db :: store where
  "demo_db = with_rows (with_rows tom_store ''oneTimeTokens''
       [token_row ''tok'' 5000 [(''a'', JNum 1)]])
     ''longTermKeypairs'' [pair_row pair_a]"

lemma demo_db_facts: "store_wf tom_tables demo_db" "faults demo_db = []"
  "rows_of demo_db = (\<lambda>t. {#})(''oneTimeTokens'' := {#token_row ''tok'' 5000 [(''a'', JNum 1)]#},
     ''longTermKeypairs'' := {#pair_row pair_a#})"
proof -
  let ?s = "with_rows tom_store ''oneTimeTokens'' [token_row ''tok'' 5000 [(''a'', JNum 1)]]"
  have t: "store_wf tom_tables ?s" "rows_of ?s = (rows_of tom_store)(''oneTimeTokens'' := mset [token_row ''tok'' 5000 [(''a'', JNum 1)]])"
    "faults ?s = faults tom_store"
    by (rule with_rows_ok [OF tom_store_wf]; simp add: tom_schema_tokens tom_key_tokens token_cols_def token_row_def keys_of_def)+
  have p: "store_wf tom_tables demo_db" "rows_of demo_db = (rows_of ?s)(''longTermKeypairs'' := mset [pair_row pair_a])"
    "faults demo_db = faults ?s"
    unfolding demo_db_def
    by (rule with_rows_ok [OF t(1)]; simp add: tom_schema_pairs tom_key_pairs long_term_cols_def pair_row_def keys_of_def)+
  show "store_wf tom_tables demo_db" "faults demo_db = []"
    "rows_of demo_db = (\<lambda>t. {#})(''oneTimeTokens'' := {#token_row ''tok'' 5000 [(''a'', JNum 1)]#},
       ''longTermKeypairs'' := {#pair_row pair_a#})"
    using t p by (auto simp: tom_store_rows fun_eq_iff)
qed

lemmas demo_db_wf = demo_db_facts(1)

lemma demo_db_healthy: "store_healthy demo_db"
  by (simp add: store_healthy_def demo_db_facts)

lemma demo_db_tokens: "rows_of demo_db ''oneTimeTokens'' = {#token_row ''tok'' 5000 [(''a'', JNum 1)]#}"
  by (simp add: demo_db_facts)

lemma demo_db_pairs: "rows_of demo_db ''longTermKeypairs'' = {#pair_row pair_a#}"
  by (simp add: demo_db_facts)

text \<open>
  A token is accepted until its expiry and refused afterwards: the identifier returned by
  \<open>createOneTimeToken\<close> gives back the data it was created for (with the next link, if any) as long
  as \<open>now' \<le> now + 1000 * expires\<close> (600 when none or no positive delay is given), and is rejected as
  expired from then on.
\<close>

theorem token_lifetime:
  assumes "tom_database d ok healthy tab" "ok s" "healthy s" "json_value (JObj (token_data data nextLink))"
    "\<And>r. r \<in># tab s ''oneTimeTokens'' \<Longrightarrow> \<not> sql_eq (getp r ''id'') (JStr (randomString rnd pos 64))"
  shows "\<exists>s'. createOneTimeToken d rnd pos now data expires nextLink s =
      (Some (Inr (randomString rnd pos 64)), s') \<and>
    (\<forall>now'. fst (verifyToken d now' (JStr (randomString rnd pos 64)) s') =
      (if now' \<le> token_expiry now expires then Inr (JObj (token_data data nextLink))
       else Inl (Err (''Token expired'' @ int_str (token_expiry now expires)))))"
proof -
  let ?tok = "randomString rnd pos 64"
  obtain s' where e: "createOneTimeToken d rnd pos now data expires nextLink s = (Some (Inr ?tok), s')"
    using table_db.create_token_fresh [OF assms(1) assms(2,3) tom_schema_tokens tom_key_tokens assms(5)] by blast
  note c = table_db.create_token [OF assms(1) assms(2) tom_schema_tokens e]
  have "length ?tok = 64" by simp
  then have "?tok \<noteq> []" by (metis length_0_conv numeral_neq_zero)
  with c assms(3,4) have "fst (verifyToken d now' (JStr ?tok) s') =
      (if now' \<le> token_expiry now expires then Inr (JObj (token_data data nextLink))
       else Inl (Err (''Token expired'' @ int_str (token_expiry now expires))))" for now'
    by (intro table_db.verify_token_row [OF assms(1) _ _ tom_schema_tokens tom_key_tokens]) auto
  with e show ?thesis by blast
qed

theorem token_lifetime_witness:
  "\<exists>tok s'. createOneTimeToken (mem_db SQLITE) (\<lambda>_. CHR ''k'') 0 1000 [(''sid'', JStr ''x'')] (Some 60) [] demo_db =
       (Some (Inr tok), s') \<and>
     fst (verifyToken (mem_db SQLITE) 61000 (JStr tok) s') = Inr (JObj [(''sid'', JStr ''x'')]) \<and>
     fst (verifyToken (mem_db SQLITE) 61001 (JStr tok) s') = Inl (Err ''Token expired61000'')"
proof -
  have j: "json_value (JObj (token_data [(''sid'', JStr ''x'')] []))" by (simp add: token_data_def)
  have x: "token_expiry 1000 (Some 60) = 61000" by (simp add: token_expiry_def)
  have i: "int_str 61000 = ''61000''" by (simp add: int_str_def nat_str.simps digit_char_eval)
  have f: "\<not> sql_eq (getp r ''id'') (JStr (randomString (\<lambda>_. CHR ''k'') 0 64))"
    if "r \<in># rows_of demo_db ''oneTimeTokens''" for r
  proof -
    have "length ''tok'' \<noteq> length (randomString (\<lambda>_. CHR ''k'') 0 64)" by simp
    then have "''tok'' \<noteq> randomString (\<lambda>_. CHR ''k'') 0 64" by metis
    with that show ?thesis by (simp add: demo_db_tokens token_row_def sql_eq_def)
  qed
  show ?thesis
    using token_lifetime [OF mem_tom demo_db_wf demo_db_healthy j f, of SQLITE 1000 "Some 60"]
    by (auto simp: x i token_data_def)
qed

text \<open>
  C28: A non-empty one-time token can be used once: when \<open>verifyOneTimeToken\<close> accepts a token, then its
  row is gone, every other token is still there, and no later call, at any time, accepts it again;
  the one exception is a database that refuses the deletion, which \<open>deleteToken\<close> hides: the tables
  are then as before and the token can be used again.
\<close>

theorem one_time_token_single_use:
  assumes "tom_database d ok healthy tab" "ok s" "tok \<noteq> []"
    "verifyOneTimeToken d now tok s = (Inr v, s')"
  shows "fst (verifyToken d now (JStr tok) s) = Inr v \<and>
    (tab s' = (tab s)(''oneTimeTokens'' :=
        {# r \<in># tab s ''oneTimeTokens''. \<not> sql_eq (getp r ''id'') (JStr tok) #}) \<and>
      (\<exists>e. fst (verifyToken d now' (JStr tok) s') = Inl e) \<or>
     \<not> healthy s \<and> tab s' = tab s)"
proof -
  note u = table_db.verify_one_time [OF assms(1) assms(2) tom_schema_tokens assms(3,4)]
  show ?thesis
  proof (cases "tab s' = (tab s)(''oneTimeTokens'' :=
      {# r \<in># tab s ''oneTimeTokens''. \<not> sql_eq (getp r ''id'') (JStr tok) #})")
    case True
    then have "\<not> sql_eq (getp r ''id'') (JStr tok)" if "r \<in># tab s' ''oneTimeTokens''" for r
      using that by auto
    then have "\<exists>e. fst (verifyToken d now' (JStr tok) s') = Inl e"
      using u assms(3) by (intro table_db.verify_token_unknown [OF assms(1) _ tom_schema_tokens]) auto
    with u True show ?thesis by blast
  next
    case False
    with u show ?thesis by blast
  qed
qed

theorem one_time_token_single_use_witness:
  "\<exists>s'. verifyOneTimeToken (mem_db PG) 4000 ''tok'' demo_db = (Inr (JObj [(''a'', JNum 1)]), s') \<and>
     (\<exists>e. fst (verifyToken (mem_db PG) 0 (JStr ''tok'') s') = Inl e)"
proof -
  let ?r = "verifyOneTimeToken (mem_db PG) 4000 ''tok'' demo_db"
  have f: "fst ?r = Inr (JObj [(''a'', JNum 1)])" by code_simp
  then have r: "?r = (Inr (JObj [(''a'', JNum 1)]), snd ?r)" by (metis prod.collapse)
  have "\<exists>e. fst (verifyToken (mem_db PG) 0 (JStr ''tok'') (snd ?r)) = Inl e"
    using one_time_token_single_use [OF mem_tom demo_db_wf _ r, of 0] demo_db_healthy by simp
  with r show ?thesis by blast
qed

text \<open>
  An empty token is accepted whenever an unexpired token is stored: the filter on the empty
  identifier is dropped, the query returns all tokens, and the first one decides.
\<close>

theorem empty_token_accepted:
  assumes "tom_database d ok healthy tab" "ok s" "healthy s" "tab s ''oneTimeTokens'' \<noteq> {#}"
    "\<And>r. r \<in># tab s ''oneTimeTokens'' \<Longrightarrow>
       \<exists>tok expiry data. r = token_row tok expiry data \<and> now \<le> expiry \<and> json_value (JObj data)"
  shows "\<exists>v. fst (verifyToken d now (JStr []) s) = Inr v"
proof -
  obtain r0 s' where g: "db_get d ''oneTimeTokens'' [''data'', ''expires'']
      (Some [(''id'', JStr [])]) None s = (r0, s')"
    by fastforce
  note t = table_db.get_token [OF assms(1) assms(2) tom_schema_tokens g]
  have m: "matches [(''id'', JStr [])] = (\<lambda>_. True)" by (rule ext) (simp add: table_db.matches_one [OF assms(1)])
  obtain rs where rs: "r0 = Inr rs" using t assms(3) by blast
  then have "mset rs = {# project [''data'', ''expires''] r. r \<in># tab s ''oneTimeTokens'' #}"
    using t by (simp add: m)
  moreover from this obtain row rest where row: "rs = row # rest" using assms(4) by (cases rs) auto
  ultimately have "row \<in># {# project [''data'', ''expires''] r. r \<in># tab s ''oneTimeTokens'' #}"
    by (metis list.set_intros(1) set_mset_mset)
  then obtain r where "r \<in># tab s ''oneTimeTokens''" "row = project [''data'', ''expires''] r" by auto
  with assms(5) obtain tok expiry data where "row = project [''data'', ''expires''] (token_row tok expiry data)"
    "now \<le> expiry" "json_value (JObj data)"
    by blast
  then show ?thesis
    using g rs row by (simp add: verifyToken_def project_def token_row_def parse_col_def json_parse_str_of)
qed

theorem empty_token_accepted_witness: "\<exists>v. fst (verifyToken (mem_db SQLITE) 4000 (JStr []) demo_db) = Inr v"
proof (rule empty_token_accepted [OF mem_tom demo_db_wf demo_db_healthy])
  show "rows_of demo_db ''oneTimeTokens'' \<noteq> {#}" by (simp add: demo_db_tokens)
  show "\<exists>tok expiry data. r = token_row tok expiry data \<and> 4000 \<le> expiry \<and> json_value (JObj data)"
    if "r \<in># rows_of demo_db ''oneTimeTokens''" for r
    using that by (intro exI [of _ "''tok''"] exI [of _ 5000] exI [of _ "[(''a'', JNum 1)]"])
      (simp add: demo_db_tokens)
qed

text \<open>
  Creating a long term key rotates the keys: the new pair is the only current key, the old
  current key is kept under the name of the previous one, which is dropped, and the rest of the
  database is untouched.
\<close>

theorem long_term_rotation:
  assumes "tom_database d ok healthy tab" "ok s" "healthy s" "createKeypair d True (Inr kp) s = (res, s')"
  shows "res = Some (Inr kp) \<and>
    tab s' = (tab s)(''longTermKeypairs'' :=
      add_mset (pair_row kp) (rotated (tab s ''longTermKeypairs''))) \<and>
    {# r \<in># tab s' ''longTermKeypairs''. named ''currentKey'' r #} = {#pair_row kp#}"
proof -
  note c = table_db.create_long_term [OF assms(1) assms(2,3) tom_schema_pairs tom_key_pairs assms(4)]
  have "{# r \<in># tab s' ''longTermKeypairs''. sql_eq (getp r ''name'') (JStr ''currentKey'') #} = {#pair_row kp#}"
    using c by (intro table_db.key_unique_rows [OF assms(1) _ tom_key_pairs]) (simp_all add: pair_row_def sql_eq_def)
  with c show ?thesis by (simp add: named_def)
qed

theorem long_term_rotation_witness:
  "rows_of (snd (createKeypair (mem_db SQLITE) True (Inr pair_b) demo_db)) ''longTermKeypairs'' =
     {#pair_row pair_b, put ''name'' (JStr ''previousKey'') (pair_row pair_a)#}"
proof -
  obtain res s' where r: "createKeypair (mem_db SQLITE) True (Inr pair_b) demo_db = (res, s')" by fastforce
  have "rotated {#pair_row pair_a#} = {#put ''name'' (JStr ''previousKey'') (pair_row pair_a)#}"
    by (simp add: rotated_def named_def sql_eq_def pair_row_def assign_def)
  then show ?thesis
    using long_term_rotation [OF mem_tom demo_db_wf demo_db_healthy r] r by (simp add: demo_db_pairs)
qed

text \<open>
  \<open>getKeys\<close> does not look at the key it is asked for: as soon as the table holds a row, asking
  for the previous key and asking for the current one give the same answer.
\<close>

theorem getKeys_ignores_type:
  assumes "tom_database d ok healthy tab" "ok s" "healthy s" "tab s ''longTermKeypairs'' \<noteq> {#}"
  shows "\<exists>kp. getKeys d ''current'' s = getKeys d ''previous'' s \<and>
    fst (getKeys d ''current'' s) = Inr kp"
proof -
  obtain r0 s' where g: "db_get d ''longTermKeypairs'' [''keyID'', ''public'', ''private''] None None s = (r0, s')"
    by fastforce
  have c: "schema_of tom_tables ''longTermKeypairs'' \<noteq> []"
    "[''keyID'', ''public'', ''private''] = [''*''] \<or>
     set [''keyID'', ''public'', ''private''] \<subseteq> set (schema_of tom_tables ''longTermKeypairs'')"
    by (simp_all add: tom_schema_pairs long_term_cols_def)
  obtain rs where rs: "r0 = Inr rs" using table_db.get_all_Inl [OF assms(1) _ assms(2) c] g assms(3) by (cases r0) auto
  then have "mset rs = {# project [''keyID'', ''public'', ''private''] r. r \<in># tab s ''longTermKeypairs'' #}"
    using table_db.get_all_Inr [OF assms(1) _ assms(2) c] g by auto
  then obtain row rest where "rs = row # rest" using assms(4) by (cases rs) auto
  then show ?thesis using g rs by (simp add: getKeys_def getAll_def)
qed

theorem getKeys_ignores_type_witness:
  "getKeys (mem_db SQLITE) ''current'' demo_db = getKeys (mem_db SQLITE) ''previous'' demo_db \<and>
   fst (getKeys (mem_db SQLITE) ''previous'' (snd (createKeypair (mem_db SQLITE) True (Inr pair_b) demo_db))) =
     Inr pair_a \<and>
   fst (getKeys (mem_db SQLITE) ''current'' (snd (createKeypair (mem_db SQLITE) True (Inr pair_b) demo_db))) =
     Inr pair_a"
proof (intro conjI)
  show "getKeys (mem_db SQLITE) ''current'' demo_db = getKeys (mem_db SQLITE) ''previous'' demo_db"
    using getKeys_ignores_type [OF mem_tom [of SQLITE] demo_db_wf demo_db_healthy] by (simp add: demo_db_pairs)
qed code_simp+

text \<open>
  The clean-up of expired rows removes from the token and attempt tables exactly the rows whose
  expiry lies before \<open>now\<close>, and nothing else.
\<close>

theorem vacuum_removes_expired:
  assumes "tom_database d ok healthy tab" "ok s" "healthy s" "now \<noteq> 0" "vacuum d now s = (res, s')"
  shows "res = Inr () \<and> tab s' = (tab s)
    (''oneTimeTokens'' := {# r \<in># tab s ''oneTimeTokens''. \<not> sql_less (getp r ''expires'') (JNum now) #},
     ''attempts'' := {# r \<in># tab s ''attempts''. \<not> sql_less (getp r ''expires'') (JNum now) #})"
  using table_db.vacuum_rows [OF assms(1) assms(2,3) tom_expires assms(4,5)] by blast

theorem vacuum_removes_expired_witness:
  "rows_of (snd (vacuum (mem_db PG) 5001 demo_db)) ''oneTimeTokens'' = {#} \<and>
   rows_of (snd (vacuum (mem_db PG) 5000 demo_db)) ''oneTimeTokens'' = rows_of demo_db ''oneTimeTokens''"
proof
  obtain res s' where r: "vacuum (mem_db PG) 5001 demo_db = (res, s')" by fastforce
  show "rows_of (snd (vacuum (mem_db PG) 5001 demo_db)) ''oneTimeTokens'' = {#}"
    using vacuum_removes_expired [OF mem_tom demo_db_wf demo_db_healthy _ r] r
    by (simp add: demo_db_tokens token_row_def sql_less_def)
  obtain res' s'' where r': "vacuum (mem_db PG) 5000 demo_db = (res', s'')" by fastforce
  show "rows_of (snd (vacuum (mem_db PG) 5000 demo_db)) ''oneTimeTokens'' = rows_of demo_db ''oneTimeTokens''"
    using vacuum_removes_expired [OF mem_tom demo_db_wf demo_db_healthy _ r'] r'
    by (simp add: demo_db_tokens token_row_def sql_less_def)
qed

end
