(* ===== verification/Express.thy ===== *)
theory Express
  imports Prelude
begin

text \<open>
  Requests and responses as the API routers see them: a request carries the authenticated user,
  the path parameters, the query, the body and the headers (in lower case); a handler answers with a status and a JSON body or
  calls \<open>next(error)\<close>; a middleware lets the request pass or settles it.  The authenticator of
  the identity server is a parameter: it answers by itself or calls back with the token content.
\<close>

record request =
  userId :: "string option"
  accessToken :: "string option"
  params :: "(string \<times> string) list"
  query :: "(string \<times> string) list"
  body :: jsval
  headers :: "(string \<times> string) list"

datatype response = Json nat jsval | Redirect string | NextError jserror

datatype guard = Pass | Done response

definition message :: "nat \<Rightarrow> string \<Rightarrow> response" where
  "message status m = Json status (JObj [(''message'', JStr m)])"

definition path_param :: "request \<Rightarrow> string \<Rightarrow> string" where
  "path_param r k = (case map_of (params r) k of None \<Rightarrow> [] | Some v \<Rightarrow> v)"

text \<open>A header, the empty text when it is missing: the handlers only test for a non-empty one.\<close>

definition header :: "request \<Rightarrow> string \<Rightarrow> string" where
  "header r k = (case map_of (headers r) k of None \<Rightarrow> [] | Some v \<Rightarrow> v)"

text \<open>\<open>utils/middlewares/error.middleware.ts\<close>; the errors of the program carry no \<open>status\<close>.\<close>

definition errorMiddleware :: "response \<Rightarrow> response" where
  "errorMiddleware r = (case r of NextError e \<Rightarrow> message 500 (err_msg e) | _ \<Rightarrow> r)"

text \<open>Reading a property of any value; primitives have none of the names read here.\<close>

definition field :: "jsval \<Rightarrow> string \<Rightarrow> jsval" where
  "field v k = (case v of JObj ps \<Rightarrow> getp ps k | _ \<Rightarrow> Undef)"

text \<open>What the authenticator does: it answers, or calls back with the content and the token
  (\<open>None\<close>: undefined, \<open>Some None\<close>: null).\<close>

datatype auth_outcome = Answered response | CalledBack obj "string option option"

definition authMiddleware :: "(request \<Rightarrow> auth_outcome) \<Rightarrow> request \<Rightarrow> response + request" where
  "authMiddleware authenticator req =
     (case authenticator req of
        Answered r \<Rightarrow> Inl r
      | CalledBack data token \<Rightarrow>
          let unauthorized = Inl (Json 401 (JObj [(''error'', JStr ''Unauthorized'')]))
          in (case token of
                None \<Rightarrow> unauthorized
              | Some t \<Rightarrow>
                  if getp data ''sub'' = Undef then unauthorized
                  else (let req' = req\<lparr>userId := Some (js_str (getp data ''sub''))\<rparr>
                        in Inr (case t of None \<Rightarrow> req' | Some tk \<Rightarrow> req'\<lparr>accessToken := Some tk\<rparr>))))"

text \<open>\<open>!req.userId\<close>\<close>

definition has_user :: "request \<Rightarrow> bool" where
  "has_user r = (case userId r of None \<Rightarrow> False | Some u \<Rightarrow> u \<noteq> [])"

definition user_of :: "request \<Rightarrow> string" where
  "user_of r = (case userId r of None \<Rightarrow> [] | Some u \<Rightarrow> u)"

end
