(* ===== verification/Addressbook.thy ===== *)
theory Addressbook
  imports IdDb MatrixIds Express
begin

text \<open>
  The address book API (\<open>packages/tom-server/src/addressbook-api\<close>): the service over the
  database with the contacts of the user directory merged in, the ownership and payload checks of
  the middlewares, the controllers and the routes.  The handlers run to completion, in the order
  of their \<open>await\<close>s.  \<open>ab_uuid n\<close> is the \<open>n\<close>th identifier of \<open>uuidv7\<close>, \<open>ab_collate\<close> is
  \<open>localeCompare\<close>, \<open>ab_users\<close> what \<open>userDb.getAll\<close> answers (\<open>None\<close>: there is no user database).
\<close>

section \<open>The service\<close>

record 's ab_env =
  ab_db :: "'s backend"
  ab_uuid :: "nat \<Rightarrow> string"
  ab_users :: "obj list result option"
  ab_features :: bool
  ab_server :: string
  ab_collate :: "string \<Rightarrow> string \<Rightarrow> int"

text \<open>The database, how many identifiers were drawn, the delays waited between retries.\<close>

record 's svc =
  sv_db :: 's
  sv_next :: nat
  sv_slept :: "nat list"

definition on_db :: "('s \<Rightarrow> 'a \<times> 's) \<Rightarrow> 's svc \<Rightarrow> 'a \<times> 's svc" where
  "on_db f s = (case f (sv_db s) of (r, x) \<Rightarrow> (r, s\<lparr>sv_db := x\<rparr>))"

definition next_uuid :: "'s ab_env \<Rightarrow> 's svc \<Rightarrow> string \<times> 's svc" where
  "next_uuid env s = (ab_uuid env (sv_next s), s\<lparr>sv_next := Suc (sv_next s)\<rparr>)"

definition validateContactData :: "obj \<Rightarrow> bool" where
  "validateContactData c =
     ((case getp c ''id'' of JStr i \<Rightarrow> i \<noteq> [] | _ \<Rightarrow> False) \<and>
      (case getp c ''mxid'' of JStr m \<Rightarrow> m \<noteq> [] | _ \<Rightarrow> False))"

definition normalizeContact :: "obj \<Rightarrow> obj" where
  "normalizeContact c = put ''active'' (JBool (truthy (getp c ''active''))) c"

text \<open>
  The comparator of \<open>_sortByStringField\<close>.  The fields it is called on are text columns of the
  tables and text attributes of the directory: a value that is no string, on which the code's
  \<open>localeCompare\<close> would throw, is compared by its text.
\<close>

definition text_field :: "string \<Rightarrow> obj \<Rightarrow> string" where
  "text_field f c = js_str (js_coalesce (getp c f) (JStr []))"

definition field_cmp :: "(string \<Rightarrow> string \<Rightarrow> int) \<Rightarrow> string \<Rightarrow> bool \<Rightarrow> obj \<Rightarrow> obj \<Rightarrow> int" where
  "field_cmp collate f emptyLast a b =
     (let strA = text_field f a; strB = text_field f b
      in if strA = [] \<and> strB = [] then 0
         else if strA = [] then (if emptyLast then 1 else -1)
         else if strB = [] then (if emptyLast then -1 else 1)
         else collate strA strB)"

definition sortByStringField :: "(string \<Rightarrow> string \<Rightarrow> int) \<Rightarrow> obj list \<Rightarrow> string \<Rightarrow> bool \<Rightarrow> obj list" where
  "sortByStringField collate contacts f emptyLast = js_sort (field_cmp collate f emptyLast) contacts"

text \<open>The filter with its set of seen identifiers.\<close>

fun dedup_from :: "jsval list \<Rightarrow> obj list \<Rightarrow> obj list" where
  "dedup_from seen [] = []"
| "dedup_from seen (c # cs) =
     (if getp c ''mxid'' \<in> set seen then dedup_from seen cs
      else c # dedup_from (getp c ''mxid'' # seen) cs)"

definition deduplicateByMxid :: "obj list \<Rightarrow> obj list" where
  "deduplicateByMxid = dedup_from []"

definition fetchContactsFromDb :: "'s ab_env \<Rightarrow> string \<Rightarrow> 's svc \<Rightarrow> obj list result \<times> 's svc" where
  "fetchContactsFromDb env abid =
     on_db (db_get (ab_db env) ''contacts'' [''*''] (Some [(''addressbook_id'', JStr abid)]) None)"

definition listAddressbookContacts :: "'s ab_env \<Rightarrow> string \<Rightarrow> 's svc \<Rightarrow> obj list \<times> 's svc" where
  "listAddressbookContacts env abid s =
     (case fetchContactsFromDb env abid s of
        (Inl _, s') \<Rightarrow> ([], s')
      | (Inr rawContacts, s') \<Rightarrow>
          (let validContacts = filter validateContactData rawContacts
           in if validContacts = [] then ([], s')
              else
                (let normalized = map normalizeContact validContacts;
                     sortedById = sortByStringField (ab_collate env) normalized ''id'' True;
                     deduplicated = deduplicateByMxid sortedById
                 in (sortByStringField (ab_collate env) deduplicated ''display_name'' True, s'))))"

definition getUserAddressBook :: "'s ab_env \<Rightarrow> string \<Rightarrow> 's svc \<Rightarrow> obj option \<times> 's svc" where
  "getUserAddressBook env owner s =
     (case on_db (db_get (ab_db env) ''addressbooks'' [''*''] (Some [(''owner'', JStr owner)]) None) s of
        (Inr (ab # _), s') \<Rightarrow> (Some ab, s')
      | (_, s') \<Rightarrow> (None, s'))"

definition createUserAddressBook :: "'s ab_env \<Rightarrow> string \<Rightarrow> 's svc \<Rightarrow> obj result \<times> 's svc" where
  "createUserAddressBook env owner s =
     (case next_uuid env s of (uuid, s1) \<Rightarrow>
      (case on_db (db_insert (ab_db env) ''addressbooks'' [(''owner'', JStr owner), (''id'', JStr uuid)]) s1 of
         (Inl e, s2) \<Rightarrow> (Inl e, s2)
       | (Inr [], s2) \<Rightarrow> (Inl (Err ''Failed to create addressbook: no data returned''), s2)
       | (Inr (ab # _), s2) \<Rightarrow> (Inr ab, s2)))"

definition isDuplicateKeyError :: "jserror \<Rightarrow> bool" where
  "isDuplicateKeyError e =
     (let m = to_lower (err_msg e)
      in contains m ''unique constraint'' \<or> contains m ''sqlite_constraint'' \<or>
         contains m ''duplicate key'' \<or> err_code e = ''23505'')"

text \<open>
  The attempts left of the three; \<open>attempt\<close> is 3 minus those left.  After a duplicate key the
  row is looked up again, with a growing delay before the next attempt.
\<close>

fun create_loop :: "'s ab_env \<Rightarrow> string \<Rightarrow> nat \<Rightarrow> 's svc \<Rightarrow> obj result \<times> 's svc" where
  "create_loop env owner 0 s =
     (Inl (Err ''Failed to get or create addressbook after multiple attempts''), s)"
| "create_loop env owner (Suc k) s =
     (case createUserAddressBook env owner s of
        (Inr ab, s1) \<Rightarrow> (Inr ab, s1)
      | (Inl e, s1) \<Rightarrow>
          if isDuplicateKeyError e then
            (case getUserAddressBook env owner s1 of
               (Some ab, s2) \<Rightarrow> (Inr ab, s2)
             | (None, s2) \<Rightarrow>
                 create_loop env owner k
                   (if 0 < k then s2\<lparr>sv_slept := sv_slept s2 @ [2 ^ (2 - k) * 100]\<rparr> else s2))
          else (Inl e, s1))"

definition getOrCreateUserAddressBook :: "'s ab_env \<Rightarrow> string \<Rightarrow> 's svc \<Rightarrow> obj result \<times> 's svc" where
  "getOrCreateUserAddressBook env owner s =
     (if owner = [] then (Inl (Err ''Owner is required''), s)
      else case getUserAddressBook env owner s of
             (Some ab, s1) \<Rightarrow> (Inr ab, s1)
           | (None, s1) \<Rightarrow> create_loop env owner 3 s1)"

fun userdb_contacts :: "string \<Rightarrow> obj list \<Rightarrow> obj list" where
  "userdb_contacts server [] = []"
| "userdb_contacts server (entry # entries) =
     (let uid = getp entry ''uid''; rest = userdb_contacts server entries
      in if \<not> truthy uid then rest
         else case (case uid of JStr u \<Rightarrow> toMatrixId u server | _ \<Rightarrow> Inl (TypeErr ''localpart must be a non-empty string'')) of
                Inl _ \<Rightarrow> rest
              | Inr mxid \<Rightarrow>
                  [(''id'', uid), (''mxid'', JStr mxid),
                   (''display_name'', js_or (js_or (getp entry ''cn'') (getp entry ''displayName'')) uid),
                   (''active'', JBool True), (''addressbook_id'', JStr [])] # rest)"

definition getUserDbContacts :: "'s ab_env \<Rightarrow> obj list" where
  "getUserDbContacts env =
     (if \<not> ab_features env \<or> ab_server env = [] then []
      else case ab_users env of
             Some (Inr entries) \<Rightarrow> userdb_contacts (ab_server env) entries
           | _ \<Rightarrow> [])"

record ab_list =
  al_id :: jsval
  al_owner :: string
  al_contacts :: "obj list"

definition list_book :: "'s ab_env \<Rightarrow> string \<Rightarrow> bool \<Rightarrow> 's svc \<Rightarrow> ab_list \<times> 's svc" where
  "list_book env owner includeUserDbContacts s =
     (case getOrCreateUserAddressBook env owner s of
        (Inl _, s1) \<Rightarrow> (\<lparr>al_id = JStr [], al_owner = owner, al_contacts = []\<rparr>, s1)
      | (Inr ab, s1) \<Rightarrow>
          (case listAddressbookContacts env (js_str (getp ab ''id'')) s1 of (addressbookContacts, s2) \<Rightarrow>
             let userDbContacts = (if includeUserDbContacts then getUserDbContacts env else []);
                 addressbookMxids = map (\<lambda>c. getp c ''mxid'') addressbookContacts;
                 unique = filter (\<lambda>c. getp c ''mxid'' \<notin> set addressbookMxids) userDbContacts
             in (\<lparr>al_id = getp ab ''id'', al_owner = owner,
                  al_contacts = sortByStringField (ab_collate env) (addressbookContacts @ unique)
                    ''display_name'' True\<rparr>, s2)))"

definition delete_book :: "'s ab_env \<Rightarrow> string \<Rightarrow> 's svc \<Rightarrow> unit result \<times> 's svc" where
  "delete_book env owner s =
     (case on_db (db_get (ab_db env) ''addressbooks'' [''id''] (Some [(''owner'', JStr owner)]) None) s of
        (Inl e, s1) \<Rightarrow> (Inl e, s1)
      | (Inr [], s1) \<Rightarrow> (Inl (Err ''Addressbook not found''), s1)
      | (Inr (ab # _), s1) \<Rightarrow>
          (case on_db (db_deleteEqual (ab_db env) ''contacts'' ''addressbook_id'' (getp ab ''id'')) s1 of
             (Inl e, s2) \<Rightarrow> (Inl e, s2)
           | (Inr _, s2) \<Rightarrow> on_db (db_deleteEqual (ab_db env) ''addressbooks'' ''id'' (getp ab ''id'')) s2))"

definition getContact :: "'s ab_env \<Rightarrow> string \<Rightarrow> 's svc \<Rightarrow> obj option \<times> 's svc" where
  "getContact env contactId s =
     (case on_db (db_get (ab_db env) ''contacts'' [''*''] (Some [(''id'', JStr contactId)]) None) s of
        (Inr (c # _), s1) \<Rightarrow> (Some (normalizeContact c), s1)
      | (_, s1) \<Rightarrow> (None, s1))"

definition insertContact :: "'s ab_env \<Rightarrow> jsval \<Rightarrow> jsval \<Rightarrow> 's svc \<Rightarrow> obj option \<times> 's svc" where
  "insertContact env contact addressbookId s =
     (case next_uuid env s of (uuid, s1) \<Rightarrow>
      (case on_db (db_insert (ab_db env) ''contacts''
              [(''mxid'', field contact ''mxid''), (''display_name'', field contact ''display_name''),
               (''active'', JNum 1), (''id'', JStr uuid), (''addressbook_id'', addressbookId)]) s1 of
         (Inr (c # _), s2) \<Rightarrow> (Some (normalizeContact c), s2)
       | (_, s2) \<Rightarrow> (None, s2)))"

definition checkIfContactExists :: "'s ab_env \<Rightarrow> jsval \<Rightarrow> jsval \<Rightarrow> 's svc \<Rightarrow> bool \<times> 's svc" where
  "checkIfContactExists env contact addressbookId s =
     (case on_db (db_get (ab_db env) ''contacts'' [''*'']
              (Some [(''mxid'', field contact ''mxid''), (''display_name'', field contact ''display_name''),
                     (''addressbook_id'', addressbookId)]) None) s of
        (Inl _, s1) \<Rightarrow> (False, s1)
      | (Inr rows, s1) \<Rightarrow> (rows \<noteq> [], s1))"

fun add_loop :: "'s ab_env \<Rightarrow> jsval \<Rightarrow> jsval list \<Rightarrow> 's svc \<Rightarrow> obj list \<times> 's svc" where
  "add_loop env abid [] s = ([], s)"
| "add_loop env abid (contact # contacts) s =
     (case checkIfContactExists env contact abid s of (exists, s1) \<Rightarrow>
        if exists then add_loop env abid contacts s1
        else
          (case insertContact env contact abid s1 of (created, s2) \<Rightarrow>
             (case add_loop env abid contacts s2 of (rest, s3) \<Rightarrow>
                ((case created of
                    Some c \<Rightarrow> if truthy (getp c ''id'') then c # rest else rest
                  | None \<Rightarrow> rest), s3))))"

definition addContacts :: "'s ab_env \<Rightarrow> string \<Rightarrow> jsval list \<Rightarrow> 's svc \<Rightarrow> ab_list option \<times> 's svc" where
  "addContacts env owner contacts s =
     (case getOrCreateUserAddressBook env owner s of
        (Inl _, s1) \<Rightarrow> (None, s1)
      | (Inr ab, s1) \<Rightarrow>
          (case add_loop env (getp ab ''id'') contacts s1 of (created, s2) \<Rightarrow>
             (Some \<lparr>al_id = getp ab ''id'', al_owner = owner, al_contacts = created\<rparr>, s2)))"

text \<open>Unary plus; NaN is bound as NULL.\<close>

fun to_number :: "jsval \<Rightarrow> jsval" where
  "to_number Null = JNum 0"
| "to_number (JBool b) = JNum (if b then 1 else 0)"
| "to_number (JNum n) = JNum n"
| "to_number (JStr s) =
     (if s = [] then JNum 0 else case as_number (JStr s) of Some n \<Rightarrow> JNum n | None \<Rightarrow> Null)"
| "to_number _ = Null"

definition updateContact :: "'s ab_env \<Rightarrow> string \<Rightarrow> jsval \<Rightarrow> 's svc \<Rightarrow> obj option \<times> 's svc" where
  "updateContact env contactId contact s =
     (let active = field contact ''active'';
          payload = (''display_name'', field contact ''display_name'') #
                    (if active \<noteq> Undef then [(''active'', to_number active)] else [])
      in case on_db (db_update (ab_db env) ''contacts'' payload ''id'' (JStr contactId)) s of
           (Inr (c # _), s1) \<Rightarrow> (Some (normalizeContact c), s1)
         | (_, s1) \<Rightarrow> (None, s1))"

definition deleteContact :: "'s ab_env \<Rightarrow> string \<Rightarrow> 's svc \<Rightarrow> unit result \<times> 's svc" where
  "deleteContact env contactId = on_db (db_deleteEqual (ab_db env) ''contacts'' ''id'' (JStr contactId))"

section \<open>Middlewares\<close>

definition mw_getContact :: "'s ab_env \<Rightarrow> string \<Rightarrow> 's svc \<Rightarrow> obj option \<times> 's svc" where
  "mw_getContact env contactId s =
     (case on_db (db_get (ab_db env) ''contacts'' [''*''] (Some [(''id'', JStr contactId)]) None) s of
        (Inr (c # _), s1) \<Rightarrow> (Some c, s1)
      | (_, s1) \<Rightarrow> (None, s1))"

definition mw_getAddressbook :: "'s ab_env \<Rightarrow> jsval \<Rightarrow> 's svc \<Rightarrow> obj option \<times> 's svc" where
  "mw_getAddressbook env abid s =
     (case on_db (db_get (ab_db env) ''addressbooks'' [''*''] (Some [(''id'', abid)]) None) s of
        (Inr (ab # _), s1) \<Rightarrow> (Some ab, s1)
      | (_, s1) \<Rightarrow> (None, s1))"

definition checkContactOwnership :: "'s ab_env \<Rightarrow> request \<Rightarrow> 's svc \<Rightarrow> guard \<times> 's svc" where
  "checkContactOwnership env req s =
     (if \<not> has_user req then (Done (message 401 ''Unauthorized''), s)
      else case mw_getContact env (path_param req ''id'') s of
             (None, s1) \<Rightarrow> (Done (message 404 ''Contact not found''), s1)
           | (Some contact, s1) \<Rightarrow>
               (case mw_getAddressbook env (getp contact ''addressbook_id'') s1 of
                  (None, s2) \<Rightarrow> (Done (message 404 ''Addressbook not found''), s2)
                | (Some ab, s2) \<Rightarrow>
                    if getp ab ''owner'' \<noteq> JStr (user_of req) then (Done (message 403 ''Forbidden''), s2)
                    else (Pass, s2)))"

definition validateContactUpdate :: "request \<Rightarrow> guard" where
  "validateContactUpdate req =
     (if \<not> truthy (body req) then Done (NextError (Err ''Missing body''))
      else if \<not> truthy (field (body req) ''display_name'') then Done (message 400 ''Missing display_name'')
      else case field (body req) ''active'' of
             Undef \<Rightarrow> Pass
           | JBool _ \<Rightarrow> Pass
           | _ \<Rightarrow> Done (message 400 ''Invalid active value''))"

fun check_contacts :: "jsval list \<Rightarrow> guard" where
  "check_contacts [] = Pass"
| "check_contacts (c # cs) =
     (if nullish c then Done (NextError (Err ''Cannot read properties of null''))
      else if \<not> truthy (field c ''mxid'') then Done (message 400 ''Missing mxid'')
      else if \<not> truthy (field c ''display_name'') then Done (message 400 ''Missing display_name'')
      else check_contacts cs)"

definition validateContactsCreation :: "request \<Rightarrow> guard" where
  "validateContactsCreation req =
     (case field (body req) ''contacts'' of
        JArr cs \<Rightarrow> check_contacts cs
      | _ \<Rightarrow> Done (message 400 ''Missing contacts''))"

section \<open>Controllers and routes\<close>

text \<open>
  \<open>getBatch\<close> of the user information service: \<open>None\<close> when there is no service.  The enrichment
  only reads it.
\<close>

type_synonym info_service = "(jsval list \<Rightarrow> string \<Rightarrow> (string \<times> obj) list result) option"

definition first_of :: "jsval \<Rightarrow> jsval" where
  "first_of v = (case v of JArr (x # _) \<Rightarrow> x | _ \<Rightarrow> Undef)"

definition enrich_one :: "(string \<times> obj) list \<Rightarrow> obj \<Rightarrow> obj" where
  "enrich_one userInfoMap contact =
     (case map_of userInfoMap (js_str (getp contact ''mxid'')) of
        None \<Rightarrow> contact
      | Some u \<Rightarrow>
          let e = JStr []; text = (\<lambda>k. js_or (getp u k) e);
              base = spread contact
                [(''avatar_url'', text ''avatar_url''), (''last_name'', text ''last_name''),
                 (''first_name'', text ''first_name''), (''emails'', js_or (getp u ''emails'') (JArr [])),
                 (''phones'', js_or (getp u ''phones'') (JArr [])), (''language'', text ''language''),
                 (''timezone'', text ''timezone'')];
              fqdn = (if truthy (getp u ''workplaceFqdn'')
                      then put ''workplaceFqdn'' (getp u ''workplaceFqdn'') base else base)
          in spread fqdn
               [(''displayName'', text ''display_name''), (''cn'', text ''display_name''), (''sn'', text ''sn''),
                (''givenName'', text ''first_name''), (''givenname'', text ''first_name''),
                (''mail'', js_or (first_of (getp u ''emails'')) e), (''mobile'', js_or (first_of (getp u ''phones'')) e)])"

definition enrichContacts :: "info_service \<Rightarrow> obj list \<Rightarrow> string \<Rightarrow> obj list" where
  "enrichContacts info contacts viewer =
     (case info of
        None \<Rightarrow> contacts
      | Some getBatch \<Rightarrow>
          if contacts = [] then contacts
          else case getBatch (map (\<lambda>c. getp c ''mxid'') contacts) viewer of
                 Inl _ \<Rightarrow> contacts
               | Inr m \<Rightarrow> map (enrich_one m) contacts)"

definition ab_json :: "ab_list \<Rightarrow> obj list \<Rightarrow> jsval" where
  "ab_json l cs = JObj [(''id'', al_id l), (''owner'', JStr (al_owner l)), (''contacts'', JArr (map JObj cs))]"

definition c_listAddressbook :: "'s ab_env \<Rightarrow> info_service \<Rightarrow> request \<Rightarrow> 's svc \<Rightarrow> response \<times> 's svc" where
  "c_listAddressbook env info req s =
     (if \<not> has_user req then (NextError (Err ''Missing owner''), s)
      else case list_book env (user_of req) True s of
             (l, s1) \<Rightarrow> (Json 200 (ab_json l (enrichContacts info (al_contacts l) (user_of req))), s1))"

definition c_deleteAddressbook :: "'s ab_env \<Rightarrow> request \<Rightarrow> 's svc \<Rightarrow> response \<times> 's svc" where
  "c_deleteAddressbook env req s =
     (if \<not> has_user req then (NextError (Err ''Missing owner''), s)
      else case delete_book env (user_of req) s of
             (Inl e, s1) \<Rightarrow> (NextError e, s1)
           | (Inr _, s1) \<Rightarrow> (message 200 ''Addressbook deleted'', s1))"

definition c_fetchContact :: "'s ab_env \<Rightarrow> request \<Rightarrow> 's svc \<Rightarrow> response \<times> 's svc" where
  "c_fetchContact env req s =
     (case getContact env (path_param req ''id'') s of
        (None, s1) \<Rightarrow> (message 404 ''Contact not found'', s1)
      | (Some c, s1) \<Rightarrow> (Json 200 (JObj c), s1))"

definition c_addContacts :: "'s ab_env \<Rightarrow> request \<Rightarrow> 's svc \<Rightarrow> response \<times> 's svc" where
  "c_addContacts env req s =
     (if \<not> has_user req then (NextError (Err ''Missing owner''), s)
      else case addContacts env (user_of req)
                  (case field (body req) ''contacts'' of JArr cs \<Rightarrow> cs | _ \<Rightarrow> []) s of
             (None, s1) \<Rightarrow> (Json 200 Undef, s1)
           | (Some l, s1) \<Rightarrow> (Json 200 (ab_json l (al_contacts l)), s1))"

definition c_updateContact :: "'s ab_env \<Rightarrow> request \<Rightarrow> 's svc \<Rightarrow> response \<times> 's svc" where
  "c_updateContact env req s =
     (case updateContact env (path_param req ''id'') (body req) s of
        (None, s1) \<Rightarrow> (NextError (Err ''Failed to update Contact''), s1)
      | (Some c, s1) \<Rightarrow> (Json 200 (JObj c), s1))"

definition c_deleteContact :: "'s ab_env \<Rightarrow> request \<Rightarrow> 's svc \<Rightarrow> response \<times> 's svc" where
  "c_deleteContact env req s =
     (case deleteContact env (path_param req ''id'') s of
        (Inl e, s1) \<Rightarrow> (NextError e, s1)
      | (Inr _, s1) \<Rightarrow> (message 200 ''Contact deleted'', s1))"

datatype ab_route = GetBook | DeleteBook | PostBook | GetContact | PutContact | DeleteContact

definition with_guard :: "guard \<times> 's svc \<Rightarrow> ('s svc \<Rightarrow> response \<times> 's svc) \<Rightarrow> response \<times> 's svc" where
  "with_guard g k = (case g of (Done r, s) \<Rightarrow> (r, s) | (Pass, s) \<Rightarrow> k s)"

text \<open>The router: authentication, the route's middlewares in order, then the controller.\<close>

definition ab_handle ::
  "'s ab_env \<Rightarrow> info_service \<Rightarrow> (request \<Rightarrow> auth_outcome) \<Rightarrow> ab_route \<Rightarrow> request \<Rightarrow> 's svc \<Rightarrow>
   response \<times> 's svc" where
  "ab_handle env info authenticator route req0 s =
     (case authMiddleware authenticator req0 of
        Inl r \<Rightarrow> (r, s)
      | Inr req \<Rightarrow>
          (case route of
             GetBook \<Rightarrow> c_listAddressbook env info req s
           | DeleteBook \<Rightarrow> c_deleteAddressbook env req s
           | PostBook \<Rightarrow> with_guard (validateContactsCreation req, s) (c_addContacts env req)
           | GetContact \<Rightarrow> with_guard (checkContactOwnership env req s) (c_fetchContact env req)
           | PutContact \<Rightarrow>
               with_guard (checkContactOwnership env req s)
                 (\<lambda>s1. with_guard (validateContactUpdate req, s1) (c_updateContact env req))
           | DeleteContact \<Rightarrow> with_guard (checkContactOwnership env req s) (c_deleteContact env req)))"

section \<open>Sorting and deduplication\<close>

text \<open>A collation is a comparator; it makes every field order one.\<close>

locale collation = js_comparator collate for collate :: "string \<Rightarrow> string \<Rightarrow> int"

sublocale collation \<subseteq> by_field: js_comparator "field_cmp collate f True" for f
proof
  fix x y z
  show "0 < field_cmp collate f True x y \<longleftrightarrow> field_cmp collate f True y x < 0"
    using cmp_flip by (simp add: field_cmp_def Let_def)
  show "field_cmp collate f True x z \<le> 0"
    if "field_cmp collate f True x y \<le> 0" "field_cmp collate f True y z \<le> 0"
    using that cmp_trans [of "text_field f x" "text_field f y" "text_field f z"]
    by (auto simp: field_cmp_def Let_def split: if_splits)
qed

context collation
begin

lemma field_sorted: "sorted_wrt (\<lambda>a b. field_cmp collate f True a b \<le> 0) (js_sort (field_cmp collate f True) cs)"
  by (rule by_field.js_sort_sorted)

lemma field_refl: "field_cmp collate f True c c \<le> 0"
  using by_field.cmp_total by blast

end

interpretation code_units: collation code_unit_compare
  by unfold_locales

lemma dedup_subset: "set (dedup_from seen cs) \<subseteq> set cs"
  by (induction seen cs rule: dedup_from.induct) auto

lemma dedup_unseen: "c \<in> set (dedup_from seen cs) \<Longrightarrow> getp c ''mxid'' \<notin> set seen"
  by (induction seen cs rule: dedup_from.induct) (auto split: if_splits)

lemma dedup_distinct: "distinct (map (\<lambda>c. getp c ''mxid'') (dedup_from seen cs))"
  by (induction seen cs rule: dedup_from.induct) (auto dest: dedup_unseen)

text \<open>The element kept for an identifier is not behind any other one with it.\<close>

lemma dedup_first:
  assumes "sorted_wrt (\<lambda>a b. le a b) cs" "\<And>c. le c c" "c \<in> set cs" "getp c ''mxid'' \<notin> set seen"
  shows "\<exists>k \<in> set (dedup_from seen cs). getp k ''mxid'' = getp c ''mxid'' \<and> le k c"
  using assms(1,3,4)
proof (induction seen cs rule: dedup_from.induct)
  case (2 seen a cs)
  show ?case
  proof (cases "getp a ''mxid'' \<in> set seen")
    case True
    then show ?thesis using 2 by auto
  next
    case False
    show ?thesis
    proof (cases "getp c ''mxid'' = getp a ''mxid''")
      case True
      have "le a c" using 2(3,4) assms(2) by auto
      then show ?thesis using True False by auto
    next
      case other: False
      then have "\<exists>k \<in> set (dedup_from (getp a ''mxid'' # seen) cs).
          getp k ''mxid'' = getp c ''mxid'' \<and> le k c"
        using 2 False by auto
      then show ?thesis using False by auto
    qed
  qed
qed simp

section \<open>What the interface gives the address book\<close>

definition book_cols :: "string list" where
  "book_cols = [''id'', ''owner'']"

definition contact_cols :: "string list" where
  "contact_cols = [''id'', ''addressbook_id'', ''mxid'', ''display_name'', ''active'']"

definition book_row :: "string \<Rightarrow> string \<Rightarrow> obj" where
  "book_row uuid owner = [(''id'', JStr uuid), (''owner'', JStr owner)]"

lemma on_dbE:
  assumes "on_db f s = (r, s')"
  obtains x where "f (sv_db s) = (r, x)" "s' = s\<lparr>sv_db := x\<rparr>"
  using assms by (cases "f (sv_db s)") (auto simp: on_db_def)

locale addressbook_db = table_db +
  assumes books: "schema ''addressbooks'' = book_cols" "key ''addressbooks'' = [''id'']"
    and contacts: "schema ''contacts'' = contact_cols" "key ''contacts'' = [''id'']"
begin

lemma svc_get:
  assumes "on_db (db_get d t fs (Some f) None) s = (r, s')" "wf (sv_db s)"
    "schema t \<noteq> []" "set (map fst f) \<subseteq> set (schema t)" "fs = [''*''] \<or> set fs \<subseteq> set (schema t)"
  shows "wf (sv_db s') \<and> (healthy (sv_db s) \<longrightarrow> healthy (sv_db s') \<and> (\<exists>rs. r = Inr rs)) \<and>
    tab (sv_db s') = tab (sv_db s) \<and> s' = s\<lparr>sv_db := sv_db s'\<rparr> \<and>
    (\<forall>rs. r = Inr rs \<longrightarrow>
       mset rs = {# project fs x. x \<in># {# x \<in># tab (sv_db s) t. matches f x #} #})"
proof -
  obtain x where x: "db_get d t fs (Some f) None (sv_db s) = (r, x)" "s' = s\<lparr>sv_db := x\<rparr>"
    using assms(1) by (rule on_dbE)
  have "set (map fst (kept f)) \<subseteq> set (schema t)" using assms(4) by (auto simp: kept_def)
  from get_law [OF assms(2,3,5) this x(1)] x(2) show ?thesis by (cases r) auto
qed

lemma svc_get_star:
  assumes "on_db (db_get d t [''*''] (Some f) None) s = (r, s')" "wf (sv_db s)"
    "schema t \<noteq> []" "set (map fst f) \<subseteq> set (schema t)"
  shows "wf (sv_db s') \<and> (healthy (sv_db s) \<longrightarrow> healthy (sv_db s') \<and> (\<exists>rs. r = Inr rs)) \<and>
    tab (sv_db s') = tab (sv_db s) \<and> s' = s\<lparr>sv_db := sv_db s'\<rparr> \<and>
    (\<forall>rs. r = Inr rs \<longrightarrow> mset rs = {# x \<in># tab (sv_db s) t. matches f x #})"
proof -
  have "project [''*''] = (\<lambda>x. x)" by (rule ext) (simp add: project_def)
  then show ?thesis using svc_get [OF assms] by simp
qed

lemma user_book:
  assumes "ab_db env = d" "getUserAddressBook env owner s = (r, s')" "wf (sv_db s)"
  shows "wf (sv_db s') \<and> (healthy (sv_db s) \<longrightarrow> healthy (sv_db s')) \<and> tab (sv_db s') = tab (sv_db s) \<and>
    s' = s\<lparr>sv_db := sv_db s'\<rparr> \<and>
    (case r of
       Some ab \<Rightarrow> ab \<in># tab (sv_db s) ''addressbooks'' \<and> (owner \<noteq> [] \<longrightarrow> getp ab ''owner'' \<noteq> Undef \<and>
         sql_eq (getp ab ''owner'') (JStr owner))
     | None \<Rightarrow> healthy (sv_db s) \<longrightarrow> owner \<noteq> [] \<longrightarrow>
         {# x \<in># tab (sv_db s) ''addressbooks''. sql_eq (getp x ''owner'') (JStr owner) #} = {#})"
proof -
  obtain q where g: "on_db (db_get d ''addressbooks'' [''*''] (Some [(''owner'', JStr owner)]) None) s = (q, s')"
    "r = (case q of Inr (ab # _) \<Rightarrow> Some ab | _ \<Rightarrow> None)"
    using assms(1,2) by (auto simp: getUserAddressBook_def split: prod.splits sum.splits list.splits)
  have c: "schema ''addressbooks'' \<noteq> []" "set (map fst [(''owner'', JStr owner)]) \<subseteq> set (schema ''addressbooks'')"
    by (simp_all add: books book_cols_def)
  note q = svc_get_star [OF g(1) assms(3) c]
  have m: "matches [(''owner'', JStr owner)] = (\<lambda>x. owner = [] \<or> sql_eq (getp x ''owner'') (JStr owner))"
    by (rule ext) (simp add: matches_one)
  show ?thesis
  proof (cases r)
    case None
    then have "q = Inr rs \<Longrightarrow> rs = []" for rs using g(2) by (cases rs) auto
    then show ?thesis using q None m by auto
  next
    case (Some ab)
    then obtain rest where "q = Inr (ab # rest)" using g(2) by (auto split: sum.splits list.splits)
    then have e: "add_mset ab (mset rest) = {# x \<in># tab (sv_db s) ''addressbooks''. matches [(''owner'', JStr owner)] x #}"
      using q by simp
    have "ab \<in># add_mset ab (mset rest)" by simp
    then have "ab \<in># tab (sv_db s) ''addressbooks''" "matches [(''owner'', JStr owner)] ab"
      unfolding e by auto
    then show ?thesis using q Some m by (auto simp: sql_eq_def)
  qed
qed

lemma create_book:
  assumes "ab_db env = d" "createUserAddressBook env owner s = (r, s')" "wf (sv_db s)"
  shows "wf (sv_db s') \<and> (healthy (sv_db s) \<longrightarrow> healthy (sv_db s')) \<and> sv_next s' = Suc (sv_next s) \<and>
    sv_slept s' = sv_slept s \<and>
    (case r of
       Inr ab \<Rightarrow> ab = book_row (ab_uuid env (sv_next s)) owner \<and> tab (sv_db s') = (tab (sv_db s))
         (''addressbooks'' := add_mset (book_row (ab_uuid env (sv_next s)) owner) (tab (sv_db s) ''addressbooks''))
     | Inl e \<Rightarrow> tab (sv_db s') = tab (sv_db s) \<and> (healthy (sv_db s) \<longrightarrow>
         (\<exists>x \<in># tab (sv_db s) ''addressbooks''. sql_eq (getp x ''id'') (JStr (ab_uuid env (sv_next s))))))"
proof -
  let ?u = "ab_uuid env (sv_next s)"
  let ?vs = "[(''owner'', JStr owner), (''id'', JStr ?u)]"
  obtain q x where g: "db_insert d ''addressbooks'' ?vs (sv_db s) = (q, x)"
    by fastforce
  have s': "s' = s\<lparr>sv_next := Suc (sv_next s), sv_db := x\<rparr>"
    "r = (case q of Inl e \<Rightarrow> Inl e | Inr [] \<Rightarrow> Inl (Err ''Failed to create addressbook: no data returned'')
          | Inr (ab # _) \<Rightarrow> Inr ab)"
    using assms(1,2) g
    by (auto simp: createUserAddressBook_def next_uuid_def on_db_def split: sum.splits list.splits)
  have c: "schema ''addressbooks'' \<noteq> []" "?vs \<noteq> []" "set (map fst ?vs) \<subseteq> set (schema ''addressbooks'')"
    by (simp_all add: books book_cols_def)
  have row: "complete (schema ''addressbooks'') (stored_obj ?vs) = book_row ?u owner"
    by (simp add: books book_cols_def complete_def stored_obj_def stored_def book_row_def)
  note i = insert_law [OF assms(3) c g, unfolded row]
  show ?thesis using i s' by (cases q) (auto simp: books book_row_def)
qed

text \<open>
  Getting or creating a book on a healthy database: an owner's book is found; otherwise one row is
  added for the owner, under a fresh identifier, on the first attempt.
\<close>

lemma create_loop_frame:
  "ab_db env = d \<Longrightarrow> create_loop env owner n s = (r, s') \<Longrightarrow> wf (sv_db s) \<Longrightarrow>
   wf (sv_db s') \<and> (healthy (sv_db s) \<longrightarrow> healthy (sv_db s')) \<and>
   (\<exists>new. tab (sv_db s') = (tab (sv_db s))(''addressbooks'' := new + tab (sv_db s) ''addressbooks'') \<and>
      (\<forall>b \<in># new. getp b ''owner'' = JStr owner) \<and> size new \<le> 1 \<and>
      (\<forall>ab. r = Inr ab \<longrightarrow> ab \<in># new + tab (sv_db s) ''addressbooks''))"
proof (induction env owner n s arbitrary: r s' rule: create_loop.induct)
  case (1 env owner s)
  then show ?case by (intro conjI exI [of _ "{#}"]) auto
next
  case (2 env owner k s)
  obtain c s1 where c: "createUserAddressBook env owner s = (c, s1)" by fastforce
  note cb = create_book [OF 2(2) c 2(4)]
  show ?case
  proof (cases c)
    case (Inr ab)
    then have "r = Inr ab" "s' = s1" using 2(3) c by auto
    then show ?thesis using cb Inr
      by (intro conjI exI [of _ "{#ab#}"]) (auto simp: book_row_def)
  next
    case (Inl e)
    have t1: "tab (sv_db s1) = tab (sv_db s)" "wf (sv_db s1)" "healthy (sv_db s) \<longrightarrow> healthy (sv_db s1)"
      using cb Inl by auto
    show ?thesis
    proof (cases "isDuplicateKeyError e")
      case False
      then have "r = Inl e" "s' = s1" using 2(3) c Inl by auto
      then show ?thesis using t1 by (intro conjI exI [of _ "{#}"]) auto
    next
      case True
      obtain g s2 where g: "getUserAddressBook env owner s1 = (g, s2)" by fastforce
      note ub = user_book [OF 2(2) g t1(2)]
      show ?thesis
      proof (cases g)
        case (Some ab)
        then have "r = Inr ab" "s' = s2" using 2(3) c Inl True g by auto
        then show ?thesis using t1 ub Some by (intro conjI exI [of _ "{#}"]) auto
      next
        case None
        let ?s3 = "if 0 < k then s2\<lparr>sv_slept := sv_slept s2 @ [2 ^ (2 - k) * 100]\<rparr> else s2"
        have l: "create_loop env owner k ?s3 = (r, s')" using 2(3) c Inl True g None by auto
        have s3: "sv_db ?s3 = sv_db s2" by simp
        show ?thesis
          using "2.IH" [OF c [symmetric] Inl True g [symmetric] None 2(2) l] ub t1 unfolding s3 by simp
      qed
    qed
  qed
qed

lemma get_or_create:
  assumes "ab_db env = d" "getOrCreateUserAddressBook env owner s = (r, s')" "wf (sv_db s)"
  shows "wf (sv_db s') \<and> (healthy (sv_db s) \<longrightarrow> healthy (sv_db s')) \<and>
   (\<exists>new. tab (sv_db s') = (tab (sv_db s))(''addressbooks'' := new + tab (sv_db s) ''addressbooks'') \<and>
      (\<forall>b \<in># new. getp b ''owner'' = JStr owner) \<and> size new \<le> 1 \<and>
      (\<forall>ab. r = Inr ab \<longrightarrow> ab \<in># new + tab (sv_db s) ''addressbooks''))"
proof (cases "owner = []")
  case True
  then show ?thesis using assms by (intro conjI exI [of _ "{#}"]) (auto simp: getOrCreateUserAddressBook_def)
next
  case False
  obtain g s1 where g: "getUserAddressBook env owner s = (g, s1)" by fastforce
  note ub = user_book [OF assms(1) g assms(3)]
  show ?thesis
  proof (cases g)
    case (Some ab)
    then have "r = Inr ab" "s' = s1" using assms(2) g False by (auto simp: getOrCreateUserAddressBook_def)
    then show ?thesis using ub Some by (intro conjI exI [of _ "{#}"]) auto
  next
    case None
    then have "create_loop env owner 3 s1 = (r, s')"
      using assms(2) g False by (simp add: getOrCreateUserAddressBook_def)
    from create_loop_frame [OF assms(1) this] ub show ?thesis by simp
  qed
qed

lemma get_or_create_healthy:
  assumes "ab_db env = d" "getOrCreateUserAddressBook env owner s = (r, s')" "wf (sv_db s)"
    "healthy (sv_db s)" "owner \<noteq> []"
    "\<And>x. x \<in># tab (sv_db s) ''addressbooks'' \<Longrightarrow> \<not> sql_eq (getp x ''id'') (JStr (ab_uuid env (sv_next s)))"
  shows "if {# x \<in># tab (sv_db s) ''addressbooks''. sql_eq (getp x ''owner'') (JStr owner) #} = {#}
    then r = Inr (book_row (ab_uuid env (sv_next s)) owner) \<and> sv_next s' = Suc (sv_next s) \<and>
      tab (sv_db s') = (tab (sv_db s))(''addressbooks'' :=
        add_mset (book_row (ab_uuid env (sv_next s)) owner) (tab (sv_db s) ''addressbooks''))
    else (\<exists>ab. r = Inr ab \<and> ab \<in># tab (sv_db s) ''addressbooks'' \<and> sql_eq (getp ab ''owner'') (JStr owner)) \<and>
      sv_next s' = sv_next s \<and> tab (sv_db s') = tab (sv_db s)"
proof -
  let ?mine = "{# x \<in># tab (sv_db s) ''addressbooks''. sql_eq (getp x ''owner'') (JStr owner) #}"
  obtain g s1 where g: "getUserAddressBook env owner s = (g, s1)" by fastforce
  note ub = user_book [OF assms(1) g assms(3)]
  have n1: "sv_next s1 = sv_next s" using ub by (metis svc.select_convs(2) svc.surjective svc.update_convs(1))
  show ?thesis
  proof (cases g)
    case (Some ab)
    then have "ab \<in># ?mine" using ub assms(5) by auto
    then have ne: "?mine \<noteq> {#}" by auto
    have "r = Inr ab" "s' = s1" using assms(2,5) g Some by (auto simp: getOrCreateUserAddressBook_def)
    then show ?thesis using ub Some assms(5) n1 unfolding if_not_P [OF ne] by auto
  next
    case None
    then have e: "?mine = {#}" using ub assms(4,5) by simp
    have t1: "wf (sv_db s1)" "healthy (sv_db s1)" "tab (sv_db s1) = tab (sv_db s)" using ub assms(4) by auto
    have l: "create_loop env owner 3 s1 = (r, s')"
      using assms(2,5) g None by (simp add: getOrCreateUserAddressBook_def)
    obtain c s2 where c: "createUserAddressBook env owner s1 = (c, s2)" by fastforce
    note cb = create_book [OF assms(1) c t1(1), unfolded n1 t1(3)]
    obtain ab where ab: "c = Inr ab" using cb t1(2) assms(6) by (cases c) auto
    then have "r = Inr ab" "s' = s2" using l c by (simp_all add: numeral_3_eq_3)
    then show ?thesis using cb ab unfolding if_P [OF e] by auto
  qed
qed

end

lemma text_field_normalize [simp]:
  "f \<noteq> ''active'' \<Longrightarrow> text_field f (normalizeContact c) = text_field f c"
  by (simp add: text_field_def normalizeContact_def)

lemma mxid_normalize [simp]: "getp (normalizeContact c) ''mxid'' = getp c ''mxid''"
  by (simp add: normalizeContact_def)

text \<open>The pure part of the listing, for any rows.\<close>

definition listing :: "(string \<Rightarrow> string \<Rightarrow> int) \<Rightarrow> obj list \<Rightarrow> obj list" where
  "listing collate rows = sortByStringField collate
     (deduplicateByMxid (sortByStringField collate (map normalizeContact (filter validateContactData rows)) ''id'' True))
     ''display_name'' True"

lemma listing_spec:
  assumes "collation collate"
  shows "sorted_wrt (\<lambda>a b. field_cmp collate ''display_name'' True a b \<le> 0) (listing collate rows)"
    and "distinct (map (\<lambda>c. getp c ''mxid'') (listing collate rows))"
    and "c \<in> set (listing collate rows) \<Longrightarrow> \<exists>r \<in> set rows. validateContactData r \<and> c = normalizeContact r"
    and "r \<in> set rows \<Longrightarrow> validateContactData r \<Longrightarrow> \<exists>c \<in> set (listing collate rows).
      getp c ''mxid'' = getp r ''mxid'' \<and> field_cmp collate ''id'' True c r \<le> 0"
proof -
  let ?n = "map normalizeContact (filter validateContactData rows)"
  let ?s = "js_sort (field_cmp collate ''id'' True) ?n"
  have l: "listing collate rows = js_sort (field_cmp collate ''display_name'' True) (dedup_from [] ?s)"
    by (simp add: listing_def sortByStringField_def deduplicateByMxid_def)
  show "sorted_wrt (\<lambda>a b. field_cmp collate ''display_name'' True a b \<le> 0) (listing collate rows)"
    unfolding l by (rule collation.field_sorted [OF assms])
  have "mset (map (\<lambda>c. getp c ''mxid'') (listing collate rows)) = mset (map (\<lambda>c. getp c ''mxid'') (dedup_from [] ?s))"
    unfolding l by simp
  then show "distinct (map (\<lambda>c. getp c ''mxid'') (listing collate rows))"
    using dedup_distinct [of "[]" ?s] by (metis mset_eq_imp_distinct_iff)
  show "\<exists>r \<in> set rows. validateContactData r \<and> c = normalizeContact r" if "c \<in> set (listing collate rows)"
    using that dedup_subset [of "[]" ?s] by (auto simp: l)
  show "\<exists>c \<in> set (listing collate rows). getp c ''mxid'' = getp r ''mxid'' \<and> field_cmp collate ''id'' True c r \<le> 0"
    if r: "r \<in> set rows" "validateContactData r"
  proof -
    have "\<exists>k \<in> set (dedup_from [] ?s). getp k ''mxid'' = getp (normalizeContact r) ''mxid'' \<and>
        field_cmp collate ''id'' True k (normalizeContact r) \<le> 0"
    proof (rule dedup_first)
      show "sorted_wrt (\<lambda>a b. field_cmp collate ''id'' True a b \<le> 0) ?s"
        by (rule collation.field_sorted [OF assms])
      show "field_cmp collate ''id'' True c c \<le> 0" for c
        by (rule collation.field_refl [OF assms])
    qed (use r in auto)
    then show ?thesis by (auto simp: l field_cmp_def)
  qed
qed

context addressbook_db
begin

lemma list_contacts:
  assumes "ab_db env = d" "listAddressbookContacts env abid s = (cs, s')" "wf (sv_db s)"
    "healthy (sv_db s)" "abid \<noteq> []"
  shows "wf (sv_db s') \<and> healthy (sv_db s') \<and> tab (sv_db s') = tab (sv_db s) \<and>
    (\<exists>rows. mset rows = {# r \<in># tab (sv_db s) ''contacts''. sql_eq (getp r ''addressbook_id'') (JStr abid) #} \<and>
       cs = listing (ab_collate env) rows)"
proof -
  obtain q where g: "on_db (db_get d ''contacts'' [''*''] (Some [(''addressbook_id'', JStr abid)]) None) s = (q, s')"
    "cs = (case q of Inl _ \<Rightarrow> [] | Inr rows \<Rightarrow> if filter validateContactData rows = [] then []
       else listing (ab_collate env) rows)"
    using assms(1,2)
    by (auto simp: listAddressbookContacts_def fetchContactsFromDb_def listing_def Let_def
        split: prod.splits sum.splits if_splits)
  have c: "schema ''contacts'' \<noteq> []"
    "set (map fst [(''addressbook_id'', JStr abid)]) \<subseteq> set (schema ''contacts'')"
    by (simp_all add: contacts contact_cols_def)
  note q = svc_get_star [OF g(1) assms(3) c]
  obtain rows where rows: "q = Inr rows" using q assms(4) by auto
  have "matches [(''addressbook_id'', JStr abid)] = (\<lambda>r. sql_eq (getp r ''addressbook_id'') (JStr abid))"
    using assms(5) by (intro ext) (simp add: matches_one)
  then have m: "mset rows = {# r \<in># tab (sv_db s) ''contacts''. sql_eq (getp r ''addressbook_id'') (JStr abid) #}"
    using q rows by simp
  have "listing (ab_collate env) rows = []" if "filter validateContactData rows = []"
    using that by (simp add: listing_def sortByStringField_def deduplicateByMxid_def js_sort_def)
  then have "cs = listing (ab_collate env) rows" using g(2) rows by simp
  with q m assms(4) show ?thesis by blast
qed

text \<open>Deleting the book of an owner: its contacts and its row, nothing else.\<close>

lemma delete_book_spec:
  assumes "ab_db env = d" "delete_book env owner s = (Inr u, s')" "wf (sv_db s)" "owner \<noteq> []"
  shows "wf (sv_db s') \<and> (\<exists>ab. ab \<in># tab (sv_db s) ''addressbooks'' \<and> sql_eq (getp ab ''owner'') (JStr owner) \<and>
    tab (sv_db s') = (tab (sv_db s))
      (''contacts'' := {# r \<in># tab (sv_db s) ''contacts''. \<not> sql_eq (getp r ''addressbook_id'') (getp ab ''id'') #},
       ''addressbooks'' := {# r \<in># tab (sv_db s) ''addressbooks''. \<not> sql_eq (getp r ''id'') (getp ab ''id'') #}))"
proof -
  obtain q s1 where g: "on_db (db_get d ''addressbooks'' [''id''] (Some [(''owner'', JStr owner)]) None) s = (q, s1)"
    by fastforce
  have c: "schema ''addressbooks'' \<noteq> []" "set (map fst [(''owner'', JStr owner)]) \<subseteq> set (schema ''addressbooks'')"
    "[''id''] = [''*''] \<or> set [''id''] \<subseteq> set (schema ''addressbooks'')"
    by (simp_all add: books book_cols_def)
  note q = svc_get [OF g assms(3) c]
  obtain row rest where rows: "q = Inr (row # rest)"
    using assms(1,2) g by (auto simp: delete_book_def split: sum.splits list.splits)
  obtain s2 where d1: "on_db (db_deleteEqual d ''contacts'' ''addressbook_id'' (getp row ''id'')) s1 = (Inr (), s2)"
    "on_db (db_deleteEqual d ''addressbooks'' ''id'' (getp row ''id'')) s2 = (Inr u, s')"
    using assms(1,2) g rows by (auto simp: delete_book_def split: prod.splits sum.splits)
  have "mset (row # rest) = {# project [''id''] x. x \<in># {# x \<in># tab (sv_db s) ''addressbooks''.
      matches [(''owner'', JStr owner)] x #} #}" using q rows by blast
  then have "row \<in># {# project [''id''] x. x \<in># {# x \<in># tab (sv_db s) ''addressbooks''.
      matches [(''owner'', JStr owner)] x #} #}" by (metis list.set_intros(1) set_mset_mset)
  then obtain ab where ab: "ab \<in># tab (sv_db s) ''addressbooks''" "sql_eq (getp ab ''owner'') (JStr owner)"
    "getp row ''id'' = getp ab ''id''"
    using assms(4) by (auto simp: matches_one project_def)
  obtain x2 where x2: "db_deleteEqual d ''contacts'' ''addressbook_id'' (getp ab ''id'') (sv_db s1) = (Inr (), x2)"
    "s2 = s1\<lparr>sv_db := x2\<rparr>"
    using d1(1) ab(3) by (auto elim!: on_dbE)
  obtain x3 where x3: "db_deleteEqual d ''addressbooks'' ''id'' (getp ab ''id'') x2 = (Inr u, x3)"
    "s' = s2\<lparr>sv_db := x3\<rparr>"
    using d1(2) ab(3) x2(2) by (auto elim!: on_dbE)
  have f: "''addressbook_id'' \<in> set (schema ''contacts'')" "''id'' \<in> set (schema ''addressbooks'')"
    by (simp_all add: books book_cols_def contacts contact_cols_def)
  have w1: "wf (sv_db s1)" "tab (sv_db s1) = tab (sv_db s)" using q by auto
  have w2: "wf x2" "tab x2 = (tab (sv_db s))(''contacts'' :=
      {# r \<in># tab (sv_db s) ''contacts''. \<not> sql_eq (getp r ''addressbook_id'') (getp ab ''id'') #})"
    using delete_law [OF w1(1) f(1) x2(1)] w1(2) by auto
  have w3: "wf x3" "tab x3 = (tab x2)(''addressbooks'' :=
      {# r \<in># tab x2 ''addressbooks''. \<not> sql_eq (getp r ''id'') (getp ab ''id'') #})"
    using delete_law [OF w2(1) f(2) x3(1)] by auto
  show ?thesis using ab w2 w3 x3(2) by (intro conjI exI [of _ ab]) auto
qed

end

text \<open>
  A contact payload that passed validation with text fields, and the row of the book that stands
  for it.
\<close>

definition named_contact :: "jsval \<Rightarrow> bool" where
  "named_contact c = (case (field c ''mxid'', field c ''display_name'') of
     (JStr m, JStr n) \<Rightarrow> m \<noteq> [] \<and> n \<noteq> [] | _ \<Rightarrow> False)"

definition stands_for :: "string \<Rightarrow> jsval \<Rightarrow> obj \<Rightarrow> bool" where
  "stands_for abid c r \<longleftrightarrow> sql_eq (getp r ''mxid'') (field c ''mxid'') \<and>
     sql_eq (getp r ''display_name'') (field c ''display_name'') \<and> sql_eq (getp r ''addressbook_id'') (JStr abid)"

definition contact_row :: "string \<Rightarrow> string \<Rightarrow> jsval \<Rightarrow> obj" where
  "contact_row uuid abid c =
     [(''id'', JStr uuid), (''addressbook_id'', JStr abid), (''mxid'', field c ''mxid''),
      (''display_name'', field c ''display_name''), (''active'', JNum 1)]"

lemma named_contactE:
  assumes "named_contact c"
  obtains m n where "field c ''mxid'' = JStr m" "m \<noteq> []" "field c ''display_name'' = JStr n" "n \<noteq> []"
  using assms by (auto simp: named_contact_def split: jsval.splits)

lemma contact_row_stands: "named_contact c \<Longrightarrow> stands_for abid c (contact_row uuid abid c)"
  by (erule named_contactE) (simp add: stands_for_def contact_row_def sql_eq_def)

text \<open>Two payloads one row stands for name the same contact.\<close>

lemma stands_for_same:
  assumes "named_contact c" "stands_for abid c' (contact_row uuid abid c)" "stands_for abid c' r"
  shows "stands_for abid c r"
  using assms by (elim named_contactE) (auto simp: stands_for_def contact_row_def sql_eq_def)

text \<open>
  The payloads that adding \<open>cs\<close> to a book whose contacts are \<open>old\<close> has to store: of the payloads that
  name the same contact the first one, when no old row stands for it; and the rows stored for them,
  one each, under the identifiers handed out from \<open>n\<close> on.
\<close>

definition contact_names :: "jsval \<Rightarrow> jsval \<times> jsval" where
  "contact_names c = (field c ''mxid'', field c ''display_name'')"

fun first_requests :: "jsval list \<Rightarrow> jsval list" where
  "first_requests [] = []"
| "first_requests (c # cs) = c # filter (\<lambda>c'. contact_names c' \<noteq> contact_names c) (first_requests cs)"

definition missing_from :: "string \<Rightarrow> obj multiset \<Rightarrow> jsval list \<Rightarrow> jsval list" where
  "missing_from abid old cs = filter (\<lambda>c. \<forall>w \<in># old. \<not> stands_for abid c w) (first_requests cs)"

definition rows_for :: "'s ab_env \<Rightarrow> nat \<Rightarrow> string \<Rightarrow> jsval list \<Rightarrow> obj list" where
  "rows_for env n abid cs = map (\<lambda>(i, c). contact_row (ab_uuid env i) abid c) (enumerate n cs)"

lemma rows_for_simps [simp]:
  "rows_for env n abid [] = []"
  "rows_for env n abid (c # cs) = contact_row (ab_uuid env n) abid c # rows_for env (Suc n) abid cs"
  by (simp_all add: rows_for_def)

lemma stands_for_names: "contact_names c = contact_names c' \<Longrightarrow> stands_for abid c r = stands_for abid c' r"
  by (simp add: contact_names_def stands_for_def)

lemma stands_for_row:
  "named_contact c \<Longrightarrow> named_contact c' \<Longrightarrow>
   stands_for abid c' (contact_row uuid abid c) \<longleftrightarrow> contact_names c' = contact_names c"
  by (elim named_contactE) (auto simp: stands_for_def contact_row_def contact_names_def sql_eq_def)

lemma first_requests_subset: "set (first_requests cs) \<subseteq> set cs"
  by (induction cs) auto

lemma missing_skip:
  assumes "w \<in># old" "stands_for abid c w"
  shows "missing_from abid old (c # cs) = missing_from abid old cs"
proof -
  have "\<not> stands_for abid c' w \<Longrightarrow> contact_names c' \<noteq> contact_names c" for c'
    using stands_for_names [of c' c abid w] assms(2) by blast
  then show ?thesis using assms unfolding missing_from_def by (auto intro!: filter_cong)
qed

lemma missing_new:
  assumes "named_contact c" "list_all named_contact cs" "\<forall>w \<in># old. \<not> stands_for abid c w"
  shows "missing_from abid old (c # cs) =
    c # missing_from abid (add_mset (contact_row uuid abid c) old) cs"
proof -
  have "stands_for abid c' (contact_row uuid abid c) \<longleftrightarrow> contact_names c' = contact_names c"
    if "c' \<in> set (first_requests cs)" for c'
    using stands_for_row [OF assms(1)] that assms(2) first_requests_subset [of cs] by (auto simp: list_all_iff)
  then show ?thesis using assms(3) unfolding missing_from_def by (auto intro!: filter_cong)
qed

context addressbook_db
begin

lemma check_exists:
  assumes "ab_db env = d" "checkIfContactExists env c (JStr abid) s = (b, s')" "wf (sv_db s)"
    "healthy (sv_db s)" "named_contact c" "abid \<noteq> []"
  shows "wf (sv_db s') \<and> healthy (sv_db s') \<and> tab (sv_db s') = tab (sv_db s) \<and> sv_next s' = sv_next s \<and>
    (b \<longleftrightarrow> (\<exists>r \<in># tab (sv_db s) ''contacts''. stands_for abid c r))"
proof -
  let ?f = "[(''mxid'', field c ''mxid''), (''display_name'', field c ''display_name''), (''addressbook_id'', JStr abid)]"
  obtain q where g: "on_db (db_get d ''contacts'' [''*''] (Some ?f) None) s = (q, s')"
    "b = (case q of Inl _ \<Rightarrow> False | Inr rows \<Rightarrow> rows \<noteq> [])"
    using assms(1,2) by (auto simp: checkIfContactExists_def split: prod.splits sum.splits)
  have c: "schema ''contacts'' \<noteq> []" "set (map fst ?f) \<subseteq> set (schema ''contacts'')"
    by (simp_all add: contacts contact_cols_def)
  note q = svc_get_star [OF g(1) assms(3) c]
  obtain rows where rows: "q = Inr rows" using q assms(4) by auto
  have "matches ?f = stands_for abid c"
    using assms(5,6)
    by (intro ext) (auto elim!: named_contactE simp: matches_def kept_def match_val_def stands_for_def)
  then have "mset rows = {# x \<in># tab (sv_db s) ''contacts''. stands_for abid c x #}" using q rows by simp
  then have "rows = [] \<longleftrightarrow> {# x \<in># tab (sv_db s) ''contacts''. stands_for abid c x #} = {#}" by (metis mset_zero_iff)
  moreover have "sv_next s' = sv_next s"
    using q by (metis svc.select_convs(2) svc.surjective svc.update_convs(1))
  ultimately show ?thesis using q g(2) rows assms(4) by auto
qed

lemma insert_contact:
  assumes "ab_db env = d" "insertContact env c (JStr abid) s = (b, s')" "wf (sv_db s)"
    "healthy (sv_db s)" "named_contact c"
    "\<And>r. r \<in># tab (sv_db s) ''contacts'' \<Longrightarrow> \<not> sql_eq (getp r ''id'') (JStr (ab_uuid env (sv_next s)))"
  shows "wf (sv_db s') \<and> healthy (sv_db s') \<and> sv_next s' = Suc (sv_next s) \<and>
    b = Some (normalizeContact (contact_row (ab_uuid env (sv_next s)) abid c)) \<and>
    tab (sv_db s') = (tab (sv_db s))(''contacts'' :=
      add_mset (contact_row (ab_uuid env (sv_next s)) abid c) (tab (sv_db s) ''contacts''))"
proof -
  let ?u = "ab_uuid env (sv_next s)"
  let ?vs = "[(''mxid'', field c ''mxid''), (''display_name'', field c ''display_name''), (''active'', JNum 1),
     (''id'', JStr ?u), (''addressbook_id'', JStr abid)]"
  obtain q x where g: "db_insert d ''contacts'' ?vs (sv_db s) = (q, x)" by fastforce
  have s': "s' = s\<lparr>sv_next := Suc (sv_next s), sv_db := x\<rparr>"
    "b = (case q of Inr (r # _) \<Rightarrow> Some (normalizeContact r) | _ \<Rightarrow> None)"
    using assms(1,2) g
    by (auto simp: insertContact_def next_uuid_def on_db_def split: sum.splits list.splits)
  have c: "schema ''contacts'' \<noteq> []" "?vs \<noteq> []" "set (map fst ?vs) \<subseteq> set (schema ''contacts'')"
    by (simp_all add: contacts contact_cols_def)
  have row: "complete (schema ''contacts'') (stored_obj ?vs) = contact_row ?u abid c"
    using assms(5)
    by (elim named_contactE)
       (simp add: contacts contact_cols_def complete_def stored_obj_def stored_def contact_row_def)
  note i = insert_law [OF assms(3) c g, unfolded row]
  show ?thesis using i s' assms(4,6) by (cases q) (auto simp: contacts contact_row_def)
qed

lemma add_loop_spec:
  assumes "ab_db env = d" "abid \<noteq> []" "inj (ab_uuid env)" "\<And>n. ab_uuid env n \<noteq> []"
  shows "add_loop env (JStr abid) cs s = (created, s') \<Longrightarrow> wf (sv_db s) \<Longrightarrow> healthy (sv_db s) \<Longrightarrow>
    list_all named_contact cs \<Longrightarrow>
    (\<And>n r. sv_next s \<le> n \<Longrightarrow> r \<in># tab (sv_db s) ''contacts'' \<Longrightarrow> \<not> sql_eq (getp r ''id'') (JStr (ab_uuid env n))) \<Longrightarrow>
    wf (sv_db s') \<and> healthy (sv_db s') \<and>
      created = map normalizeContact (rows_for env (sv_next s) abid (missing_from abid (tab (sv_db s) ''contacts'') cs)) \<and>
      tab (sv_db s') = (tab (sv_db s))(''contacts'' :=
        mset (rows_for env (sv_next s) abid (missing_from abid (tab (sv_db s) ''contacts'') cs)) + tab (sv_db s) ''contacts'')"
proof (induction cs arbitrary: s created s')
  case Nil
  then show ?case by (auto simp: missing_from_def)
next
  case (Cons c cs)
  obtain b s1 where ck: "checkIfContactExists env c (JStr abid) s = (b, s1)" by fastforce
  have nc: "named_contact c" "list_all named_contact cs" using Cons.prems(4) by auto
  note k = check_exists [OF assms(1) ck Cons.prems(2,3) nc(1) assms(2)]
  have k1: "wf (sv_db s1)" "healthy (sv_db s1)" "tab (sv_db s1) = tab (sv_db s)" "sv_next s1 = sv_next s"
    using k by auto
  show ?case
  proof (cases b)
    case True
    then have l: "add_loop env (JStr abid) cs s1 = (created, s')" using Cons.prems(1) ck by simp
    have f: "\<not> sql_eq (getp r ''id'') (JStr (ab_uuid env n))"
      if "sv_next s1 \<le> n" "r \<in># tab (sv_db s1) ''contacts''" for n r
      using that Cons.prems(5) k1 by simp
    note n = Cons.IH [OF l k1(1,2) nc(2) f, unfolded k1(3,4)]
    obtain w where "w \<in># tab (sv_db s) ''contacts''" "stands_for abid c w" using k True by blast
    note sk = missing_skip [OF this, of cs]
    show ?thesis unfolding sk by (rule n)
  next
    case False
    obtain m s2 where ins: "insertContact env c (JStr abid) s1 = (m, s2)" by fastforce
    let ?row = "contact_row (ab_uuid env (sv_next s)) abid c"
    have "\<not> sql_eq (getp r ''id'') (JStr (ab_uuid env (sv_next s1)))" if "r \<in># tab (sv_db s1) ''contacts''" for r
      using that Cons.prems(5) [of "sv_next s"] k1 by simp
    from insert_contact [OF assms(1) ins k1(1,2) nc(1) this]
    have i: "wf (sv_db s2)" "healthy (sv_db s2)" "sv_next s2 = Suc (sv_next s)" "m = Some (normalizeContact ?row)"
      "tab (sv_db s2) = (tab (sv_db s))(''contacts'' := add_mset ?row (tab (sv_db s) ''contacts''))"
      using k1 by auto
    obtain rest where l: "add_loop env (JStr abid) cs s2 = (rest, s')"
      using Cons.prems(1) ck False ins by (auto split: prod.splits)
    have t: "truthy (getp (normalizeContact ?row) ''id'')"
      using assms(4) by (simp add: normalizeContact_def contact_row_def)
    have cr: "created = normalizeContact ?row # rest"
      using Cons.prems(1) ck False ins l i(4) t by simp
    have f: "\<not> sql_eq (getp r ''id'') (JStr (ab_uuid env n))"
      if "sv_next s2 \<le> n" "r \<in># tab (sv_db s2) ''contacts''" for n r
    proof (cases "r = ?row")
      case True
      have "ab_uuid env (sv_next s) \<noteq> ab_uuid env n" using assms(3) that(1) i(3) by (auto dest: injD)
      with True show ?thesis by (simp add: contact_row_def sql_eq_def)
    next
      case False
      then show ?thesis using that i(3,5) Cons.prems(5) [of n r] by simp
    qed
    note n = Cons.IH [OF l i(1,2) nc(2) f, unfolded i(3,5)]
    have "\<forall>w \<in># tab (sv_db s) ''contacts''. \<not> stands_for abid c w" using k False by blast
    note new = missing_new [OF nc this, of "ab_uuid env (sv_next s)"]
    show ?thesis unfolding new using n cr by (simp add: fun_eq_iff)
  qed
qed

end

text \<open>Who may touch a contact: the user owns the book the contact with that identifier is in.\<close>

definition owns_contact :: "(string \<Rightarrow> obj multiset) \<Rightarrow> string \<Rightarrow> string \<Rightarrow> bool" where
  "owns_contact tables user cid \<longleftrightarrow> (\<exists>c ab. c \<in># tables ''contacts'' \<and> sql_eq (getp c ''id'') (JStr cid) \<and>
     ab \<in># tables ''addressbooks'' \<and> matches [(''id'', getp c ''addressbook_id'')] ab \<and>
     getp ab ''owner'' = JStr user)"

definition other_contacts :: "string \<Rightarrow> obj multiset \<Rightarrow> obj multiset" where
  "other_contacts cid rows = {# r \<in># rows. \<not> sql_eq (getp r ''id'') (JStr cid) #}"

lemma other_contacts_update:
  assumes "''id'' \<notin> set (map fst vs)"
  shows "other_contacts cid {# if sql_eq (getp r ''id'') (JStr cid) then assign vs r else r. r \<in># rows #} =
    other_contacts cid rows"
proof (induction rows)
  case (add r rows)
  have "getp (assign vs r) ''id'' = getp r ''id''" by (rule getp_assign_other [OF assms])
  with add show ?case by (auto simp: other_contacts_def)
qed (simp add: other_contacts_def)

context addressbook_db
begin

lemma ownership_pass:
  assumes "ab_db env = d" "checkContactOwnership env req s = (g, s')" "wf (sv_db s)" "path_param req ''id'' \<noteq> []"
  shows "wf (sv_db s') \<and> tab (sv_db s') = tab (sv_db s) \<and>
    (g = Pass \<longrightarrow> has_user req \<and> owns_contact (tab (sv_db s)) (user_of req) (path_param req ''id''))"
proof (cases "has_user req")
  case False
  then show ?thesis using assms(2,3) by (auto simp: checkContactOwnership_def)
next
  case True
  let ?cid = "path_param req ''id''"
  obtain q s1 where g1: "on_db (db_get d ''contacts'' [''*''] (Some [(''id'', JStr ?cid)]) None) s = (q, s1)"
    by fastforce
  have c: "schema ''contacts'' \<noteq> []" "set (map fst [(''id'', x)]) \<subseteq> set (schema ''contacts'')"
    "schema ''addressbooks'' \<noteq> []" "set (map fst [(''id'', x)]) \<subseteq> set (schema ''addressbooks'')" for x :: jsval
    by (simp_all add: contacts contact_cols_def books book_cols_def)
  note q1 = svc_get_star [OF g1 assms(3) c(1,2)]
  show ?thesis
  proof (cases "\<exists>contact rest. q = Inr (contact # rest)")
    case False
    then have "mw_getContact env ?cid s = (None, s1)"
      using g1 assms(1) by (auto simp: mw_getContact_def split: sum.splits list.splits)
    then have "s' = s1" "g \<noteq> Pass" using assms(2) True by (auto simp: checkContactOwnership_def)
    then show ?thesis using q1 by simp
  next
    case c1: True
    then obtain contact rest where ct: "q = Inr (contact # rest)" by blast
    then have m1: "mw_getContact env ?cid s = (Some contact, s1)"
      using g1 assms(1) by (simp add: mw_getContact_def)
    have "contact \<in># mset (contact # rest)" by simp
    then have "contact \<in># {# x \<in># tab (sv_db s) ''contacts''. matches [(''id'', JStr ?cid)] x #}"
      using q1 ct by metis
    then have cc: "contact \<in># tab (sv_db s) ''contacts''" "sql_eq (getp contact ''id'') (JStr ?cid)"
      using assms(4) by (auto simp: matches_one)
    have w1: "wf (sv_db s1)" "tab (sv_db s1) = tab (sv_db s)" using q1 by auto
    obtain p s2 where g2: "on_db (db_get d ''addressbooks'' [''*'']
        (Some [(''id'', getp contact ''addressbook_id'')]) None) s1 = (p, s2)"
      by fastforce
    note q2 = svc_get_star [OF g2 w1(1) c(3,4)]
    show ?thesis
    proof (cases "\<exists>ab rest. p = Inr (ab # rest)")
      case False
      then have "mw_getAddressbook env (getp contact ''addressbook_id'') s1 = (None, s2)"
        using g2 assms(1) by (auto simp: mw_getAddressbook_def split: sum.splits list.splits)
      then have "s' = s2" "g \<noteq> Pass" using assms(2) True m1 by (auto simp: checkContactOwnership_def)
      then show ?thesis using q2 w1 by simp
    next
      case c2: True
      then obtain ab rest2 where ab: "p = Inr (ab # rest2)" by blast
      then have "mw_getAddressbook env (getp contact ''addressbook_id'') s1 = (Some ab, s2)"
        using g2 assms(1) by (simp add: mw_getAddressbook_def)
      then have r: "s' = s2" "g = Pass \<longrightarrow> getp ab ''owner'' = JStr (user_of req)"
        using assms(2) True m1 by (auto simp: checkContactOwnership_def split: if_splits)
      have "ab \<in># mset (ab # rest2)" by simp
      then have "ab \<in># {# x \<in># tab (sv_db s1) ''addressbooks''. matches [(''id'', getp contact ''addressbook_id'')] x #}"
        using q2 ab by metis
      then show ?thesis using r q2 w1 cc True by (auto simp: owns_contact_def)
    qed
  qed
qed

lemma update_contact_frame:
  assumes "ab_db env = d" "updateContact env cid c s = (r, s')" "wf (sv_db s)"
  shows "\<exists>rows. tab (sv_db s') = (tab (sv_db s))(''contacts'' := rows) \<and>
    other_contacts cid rows = other_contacts cid (tab (sv_db s) ''contacts'')"
proof -
  define vs where "vs = (''display_name'', field c ''display_name'') #
      (if field c ''active'' \<noteq> Undef then [(''active'', to_number (field c ''active''))] else [])"
  obtain q x where u: "db_update d ''contacts'' vs ''id'' (JStr cid) (sv_db s) = (q, x)" by fastforce
  have s': "sv_db s' = x"
    using assms(1,2) u
    by (auto simp: updateContact_def on_db_def vs_def Let_def split: sum.splits list.splits if_splits)
  have cols: "schema ''contacts'' \<noteq> []" "vs \<noteq> []" "set (''id'' # map fst vs) \<subseteq> set (schema ''contacts'')"
    by (auto simp: contacts contact_cols_def vs_def)
  have "''id'' \<notin> set (map fst (stored_obj vs))" by (auto simp: stored_obj_def vs_def)
  note oc = other_contacts_update [OF this]
  show ?thesis
  proof (cases q)
    case (Inl e)
    then show ?thesis using update_law [OF assms(3) cols u] s'
      by (intro exI [of _ "tab (sv_db s) ''contacts''"]) auto
  next
    case (Inr rs)
    then show ?thesis using update_law [OF assms(3) cols u] s' oc by auto
  qed
qed

lemma delete_contact_frame:
  assumes "ab_db env = d" "deleteContact env cid s = (r, s')" "wf (sv_db s)"
  shows "\<exists>rows. tab (sv_db s') = (tab (sv_db s))(''contacts'' := rows) \<and>
    other_contacts cid rows = other_contacts cid (tab (sv_db s) ''contacts'')"
proof -
  obtain x where u: "db_deleteEqual d ''contacts'' ''id'' (JStr cid) (sv_db s) = (r, x)" "sv_db s' = x"
    using assms(1,2) by (auto simp: deleteContact_def elim!: on_dbE)
  have f: "''id'' \<in> set (schema ''contacts'')" by (simp add: contacts contact_cols_def)
  show ?thesis
  proof (cases r)
    case (Inl e)
    then show ?thesis using delete_law [OF assms(3) f u(1)] u(2)
      by (intro exI [of _ "tab (sv_db s) ''contacts''"]) auto
  next
    case (Inr y)
    then show ?thesis using delete_law [OF assms(3) f u(1)] u(2)
      by (intro exI [of _ "{# r \<in># tab (sv_db s) ''contacts''. \<not> sql_eq (getp r ''id'') (JStr cid) #}"])
         (simp add: other_contacts_def filter_filter_mset)
  qed
qed

end

section \<open>Properties\<close>

lemma tom_schema_books: "schema_of tom_tables ''addressbooks'' = book_cols" "key_of tom_tables ''addressbooks'' = [''id'']"
  unfolding tom_schema tom_key by code_simp+

lemma tom_schema_contacts: "schema_of tom_tables ''contacts'' = contact_cols" "key_of tom_tables ''contacts'' = [''id'']"
  unfolding tom_schema tom_key by code_simp+

interpretation book: addressbook_db "mem_db dia" "store_wf tom_tables" store_healthy rows_of
    "schema_of tom_tables" "key_of tom_tables"
  for dia
  by (unfold_locales) (fact tom_schema_books tom_schema_contacts)+

lemma tom_book:
  "tom_database d ok healthy tab \<Longrightarrow> addressbook_db d ok healthy tab (schema_of tom_tables) (key_of tom_tables)"
  by (intro addressbook_db.intro addressbook_db_axioms.intro) (simp_all add: tom_schema_books tom_schema_contacts)

definition demo_env :: "dialect \<Rightarrow> store ab_env" where
  "demo_env dia = \<lparr>ab_db = mem_db dia, ab_uuid = (\<lambda>n. CHR ''u'' # nat_str n), ab_users = None,
     ab_features = False, ab_server = ''twake.app'', ab_collate = code_unit_compare\<rparr>"

definition demo_contact :: "string \<Rightarrow> string \<Rightarrow> string \<Rightarrow> obj" where
  "demo_contact cid mxid name = [(''id'', JStr cid), (''addressbook_id'', JStr ''b1''), (''mxid'', JStr mxid),
     (''display_name'', JStr name), (''active'', JNum 1)]"

text \<open>A book of ann with three rows, two of them for the same person.\<close>

definition demo_svc :: "store svc" where
  "demo_svc = \<lparr>sv_db = with_rows (with_rows tom_store ''addressbooks'' [book_row ''b1'' ''@ann:x'']) ''contacts''
       [demo_contact ''c3'' ''@bob:x'' ''Robert'', demo_contact ''c2'' ''@eve:x'' ''Eve'', demo_contact ''c1'' ''@bob:x'' ''Bob''],
     sv_next = 0, sv_slept = []\<rparr>"

lemma demo_svc_facts: "store_wf tom_tables (sv_db demo_svc)" "faults (sv_db demo_svc) = []"
  "rows_of (sv_db demo_svc) = (\<lambda>t. {#})(''addressbooks'' := {#book_row ''b1'' ''@ann:x''#},
     ''contacts'' := {#demo_contact ''c3'' ''@bob:x'' ''Robert'', demo_contact ''c2'' ''@eve:x'' ''Eve'',
       demo_contact ''c1'' ''@bob:x'' ''Bob''#})"
proof -
  let ?s = "with_rows tom_store ''addressbooks'' [book_row ''b1'' ''@ann:x'']"
  let ?cs = "[demo_contact ''c3'' ''@bob:x'' ''Robert'', demo_contact ''c2'' ''@eve:x'' ''Eve'', demo_contact ''c1'' ''@bob:x'' ''Bob'']"
  have t: "store_wf tom_tables ?s" "rows_of ?s = (rows_of tom_store)(''addressbooks'' := mset [book_row ''b1'' ''@ann:x''])"
    "faults ?s = faults tom_store"
    by (rule with_rows_ok [OF tom_store_wf]; simp add: tom_schema_books book_cols_def book_row_def keys_of_def)+
  have d: "sv_db demo_svc = with_rows ?s ''contacts'' ?cs" by (simp add: demo_svc_def)
  have p: "store_wf tom_tables (sv_db demo_svc)" "rows_of (sv_db demo_svc) = (rows_of ?s)(''contacts'' := mset ?cs)"
    "faults (sv_db demo_svc) = faults ?s"
    unfolding d
    by (rule with_rows_ok [OF t(1)]; simp add: tom_schema_contacts contact_cols_def demo_contact_def keys_of_def)+
  show "store_wf tom_tables (sv_db demo_svc)" "faults (sv_db demo_svc) = []"
    "rows_of (sv_db demo_svc) = (\<lambda>t. {#})(''addressbooks'' := {#book_row ''b1'' ''@ann:x''#},
     ''contacts'' := {#demo_contact ''c3'' ''@bob:x'' ''Robert'', demo_contact ''c2'' ''@eve:x'' ''Eve'',
       demo_contact ''c1'' ''@bob:x'' ''Bob''#})"
    using t p by (auto simp: tom_store_rows fun_eq_iff)
qed

lemmas demo_svc_wf = demo_svc_facts(1)

lemma demo_svc_healthy: "store_healthy (sv_db demo_svc)"
  by (simp add: store_healthy_def demo_svc_facts)

lemma demo_svc_rows:
  "rows_of (sv_db demo_svc) ''addressbooks'' = {#book_row ''b1'' ''@ann:x''#}"
  "rows_of (sv_db demo_svc) ''contacts'' = {#demo_contact ''c3'' ''@bob:x'' ''Robert'',
     demo_contact ''c2'' ''@eve:x'' ''Eve'', demo_contact ''c1'' ''@bob:x'' ''Bob''#}"
  by (simp_all add: demo_svc_facts)

lemma demo_env_db [simp]: "ab_db (demo_env dia) = mem_db dia"
  by (simp add: demo_env_def)

lemma demo_tom: "tom_database (ab_db (demo_env dia)) (store_wf tom_tables) store_healthy rows_of"
  by (simp add: mem_tom)

text \<open>What a contact route does once the ownership check has let the request pass.\<close>

definition contact_route :: "'s ab_env \<Rightarrow> ab_route \<Rightarrow> request \<Rightarrow> 's svc \<Rightarrow> response \<times> 's svc" where
  "contact_route env route req s =
     (case route of
        PutContact \<Rightarrow> with_guard (validateContactUpdate req, s) (c_updateContact env req)
      | DeleteContact \<Rightarrow> c_deleteContact env req s
      | _ \<Rightarrow> c_fetchContact env req s)"

lemma contact_route_frame:
  assumes "tom_database (ab_db env) ok healthy tab" "ok (sv_db s)" "contact_route env route req s = (resp, s')"
  shows "\<exists>rows. tab (sv_db s') = (tab (sv_db s))(''contacts'' := rows) \<and>
     other_contacts (path_param req ''id'') rows = other_contacts (path_param req ''id'') (tab (sv_db s) ''contacts'')"
proof -
  note adb = tom_book [OF assms(1)]
  have same: "\<exists>rows. tab (sv_db s) = (tab (sv_db s))(''contacts'' := rows) \<and>
      other_contacts (path_param req ''id'') rows = other_contacts (path_param req ''id'') (tab (sv_db s) ''contacts'')"
    by (intro exI [of _ "tab (sv_db s) ''contacts''"]) simp
  have fetch: ?thesis if f: "c_fetchContact env req s = (resp, s')"
  proof -
    obtain q where "on_db (db_get (ab_db env) ''contacts'' [''*''] (Some [(''id'', JStr (path_param req ''id''))]) None) s = (q, s')"
      using f by (auto simp: c_fetchContact_def getContact_def split: prod.splits option.splits sum.splits list.splits)
    from addressbook_db.svc_get_star [OF adb this assms(2)] show ?thesis
      using same by (simp add: tom_schema_contacts contact_cols_def)
  qed
  have update: ?thesis if r: "route = PutContact"
  proof (cases "validateContactUpdate req")
    case (Done r)
    then show ?thesis using assms(3) that same by (simp add: contact_route_def with_guard_def)
  next
    case Pass
    then obtain q where "updateContact env (path_param req ''id'') (body req) s = (q, s')"
      using assms(3) r
      by (auto simp: contact_route_def with_guard_def c_updateContact_def split: prod.splits option.splits)
    from addressbook_db.update_contact_frame [OF adb refl this assms(2)] show ?thesis .
  qed
  have delete: ?thesis if r: "route = DeleteContact"
  proof -
    obtain q where "deleteContact env (path_param req ''id'') s = (q, s')"
      using assms(3) r by (auto simp: contact_route_def c_deleteContact_def split: prod.splits sum.splits)
    from addressbook_db.delete_contact_frame [OF adb refl this assms(2)] show ?thesis .
  qed
  show ?thesis using fetch update delete assms(3) by (cases route) (auto simp: contact_route_def)
qed

text \<open>
  C4: A contact can be read, changed or deleted through the API only by the owner of the address
  book it is in: whenever one of the three contact routes answers 200 or changes the database, the
  request is authenticated and its user owns the book of the contact named in the path; and
  whatever happens, all other contacts and all other tables stay as they are.
\<close>

theorem contact_routes_owner_only:
  assumes "tom_database (ab_db env) ok healthy tab" "ok (sv_db s)" "path_param req0 ''id'' \<noteq> []"
    "route \<in> {GetContact, PutContact, DeleteContact}"
    "ab_handle env info authenticator route req0 s = (resp, s')"
  shows "((\<exists>b. resp = Json 200 b) \<and> (\<forall>r. authenticator req0 \<noteq> Answered r) \<or> tab (sv_db s') \<noteq> tab (sv_db s) \<longrightarrow>
      (\<exists>req. authMiddleware authenticator req0 = Inr req \<and> has_user req \<and>
         owns_contact (tab (sv_db s)) (user_of req) (path_param req0 ''id''))) \<and>
    (\<exists>rows. tab (sv_db s') = (tab (sv_db s))(''contacts'' := rows) \<and>
       other_contacts (path_param req0 ''id'') rows =
       other_contacts (path_param req0 ''id'') (tab (sv_db s) ''contacts''))"
proof (cases "authMiddleware authenticator req0")
  case (Inl r)
  have "(\<exists>r. authenticator req0 = Answered r) \<or> r = Json 401 (JObj [(''error'', JStr ''Unauthorized'')])"
    using Inl by (auto simp: authMiddleware_def Let_def split: auth_outcome.splits option.splits if_splits)
  then show ?thesis using Inl assms(5)
    by (auto simp: ab_handle_def intro!: exI [of _ "tab (sv_db s) ''contacts''"])
next
  case (Inr req)
  have p: "path_param req ''id'' = path_param req0 ''id''"
    using Inr by (auto simp: authMiddleware_def Let_def path_param_def split: auth_outcome.splits option.splits if_splits)
  obtain g s1 where g: "checkContactOwnership env req s = (g, s1)" by fastforce
  have oc: "ok (sv_db s1)" "tab (sv_db s1) = tab (sv_db s)"
    "g = Pass \<longrightarrow> has_user req \<and> owns_contact (tab (sv_db s)) (user_of req) (path_param req0 ''id'')"
    using addressbook_db.ownership_pass [OF tom_book [OF assms(1)] refl g assms(2)] assms(3) p by auto
  show ?thesis
  proof (cases g)
    case (Done r)
    have "r \<noteq> Json 200 b" for b
      using g Done by (auto simp: checkContactOwnership_def message_def split: if_splits prod.splits option.splits)
    moreover have "resp = r" "s' = s1"
      using assms(4,5) Inr g Done by (auto simp: ab_handle_def with_guard_def)
    ultimately show ?thesis using oc by (auto intro!: exI [of _ "tab (sv_db s) ''contacts''"])
  next
    case Pass
    have own: "has_user req" "owns_contact (tab (sv_db s)) (user_of req) (path_param req0 ''id'')"
      using oc(3) Pass by auto
    have fr: "\<exists>rows. tab (sv_db s') = (tab (sv_db s1))(''contacts'' := rows) \<and>
        other_contacts (path_param req ''id'') rows = other_contacts (path_param req ''id'') (tab (sv_db s1) ''contacts'')"
      using assms(4,5) Inr g Pass
      by (intro contact_route_frame [OF assms(1) oc(1), of route req resp])
         (auto simp: ab_handle_def contact_route_def with_guard_def)
    show ?thesis using own fr Inr oc(2) p by auto
  qed
qed

definition demo_auth :: "request \<Rightarrow> auth_outcome" where
  "demo_auth r = CalledBack [(''sub'', JStr ''@ann:x'')] (Some None)"

definition demo_req :: request where
  "demo_req = \<lparr>userId = None, accessToken = None, params = [(''id'', ''c2'')], query = [], body = Undef, headers = []\<rparr>"

theorem contact_routes_owner_only_witness:
  "fst (ab_handle (demo_env SQLITE) None demo_auth DeleteContact demo_req demo_svc) =
     message 200 ''Contact deleted'' \<and>
   (\<exists>req. authMiddleware demo_auth demo_req = Inr req \<and> has_user req \<and>
      owns_contact (rows_of (sv_db demo_svc)) (user_of req) ''c2'')"
proof
  show f: "fst (ab_handle (demo_env SQLITE) None demo_auth DeleteContact demo_req demo_svc) =
      message 200 ''Contact deleted''"
    by code_simp
  obtain resp s' where h: "ab_handle (demo_env SQLITE) None demo_auth DeleteContact demo_req demo_svc = (resp, s')"
    by fastforce
  have p: "path_param demo_req ''id'' = ''c2''" by code_simp
  have "resp = message 200 ''Contact deleted''" using f h by simp
  then show "\<exists>req. authMiddleware demo_auth demo_req = Inr req \<and> has_user req \<and>
      owns_contact (rows_of (sv_db demo_svc)) (user_of req) ''c2''"
    using contact_routes_owner_only [OF demo_tom demo_svc_wf _ _ h] p
    by (auto simp: message_def demo_auth_def)
qed

text \<open>
  The listing of an address book on a healthy database: its contacts are sorted by display name
  with nameless ones last, no Matrix identifier occurs twice, each is a valid row of this book with
  its activity flag as a boolean, and for every valid row of the book the listing has the contact
  of the same Matrix identifier with the least identifier, the one created first.
\<close>

theorem listing_correct:
  assumes "js_comparator (ab_collate env)" "tom_database (ab_db env) ok healthy tab" "ok (sv_db s)"
    "healthy (sv_db s)" "abid \<noteq> []" "listAddressbookContacts env abid s = (cs, s')"
  shows "sorted_wrt (\<lambda>a b. field_cmp (ab_collate env) ''display_name'' True a b \<le> 0) cs \<and>
    distinct (map (\<lambda>c. getp c ''mxid'') cs) \<and>
    (\<forall>c \<in> set cs. \<exists>r \<in># tab (sv_db s) ''contacts''. sql_eq (getp r ''addressbook_id'') (JStr abid) \<and>
       validateContactData r \<and> c = normalizeContact r) \<and>
    (\<forall>r \<in># tab (sv_db s) ''contacts''. sql_eq (getp r ''addressbook_id'') (JStr abid) \<and> validateContactData r \<longrightarrow>
       (\<exists>c \<in> set cs. getp c ''mxid'' = getp r ''mxid'' \<and> field_cmp (ab_collate env) ''id'' True c r \<le> 0)) \<and>
    tab (sv_db s') = tab (sv_db s)"
proof -
  have coll: "collation (ab_collate env)" using assms(1) by (rule collation.intro)
  obtain rows where rows: "mset rows = {# r \<in># tab (sv_db s) ''contacts''. sql_eq (getp r ''addressbook_id'') (JStr abid) #}"
    "cs = listing (ab_collate env) rows" "tab (sv_db s') = tab (sv_db s)"
    using addressbook_db.list_contacts [OF tom_book [OF assms(2)] refl assms(6,3,4,5)] by blast
  have m: "r \<in> set rows \<longleftrightarrow> r \<in># tab (sv_db s) ''contacts'' \<and> sql_eq (getp r ''addressbook_id'') (JStr abid)" for r
    using rows(1) by (metis (no_types, lifting) mem_Collect_eq set_mset_filter set_mset_mset)
  note l = listing_spec [OF coll, where rows = rows]
  show ?thesis unfolding rows(2)
  proof (intro conjI)
    show "\<forall>c \<in> set (listing (ab_collate env) rows). \<exists>r \<in># tab (sv_db s) ''contacts''.
        sql_eq (getp r ''addressbook_id'') (JStr abid) \<and> validateContactData r \<and> c = normalizeContact r"
      using l(3) m by blast
    show "\<forall>r \<in># tab (sv_db s) ''contacts''. sql_eq (getp r ''addressbook_id'') (JStr abid) \<and> validateContactData r \<longrightarrow>
        (\<exists>c \<in> set (listing (ab_collate env) rows). getp c ''mxid'' = getp r ''mxid'' \<and>
          field_cmp (ab_collate env) ''id'' True c r \<le> 0)"
      using l(4) m by blast
  qed (fact l(1) l(2) rows(3))+
qed

theorem listing_correct_witness:
  "\<exists>cs s'. listAddressbookContacts (demo_env PG) ''b1'' demo_svc = (cs, s') \<and>
     distinct (map (\<lambda>c. getp c ''mxid'') cs) \<and>
     cs = [normalizeContact (demo_contact ''c1'' ''@bob:x'' ''Bob''), normalizeContact (demo_contact ''c2'' ''@eve:x'' ''Eve'')]"
proof -
  obtain cs s' where l: "listAddressbookContacts (demo_env PG) ''b1'' demo_svc = (cs, s')" by fastforce
  have "fst (listAddressbookContacts (demo_env PG) ''b1'' demo_svc) =
      [normalizeContact (demo_contact ''c1'' ''@bob:x'' ''Bob''), normalizeContact (demo_contact ''c2'' ''@eve:x'' ''Eve'')]"
    by code_simp
  moreover have "js_comparator (ab_collate (demo_env PG))"
    unfolding demo_env_def by (simp add: cu.js_comparator_axioms)
  ultimately show ?thesis
    using listing_correct [OF _ demo_tom demo_svc_wf demo_svc_healthy _ l] l by simp
qed

text \<open>
  An owner has one address book: on a healthy database looking it up or creating it returns
  the owner's book and changes nothing when there is one, and otherwise stores exactly one new
  book, of this owner and under a new identifier, and returns it.
\<close>

theorem get_or_create_once:
  assumes "tom_database (ab_db env) ok healthy tab" "ok (sv_db s)" "healthy (sv_db s)" "owner \<noteq> []"
    "\<And>x. x \<in># tab (sv_db s) ''addressbooks'' \<Longrightarrow> \<not> sql_eq (getp x ''id'') (JStr (ab_uuid env (sv_next s)))"
    "getOrCreateUserAddressBook env owner s = (r, s')"
  shows "if {# x \<in># tab (sv_db s) ''addressbooks''. sql_eq (getp x ''owner'') (JStr owner) #} = {#}
    then r = Inr (book_row (ab_uuid env (sv_next s)) owner) \<and> sv_next s' = Suc (sv_next s) \<and>
      tab (sv_db s') = (tab (sv_db s))(''addressbooks'' :=
        add_mset (book_row (ab_uuid env (sv_next s)) owner) (tab (sv_db s) ''addressbooks''))
    else (\<exists>ab. r = Inr ab \<and> ab \<in># tab (sv_db s) ''addressbooks'' \<and> sql_eq (getp ab ''owner'') (JStr owner)) \<and>
      sv_next s' = sv_next s \<and> tab (sv_db s') = tab (sv_db s)"
  by (rule addressbook_db.get_or_create_healthy [OF tom_book [OF assms(1)] refl assms(6,2,3,4,5)])

theorem get_or_create_once_witness:
  "fst (getOrCreateUserAddressBook (demo_env PG) ''@dan:x'' demo_svc) = Inr (book_row ''u0'' ''@dan:x'') \<and>
   fst (getOrCreateUserAddressBook (demo_env PG) ''@ann:x'' demo_svc) = Inr (book_row ''b1'' ''@ann:x'')"
proof
  have u: "ab_uuid (demo_env PG) (sv_next demo_svc) = ''u0''" by code_simp
  have f: "\<not> sql_eq (getp x ''id'') (JStr (ab_uuid (demo_env PG) (sv_next demo_svc)))"
    if "x \<in># rows_of (sv_db demo_svc) ''addressbooks''" for x
    using that unfolding u by (simp add: demo_svc_rows book_row_def sql_eq_def)
  obtain r s' where d: "getOrCreateUserAddressBook (demo_env PG) ''@dan:x'' demo_svc = (r, s')" by fastforce
  show "fst (getOrCreateUserAddressBook (demo_env PG) ''@dan:x'' demo_svc) = Inr (book_row ''u0'' ''@dan:x'')"
    using get_or_create_once [OF demo_tom demo_svc_wf demo_svc_healthy _ f d] d
    by (simp add: demo_svc_rows book_row_def sql_eq_def u)
  obtain r' s'' where a: "getOrCreateUserAddressBook (demo_env PG) ''@ann:x'' demo_svc = (r', s'')" by fastforce
  show "fst (getOrCreateUserAddressBook (demo_env PG) ''@ann:x'' demo_svc) = Inr (book_row ''b1'' ''@ann:x'')"
    using get_or_create_once [OF demo_tom demo_svc_wf demo_svc_healthy _ f a] a
    by (simp add: demo_svc_rows book_row_def sql_eq_def)
qed

text \<open>
  C26: Adding contacts with a user identifier and a name, on a database without failures: the answer
  is the owner's book (one he had, or else a new one) with exactly one created contact for each
  requested contact that the book does not have yet (the first of those that name the same contact),
  in the order of the request; the same rows are what the table of contacts gains, and it loses none.
\<close>

theorem addContacts_correct:
  assumes "tom_database (ab_db env) ok healthy tab" "ok (sv_db s)" "healthy (sv_db s)"
    "inj (ab_uuid env)" "\<And>n. ab_uuid env n \<noteq> []" "list_all named_contact cs" "owner \<noteq> []"
    "\<And>n t r. t \<in> {''contacts'', ''addressbooks''} \<Longrightarrow> r \<in># tab (sv_db s) t \<Longrightarrow>
       \<not> sql_eq (getp r ''id'') (JStr (ab_uuid env n))"
    "\<And>x. x \<in># tab (sv_db s) ''addressbooks'' \<Longrightarrow> \<exists>i. getp x ''id'' = JStr i \<and> i \<noteq> []"
    "addContacts env owner cs s = (res, s')"
  shows "\<exists>ab abid n books. getp ab ''id'' = JStr abid \<and>
    (if \<exists>x \<in># tab (sv_db s) ''addressbooks''. sql_eq (getp x ''owner'') (JStr owner)
     then n = sv_next s \<and> ab \<in># tab (sv_db s) ''addressbooks'' \<and> sql_eq (getp ab ''owner'') (JStr owner) \<and>
       books = tab (sv_db s) ''addressbooks''
     else n = Suc (sv_next s) \<and> ab = book_row (ab_uuid env (sv_next s)) owner \<and>
       books = add_mset ab (tab (sv_db s) ''addressbooks'')) \<and>
    (let new = rows_for env n abid (missing_from abid (tab (sv_db s) ''contacts'') cs)
     in res = Some \<lparr>al_id = JStr abid, al_owner = owner, al_contacts = map normalizeContact new\<rparr> \<and>
        tab (sv_db s') = (tab (sv_db s))
          (''addressbooks'' := books, ''contacts'' := mset new + tab (sv_db s) ''contacts''))"
proof -
  let ?mine = "{# x \<in># tab (sv_db s) ''addressbooks''. sql_eq (getp x ''owner'') (JStr owner) #}"
  obtain r s1 where g: "getOrCreateUserAddressBook env owner s = (r, s1)" by fastforce
  have fb: "\<not> sql_eq (getp x ''id'') (JStr (ab_uuid env (sv_next s)))"
    if "x \<in># tab (sv_db s) ''addressbooks''" for x
    using assms(8) [of "''addressbooks''" x] that by simp
  note h = addressbook_db.get_or_create_healthy [OF tom_book [OF assms(1)] refl g assms(2,3,7) fb]
  define n where "n = sv_next s1"
  define books where "books = tab (sv_db s1) ''addressbooks''"
  have ex: "(\<exists>x \<in># tab (sv_db s) ''addressbooks''. sql_eq (getp x ''owner'') (JStr owner)) \<longleftrightarrow> ?mine \<noteq> {#}"
    by auto
  obtain ab where ab: "r = Inr ab" "tab (sv_db s1) = (tab (sv_db s))(''addressbooks'' := books)"
    "if ?mine \<noteq> {#}
     then n = sv_next s \<and> ab \<in># tab (sv_db s) ''addressbooks'' \<and> sql_eq (getp ab ''owner'') (JStr owner) \<and>
       books = tab (sv_db s) ''addressbooks''
     else n = Suc (sv_next s) \<and> ab = book_row (ab_uuid env (sv_next s)) owner \<and>
       books = add_mset ab (tab (sv_db s) ''addressbooks'')"
    proof (cases "?mine = {#}")
      case True
      show thesis by (rule that [of "book_row (ab_uuid env (sv_next s)) owner"])
        (use h in \<open>simp_all only: if_P [OF True] True n_def books_def simp_thms if_False fun_upd_same fun_upd_upd\<close>)
    next
      case False
      obtain ab where "r = Inr ab" "ab \<in># tab (sv_db s) ''addressbooks''" "sql_eq (getp ab ''owner'') (JStr owner)"
        "sv_next s1 = sv_next s" "tab (sv_db s1) = tab (sv_db s)"
        using h unfolding if_not_P [OF False] by blast
      then show thesis by (intro that [of ab]) (simp_all only: False n_def books_def simp_thms if_True fun_upd_triv)
    qed
  have "\<exists>i. getp ab ''id'' = JStr i \<and> i \<noteq> []"
    using ab(3) assms(5,9) by (auto simp: book_row_def split: if_splits)
  then obtain abid where abid: "getp ab ''id'' = JStr abid" "abid \<noteq> []" by blast
  have w1: "ok (sv_db s1)" "healthy (sv_db s1)"
    using addressbook_db.get_or_create [OF tom_book [OF assms(1)] refl g assms(2)] assms(3) by auto
  have t1: "tab (sv_db s1) ''contacts'' = tab (sv_db s) ''contacts''" unfolding ab(2) by simp
  obtain created s2 where l: "add_loop env (JStr abid) cs s1 = (created, s2)" by fastforce
  have res: "res = Some \<lparr>al_id = JStr abid, al_owner = owner, al_contacts = created\<rparr>" "s' = s2"
    using assms(10) g ab(1) l abid(1) by (simp_all add: addContacts_def)
  have f: "\<not> sql_eq (getp r ''id'') (JStr (ab_uuid env m))"
    if "sv_next s1 \<le> m" "r \<in># tab (sv_db s1) ''contacts''" for m r
    using assms(8) [of "''contacts''" r m] that t1 by simp
  note new = addressbook_db.add_loop_spec [OF tom_book [OF assms(1)] refl abid(2) assms(4,5) l w1 assms(6) f,
      unfolded t1, folded n_def]
  show ?thesis unfolding ex Let_def
    by (intro exI [of _ ab] exI [of _ abid] exI [of _ n] exI [of _ books] conjI abid(1) ab(3))
       (simp_all add: res new ab(2))
qed

definition new_contacts :: "jsval list" where
  "new_contacts = [JObj [(''mxid'', JStr ''@eve:x''), (''display_name'', JStr ''Eve'')],
     JObj [(''mxid'', JStr ''@zoe:x''), (''display_name'', JStr ''Zoe'')]]"

lemma inj_demo_uuid: "inj (ab_uuid (demo_env dia))"
proof (rule injI)
  fix m n assume "ab_uuid (demo_env dia) m = ab_uuid (demo_env dia) n"
  then have "nat_str m = nat_str n" by (simp add: demo_env_def)
  then show "m = n" by (metis dec_val_nat_str)
qed

theorem addContacts_correct_witness:
  "map (\<lambda>c. getp c ''mxid'') (al_contacts (the (fst (addContacts (demo_env SQLITE) ''@ann:x''
     (new_contacts @ new_contacts) demo_svc)))) = [JStr ''@zoe:x''] \<and>
   size (rows_of (sv_db (snd (addContacts (demo_env SQLITE) ''@ann:x'' (new_contacts @ new_contacts) demo_svc)))
     ''contacts'') = 4"
proof -
  let ?cs = "new_contacts @ new_contacts"
  obtain res s' where a: "addContacts (demo_env SQLITE) ''@ann:x'' ?cs demo_svc = (res, s')" by fastforce
  have f: "\<not> sql_eq (getp r ''id'') (JStr (ab_uuid (demo_env SQLITE) n))"
    if "t \<in> {''contacts'', ''addressbooks''}" "r \<in># rows_of (sv_db demo_svc) t" for n t r
    using that by (auto simp: demo_svc_rows book_row_def demo_contact_def demo_env_def sql_eq_def)
  have u: "ab_uuid (demo_env SQLITE) n \<noteq> []" for n by (simp add: demo_env_def)
  have c: "list_all named_contact ?cs" by (simp add: new_contacts_def named_contact_def field_def)
  have i: "\<exists>i. getp x ''id'' = JStr i \<and> i \<noteq> []" if "x \<in># rows_of (sv_db demo_svc) ''addressbooks''" for x
    using that by (simp add: demo_svc_rows book_row_def)
  have mine: "\<exists>x \<in># rows_of (sv_db demo_svc) ''addressbooks''. sql_eq (getp x ''owner'') (JStr ''@ann:x'')"
    by (simp add: demo_svc_rows book_row_def sql_eq_def)
  have m: "missing_from ''b1'' (rows_of (sv_db demo_svc) ''contacts'') ?cs = tl new_contacts"
    by (simp add: missing_from_def demo_svc_rows demo_contact_def new_contacts_def contact_names_def
        stands_for_def sql_eq_def field_def)
  have "\<exists>ab abid n books. getp ab ''id'' = JStr abid \<and>
    (n = sv_next demo_svc \<and> ab \<in># rows_of (sv_db demo_svc) ''addressbooks'' \<and>
      sql_eq (getp ab ''owner'') (JStr ''@ann:x'') \<and> books = rows_of (sv_db demo_svc) ''addressbooks'') \<and>
    (let new = rows_for (demo_env SQLITE) n abid (missing_from abid (rows_of (sv_db demo_svc) ''contacts'') ?cs)
     in res = Some \<lparr>al_id = JStr abid, al_owner = ''@ann:x'', al_contacts = map normalizeContact new\<rparr> \<and>
        rows_of (sv_db s') = (rows_of (sv_db demo_svc))
          (''addressbooks'' := books, ''contacts'' := mset new + rows_of (sv_db demo_svc) ''contacts''))"
    by (rule addContacts_correct [OF demo_tom demo_svc_wf demo_svc_healthy inj_demo_uuid u c _ _ _ a, unfolded if_P [OF mine]])
       (simp, rule f, assumption, assumption, rule i)
  then obtain ab abid n books where e: "getp ab ''id'' = JStr abid" "ab \<in># rows_of (sv_db demo_svc) ''addressbooks''"
    "let new = rows_for (demo_env SQLITE) n abid (missing_from abid (rows_of (sv_db demo_svc) ''contacts'') ?cs)
     in res = Some \<lparr>al_id = JStr abid, al_owner = ''@ann:x'', al_contacts = map normalizeContact new\<rparr> \<and>
        rows_of (sv_db s') = (rows_of (sv_db demo_svc))
          (''addressbooks'' := books, ''contacts'' := mset new + rows_of (sv_db demo_svc) ''contacts'')"
    by (elim exE conjE) (rule that)
  have "abid = ''b1''" using e(1,2) by (simp add: demo_svc_rows book_row_def)
  then have r: "res = Some \<lparr>al_id = JStr ''b1'', al_owner = ''@ann:x'',
      al_contacts = map normalizeContact (rows_for (demo_env SQLITE) n ''b1'' (tl new_contacts))\<rparr>"
    "rows_of (sv_db s') ''contacts'' =
      mset (rows_for (demo_env SQLITE) n ''b1'' (tl new_contacts)) + rows_of (sv_db demo_svc) ''contacts''"
    using e(3) m by (simp_all add: Let_def)
  show ?thesis unfolding a by (simp add: r new_contacts_def contact_row_def demo_svc_rows field_def)
qed

text \<open>
  Deleting an address book removes the owner's book and the contacts of this book, and leaves
  every other book, every other contact and every other table alone.
\<close>

theorem delete_book_exact:
  assumes "tom_database (ab_db env) ok healthy tab" "ok (sv_db s)" "owner \<noteq> []"
    "delete_book env owner s = (Inr u, s')"
  shows "\<exists>ab. ab \<in># tab (sv_db s) ''addressbooks'' \<and> sql_eq (getp ab ''owner'') (JStr owner) \<and>
    tab (sv_db s') = (tab (sv_db s))
      (''contacts'' := {# r \<in># tab (sv_db s) ''contacts''. \<not> sql_eq (getp r ''addressbook_id'') (getp ab ''id'') #},
       ''addressbooks'' := {# r \<in># tab (sv_db s) ''addressbooks''. \<not> sql_eq (getp r ''id'') (getp ab ''id'') #})"
  using addressbook_db.delete_book_spec [OF tom_book [OF assms(1)] refl assms(4,2,3)] by blast

theorem delete_book_exact_witness:
  "rows_of (sv_db (snd (delete_book (demo_env SQLITE) ''@ann:x'' demo_svc))) ''contacts'' = {#} \<and>
   rows_of (sv_db (snd (delete_book (demo_env SQLITE) ''@ann:x'' demo_svc))) ''addressbooks'' = {#}"
proof -
  have "fst (delete_book (demo_env SQLITE) ''@ann:x'' demo_svc) = Inr ()" by code_simp
  then obtain s' where d: "delete_book (demo_env SQLITE) ''@ann:x'' demo_svc = (Inr (), s')"
    by (metis prod.collapse)
  show ?thesis
    using delete_book_exact [OF demo_tom demo_svc_wf _ d] d
    by (auto simp: demo_svc_rows book_row_def demo_contact_def sql_eq_def)
qed

text \<open>
  A single failing lookup gives an owner a second address book: when the read of the existing
  book reports an error, \<open>getOrCreateUserAddressBook\<close> swallows it and creates another book for the
  same owner, which no constraint of the table forbids.
\<close>

theorem failed_lookup_creates_second_book:
  assumes "tom_database (ab_db env) ok healthy tab" "ok (sv_db s)" "owner \<noteq> []"
    "db_get (ab_db env) ''addressbooks'' [''*''] (Some [(''owner'', JStr owner)]) None (sv_db s) = (Inl e, x)" "healthy x"
    "\<And>r. r \<in># tab (sv_db s) ''addressbooks'' \<Longrightarrow> \<not> sql_eq (getp r ''id'') (JStr (ab_uuid env (sv_next s)))"
  shows "tab (sv_db (snd (getOrCreateUserAddressBook env owner s))) ''addressbooks'' =
    add_mset (book_row (ab_uuid env (sv_next s)) owner) (tab (sv_db s) ''addressbooks'')"
proof -
  let ?s1 = "s\<lparr>sv_db := x\<rparr>"
  have x: "ok x" "tab x = tab (sv_db s)"
    using table_db.get_one_Inl [OF assms(1,4,2)] by (simp_all add: tom_schema_books book_cols_def)
  have "getUserAddressBook env owner s = (None, ?s1)"
    using assms(4) by (simp add: getUserAddressBook_def on_db_def)
  then have g: "getOrCreateUserAddressBook env owner s = create_loop env owner 3 ?s1"
    using assms(3) by (simp add: getOrCreateUserAddressBook_def)
  obtain c s2 where c: "createUserAddressBook env owner ?s1 = (c, s2)" by fastforce
  have w: "ok (sv_db ?s1)" "healthy (sv_db ?s1)" using x assms(5) by simp_all
  note cb = addressbook_db.create_book [OF tom_book [OF assms(1)] refl c w(1)]
  obtain ab where "c = Inr ab" using cb w(2) assms(6) x(2) by (cases c) auto
  then show ?thesis using g c cb x(2) by (simp add: numeral_3_eq_3)
qed

theorem failed_lookup_creates_second_book_witness:
  "rows_of (sv_db (snd (getOrCreateUserAddressBook (demo_env PG) ''@ann:x''
      (demo_svc\<lparr>sv_db := (sv_db demo_svc)\<lparr>faults := [Some (Err ''timeout'')]\<rparr>\<rparr>)))) ''addressbooks'' =
   {#book_row ''u0'' ''@ann:x'', book_row ''b1'' ''@ann:x''#}"
proof -
  let ?s = "demo_svc\<lparr>sv_db := (sv_db demo_svc)\<lparr>faults := [Some (Err ''timeout'')]\<rparr>\<rparr>"
  have u: "ab_uuid (demo_env PG) (sv_next ?s) = ''u0''" by code_simp
  have f: "\<not> sql_eq (getp r ''id'') (JStr (ab_uuid (demo_env PG) (sv_next ?s)))"
    if "r \<in># rows_of (sv_db ?s) ''addressbooks''" for r
    using that unfolding u by (simp add: demo_svc_rows book_row_def sql_eq_def)
  have w: "store_wf tom_tables (sv_db ?s)" using demo_svc_wf by simp
  have g: "db_get (ab_db (demo_env PG)) ''addressbooks'' [''*''] (Some [(''owner'', JStr ''@ann:x'')]) None (sv_db ?s) =
      (Inl (Err ''timeout''), sv_db demo_svc)"
    by code_simp
  show ?thesis
    using failed_lookup_creates_second_book [OF demo_tom w _ g demo_svc_healthy f] u
    by (simp add: demo_svc_rows)
qed

lemma lookup_counts:
  "getUserAddressBook env owner s = (r, s') \<Longrightarrow> sv_next s' = sv_next s \<and> sv_slept s' = sv_slept s"
  by (auto simp: getUserAddressBook_def on_db_def split: prod.splits sum.splits list.splits)

lemma create_counts:
  "createUserAddressBook env owner s = (r, s') \<Longrightarrow> sv_next s' = Suc (sv_next s) \<and> sv_slept s' = sv_slept s"
  by (auto simp: createUserAddressBook_def next_uuid_def on_db_def split: prod.splits sum.splits list.splits)

lemma create_loop_step:
  obtains (ended) "sv_next (snd (create_loop env owner (Suc k) s)) \<le> Suc (sv_next s)"
      "sv_slept (snd (create_loop env owner (Suc k) s)) = sv_slept s"
    | (again) s2 where "sv_next s2 = Suc (sv_next s)"
      "sv_slept s2 = sv_slept s @ (if 0 < k then [2 ^ (2 - k) * 100] else [])"
      "create_loop env owner (Suc k) s = create_loop env owner k s2"
proof -
  obtain r1 s1 where a: "createUserAddressBook env owner s = (r1, s1)" by fastforce
  obtain r2 s2 where b: "getUserAddressBook env owner s1 = (r2, s2)" by fastforce
  let ?s3 = "if 0 < k then s2\<lparr>sv_slept := sv_slept s2 @ [2 ^ (2 - k) * 100]\<rparr> else s2"
  note f = create_counts [OF a] lookup_counts [OF b]
  show ?thesis
  proof (cases "\<exists>e. r1 = Inl e \<and> isDuplicateKeyError e \<and> r2 = None")
    case True
    then have "create_loop env owner (Suc k) s = create_loop env owner k ?s3" using a b by auto
    then show ?thesis using f by (intro again [of ?s3]) (simp_all del: create_loop.simps)
  next
    case False
    then show ?thesis using a b f by (intro ended; cases r1; cases r2) auto
  qed
qed

lemma create_loop_bounded:
  "k \<le> 3 \<Longrightarrow> sv_next (snd (create_loop env owner k s)) \<le> sv_next s + k \<and>
     (\<exists>j \<le> k - 1. sv_slept (snd (create_loop env owner k s)) = sv_slept s @ map (\<lambda>i. 2 ^ (3 - k + i) * 100) [0..<j])"
proof (induction k arbitrary: s)
  case 0
  then show ?case by simp
next
  case (Suc k)
  show ?case
  proof (cases rule: create_loop_step [of env owner k s])
    case ended
    then show ?thesis by (simp del: create_loop.simps)
  next
    case (again s2)
    obtain j where j: "j \<le> k - 1"
      "sv_slept (snd (create_loop env owner k s2)) = sv_slept s2 @ map (\<lambda>i. 2 ^ (3 - k + i) * 100) [0..<j]"
      and n: "sv_next (snd (create_loop env owner k s2)) \<le> sv_next s2 + k"
      using Suc.IH [of s2] Suc.prems by auto
    have e: "3 - k + i = 3 - Suc k + Suc i" for i using Suc.prems by simp
    have l: "[0..<Suc j] = 0 # map Suc [0..<j]" by (simp add: map_Suc_upt upt_conv_Cons del: upt_Suc)
    show ?thesis
    proof (cases "0 < k")
      case True
      then have "sv_slept (snd (create_loop env owner k s2)) = sv_slept s @ map (\<lambda>i. 2 ^ (3 - Suc k + i) * 100) [0..<Suc j]"
        using j(2) again(2) unfolding l e by (simp add: comp_def)
      then show ?thesis using True j(1) n again by (intro conjI exI [of _ "Suc j"]) auto
    next
      case False
      then show ?thesis using j n again by (auto intro!: exI [of _ 0])
    qed
  qed
qed

text \<open>
  The creation of an address book is tried at most three times, over any backend, with delays
  of 100 and 200 ms between the attempts and none after the last (300 ms in all).
\<close>

theorem create_retries_bounded:
  "sv_next (snd (getOrCreateUserAddressBook env owner s)) \<le> sv_next s + 3 \<and>
   sv_slept (snd (getOrCreateUserAddressBook env owner s)) \<in>
     {sv_slept s, sv_slept s @ [100], sv_slept s @ [100, 200]}"
proof -
  obtain r0 s0 where g: "getUserAddressBook env owner s = (r0, s0)" by fastforce
  obtain j where j: "j \<le> 2"
    "sv_slept (snd (create_loop env owner 3 s0)) = sv_slept s0 @ map (\<lambda>i. 2 ^ i * 100) [0..<j]"
    and n: "sv_next (snd (create_loop env owner 3 s0)) \<le> sv_next s0 + 3"
    using create_loop_bounded [of 3 env owner s0] by auto
  consider "j = 0" | "j = 1" | "j = 2" using j(1) by linarith
  then have "map (\<lambda>i. 2 ^ i * 100) [0..<j] \<in> {[], [100], [100, 200 :: nat]}"
    by cases (simp_all add: upt_rec)
  then show ?thesis
    using g j(2) n lookup_counts [OF g]
    by (cases r0) (auto simp: getOrCreateUserAddressBook_def simp del: create_loop.simps)
qed

end
