(* ===== verification/Http.thy ===== *)
theory Http
  imports Json
begin

text \<open>
  The runtime's \<open>fetch\<close> and the helpers of the Tom server around it
  (\<open>tom-server/src/utils.ts\<close>, \<open>utils/helpers/index.ts\<close>).  What the servers answer is a parameter, a
  function of everything exchanged so far; every exchange is logged.  A call that fails to reach
  the server is \<open>Inl\<close>.  Header names are in lower case.
\<close>

record http_req =
  hq_method :: string
  hq_url :: string
  hq_headers :: "(string \<times> string) list"
  hq_body :: string

record http_resp =
  hp_status :: nat
  hp_headers :: "(string \<times> string) list"
  hp_body :: string

type_synonym http_log = "(http_req \<times> http_resp result) list"

type_synonym network = "http_log \<Rightarrow> http_req \<Rightarrow> http_resp result"

definition http_fetch :: "network \<Rightarrow> http_req \<Rightarrow> http_log \<Rightarrow> http_resp result \<times> http_log" where
  "http_fetch net q log = (net log q, log @ [(q, net log q)])"

definition resp_json :: "http_resp \<Rightarrow> jsval result" where
  "resp_json p = json_parse (hp_body p)"

text \<open>Reading a property: of null and undefined it throws, of other primitives it is undefined.\<close>

definition read_prop :: "jsval \<Rightarrow> string \<Rightarrow> jsval result" where
  "read_prop v k =
     (if nullish v then Inl (Err (''Cannot read properties of '' @ js_str v))
      else Inr (case v of JObj ps \<Rightarrow> getp ps k | _ \<Rightarrow> Undef))"

text \<open>The own properties that the spread of a value contributes.\<close>

definition own_props :: "jsval \<Rightarrow> obj" where
  "own_props v =
     (case v of
        JObj ps \<Rightarrow> ps
      | JArr vs \<Rightarrow> zip (map nat_str [0 ..< length vs]) vs
      | JStr s \<Rightarrow> zip (map nat_str [0 ..< length s]) (map (\<lambda>c. JStr [c]) s)
      | _ \<Rightarrow> [])"

definition JSON_TYPE :: string where "JSON_TYPE = ''application/json''"

text \<open>
  \<open>buildUrl\<close>, for bases that are an origin with an optional path: the WHATWG URL class then joins
  the two texts at one slash.
\<close>

definition buildUrl :: "string \<Rightarrow> string \<Rightarrow> string" where
  "buildUrl base path =
     (let formattedUrl = (if \<not> starts_with base ''https://'' \<and> \<not> starts_with base ''http://''
                          then ''https://'' @ base else base);
          baseUrl = (if last formattedUrl = CHR ''/'' then formattedUrl else formattedUrl @ ''/'');
          processedPath = (if starts_with path ''/'' then tl path else path)
      in baseUrl @ processedPath)"

text \<open>
  \<open>encodeURIComponent\<close> and \<open>encodeURI\<close>, which keeps the reserved characters; a character above 127 is
  two bytes of UTF-8.
\<close>

definition percent_byte :: "nat \<Rightarrow> string" where
  "percent_byte n = [CHR ''%'', ''0123456789ABCDEF'' ! (n div 16), ''0123456789ABCDEF'' ! (n mod 16)]"

definition unreserved :: "char \<Rightarrow> bool" where
  "unreserved c \<longleftrightarrow>
     c = CHR 0x27 \<or> c \<in> set ''ABCDEFGHIJKLMNOPQRSTUVWXYZabcdefghijklmnopqrstuvwxyz0123456789-_.!~*()''"

definition encode_char :: "char \<Rightarrow> string" where
  "encode_char c =
     (let n = (of_char c :: nat) in
      if n < 128 then percent_byte n else percent_byte (192 + n div 64) @ percent_byte (128 + n mod 64))"

definition encodeURIComponent :: "string \<Rightarrow> string" where
  "encodeURIComponent s = concat (map (\<lambda>c. if unreserved c then [c] else encode_char c) s)"

definition encodeURI :: "string \<Rightarrow> string" where
  "encodeURI s = concat (map (\<lambda>c. if unreserved c \<or> c \<in> set '';/?:@&=+$,#'' then [c] else encode_char c) s)"

section \<open>Templates\<close>

text \<open>
  \<open>text.replace(/name/g, value)\<close> for a literal name: the dollar patterns of the runtime are
  expanded in the value.  \<open>pre\<close> is the text before the match, \<open>post\<close> the text after it.
\<close>

fun expand :: "string \<Rightarrow> string \<Rightarrow> string \<Rightarrow> string \<Rightarrow> string" where
  "expand pre found post [] = []"
| "expand pre found post [c] = [c]"
| "expand pre found post (c # c' # cs) =
     (if c = CHR ''$'' \<and> c' = CHR ''$'' then CHR ''$'' # expand pre found post cs
      else if c = CHR ''$'' \<and> c' = CHR ''&'' then found @ expand pre found post cs
      else if c = CHR ''$'' \<and> c' = CHR 0x60 then pre @ expand pre found post cs
      else if c = CHR ''$'' \<and> c' = CHR 0x27 then post @ expand pre found post cs
      else c # expand pre found post (c' # cs))"

function replace_from :: "string \<Rightarrow> string \<Rightarrow> string \<Rightarrow> string \<Rightarrow> string" where
  "replace_from name val pre [] = []"
| "replace_from name val pre (c # cs) =
     (if name \<noteq> [] \<and> starts_with (c # cs) name
      then expand pre name (drop (length name) (c # cs)) val @
           replace_from name val (pre @ name) (drop (length name) (c # cs))
      else c # replace_from name val (pre @ [c]) cs)"
  by pat_completeness auto
termination
  by (relation "measure (\<lambda>(name, _, _, s). length s)") auto

definition replace_name :: "string \<Rightarrow> string \<Rightarrow> string \<Rightarrow> string" where
  "replace_name name val s = replace_from name val [] s"

text \<open>\<open>files\<close> is \<open>readFileSync\<close>, which throws when the file cannot be read.\<close>

definition buildEmailBody ::
  "(string \<Rightarrow> string result) \<Rightarrow> string \<Rightarrow> string \<Rightarrow> string \<Rightarrow> string \<Rightarrow> string \<Rightarrow> string \<Rightarrow> string \<Rightarrow> string \<Rightarrow>
   string result" where
  "buildEmailBody files boundary date messageid templatePath inviter destination link from_addr =
     (case files templatePath of
        Inl e \<Rightarrow> Inl e
      | Inr templateContent \<Rightarrow>
          Inr (replace_name ''__messageid__'' messageid
            (replace_name ''__date__'' date
            (replace_name ''__link__'' link
            (replace_name ''__inviter_name__'' inviter
            (replace_name ''__multipart_boundary__'' boundary
            (replace_name ''__to__'' destination
            (replace_name ''__from__'' from_addr templateContent))))))))"

definition buildSmsBody ::
  "(string \<Rightarrow> string result) \<Rightarrow> string \<Rightarrow> string \<Rightarrow> string \<Rightarrow> string \<Rightarrow> string option" where
  "buildSmsBody files templatePath inviter link footer =
     (case files templatePath of
        Inl _ \<Rightarrow> None
      | Inr templateContent \<Rightarrow>
          Some (replace_name ''__footer__'' footer
            (replace_name ''__invitation_link__'' link
            (replace_name ''__inviter__'' inviter templateContent))))"

text \<open>A value without dollar signs is inserted as it is.\<close>

lemma expand_plain: "CHR ''$'' \<notin> set val \<Longrightarrow> expand pre found post val = val"
  by (induction pre found post val rule: expand.induct) auto

lemma replace_absent:
  "\<not> contains s name \<Longrightarrow> replace_from name val pre s = s"
proof (induction name val pre s rule: replace_from.induct)
  case (2 name val pre c cs)
  then show ?case by (cases name) auto
qed simp

end
