(* ===== verification/TokenService.thy ===== *)
theory TokenService
  imports Http Express
begin

text \<open>
  Logging in to the Matrix server with the cookies of the single sign-on
  (\<open>tom-server/src/utils/services/token-service.ts\<close>) and the middleware that uses it
  (\<open>utils/middlewares/cookie-auth.middleware.ts\<close>).  Every request of the service is caught by the
  function that makes it, which then answers null; \<open>Null\<close> is that answer.
\<close>

record token_env =
  te_server :: string
  te_auth_url :: string
  te_device :: string
  te_net :: network

definition matrixUrl :: "token_env \<Rightarrow> string" where
  "matrixUrl env = ''https://'' @ te_server env @ ''/_matrix/client/v3''"

definition JSON_HEADERS :: "(string \<times> string) list" where
  "JSON_HEADERS = [(''accept'', JSON_TYPE), (''content-type'', JSON_TYPE)]"

definition ACCEPT_JSON :: "(string \<times> string) list" where
  "ACCEPT_JSON = [(''accept'', JSON_TYPE)]"

text \<open>The value of a computation that may throw, null if it does.\<close>

definition or_null :: "jsval result \<Rightarrow> jsval" where
  "or_null r = (case r of Inl _ \<Rightarrow> Null | Inr v \<Rightarrow> v)"

definition login_request :: "token_env \<Rightarrow> string \<Rightarrow> http_req" where
  "login_request env loginToken =
     \<lparr>hq_method = ''POST'', hq_url = matrixUrl env @ ''/login'', hq_headers = JSON_HEADERS,
      hq_body = str_of (JObj [(''token'', JStr loginToken), (''type'', JStr ''m.login.token''),
                              (''initial_device_display_name'', JStr (te_device env))])\<rparr>"

definition token_of_login :: "jsval \<Rightarrow> jsval result" where
  "token_of_login data =
     (case read_prop data ''error'' of
        Inl e \<Rightarrow> Inl e
      | Inr err \<Rightarrow>
          (case read_prop data ''access_token'' of
             Inl e \<Rightarrow> Inl e
           | Inr tok \<Rightarrow>
               if err \<noteq> Undef \<or> tok = Undef then Inl (Err ''No access_token found in the response'')
               else Inr tok))"

definition requestAccessToken :: "token_env \<Rightarrow> string \<Rightarrow> http_log \<Rightarrow> jsval \<times> http_log" where
  "requestAccessToken env loginToken log =
     (case http_fetch (te_net env) (login_request env loginToken) log of
        (Inl _, log1) \<Rightarrow> (Null, log1)
      | (Inr p, log1) \<Rightarrow>
          (case resp_json p of
             Inl _ \<Rightarrow> (Null, log1)
           | Inr data \<Rightarrow> (or_null (token_of_login data), log1)))"

text \<open>The flows of the login page: \<open>find\<close> stops at the first single sign-on flow with providers.\<close>

fun find_sso :: "jsval list \<Rightarrow> jsval result" where
  "find_sso [] = Inr Undef"
| "find_sso (flow # flows) =
     (case read_prop flow ''type'' of
        Inl e \<Rightarrow> Inl e
      | Inr t \<Rightarrow>
          (case read_prop flow ''identity_providers'' of
             Inl e \<Rightarrow> Inl e
           | Inr ps \<Rightarrow> if t = JStr ''m.login.sso'' \<and> ps \<noteq> Undef then Inr flow else find_sso flows))"

definition first_elem :: "jsval \<Rightarrow> jsval result" where
  "first_elem v =
     (if nullish v then Inl (Err (''Cannot read properties of '' @ js_str v))
      else Inr (case v of
         JArr (x # _) \<Rightarrow> x | JStr (c # _) \<Rightarrow> JStr [c] | JObj ps \<Rightarrow> getp ps ''0'' | _ \<Rightarrow> Undef))"

definition provider_of_flows :: "jsval \<Rightarrow> jsval result" where
  "provider_of_flows data =
     (case read_prop data ''error'' of
        Inl e \<Rightarrow> Inl e
      | Inr err \<Rightarrow>
          if err \<noteq> Undef then Inl (Err ''No OIDC provider found in the response'')
          else (case read_prop data ''flows'' of
             Inr (JArr flows) \<Rightarrow>
               if length flows < 1 then Inl (Err ''No OIDC provider found in the response'')
               else (case find_sso flows of
                  Inl e \<Rightarrow> Inl e
                | Inr oidcProvider \<Rightarrow>
                    if oidcProvider = Undef then Inl (Err ''No OIDC provider found in the response'')
                    else (case read_prop oidcProvider ''identity_providers'' of
                       Inl e \<Rightarrow> Inl e
                     | Inr ps \<Rightarrow> (case first_elem ps of Inl e \<Rightarrow> Inl e | Inr p \<Rightarrow> read_prop p ''id'')))
           | _ \<Rightarrow> Inl (Err ''data.flows.find is not a function'')))"

definition flows_request :: "token_env \<Rightarrow> http_req" where
  "flows_request env =
     \<lparr>hq_method = ''GET'', hq_url = matrixUrl env @ ''/login'', hq_headers = JSON_HEADERS, hq_body = []\<rparr>"

definition getOidcProvider :: "token_env \<Rightarrow> http_log \<Rightarrow> jsval \<times> http_log" where
  "getOidcProvider env log =
     (case http_fetch (te_net env) (flows_request env) log of
        (Inl _, log1) \<Rightarrow> (Null, log1)
      | (Inr p, log1) \<Rightarrow>
          (case resp_json p of
             Inl _ \<Rightarrow> (Null, log1)
           | Inr data \<Rightarrow> (or_null (provider_of_flows data), log1)))"

definition redirect_request :: "token_env \<Rightarrow> string \<Rightarrow> http_req" where
  "redirect_request env oidcProvider =
     \<lparr>hq_method = ''GET'', hq_url = matrixUrl env @ ''/login/sso/redirect/'' @ oidcProvider @
        ''?redirectUrl=http://localhost:9876'',
      hq_headers = JSON_HEADERS, hq_body = []\<rparr>"

text \<open>The location and the session cookies.\<close>

definition getOidcRedirectLocation :: "token_env \<Rightarrow> string \<Rightarrow> http_log \<Rightarrow> (string \<times> string) option \<times> http_log" where
  "getOidcRedirectLocation env oidcProvider log =
     (case http_fetch (te_net env) (redirect_request env oidcProvider) log of
        (Inl _, log1) \<Rightarrow> (None, log1)
      | (Inr p, log1) \<Rightarrow>
          ((case (map_of (hp_headers p) ''location'', map_of (hp_headers p) ''set-cookie'') of
              (Some location, Some cookies) \<Rightarrow> Some (location, cookies)
            | _ \<Rightarrow> None), log1))"

text \<open>\<open>match(/loginToken=(.+?)['"]/)\<close>: at least one character, up to the next quote on the line.\<close>

definition newline :: "char \<Rightarrow> bool" where
  "newline c \<longleftrightarrow> c = CHR 0x0A \<or> c = CHR 0x0D"

definition quote_mark :: "char \<Rightarrow> bool" where
  "quote_mark c \<longleftrightarrow> c = CHR 0x27 \<or> c = CHR 0x22"

fun until_quote :: "string \<Rightarrow> string option" where
  "until_quote [] = None"
| "until_quote (c # cs) =
     (if quote_mark c then Some [] else if newline c then None else map_option ((#) c) (until_quote cs))"

definition token_at :: "string \<Rightarrow> string option" where
  "token_at s =
     (if \<not> starts_with s ''loginToken='' then None
      else case drop 11 s of
             [] \<Rightarrow> None
           | c # cs \<Rightarrow> if newline c then None else map_option ((#) c) (until_quote cs))"

fun match_token :: "string \<Rightarrow> string option" where
  "match_token [] = None"
| "match_token (c # cs) = (case token_at (c # cs) of Some t \<Rightarrow> Some t | None \<Rightarrow> match_token cs)"

definition cookie_request :: "string \<Rightarrow> string \<Rightarrow> string \<Rightarrow> http_req" where
  "cookie_request location sessionCookies authCookie =
     \<lparr>hq_method = ''GET'', hq_url = location,
      hq_headers = [(''cookie'', sessionCookies @ ''; '' @ authCookie)], hq_body = []\<rparr>"

definition getLoginToken :: "token_env \<Rightarrow> string \<Rightarrow> string \<Rightarrow> string \<Rightarrow> http_log \<Rightarrow> string option \<times> http_log" where
  "getLoginToken env location sessionCookies authCookie log =
     (case http_fetch (te_net env) (cookie_request location sessionCookies authCookie) log of
        (Inl _, log1) \<Rightarrow> (None, log1)
      | (Inr p, log1) \<Rightarrow> (match_token (hp_body p), log1))"

definition getAccessTokenWithCookie :: "token_env \<Rightarrow> string \<Rightarrow> http_log \<Rightarrow> jsval \<times> http_log" where
  "getAccessTokenWithCookie env authCookies log =
     (case getOidcProvider env log of (provider, log1) \<Rightarrow>
        if provider = Null then (Null, log1)
        else
          (case getOidcRedirectLocation env (js_str provider) log1 of
             (None, log2) \<Rightarrow> (Null, log2)
           | (Some (location, cookies), log2) \<Rightarrow>
               (case getLoginToken env location cookies authCookies log2 of
                  (None, log3) \<Rightarrow> (Null, log3)
                | (Some loginToken, log3) \<Rightarrow> requestAccessToken env loginToken log3)))"

text \<open>\<open>form\<close> is \<open>URLSearchParams\<close> of the three fields.\<close>

definition getAuthProviderLoginToken :: "token_env \<Rightarrow> http_log \<Rightarrow> jsval \<times> http_log" where
  "getAuthProviderLoginToken env log =
     (case http_fetch (te_net env)
             \<lparr>hq_method = ''GET'', hq_url = te_auth_url env, hq_headers = JSON_HEADERS, hq_body = []\<rparr> log of
        (Inl _, log1) \<Rightarrow> (Null, log1)
      | (Inr p, log1) \<Rightarrow>
          (case resp_json p of
             Inl _ \<Rightarrow> (Null, log1)
           | Inr data \<Rightarrow>
               (case read_prop data ''token'' of
                  Inl _ \<Rightarrow> (Null, log1)
                | Inr tok \<Rightarrow> (if tok = Undef then Null else tok, log1))))"

definition getAuthCookie ::
  "token_env \<Rightarrow> ((string \<times> string) list \<Rightarrow> string) \<Rightarrow> string \<Rightarrow> string \<Rightarrow> http_log \<Rightarrow> string option \<times> http_log" where
  "getAuthCookie env form user password log =
     (case getAuthProviderLoginToken env log of (tok, log1) \<Rightarrow>
        if \<not> truthy tok then (None, log1)
        else
          (case http_fetch (te_net env)
                  \<lparr>hq_method = ''POST'', hq_url = te_auth_url env, hq_headers = ACCEPT_JSON,
                   hq_body = form [(''user'', user), (''password'', password), (''token'', js_str tok)]\<rparr> log1 of
             (Inl _, log2) \<Rightarrow> (None, log2)
           | (Inr p, log2) \<Rightarrow>
               ((case map_of (hp_headers p) ''set-cookie'' of
                   Some cookie \<Rightarrow> if cookie = [] then None else Some cookie
                 | None \<Rightarrow> None), log2)))"

definition getAccessTokenWithCreds ::
  "token_env \<Rightarrow> ((string \<times> string) list \<Rightarrow> string) \<Rightarrow> string \<Rightarrow> string \<Rightarrow> http_log \<Rightarrow> jsval \<times> http_log" where
  "getAccessTokenWithCreds env form username password log =
     (case getAuthCookie env form username password log of
        (None, log1) \<Rightarrow> (Null, log1)
      | (Some cookie, log1) \<Rightarrow>
          (case getAccessTokenWithCookie env cookie log1 of (tok, log2) \<Rightarrow>
             if \<not> truthy tok then (Null, log2) else (tok, log2)))"

section \<open>The middleware\<close>

text \<open>It always lets the request pass; a token becomes its authorization header.\<close>

definition authenticateWithCookie :: "token_env \<Rightarrow> request \<Rightarrow> http_log \<Rightarrow> request \<times> http_log" where
  "authenticateWithCookie env req log =
     (if header req ''authorization'' \<noteq> [] then (req, log)
      else if header req ''cookie'' = [] then (req, log)
      else
        (case getAccessTokenWithCookie env (header req ''cookie'') log of (tok, log1) \<Rightarrow>
           if \<not> truthy tok then (req, log1)
           else (req\<lparr>headers := put ''authorization'' (''Bearer '' @ js_str tok) (headers req)\<rparr>, log1)))"

section \<open>Properties\<close>

lemma until_quote_iff:
  "until_quote s = Some t \<longleftrightarrow>
     (\<exists>q post. s = t @ q # post \<and> quote_mark q \<and> (\<forall>c \<in> set t. \<not> newline c \<and> \<not> quote_mark c))"
proof (induction s arbitrary: t)
  case (Cons c cs)
  show ?case
  proof (cases "quote_mark c \<or> newline c")
    case True
    then show ?thesis by (cases t) (auto simp: newline_def quote_mark_def)
  next
    case False
    then show ?thesis using Cons.IH by (cases t) auto
  qed
qed simp

definition login_token_text :: "string \<Rightarrow> bool" where
  "login_token_text t \<longleftrightarrow> t \<noteq> [] \<and> list_all (\<lambda>c. \<not> newline c) t \<and> list_all (\<lambda>c. \<not> quote_mark c) (tl t)"

lemma token_at_iff:
  "token_at s = Some t \<longleftrightarrow>
     login_token_text t \<and> (\<exists>q post. quote_mark q \<and> s = ''loginToken='' @ t @ q # post)"
proof (cases "starts_with s ''loginToken=''")
  case True
  then have t: "take (length ''loginToken='') s = ''loginToken=''" unfolding starts_with_def .
  obtain r where r: "s = ''loginToken='' @ r"
    using append_take_drop_id [of "length ''loginToken=''" s] unfolding t by metis
  have d: "drop 11 s = r" by (simp add: r)
  show ?thesis
  proof (cases r)
    case Nil
    then show ?thesis using True d r by (auto simp: token_at_def login_token_text_def)
  next
    case (Cons c cs)
    have "token_at s = (if newline c then None else map_option ((#) c) (until_quote cs))"
      using True d Cons by (simp add: token_at_def)
    then show ?thesis
      unfolding r Cons
      by (cases t) (auto simp: login_token_text_def until_quote_iff list_all_iff)
  qed
next
  case False
  then show ?thesis by (auto simp: token_at_def starts_with_def)
qed

text \<open>
  The search for the login token in the page finds exactly the leftmost occurrence: a token
  without line break, whose characters after the first are no quotes, between
  \<open>loginToken=\<close> and a quote, at the first position of the page where there is one.
\<close>

theorem match_token_iff:
  "match_token s = Some t \<longleftrightarrow>
     (\<exists>i. token_at (drop i s) = Some t \<and> (\<forall>j < i. token_at (drop j s) = None)) \<and>
     (\<exists>pre q post. s = pre @ ''loginToken='' @ t @ q # post \<and> login_token_text t \<and> quote_mark q)"
proof -
  have e: "match_token s = Some t \<longleftrightarrow>
      (\<exists>i. token_at (drop i s) = Some t \<and> (\<forall>j < i. token_at (drop j s) = None))"
  proof (induction s)
    case Nil
    then show ?case by (simp add: token_at_def starts_with_def)
  next
    case (Cons c cs)
    show ?case
    proof (cases "token_at (c # cs)")
      case None
      have "(\<exists>i. token_at (drop i (c # cs)) = Some t \<and> (\<forall>j < i. token_at (drop j (c # cs)) = None)) \<longleftrightarrow>
          (\<exists>i. token_at (drop i cs) = Some t \<and> (\<forall>j < i. token_at (drop j cs) = None))"
        (is "(\<exists>i. ?L i) \<longleftrightarrow> (\<exists>i. ?R i)")
      proof
        assume "\<exists>i. ?L i"
        then obtain i where i: "?L i" by blast
        then obtain k where "i = Suc k" using None by (cases i) auto
        then show "\<exists>i. ?R i" using i by (intro exI [of _ k]) auto
      next
        assume "\<exists>i. ?R i"
        then obtain k where "?R k" by blast
        then show "\<exists>i. ?L i" using None by (intro exI [of _ "Suc k"]) (auto simp: less_Suc_eq_0_disj)
      qed
      then show ?thesis using None Cons.IH by simp
    next
      case (Some u)
      then show ?thesis by (force intro: exI [of _ 0])
    qed
  qed
  have "\<exists>pre q post. s = pre @ ''loginToken='' @ t @ q # post \<and> login_token_text t \<and> quote_mark q"
    if "token_at (drop i s) = Some t" for i
    using that append_take_drop_id [of i s] unfolding token_at_iff by metis
  then show ?thesis unfolding e by blast
qed

theorem match_token_iff_witness:
  "match_token ''<a href='cb?loginToken=syl_x1'>'' = Some ''syl_x1'' \<and>
   (\<exists>pre q post. ''<a href='cb?loginToken=syl_x1'>'' = pre @ ''loginToken='' @ ''syl_x1'' @ q # post \<and> quote_mark q)"
proof
  show m: "match_token ''<a href='cb?loginToken=syl_x1'>'' = Some ''syl_x1''" by code_simp
  show "\<exists>pre q post. ''<a href='cb?loginToken=syl_x1'>'' = pre @ ''loginToken='' @ ''syl_x1'' @ q # post \<and> quote_mark q"
    using m unfolding match_token_iff by blast
qed

lemma provider_stage:
  "getOidcProvider env log = (v, log1) \<Longrightarrow> \<exists>r. log1 = log @ [(flows_request env, r)] \<and>
     (v \<noteq> Null \<longrightarrow> (\<exists>p flows. r = Inr p \<and> resp_json p = Inr flows \<and> provider_of_flows flows = Inr v))"
  by (auto simp: getOidcProvider_def http_fetch_def or_null_def split: sum.splits)

lemma redirect_stage:
  "getOidcRedirectLocation env pr log = (v, log1) \<Longrightarrow> \<exists>r. log1 = log @ [(redirect_request env pr, r)] \<and>
     (\<forall>location session. v = Some (location, session) \<longrightarrow>
       (\<exists>p. r = Inr p \<and> map_of (hp_headers p) ''location'' = Some location \<and>
          map_of (hp_headers p) ''set-cookie'' = Some session))"
  by (auto simp: getOidcRedirectLocation_def http_fetch_def split: sum.splits option.splits)

lemma page_stage:
  "getLoginToken env location session cookies log = (v, log1) \<Longrightarrow>
     \<exists>r. log1 = log @ [(cookie_request location session cookies, r)] \<and>
     (\<forall>t. v = Some t \<longrightarrow> (\<exists>p. r = Inr p \<and> match_token (hp_body p) = Some t))"
  by (auto simp: getLoginToken_def http_fetch_def split: sum.splits)

lemma login_stage:
  "requestAccessToken env t log = (v, log1) \<Longrightarrow> \<exists>r. log1 = log @ [(login_request env t, r)] \<and>
     (v \<noteq> Null \<longrightarrow> (\<exists>p data. r = Inr p \<and> resp_json p = Inr data \<and> token_of_login data = Inr v))"
  by (auto simp: requestAccessToken_def http_fetch_def or_null_def split: sum.splits)

lemma finish_stage:
  assumes "(case getLoginToken env location session cookies log of (None, l) \<Rightarrow> (Null, l)
      | (Some u, l) \<Rightarrow> requestAccessToken env u l) = (tok, log')"
  obtains r rest where "log' = log @ (cookie_request location session cookies, r) # rest"
    "rest = [] \<and> tok = Null \<or> (\<exists>u r'. rest = [(login_request env u, r')] \<and>
       (tok \<noteq> Null \<longrightarrow> (\<exists>p p' data. r = Inr p \<and> match_token (hp_body p) = Some u \<and>
          r' = Inr p' \<and> resp_json p' = Inr data \<and> token_of_login data = Inr tok)))"
proof -
  obtain t log1 where g: "getLoginToken env location session cookies log = (t, log1)" by fastforce
  obtain r where r: "log1 = log @ [(cookie_request location session cookies, r)]"
    "\<forall>u. t = Some u \<longrightarrow> (\<exists>p. r = Inr p \<and> match_token (hp_body p) = Some u)"
    using page_stage [OF g] by blast
  show ?thesis
  proof (cases t)
    case None
    then show ?thesis using assms g r(1) by (intro that [of r "[]"]) auto
  next
    case (Some u)
    then have "requestAccessToken env u log1 = (tok, log')" using assms g by simp
    from login_stage [OF this] obtain r' where r': "log' = log1 @ [(login_request env u, r')]"
      "tok \<noteq> Null \<longrightarrow> (\<exists>p data. r' = Inr p \<and> resp_json p = Inr data \<and> token_of_login data = Inr tok)"
      by blast
    show ?thesis
      by (rule that [of r "[(login_request env u, r')]"]) (use r r' Some in auto)
  qed
qed

lemmas request_headers = flows_request_def redirect_request_def login_request_def JSON_HEADERS_def

text \<open>The exchange that the middleware starts.\<close>

lemma cookie_exchange:
  assumes "getAccessTokenWithCookie env cookies log = (tok, log')"
  shows "\<exists>new. log' = log @ new \<and> length new \<le> 4 \<and>
    (tok \<noteq> Null \<longrightarrow>
      (\<exists>p1 flows provider p2 location session p3 t p4 data.
         new = [(flows_request env, Inr p1), (redirect_request env (js_str provider), Inr p2),
                (cookie_request location session cookies, Inr p3), (login_request env t, Inr p4)] \<and>
         resp_json p1 = Inr flows \<and> provider_of_flows flows = Inr provider \<and>
         map_of (hp_headers p2) ''location'' = Some location \<and> map_of (hp_headers p2) ''set-cookie'' = Some session \<and>
         match_token (hp_body p3) = Some t \<and> resp_json p4 = Inr data \<and> token_of_login data = Inr tok)) \<and>
    (\<forall>q r. (q, r) \<in> set new \<and> map_of (hq_headers q) ''cookie'' \<noteq> None \<longrightarrow>
       (\<exists>provider p. (redirect_request env provider, Inr p) \<in> set new \<and>
          map_of (hp_headers p) ''location'' = Some (hq_url q)))"
proof -
  obtain provider log1 where a: "getOidcProvider env log = (provider, log1)" by fastforce
  obtain r1 where r1: "log1 = log @ [(flows_request env, r1)]"
    "provider \<noteq> Null \<longrightarrow> (\<exists>p flows. r1 = Inr p \<and> resp_json p = Inr flows \<and> provider_of_flows flows = Inr provider)"
    using provider_stage [OF a] by blast
  obtain loc log2 where b: "getOidcRedirectLocation env (js_str provider) log1 = (loc, log2)" by fastforce
  obtain r2 where r2: "log2 = log1 @ [(redirect_request env (js_str provider), r2)]"
    "\<forall>location session. loc = Some (location, session) \<longrightarrow> (\<exists>p. r2 = Inr p \<and>
       map_of (hp_headers p) ''location'' = Some location \<and> map_of (hp_headers p) ''set-cookie'' = Some session)"
    using redirect_stage [OF b] by blast
  show ?thesis
  proof (cases "provider = Null \<or> loc = None")
    case True
    then have "tok = Null" "log' = log1 \<or> log' = log2"
      using assms a b by (auto simp: getAccessTokenWithCookie_def split: if_splits)
    then show ?thesis using r1(1) r2(1) by (auto simp: request_headers)
  next
    case False
    then obtain location session where l: "loc = Some (location, session)" by (cases loc) auto
    obtain p2 where p2: "r2 = Inr p2" "map_of (hp_headers p2) ''location'' = Some location"
      "map_of (hp_headers p2) ''set-cookie'' = Some session"
      using r2(2) l by blast
    have "(case getLoginToken env location session cookies log2 of (None, l) \<Rightarrow> (Null, l)
        | (Some u, l) \<Rightarrow> requestAccessToken env u l) = (tok, log')"
      using assms False a b l by (simp add: getAccessTokenWithCookie_def)
    then obtain r3 rest where r3: "log' = log2 @ (cookie_request location session cookies, r3) # rest"
      "rest = [] \<and> tok = Null \<or> (\<exists>u r'. rest = [(login_request env u, r')] \<and>
         (tok \<noteq> Null \<longrightarrow> (\<exists>p p' data. r3 = Inr p \<and> match_token (hp_body p) = Some u \<and>
            r' = Inr p' \<and> resp_json p' = Inr data \<and> token_of_login data = Inr tok)))"
      by (rule finish_stage)
    let ?new = "[(flows_request env, r1), (redirect_request env (js_str provider), r2),
        (cookie_request location session cookies, r3)] @ rest"
    obtain p1 flows where p1: "r1 = Inr p1" "resp_json p1 = Inr flows" "provider_of_flows flows = Inr provider"
      using r1(2) False by blast
    have "log' = log @ ?new" "length ?new \<le> 4" using r1(1) r2(1) r3 by auto
    moreover have "\<exists>p provider. (redirect_request env provider, Inr p) \<in> set ?new \<and>
        map_of (hp_headers p) ''location'' = Some (hq_url q)"
      if "(q, r) \<in> set ?new" "map_of (hq_headers q) ''cookie'' \<noteq> None" for q r
      using that p2 r3(2) by (auto simp: request_headers cookie_request_def)
    moreover have "\<exists>p1 flows provider p2 location session p3 t p4 data.
         ?new = [(flows_request env, Inr p1), (redirect_request env (js_str provider), Inr p2),
                (cookie_request location session cookies, Inr p3), (login_request env t, Inr p4)] \<and>
         resp_json p1 = Inr flows \<and> provider_of_flows flows = Inr provider \<and>
         map_of (hp_headers p2) ''location'' = Some location \<and> map_of (hp_headers p2) ''set-cookie'' = Some session \<and>
         match_token (hp_body p3) = Some t \<and> resp_json p4 = Inr data \<and> token_of_login data = Inr tok"
      if got: "tok \<noteq> Null"
    proof -
      obtain u p3 p4 data where z: "rest = [(login_request env u, Inr p4)]" "r3 = Inr p3" "match_token (hp_body p3) = Some u"
        "resp_json p4 = Inr data" "token_of_login data = Inr tok"
        using r3(2) got by blast
      show ?thesis
        by (rule exI [of _ p1], rule exI [of _ flows], rule exI [of _ provider], rule exI [of _ p2], rule exI [of _ location],
            rule exI [of _ session], rule exI [of _ p3], rule exI [of _ u], rule exI [of _ p4], rule exI [of _ data])
          (simp add: z p1 p2)
    qed
    ultimately show ?thesis by (intro exI [of _ ?new] conjI) blast+
  qed
qed

text \<open>
  C31: The middleware for cookies makes at most four requests and changes a request only by giving it the
  authorization header of a token it has obtained: only a request without this header and with cookies,
  only after all four requests were answered, the flows, the redirection for the provider they name, the page
  at the location the Matrix server gave, with the session cookies and the user's, and the login with the token
  of that page, and only with the token of the last answer, which is not empty.  In every other case, a failure of one
  of the four as well, the request goes on as it came.  The user's cookies go to that location only.
\<close>

theorem cookie_login_protocol:
  assumes "authenticateWithCookie env req log = (req', log')"
  shows "\<exists>new. log' = log @ new \<and> length new \<le> 4 \<and>
    (req' \<noteq> req \<longrightarrow> header req ''authorization'' = [] \<and> header req ''cookie'' \<noteq> [] \<and>
      (\<exists>p1 flows provider p2 location session p3 t p4 data tok.
         new = [(flows_request env, Inr p1), (redirect_request env (js_str provider), Inr p2),
                (cookie_request location session (header req ''cookie''), Inr p3), (login_request env t, Inr p4)] \<and>
         resp_json p1 = Inr flows \<and> provider_of_flows flows = Inr provider \<and>
         map_of (hp_headers p2) ''location'' = Some location \<and> map_of (hp_headers p2) ''set-cookie'' = Some session \<and>
         match_token (hp_body p3) = Some t \<and> resp_json p4 = Inr data \<and> token_of_login data = Inr tok \<and> truthy tok \<and>
         req' = req\<lparr>headers := put ''authorization'' (''Bearer '' @ js_str tok) (headers req)\<rparr>)) \<and>
    (header req ''authorization'' \<noteq> [] \<or> header req ''cookie'' = [] \<longrightarrow> new = []) \<and>
    (\<forall>q r. (q, r) \<in> set new \<and> map_of (hq_headers q) ''cookie'' \<noteq> None \<longrightarrow>
       (\<exists>provider p. (redirect_request env provider, Inr p) \<in> set new \<and>
          map_of (hp_headers p) ''location'' = Some (hq_url q)))"
proof (cases "header req ''authorization'' \<noteq> [] \<or> header req ''cookie'' = []")
  case True
  then have "req' = req" "log' = log" using assms by (auto simp: authenticateWithCookie_def split: if_splits)
  then show ?thesis by (intro exI [of _ "[]"]) simp
next
  case False
  obtain tok log1 where t: "getAccessTokenWithCookie env (header req ''cookie'') log = (tok, log1)" by fastforce
  have r: "log' = log1" "req' = (if truthy tok then req\<lparr>headers := put ''authorization'' (''Bearer '' @ js_str tok) (headers req)\<rparr> else req)"
    using assms False t by (auto simp: authenticateWithCookie_def split: if_splits)
  obtain new where n: "log1 = log @ new" "length new \<le> 4"
    "tok \<noteq> Null \<longrightarrow>
      (\<exists>p1 flows provider p2 location session p3 t p4 data.
         new = [(flows_request env, Inr p1), (redirect_request env (js_str provider), Inr p2),
                (cookie_request location session (header req ''cookie''), Inr p3), (login_request env t, Inr p4)] \<and>
         resp_json p1 = Inr flows \<and> provider_of_flows flows = Inr provider \<and>
         map_of (hp_headers p2) ''location'' = Some location \<and> map_of (hp_headers p2) ''set-cookie'' = Some session \<and>
         match_token (hp_body p3) = Some t \<and> resp_json p4 = Inr data \<and> token_of_login data = Inr tok)"
    "\<forall>q r. (q, r) \<in> set new \<and> map_of (hq_headers q) ''cookie'' \<noteq> None \<longrightarrow>
       (\<exists>provider p. (redirect_request env provider, Inr p) \<in> set new \<and>
          map_of (hp_headers p) ''location'' = Some (hq_url q))"
    using cookie_exchange [OF t] by (elim exE conjE)
  show ?thesis
  proof (cases "truthy tok")
    case no: False
    then show ?thesis using False r n(1,2,4) by (intro exI [of _ new]) simp
  next
    case yes: True
    then have "tok \<noteq> Null" by auto
    with n(3) obtain p1 flows provider p2 location session p3 t p4 data where x:
      "new = [(flows_request env, Inr p1), (redirect_request env (js_str provider), Inr p2),
                (cookie_request location session (header req ''cookie''), Inr p3), (login_request env t, Inr p4)]"
      "resp_json p1 = Inr flows" "provider_of_flows flows = Inr provider"
      "map_of (hp_headers p2) ''location'' = Some location" "map_of (hp_headers p2) ''set-cookie'' = Some session"
      "match_token (hp_body p3) = Some t" "resp_json p4 = Inr data" "token_of_login data = Inr tok"
      by (elim impE exE conjE)
    have "\<exists>p1 flows provider p2 location session p3 t p4 data tok.
         new = [(flows_request env, Inr p1), (redirect_request env (js_str provider), Inr p2),
                (cookie_request location session (header req ''cookie''), Inr p3), (login_request env t, Inr p4)] \<and>
         resp_json p1 = Inr flows \<and> provider_of_flows flows = Inr provider \<and>
         map_of (hp_headers p2) ''location'' = Some location \<and> map_of (hp_headers p2) ''set-cookie'' = Some session \<and>
         match_token (hp_body p3) = Some t \<and> resp_json p4 = Inr data \<and> token_of_login data = Inr tok \<and> truthy tok \<and>
         req' = req\<lparr>headers := put ''authorization'' (''Bearer '' @ js_str tok) (headers req)\<rparr>"
      using x yes r(2) by (intro exI conjI) simp_all
    then show ?thesis using False r(1) n(1,2,4) by (intro exI [of _ new]) blast
  qed
qed

definition demo_net :: network where
  "demo_net log q = Inr
     (if length log = 0 then \<lparr>hp_status = 200, hp_headers = [], hp_body = str_of (JObj [(''flows'',
        JArr [JObj [(''type'', JStr ''m.login.sso''), (''identity_providers'', JArr [JObj [(''id'', JStr ''oidc'')]])]])])\<rparr>
      else if length log = 1 then \<lparr>hp_status = 302, hp_headers = [(''location'', ''https://sso/a''), (''set-cookie'', ''s=1'')],
        hp_body = []\<rparr>
      else if length log = 2 then \<lparr>hp_status = 200, hp_headers = [], hp_body = ''<a href='cb?loginToken=t1'>''\<rparr>
      else \<lparr>hp_status = 200, hp_headers = [], hp_body = str_of (JObj [(''access_token'', JStr ''syt'')])\<rparr>)"

definition demo_token_env :: token_env where
  "demo_token_env = \<lparr>te_server = ''matrix.x'', te_auth_url = ''https://auth.x'', te_device = ''web'', te_net = demo_net\<rparr>"

definition demo_cookie_request :: request where
  "demo_cookie_request = \<lparr>userId = None, accessToken = None, params = [], query = [], body = Undef, headers = [(''cookie'', ''lemon=7'')]\<rparr>"

theorem cookie_login_protocol_witness:
  "\<exists>log'. authenticateWithCookie demo_token_env demo_cookie_request [] =
     (demo_cookie_request\<lparr>headers := [(''cookie'', ''lemon=7''), (''authorization'', ''Bearer syt'')]\<rparr>, log') \<and> length log' = 4"
proof -
  have m: "match_token ''<a href='cb?loginToken=t1'>'' = Some ''t1''" by code_simp
  have h: "header demo_cookie_request ''authorization'' = []" "header demo_cookie_request ''cookie'' = ''lemon=7''" by code_simp+
  have "fst (getAccessTokenWithCookie demo_token_env ''lemon=7'' []) = JStr ''syt''"
    by (simp add: getAccessTokenWithCookie_def getOidcProvider_def getOidcRedirectLocation_def getLoginToken_def
        requestAccessToken_def http_fetch_def demo_token_env_def demo_net_def resp_json_def json_parse_str_of m
        provider_of_flows_def read_prop_def first_elem_def or_null_def token_of_login_def
        del: match_token.simps)
  then obtain log' where l: "getAccessTokenWithCookie demo_token_env ''lemon=7'' [] = (JStr ''syt'', log')"
    by (metis prod.collapse)
  let ?req' = "demo_cookie_request\<lparr>headers := [(''cookie'', ''lemon=7''), (''authorization'', ''Bearer syt'')]\<rparr>"
  have run: "authenticateWithCookie demo_token_env demo_cookie_request [] = (?req', log')"
    unfolding authenticateWithCookie_def h by (simp add: l demo_cookie_request_def)
  have "?req' \<noteq> demo_cookie_request" by (simp add: demo_cookie_request_def)
  with cookie_login_protocol [OF run] have "length log' = 4" by auto
  with run show ?thesis by blast
qed

end
