(* ===== verification/Invitation.thy ===== *)
theory Invitation
  imports IdDb TokenService
begin

text \<open>
  The invitation API (\<open>packages/tom-server/src/invitation-api\<close>): the service (creation with roll
  back, links, acceptance, removal), the middlewares, the controllers and the routes.  Acceptance
  starts work it does not wait for, so it is modelled as a pool of tasks that are resumed in any
  order; the other handlers run to completion.  Parameters: the \<open>n\<close>th identifier of \<open>uuidv7\<close>, the
  Matrix server, the clock, the user information service, the template files, the notification
  services and the validators of the \<open>validator\<close> package.
\<close>

datatype notice = Mail string string string | Sms string string

record 's inv_env =
  ie_db :: "'s backend"
  ie_uuid :: "nat \<Rightarrow> string"
  ie_net :: network
  ie_server :: string
  ie_enabled :: bool
  ie_url :: "string \<Rightarrow> string"
  ie_user :: "string \<Rightarrow> jsval result"
  ie_files :: "string \<Rightarrow> string result"
  ie_template_dir :: string
  ie_mime :: "string \<Rightarrow> string \<times> string \<times> string"
  ie_from :: string
  ie_notify :: "notice list \<Rightarrow> notice \<Rightarrow> unit result"
  ie_isEmail :: "string \<Rightarrow> bool"
  ie_isMobilePhone :: "string \<Rightarrow> bool"

text \<open>The database, the identifiers drawn, the exchanges with the Matrix server, the notices sent.\<close>

record 's inv_st =
  vs_db :: 's
  vs_next :: nat
  vs_log :: http_log
  vs_out :: "notice list"

definition on_store :: "('s \<Rightarrow> 'a \<times> 's) \<Rightarrow> 's inv_st \<Rightarrow> 'a \<times> 's inv_st" where
  "on_store f s = (case f (vs_db s) of (r, x) \<Rightarrow> (r, s\<lparr>vs_db := x\<rparr>))"

definition send_http :: "'s inv_env \<Rightarrow> http_req \<Rightarrow> 's inv_st \<Rightarrow> http_resp result \<times> 's inv_st" where
  "send_http env q s = (case http_fetch (ie_net env) q (vs_log s) of (r, l) \<Rightarrow> (r, s\<lparr>vs_log := l\<rparr>))"

definition notify :: "'s inv_env \<Rightarrow> notice \<Rightarrow> 's inv_st \<Rightarrow> unit result \<times> 's inv_st" where
  "notify env m s = (ie_notify env (vs_out s) m, s\<lparr>vs_out := vs_out s @ [m]\<rparr>)"

section \<open>Rows\<close>

definition EXPIRATION :: int where "EXPIRATION = 24 * 60 * 60 * 1000"

definition ONE_HOUR :: int where "ONE_HOUR = 60 * 60 * 1000"

text \<open>\<open>parseInt\<close> of a column; NaN prints as null and is neither before nor after any instant.\<close>

definition parsed :: "jsval \<Rightarrow> jsval" where
  "parsed v = (case parse_int (js_str v) of Some n \<Rightarrow> JNum n | None \<Rightarrow> Null)"

definition is_before :: "jsval \<Rightarrow> int \<Rightarrow> bool" where
  "is_before v now = (case v of JNum n \<Rightarrow> n < now | _ \<Rightarrow> False)"

definition invitation_response :: "obj \<Rightarrow> obj" where
  "invitation_response invitation =
     spread invitation
       ([(''accessed'', JBool (truthy (getp invitation ''accessed''))),
         (''expiration'', parsed (getp invitation ''expiration''))] @
        (if truthy (getp invitation ''matrix_id'') then [(''matrix_id'', getp invitation ''matrix_id'')] else []))"

section \<open>Creating, listing and removing\<close>

definition createInvitation :: "'s inv_env \<Rightarrow> int \<Rightarrow> obj \<Rightarrow> 's inv_st \<Rightarrow> string result \<times> 's inv_st" where
  "createInvitation env now payload s =
     (let tok = ie_uuid env (vs_next s); s1 = s\<lparr>vs_next := Suc (vs_next s)\<rparr>
      in case on_store (db_insert (ie_db env) ''invitations''
                 (spread payload [(''id'', JStr tok), (''expiration'', JStr (int_str (now + EXPIRATION))),
                                  (''accessed'', JNum 0)])) s1 of
           (Inl _, s2) \<Rightarrow> (Inl (Err ''Failed to create invitation''), s2)
         | (Inr _, s2) \<Rightarrow> (Inr tok, s2))"

definition getInvitationById :: "'s inv_env \<Rightarrow> string \<Rightarrow> 's inv_st \<Rightarrow> obj result \<times> 's inv_st" where
  "getInvitationById env invitationId s =
     (case on_store (db_get (ie_db env) ''invitations'' [''*''] (Some [(''id'', JStr invitationId)]) None) s of
        (Inr (invitation # _), s1) \<Rightarrow> (Inr (invitation_response invitation), s1)
      | (_, s1) \<Rightarrow> (Inl (Err ''Failed to get invitation''), s1))"

definition getUserInvitations :: "'s inv_env \<Rightarrow> string \<Rightarrow> 's inv_st \<Rightarrow> obj list result \<times> 's inv_st" where
  "getUserInvitations env user s =
     (case on_store (db_get (ie_db env) ''invitations'' [''*''] (Some [(''sender'', JStr user)]) None) s of
        (Inl _, s1) \<Rightarrow> (Inl (Err ''Failed to list invitations''), s1)
      | (Inr rows, s1) \<Rightarrow> (Inr (map invitation_response rows), s1))"

definition remove_invitation_row :: "'s inv_env \<Rightarrow> string \<Rightarrow> 's inv_st \<Rightarrow> 's inv_st" where
  "remove_invitation_row env tok s =
     snd (on_store (db_deleteEqual (ie_db env) ''invitations'' ''id'' (JStr tok)) s)"

definition removeInvitation :: "'s inv_env \<Rightarrow> string \<Rightarrow> 's inv_st \<Rightarrow> unit result \<times> 's inv_st" where
  "removeInvitation env tok s =
     (case on_store (db_deleteEqual (ie_db env) ''invitations'' ''id'' (JStr tok)) s of
        (Inl _, s1) \<Rightarrow> (Inl (Err ''Failed to remove invitation''), s1)
      | (Inr _, s1) \<Rightarrow> (Inr (), s1))"

text \<open>The pending invitations of a sender to an address; \<open>None\<close> when there is no row or an error.\<close>

definition getPendingUserInvitesToAddress ::
  "'s inv_env \<Rightarrow> string \<Rightarrow> jsval \<Rightarrow> jsval \<Rightarrow> 's inv_st \<Rightarrow> obj list option \<times> 's inv_st" where
  "getPendingUserInvitesToAddress env sender recipient medium s =
     (case on_store (db_get (ie_db env) ''invitations'' [''*'']
              (Some ((''sender'', JStr sender) #
                     (if truthy recipient then [(''recipient'', recipient)] else []) @
                     (if truthy medium then [(''medium'', medium)] else []))) None) s of
        (Inl _, s1) \<Rightarrow> (None, s1)
      | (Inr rows, s1) \<Rightarrow>
          (if rows = [] then None
           else Some (filter (\<lambda>r. \<not> truthy (getp r ''accessed'') \<and> getp r ''recipient'' = recipient \<and>
                                  getp r ''medium'' = medium) rows), s1))"

definition expires_at :: "obj \<Rightarrow> int" where
  "expires_at r = (case parsed (getp r ''expiration'') of JNum n \<Rightarrow> n | _ \<Rightarrow> 0)"

definition is_after :: "jsval \<Rightarrow> int \<Rightarrow> bool" where
  "is_after v now = (case v of JNum n \<Rightarrow> now < n | _ \<Rightarrow> False)"

text \<open>The rows left after the filter have a numeric expiration, so the comparator is a difference.\<close>

definition latest_first :: "obj \<Rightarrow> obj \<Rightarrow> int" where
  "latest_first a b = expires_at b - expires_at a"

definition getPreviouslyGeneratedInvite ::
  "'s inv_env \<Rightarrow> int \<Rightarrow> string \<Rightarrow> jsval \<Rightarrow> jsval \<Rightarrow> 's inv_st \<Rightarrow> obj option \<times> 's inv_st" where
  "getPreviouslyGeneratedInvite env now sender recipient medium s =
     (case getPendingUserInvitesToAddress env sender recipient medium s of
        (None, s1) \<Rightarrow> (None, s1)
      | (Some pending, s1) \<Rightarrow>
          ((case js_sort latest_first (filter (\<lambda>r. is_after (parsed (getp r ''expiration'')) now) pending) of
              [] \<Rightarrow> None | r # _ \<Rightarrow> Some r), s1))"

text \<open>The link and the identifier it carries.\<close>

definition generateLink ::
  "'s inv_env \<Rightarrow> int \<Rightarrow> string \<Rightarrow> jsval \<Rightarrow> jsval \<Rightarrow> 's inv_st \<Rightarrow> (string \<times> jsval) result \<times> 's inv_st" where
  "generateLink env now sender recipient medium s =
     (case getPreviouslyGeneratedInvite env now sender recipient medium s of
        (Some invite, s1) \<Rightarrow> (Inr (ie_url env (js_str (getp invite ''id'')), getp invite ''id''), s1)
      | (None, s1) \<Rightarrow>
          (case createInvitation env now
                   [(''sender'', JStr sender), (''recipient'', recipient), (''medium'', medium)] s1 of
             (Inl _, s2) \<Rightarrow> (Inl (Err ''Failed to generate invitation link''), s2)
           | (Inr tok, s2) \<Rightarrow> (Inr (ie_url env tok, JStr tok), s2)))"

section \<open>Sending\<close>

definition resolveSenderName :: "'s inv_env \<Rightarrow> string \<Rightarrow> string" where
  "resolveSenderName env sender =
     (case ie_user env sender of
        Inl _ \<Rightarrow> sender
      | Inr info \<Rightarrow> js_str (js_or (field info ''display_name'') (JStr sender)))"

definition SMS_FOOTER_FR :: string where "SMS_FOOTER_FR = ''STOP au 30101''"

text \<open>\<open>/^\+33\d{9}$/\<close>\<close>

definition getSmsFooter :: "string \<Rightarrow> string" where
  "getSmsFooter phoneNumber =
     (if take 3 phoneNumber = ''+33'' \<and> length phoneNumber = 12 \<and> list_all is_digit (drop 3 phoneNumber)
      then SMS_FOOTER_FR else [])"

definition buildEmailContent :: "'s inv_env \<Rightarrow> string \<Rightarrow> string \<Rightarrow> string \<Rightarrow> (string \<times> string) result" where
  "buildEmailContent env senderName dest link =
     (let dir = ie_template_dir env @ ''/en/email/invitation'';
          part = (\<lambda>path. case ie_mime env path of (boundary, date, messageid) \<Rightarrow>
             buildEmailBody (ie_files env) boundary date messageid path senderName dest link (ie_from env))
      in case part (dir @ ''/body.txt'') of
           Inl e \<Rightarrow> Inl e
         | Inr plain \<Rightarrow>
             (case part (dir @ ''/body.min.html'') of
                Inl e \<Rightarrow> Inl e
              | Inr html \<Rightarrow>
                  if plain = [] \<or> html = [] then Inl (Err ''Failed to build email content: text or html is empty'')
                  else Inr (plain, html)))"

definition sendEmailInvitation :: "'s inv_env \<Rightarrow> string \<Rightarrow> string \<Rightarrow> string \<Rightarrow> 's inv_st \<Rightarrow> unit result \<times> 's inv_st" where
  "sendEmailInvitation env senderName dest link s =
     (case buildEmailContent env senderName dest link of
        Inl e \<Rightarrow> (Inl e, s)
      | Inr (plain, html) \<Rightarrow> notify env (Mail dest plain html) s)"

definition sendSmsInvitation :: "'s inv_env \<Rightarrow> string \<Rightarrow> string \<Rightarrow> string \<Rightarrow> 's inv_st \<Rightarrow> unit result \<times> 's inv_st" where
  "sendSmsInvitation env senderName dest link s =
     (case buildSmsBody (ie_files env) (ie_template_dir env @ ''/3pidSmsInvitation.tpl'') senderName link
             (getSmsFooter dest) of
        None \<Rightarrow> (Inl (Err ''SMS body is empty after building from template''), s)
      | Some content \<Rightarrow>
          if content = [] then (Inl (Err ''SMS body is empty after building from template''), s)
          else notify env (Sms dest content) s)"

definition deliverInvitation ::
  "'s inv_env \<Rightarrow> string \<Rightarrow> string \<Rightarrow> string \<Rightarrow> string \<Rightarrow> 's inv_st \<Rightarrow> unit result \<times> 's inv_st" where
  "deliverInvitation env sender dest medium link s =
     (let senderName = resolveSenderName env sender
      in if medium = ''email'' then sendEmailInvitation env senderName dest link s
         else if medium = ''phone'' then sendSmsInvitation env senderName dest link s
         else (Inl (Err (''Unsupported medium: '' @ medium)), s))"

definition invite :: "'s inv_env \<Rightarrow> int \<Rightarrow> string \<Rightarrow> string \<Rightarrow> string \<Rightarrow> 's inv_st \<Rightarrow> string result \<times> 's inv_st" where
  "invite env now recipient medium sender s =
     (let failed = Inl (Err ''[InvitationService][invite] Failed to send invitation'')
      in case createInvitation env now
                [(''recipient'', JStr recipient), (''medium'', JStr medium), (''sender'', JStr sender)] s of
           (Inl _, s1) \<Rightarrow> (failed, s1)
         | (Inr tok, s1) \<Rightarrow>
             (case deliverInvitation env sender recipient medium (ie_url env tok) s1 of
                (Inl _, s2) \<Rightarrow> (failed, if tok = [] then s2 else remove_invitation_row env tok s2)
              | (Inr _, s2) \<Rightarrow> (Inr tok, s2)))"

section \<open>Accepting\<close>

definition room_request :: "'s inv_env \<Rightarrow> string \<Rightarrow> jsval \<Rightarrow> http_req" where
  "room_request env authorization invitedMxid =
     \<lparr>hq_method = ''POST'', hq_url = buildUrl (ie_server env) ''/_matrix/client/v3/createRoom'',
      hq_headers = [(''content-type'', JSON_TYPE), (''accept'', JSON_TYPE), (''authorization'', authorization)],
      hq_body = str_of (JObj [(''is_direct'', JBool True), (''preset'', JStr ''trusted_private_chat''),
                              (''invite'', JArr [invitedMxid])])\<rparr>"

definition direct_request :: "'s inv_env \<Rightarrow> string \<Rightarrow> string \<Rightarrow> jsval \<Rightarrow> jsval \<Rightarrow> http_req" where
  "direct_request env authorization user recipient room =
     \<lparr>hq_method = ''PUT'', hq_url = buildUrl (ie_server env)
        (''/_matrix/client/v3/user/'' @ user @ ''/account_data/m.direct''),
      hq_headers = [(''content-type'', JSON_TYPE), (''accept'', JSON_TYPE), (''authorization'', authorization)],
      hq_body = str_of (JObj [(js_str recipient, JArr [room])])\<rparr>"

text \<open>What \<open>_createPrivateChat\<close> and \<open>_markPrivateChatAsDirectMessage\<close> make of the answer.\<close>

definition room_of :: "http_resp result \<Rightarrow> jsval result" where
  "room_of r =
     (case r of
        Inl _ \<Rightarrow> Inl (Err ''Failed to create room'')
      | Inr p \<Rightarrow>
          if hp_status p \<noteq> 200 then Inl (Err ''Failed to create room'')
          else (case resp_json p of
                  Inl _ \<Rightarrow> Inl (Err ''Failed to create room'')
                | Inr data \<Rightarrow> (case read_prop data ''room_id'' of
                                Inl _ \<Rightarrow> Inl (Err ''Failed to create room'') | Inr room \<Rightarrow> Inr room)))"

definition marked :: "http_resp result \<Rightarrow> bool" where
  "marked r = (case r of Inl _ \<Rightarrow> False | Inr p \<Rightarrow> hp_status p = 200)"

text \<open>
  Where a call of \<open>accept\<close> or of \<open>_processInvitation\<close> waits: for the invitation, for the pending
  ones of its address, for the room (with the answer that will come), for the marking of the room,
  or it has answered.  The flag says whether the caller of \<open>_processInvitation\<close> awaits it.
\<close>

datatype task =
    Reading string string string
  | Listing string string string
  | RoomPending obj string string bool "http_resp result"
  | DirectPending obj string bool "http_resp result"
  | Replied "unit result"

definition finish :: "bool \<Rightarrow> task list" where
  "finish awaited = (if awaited then [Replied (Inr ())] else [])"

text \<open>\<open>_processInvitation\<close> up to its first await.\<close>

definition start_processing ::
  "'s inv_env \<Rightarrow> int \<Rightarrow> obj \<Rightarrow> string \<Rightarrow> string \<Rightarrow> bool \<Rightarrow> 's inv_st \<Rightarrow> task list \<times> 's inv_st" where
  "start_processing env now invitation user authorization awaited s =
     (if is_before (getp invitation ''expiration'') now then (finish awaited, s)
      else case send_http env (room_request env authorization (getp invitation ''sender'')) s of
             (r, s1) \<Rightarrow> ([RoomPending invitation user authorization awaited r], s1))"

fun start_all ::
  "'s inv_env \<Rightarrow> int \<Rightarrow> obj list \<Rightarrow> string \<Rightarrow> string \<Rightarrow> 's inv_st \<Rightarrow> task list \<times> 's inv_st" where
  "start_all env now [] user authorization s = ([], s)"
| "start_all env now (invitation # invitations) user authorization s =
     (case start_processing env now invitation user authorization False s of (ts, s1) \<Rightarrow>
      (case start_all env now invitations user authorization s1 of (us, s2) \<Rightarrow> (ts @ us, s2)))"

definition listPendingInvitationToAddress ::
  "'s inv_env \<Rightarrow> string \<Rightarrow> 's inv_st \<Rightarrow> obj list result \<times> 's inv_st" where
  "listPendingInvitationToAddress env address s =
     (case on_store (db_get (ie_db env) ''invitations'' [''*''] (Some [(''recipient'', JStr address)]) None) s of
        (Inl _, s1) \<Rightarrow> (Inl (Err ''Failed to list invitations''), s1)
      | (Inr rows, s1) \<Rightarrow>
          (Inr (map (\<lambda>r. del ''expiration'' (del ''accessed'' r) @
                      [(''accessed'', JBool (truthy (getp r ''accessed''))), (''expiration'', parsed (getp r ''expiration''))])
                 (filter (\<lambda>r. \<not> truthy (getp r ''accessed'') \<and> getp r ''recipient'' = JStr address) rows)), s1))"

definition rejected :: "task list" where
  "rejected = [Replied (Inl (Err ''Failed to accept invitation''))]"

fun resume :: "'s inv_env \<Rightarrow> int \<Rightarrow> task \<Rightarrow> 's inv_st \<Rightarrow> task list \<times> 's inv_st" where
  "resume env now (Reading invitationId user authorization) s =
     (case getInvitationById env invitationId s of
        (Inl _, s1) \<Rightarrow> (rejected, s1)
      | (Inr invitation, s1) \<Rightarrow>
          if is_before (getp invitation ''expiration'') now then (rejected, s1)
          else if truthy (getp invitation ''accessed'') then (rejected, s1)
          else if truthy (getp invitation ''recipient'')
          then ([Listing (js_str (getp invitation ''recipient'')) user authorization], s1)
          else start_processing env now invitation user authorization True s1)"
| "resume env now (Listing address user authorization) s =
     (case listPendingInvitationToAddress env address s of
        (Inl _, s1) \<Rightarrow> (rejected, s1)
      | (Inr invitations, s1) \<Rightarrow>
          (case start_all env now invitations user authorization s1 of
             (ts, s2) \<Rightarrow> (Replied (Inr ()) # ts, s2)))"
| "resume env now (RoomPending invitation user authorization awaited r) s =
     (case room_of r of
        Inl _ \<Rightarrow> (finish awaited, s)
      | Inr room \<Rightarrow>
          (case send_http env (direct_request env authorization user (getp invitation ''sender'') room) s of
             (r', s1) \<Rightarrow> ([DirectPending invitation user awaited r'], s1)))"
| "resume env now (DirectPending invitation user awaited r) s =
     (if \<not> marked r then (finish awaited, s)
      else (finish awaited, snd (on_store (db_update (ie_db env) ''invitations''
              [(''accessed'', JNum 1), (''matrix_id'', JStr user)] ''id'' (getp invitation ''id'')) s)))"
| "resume env now (Replied r) s = ([Replied r], s)"

text \<open>The pool: a request arrives, or one of the waiting tasks is resumed, at any instant.\<close>

inductive accept_step :: "'s inv_env \<Rightarrow> task list \<times> 's inv_st \<Rightarrow> task list \<times> 's inv_st \<Rightarrow> bool" for env where
  arrive: "accept_step env (ts, s) (ts @ [Reading invitationId user authorization], s)"
| run: "resume env now t s = (us, s') \<Longrightarrow> accept_step env (ts @ t # ts', s) (ts @ us @ ts', s')"

inductive accept_runs :: "'s inv_env \<Rightarrow> task list \<times> 's inv_st \<Rightarrow> task list \<times> 's inv_st \<Rightarrow> bool" for env where
  start: "accept_runs env w w"
| more: "accept_runs env w w' \<Longrightarrow> accept_step env w' w'' \<Longrightarrow> accept_runs env w w''"

section \<open>Middlewares\<close>

definition checkInvitationPayload :: "'s inv_env \<Rightarrow> request \<Rightarrow> guard" where
  "checkInvitationPayload env req =
     (let contact = field (body req) ''contact''; medium = field (body req) ''medium'';
          invalid = Done (message 400 ''Invalid invitation payload'')
      in if nullish (body req) then invalid
         else if \<not> truthy contact then Done (message 400 ''Recipient is required'')
         else if \<not> truthy medium then Done (message 400 ''Medium is required'')
         else if medium \<noteq> JStr ''email'' \<and> medium \<noteq> JStr ''phone'' then Done (message 400 ''Invalid medium'')
         else case contact of
                JStr c \<Rightarrow>
                  if medium = JStr ''email'' \<and> \<not> ie_isEmail env c then Done (message 400 ''Invalid email'')
                  else if medium = JStr ''phone'' \<and> (\<not> ie_isMobilePhone env c \<or> \<not> starts_with c ''+'')
                  then Done (message 400 ''Invalid phone number'')
                  else Pass
              | _ \<Rightarrow> invalid)"

definition checkGenerateInvitationLinkPayload :: "'s inv_env \<Rightarrow> request \<Rightarrow> guard" where
  "checkGenerateInvitationLinkPayload env req =
     (if \<not> truthy (body req) \<or> (case body req of JObj ps \<Rightarrow> ps = [] | JArr vs \<Rightarrow> vs = [] | JStr t \<Rightarrow> t = [] | _ \<Rightarrow> True)
      then Pass else checkInvitationPayload env req)"

definition checkInvitation :: "'s inv_env \<Rightarrow> int \<Rightarrow> request \<Rightarrow> 's inv_st \<Rightarrow> guard \<times> 's inv_st" where
  "checkInvitation env now req s =
     (let i = path_param req ''id'' in
      if i = [] then (Done (message 400 ''Invitation id is required''), s)
      else case on_store (db_get (ie_db env) ''invitations'' [''expiration'', ''sender''] (Some [(''id'', JStr i)]) None) s of
             (Inl _, s1) \<Rightarrow> (Done (message 400 ''Invalid invitation''), s1)
           | (Inr [], s1) \<Rightarrow> (Done (message 404 ''Invitation not found''), s1)
           | (Inr (invitation # _), s1) \<Rightarrow>
               if getp invitation ''sender'' = (case userId req of None \<Rightarrow> Undef | Some u \<Rightarrow> JStr u)
               then (Done (message 400 ''You cannot accept your own invitation''), s1)
               else if (case as_number (getp invitation ''expiration'') of Some n \<Rightarrow> n < now | None \<Rightarrow> False)
               then (Done (message 400 ''Invitation expired''), s1)
               else (Pass, s1))"

definition checkInvitationOwnership :: "'s inv_env \<Rightarrow> request \<Rightarrow> 's inv_st \<Rightarrow> guard \<times> 's inv_st" where
  "checkInvitationOwnership env req s =
     (let i = path_param req ''id'' in
      if i = [] then (Done (message 400 ''Invitation id is required''), s)
      else case on_store (db_get (ie_db env) ''invitations'' [''sender''] (Some [(''id'', JStr i)]) None) s of
             (Inl _, s1) \<Rightarrow> (Done (message 400 ''Invalid invitation''), s1)
           | (Inr [], s1) \<Rightarrow> (Done (message 404 ''Invitation not found''), s1)
           | (Inr (invitation # _), s1) \<Rightarrow>
               if getp invitation ''sender'' \<noteq> (case userId req of None \<Rightarrow> Undef | Some u \<Rightarrow> JStr u)
               then (Done (message 403 ''You are not the owner of this invitation''), s1)
               else (Pass, s1))"

definition rateLimitInvitations :: "'s inv_env \<Rightarrow> int \<Rightarrow> request \<Rightarrow> 's inv_st \<Rightarrow> guard \<times> 's inv_st" where
  "rateLimitInvitations env now req s =
     (if nullish (body req) then (Done (message 400 ''Failed to rate limit invitations''), s)
      else case on_store (db_get (ie_db env) ''invitations'' [''id'', ''expiration'']
                  (Some [(''recipient'', field (body req) ''contact'')]) None) s of
             (Inl _, s1) \<Rightarrow> (Done (message 400 ''Failed to rate limit invitations''), s1)
           | (Inr invitations, s1) \<Rightarrow>
               if invitations = [] then (Pass, s1)
               else (case parsed (getp (last invitations) ''expiration'') of
                       JNum expiration \<Rightarrow>
                         if now - expiration < ONE_HOUR
                         then (Done (message 400 ''You already sent an invitation to this contact''), s1)
                         else (Pass, s1)
                     | _ \<Rightarrow> (Pass, s1)))"

definition checkFeatureEnabled :: "'s inv_env \<Rightarrow> guard" where
  "checkFeatureEnabled env =
     (if ie_enabled env then Pass else Done (message 400 ''Invitations are not enabled''))"

section \<open>Controllers and routes\<close>

definition c_sendInvitation :: "'s inv_env \<Rightarrow> int \<Rightarrow> request \<Rightarrow> 's inv_st \<Rightarrow> response \<times> 's inv_st" where
  "c_sendInvitation env now req s =
     (if \<not> has_user req then (message 400 ''Sender is required'', s)
      else if header req ''authorization'' = [] then (message 400 ''Authorization header is required'', s)
      else case invite env now (js_str (field (body req) ''contact'')) (js_str (field (body req) ''medium''))
                  (user_of req) s of
             (Inl e, s1) \<Rightarrow> (NextError e, s1)
           | (Inr tok, s1) \<Rightarrow> (Json 200 (JObj [(''message'', JStr ''Invitation sent''), (''id'', JStr tok)]), s1))"

definition c_listInvitations :: "'s inv_env \<Rightarrow> request \<Rightarrow> 's inv_st \<Rightarrow> response \<times> 's inv_st" where
  "c_listInvitations env req s =
     (if \<not> has_user req then (message 400 ''User id is required'', s)
      else case getUserInvitations env (user_of req) s of
             (Inl e, s1) \<Rightarrow> (NextError e, s1)
           | (Inr invitations, s1) \<Rightarrow> (Json 200 (JObj [(''invitations'', JArr (map JObj invitations))]), s1))"

text \<open>The defaults of the destructuring apply to missing properties.\<close>

definition or_default :: "jsval \<Rightarrow> jsval" where
  "or_default v = (if v = Undef then Null else v)"

definition c_generateInvitationLink :: "'s inv_env \<Rightarrow> int \<Rightarrow> request \<Rightarrow> 's inv_st \<Rightarrow> response \<times> 's inv_st" where
  "c_generateInvitationLink env now req s =
     (if nullish (body req) then (NextError (Err ''Cannot read properties of undefined''), s)
      else if \<not> has_user req then (NextError (Err ''Sender is required''), s)
      else case generateLink env now (user_of req) (or_default (field (body req) ''contact''))
                  (or_default (field (body req) ''medium'')) s of
             (Inl e, s1) \<Rightarrow> (NextError e, s1)
           | (Inr (link, i), s1) \<Rightarrow> (Json 200 (JObj [(''link'', JStr link), (''id'', i)]), s1))"

definition c_getInvitationStatus :: "'s inv_env \<Rightarrow> request \<Rightarrow> 's inv_st \<Rightarrow> response \<times> 's inv_st" where
  "c_getInvitationStatus env req s =
     (if path_param req ''id'' = [] then (message 400 ''Invitation id is required'', s)
      else case getInvitationById env (path_param req ''id'') s of
             (Inl e, s1) \<Rightarrow> (NextError e, s1)
           | (Inr invitation, s1) \<Rightarrow> (Json 200 (JObj [(''invitation'', JObj invitation)]), s1))"

definition c_removeInvitation :: "'s inv_env \<Rightarrow> request \<Rightarrow> 's inv_st \<Rightarrow> response \<times> 's inv_st" where
  "c_removeInvitation env req s =
     (case removeInvitation env (path_param req ''id'') s of
        (Inl e, s1) \<Rightarrow> (NextError e, s1)
      | (Inr _, s1) \<Rightarrow> (message 200 ''Invitation removed'', s1))"

text \<open>The checks of \<open>acceptInvitation\<close>; when they pass the request waits as a \<open>Reading\<close> task.\<close>

definition c_acceptInvitation :: "request \<Rightarrow> response + task" where
  "c_acceptInvitation req =
     (if path_param req ''id'' = [] then Inl (message 400 ''Invitation id is required'')
      else if header req ''authorization'' = [] then Inl (message 400 ''Authorization header is required'')
      else if \<not> has_user req then Inl (message 400 ''User id is required'')
      else Inr (Reading (path_param req ''id'') (user_of req) (header req ''authorization'')))"

definition accepted_response :: "unit result \<Rightarrow> response" where
  "accepted_response r = (case r of Inl e \<Rightarrow> NextError e | Inr _ \<Rightarrow> message 200 ''Invitation accepted'')"

datatype inv_route = PostInvite | PostGenerate | GetList | DeleteInvite | GetStatus

definition guarded :: "guard \<times> 's inv_st \<Rightarrow> ('s inv_st \<Rightarrow> response \<times> 's inv_st) \<Rightarrow> response \<times> 's inv_st" where
  "guarded g k = (case g of (Done r, s) \<Rightarrow> (r, s) | (Pass, s) \<Rightarrow> k s)"

text \<open>The routes that run to completion; errors go to the error middleware.\<close>

definition inv_handle ::
  "'s inv_env \<Rightarrow> (request \<Rightarrow> auth_outcome) \<Rightarrow> int \<Rightarrow> inv_route \<Rightarrow> request \<Rightarrow> 's inv_st \<Rightarrow> response \<times> 's inv_st" where
  "inv_handle env authenticator now route req0 s =
     (case guarded (checkFeatureEnabled env, s) (\<lambda>s.
         case authMiddleware authenticator req0 of
           Inl r \<Rightarrow> (r, s)
         | Inr req \<Rightarrow>
             (case route of
                PostInvite \<Rightarrow> guarded (checkInvitationPayload env req, s) (\<lambda>s1.
                  guarded (rateLimitInvitations env now req s1) (c_sendInvitation env now req))
              | PostGenerate \<Rightarrow>
                  guarded (checkGenerateInvitationLinkPayload env req, s) (c_generateInvitationLink env now req)
              | GetList \<Rightarrow> c_listInvitations env req s
              | DeleteInvite \<Rightarrow> guarded (checkInvitationOwnership env req s) (c_removeInvitation env req)
              | GetStatus \<Rightarrow> guarded (checkInvitationOwnership env req s) (c_getInvitationStatus env req))) of
        (r, s') \<Rightarrow> (errorMiddleware r, s'))"

text \<open>The route that accepts: the cookie login, authentication, the check, then a task of the pool.\<close>

definition accept_route ::
  "'s inv_env \<Rightarrow> token_env \<Rightarrow> (request \<Rightarrow> auth_outcome) \<Rightarrow> int \<Rightarrow> request \<Rightarrow> http_log \<Rightarrow> 's inv_st \<Rightarrow>
   (response + task) \<times> http_log \<times> 's inv_st" where
  "accept_route env tenv authenticator now req0 log s =
     (if \<not> ie_enabled env then (Inl (message 400 ''Invitations are not enabled''), log, s)
      else case authenticateWithCookie tenv req0 log of (req1, log1) \<Rightarrow>
        (case authMiddleware authenticator req1 of
           Inl r \<Rightarrow> (Inl (errorMiddleware r), log1, s)
         | Inr req \<Rightarrow>
             (case checkInvitation env now req s of
                (Done r, s1) \<Rightarrow> (Inl r, log1, s1)
              | (Pass, s1) \<Rightarrow> (c_acceptInvitation req, log1, s1))))"

section \<open>What the interface gives the invitations\<close>

definition inv_cols :: "string list" where
  "inv_cols = [''id'', ''sender'', ''recipient'', ''medium'', ''expiration'', ''accessed'', ''room_id'', ''matrix_id'']"

definition invitation_row :: "string \<Rightarrow> string \<Rightarrow> jsval \<Rightarrow> jsval \<Rightarrow> int \<Rightarrow> obj" where
  "invitation_row tok sender recipient medium expiration =
     [(''id'', JStr tok), (''sender'', JStr sender), (''recipient'', recipient), (''medium'', medium),
      (''expiration'', JStr (int_str expiration)), (''accessed'', JNum 0), (''room_id'', Null), (''matrix_id'', Null)]"

lemma on_storeE:
  assumes "on_store f s = (r, s')"
  obtains x where "f (vs_db s) = (r, x)" "s' = s\<lparr>vs_db := x\<rparr>"
  using assms by (cases "f (vs_db s)") (auto simp: on_store_def)

locale invitation_db = table_db +
  assumes invites: "schema ''invitations'' = inv_cols" "key ''invitations'' = [''id'']"
begin

lemma store_get:
  assumes "on_store (db_get d ''invitations'' fs (Some f) None) s = (r, s')" "wf (vs_db s)"
    "set (map fst f) \<subseteq> set inv_cols" "fs = [''*''] \<or> set fs \<subseteq> set inv_cols"
  shows "wf (vs_db s') \<and> (healthy (vs_db s) \<longrightarrow> healthy (vs_db s') \<and> (\<exists>rs. r = Inr rs)) \<and>
    tab (vs_db s') = tab (vs_db s) \<and> s' = s\<lparr>vs_db := vs_db s'\<rparr> \<and>
    (\<forall>rs. r = Inr rs \<longrightarrow>
       mset rs = {# project fs x. x \<in># {# x \<in># tab (vs_db s) ''invitations''. matches f x #} #})"
proof -
  obtain x where x: "db_get d ''invitations'' fs (Some f) None (vs_db s) = (r, x)" "s' = s\<lparr>vs_db := x\<rparr>"
    using assms(1) by (rule on_storeE)
  have c: "schema ''invitations'' \<noteq> []" "fs = [''*''] \<or> set fs \<subseteq> set (schema ''invitations'')"
    "set (map fst (kept f)) \<subseteq> set (schema ''invitations'')"
    using assms(3,4) by (auto simp: invites kept_def inv_cols_def)
  from get_law [OF assms(2) c x(1)] x(2) show ?thesis by (cases r) auto
qed

lemma store_get_star:
  assumes "on_store (db_get d ''invitations'' [''*''] (Some f) None) s = (r, s')" "wf (vs_db s)"
    "set (map fst f) \<subseteq> set inv_cols"
  shows "wf (vs_db s') \<and> (healthy (vs_db s) \<longrightarrow> healthy (vs_db s') \<and> (\<exists>rs. r = Inr rs)) \<and>
    tab (vs_db s') = tab (vs_db s) \<and> s' = s\<lparr>vs_db := vs_db s'\<rparr> \<and>
    (\<forall>rs. r = Inr rs \<longrightarrow> mset rs = {# x \<in># tab (vs_db s) ''invitations''. matches f x #})"
proof -
  have "project [''*''] = (\<lambda>x. x)" by (rule ext) (simp add: project_def)
  then show ?thesis using store_get [OF assms] by simp
qed

lemma create_invitation:
  assumes "ie_db env = d" "createInvitation env now payload s = (r, s')" "wf (vs_db s)"
    "payload = [(''recipient'', recipient), (''medium'', medium), (''sender'', JStr sender)] \<or>
     payload = [(''sender'', JStr sender), (''recipient'', recipient), (''medium'', medium)]"
    "\<not> (nullish recipient \<and> recipient \<noteq> Null)" "\<not> (nullish medium \<and> medium \<noteq> Null)"
  shows "wf (vs_db s') \<and> (healthy (vs_db s) \<longrightarrow> healthy (vs_db s')) \<and> vs_next s' = Suc (vs_next s) \<and>
    vs_log s' = vs_log s \<and> vs_out s' = vs_out s \<and>
    (case r of
       Inr tok \<Rightarrow> tok = ie_uuid env (vs_next s) \<and> tab (vs_db s') = (tab (vs_db s))(''invitations'' :=
         add_mset (invitation_row tok sender recipient medium (now + EXPIRATION)) (tab (vs_db s) ''invitations''))
     | Inl e \<Rightarrow> tab (vs_db s') = tab (vs_db s) \<and> (healthy (vs_db s) \<longrightarrow>
         (\<exists>x \<in># tab (vs_db s) ''invitations''. sql_eq (getp x ''id'') (JStr (ie_uuid env (vs_next s))))))"
proof -
  let ?u = "ie_uuid env (vs_next s)"
  let ?vs = "spread payload [(''id'', JStr ?u), (''expiration'', JStr (int_str (now + EXPIRATION))), (''accessed'', JNum 0)]"
  obtain q x where g: "db_insert d ''invitations'' ?vs (vs_db s) = (q, x)" by fastforce
  have s': "s' = s\<lparr>vs_next := Suc (vs_next s), vs_db := x\<rparr>"
    "r = (case q of Inl _ \<Rightarrow> Inl (Err ''Failed to create invitation'') | Inr _ \<Rightarrow> Inr ?u)"
    using assms(1,2) g by (auto simp: createInvitation_def on_store_def Let_def split: sum.splits)
  have c: "schema ''invitations'' \<noteq> []" "?vs \<noteq> []" "set (map fst ?vs) \<subseteq> set (schema ''invitations'')"
    using assms(4) by (auto simp: invites inv_cols_def)
  have row: "complete (schema ''invitations'') (stored_obj ?vs) =
      invitation_row ?u sender recipient medium (now + EXPIRATION)"
    using assms(4-6) by (auto simp: invites inv_cols_def complete_def stored_obj_def stored_def invitation_row_def)
  note i = insert_law [OF assms(3) c g, unfolded row]
  show ?thesis using i s' by (cases q) (auto simp: invites invitation_row_def)
qed

lemma delete_by_id:
  assumes "on_store (db_deleteEqual d ''invitations'' ''id'' (JStr tok)) s = (r, s')" "wf (vs_db s)" "tok \<noteq> []"
  shows "wf (vs_db s') \<and> (healthy (vs_db s) \<longrightarrow> healthy (vs_db s') \<and> r = Inr ()) \<and>
    tab (vs_db s') = (if r = Inr () then (tab (vs_db s))
      (''invitations'' := {# x \<in># tab (vs_db s) ''invitations''. \<not> sql_eq (getp x ''id'') (JStr tok) #})
      else tab (vs_db s))"
proof -
  obtain x where x: "db_deleteEqual d ''invitations'' ''id'' (JStr tok) (vs_db s) = (r, x)" "s' = s\<lparr>vs_db := x\<rparr>"
    using assms(1) by (rule on_storeE)
  have "''id'' \<in> set (schema ''invitations'')" by (simp add: invites inv_cols_def)
  from delete_law [OF assms(2) this x(1)] x(2) assms(3) show ?thesis
    by (cases r) (auto simp: bad_condition_def)
qed

end

lemma tom_schema_invites: "schema_of tom_tables ''invitations'' = inv_cols" "key_of tom_tables ''invitations'' = [''id'']"
  unfolding tom_schema tom_key by code_simp+

interpretation invites: invitation_db "mem_db dia" "store_wf tom_tables" store_healthy rows_of
    "schema_of tom_tables" "key_of tom_tables"
  for dia
  by (unfold_locales) (fact tom_schema_invites)+

lemma tom_invites:
  "tom_database d ok healthy tab \<Longrightarrow> invitation_db d ok healthy tab (schema_of tom_tables) (key_of tom_tables)"
  by (intro invitation_db.intro invitation_db_axioms.intro) (simp_all add: tom_schema_invites)

end
