(* ===== verification/InvitationLaws.thy ===== *)
theory InvitationLaws
  imports Invitation
begin

text \<open>
  What the invitation API guarantees: sending is all or nothing as long as the database
  can undo it, links are reused, only the sender
  sees or removes an invitation, the rate limit, and what acceptance does under every interleaving.
\<close>

section \<open>Sending and reusing invitations\<close>

fun notice_to :: "notice \<Rightarrow> string" where
  "notice_to (Mail dest _ _) = dest"
| "notice_to (Sms dest _) = dest"

lemma deliver_frame:
  assumes "deliverInvitation env sender dest medium link s = (r, s')"
  shows "vs_db s' = vs_db s \<and> vs_log s' = vs_log s \<and>
    (\<forall>u. r = Inr u \<longrightarrow> (\<exists>m. notice_to m = dest \<and> vs_out s' = vs_out s @ [m] \<and> ie_notify env (vs_out s) m = Inr ()))"
  using assms
  by (auto simp: deliverInvitation_def sendEmailInvitation_def sendSmsInvitation_def notify_def Let_def
      split: if_splits sum.splits option.splits)

text \<open>
  C27: Sending an invitation on any database, failing or not, with a fresh identifier: either it
  succeeds, and exactly one row is added, open, expiring 24 hours later, under that identifier, and
  exactly one notice went to the recipient and was accepted; or it fails and the tables are as they
  were; or it fails and the one row stays, and then the notice was refused after the row was stored
  and the deletion that was to undo it failed too, which the code swallows: the database was not
  free of failures.
\<close>

theorem invite_all_or_nothing:
  assumes "tom_database (ie_db env) ok healthy tab" "ok (vs_db s)" "ie_uuid env (vs_next s) \<noteq> []"
    "\<And>x. x \<in># tab (vs_db s) ''invitations'' \<Longrightarrow> \<not> sql_eq (getp x ''id'') (JStr (ie_uuid env (vs_next s)))"
    "invite env now recipient medium sender s = (r, s')"
  shows "let tok = ie_uuid env (vs_next s);
      one_more = (tab (vs_db s))(''invitations'' :=
        add_mset (invitation_row tok sender (JStr recipient) (JStr medium) (now + EXPIRATION))
          (tab (vs_db s) ''invitations''))
    in case r of
      Inr t \<Rightarrow> t = tok \<and> tab (vs_db s') = one_more \<and>
        (\<exists>m. notice_to m = recipient \<and> vs_out s' = vs_out s @ [m] \<and> ie_notify env (vs_out s) m = Inr ())
    | Inl e \<Rightarrow> tab (vs_db s') = tab (vs_db s) \<or> tab (vs_db s') = one_more \<and> \<not> healthy (vs_db s)"
proof -
  note db = tom_invites [OF assms(1)]
  let ?p = "[(''recipient'', JStr recipient), (''medium'', JStr medium), (''sender'', JStr sender)]"
  obtain c s1 where c: "createInvitation env now ?p s = (c, s1)" by fastforce
  note cr = invitation_db.create_invitation [OF db refl c assms(2),
      where recipient = "JStr recipient" and medium = "JStr medium" and sender = sender]
  show ?thesis
  proof (cases c)
    case (Inl e)
    then show ?thesis using cr c assms(5) by (auto simp: invite_def Let_def)
  next
    case (Inr tok)
    let ?row = "invitation_row tok sender (JStr recipient) (JStr medium) (now + EXPIRATION)"
    have t: "tok = ie_uuid env (vs_next s)" "ok (vs_db s1)" "healthy (vs_db s) \<longrightarrow> healthy (vs_db s1)" "vs_out s1 = vs_out s"
      "tab (vs_db s1) = (tab (vs_db s))(''invitations'' := add_mset ?row (tab (vs_db s) ''invitations''))"
      using cr Inr by auto
    obtain q s2 where q: "deliverInvitation env sender recipient medium (ie_url env tok) s1 = (q, s2)" by fastforce
    note dl = deliver_frame [OF q]
    show ?thesis
    proof (cases q)
      case (Inr u)
      then have "r = Inr tok" "s' = s2" using c \<open>c = Inr tok\<close> q assms(5) by (auto simp: invite_def)
      then show ?thesis using dl Inr t by (auto simp: Let_def)
    next
      case (Inl e)
      obtain x s3 where x: "on_store (db_deleteEqual (ie_db env) ''invitations'' ''id'' (JStr tok)) s2 = (x, s3)" by fastforce
      have r: "r = Inl (Err ''[InvitationService][invite] Failed to send invitation'')" "s' = s3"
        using c \<open>c = Inr tok\<close> q Inl x assms(3,5) t(1) by (auto simp: invite_def Let_def remove_invitation_row_def)
      have o: "ok (vs_db s2)" "healthy (vs_db s) \<longrightarrow> healthy (vs_db s2)" "tok \<noteq> []"
        "tab (vs_db s2) = tab (vs_db s1)" using t dl assms(3) by auto
      note dd = invitation_db.delete_by_id [OF db x o(1,3)]
      have keep: "{# y \<in># tab (vs_db s) ''invitations''. \<not> sql_eq (getp y ''id'') (JStr tok) #} = tab (vs_db s) ''invitations''"
        using assms(4) t(1) by (simp add: filter_mset_eq_conv)
      have id: "getp ?row ''id'' = JStr tok" by (simp add: invitation_row_def)
      show ?thesis
      proof (cases "x = Inr ()")
        case True
        then have "tab (vs_db s3) = tab (vs_db s)"
          using dd o(4) t(5) keep id by (auto simp: sql_eq_def)
        then show ?thesis using r by simp
      next
        case False
        then have "\<not> healthy (vs_db s)" "tab (vs_db s3) = tab (vs_db s1)" using dd o(2,4) by auto
        then show ?thesis using r t(1,5) by simp
      qed
    qed
  qed
qed

definition demo_row :: obj where
  "demo_row = invitation_row ''i1'' ''@ann:x'' (JStr ''bob@x'') (JStr ''email'') 1000"

definition demo_inv :: "store inv_st" where
  "demo_inv = \<lparr>vs_db = with_rows tom_store ''invitations'' [demo_row],
     vs_next = 0, vs_log = [], vs_out = []\<rparr>"

definition demo_inv_env :: "dialect \<Rightarrow> store inv_env" where
  "demo_inv_env dia = \<lparr>ie_db = mem_db dia, ie_uuid = (\<lambda>n. CHR ''u'' # nat_str n),
     ie_net = (\<lambda>log q. Inr \<lparr>hp_status = 200, hp_headers = [], hp_body = str_of (JObj [(''room_id'', JStr ''!r:x'')])\<rparr>),
     ie_server = ''matrix.x'', ie_enabled = True, ie_url = (\<lambda>t. ''https://sign.up/?invitation_token='' @ t),
     ie_user = (\<lambda>u. Inr Null), ie_files = (\<lambda>p. Inr ''__inviter__''), ie_template_dir = ''t'',
     ie_mime = (\<lambda>p. ([], [], [])), ie_from = ''no-reply@x'', ie_notify = (\<lambda>out m. Inr ()),
     ie_isEmail = (\<lambda>e. True), ie_isMobilePhone = (\<lambda>p. True)\<rparr>"

lemma demo_inv_tom: "tom_database (ie_db (demo_inv_env dia)) (store_wf tom_tables) store_healthy rows_of"
  by (simp add: demo_inv_env_def mem_tom)

lemma one_invitation:
  assumes "r = invitation_row tok sender recipient medium expiration"
  shows "store_wf tom_tables (with_rows tom_store ''invitations'' [r])"
    "rows_of (with_rows tom_store ''invitations'' [r]) ''invitations'' = {#r#}"
    "faults (with_rows tom_store ''invitations'' [r]) = []"
proof -
  have t: "store_wf tom_tables (with_rows tom_store ''invitations'' [r])"
    "rows_of (with_rows tom_store ''invitations'' [r]) = (rows_of tom_store)(''invitations'' := mset [r])"
    "faults (with_rows tom_store ''invitations'' [r]) = faults tom_store"
    unfolding assms
    by (rule with_rows_ok [OF tom_store_wf]; simp add: tom_schema_invites inv_cols_def invitation_row_def keys_of_def)+
  then show "store_wf tom_tables (with_rows tom_store ''invitations'' [r])"
    "rows_of (with_rows tom_store ''invitations'' [r]) ''invitations'' = {#r#}"
    "faults (with_rows tom_store ''invitations'' [r]) = []"
    by (simp_all add: tom_store_rows)
qed

lemma demo_inv_ok: "store_wf tom_tables (vs_db demo_inv)" "store_healthy (vs_db demo_inv)"
  "rows_of (vs_db demo_inv) ''invitations'' = {#demo_row#}" "vs_next demo_inv = 0"
  using one_invitation [OF demo_row_def] by (simp_all add: demo_inv_def store_healthy_def)

lemma demo_inv_fresh:
  "x \<in># rows_of (vs_db demo_inv) ''invitations'' \<Longrightarrow>
   \<not> sql_eq (getp x ''id'') (JStr (ie_uuid (demo_inv_env dia) (vs_next demo_inv)))"
  by (simp add: demo_inv_ok demo_row_def invitation_row_def demo_inv_env_def sql_eq_def)

theorem invite_all_or_nothing_witness:
  "\<exists>e s'. invite (demo_inv_env PG) 7 ''eve@x'' ''fax'' ''@ann:x'' demo_inv = (Inl e, s') \<and>
     rows_of (vs_db s') = rows_of (vs_db demo_inv)"
proof -
  have u: "ie_uuid (demo_inv_env PG) (vs_next demo_inv) \<noteq> []" by (simp add: demo_inv_env_def)
  obtain r s' where i: "invite (demo_inv_env PG) 7 ''eve@x'' ''fax'' ''@ann:x'' demo_inv = (r, s')" by fastforce
  then obtain e where "r = Inl e"
    by (auto simp: invite_def deliverInvitation_def Let_def split: prod.splits sum.splits)
  then show ?thesis
    using invite_all_or_nothing [OF demo_inv_tom demo_inv_ok(1) u demo_inv_fresh i] demo_inv_ok(2) i
    by (auto simp: Let_def)
qed

definition open_invites :: "obj multiset \<Rightarrow> int \<Rightarrow> string \<Rightarrow> jsval \<Rightarrow> jsval \<Rightarrow> obj multiset" where
  "open_invites rows now sender recipient medium =
     {# r \<in># rows. sql_eq (getp r ''sender'') (JStr sender) \<and> \<not> truthy (getp r ''accessed'') \<and>
        getp r ''recipient'' = recipient \<and> getp r ''medium'' = medium \<and> is_after (parsed (getp r ''expiration'')) now #}"

definition address_value :: "jsval \<Rightarrow> bool" where
  "address_value v \<longleftrightarrow> v = Null \<or> (\<exists>t. v = JStr t \<and> t \<noteq> [])"

lemma latest_comparator: "js_comparator latest_first"
  by unfold_locales (auto simp: latest_first_def)

definition pending_filter :: "string \<Rightarrow> jsval \<Rightarrow> jsval \<Rightarrow> obj" where
  "pending_filter sender recipient medium =
     (''sender'', JStr sender) # (if truthy recipient then [(''recipient'', recipient)] else []) @
     (if truthy medium then [(''medium'', medium)] else [])"

lemma pending_matches:
  assumes "sender \<noteq> []" "address_value recipient" "address_value medium"
  shows "matches (pending_filter sender recipient medium) r \<and> getp r ''recipient'' = recipient \<and> getp r ''medium'' = medium \<longleftrightarrow>
    sql_eq (getp r ''sender'') (JStr sender) \<and> getp r ''recipient'' = recipient \<and> getp r ''medium'' = medium"
  using assms
  by (auto simp: pending_filter_def matches_def kept_def match_val_def address_value_def sql_eq_def)

lemma pending_invites:
  assumes "tom_database (ie_db env) ok healthy tab" "ok (vs_db s)" "healthy (vs_db s)"
    "sender \<noteq> []" "address_value recipient" "address_value medium"
    "getPreviouslyGeneratedInvite env now sender recipient medium s = (p, s')"
  shows "ok (vs_db s') \<and> healthy (vs_db s') \<and> tab (vs_db s') = tab (vs_db s) \<and> vs_next s' = vs_next s \<and>
    (case p of
       None \<Rightarrow> open_invites (tab (vs_db s) ''invitations'') now sender recipient medium = {#}
     | Some i \<Rightarrow> i \<in># open_invites (tab (vs_db s) ''invitations'') now sender recipient medium \<and>
         (\<forall>j \<in># open_invites (tab (vs_db s) ''invitations'') now sender recipient medium. expires_at j \<le> expires_at i))"
proof -
  let ?open = "open_invites (tab (vs_db s) ''invitations'') now sender recipient medium"
  let ?f = "pending_filter sender recipient medium"
  note db = tom_invites [OF assms(1)]
  obtain q where g: "on_store (db_get (ie_db env) ''invitations'' [''*''] (Some ?f) None) s = (q, s')"
    using assms(7)
    by (auto simp: getPreviouslyGeneratedInvite_def getPendingUserInvitesToAddress_def pending_filter_def
        split: prod.splits sum.splits option.splits if_splits)
  have c: "set (map fst ?f) \<subseteq> set inv_cols" by (auto simp: pending_filter_def inv_cols_def)
  note gs = invitation_db.store_get_star [OF db g assms(2) c]
  then obtain rs where rs: "q = Inr rs" "mset rs = {# x \<in># tab (vs_db s) ''invitations''. matches ?f x #}"
    using assms(3) by blast
  let ?keep = "\<lambda>r. \<not> truthy (getp r ''accessed'') \<and> getp r ''recipient'' = recipient \<and> getp r ''medium'' = medium"
  let ?valid = "filter (\<lambda>r. is_after (parsed (getp r ''expiration'')) now) (filter ?keep rs)"
  have "mset ?valid = {# x \<in># {# x \<in># {# x \<in># tab (vs_db s) ''invitations''. matches ?f x #}. ?keep x #}.
      is_after (parsed (getp x ''expiration'')) now #}"
    by (simp only: mset_filter rs(2))
  also have "\<dots> = ?open"
    unfolding open_invites_def filter_filter_mset
    by (rule filter_mset_cong) (use pending_matches [OF assms(4-6)] in \<open>auto\<close>)
  finally have m: "mset ?valid = ?open" .
  have p: "p = (case js_sort latest_first ?valid of [] \<Rightarrow> None | r # _ \<Rightarrow> Some r)"
    using assms(7) g rs(1)
    by (auto simp: getPreviouslyGeneratedInvite_def getPendingUserInvitesToAddress_def pending_filter_def js_sort_def
        split: prod.splits sum.splits option.splits if_splits)
  have e: "s' = s\<lparr>vs_db := vs_db s'\<rparr>" using gs by blast
  have "vs_next s' = vs_next s" by (subst e) simp
  then have st: "ok (vs_db s')" "healthy (vs_db s')" "tab (vs_db s') = tab (vs_db s)" "vs_next s' = vs_next s"
    using gs assms(3) by blast+
  define valid where "valid = ?valid"
  have m: "mset valid = ?open" using m unfolding valid_def .
  have p: "p = (case js_sort latest_first valid of [] \<Rightarrow> None | r # _ \<Rightarrow> Some r)" using p unfolding valid_def .
  show ?thesis
  proof (cases "js_sort latest_first valid")
    case Nil
    then have "?open = {#}" using mset_js_sort [of latest_first valid] m by simp
    then show ?thesis using p Nil st by simp
  next
    case (Cons i rest)
    have mem: "j \<in># ?open \<longleftrightarrow> j \<in> set valid" for j unfolding m [symmetric] by simp
    have "i \<in> set valid" using Cons set_js_sort [of latest_first valid] by auto
    moreover have "expires_at j \<le> expires_at i" if j: "j \<in># ?open" for j
      using js_comparator.js_sort_hd_least [OF latest_comparator Cons] j mem by (auto simp: latest_first_def)
    ultimately show ?thesis using p Cons st mem by auto
  qed
qed

text \<open>
  Generating a link reuses the open invitation of the same sender to the same address by the
  same medium that expires last, without touching the database; only when there is none is a new
  one stored.  The link always carries the identifier of that invitation.
\<close>

theorem generateLink_reuses:
  assumes "tom_database (ie_db env) ok healthy tab" "ok (vs_db s)" "healthy (vs_db s)"
    "sender \<noteq> []" "address_value recipient" "address_value medium"
    "\<And>x. x \<in># tab (vs_db s) ''invitations'' \<Longrightarrow> \<not> sql_eq (getp x ''id'') (JStr (ie_uuid env (vs_next s)))"
    "generateLink env now sender recipient medium s = (r, s')"
  shows "if open_invites (tab (vs_db s) ''invitations'') now sender recipient medium = {#}
    then r = Inr (ie_url env (ie_uuid env (vs_next s)), JStr (ie_uuid env (vs_next s))) \<and>
      tab (vs_db s') = (tab (vs_db s))(''invitations'' :=
        add_mset (invitation_row (ie_uuid env (vs_next s)) sender recipient medium (now + EXPIRATION))
          (tab (vs_db s) ''invitations''))
    else tab (vs_db s') = tab (vs_db s) \<and>
      (\<exists>i \<in># open_invites (tab (vs_db s) ''invitations'') now sender recipient medium.
         r = Inr (ie_url env (js_str (getp i ''id'')), getp i ''id'') \<and>
         (\<forall>j \<in># open_invites (tab (vs_db s) ''invitations'') now sender recipient medium. expires_at j \<le> expires_at i))"
proof -
  obtain p s1 where g: "getPreviouslyGeneratedInvite env now sender recipient medium s = (p, s1)" by fastforce
  note pi = pending_invites [OF assms(1-6) g]
  show ?thesis
  proof (cases p)
    case (Some i)
    then show ?thesis using pi g assms(8) by (auto simp: generateLink_def)
  next
    case None
    let ?p = "[(''sender'', JStr sender), (''recipient'', recipient), (''medium'', medium)]"
    obtain c s2 where c: "createInvitation env now ?p s1 = (c, s2)" by fastforce
    have o: "ok (vs_db s1)" using pi by simp
    note cr = invitation_db.create_invitation [OF tom_invites [OF assms(1)] refl c o,
        where recipient = recipient and medium = medium and sender = sender]
    obtain tok where "c = Inr tok" using cr pi assms(5-7) by (cases c) (auto simp: address_value_def)
    then show ?thesis using cr pi g c None assms(5,6,8) by (auto simp: generateLink_def address_value_def)
  qed
qed

theorem generateLink_reuses_witness:
  "\<exists>s'. generateLink (demo_inv_env SQLITE) 500 ''@ann:x'' (JStr ''bob@x'') (JStr ''email'') demo_inv =
       (Inr (''https://sign.up/?invitation_token=i1'', JStr ''i1''), s') \<and>
     rows_of (vs_db s') = rows_of (vs_db demo_inv)"
proof -
  obtain r s' where g: "generateLink (demo_inv_env SQLITE) 500 ''@ann:x'' (JStr ''bob@x'') (JStr ''email'') demo_inv = (r, s')"
    by fastforce
  have "parsed (JStr (int_str 1000)) = JNum 1000" by (simp add: parsed_def)
  then have o: "open_invites (rows_of (vs_db demo_inv) ''invitations'') 500 ''@ann:x'' (JStr ''bob@x'') (JStr ''email'') = {#demo_row#}"
    by (simp add: open_invites_def demo_inv_ok demo_row_def invitation_row_def sql_eq_def is_after_def)
  have a: "address_value (JStr ''bob@x'')" "address_value (JStr ''email'')" by (simp_all add: address_value_def)
  show ?thesis
    using generateLink_reuses [OF demo_inv_tom demo_inv_ok(1,2) _ a demo_inv_fresh g] g unfolding o
    by (auto simp: demo_row_def invitation_row_def demo_inv_env_def)
qed

section \<open>Ownership and rate limit\<close>

lemma project_mem:
  assumes "mset (x # xs) = {# project fs r. r \<in># {# r \<in># rows. P r #} #}"
  obtains r where "r \<in># rows" "P r" "x = project fs r"
proof -
  have "x \<in># mset (x # xs)" by simp
  then show ?thesis using that unfolding assms by auto
qed

lemma sender_pass:
  assumes "tom_database (ie_db env) ok healthy tab" "checkInvitationOwnership env req s = (g, s')" "ok (vs_db s)"
    "userId req = Some u"
  shows "ok (vs_db s') \<and> tab (vs_db s') = tab (vs_db s) \<and>
    (g = Pass \<longrightarrow> path_param req ''id'' \<noteq> [] \<and>
       (\<exists>r \<in># tab (vs_db s) ''invitations''. sql_eq (getp r ''id'') (JStr (path_param req ''id'')) \<and>
          getp r ''sender'' = JStr u))"
proof (cases "path_param req ''id'' = []")
  case True
  then show ?thesis using assms by (auto simp: checkInvitationOwnership_def)
next
  case False
  let ?i = "path_param req ''id''"
  obtain q where g: "on_store (db_get (ie_db env) ''invitations'' [''sender''] (Some [(''id'', JStr ?i)]) None) s = (q, s')"
    "g = Pass \<longrightarrow> (\<exists>x xs. q = Inr (x # xs) \<and> getp x ''sender'' = JStr u)"
    using assms(2,4) False
    by (auto simp: checkInvitationOwnership_def Let_def split: prod.splits sum.splits list.splits if_splits)
  have c: "set (map fst [(''id'', JStr ?i)]) \<subseteq> set inv_cols" "[''sender''] = [''*''] \<or> set [''sender''] \<subseteq> set inv_cols"
    by (simp_all add: inv_cols_def)
  note gs = invitation_db.store_get [OF tom_invites [OF assms(1)] g(1) assms(3) c]
  have own: "\<exists>r \<in># tab (vs_db s) ''invitations''. sql_eq (getp r ''id'') (JStr ?i) \<and> getp r ''sender'' = JStr u"
    if p: "g = Pass"
  proof -
    obtain x xs where x: "q = Inr (x # xs)" "getp x ''sender'' = JStr u" using g(2) p by blast
    then have "mset (x # xs) = {# project [''sender''] r. r \<in># {# r \<in># tab (vs_db s) ''invitations''. matches [(''id'', JStr ?i)] r #} #}"
      using gs by blast
    then obtain r where r: "r \<in># tab (vs_db s) ''invitations''" "matches [(''id'', JStr ?i)] r" "x = project [''sender''] r"
      by (rule project_mem)
    have "sql_eq (getp r ''id'') (JStr ?i)" using r(2) False by (simp add: table_db.matches_one [OF assms(1)])
    moreover have "getp r ''sender'' = JStr u" using x(2) r(3) by (simp add: project_def)
    ultimately show ?thesis using r(1) by blast
  qed
  show ?thesis using gs own False by blast
qed

text \<open>What the two routes of a sender do once the check has let the request pass.\<close>

lemma sender_route:
  assumes "tom_database (ie_db env) ok healthy tab" "ok (vs_db s)" "i \<noteq> []" "path_param req ''id'' = i"
    "(if removes then c_removeInvitation env req s else c_getInvitationStatus env req s) = (r, s')"
  shows "tab (vs_db s') = tab (vs_db s) \<or> removes \<and> tab (vs_db s') = (tab (vs_db s))(''invitations'' :=
    {# r \<in># tab (vs_db s) ''invitations''. \<not> sql_eq (getp r ''id'') (JStr i) #})"
proof (cases removes)
  case True
  obtain q where d: "on_store (db_deleteEqual (ie_db env) ''invitations'' ''id'' (JStr i)) s = (q, s')"
    using assms(4,5) True by (auto simp: c_removeInvitation_def removeInvitation_def split: prod.splits sum.splits)
  from invitation_db.delete_by_id [OF tom_invites [OF assms(1)] d assms(2,3)] True show ?thesis
    by (auto split: if_splits)
next
  case False
  obtain q where "getInvitationById env i s = (q, s')"
    using assms(3-5) False by (auto simp: c_getInvitationStatus_def split: prod.splits sum.splits)
  then obtain q' where "on_store (db_get (ie_db env) ''invitations'' [''*''] (Some [(''id'', JStr i)]) None) s = (q', s')"
    by (auto simp: getInvitationById_def split: prod.splits sum.splits list.splits)
  from invitation_db.store_get_star [OF tom_invites [OF assms(1)] this assms(2)] show ?thesis
    by (simp add: inv_cols_def)
qed

lemma auth_user:
  "authMiddleware authenticator req0 = Inr req \<Longrightarrow> \<exists>u. userId req = Some u \<and> params req = params req0"
  by (auto simp: authMiddleware_def Let_def split: auth_outcome.splits option.splits if_splits)

text \<open>
  C29: The status of an invitation is shown, and an invitation is removed, only for its sender:
  when one of these routes answers 200 itself or changes the database, the request is authenticated
  and its user sent the invitation named in the path; and the only change is the removal of that
  invitation by the delete route.
\<close>

theorem invitation_owner_only:
  assumes "tom_database (ie_db env) ok healthy tab" "ok (vs_db s)" "route \<in> {DeleteInvite, GetStatus}"
    "inv_handle env authenticator now route req0 s = (resp, s')"
  shows "((\<exists>b. resp = Json 200 b) \<and> (\<forall>r. authenticator req0 \<noteq> Answered r) \<or> tab (vs_db s') \<noteq> tab (vs_db s) \<longrightarrow>
      (\<exists>req u. authMiddleware authenticator req0 = Inr req \<and> userId req = Some u \<and>
         (\<exists>r \<in># tab (vs_db s) ''invitations''.
            sql_eq (getp r ''id'') (JStr (path_param req0 ''id'')) \<and> getp r ''sender'' = JStr u))) \<and>
    (tab (vs_db s') = tab (vs_db s) \<or> route = DeleteInvite \<and> tab (vs_db s') = (tab (vs_db s))(''invitations'' :=
       {# r \<in># tab (vs_db s) ''invitations''. \<not> sql_eq (getp r ''id'') (JStr (path_param req0 ''id'')) #}))"
proof (cases "ie_enabled env \<and> (\<exists>req. authMiddleware authenticator req0 = Inr req)")
  case False
  then show ?thesis using assms(4)
    by (auto simp: inv_handle_def guarded_def checkFeatureEnabled_def message_def errorMiddleware_def authMiddleware_def Let_def
        split: sum.splits auth_outcome.splits option.splits if_splits response.splits)
next
  case True
  then obtain req where a: "authMiddleware authenticator req0 = Inr req" and en: "ie_enabled env" by blast
  obtain u where u: "userId req = Some u" "params req = params req0" using auth_user [OF a] by blast
  have p: "path_param req ''id'' = path_param req0 ''id''" using u(2) by (simp add: path_param_def)
  obtain g s1 where g: "checkInvitationOwnership env req s = (g, s1)" by fastforce
  note op = sender_pass [OF assms(1) g assms(2) u(1), unfolded p]
  show ?thesis
  proof (cases g)
    case (Done r)
    have "r \<noteq> Json 200 b" for b
      using g Done by (auto simp: checkInvitationOwnership_def message_def Let_def split: if_splits prod.splits sum.splits list.splits)
    moreover have "resp = errorMiddleware r" "s' = s1"
      using assms(3,4) a en g Done by (auto simp: inv_handle_def guarded_def checkFeatureEnabled_def)
    ultimately show ?thesis using op by (auto simp: errorMiddleware_def message_def split: response.splits)
  next
    case Pass
    let ?del = "route = DeleteInvite"
    obtain r where "(if ?del then c_removeInvitation env req s1 else c_getInvitationStatus env req s1) = (r, s')"
      using assms(3,4) a en g Pass by (auto simp: inv_handle_def guarded_def checkFeatureEnabled_def split: prod.splits)
    from sender_route [OF assms(1) _ _ p this] op Pass
    have "tab (vs_db s') = tab (vs_db s) \<or> ?del \<and> tab (vs_db s') = (tab (vs_db s))(''invitations'' :=
        {# r \<in># tab (vs_db s) ''invitations''. \<not> sql_eq (getp r ''id'') (JStr (path_param req0 ''id'')) #})"
      by simp
    then show ?thesis using op Pass a u(1) by blast
  qed
qed

definition demo_inv_auth :: "request \<Rightarrow> auth_outcome" where
  "demo_inv_auth r = CalledBack [(''sub'', JStr ''@ann:x'')] (Some None)"

definition demo_inv_req :: request where
  "demo_inv_req = \<lparr>userId = None, accessToken = None, params = [(''id'', ''i1'')], query = [],
     body = JObj [(''contact'', JStr ''bob@x''), (''medium'', JStr ''email'')], headers = []\<rparr>"

theorem invitation_owner_only_witness:
  "\<exists>req u. authMiddleware demo_inv_auth demo_inv_req = Inr req \<and> userId req = Some u \<and>
     (\<exists>r \<in># rows_of (vs_db demo_inv) ''invitations''. sql_eq (getp r ''id'') (JStr ''i1'') \<and> getp r ''sender'' = JStr u)"
proof -
  obtain resp s' where h: "inv_handle (demo_inv_env SQLITE) demo_inv_auth 500 DeleteInvite demo_inv_req demo_inv = (resp, s')"
    by fastforce
  have "fst (inv_handle (demo_inv_env SQLITE) demo_inv_auth 500 DeleteInvite demo_inv_req demo_inv) =
      message 200 ''Invitation removed''"
    by code_simp
  then have "resp = Json 200 (JObj [(''message'', JStr ''Invitation removed'')])" using h by (simp add: message_def)
  moreover have "path_param demo_inv_req ''id'' = ''i1''" by code_simp
  ultimately show ?thesis
    using invitation_owner_only [OF demo_inv_tom demo_inv_ok(1) _ h] by (auto simp: demo_inv_auth_def)
qed

text \<open>
  The rate limit of invitations: with one earlier invitation to the contact, whoever sent it, the
  check refuses another one for twenty-five hours after its creation, because it compares the hour
  with the time since the invitation expired; it never changes the tables.
\<close>

theorem rate_limit_window:
  assumes "tom_database (ie_db env) ok healthy tab" "ok (vs_db s)" "healthy (vs_db s)" "contact \<noteq> []"
    "field (body req) ''contact'' = JStr contact"
    "{# r \<in># tab (vs_db s) ''invitations''. sql_eq (getp r ''recipient'') (JStr contact) #} =
       {# invitation_row tok sender (JStr contact) medium (created + EXPIRATION) #}"
    "rateLimitInvitations env now req s = (g, s')"
  shows "tab (vs_db s') = tab (vs_db s) \<and>
    g = (if now < created + 25 * ONE_HOUR then Done (message 400 ''You already sent an invitation to this contact'') else Pass)"
proof -
  let ?f = "[(''recipient'', JStr contact)]"
  have b: "\<not> nullish (body req)" using assms(5) by (auto simp: field_def split: jsval.splits)
  obtain q where g: "on_store (db_get (ie_db env) ''invitations'' [''id'', ''expiration''] (Some ?f) None) s = (q, s')"
    using assms(5,7) b by (auto simp: rateLimitInvitations_def split: prod.splits sum.splits if_splits jsval.splits)
  have c: "set (map fst ?f) \<subseteq> set inv_cols"
    "[''id'', ''expiration''] = [''*''] \<or> set [''id'', ''expiration''] \<subseteq> set inv_cols" by (simp_all add: inv_cols_def)
  note gs = invitation_db.store_get [OF tom_invites [OF assms(1)] g assms(2) c]
  then obtain rs where rs: "q = Inr rs" using assms(3) by blast
  have "{# r \<in># tab (vs_db s) ''invitations''. matches ?f r #} =
      {# r \<in># tab (vs_db s) ''invitations''. sql_eq (getp r ''recipient'') (JStr contact) #}"
    using assms(4) by (simp add: table_db.matches_one [OF assms(1)])
  then have "mset rs = {# project [''id'', ''expiration''] (invitation_row tok sender (JStr contact) medium (created + EXPIRATION)) #}"
    using gs rs unfolding assms(6) by simp
  then obtain x where x: "rs = [x]" "getp x ''expiration'' = JStr (int_str (created + EXPIRATION))"
    by (auto simp: project_def invitation_row_def)
  have "parsed (getp x ''expiration'') = JNum (created + EXPIRATION)" unfolding x(2) by (simp add: parsed_def)
  then have "g = (if now - (created + EXPIRATION) < ONE_HOUR
      then Done (message 400 ''You already sent an invitation to this contact'') else Pass)"
    using assms(5,7) b g rs x(1) by (auto simp: rateLimitInvitations_def split: if_splits)
  then show ?thesis using gs by (auto simp: EXPIRATION_def ONE_HOUR_def)
qed

theorem rate_limit_window_witness:
  "rateLimitInvitations (demo_inv_env SQLITE) (1000 - EXPIRATION + 24 * ONE_HOUR) demo_inv_req demo_inv =
     (Done (message 400 ''You already sent an invitation to this contact''),
      snd (rateLimitInvitations (demo_inv_env SQLITE) (1000 - EXPIRATION + 24 * ONE_HOUR) demo_inv_req demo_inv))"
proof -
  have f: "field (body demo_inv_req) ''contact'' = JStr ''bob@x''" by code_simp
  have o: "{# r \<in># rows_of (vs_db demo_inv) ''invitations''. sql_eq (getp r ''recipient'') (JStr ''bob@x'') #} =
      {# invitation_row ''i1'' ''@ann:x'' (JStr ''bob@x'') (JStr ''email'') ((1000 - EXPIRATION) + EXPIRATION) #}"
    by (simp add: demo_inv_ok demo_row_def invitation_row_def sql_eq_def)
  obtain g s' where g: "rateLimitInvitations (demo_inv_env SQLITE) (1000 - EXPIRATION + 24 * ONE_HOUR) demo_inv_req demo_inv = (g, s')"
    by fastforce
  show ?thesis
    using rate_limit_window [OF demo_inv_tom demo_inv_ok(1,2) _ f o g] g by (simp add: ONE_HOUR_def)
qed

end
