(* ===== verification/InvitationAccept.thy ===== *)
theory InvitationAccept
  imports InvitationLaws
begin

text \<open>
  Acceptance under every interleaving: requests arrive and tasks are resumed in any order.  An
  invariant over all runs ties every accepted row to a direct room with its sender; two runs show
  what the missing synchronisation permits.
\<close>

section \<open>What the server saw\<close>

text \<open>The user opened a direct room with the sender: the room was created and marked, both with 200.\<close>

definition room_opened :: "'s inv_env \<Rightarrow> http_log \<Rightarrow> jsval \<Rightarrow> string \<Rightarrow> bool" where
  "room_opened env log sender user \<longleftrightarrow>
     (\<exists>authorization p room p'. (room_request env authorization sender, p) \<in> set log \<and> room_of p = Inr room \<and>
        (direct_request env authorization user sender room, p') \<in> set log \<and> marked p')"

lemma room_openedI:
  "(room_request env authorization sender, p) \<in> set log \<Longrightarrow> room_of p = Inr room \<Longrightarrow>
   (direct_request env authorization user sender room, p') \<in> set log \<Longrightarrow> marked p' \<Longrightarrow>
   room_opened env log sender user"
  unfolding room_opened_def by blast

lemma room_opened_mono: "room_opened env log sender user \<Longrightarrow> set log \<subseteq> set log' \<Longrightarrow> room_opened env log' sender user"
  unfolding room_opened_def by blast

lemma send_http_log:
  "send_http env q s = (r, s') \<Longrightarrow> s' = s\<lparr>vs_log := vs_log s @ [(q, r)]\<rparr>"
  by (auto simp: send_http_def http_fetch_def)

text \<open>An invitation held by a task: identifier and sender are those of a row of the first state.\<close>

definition known :: "obj multiset \<Rightarrow> obj \<Rightarrow> bool" where
  "known rows i \<longleftrightarrow> (\<exists>r \<in># rows. getp i ''id'' = getp r ''id'' \<and> getp i ''sender'' = getp r ''sender'')"

fun task_ok :: "'s inv_env \<Rightarrow> obj multiset \<Rightarrow> http_log \<Rightarrow> task \<Rightarrow> bool" where
  "task_ok env rows log (RoomPending i user authorization awaited r) =
     (known rows i \<and> (room_request env authorization (getp i ''sender''), r) \<in> set log)"
| "task_ok env rows log (DirectPending i user awaited r) =
     (known rows i \<and> (marked r \<longrightarrow> room_opened env log (getp i ''sender'') user))"
| "task_ok env rows log _ = True"

text \<open>How a row may have changed: not at all, or it is marked as accepted by a user with a room.\<close>

definition evolved :: "'s inv_env \<Rightarrow> http_log \<Rightarrow> obj \<Rightarrow> obj \<Rightarrow> bool" where
  "evolved env log r0 r \<longleftrightarrow>
     (\<forall>k. k \<noteq> ''accessed'' \<longrightarrow> k \<noteq> ''matrix_id'' \<longrightarrow> getp r k = getp r0 k) \<and>
     (r = r0 \<or> getp r ''accessed'' = JNum 1 \<and>
        (\<exists>user. getp r ''matrix_id'' = JStr user \<and> room_opened env log (getp r0 ''sender'') user))"

definition accept_inv :: "'s inv_env \<Rightarrow> ('s \<Rightarrow> bool) \<Rightarrow> ('s \<Rightarrow> string \<Rightarrow> obj multiset) \<Rightarrow> 's inv_st \<Rightarrow>
  task list \<Rightarrow> 's inv_st \<Rightarrow> bool" where
  "accept_inv env ok tab s0 ts s \<longleftrightarrow>
     ok (vs_db s) \<and> (\<forall>t. t \<noteq> ''invitations'' \<longrightarrow> tab (vs_db s) t = tab (vs_db s0) t) \<and>
     {# getp r ''id''. r \<in># tab (vs_db s) ''invitations'' #} = {# getp r ''id''. r \<in># tab (vs_db s0) ''invitations'' #} \<and>
     (\<forall>r \<in># tab (vs_db s) ''invitations''. \<exists>r0 \<in># tab (vs_db s0) ''invitations''. evolved env (vs_log s) r0 r) \<and>
     list_all (task_ok env (tab (vs_db s0) ''invitations'') (vs_log s)) ts"

lemma evolved_mono: "evolved env log r0 r \<Longrightarrow> set log \<subseteq> set log' \<Longrightarrow> evolved env log' r0 r"
  unfolding evolved_def using room_opened_mono by metis

lemma task_ok_mono: "task_ok env rows log t \<Longrightarrow> set log \<subseteq> set log' \<Longrightarrow> task_ok env rows log' t"
  by (cases t) (auto intro: room_opened_mono)

lemma accept_inv_known:
  assumes "accept_inv env ok tab s0 ts s" "r \<in># tab (vs_db s) ''invitations''"
  shows "known (tab (vs_db s0) ''invitations'') r"
  using assms unfolding accept_inv_def known_def evolved_def by fastforce

text \<open>A step that only adds to the log keeps everything but the tasks.\<close>

lemma accept_inv_step:
  assumes "accept_inv env ok tab s0 ts s" "ok (vs_db s')" "tab (vs_db s') = tab (vs_db s)"
    "set (vs_log s) \<subseteq> set (vs_log s')" "list_all (task_ok env (tab (vs_db s0) ''invitations'') (vs_log s')) us"
    "set ts' \<subseteq> set ts \<union> set us"
  shows "accept_inv env ok tab s0 ts' s'"
proof -
  let ?rows = "tab (vs_db s0) ''invitations''"
  have "task_ok env ?rows (vs_log s') t" if t: "t \<in> set ts'" for t
    using assms(1,5,6) t task_ok_mono [OF _ assms(4), of env ?rows t] unfolding accept_inv_def list_all_iff by blast
  moreover have "\<exists>r0 \<in># ?rows. evolved env (vs_log s') r0 r" if r: "r \<in># tab (vs_db s) ''invitations''" for r
    using assms(1) r evolved_mono [OF _ assms(4)] unfolding accept_inv_def by blast
  ultimately show ?thesis using assms(1,2) unfolding accept_inv_def assms(3) list_all_iff by blast
qed

section \<open>The steps\<close>

lemma known_cong: "getp i ''id'' = getp r ''id'' \<Longrightarrow> getp i ''sender'' = getp r ''sender'' \<Longrightarrow> known rows r \<Longrightarrow> known rows i"
  by (simp add: known_def)

lemma getp_append_other [simp]: "k \<notin> fst ` set ys \<Longrightarrow> getp (xs @ ys) k = getp xs k"
proof -
  assume "k \<notin> fst ` set ys"
  then have "map_of ys k = None" by (simp add: map_of_eq_None_iff)
  then show ?thesis by (auto simp: getp_def map_add_def split: option.splits)
qed

lemma known_listed:
  "known rows r \<Longrightarrow> known rows (del ''expiration'' (del ''accessed'' r) @ [(''accessed'', a), (''expiration'', e)])"
  by (simp add: known_def)

lemma start_processing_ok:
  assumes "start_processing env now i user authorization awaited s = (us, s')" "known rows i"
  shows "vs_db s' = vs_db s \<and> set (vs_log s) \<subseteq> set (vs_log s') \<and> list_all (task_ok env rows (vs_log s')) us"
  using assms by (auto simp: start_processing_def finish_def dest: send_http_log split: if_splits prod.splits)

lemma start_all_ok:
  assumes "start_all env now is user authorization s = (us, s')" "list_all (known rows) is"
  shows "vs_db s' = vs_db s \<and> set (vs_log s) \<subseteq> set (vs_log s') \<and> list_all (task_ok env rows (vs_log s')) us"
  using assms
proof (induction "is" arbitrary: s us)
  case (Cons i rest)
  obtain ts s1 where p: "start_processing env now i user authorization False s = (ts, s1)" by fastforce
  obtain us' where a: "start_all env now rest user authorization s1 = (us', s')" "us = ts @ us'"
    using Cons.prems(1) p by (auto split: prod.splits)
  have k: "known rows i" "list_all (known rows) rest" using Cons.prems(2) by simp_all
  note h = start_processing_ok [OF p k(1)] Cons.IH [OF a(1) k(2)]
  have "list_all (task_ok env rows (vs_log s')) ts" using h by (auto simp: list_all_iff intro: task_ok_mono)
  then show ?case using h unfolding a(2) by auto
qed simp

lemma table_key_eq:
  assumes "tom_database d ok healthy tab" "ok x" "r \<in># tab x ''invitations''" "r' \<in># tab x ''invitations''"
    "sql_eq (getp r ''id'') (getp r' ''id'')"
  shows "r = r'"
proof (rule ccontr)
  let ?same = "{# q \<in># tab x ''invitations''. sql_eq (getp q ''id'') (getp r' ''id'') #}"
  assume "r \<noteq> r'"
  then have "r \<in># ?same - {# r' #}" using assms(3,5) by (auto simp: in_diff_count)
  then have "size (?same - {# r' #}) \<noteq> 0" by (metis size_eq_0_iff_empty empty_not_add_mset multi_member_split)
  moreover have "r' \<in># ?same" using assms(4,5) by (simp add: sql_eq_def)
  then have "size (?same - {# r' #}) = size ?same - 1" by (rule size_Diff_singleton)
  moreover have "size ?same \<le> 1"
    by (rule table_db.key_unique [OF assms(1,2)]) (simp add: tom_schema_invites)
  ultimately show False by simp
qed

lemma read_known:
  assumes "tom_database (ie_db env) ok healthy tab" "accept_inv env ok tab s0 ts s"
    "on_store (db_get (ie_db env) ''invitations'' [''*''] (Some f) None) s = (q, s')" "set (map fst f) \<subseteq> set inv_cols"
  shows "ok (vs_db s') \<and> tab (vs_db s') = tab (vs_db s) \<and> vs_log s' = vs_log s \<and>
    (\<forall>rows. q = Inr rows \<longrightarrow> list_all (known (tab (vs_db s0) ''invitations'')) rows)"
proof -
  have o: "ok (vs_db s)" using assms(2) by (simp add: accept_inv_def)
  note g = invitation_db.store_get_star [OF tom_invites [OF assms(1)] assms(3) o assms(4)]
  have "vs_log s' = vs_log s" using assms(3) by (auto elim: on_storeE)
  moreover have "known (tab (vs_db s0) ''invitations'') r" if "q = Inr rows" "r \<in> set rows" for rows r
  proof -
    have "mset rows = {# x \<in># tab (vs_db s) ''invitations''. matches f x #}" using g that by blast
    moreover have "r \<in># mset rows" using that(2) by simp
    ultimately have "r \<in># tab (vs_db s) ''invitations''" by simp
    then show ?thesis by (rule accept_inv_known [OF assms(2)])
  qed
  ultimately show ?thesis using g by (auto simp: list_all_iff)
qed

text \<open>The marking of a row, when its user opened the room with the sender of the invitation.\<close>

lemma marking_evolves:
  assumes "evolved env log r0 r" "getp r ''sender'' = getp i ''sender''" "map fst r = inv_cols"
    "room_opened env log (getp i ''sender'') user"
  shows "evolved env log r0 (assign (stored_obj [(''accessed'', JNum 1), (''matrix_id'', JStr user)]) r)"
proof -
  let ?a = "stored_obj [(''accessed'', JNum 1), (''matrix_id'', JStr user)]"
  have same: "getp (assign ?a r) k = getp r k" if "k \<noteq> ''accessed''" "k \<noteq> ''matrix_id''" for k
    by (rule getp_assign_other) (use that in \<open>simp add: stored_obj_def\<close>)
  have "getp (assign ?a r) ''accessed'' = JNum 1" "getp (assign ?a r) ''matrix_id'' = JStr user"
    by (rule getp_assign_same; simp add: assms(3) inv_cols_def stored_obj_def stored_def)+
  then show ?thesis using assms(1,2,4) same unfolding evolved_def by auto
qed

lemma marking_ok:
  assumes "tom_database (ie_db env) ok healthy tab" "accept_inv env ok tab s0 ts s"
    "ok (vs_db s0)" "known (tab (vs_db s0) ''invitations'') i" "room_opened env (vs_log s) (getp i ''sender'') user"
    "on_store (db_update (ie_db env) ''invitations'' [(''accessed'', JNum 1), (''matrix_id'', JStr user)] ''id''
       (getp i ''id'')) s = (q, s')"
  shows "accept_inv env ok tab s0 ts s'"
proof -
  let ?a = "stored_obj [(''accessed'', JNum 1), (''matrix_id'', JStr user)]"
  let ?rows = "tab (vs_db s) ''invitations''" and ?init = "tab (vs_db s0) ''invitations''"
  let ?upd = "\<lambda>r. if sql_eq (getp r ''id'') (getp i ''id'') then assign ?a r else r"
  have inv: "ok (vs_db s)" "\<forall>r \<in># ?rows. \<exists>r0 \<in># ?init. evolved env (vs_log s) r0 r"
    using assms(2) unfolding accept_inv_def by blast+
  obtain x where x: "db_update (ie_db env) ''invitations'' [(''accessed'', JNum 1), (''matrix_id'', JStr user)] ''id''
       (getp i ''id'') (vs_db s) = (q, x)" "s' = s\<lparr>vs_db := x\<rparr>"
    using assms(6) by (rule on_storeE)
  have c: "schema_of tom_tables ''invitations'' \<noteq> []" "[(''accessed'', JNum 1), (''matrix_id'', JStr user)] \<noteq> []"
    "set (''id'' # map fst [(''accessed'', JNum 1), (''matrix_id'', JStr user)]) \<subseteq> set (schema_of tom_tables ''invitations'')"
    by (simp_all add: tom_schema_invites inv_cols_def)
  note u = table_db.update_law [OF assms(1), OF inv(1) c x(1)]
  have ev: "\<exists>r0 \<in># ?init. evolved env (vs_log s) r0 (?upd r)" if r: "r \<in># ?rows" for r
  proof -
    obtain r0 where r0: "r0 \<in># ?init" "evolved env (vs_log s) r0 r" using inv(2) r by blast
    obtain r1 where r1: "r1 \<in># ?init" "getp i ''id'' = getp r1 ''id''" "getp i ''sender'' = getp r1 ''sender''"
      using assms(4) by (auto simp: known_def)
    have cols: "map fst r = inv_cols"
      by (rule table_db.row_cols [OF assms(1), OF inv(1) r, unfolded tom_schema_invites])
    have e: "getp r ''id'' = getp r0 ''id''" "getp r ''sender'' = getp r0 ''sender''"
      using r0(2) by (simp_all add: evolved_def)
    show ?thesis
    proof (cases "sql_eq (getp r ''id'') (getp i ''id'')")
      case True
      have "r0 = r1" by (rule table_key_eq [OF assms(1), OF assms(3) r0(1) r1(1)]) (use True r1(2) e in simp)
      then have "evolved env (vs_log s) r0 (assign ?a r)"
        using marking_evolves [OF r0(2) _ cols assms(5)] e(2) r1(3) by simp
      then show ?thesis using r0(1) True by auto
    next
      case False
      then show ?thesis using r0 by auto
    qed
  qed
  have ids: "getp (?upd r) ''id'' = getp r ''id''" for r by (simp add: getp_assign_other stored_obj_def)
  show ?thesis
  proof (cases q)
    case (Inl e)
    then show ?thesis using u x(2) assms(2) by (auto simp: accept_inv_def)
  next
    case (Inr rows)
    define upd where "upd = ?upd"
    have t: "tab x = (tab (vs_db s))(''invitations'' := image_mset upd ?rows)" "ok x" using u Inr unfolding upd_def by auto
    have "image_mset (\<lambda>r. getp r ''id'') (image_mset upd ?rows) = image_mset (\<lambda>r. getp r ''id'') ?rows"
      using ids unfolding upd_def by (simp only: multiset.map_comp comp_def)
    moreover have "\<forall>r \<in># ?rows. \<exists>r0 \<in># ?init. evolved env (vs_log s) r0 (upd r)" using ev unfolding upd_def by blast
    ultimately show ?thesis using assms(2) t unfolding accept_inv_def x(2) by simp
  qed
qed

lemma resume_ok:
  assumes "tom_database (ie_db env) ok healthy tab" "ok (vs_db s0)" "accept_inv env ok tab s0 ts s" "t \<in> set ts"
    "resume env now t s = (us, s')"
  shows "accept_inv env ok tab s0 (us @ ts) s'"
proof -
  let ?known = "known (tab (vs_db s0) ''invitations'')"
  let ?ok = "\<lambda>s. task_ok env (tab (vs_db s0) ''invitations'') (vs_log s)"
  have o: "ok (vs_db s)" and t: "?ok s t" using assms(3,4) by (auto simp: accept_inv_def list_all_iff)
  have step: "accept_inv env ok tab s0 (us @ ts) s'" if "ok (vs_db s')" "tab (vs_db s') = tab (vs_db s)"
    "set (vs_log s) \<subseteq> set (vs_log s')" "list_all (?ok s') us"
    by (rule accept_inv_step [OF assms(3) that]) auto
  show ?thesis
  proof (cases t)
    case (Reading i user authorization)
    obtain q s1 where g: "on_store (db_get (ie_db env) ''invitations'' [''*''] (Some [(''id'', JStr i)]) None) s = (q, s1)"
      by fastforce
    note rd = read_known [OF assms(1,3) g, simplified inv_cols_def, simplified]
    show ?thesis
    proof (cases "\<exists>x xs. q = Inr (x # xs)")
      case False
      then have "us = rejected" "s' = s1" using assms(5) g Reading
        by (auto simp: getInvitationById_def split: sum.splits list.splits)
      then show ?thesis using step rd by (simp add: rejected_def)
    next
      case True
      then obtain x xs where x: "q = Inr (x # xs)" by blast
      define j where "j = invitation_response x"
      have k: "?known j"
        using rd x unfolding j_def by (auto simp: invitation_response_def intro: known_cong)
      have "getInvitationById env i s = (Inr j, s1)" using g x by (simp add: getInvitationById_def j_def)
      then have "us = rejected \<and> s' = s1 \<or>
          us = [Listing (js_str (getp j ''recipient'')) user authorization] \<and> s' = s1 \<or>
          start_processing env now j user authorization True s1 = (us, s')"
        using assms(5) unfolding Reading by (simp split: if_splits)
      then consider "us = rejected" "s' = s1"
        | "us = [Listing (js_str (getp j ''recipient'')) user authorization]" "s' = s1"
        | "start_processing env now j user authorization True s1 = (us, s')" by blast
      then show ?thesis
      proof cases
        case 3
        from start_processing_ok [OF 3 k] rd step show ?thesis by auto
      qed (use rd step in \<open>auto simp: rejected_def\<close>)
    qed
  next
    case (Listing address user authorization)
    obtain q s1 where g: "on_store (db_get (ie_db env) ''invitations'' [''*''] (Some [(''recipient'', JStr address)]) None) s = (q, s1)"
      by fastforce
    note rd = read_known [OF assms(1,3) g, simplified inv_cols_def, simplified]
    show ?thesis
    proof (cases q)
      case (Inl e)
      then have "us = rejected" "s' = s1" using assms(5) g Listing by (auto simp: listPendingInvitationToAddress_def)
      then show ?thesis using step rd by (simp add: rejected_def)
    next
      case (Inr rows)
      obtain ivs where l: "listPendingInvitationToAddress env address s = (Inr ivs, s1)" "list_all ?known ivs"
        using g Inr rd by (auto simp: listPendingInvitationToAddress_def list_all_iff known_listed)
      obtain us' where a: "start_all env now ivs user authorization s1 = (us', s')" "us = Replied (Inr ()) # us'"
        using assms(5) l(1) Listing by (auto split: prod.splits)
      from start_all_ok [OF a(1) l(2)] a(2) rd step show ?thesis by auto
    qed
  next
    case (RoomPending i user authorization awaited r)
    show ?thesis
    proof (cases "room_of r")
      case (Inl e)
      then show ?thesis using assms(5) RoomPending step o by (auto simp: finish_def)
    next
      case (Inr room)
      obtain p where p: "send_http env (direct_request env authorization user (getp i ''sender'') room) s = (p, s')"
        "us = [DirectPending i user awaited p]"
        using assms(5) RoomPending Inr by (auto split: prod.splits)
      note s' = send_http_log [OF p(1)]
      have "room_opened env (vs_log s') (getp i ''sender'') user" if "marked p"
        using t RoomPending Inr that unfolding s' room_opened_def by auto
      then show ?thesis using step o t RoomPending p(2) unfolding s' by auto
    qed
  next
    case (DirectPending i user awaited r)
    show ?thesis
    proof (cases "marked r")
      case False
      then show ?thesis using assms(5) DirectPending step o by (auto simp: finish_def)
    next
      case True
      obtain q where q: "on_store (db_update (ie_db env) ''invitations''
          [(''accessed'', JNum 1), (''matrix_id'', JStr user)] ''id'' (getp i ''id'')) s = (q, s')" "us = finish awaited"
        using assms(5) DirectPending True by (cases "on_store (db_update (ie_db env) ''invitations''
          [(''accessed'', JNum 1), (''matrix_id'', JStr user)] ''id'' (getp i ''id'')) s") auto
      have "?known i" "room_opened env (vs_log s) (getp i ''sender'') user" using t DirectPending True by simp_all
      from marking_ok [OF assms(1,3,2) this q(1)] show ?thesis by (auto simp: accept_inv_def q(2) finish_def)
    qed
  next
    case (Replied r)
    then show ?thesis using assms(5) step o by auto
  qed
qed

lemma accept_runs_inv:
  assumes "tom_database (ie_db env) ok healthy tab" "ok (vs_db s0)" "accept_runs env w0 w" "w0 = ([], s0)"
  shows "accept_inv env ok tab s0 (fst w) (snd w)"
  using assms(3,4)
proof induction
  case (start w)
  then show ?case using assms(2) by (auto simp: accept_inv_def evolved_def)
next
  case (more w w' w'')
  then have inv: "accept_inv env ok tab s0 (fst w') (snd w')" by simp
  from more.hyps(2) show ?case
  proof cases
    case (arrive ts s i user authorization)
    then show ?thesis using inv by (simp add: accept_inv_def)
  next
    case (run now t s us s' ts ts')
    then have "accept_inv env ok tab s0 (us @ ts @ t # ts') s'"
      using resume_ok [OF assms(1,2) inv] by auto
    then show ?thesis using run by (auto simp: accept_inv_def)
  qed
qed

section \<open>Accepted rows have a room\<close>

text \<open>
  C21: Whatever requests arrive and however their tasks interleave, acceptance adds and removes no
  invitation and touches no other table; every invitation is as it was, or it is marked as accepted
  by a user who created a room with the sender of that invitation and had it marked as direct, both
  requests having been answered with status 200.
\<close>

theorem accepted_only_after_room:
  assumes "tom_database (ie_db env) ok healthy tab" "ok (vs_db s0)" "accept_runs env ([], s0) (ts, s)"
  shows "{# getp r ''id''. r \<in># tab (vs_db s) ''invitations'' #} = {# getp r ''id''. r \<in># tab (vs_db s0) ''invitations'' #} \<and>
    (\<forall>t. t \<noteq> ''invitations'' \<longrightarrow> tab (vs_db s) t = tab (vs_db s0) t) \<and>
    (\<forall>r \<in># tab (vs_db s) ''invitations''. \<exists>r0 \<in># tab (vs_db s0) ''invitations''. evolved env (vs_log s) r0 r)"
  using accept_runs_inv [OF assms refl] by (simp add: accept_inv_def)

text \<open>A link invitation and its acceptance by two users.\<close>

definition demo_link_row :: obj where
  "demo_link_row = invitation_row ''i2'' ''@ann:x'' Null Null 1000"

definition demo_link :: "store inv_st" where
  "demo_link = \<lparr>vs_db = with_rows tom_store ''invitations'' [demo_link_row],
     vs_next = 0, vs_log = [], vs_out = []\<rparr>"

definition demo_read :: obj where
  "demo_read = invitation_response demo_link_row"

lemma demo_link_facts: "store_wf tom_tables (vs_db demo_link)"
  "rows_of (vs_db demo_link) ''invitations'' = {#demo_link_row#}" "vs_log demo_link = []"
  using one_invitation [OF demo_link_row_def] by (simp_all add: demo_link_def)

lemma demo_link_get: "getInvitationById (demo_inv_env SQLITE) ''i2'' (demo_link\<lparr>vs_log := l\<rparr>) =
    (Inr demo_read, demo_link\<lparr>vs_log := l\<rparr>)"
  by code_simp

lemma demo_read_facts: "is_before (getp demo_read ''expiration'') 500 = False" "truthy (getp demo_read ''accessed'') = False"
  "truthy (getp demo_read ''recipient'') = False" "getp demo_read ''id'' = JStr ''i2''" "getp demo_read ''sender'' = JStr ''@ann:x''"
  by code_simp+

lemma demo_room: "room_of (Inr \<lparr>hp_status = 200, hp_headers = [], hp_body = str_of (JObj [(''room_id'', JStr ''!r:x'')])\<rparr>) = Inr (JStr ''!r:x'')"
proof -
  have "json_parse (str_of (JObj [(''room_id'', JStr ''!r:x'')])) = Inr (JObj [(''room_id'', JStr ''!r:x'')])"
    by (rule json_parse_str_of) simp
  then show ?thesis by (simp add: room_of_def resp_json_def read_prop_def)
qed

text \<open>The answer of the demonstration server, and the steps of one acceptance of the link.\<close>

abbreviation demo_env_link :: "store inv_env" where
  "demo_env_link \<equiv> demo_inv_env SQLITE"

definition demo_answer :: "http_resp result" where
  "demo_answer = Inr \<lparr>hp_status = 200, hp_headers = [], hp_body = str_of (JObj [(''room_id'', JStr ''!r:x'')])\<rparr>"

definition demo_marks :: "string \<Rightarrow> store inv_st \<Rightarrow> store inv_st" where
  "demo_marks u s = snd (on_store (db_update (ie_db demo_env_link) ''invitations''
     [(''accessed'', JNum 1), (''matrix_id'', JStr u)] ''id'' (JStr ''i2'')) s)"

lemma demo_send: "send_http demo_env_link q s = (demo_answer, s\<lparr>vs_log := vs_log s @ [(q, demo_answer)]\<rparr>)"
  by (simp add: send_http_def http_fetch_def demo_inv_env_def demo_answer_def)

lemma demo_steps:
  "resume demo_env_link 500 (Reading ''i2'' u a) (demo_link\<lparr>vs_log := l\<rparr>) =
     ([RoomPending demo_read u a True demo_answer],
      demo_link\<lparr>vs_log := l @ [(room_request demo_env_link a (JStr ''@ann:x''), demo_answer)]\<rparr>)"
  "resume demo_env_link 500 (RoomPending demo_read u a True demo_answer) (demo_link\<lparr>vs_log := l\<rparr>) =
     ([DirectPending demo_read u True demo_answer],
      demo_link\<lparr>vs_log := l @ [(direct_request demo_env_link a u (JStr ''@ann:x'') (JStr ''!r:x''), demo_answer)]\<rparr>)"
  "resume demo_env_link 500 (DirectPending demo_read u True demo_answer) s = ([Replied (Inr ())], demo_marks u s)"
  by (simp_all add: demo_link_get demo_read_facts start_processing_def demo_send
      demo_room [folded demo_answer_def] marked_def demo_marks_def finish_def)
    (simp_all add: demo_answer_def)

lemma accept_first: "resume env now t s = (us, s') \<Longrightarrow> accept_runs env w (t # ts, s) \<Longrightarrow> accept_runs env w (us @ ts, s')"
  using accept_step.run [of env now t s us s' "[]" ts] by (auto intro: accept_runs.more)

lemma accept_second:
  "resume env now t s = (us, s') \<Longrightarrow> accept_runs env w (t0 # t # ts, s) \<Longrightarrow> accept_runs env w (t0 # us @ ts, s')"
  using accept_step.run [of env now t s us s' "[t0]" ts] by (auto intro: accept_runs.more)

lemma accept_arrive: "accept_runs env w (ts, s) \<Longrightarrow> accept_runs env w (ts @ [Reading i u a], s)"
  by (rule accept_runs.more) (auto intro: accept_step.arrive)

lemma one_acceptance:
  "accept_runs demo_env_link ([], demo_link) ([Replied (Inr ())], demo_marks ''@bob:x'' (demo_link\<lparr>vs_log :=
     [(room_request demo_env_link ''b'' (JStr ''@ann:x''), demo_answer),
      (direct_request demo_env_link ''b'' ''@bob:x'' (JStr ''@ann:x'') (JStr ''!r:x''), demo_answer)]\<rparr>))"
proof -
  have l: "demo_link = demo_link\<lparr>vs_log := []\<rparr>" by (simp add: demo_link_def)
  have "accept_runs demo_env_link ([], demo_link) ([Reading ''i2'' ''@bob:x'' ''b''], demo_link\<lparr>vs_log := []\<rparr>)"
    using accept_arrive [OF accept_runs.start, of demo_env_link "[]" demo_link] l by simp
  from accept_first [OF demo_steps(3) accept_first [OF demo_steps(2) accept_first [OF demo_steps(1) this, simplified], simplified]]
  show ?thesis by simp
qed

lemma demo_marks_log: "vs_log (demo_marks u s) = vs_log s"
  by (simp add: demo_marks_def on_store_def split: prod.splits)

theorem accepted_only_after_room_witness:
  "\<exists>s r. accept_runs demo_env_link ([], demo_link) ([Replied (Inr ())], s) \<and>
     {# getp r ''id''. r \<in># rows_of (vs_db s) ''invitations'' #} = {# JStr ''i2'' #} \<and>
     r \<in># rows_of (vs_db s) ''invitations'' \<and> evolved demo_env_link (vs_log s) demo_link_row r"
proof -
  note a = accepted_only_after_room [OF demo_inv_tom demo_link_facts(1) one_acceptance]
  have i: "{# getp r ''id''. r \<in># rows_of (vs_db demo_link) ''invitations'' #} = {# JStr ''i2'' #}"
    by (simp add: demo_link_facts demo_link_row_def invitation_row_def)
  then obtain r where "r \<in># rows_of (vs_db (demo_marks ''@bob:x'' (demo_link\<lparr>vs_log :=
     [(room_request demo_env_link ''b'' (JStr ''@ann:x''), demo_answer),
      (direct_request demo_env_link ''b'' ''@bob:x'' (JStr ''@ann:x'') (JStr ''!r:x''), demo_answer)]\<rparr>))) ''invitations''"
    using a by (metis add_mset_not_empty image_mset_empty multiset_nonemptyE)
  then show ?thesis using a i one_acceptance demo_link_facts(2) by (metis set_mset_add_mset_insert set_mset_empty singletonD)
qed

text \<open>
  Two users who accept the same link invitation at the same time both get a room: nothing
  between reading the invitation and marking it keeps the second request out.  Both rooms are
  created and marked, both requests are answered with success, and the row keeps the second user
  only.
\<close>

theorem concurrent_acceptance_two_rooms:
  "\<exists>s. accept_runs demo_env_link ([], demo_link) ([Replied (Inr ()), Replied (Inr ())], s) \<and>
     room_opened demo_env_link (vs_log s) (JStr ''@ann:x'') ''@bob:x'' \<and>
     room_opened demo_env_link (vs_log s) (JStr ''@ann:x'') ''@carl:x'' \<and>
     map fst (vs_log s) = [room_request demo_env_link ''b'' (JStr ''@ann:x''), room_request demo_env_link ''c'' (JStr ''@ann:x''),
       direct_request demo_env_link ''b'' ''@bob:x'' (JStr ''@ann:x'') (JStr ''!r:x''),
       direct_request demo_env_link ''c'' ''@carl:x'' (JStr ''@ann:x'') (JStr ''!r:x'')] \<and>
     {# getp r ''matrix_id''. r \<in># rows_of (vs_db s) ''invitations'' #} = {# JStr ''@carl:x'' #}"
proof -
  have l: "demo_link = demo_link\<lparr>vs_log := []\<rparr>" by (simp add: demo_link_def)
  let ?log = "[(room_request demo_env_link ''b'' (JStr ''@ann:x''), demo_answer),
      (room_request demo_env_link ''c'' (JStr ''@ann:x''), demo_answer),
      (direct_request demo_env_link ''b'' ''@bob:x'' (JStr ''@ann:x'') (JStr ''!r:x''), demo_answer),
      (direct_request demo_env_link ''c'' ''@carl:x'' (JStr ''@ann:x'') (JStr ''!r:x''), demo_answer)]"
  let ?s = "demo_marks ''@carl:x'' (demo_marks ''@bob:x'' (demo_link\<lparr>vs_log := ?log\<rparr>))"
  have "accept_runs demo_env_link ([], demo_link)
      ([Reading ''i2'' ''@bob:x'' ''b'', Reading ''i2'' ''@carl:x'' ''c''], demo_link\<lparr>vs_log := []\<rparr>)"
    using accept_arrive [OF accept_arrive [OF accept_runs.start, of demo_env_link "[]" demo_link], of "''i2''" "''@bob:x''" "''b''"] l by simp
  from accept_second [OF demo_steps(1) accept_first [OF demo_steps(1) this, simplified], simplified]
  have "accept_runs demo_env_link ([], demo_link)
      ([RoomPending demo_read ''@bob:x'' ''b'' True demo_answer, RoomPending demo_read ''@carl:x'' ''c'' True demo_answer],
       demo_link\<lparr>vs_log := take 2 ?log\<rparr>)" by simp
  from accept_second [OF demo_steps(2) accept_first [OF demo_steps(2) this, simplified], simplified]
  have "accept_runs demo_env_link ([], demo_link)
      ([DirectPending demo_read ''@bob:x'' True demo_answer, DirectPending demo_read ''@carl:x'' True demo_answer],
       demo_link\<lparr>vs_log := ?log\<rparr>)" by simp
  from accept_second [OF demo_steps(3) accept_first [OF demo_steps(3) this, simplified], simplified]
  have run: "accept_runs demo_env_link ([], demo_link) ([Replied (Inr ()), Replied (Inr ())], ?s)" by simp
  have log: "vs_log ?s = ?log" by (simp add: demo_marks_log)
  have m: "marked demo_answer" by (simp add: marked_def demo_answer_def)
  have "room_opened demo_env_link ?log (JStr ''@ann:x'') ''@bob:x''"
    by (rule room_openedI [OF _ demo_room [folded demo_answer_def] _ m, where authorization = "''b''"]) simp_all
  moreover have "room_opened demo_env_link ?log (JStr ''@ann:x'') ''@carl:x''"
    by (rule room_openedI [OF _ demo_room [folded demo_answer_def] _ m, where authorization = "''c''"]) simp_all
  moreover have "{# getp r ''matrix_id''. r \<in># rows_of (vs_db ?s) ''invitations'' #} = {# JStr ''@carl:x'' #}"
    by code_simp
  ultimately show ?thesis using run log by (intro exI [where x = ?s]) simp
qed

section \<open>Failures reported as success\<close>

text \<open>
  Once the invitation was read and found open, the request is answered with success whatever
  the Matrix server does: when it refuses the room, every run of this request alone ends with the
  answer of success, the database as it was after the reading.
\<close>

theorem failed_room_reported_as_success:
  assumes "getInvitationById env i s = (Inr found, s1)" "\<not> is_before (getp found ''expiration'') now"
    "\<not> truthy (getp found ''accessed'')" "\<not> truthy (getp found ''recipient'')"
    "room_of (ie_net env (vs_log s1) (room_request env authorization (getp found ''sender''))) = Inl e"
  shows "\<exists>s'. accept_runs env ([], s) ([Replied (Inr ())], s') \<and> vs_db s' = vs_db s1 \<and>
    accepted_response (Inr ()) = message 200 ''Invitation accepted''"
proof -
  let ?p = "ie_net env (vs_log s1) (room_request env authorization (getp found ''sender''))"
  let ?s' = "s1\<lparr>vs_log := vs_log s1 @ [(room_request env authorization (getp found ''sender''), ?p)]\<rparr>"
  have r: "resume env now (Reading i user authorization) s = ([RoomPending found user authorization True ?p], ?s')" for user
    using assms by (simp add: start_processing_def send_http_def http_fetch_def)
  have p: "resume env now (RoomPending found user authorization True ?p) ?s' = ([Replied (Inr ())], ?s')" for user
    using assms(5) by (simp add: finish_def)
  have "accept_runs env ([], s) ([Reading i [] authorization], s)"
    using accept_arrive [OF accept_runs.start, of env "[]" s] by simp
  from accept_first [OF p accept_first [OF r this, simplified]] show ?thesis
    by (intro exI [where x = ?s']) (simp add: accepted_response_def)
qed

theorem failed_room_reported_as_success_witness:
  "\<exists>s'. accept_runs (demo_env_link\<lparr>ie_net := \<lambda>log q. Inl (Err ''fetch failed'')\<rparr>) ([], demo_link) ([Replied (Inr ())], s') \<and>
     vs_db s' = vs_db demo_link \<and> accepted_response (Inr ()) = message 200 ''Invitation accepted''"
proof (rule failed_room_reported_as_success [where i = "''i2''" and now = 500 and found = demo_read and authorization = "''b''"])
  have l: "demo_link = demo_link\<lparr>vs_log := []\<rparr>" by (simp add: demo_link_def)
  show "getInvitationById (demo_env_link\<lparr>ie_net := \<lambda>log q. Inl (Err ''fetch failed'')\<rparr>) ''i2'' demo_link = (Inr demo_read, demo_link)"
    using demo_link_get [of "[]"] l by (simp add: getInvitationById_def)
qed (simp_all add: demo_read_facts room_of_def)

end
