(* ===== verification/CommonSettings.thy ===== *)
theory CommonSettings
  imports IdDb Http Express
begin

text \<open>
  The common settings service (\<open>packages/common-settings/src/index.ts\<close>): every message of the queue
  carries the settings of one user; the service stores them in \<open>usersettings\<close> and hands changes of
  the profile to the admin settings API.  Parameters: the database, the admin API, and what the
  driver makes of a \<open>jsonb\<close> column when it reads it (the text with SQLite, the parsed value with
  PostgreSQL).
\<close>

record 's cs_env =
  cs_db :: "'s backend"
  cs_column :: "jsval \<Rightarrow> jsval"
  cs_net :: network
  cs_base_url :: "string option"
  cs_token :: "string option"

record 's cs_st =
  cs_store :: 's
  cs_log :: http_log
  cs_slept :: "nat list"

definition cs_on_db :: "('s \<Rightarrow> 'a \<times> 's) \<Rightarrow> 's cs_st \<Rightarrow> 'a \<times> 's cs_st" where
  "cs_on_db f s = (case f (cs_store s) of (r, x) \<Rightarrow> (r, s\<lparr>cs_store := x\<rparr>))"

section \<open>Addresses\<close>

definition uri_unreserved :: "char \<Rightarrow> bool" where
  "uri_unreserved c \<longleftrightarrow> is_digit c \<or> in_range CHR ''a'' CHR ''z'' c \<or> in_range CHR ''A'' CHR ''Z'' c \<or>
     c \<in> {CHR ''-'', CHR ''_'', CHR ''.'', CHR ''!'', CHR ''~'', CHR ''*'', CHR 0x27, CHR ''('', CHR '')''}"

definition hex_upper :: "nat \<Rightarrow> char" where
  "hex_upper n = (if n < 10 then char_of (48 + n) else char_of (55 + n))"

definition percent :: "nat \<Rightarrow> string" where
  "percent n = [CHR ''%'', hex_upper (n div 16), hex_upper (n mod 16)]"

text \<open>\<open>encodeURIComponent\<close>; a code unit from 128 on is two bytes of UTF-8.\<close>

definition encode_char :: "char \<Rightarrow> string" where
  "encode_char c =
     (let n = of_char c
      in if uri_unreserved c then [c]
         else if n < 128 then percent n
         else percent (192 + n div 64) @ percent (128 + n mod 64))"

definition encodeURIComponent :: "string \<Rightarrow> string" where
  "encodeURIComponent s = concat (map encode_char s)"

text \<open>The origin of an absolute URL, for bases without user information; \<open>new URL\<close> throws otherwise.\<close>

definition url_origin :: "string \<Rightarrow> string option" where
  "url_origin base =
     (let rest = (\<lambda>k. takeWhile (\<lambda>c. c \<notin> {CHR ''/'', CHR ''?'', CHR ''#''}) (drop k base))
      in if starts_with base ''https://'' \<and> rest 8 \<noteq> [] then Some (''https://'' @ rest 8)
         else if starts_with base ''http://'' \<and> rest 7 \<noteq> [] then Some (''http://'' @ rest 7)
         else None)"

section \<open>The admin settings API\<close>

definition information_request :: "string \<Rightarrow> string \<Rightarrow> jsval \<Rightarrow> obj \<Rightarrow> http_req" where
  "information_request origin tok user payload =
     \<lparr>hq_method = ''POST'', hq_url = origin @ ''/_twake/v1/admin/settings/information/'' @ encodeURIComponent (js_str user),
      hq_headers = [(''content-type'', JSON_TYPE), (''authorization'', ''Bearer '' @ tok)],
      hq_body = str_of (JObj payload)\<rparr>"

definition resp_ok :: "http_resp \<Rightarrow> bool" where
  "resp_ok p \<longleftrightarrow> 200 \<le> hp_status p \<and> hp_status p \<le> 299"

definition updateUserInformation :: "'s cs_env \<Rightarrow> jsval \<Rightarrow> obj \<Rightarrow> 's cs_st \<Rightarrow> unit result \<times> 's cs_st" where
  "updateUserInformation env user payload s =
     (case (cs_base_url env, cs_token env) of
        (Some base, Some tok) \<Rightarrow>
          (case url_origin base of
             None \<Rightarrow> (Inl (Err ''Invalid URL''), s)
           | Some origin \<Rightarrow>
               (case http_fetch (cs_net env) (information_request origin tok user payload) (cs_log s) of
                  (Inl e, l) \<Rightarrow> (Inl e, s\<lparr>cs_log := l\<rparr>)
                | (Inr p, l) \<Rightarrow>
                    (if resp_ok p then Inr ()
                     else Inl (Err (''Failed to update display name: '' @ nat_str (hp_status p) @ '' - '' @ hp_body p)),
                     s\<lparr>cs_log := l\<rparr>)))
      | _ \<Rightarrow> (Inl (Err ''The base URL or admin access token is not configured''), s))"

text \<open>The attempts left and the number of the next one.\<close>

fun retry_from :: "'s cs_env \<Rightarrow> jsval \<Rightarrow> obj \<Rightarrow> nat \<Rightarrow> nat \<Rightarrow> 's cs_st \<Rightarrow> unit result \<times> 's cs_st" where
  "retry_from env user payload 0 attempt s = (Inr (), s)"
| "retry_from env user payload (Suc left) attempt s =
     (case updateUserInformation env user payload s of
        (Inr _, s1) \<Rightarrow> (Inr (), s1)
      | (Inl e, s1) \<Rightarrow>
          if left = 0 then (Inl e, s1)
          else retry_from env user payload left (attempt + 1) (s1\<lparr>cs_slept := cs_slept s1 @ [attempt * 500]\<rparr>))"

definition updateUserInformationWithRetry :: "'s cs_env \<Rightarrow> jsval \<Rightarrow> obj \<Rightarrow> 's cs_st \<Rightarrow> unit result \<times> 's cs_st" where
  "updateUserInformationWithRetry env user payload s = retry_from env user payload 3 1 s"

section \<open>The stored settings\<close>

text \<open>\<open>v.length === 0\<close>\<close>

definition zero_length :: "jsval \<Rightarrow> bool" where
  "zero_length v = (case v of JStr t \<Rightarrow> t = [] | JArr vs \<Rightarrow> vs = [] | JObj ps \<Rightarrow> getp ps ''length'' = JNum 0 | _ \<Rightarrow> False)"

text \<open>The settings found, or \<open>None\<close> when they were created.\<close>

definition getOrCreateUserSettings :: "'s cs_env \<Rightarrow> jsval \<Rightarrow> jsval \<Rightarrow> 's cs_st \<Rightarrow> obj option result \<times> 's cs_st" where
  "getOrCreateUserSettings env user settings s =
     (if zero_length user then (Inl (Err ''UserId is required''), s)
      else if nullish (field settings ''payload'') then (Inl (Err ''Settings payload is missing''), s)
      else case cs_on_db (db_get (cs_db env) ''usersettings'' [''*''] (Some [(''matrix_id'', user)]) None) s of
             (Inl e, s1) \<Rightarrow> (Inl e, s1)
           | (Inr (existing # _), s1) \<Rightarrow> (Inr (Some existing), s1)
           | (Inr [], s1) \<Rightarrow>
               (case cs_on_db (db_insert (cs_db env) ''usersettings''
                        [(''matrix_id'', user), (''settings'', JStr (str_of (field settings ''payload''))),
                         (''version'', field settings ''version'')]) s1 of
                  (Inl e, s2) \<Rightarrow> (Inl e, s2)
                | (Inr _, s2) \<Rightarrow> (Inr None, s2)))"

definition updateUserSettings :: "'s cs_env \<Rightarrow> jsval \<Rightarrow> jsval \<Rightarrow> 's cs_st \<Rightarrow> unit result \<times> 's cs_st" where
  "updateUserSettings env user settings s =
     (if zero_length user then (Inl (Err ''User ID must be provided.''), s)
      else if nullish (field settings ''payload'') then (Inl (Err ''User settings must be provided.''), s)
      else case cs_on_db (db_update (cs_db env) ''usersettings''
                  [(''settings'', JStr (str_of (field settings ''payload''))), (''version'', field settings ''version'')]
                  ''matrix_id'' user) s of
             (Inl e, s1) \<Rightarrow> (Inl e, s1)
           | (Inr _, s1) \<Rightarrow> (Inr (), s1))"

section \<open>The handler\<close>

definition safeParseMessage :: "string \<Rightarrow> jsval" where
  "safeParseMessage raw = (case json_parse raw of Inl _ \<Rightarrow> Null | Inr v \<Rightarrow> v)"

text \<open>\<open>a !== b\<close>: two objects are different unless they are the same one, which these never are.\<close>

definition differs :: "jsval \<Rightarrow> jsval \<Rightarrow> bool" where
  "differs a b = (case a of JArr _ \<Rightarrow> True | JObj _ \<Rightarrow> True | _ \<Rightarrow> a \<noteq> b)"

text \<open>What the profile is updated with.\<close>

definition profile_changes :: "'s cs_env \<Rightarrow> jsval \<Rightarrow> jsval \<Rightarrow> obj option \<Rightarrow> obj result" where
  "profile_changes env displayName avatarUrl existing =
     (case existing of
        None \<Rightarrow> Inr [(''displayName'', displayName), (''avatarUrl'', avatarUrl)]
      | Some userSettings \<Rightarrow>
          (let oldConfig = cs_column env (getp userSettings ''settings'')
           in case read_prop oldConfig ''display_name'' of
                Inl e \<Rightarrow> Inl e
              | Inr oldName \<Rightarrow>
                  Inr ((if differs oldName displayName then [(''displayName'', displayName)] else []) @
                       (if differs (field oldConfig ''avatar'') avatarUrl then [(''avatarUrl'', avatarUrl)] else []))))"

definition handleMessage :: "'s cs_env \<Rightarrow> string \<Rightarrow> 's cs_st \<Rightarrow> unit result \<times> 's cs_st" where
  "handleMessage env raw s =
     (let parsed = safeParseMessage raw;
          payload = field parsed ''payload'';
          user = field payload ''matrix_id''
      in if nullish parsed then (Inl (Err ''Could not parse message''), s)
         else if nullish user then (Inl (Err ''User ID must be provided.''), s)
         else case getOrCreateUserSettings env user parsed s of
                (Inl e, s1) \<Rightarrow> (Inl e, s1)
              | (Inr existing, s1) \<Rightarrow>
                  (case profile_changes env (field payload ''display_name'') (field payload ''avatar'') existing of
                     Inl e \<Rightarrow> (Inl e, s1)
                   | Inr changes \<Rightarrow>
                       (case if changes = [] then (Inr (), s1)
                             else updateUserInformationWithRetry env user changes s1 of
                          (Inl e, s2) \<Rightarrow> (Inl e, s2)
                        | (Inr _, s2) \<Rightarrow> updateUserSettings env user parsed s2)))"

text \<open>The checks of the constructor and of \<open>start\<close>: whether the connector is built.\<close>

definition check_config :: "string \<Rightarrow> string \<Rightarrow> string \<Rightarrow> unit result" where
  "check_config host exchange queue =
     (if host = [] then Inl (Err ''AMQP configuration must be provided'')
      else if exchange = [] then Inl (Err ''Exchange name must be provided'')
      else if queue = [] then Inl (Err ''Queue name must be provided'')
      else Inr ())"

section \<open>What the interface gives the settings\<close>

definition settings_cols :: "string list" where
  "settings_cols = [''matrix_id'', ''settings'', ''version'']"

definition settings_row :: "string \<Rightarrow> jsval \<Rightarrow> jsval \<Rightarrow> obj" where
  "settings_row u payload version =
     [(''matrix_id'', JStr u), (''settings'', JStr (str_of payload)), (''version'', stored version)]"

definition of_user :: "string \<Rightarrow> obj \<Rightarrow> bool" where
  "of_user u r \<longleftrightarrow> sql_eq (getp r ''matrix_id'') (JStr u)"

lemma cs_on_dbE:
  assumes "cs_on_db f s = (r, s')"
  obtains x where "f (cs_store s) = (r, x)" "s' = s\<lparr>cs_store := x\<rparr>"
  using assms by (cases "f (cs_store s)") (auto simp: cs_on_db_def)

locale settings_db = table_db +
  assumes settings: "schema ''usersettings'' = settings_cols" "key ''usersettings'' = [''matrix_id'']"
begin

lemma get_or_create:
  assumes "cs_db env = d" "getOrCreateUserSettings env (JStr u) parsed s = (r, s')" "wf (cs_store s)" "u \<noteq> []"
    "\<not> nullish (field parsed ''payload'')"
  shows "wf (cs_store s') \<and> (healthy (cs_store s) \<longrightarrow> healthy (cs_store s')) \<and> cs_log s' = cs_log s \<and>
    (case r of
       Inl e \<Rightarrow> \<not> healthy (cs_store s) \<and> tab (cs_store s') = tab (cs_store s)
     | Inr (Some x) \<Rightarrow> tab (cs_store s') = tab (cs_store s) \<and> x \<in># tab (cs_store s) ''usersettings'' \<and> of_user u x
     | Inr None \<Rightarrow> {# x \<in># tab (cs_store s) ''usersettings''. of_user u x #} = {#} \<and>
         tab (cs_store s') = (tab (cs_store s))(''usersettings'' :=
           add_mset (settings_row u (field parsed ''payload'') (field parsed ''version'')) (tab (cs_store s) ''usersettings'')))"
proof -
  let ?f = "[(''matrix_id'', JStr u)]"
  obtain q x1 where g: "db_get d ''usersettings'' [''*''] (Some ?f) None (cs_store s) = (q, x1)" by fastforce
  have c: "schema ''usersettings'' \<noteq> []" "[''*''] = [''*''] \<or> set [''*''] \<subseteq> set (schema ''usersettings'')"
    "set (map fst (kept ?f)) \<subseteq> set (schema ''usersettings'')"
    by (auto simp: settings settings_cols_def kept_def)
  have pr: "project [''*''] = (\<lambda>x. x)" by (rule ext) (simp add: project_def)
  have m: "matches ?f x = of_user u x" for x using assms(4) by (simp add: matches_one of_user_def)
  note gl = get_law [OF assms(3) c g, unfolded pr m]
  show ?thesis
  proof (cases q)
    case (Inl e)
    then show ?thesis using assms g gl by (auto simp: getOrCreateUserSettings_def zero_length_def cs_on_db_def)
  next
    case (Inr rs)
    show ?thesis
    proof (cases rs)
      case (Cons x rest)
      have "x \<in># mset rs" using Cons by simp
      moreover have "mset rs = {# x \<in># tab (cs_store s) ''usersettings''. of_user u x #}" using gl Inr by simp
      ultimately have "x \<in># {# x \<in># tab (cs_store s) ''usersettings''. of_user u x #}" by (simp only:)
      then show ?thesis using assms g gl Inr Cons by (auto simp: getOrCreateUserSettings_def zero_length_def cs_on_db_def)
    next
      case Nil
      let ?vs = "[(''matrix_id'', JStr u), (''settings'', JStr (str_of (field parsed ''payload''))),
                  (''version'', field parsed ''version'')]"
      have none: "{# x \<in># tab (cs_store s) ''usersettings''. of_user u x #} = {#}" using gl Inr Nil by simp
      obtain q2 x2 where i: "db_insert d ''usersettings'' ?vs x1 = (q2, x2)" by fastforce
      have w: "wf x1" using gl by simp
      have cc: "?vs \<noteq> []" "set (map fst ?vs) \<subseteq> set (schema ''usersettings'')" by (auto simp: settings settings_cols_def)
      have row: "complete (schema ''usersettings'') (stored_obj ?vs) =
          settings_row u (field parsed ''payload'') (field parsed ''version'')"
        by (simp add: settings settings_cols_def complete_def stored_obj_def stored_def settings_row_def)
      note il = insert_law [OF w c(1) cc i, unfolded row]
      have fresh: "\<not> (\<exists>r \<in># tab x1 ''usersettings''. sql_eq (getp r ''matrix_id'') (JStr u))"
        using arg_cong [OF none, of set_mset] gl by (auto simp: of_user_def)
      show ?thesis
        using assms g gl Inr Nil i il none fresh
        by (cases q2) (auto simp: getOrCreateUserSettings_def zero_length_def cs_on_db_def settings settings_row_def)
    qed
  qed
qed

lemma update_settings:
  assumes "cs_db env = d" "updateUserSettings env (JStr u) parsed s = (r, s')" "wf (cs_store s)" "u \<noteq> []"
    "\<not> nullish (field parsed ''payload'')"
  shows "wf (cs_store s') \<and> (healthy (cs_store s) \<longrightarrow> healthy (cs_store s') \<and> r = Inr ()) \<and> cs_log s' = cs_log s \<and>
    tab (cs_store s') = (if r = Inr () then (tab (cs_store s))(''usersettings'' :=
      {# if of_user u x then assign [(''settings'', JStr (str_of (field parsed ''payload''))),
           (''version'', stored (field parsed ''version''))] x else x. x \<in># tab (cs_store s) ''usersettings'' #})
      else tab (cs_store s))"
proof -
  let ?vs = "[(''settings'', JStr (str_of (field parsed ''payload''))), (''version'', field parsed ''version'')]"
  obtain q x where g: "db_update d ''usersettings'' ?vs ''matrix_id'' (JStr u) (cs_store s) = (q, x)" by fastforce
  have c: "schema ''usersettings'' \<noteq> []" "?vs \<noteq> []" "set (''matrix_id'' # map fst ?vs) \<subseteq> set (schema ''usersettings'')"
    by (auto simp: settings settings_cols_def)
  note ul = update_law [OF assms(3) c g]
  have k: "set (key ''usersettings'') \<inter> set (map fst ?vs) = {}" by (simp add: settings)
  have h: "\<not> healthy (cs_store s)" if "q = Inl e" for e
    using update_other_ok [OF assms(3) c k] g that by simp
  have so: "stored_obj ?vs = [(''settings'', JStr (str_of (field parsed ''payload''))), (''version'', stored (field parsed ''version''))]"
    by (simp add: stored_obj_def stored_def)
  show ?thesis using assms g ul [unfolded so] h
    by (cases q) (auto simp: updateUserSettings_def zero_length_def cs_on_db_def of_user_def)
qed

end

lemma tom_schema_settings: "schema_of tom_tables ''usersettings'' = settings_cols" "key_of tom_tables ''usersettings'' = [''matrix_id'']"
  unfolding tom_schema tom_key by code_simp+

interpretation usersettings: settings_db "mem_db dia" "store_wf tom_tables" store_healthy rows_of
    "schema_of tom_tables" "key_of tom_tables"
  for dia
  by (unfold_locales) (fact tom_schema_settings)+

lemma tom_settings:
  "tom_database d ok healthy tab \<Longrightarrow> settings_db d ok healthy tab (schema_of tom_tables) (key_of tom_tables)"
  by (intro settings_db.intro settings_db_axioms.intro) (simp_all add: tom_schema_settings)

section \<open>Processing a message\<close>

definition user_rows :: "obj multiset \<Rightarrow> string \<Rightarrow> (jsval \<times> jsval) multiset" where
  "user_rows rows u = {# (getp x ''settings'', getp x ''version''). x \<in># {# x \<in># rows. of_user u x #} #}"

definition other_rows :: "obj multiset \<Rightarrow> string \<Rightarrow> obj multiset" where
  "other_rows rows u = {# x \<in># rows. \<not> of_user u x #}"

lemma retry_store: "retry_from env user payload left attempt s = (r, s') \<Longrightarrow> cs_store s' = cs_store s"
proof (induction env user payload left attempt s rule: retry_from.induct)
  case (2 env user payload left attempt s)
  then show ?case
    by (auto simp: updateUserInformation_def split: prod.splits sum.splits option.splits if_splits)
qed simp

lemma assigned_rows:
  assumes "\<And>x. x \<in># rows \<Longrightarrow> map fst x = settings_cols"
    "rows' = {# if of_user u x then assign [(''settings'', a), (''version'', b)] x else x. x \<in># rows #}"
  shows "other_rows rows' u = other_rows rows u"
    "user_rows rows' u = {# (a, b). x \<in># {# x \<in># rows. of_user u x #} #}"
proof -
  let ?a = "assign [(''settings'', a), (''version'', b)]"
  have o: "of_user u (if of_user u x then ?a x else x) = of_user u x" for x
    by (simp add: of_user_def getp_assign_other)
  have "{# if of_user u x then ?a x else x. x \<in># {# x \<in># rows. \<not> of_user u x #} #} = {# x. x \<in># {# x \<in># rows. \<not> of_user u x #} #}"
    by (rule image_mset_cong) simp
  then show "other_rows rows' u = other_rows rows u"
    unfolding other_rows_def assms(2) filter_mset_image_mset o by simp
  have "{# x \<in># rows'. of_user u x #} = {# ?a x. x \<in># {# x \<in># rows. of_user u x #} #}"
    unfolding assms(2) filter_mset_image_mset o by (rule image_mset_cong) simp
  moreover have "(getp (?a x) ''settings'', getp (?a x) ''version'') = (a, b)" if x: "x \<in># {# x \<in># rows. of_user u x #}" for x
    using assms(1) [of x] x by (simp add: getp_assign_same settings_cols_def)
  moreover have "{# (getp (?a x) ''settings'', getp (?a x) ''version''). x \<in># {# x \<in># rows. of_user u x #} #} =
      {# (a, b). x \<in># {# x \<in># rows. of_user u x #} #}"
    by (rule image_mset_cong) (fact calculation(2))
  ultimately show "user_rows rows' u = {# (a, b). x \<in># {# x \<in># rows. of_user u x #} #}"
    by (simp only: user_rows_def multiset.map_comp comp_def)
qed

lemma message_parts:
  assumes "field (field parsed ''payload'') ''matrix_id'' = JStr u"
  shows "\<not> nullish (field parsed ''payload'')" "\<not> nullish parsed"
  using assms by (auto simp: field_def split: jsval.splits)

lemma handle_valid:
  assumes "safeParseMessage raw = parsed" "field (field parsed ''payload'') ''matrix_id'' = JStr u"
  shows "handleMessage env raw s =
    (case getOrCreateUserSettings env (JStr u) parsed s of
       (Inl e, s1) \<Rightarrow> (Inl e, s1)
     | (Inr existing, s1) \<Rightarrow>
         (case profile_changes env (field (field parsed ''payload'') ''display_name'')
                 (field (field parsed ''payload'') ''avatar'') existing of
            Inl e \<Rightarrow> (Inl e, s1)
          | Inr changes \<Rightarrow>
              (case if changes = [] then (Inr (), s1) else updateUserInformationWithRetry env (JStr u) changes s1 of
                 (Inl e, s2) \<Rightarrow> (Inl e, s2)
               | (Inr _, s2) \<Rightarrow> updateUserSettings env (JStr u) parsed s2)))"
  unfolding handleMessage_def Let_def assms using message_parts [OF assms(2)] by simp

text \<open>After the lookup the user has exactly one row, an old one or the new one.\<close>

lemma one_row_after_lookup:
  assumes "tom_database (cs_db env) ok healthy tab" "ok (cs_store s)" "healthy (cs_store s)"
    "getOrCreateUserSettings env (JStr u) parsed s = (q, s')" "u \<noteq> []" "\<not> nullish (field parsed ''payload'')"
  obtains ex where "q = Inr ex" "ok (cs_store s')" "healthy (cs_store s')" "cs_log s' = cs_log s"
    "size {# x \<in># tab (cs_store s') ''usersettings''. of_user u x #} = 1"
    "other_rows (tab (cs_store s') ''usersettings'') u = other_rows (tab (cs_store s) ''usersettings'') u"
    "\<forall>t. t \<noteq> ''usersettings'' \<longrightarrow> tab (cs_store s') t = tab (cs_store s) t"
    "case ex of
       None \<Rightarrow> user_rows (tab (cs_store s) ''usersettings'') u = {#} \<and>
         user_rows (tab (cs_store s') ''usersettings'') u =
           {#(JStr (str_of (field parsed ''payload'')), stored (field parsed ''version''))#}
     | Some x \<Rightarrow> tab (cs_store s') = tab (cs_store s) \<and>
         {# x \<in># tab (cs_store s) ''usersettings''. of_user u x #} = {#x#}"
proof -
  note gc = settings_db.get_or_create [OF tom_settings [OF assms(1)] refl assms(4,2,5,6)]
  obtain ex where q: "q = Inr ex" using gc assms(3) by (cases q) auto
  show ?thesis
  proof (cases ex)
    case None
    show ?thesis
      by (rule that [OF q]; use gc q None assms(3) in
          \<open>simp add: user_rows_def other_rows_def settings_row_def of_user_def sql_eq_def\<close>)
  next
    case (Some x)
    then have x: "tab (cs_store s') = tab (cs_store s)" "x \<in># tab (cs_store s) ''usersettings''"
      "sql_eq (getp x ''matrix_id'') (JStr u)"
      using gc q by (auto simp: of_user_def)
    have "{# x \<in># tab (cs_store s) ''usersettings''. sql_eq (getp x ''matrix_id'') (JStr u) #} = {#x#}"
      by (rule table_db.key_unique_rows [OF assms(1), OF assms(2) tom_schema_settings(2) x(2,3)])
    then have "{# x \<in># tab (cs_store s) ''usersettings''. of_user u x #} = {#x#}" by (simp add: of_user_def)
    then show ?thesis using gc q x(1) Some assms(3) by (intro that [OF q]) simp_all
  qed
qed

text \<open>
  Processing a message changes the row of its user only.  When it succeeds, that user has exactly
  one row, holding the payload and the version of this message, whatever version was stored before;
  when it fails, the tables are as they were, except that a row created for a new user stays.
\<close>

lemma processed_message:
  assumes "tom_database (cs_db env) ok healthy tab" "ok (cs_store s)" "healthy (cs_store s)"
    "safeParseMessage raw = parsed" "field (field parsed ''payload'') ''matrix_id'' = JStr u" "u \<noteq> []"
    "handleMessage env raw s = (r, s')"
  shows "(\<forall>t. t \<noteq> ''usersettings'' \<longrightarrow> tab (cs_store s') t = tab (cs_store s) t) \<and>
    other_rows (tab (cs_store s') ''usersettings'') u = other_rows (tab (cs_store s) ''usersettings'') u \<and>
    (let new = {# (JStr (str_of (field parsed ''payload'')), stored (field parsed ''version'')) #};
         before = user_rows (tab (cs_store s) ''usersettings'') u;
         after = user_rows (tab (cs_store s') ''usersettings'') u
     in case r of Inr _ \<Rightarrow> after = new | Inl e \<Rightarrow> after = before \<or> before = {#} \<and> after = new)"
proof -
  let ?a = "JStr (str_of (field parsed ''payload''))" and ?b = "stored (field parsed ''version'')"
  note p = message_parts [OF assms(5)]
  obtain q s1 where g: "getOrCreateUserSettings env (JStr u) parsed s = (q, s1)" by fastforce
  obtain ex where ex: "q = Inr ex" "ok (cs_store s1)" "healthy (cs_store s1)"
    "size {# x \<in># tab (cs_store s1) ''usersettings''. of_user u x #} = 1"
    "other_rows (tab (cs_store s1) ''usersettings'') u = other_rows (tab (cs_store s) ''usersettings'') u"
    "\<forall>t. t \<noteq> ''usersettings'' \<longrightarrow> tab (cs_store s1) t = tab (cs_store s) t"
    "case ex of None \<Rightarrow> user_rows (tab (cs_store s) ''usersettings'') u = {#} \<and>
         user_rows (tab (cs_store s1) ''usersettings'') u = {#(?a, ?b)#}
     | Some x \<Rightarrow> tab (cs_store s1) = tab (cs_store s) \<and> {# x \<in># tab (cs_store s) ''usersettings''. of_user u x #} = {#x#}"
    by (rule one_row_after_lookup [OF assms(1-3) g assms(6) p(1)])
  have stop: ?thesis if "r = Inl e" "cs_store s' = cs_store s1" for e
    using that ex(5-7) by (cases ex) (auto simp: Let_def)
  show ?thesis
  proof (cases "\<exists>changes s2 v. profile_changes env (field (field parsed ''payload'') ''display_name'')
        (field (field parsed ''payload'') ''avatar'') ex = Inr changes \<and>
      (if changes = [] then (Inr (), s1) else updateUserInformationWithRetry env (JStr u) changes s1) = (Inr v, s2)")
    case False
    then have "\<exists>e. r = Inl e \<and> cs_store s' = cs_store s1"
      using assms(7) unfolding handle_valid [OF assms(4,5)] g ex(1)
      by (auto simp: updateUserInformationWithRetry_def dest: retry_store split: sum.splits prod.splits if_splits)
    then show ?thesis using stop by blast
  next
    case True
    then obtain changes s2 v where c: "profile_changes env (field (field parsed ''payload'') ''display_name'')
        (field (field parsed ''payload'') ''avatar'') ex = Inr changes"
      "(if changes = [] then (Inr (), s1) else updateUserInformationWithRetry env (JStr u) changes s1) = (Inr v, s2)" by blast
    then have same: "cs_store s2 = cs_store s1"
      by (auto simp: updateUserInformationWithRetry_def dest: retry_store split: if_splits)
    have us: "updateUserSettings env (JStr u) parsed s2 = (r, s')"
      using assms(7) c unfolding handle_valid [OF assms(4,5)] g ex(1) by simp
    have o2: "ok (cs_store s2)" using same ex(2) by simp
    note up = settings_db.update_settings [OF tom_settings [OF assms(1)] refl us o2 assms(6) p(1)]
    have r: "r = Inr ()" and T': "tab (cs_store s') = (tab (cs_store s1))(''usersettings'' :=
        {# if of_user u x then assign [(''settings'', ?a), (''version'', ?b)] x else x. x \<in># tab (cs_store s1) ''usersettings'' #})"
      using up same ex(3) by auto
    have cols: "\<And>x. x \<in># tab (cs_store s1) ''usersettings'' \<Longrightarrow> map fst x = settings_cols"
      using table_db.row_cols [OF assms(1), OF ex(2)] by (simp add: tom_schema_settings)
    have T'': "tab (cs_store s') ''usersettings'' = {# if of_user u x then assign [(''settings'', ?a), (''version'', ?b)] x else x.
        x \<in># tab (cs_store s1) ''usersettings'' #}" unfolding T' by simp
    note ar = assigned_rows [OF cols T'']
    obtain y where y: "{# x \<in># tab (cs_store s1) ''usersettings''. of_user u x #} = {#y#}"
      using size_1_singleton_mset [OF ex(4)] by blast
    have "{# (?a, ?b). x \<in># {# x \<in># tab (cs_store s1) ''usersettings''. of_user u x #} #} = {#(?a, ?b)#}"
      unfolding y by simp
    moreover have "tab (cs_store s') t = tab (cs_store s1) t" if "t \<noteq> ''usersettings''" for t using that unfolding T' by simp
    ultimately show ?thesis using ar ex(5,6) r by (simp add: Let_def)
  qed
qed

section \<open>Retries\<close>

text \<open>All requests of a log update the profile of this user with this body.\<close>

definition for_user :: "jsval \<Rightarrow> obj \<Rightarrow> http_log \<Rightarrow> bool" where
  "for_user user payload new \<longleftrightarrow> list_all (\<lambda>(q, p). \<exists>origin tok. q = information_request origin tok user payload) new"

lemma for_user_simps [simp]: "for_user user payload []" "for_user user payload (xs @ ys) \<longleftrightarrow> for_user user payload xs \<and> for_user user payload ys"
  by (simp_all add: for_user_def)

lemma for_user_one [simp]: "for_user user payload [(information_request origin tok user payload, p)]"
  by (auto simp: for_user_def)

lemma update_once:
  assumes "updateUserInformation env user payload s = (r, s')"
  shows "cs_slept s' = cs_slept s \<and> (\<exists>new. cs_log s' = cs_log s @ new \<and> length new \<le> 1 \<and>
    for_user user payload new \<and>
    (r = Inr () \<longrightarrow> (\<exists>q p. new = [(q, Inr p)] \<and> resp_ok p)))"
  using assms
  by (auto simp: updateUserInformation_def http_fetch_def split: prod.splits sum.splits option.splits if_splits)

lemma retry_log:
  assumes "retry_from env user payload (Suc left) attempt s = (r, s')"
  shows "\<exists>new k. k \<le> left \<and> cs_log s' = cs_log s @ new \<and> length new \<le> Suc k \<and>
    cs_slept s' = cs_slept s @ map (\<lambda>i. i * 500) [attempt ..< attempt + k] \<and>
    for_user user payload new \<and>
    (r = Inr () \<longrightarrow> (\<exists>q p. new \<noteq> [] \<and> last new = (q, Inr p) \<and> resp_ok p)) \<and> (r \<noteq> Inr () \<longrightarrow> k = left)"
  using assms
proof (induction left arbitrary: attempt s)
  case 0
  obtain q s1 where u: "updateUserInformation env user payload s = (q, s1)" by fastforce
  have "s' = s1" "r = q" using 0 u by (auto split: sum.splits)
  with update_once [OF u] show ?case by (intro exI [where x = "drop (length (cs_log s)) (cs_log s')"] exI [where x = 0]) auto
next
  case (Suc left)
  obtain q s1 where u: "updateUserInformation env user payload s = (q, s1)" by fastforce
  note once = update_once [OF u]
  then obtain n1 where n1: "cs_log s1 = cs_log s @ n1" "length n1 \<le> 1" "cs_slept s1 = cs_slept s"
    "for_user user payload n1"
    "q = Inr () \<longrightarrow> (\<exists>q p. n1 = [(q, Inr p)] \<and> resp_ok p)" by blast
  show ?case
  proof (cases q)
    case (Inr v)
    then have "s' = s1" "r = Inr ()" using Suc.prems u by auto
    then show ?thesis using n1 Inr by (intro exI [where x = n1] exI [where x = 0]) auto
  next
    case (Inl e)
    then have "retry_from env user payload (Suc left) (attempt + 1) (s1\<lparr>cs_slept := cs_slept s1 @ [attempt * 500]\<rparr>) = (r, s')"
      using Suc.prems u by simp
    from Suc.IH [OF this] obtain new k where h: "k \<le> left"
      "cs_log s' = cs_log (s1\<lparr>cs_slept := cs_slept s1 @ [attempt * 500]\<rparr>) @ new" "length new \<le> Suc k"
      "cs_slept s' = cs_slept (s1\<lparr>cs_slept := cs_slept s1 @ [attempt * 500]\<rparr>) @ map (\<lambda>i. i * 500) [attempt + 1 ..< attempt + 1 + k]"
      "for_user user payload new"
      "r = Inr () \<longrightarrow> (\<exists>q p. new \<noteq> [] \<and> last new = (q, Inr p) \<and> resp_ok p)" "r \<noteq> Inr () \<longrightarrow> k = left"
      by blast
    have "[attempt ..< attempt + Suc k] = attempt # [attempt + 1 ..< attempt + 1 + k]" by (simp add: upt_rec)
    then have w: "cs_slept s' = cs_slept s @ map (\<lambda>i. i * 500) [attempt ..< attempt + Suc k]" using h(4) n1(3) by simp
    show ?thesis
      by (intro exI [where x = "n1 @ new"] exI [where x = "Suc k"] conjI w) (use h n1 Inl in auto)
  qed
qed

lemma retry_grows:
  assumes "retry_from env user payload (Suc left) attempt s = (r, s')"
    "cs_base_url env = Some base" "url_origin base = Some origin" "cs_token env = Some tok"
  shows "length (cs_log s) < length (cs_log s')"
proof -
  obtain q s1 where u: "updateUserInformation env user payload s = (q, s1)" by fastforce
  have one: "length (cs_log s) < length (cs_log s1)"
    using u assms(2-4) by (auto simp: updateUserInformation_def http_fetch_def split: sum.splits)
  show ?thesis
  proof (cases "q = Inr () \<or> left = 0")
    case True
    then show ?thesis using assms(1) u one by (auto split: sum.splits)
  next
    case False
    then obtain k e where k: "left = Suc k" "q = Inl e" by (cases left; cases q) auto
    then have "retry_from env user payload (Suc k) (attempt + 1) (s1\<lparr>cs_slept := cs_slept s1 @ [attempt * 500]\<rparr>) = (r, s')"
      using assms(1) u by simp
    from retry_log [OF this] one show ?thesis by auto
  qed
qed

section \<open>Comparing with the stored settings\<close>

text \<open>What PostgreSQL's driver makes of a \<open>jsonb\<close> column; SQLite's gives the text back.\<close>

definition pg_jsonb :: "jsval \<Rightarrow> jsval" where
  "pg_jsonb v = (case v of JStr t \<Rightarrow> (case json_parse t of Inr w \<Rightarrow> w | Inl _ \<Rightarrow> v) | _ \<Rightarrow> v)"

definition primitive :: "jsval \<Rightarrow> bool" where
  "primitive v = (case v of JArr _ \<Rightarrow> False | JObj _ \<Rightarrow> False | _ \<Rightarrow> True)"

lemma differs_primitive: "primitive a \<Longrightarrow> differs a b \<longleftrightarrow> a \<noteq> b"
  by (auto simp: primitive_def differs_def split: jsval.splits)

lemma changes_parsed:
  assumes "getp x ''settings'' = JStr (str_of (JObj old))" "json_value (JObj old)" "cs_column env = pg_jsonb"
    "primitive (getp old ''display_name'')" "primitive (getp old ''avatar'')"
  shows "profile_changes env name avatar (Some x) =
    Inr ((if getp old ''display_name'' \<noteq> name then [(''displayName'', name)] else []) @
         (if getp old ''avatar'' \<noteq> avatar then [(''avatarUrl'', avatar)] else []))"
  using assms by (simp add: profile_changes_def pg_jsonb_def json_parse_str_of read_prop_def field_def differs_primitive Let_def)

lemma changes_text:
  assumes "getp x ''settings'' = JStr t" "cs_column env = (\<lambda>v. v)"
  shows "profile_changes env name avatar (Some x) =
    Inr ((if name \<noteq> Undef then [(''displayName'', name)] else []) @
         (if avatar \<noteq> Undef then [(''avatarUrl'', avatar)] else []))"
  using assms by (auto simp: profile_changes_def read_prop_def field_def differs_def Let_def)

text \<open>
  C36: The profile update is bounded and its success is real: processing a message makes at most
  three requests, all to the admin API for this user with the same body, waits at most twice (half
  a second, then a second), and when it succeeded after a request, the last request was answered
  with a status from 200 to 299.
\<close>

theorem profile_update_bounded:
  assumes "safeParseMessage raw = parsed" "field (field parsed ''payload'') ''matrix_id'' = JStr u"
    "tom_database (cs_db env) ok healthy tab" "ok (cs_store s)" "healthy (cs_store s)" "u \<noteq> []"
    "handleMessage env raw s = (r, s')"
  shows "\<exists>new changes. cs_log s' = cs_log s @ new \<and> length new \<le> 3 \<and>
    (\<exists>k \<le> 2. cs_slept s' = cs_slept s @ map (\<lambda>i. i * 500) [1 ..< 1 + k]) \<and>
    for_user (JStr u) changes new \<and>
    (r = Inr () \<and> new \<noteq> [] \<longrightarrow> (\<exists>p. snd (last new) = Inr p \<and> resp_ok p))"
proof -
  note p = message_parts [OF assms(2)]
  obtain q s1 where g: "getOrCreateUserSettings env (JStr u) parsed s = (q, s1)" by fastforce
  obtain ex where ex: "q = Inr ex" "ok (cs_store s1)" "cs_log s1 = cs_log s"
    using one_row_after_lookup [OF assms(3-5) g assms(6) p(1)] by metis
  have sl: "cs_slept s1 = cs_slept s"
    using g by (auto simp: getOrCreateUserSettings_def cs_on_db_def split: if_splits prod.splits sum.splits list.splits)
  note h = assms(7) [unfolded handle_valid [OF assms(1,2)] g ex(1), simplified]
  show ?thesis
  proof (cases "profile_changes env (field (field parsed ''payload'') ''display_name'')
      (field (field parsed ''payload'') ''avatar'') ex")
    case (Inl e)
    then show ?thesis using h ex(3) sl by (intro exI [where x = "[]"]) (auto intro: exI [where x = 0])
  next
    case (Inr changes)
    obtain q2 s2 where t: "(if changes = [] then (Inr (), s1) else updateUserInformationWithRetry env (JStr u) changes s1) = (q2, s2)"
      by fastforce
    have fin: "cs_log s' = cs_log s2 \<and> cs_slept s' = cs_slept s2 \<and> (r = Inr () \<longrightarrow> q2 = Inr ())"
      using h Inr t by (cases q2) (auto simp: updateUserSettings_def cs_on_db_def split: if_splits prod.splits sum.splits)
    show ?thesis
    proof (cases "changes = []")
      case True
      then show ?thesis using fin t ex(3) sl by (intro exI [where x = "[]"]) (auto intro: exI [where x = 0])
    next
      case False
      then have "retry_from env (JStr u) changes (Suc 2) 1 s1 = (q2, s2)"
        using t by (simp add: updateUserInformationWithRetry_def numeral_3_eq_3)
      from retry_log [OF this] obtain new k where n: "k \<le> 2" "cs_log s2 = cs_log s1 @ new" "length new \<le> Suc k"
        "cs_slept s2 = cs_slept s1 @ map (\<lambda>i. i * 500) [1 ..< 1 + k]"
        "for_user (JStr u) changes new"
        "q2 = Inr () \<longrightarrow> (\<exists>q p. new \<noteq> [] \<and> last new = (q, Inr p) \<and> resp_ok p)"
        by blast
      then show ?thesis using fin ex(3) sl by (intro exI [where x = new] exI [where x = changes]) auto
    qed
  qed
qed

text \<open>
  A message that repeats the stored display name and avatar makes no request when the driver
  parses the \<open>settings\<close> column, as PostgreSQL's does; when it returns the text, as SQLite's does, the
  stored profile is never seen and the request is made again for every message with a name.
\<close>

theorem unchanged_profile_pushed_again:
  assumes "safeParseMessage raw = parsed" "field (field parsed ''payload'') ''matrix_id'' = JStr u"
    "tom_database (cs_db env) ok healthy tab" "ok (cs_store s)" "healthy (cs_store s)" "u \<noteq> []"
    "{# x \<in># tab (cs_store s) ''usersettings''. of_user u x #} = {#x#}"
    "getp x ''settings'' = JStr (str_of (JObj old))" "json_value (JObj old)"
    "primitive (getp old ''display_name'')" "primitive (getp old ''avatar'')"
    "field (field parsed ''payload'') ''display_name'' = getp old ''display_name''"
    "field (field parsed ''payload'') ''avatar'' = getp old ''avatar''"
    "cs_base_url env = Some base" "url_origin base = Some origin" "cs_token env = Some tok"
    "handleMessage env raw s = (r, s')"
  shows "(cs_column env = pg_jsonb \<longrightarrow> r = Inr () \<and> cs_log s' = cs_log s) \<and>
    (cs_column env = (\<lambda>v. v) \<and> getp old ''display_name'' \<noteq> Undef \<longrightarrow> cs_log s' \<noteq> cs_log s)"
proof -
  note p = message_parts [OF assms(2)]
  obtain q s1 where g: "getOrCreateUserSettings env (JStr u) parsed s = (q, s1)" by fastforce
  obtain ex where ex: "q = Inr ex" "ok (cs_store s1)" "healthy (cs_store s1)" "cs_log s1 = cs_log s"
    "case ex of None \<Rightarrow> user_rows (tab (cs_store s) ''usersettings'') u = {#} \<and>
         user_rows (tab (cs_store s1) ''usersettings'') u =
           {#(JStr (str_of (field parsed ''payload'')), stored (field parsed ''version''))#}
     | Some x \<Rightarrow> tab (cs_store s1) = tab (cs_store s) \<and> {# x \<in># tab (cs_store s) ''usersettings''. of_user u x #} = {#x#}"
    by (rule one_row_after_lookup [OF assms(3-5) g assms(6) p(1)])
  have x: "ex = Some x" using ex(5) assms(7) by (cases ex) (auto simp: user_rows_def)
  note h = assms(17) [unfolded handle_valid [OF assms(1,2)] g ex(1) x, simplified]
  have "r = Inr () \<and> cs_log s' = cs_log s" if c: "cs_column env = pg_jsonb"
  proof -
    have "updateUserSettings env (JStr u) parsed s1 = (r, s')"
      using h assms(12,13) changes_parsed [OF assms(8,9) c assms(10,11)] by simp
    from settings_db.update_settings [OF tom_settings [OF assms(3)] refl this ex(2) assms(6) p(1)] show ?thesis
      using ex(3,4) by simp
  qed
  moreover have "cs_log s' \<noteq> cs_log s" if c: "cs_column env = (\<lambda>v. v)" "getp old ''display_name'' \<noteq> Undef"
  proof -
    obtain changes where ch: "profile_changes env (getp old ''display_name'') (getp old ''avatar'') (Some x) = Inr changes" "changes \<noteq> []"
      using changes_text [OF assms(8) c(1)] c(2) by simp
    obtain q2 s2 where t: "updateUserInformationWithRetry env (JStr u) changes s1 = (q2, s2)" by fastforce
    have "retry_from env (JStr u) changes (Suc 2) 1 s1 = (q2, s2)"
      using t by (simp add: updateUserInformationWithRetry_def numeral_3_eq_3)
    from retry_grows [OF this assms(14-16)] have "length (cs_log s1) < length (cs_log s2)" .
    moreover have "cs_log s' = cs_log s2"
      using h ch t assms(12,13) by (cases q2) (auto simp: updateUserSettings_def cs_on_db_def split: if_splits prod.splits sum.splits)
    ultimately show ?thesis using ex(4) by auto
  qed
  ultimately show ?thesis by blast
qed

section \<open>Witnesses\<close>

definition demo_settings :: obj where
  "demo_settings = [(''matrix_id'', JStr ''@ann:x''), (''display_name'', JStr ''Ann'')]"

definition demo_message :: jsval where
  "demo_message = JObj [(''version'', JNum 2), (''payload'', JObj demo_settings)]"

definition demo_settings_row :: obj where
  "demo_settings_row = settings_row ''@ann:x'' (JObj demo_settings) (JNum 7)"

definition demo_cs :: "store cs_st" where
  "demo_cs = \<lparr>cs_store = with_rows tom_store ''usersettings'' [demo_settings_row], cs_log = [], cs_slept = []\<rparr>"

definition demo_cs_env :: "dialect \<Rightarrow> store cs_env" where
  "demo_cs_env dia = \<lparr>cs_db = mem_db dia, cs_column = (case dia of SQLITE \<Rightarrow> (\<lambda>v. v) | PG \<Rightarrow> pg_jsonb),
     cs_net = (\<lambda>log q. Inr \<lparr>hp_status = 500, hp_headers = [], hp_body = []\<rparr>),
     cs_base_url = Some ''https://tom.x/'', cs_token = Some ''syt''\<rparr>"

lemma demo_cs_env_simps: "cs_column (demo_cs_env PG) = pg_jsonb" "cs_column (demo_cs_env SQLITE) = (\<lambda>v. v)"
  "cs_base_url (demo_cs_env dia) = Some ''https://tom.x/''" "cs_token (demo_cs_env dia) = Some ''syt''"
  by (simp_all add: demo_cs_env_def)

lemma demo_cs_tom: "tom_database (cs_db (demo_cs_env dia)) (store_wf tom_tables) store_healthy rows_of"
  by (simp add: demo_cs_env_def mem_tom)

lemma demo_cs_facts: "store_wf tom_tables (cs_store demo_cs)" "store_healthy (cs_store demo_cs)"
  "rows_of (cs_store demo_cs) ''usersettings'' = {#demo_settings_row#}"
proof -
  have t: "store_wf tom_tables (with_rows tom_store ''usersettings'' [demo_settings_row])"
    "rows_of (with_rows tom_store ''usersettings'' [demo_settings_row]) = (rows_of tom_store)(''usersettings'' := mset [demo_settings_row])"
    "faults (with_rows tom_store ''usersettings'' [demo_settings_row]) = faults tom_store"
    by (rule with_rows_ok [OF tom_store_wf];
        simp add: tom_schema_settings settings_cols_def demo_settings_row_def settings_row_def keys_of_def)+
  then show "store_wf tom_tables (cs_store demo_cs)" "store_healthy (cs_store demo_cs)"
    "rows_of (cs_store demo_cs) ''usersettings'' = {#demo_settings_row#}"
    by (simp_all add: demo_cs_def store_healthy_def tom_store_rows)
qed

lemma demo_message_facts: "safeParseMessage (str_of demo_message) = demo_message"
  "field (field demo_message ''payload'') ''matrix_id'' = JStr ''@ann:x''"
  "field demo_message ''payload'' = JObj demo_settings" "field demo_message ''version'' = JNum 2"
  by (simp_all add: safeParseMessage_def demo_message_def demo_settings_def json_parse_str_of field_def)

theorem profile_update_bounded_witness:
  "length (cs_log (snd (handleMessage (demo_cs_env SQLITE) (str_of demo_message) demo_cs))) \<le> 3"
proof -
  obtain r s' where h: "handleMessage (demo_cs_env SQLITE) (str_of demo_message) demo_cs = (r, s')" by fastforce
  have "cs_log demo_cs = []" by (simp add: demo_cs_def)
  then show ?thesis
    using profile_update_bounded [OF demo_message_facts(1,2) demo_cs_tom demo_cs_facts(1,2) _ h] h by auto
qed

theorem unchanged_profile_pushed_again_witness:
  "cs_log (snd (handleMessage (demo_cs_env PG) (str_of demo_message) demo_cs)) = [] \<and>
   cs_log (snd (handleMessage (demo_cs_env SQLITE) (str_of demo_message) demo_cs)) \<noteq> []"
proof -
  have f: "{# x \<in># rows_of (cs_store demo_cs) ''usersettings''. of_user ''@ann:x'' x #} = {#demo_settings_row#}"
    "getp demo_settings_row ''settings'' = JStr (str_of (JObj demo_settings))"
    by (simp_all add: demo_cs_facts demo_settings_row_def settings_row_def of_user_def sql_eq_def)
  have v: "json_value (JObj demo_settings)" "primitive (getp demo_settings ''display_name'')" "primitive (getp demo_settings ''avatar'')"
    "field (field demo_message ''payload'') ''display_name'' = getp demo_settings ''display_name''"
    "field (field demo_message ''payload'') ''avatar'' = getp demo_settings ''avatar''"
    "getp demo_settings ''display_name'' \<noteq> Undef"
    by (simp_all add: demo_settings_def demo_message_def primitive_def field_def)
  have o: "url_origin ''https://tom.x/'' = Some ''https://tom.x''" "cs_log demo_cs = []" by (code_simp, simp add: demo_cs_def)
  have u: "''@ann:x'' \<noteq> ([] :: string)" by simp
  have r: "(cs_column (demo_cs_env dia) = pg_jsonb \<longrightarrow> cs_log (snd (handleMessage (demo_cs_env dia) (str_of demo_message) demo_cs)) = []) \<and>
      (cs_column (demo_cs_env dia) = (\<lambda>v. v) \<longrightarrow> cs_log (snd (handleMessage (demo_cs_env dia) (str_of demo_message) demo_cs)) \<noteq> [])" for dia
    using unchanged_profile_pushed_again [OF demo_message_facts(1,2) demo_cs_tom demo_cs_facts(1,2) u f v(1-5)
        demo_cs_env_simps(3) o(1) demo_cs_env_simps(4), of dia] v(6) o(2)
    by (metis prod.collapse)
  show ?thesis using r [of PG] r [of SQLITE] by (simp add: demo_cs_env_simps)
qed

end
