(* ===== verification/Amqp.thy ===== *)
theory Amqp
  imports CommonSettings Complex_Main
begin

text \<open>
  The connector of the message queue (\<open>packages/amqp-connector/src/index.ts\<close>): connecting, the set-up
  of the channel, the clean-up, the reconnection with its back-off, and the consumer of messages.
  Its methods wait at many points, so they are tasks of a pool: every step resumes one task with the
  answer of the broker, fires a timer, delivers a close event to a handler that was installed, or
  calls \<open>build\<close> or \<open>close\<close>.  The broker is unconstrained: any call may succeed or fail.
\<close>

text \<open>The address of the broker that \<open>withConfig\<close> builds; the virtual host goes in as it is.\<close>

definition withConfig :: "bool \<Rightarrow> string \<Rightarrow> string \<Rightarrow> string \<Rightarrow> nat \<Rightarrow> string \<Rightarrow> string" where
  "withConfig tls username password host port vhost =
     (if tls then ''amqps'' else ''amqp'') @ ''://'' @ encodeURIComponent username @ '':'' @ encodeURIComponent password @
     ''@'' @ host @ '':'' @ nat_str port @ ''/'' @ vhost"

datatype connection_state = Disconnected | CsConnecting | Connected | Reconnecting

record amqp_config =
  ac_exchange :: "string option"
  ac_queue :: "string option"
  ac_handler :: bool
  ac_enabled :: bool
  ac_initialDelay :: int
  ac_maxDelay :: int
  ac_maxRetries :: nat
  ac_multiplier :: int
  ac_random :: "nat \<Rightarrow> rat"

text \<open>
  The fields of the object (\<open>q_timer\<close> is \<open>reconnectTimeoutId\<close>) and, below them, what the runtime
  knows: the timers that will fire, the connections and channels whose handlers are installed, the
  next identifier, the delays of the timers.
\<close>

record amqp =
  q_connection :: "nat option"
  q_channel :: "nat option"
  q_consumer :: bool
  q_state :: connection_state
  q_attempts :: nat
  q_timer :: "nat option"
  q_closing :: bool
  q_timers :: "nat list"
  q_watched :: "nat list"
  q_watched_channels :: "nat list"
  q_fresh :: nat
  q_delays :: "int list"

definition amqp_init :: amqp where
  "amqp_init = \<lparr>q_connection = None, q_channel = None, q_consumer = False, q_state = Disconnected, q_attempts = 0,
     q_timer = None, q_closing = False, q_timers = [], q_watched = [], q_watched_channels = [], q_fresh = 0, q_delays = []\<rparr>"

text \<open>
  Where a method waits.  \<open>setupChannel\<close> is called by \<open>build\<close>, by \<open>attemptReconnection\<close> and by the
  close handler of a channel; \<open>cleanupResources\<close> by \<open>close\<close>, when a close came in between, and after
  a failure.
\<close>

datatype caller = Build | Reconnect | Recreate

datatype setup_stage = CreateChannel | AssertExchange | AssertQueue | BindQueue | Consume

datatype cleaner = Closed | Superseded | Failed caller

datatype clean_stage = CancelConsumer | CloseChannel | CloseConnection

datatype amqp_task = Connect caller | Setup caller setup_stage | Clean cleaner clean_stage

section \<open>Scheduling a reconnection\<close>

definition calculateReconnectDelay :: "amqp_config \<Rightarrow> nat \<Rightarrow> rat \<Rightarrow> int" where
  "calculateReconnectDelay cfg attempts random =
     (let delay = min (ac_initialDelay cfg * ac_multiplier cfg ^ attempts) (ac_maxDelay cfg)
      in \<lfloor>of_int delay + of_int delay / 10 * random\<rfloor>)"

definition scheduleReconnection :: "amqp_config \<Rightarrow> amqp \<Rightarrow> amqp" where
  "scheduleReconnection cfg s =
     (if 0 < ac_maxRetries cfg \<and> ac_maxRetries cfg \<le> q_attempts s then s\<lparr>q_state := Disconnected\<rparr>
      else s\<lparr>q_delays := q_delays s @ [calculateReconnectDelay cfg (q_attempts s) (ac_random cfg (length (q_delays s)))],
             q_attempts := Suc (q_attempts s), q_state := Reconnecting, q_timer := Some (q_fresh s),
             q_timers := q_timers s @ [q_fresh s], q_fresh := Suc (q_fresh s)\<rparr>)"

definition clearTimer :: "amqp \<Rightarrow> amqp" where
  "clearTimer s =
     (case q_timer s of None \<Rightarrow> s | Some t \<Rightarrow> s\<lparr>q_timers := removeAll t (q_timers s), q_timer := None\<rparr>)"

section \<open>Clean-up\<close>

definition close_channel :: "cleaner \<Rightarrow> amqp \<Rightarrow> amqp_task list \<times> amqp" where
  "close_channel why s = ([Clean why CloseChannel], clearTimer s)"

definition cleanupResources :: "cleaner \<Rightarrow> amqp \<Rightarrow> amqp_task list \<times> amqp" where
  "cleanupResources why s =
     (if q_consumer s \<and> q_channel s \<noteq> None then ([Clean why CancelConsumer], s) else close_channel why s)"

text \<open>The continuation of a clean-up stage; failures of the broker are ignored.\<close>

fun cleaned :: "amqp_config \<Rightarrow> cleaner \<Rightarrow> clean_stage \<Rightarrow> amqp \<Rightarrow> amqp_task list \<times> amqp" where
  "cleaned cfg why CancelConsumer s = close_channel why (s\<lparr>q_consumer := False\<rparr>)"
| "cleaned cfg why CloseChannel s = ([Clean why CloseConnection], s)"
| "cleaned cfg why CloseConnection s =
     (let s1 = s\<lparr>q_channel := None, q_connection := None, q_state := Disconnected\<rparr>
      in ([], if why = Failed Reconnect then scheduleReconnection cfg s1 else s1))"

section \<open>Setting up the channel\<close>

definition setup_failed :: "amqp_config \<Rightarrow> caller \<Rightarrow> amqp \<Rightarrow> amqp_task list \<times> amqp" where
  "setup_failed cfg by s =
     (if by = Recreate
      then ([], if \<not> q_closing s \<and> ac_enabled cfg then scheduleReconnection cfg s else s)
      else cleanupResources (Failed by) s)"

definition setup_done :: "amqp_config \<Rightarrow> caller \<Rightarrow> amqp \<Rightarrow> amqp_task list \<times> amqp" where
  "setup_done cfg by s =
     (if by = Recreate then ([], s)
      else if q_closing s then cleanupResources Superseded s
      else ([], s\<lparr>q_watched := (case q_connection s of None \<Rightarrow> q_watched s | Some c \<Rightarrow> q_watched s @ [c]),
                  q_attempts := (if by = Reconnect then 0 else q_attempts s), q_state := Connected\<rparr>))"

definition setupChannel :: "amqp_config \<Rightarrow> caller \<Rightarrow> amqp \<Rightarrow> amqp_task list \<times> amqp" where
  "setupChannel cfg by s =
     (if q_connection s = None \<or> ac_exchange cfg = None \<or> ac_queue cfg = None then setup_failed cfg by s
      else ([Setup by CreateChannel], s))"

text \<open>The next call on \<open>this.channel\<close>, which throws when a close event has removed the channel.\<close>

definition on_channel :: "amqp_config \<Rightarrow> caller \<Rightarrow> setup_stage \<Rightarrow> amqp \<Rightarrow> amqp_task list \<times> amqp" where
  "on_channel cfg by stage s =
     (if q_channel s = None then setup_failed cfg by s else ([Setup by stage], s))"

fun set_up :: "amqp_config \<Rightarrow> caller \<Rightarrow> setup_stage \<Rightarrow> amqp \<Rightarrow> amqp_task list \<times> amqp" where
  "set_up cfg by CreateChannel s =
     on_channel cfg by AssertExchange (s\<lparr>q_channel := Some (q_fresh s), q_fresh := Suc (q_fresh s)\<rparr>)"
| "set_up cfg by AssertExchange s = on_channel cfg by AssertQueue s"
| "set_up cfg by AssertQueue s = on_channel cfg by BindQueue s"
| "set_up cfg by BindQueue s = on_channel cfg by Consume s"
| "set_up cfg by Consume s =
     (let s1 = s\<lparr>q_consumer := True\<rparr>
      in case q_channel s of
           None \<Rightarrow> setup_failed cfg by s1
         | Some h \<Rightarrow> setup_done cfg by (s1\<lparr>q_watched_channels := q_watched_channels s @ [h]\<rparr>))"

section \<open>The methods and the handlers\<close>

definition build :: "amqp_config \<Rightarrow> amqp \<Rightarrow> amqp_task list result \<times> amqp" where
  "build cfg s =
     (if ac_exchange cfg = None then (Inl (Err ''Exchange must be specified''), s)
      else if ac_queue cfg = None then (Inl (Err ''Queue must be specified''), s)
      else if \<not> ac_handler cfg then (Inl (Err ''Message handler must be provided''), s)
      else (Inr [Connect Build], (clearTimer s)\<lparr>q_closing := False, q_attempts := 0, q_state := CsConnecting\<rparr>))"

definition close :: "amqp \<Rightarrow> amqp_task list \<times> amqp" where
  "close s = cleanupResources Closed (s\<lparr>q_closing := True\<rparr>)"

definition attemptReconnection :: "amqp \<Rightarrow> amqp_task list \<times> amqp" where
  "attemptReconnection s = (if q_closing s then ([], s) else ([Connect Reconnect], s\<lparr>q_state := CsConnecting\<rparr>))"

definition connection_closed :: "amqp_config \<Rightarrow> amqp \<Rightarrow> amqp" where
  "connection_closed cfg s =
     (let s1 = s\<lparr>q_state := Disconnected, q_channel := None, q_connection := None, q_consumer := False\<rparr>
      in if \<not> q_closing s \<and> ac_enabled cfg then scheduleReconnection cfg s1 else s1)"

definition channel_closed :: "amqp_config \<Rightarrow> amqp \<Rightarrow> amqp_task list \<times> amqp" where
  "channel_closed cfg s =
     (let s1 = s\<lparr>q_channel := None, q_consumer := False\<rparr>
      in if \<not> q_closing s \<and> q_connection s \<noteq> None then setupChannel cfg Recreate s1 else ([], s1))"

fun resume_task :: "amqp_config \<Rightarrow> bool \<Rightarrow> amqp_task \<Rightarrow> amqp \<Rightarrow> amqp_task list \<times> amqp" where
  "resume_task cfg answered (Connect by) s =
     (if answered
      then setupChannel cfg by (s\<lparr>q_connection := Some (q_fresh s), q_fresh := Suc (q_fresh s)\<rparr>)
      else setup_failed cfg by s)"
| "resume_task cfg answered (Setup by stage) s =
     (if answered then set_up cfg by stage s else setup_failed cfg by s)"
| "resume_task cfg answered (Clean why stage) s = cleaned cfg why stage s"

text \<open>The pool: the tasks that wait and the state of the connector.\<close>

inductive amqp_step :: "amqp_config \<Rightarrow> amqp_task list \<times> amqp \<Rightarrow> amqp_task list \<times> amqp \<Rightarrow> bool" for cfg where
  call_build: "build cfg s = (Inr us, s') \<Longrightarrow> amqp_step cfg (ts, s) (ts @ us, s')"
| call_close: "close s = (us, s') \<Longrightarrow> amqp_step cfg (ts, s) (ts @ us, s')"
| resume: "resume_task cfg answered t s = (us, s') \<Longrightarrow> amqp_step cfg (ts @ t # ts', s) (ts @ us @ ts', s')"
| fire: "t \<in> set (q_timers s) \<Longrightarrow> attemptReconnection (s\<lparr>q_timers := remove1 t (q_timers s)\<rparr>) = (us, s') \<Longrightarrow>
    amqp_step cfg (ts, s) (ts @ us, s')"
| connection_event: "c \<in> set (q_watched s) \<Longrightarrow>
    amqp_step cfg (ts, s) (ts, connection_closed cfg (s\<lparr>q_watched := remove1 c (q_watched s)\<rparr>))"
| channel_event: "h \<in> set (q_watched_channels s) \<Longrightarrow>
    channel_closed cfg (s\<lparr>q_watched_channels := remove1 h (q_watched_channels s)\<rparr>) = (us, s') \<Longrightarrow>
    amqp_step cfg (ts, s) (ts @ us, s')"

inductive amqp_reach :: "amqp_config \<Rightarrow> amqp_task list \<times> amqp \<Rightarrow> bool" for cfg where
  start: "amqp_reach cfg ([], amqp_init)"
| more: "amqp_reach cfg w \<Longrightarrow> amqp_step cfg w w' \<Longrightarrow> amqp_reach cfg w'"

lemma amqp_reach_inv:
  assumes "amqp_reach cfg w" "\<And>w w'. amqp_step cfg w w' \<Longrightarrow> P w \<Longrightarrow> P w'" "P ([], amqp_init)"
  shows "P w"
  using assms(1) by induction (auto intro: assms(2,3))

section \<open>Messages\<close>

datatype verdict = Ignored | Acked nat | Nacked nat

text \<open>
  The consumer: \<open>null\<close> messages and messages without a channel are left alone; the channel is
  the one at the delivery; a failing handler rejects the message for good (no requeue).
\<close>

definition consume_message :: "(string \<Rightarrow> 'st \<Rightarrow> unit result \<times> 'st) \<Rightarrow> nat option \<Rightarrow> string option \<Rightarrow> 'st \<Rightarrow> verdict \<times> 'st" where
  "consume_message handler channel msg s =
     (case (msg, channel) of
        (Some m, Some h) \<Rightarrow> (case handler m s of (Inr _, s1) \<Rightarrow> (Acked h, s1) | (Inl _, s1) \<Rightarrow> (Nacked h, s1))
      | _ \<Rightarrow> (Ignored, s))"

section \<open>Attempts and delays\<close>

text \<open>\<open>Math.random\<close> and the options as they are meant: no negative number, at least a factor of one.\<close>

definition sane_config :: "amqp_config \<Rightarrow> bool" where
  "sane_config cfg \<longleftrightarrow> 0 \<le> ac_initialDelay cfg \<and> 1 \<le> ac_multiplier cfg \<and> 0 \<le> ac_maxDelay cfg \<and>
     (\<forall>n. 0 \<le> ac_random cfg n \<and> ac_random cfg n < 1)"

lemma delay_bounds:
  assumes "sane_config cfg"
  shows "min (ac_initialDelay cfg) (ac_maxDelay cfg) \<le> calculateReconnectDelay cfg k (ac_random cfg n)"
    "10 * calculateReconnectDelay cfg k (ac_random cfg n) \<le> 11 * ac_maxDelay cfg"
proof -
  let ?i = "ac_initialDelay cfg" and ?m = "ac_maxDelay cfg" and ?r = "ac_random cfg n"
  define d where "d = min (?i * ac_multiplier cfg ^ k) ?m"
  have c: "calculateReconnectDelay cfg k ?r = \<lfloor>of_int d + of_int d / 10 * ?r\<rfloor>"
    by (simp add: calculateReconnectDelay_def d_def Let_def)
  have s: "0 \<le> ?i" "1 \<le> ac_multiplier cfg" "0 \<le> ?m" "0 \<le> ?r" "?r < 1" using assms by (auto simp: sane_config_def)
  have "1 \<le> ac_multiplier cfg ^ k" using s(2) by simp
  then have "?i * 1 \<le> ?i * ac_multiplier cfg ^ k" using s(1) by (intro mult_left_mono) simp_all
  then have d: "min ?i ?m \<le> d" "d \<le> ?m" "0 \<le> d" using s(1,3) by (auto simp: d_def)
  have j: "0 \<le> of_int d / 10 * ?r" "of_int d / 10 * ?r \<le> of_int d / 10"
    using d(3) s(4,5) by (auto intro: mult_left_le)
  have f: "d \<le> \<lfloor>of_int d + of_int d / 10 * ?r\<rfloor>" using j(1) by (simp only: le_floor_iff le_add_same_cancel1)
  show "min ?i ?m \<le> calculateReconnectDelay cfg k ?r" unfolding c by (rule order_trans [OF d(1) f])
  have "(of_int \<lfloor>of_int d + of_int d / 10 * ?r\<rfloor> :: rat) \<le> of_int d + of_int d / 10"
    using j(2) of_int_floor_le [of "of_int d + of_int d / 10 * ?r"] by linarith
  then have "(of_int (10 * \<lfloor>of_int d + of_int d / 10 * ?r\<rfloor>) :: rat) \<le> of_int (11 * d)" by simp
  then have "10 * \<lfloor>of_int d + of_int d / 10 * ?r\<rfloor> \<le> 11 * d" by (simp only: of_int_le_iff)
  then show "10 * calculateReconnectDelay cfg k ?r \<le> 11 * ?m" unfolding c using d(2) by simp
qed

definition amqp_ok :: "amqp_config \<Rightarrow> amqp \<Rightarrow> bool" where
  "amqp_ok cfg s \<longleftrightarrow> (0 < ac_maxRetries cfg \<longrightarrow> q_attempts s \<le> ac_maxRetries cfg) \<and>
     (\<forall>d \<in> set (q_delays s). min (ac_initialDelay cfg) (ac_maxDelay cfg) \<le> d \<and> 10 * d \<le> 11 * ac_maxDelay cfg)"

lemma schedule_ok: "sane_config cfg \<Longrightarrow> amqp_ok cfg s \<Longrightarrow> amqp_ok cfg (scheduleReconnection cfg s)"
  using delay_bounds by (auto simp: amqp_ok_def scheduleReconnection_def)

lemma clear_fields [simp]: "q_attempts (clearTimer s) = q_attempts s" "q_delays (clearTimer s) = q_delays s"
  "q_state (clearTimer s) = q_state s" "q_closing (clearTimer s) = q_closing s" "q_connection (clearTimer s) = q_connection s"
  by (simp_all add: clearTimer_def split: option.splits)

lemma amqp_ok_cong: "q_attempts s' = q_attempts s \<or> q_attempts s' = 0 \<Longrightarrow> q_delays s' = q_delays s \<Longrightarrow> amqp_ok cfg s \<Longrightarrow> amqp_ok cfg s'"
  by (auto simp: amqp_ok_def)

lemma cleanup_ok: "cleanupResources why s = (us, s') \<Longrightarrow> q_attempts s' = q_attempts s \<and> q_delays s' = q_delays s"
  by (auto simp: cleanupResources_def close_channel_def split: if_splits)

lemma setup_failed_ok: "setup_failed cfg by s = (us, s') \<Longrightarrow> sane_config cfg \<Longrightarrow> amqp_ok cfg s \<Longrightarrow> amqp_ok cfg s'"
  by (auto simp: setup_failed_def dest: cleanup_ok intro: schedule_ok amqp_ok_cong split: if_splits)

lemma setup_done_ok: "setup_done cfg by s = (us, s') \<Longrightarrow> amqp_ok cfg s \<Longrightarrow> amqp_ok cfg s'"
  by (auto simp: setup_done_def dest: cleanup_ok intro: amqp_ok_cong split: if_splits)

lemma setupChannel_ok: "setupChannel cfg by s = (us, s') \<Longrightarrow> sane_config cfg \<Longrightarrow> amqp_ok cfg s \<Longrightarrow> amqp_ok cfg s'"
  by (auto simp: setupChannel_def dest: setup_failed_ok split: if_splits)

lemma amqp_ok_fields [simp]:
  "amqp_ok cfg (s\<lparr>q_channel := h\<rparr>) = amqp_ok cfg s" "amqp_ok cfg (s\<lparr>q_fresh := n\<rparr>) = amqp_ok cfg s"
  "amqp_ok cfg (s\<lparr>q_consumer := b\<rparr>) = amqp_ok cfg s" "amqp_ok cfg (s\<lparr>q_connection := c\<rparr>) = amqp_ok cfg s"
  "amqp_ok cfg (s\<lparr>q_state := x\<rparr>) = amqp_ok cfg s" "amqp_ok cfg (s\<lparr>q_closing := b\<rparr>) = amqp_ok cfg s"
  "amqp_ok cfg (s\<lparr>q_timers := tm\<rparr>) = amqp_ok cfg s" "amqp_ok cfg (s\<lparr>q_watched := w\<rparr>) = amqp_ok cfg s"
  "amqp_ok cfg (s\<lparr>q_watched_channels := w\<rparr>) = amqp_ok cfg s" "amqp_ok cfg (clearTimer s) = amqp_ok cfg s"
  by (simp_all add: amqp_ok_def)

lemma on_channel_ok: "on_channel cfg by st s = (us, s') \<Longrightarrow> sane_config cfg \<Longrightarrow> amqp_ok cfg s \<Longrightarrow> amqp_ok cfg s'"
  by (auto simp: on_channel_def dest: setup_failed_ok split: if_splits)

lemma set_up_ok: "set_up cfg by st s = (us, s') \<Longrightarrow> sane_config cfg \<Longrightarrow> amqp_ok cfg s \<Longrightarrow> amqp_ok cfg s'"
  by (cases st) (auto simp: Let_def dest: on_channel_ok setup_failed_ok setup_done_ok split: option.splits)

lemma cleaned_ok: "cleaned cfg why st s = (us, s') \<Longrightarrow> sane_config cfg \<Longrightarrow> amqp_ok cfg s \<Longrightarrow> amqp_ok cfg s'"
  by (cases st) (auto simp: Let_def close_channel_def intro!: schedule_ok split: if_splits)

lemma resume_task_ok: "resume_task cfg a t s = (us, s') \<Longrightarrow> sane_config cfg \<Longrightarrow> amqp_ok cfg s \<Longrightarrow> amqp_ok cfg s'"
  by (cases t) (auto dest: setupChannel_ok setup_failed_ok set_up_ok cleaned_ok split: if_splits)

text \<open>
  C33: Whatever the broker does and whoever calls \<open>build\<close> and \<open>close\<close> when, the number of reconnection
  attempts since the last success never exceeds the configured maximum (unless it is 0, for no
  limit), and every delay lies between the initial one and the maximal one plus a tenth.
\<close>

theorem reconnection_bounded:
  assumes "sane_config cfg" "amqp_reach cfg (ts, s)"
  shows "(0 < ac_maxRetries cfg \<longrightarrow> q_attempts s \<le> ac_maxRetries cfg) \<and>
    (\<forall>d \<in> set (q_delays s). min (ac_initialDelay cfg) (ac_maxDelay cfg) \<le> d \<and> 10 * d \<le> 11 * ac_maxDelay cfg)"
proof -
  have "amqp_step cfg w w' \<Longrightarrow> amqp_ok cfg (snd w) \<Longrightarrow> amqp_ok cfg (snd w')" for w w'
  proof (induction rule: amqp_step.induct)
    case (call_build s us s' ts)
    then show ?case by (auto simp: build_def amqp_ok_def split: if_splits)
  next
    case (connection_event c s ts)
    then show ?case using assms(1) by (auto simp: connection_closed_def Let_def intro: schedule_ok)
  next
    case (channel_event h s us s' ts)
    then show ?case using assms(1) by (auto simp: channel_closed_def Let_def dest: setupChannel_ok split: if_splits)
  qed (use assms(1) in \<open>auto simp: close_def attemptReconnection_def dest: cleanup_ok resume_task_ok intro: amqp_ok_cong split: if_splits\<close>)
  then have "amqp_ok cfg (snd (ts, s))"
    by (rule amqp_reach_inv [OF assms(2)]) (simp_all add: amqp_ok_def amqp_init_def)
  then show ?thesis by (simp add: amqp_ok_def)
qed

text \<open>A clean-up that has cleared the timer and will set the state.\<close>

fun clearing :: "amqp_task \<Rightarrow> bool" where
  "clearing (Clean why st) = (st \<noteq> CancelConsumer)"
| "clearing _ = False"

definition will_move :: "amqp_task list \<Rightarrow> amqp \<Rightarrow> bool" where
  "will_move ts s \<longleftrightarrow> (q_state s = Reconnecting \<longrightarrow> q_timers s \<noteq> [] \<or> q_closing s \<or> list_ex clearing ts)"

lemma schedule_moves: "will_move ts (scheduleReconnection cfg s)"
  by (auto simp: will_move_def scheduleReconnection_def)

lemma will_move_more: "will_move ts s \<Longrightarrow> set ts \<subseteq> set ts' \<Longrightarrow> will_move ts' s"
  by (auto simp: will_move_def list_ex_iff)

lemma cleanup_moves: "cleanupResources why s = (us, s') \<Longrightarrow> will_move ts s \<Longrightarrow> will_move (us @ ts) s'"
  by (auto simp: cleanupResources_def close_channel_def will_move_def split: if_splits)

lemma setup_failed_moves: "setup_failed cfg by s = (us, s') \<Longrightarrow> will_move ts s \<Longrightarrow> will_move (us @ ts) s'"
  by (auto simp: setup_failed_def dest: cleanup_moves intro: schedule_moves split: if_splits)

lemma setup_done_moves: "setup_done cfg by s = (us, s') \<Longrightarrow> will_move ts s \<Longrightarrow> will_move (us @ ts) s'"
  by (auto simp: setup_done_def dest: cleanup_moves split: if_splits) (auto simp: will_move_def)

lemma will_move_drop: "\<not> clearing t \<Longrightarrow> will_move (t # ts) s = will_move ts s"
  by (simp add: will_move_def)

lemma will_move_fields [simp]:
  "will_move ts (s\<lparr>q_channel := h\<rparr>) = will_move ts s" "will_move ts (s\<lparr>q_fresh := n\<rparr>) = will_move ts s"
  "will_move ts (s\<lparr>q_consumer := b\<rparr>) = will_move ts s" "will_move ts (s\<lparr>q_connection := c\<rparr>) = will_move ts s"
  "will_move ts (s\<lparr>q_watched := w\<rparr>) = will_move ts s" "will_move ts (s\<lparr>q_watched_channels := w\<rparr>) = will_move ts s"
  by (simp_all add: will_move_def)

lemma setupChannel_moves: "setupChannel cfg by s = (us, s') \<Longrightarrow> will_move ts s \<Longrightarrow> will_move (us @ ts) s'"
  by (auto simp: setupChannel_def dest: setup_failed_moves intro: will_move_more split: if_splits)

lemma on_channel_moves: "on_channel cfg by st s = (us, s') \<Longrightarrow> will_move ts s \<Longrightarrow> will_move (us @ ts) s'"
  by (auto simp: on_channel_def dest: setup_failed_moves intro: will_move_more split: if_splits)

lemma set_up_moves: "set_up cfg by st s = (us, s') \<Longrightarrow> will_move ts s \<Longrightarrow> will_move (us @ ts) s'"
  by (cases st) (auto simp: Let_def dest: on_channel_moves setup_failed_moves setup_done_moves split: option.splits)

lemma cleaned_moves: "cleaned cfg why st s = (us, s') \<Longrightarrow> will_move (Clean why st # ts) s \<Longrightarrow> will_move (us @ ts) s'"
  by (cases st) (auto simp: Let_def close_channel_def will_move_def scheduleReconnection_def split: if_splits)

lemma resume_task_moves: "resume_task cfg a t s = (us, s') \<Longrightarrow> will_move (t # ts) s \<Longrightarrow> will_move (us @ ts) s'"
proof (cases t)
  case (Clean why st)
  then show "resume_task cfg a t s = (us, s') \<Longrightarrow> will_move (t # ts) s \<Longrightarrow> will_move (us @ ts) s'"
    using cleaned_moves by auto
qed (auto simp: will_move_drop dest: setupChannel_moves setup_failed_moves set_up_moves split: if_splits)

text \<open>
  C30: The connector is never stuck reconnecting: in every reachable state in which it says that it is
  reconnecting, a timer is set that will start the next attempt, or a clean-up is under way that
  ends with setting the state, unless \<open>close\<close> was called.
\<close>

theorem reconnecting_has_timer:
  assumes "amqp_reach cfg (ts, s)" "q_state s = Reconnecting" "\<not> q_closing s"
  shows "q_timers s \<noteq> [] \<or> (\<exists>why st. Clean why st \<in> set ts \<and> st \<noteq> CancelConsumer)"
proof -
  have "amqp_step cfg w w' \<Longrightarrow> will_move (fst w) (snd w) \<Longrightarrow> will_move (fst w') (snd w')" for w w'
  proof (induction rule: amqp_step.induct)
    case (call_build s us s' ts)
    then show ?case by (auto simp: build_def will_move_def split: if_splits)
  next
    case (call_close s us s' ts)
    have "will_move (us @ ts) s'"
      by (rule cleanup_moves [OF call_close(1) [unfolded close_def]]) (simp add: will_move_def)
    then show ?case by (auto intro: will_move_more)
  next
    case (resume answered t s us s' ts ts')
    have "will_move (us @ ts @ ts') s'"
      by (rule resume_task_moves [OF resume(1)]) (use resume(2) in \<open>auto intro: will_move_more\<close>)
    then show ?case by (auto intro: will_move_more)
  next
    case (channel_event h s us s' ts)
    let ?s1 = "s\<lparr>q_watched_channels := remove1 h (q_watched_channels s), q_channel := None, q_consumer := False\<rparr>"
    have "setupChannel cfg Recreate ?s1 = (us, s') \<or> us = [] \<and> s' = ?s1"
      using channel_event(2) by (auto simp: channel_closed_def Let_def split: if_splits)
    moreover have "will_move ts ?s1" using channel_event(3) by simp
    ultimately have "will_move (us @ ts) s'" using setupChannel_moves by auto
    then show ?case by (auto intro: will_move_more)
  qed (auto simp: attemptReconnection_def connection_closed_def will_move_def scheduleReconnection_def Let_def split: if_splits)
  then have "will_move (fst (ts, s)) (snd (ts, s))"
    by (rule amqp_reach_inv [OF assms(1)]) (simp_all add: will_move_def amqp_init_def)
  then show ?thesis using assms(2,3) by (auto simp: will_move_def list_ex_iff elim!: clearing.elims)
qed

section \<open>Runs\<close>

text \<open>Steps given by number, to compute runs.\<close>

datatype action = DoBuild | DoClose | DoResume nat bool | DoFire nat | DoConnection nat | DoChannel nat

fun amqp_do :: "amqp_config \<Rightarrow> action \<Rightarrow> amqp_task list \<times> amqp \<Rightarrow> (amqp_task list \<times> amqp) option" where
  "amqp_do cfg DoBuild (ts, s) = (case build cfg s of (Inr us, s') \<Rightarrow> Some (ts @ us, s') | _ \<Rightarrow> None)"
| "amqp_do cfg DoClose (ts, s) = (case close s of (us, s') \<Rightarrow> Some (ts @ us, s'))"
| "amqp_do cfg (DoResume n answered) (ts, s) =
     (if n < length ts then (case resume_task cfg answered (ts ! n) s of
        (us, s') \<Rightarrow> Some (take n ts @ us @ drop (Suc n) ts, s')) else None)"
| "amqp_do cfg (DoFire t) (ts, s) =
     (if t \<in> set (q_timers s) then (case attemptReconnection (s\<lparr>q_timers := remove1 t (q_timers s)\<rparr>) of
        (us, s') \<Rightarrow> Some (ts @ us, s')) else None)"
| "amqp_do cfg (DoConnection c) (ts, s) =
     (if c \<in> set (q_watched s) then Some (ts, connection_closed cfg (s\<lparr>q_watched := remove1 c (q_watched s)\<rparr>)) else None)"
| "amqp_do cfg (DoChannel h) (ts, s) =
     (if h \<in> set (q_watched_channels s)
      then (case channel_closed cfg (s\<lparr>q_watched_channels := remove1 h (q_watched_channels s)\<rparr>) of
              (us, s') \<Rightarrow> Some (ts @ us, s')) else None)"

fun amqp_run :: "amqp_config \<Rightarrow> action list \<Rightarrow> amqp_task list \<times> amqp \<Rightarrow> (amqp_task list \<times> amqp) option" where
  "amqp_run cfg [] w = Some w"
| "amqp_run cfg (a # as) w = (case amqp_do cfg a w of None \<Rightarrow> None | Some w' \<Rightarrow> amqp_run cfg as w')"

lemma amqp_do_step: "amqp_do cfg a w = Some w' \<Longrightarrow> amqp_step cfg w w'"
proof (induction cfg a w rule: amqp_do.induct)
  case (3 cfg n answered ts s)
  then have n: "n < length ts" "(case resume_task cfg answered (ts ! n) s of (us, s') \<Rightarrow> (take n ts @ us @ drop (Suc n) ts, s')) = w'"
    by (auto split: if_splits prod.splits)
  obtain us s' where r: "resume_task cfg answered (ts ! n) s = (us, s')" by fastforce
  have "amqp_step cfg (take n ts @ ts ! n # drop (Suc n) ts, s) (take n ts @ us @ drop (Suc n) ts, s')"
    by (rule amqp_step.resume [OF r])
  then show ?case using n r by (simp add: id_take_nth_drop [symmetric])
qed (auto split: if_splits prod.splits sum.splits intro: amqp_step.intros)

lemma amqp_run_reach: "amqp_run cfg as w = Some w' \<Longrightarrow> amqp_reach cfg w \<Longrightarrow> amqp_reach cfg w'"
  by (induction cfg as w rule: amqp_run.induct) (auto dest: amqp_do_step intro: amqp_reach.more split: option.splits)

lemma run_ends:
  "(case amqp_run cfg as ([], amqp_init) of None \<Rightarrow> False | Some (ts, s) \<Rightarrow> ts = [] \<and> P s) \<Longrightarrow>
   \<exists>s. amqp_reach cfg ([], s) \<and> P s"
  using amqp_run_reach [of cfg as "([], amqp_init)"] amqp_reach.start [of cfg] by (auto split: option.splits)

definition demo_amqp :: amqp_config where
  "demo_amqp = \<lparr>ac_exchange = Some ''settings'', ac_queue = Some ''tom'', ac_handler = True, ac_enabled = True,
     ac_initialDelay = 1000, ac_maxDelay = 30000, ac_maxRetries = 5, ac_multiplier = 2, ac_random = (\<lambda>n. 0)\<rparr>"

definition connected_run :: "action list" where
  "connected_run = [DoBuild, DoResume 0 True, DoResume 0 True, DoResume 0 True, DoResume 0 True, DoResume 0 True, DoResume 0 True]"

text \<open>
  One lost connection makes the connector reconnect twice.  The channel reports its end first
  and is set up again on the dying connection; the connection reports its end and schedules a
  reconnection; the set-up fails and schedules another one.  Both succeed: two connections with a
  consumer each are open, and the connector knows the second one only.
\<close>

theorem connection_loss_reconnects_twice:
  "\<exists>s. amqp_reach demo_amqp ([], s) \<and> q_state s = Connected \<and> q_timers s = [] \<and>
     length (q_watched s) = 2 \<and> length (q_watched_channels s) = 2 \<and> q_connection s = Some (last (q_watched s))"
proof -
  let ?run = "connected_run @ [DoChannel 1, DoConnection 0, DoResume 0 False, DoFire 2, DoFire 3,
      DoResume 0 True, DoResume 0 True, DoResume 0 True, DoResume 0 True, DoResume 0 True, DoResume 0 True,
      DoResume 0 True, DoResume 0 True, DoResume 0 True, DoResume 0 True, DoResume 0 True, DoResume 0 True]"
  have "case amqp_run demo_amqp ?run ([], amqp_init) of None \<Rightarrow> False | Some (ts, s) \<Rightarrow>
      ts = [] \<and> q_state s = Connected \<and> q_timers s = [] \<and>
      length (q_watched s) = 2 \<and> length (q_watched_channels s) = 2 \<and> q_connection s = Some (last (q_watched s))"
    by code_simp
  from run_ends [OF this] show ?thesis .
qed

text \<open>After \<open>close\<close>, a failing attempt that was under way leaves the connector reconnecting for ever.\<close>

lemma reconnecting_after_close:
  "\<exists>s. amqp_reach demo_amqp ([], s) \<and> q_closing s \<and> q_state s = Reconnecting \<and> q_timers s = []"
proof -
  let ?run = "connected_run @ [DoConnection 0, DoFire 2, DoClose, DoResume 1 True, DoResume 1 True,
      DoResume 0 False, DoResume 0 True, DoResume 0 True, DoFire 3]"
  have "case amqp_run demo_amqp ?run ([], amqp_init) of None \<Rightarrow> False | Some (ts, s) \<Rightarrow>
      ts = [] \<and> q_closing s \<and> q_state s = Reconnecting \<and> q_timers s = []"
    by code_simp
  from run_ends [OF this] show ?thesis .
qed

section \<open>Witnesses\<close>

lemma demo_lost: "\<exists>s. amqp_reach demo_amqp ([], s) \<and> q_state s = Reconnecting \<and> \<not> q_closing s \<and> q_attempts s = 1"
proof -
  have "case amqp_run demo_amqp (connected_run @ [DoConnection 0]) ([], amqp_init) of None \<Rightarrow> False | Some (ts, s) \<Rightarrow>
      ts = [] \<and> q_state s = Reconnecting \<and> \<not> q_closing s \<and> q_attempts s = 1"
    by code_simp
  from run_ends [OF this] show ?thesis .
qed

theorem reconnection_bounded_witness:
  "\<exists>s. amqp_reach demo_amqp ([], s) \<and> q_attempts s = 1 \<and> q_attempts s \<le> 5"
proof -
  have "sane_config demo_amqp" by (simp add: sane_config_def demo_amqp_def)
  then show ?thesis using demo_lost reconnection_bounded [of demo_amqp "[]"] by (auto simp: demo_amqp_def)
qed

theorem reconnecting_has_timer_witness:
  "\<exists>s. amqp_reach demo_amqp ([], s) \<and> q_state s = Reconnecting \<and> q_timers s \<noteq> []"
  using demo_lost reconnecting_has_timer [of demo_amqp "[]"] by auto

section \<open>Acknowledged messages\<close>

text \<open>
  C22: The queue and the database agree: a message of a user is acknowledged only when that user's
  single row holds its payload and its version, whatever version was stored before; it is rejected,
  without being queued again, when processing failed, and then the tables are as they were except
  that a row created for a new user stays; without a channel nothing happens.
\<close>

theorem acknowledged_message_stored:
  assumes "tom_database (cs_db env) ok healthy tab" "ok (cs_store s)" "healthy (cs_store s)"
    "safeParseMessage raw = parsed" "field (field parsed ''payload'') ''matrix_id'' = JStr u" "u \<noteq> []"
    "consume_message (handleMessage env) channel (Some raw) s = (v, s')"
  shows "let new = {# (JStr (str_of (field parsed ''payload'')), stored (field parsed ''version'')) #};
      before = user_rows (tab (cs_store s) ''usersettings'') u; after = user_rows (tab (cs_store s') ''usersettings'') u
    in (case v of
          Acked h \<Rightarrow> channel = Some h \<and> after = new
        | Nacked h \<Rightarrow> channel = Some h \<and> (after = before \<or> before = {#} \<and> after = new)
        | Ignored \<Rightarrow> channel = None \<and> s' = s) \<and>
      (\<forall>t. t \<noteq> ''usersettings'' \<longrightarrow> tab (cs_store s') t = tab (cs_store s) t) \<and>
      other_rows (tab (cs_store s') ''usersettings'') u = other_rows (tab (cs_store s) ''usersettings'') u"
proof (cases channel)
  case None
  then show ?thesis using assms(7) by (auto simp: consume_message_def)
next
  case (Some h)
  obtain r s1 where m: "handleMessage env raw s = (r, s1)" by fastforce
  show ?thesis
    using processed_message [OF assms(1-6) m] assms(7) m Some
    by (cases r) (auto simp: consume_message_def Let_def)
qed

theorem acknowledged_message_stored_witness:
  "\<exists>v s'. consume_message (handleMessage (demo_cs_env SQLITE)) (Some 1) (Some (str_of demo_message)) demo_cs = (v, s') \<and>
     (v = Acked 1 \<and> user_rows (rows_of (cs_store s') ''usersettings'') ''@ann:x'' = {#(JStr (str_of (JObj demo_settings)), JNum 2)#} \<or>
      v = Nacked 1 \<and> user_rows (rows_of (cs_store s') ''usersettings'') ''@ann:x'' = {#(JStr (str_of (JObj demo_settings)), JNum 7)#})"
proof -
  obtain v s' where h: "consume_message (handleMessage (demo_cs_env SQLITE)) (Some 1) (Some (str_of demo_message)) demo_cs = (v, s')"
    by fastforce
  have "user_rows (rows_of (cs_store demo_cs) ''usersettings'') ''@ann:x'' = {#(JStr (str_of (JObj demo_settings)), JNum 7)#}"
    by (simp add: user_rows_def demo_cs_facts demo_settings_row_def settings_row_def of_user_def sql_eq_def stored_def)
  then show ?thesis
    using acknowledged_message_stored [OF demo_cs_tom demo_cs_facts(1,2) demo_message_facts(1,2) _ h] h
    by (auto simp: demo_message_facts stored_def Let_def split: verdict.splits)
qed

end
