(* ===== verification/UserInfo.thy ===== *)
theory UserInfo
  imports Addressbook CommonSettings
begin

text \<open>
  The user information API (\<open>packages/tom-server/src/user-info-api\<close>): the profile of a user put
  together from the Matrix server, the directory, the common settings and the address book of the
  viewer, with the visibility settings of its owner.  Parameters: what the Matrix database and the
  directory answer for a list of local parts, and what the driver makes of the columns of type
  \<open>jsonb\<close> and \<open>TEXT[]\<close>.  The queries of one call are made in the order of the code.
\<close>

record 's ui_env =
  ui_ab :: "'s ab_env"
  ui_matrix :: "string list \<Rightarrow> obj list result"
  ui_directory :: "string list \<Rightarrow> obj list result"
  ui_column :: "jsval \<Rightarrow> jsval"
  ui_features :: bool
  ui_common :: bool
  ui_server :: string
  ui_visibility :: string
  ui_fields :: "string list"
  ui_ldap :: bool

definition ends_with :: "string \<Rightarrow> string \<Rightarrow> bool" where
  "ends_with s p \<longleftrightarrow> length p \<le> length s \<and> drop (length s - length p) s = p"

section \<open>Reading the sources\<close>

text \<open>The settings of users without a row, from the configuration.\<close>

definition default_visibility :: "'s ui_env \<Rightarrow> jsval" where
  "default_visibility env =
     JStr (if ui_visibility env = ''public'' then ''public''
           else if ui_visibility env = ''contacts'' then ''contacts'' else ''private'')"

definition default_fields :: "'s ui_env \<Rightarrow> jsval" where
  "default_fields env =
     JArr ((if ''email'' \<in> set (ui_fields env) then [JStr ''email''] else []) @
           (if ''phone'' \<in> set (ui_fields env) then [JStr ''phone''] else []))"

text \<open>The identifiers with a local part, each once, in the order of their first occurrence.\<close>

fun local_parts :: "string list \<Rightarrow> (string \<times> string) list" where
  "local_parts [] = []"
| "local_parts (i # is) =
     (case getLocalPart i of
        None \<Rightarrow> local_parts is
      | Some l \<Rightarrow> if l = [] then local_parts is else (i, l) # filter (\<lambda>(j, _). j \<noteq> i) (local_parts is))"

text \<open>A \<open>Map\<close> of rows by one of their columns: later rows win, rows without it are left out.\<close>

definition rows_by :: "string \<Rightarrow> obj list \<Rightarrow> (string \<times> obj) list" where
  "rows_by k rows = foldl (\<lambda>m r. if truthy (getp r k) then put (js_str (getp r k)) r m else m) [] rows"

section \<open>Merging\<close>

text \<open>\<open>fields.includes(field)\<close> of an array or of a text.\<close>

definition js_includes :: "jsval \<Rightarrow> string \<Rightarrow> bool result" where
  "js_includes fs x =
     (case fs of
        JArr vs \<Rightarrow> Inr (JStr x \<in> set vs)
      | JStr t \<Rightarrow> Inr (contains t x)
      | _ \<Rightarrow> Inl (Err ''includes is not a function''))"

text \<open>Who looks: the owner himself, somebody who may see the profile, somebody who may not.\<close>

definition may_see :: "bool \<Rightarrow> bool \<Rightarrow> jsval \<Rightarrow> string \<Rightarrow> bool result" where
  "may_see mine visible fs x =
     (if mine then Inr True else if \<not> visible then Inr False else js_includes fs x)"

definition profile_visible :: "'s ui_env \<Rightarrow> string option \<Rightarrow> string \<Rightarrow> jsval \<Rightarrow> bool" where
  "profile_visible env viewer i visibility =
     (if viewer = Some i then True
      else if visibility = JStr ''public'' then True
      else if visibility = JStr ''private'' then False
      else case viewer of
             None \<Rightarrow> False
           | Some v \<Rightarrow> visibility = JStr ''contacts'' \<and> v \<noteq> [] \<and> ui_features env \<and>
               ends_with v (CHR '':'' # ui_server env) \<and> ends_with i (CHR '':'' # ui_server env))"

text \<open>Copying a property when it is truthy, and a list of one private value.\<close>

definition copy_prop :: "obj \<Rightarrow> string \<Rightarrow> string \<Rightarrow> obj \<Rightarrow> obj" where
  "copy_prop src k k' info = (if truthy (getp src k) then put k' (getp src k) info else info)"

definition put_private :: "bool result \<Rightarrow> jsval \<Rightarrow> string \<Rightarrow> obj \<Rightarrow> obj result" where
  "put_private allowed v k info =
     (if \<not> truthy v then Inr info
      else case allowed of
             Inl e \<Rightarrow> Inl e
           | Inr b \<Rightarrow> Inr (if b then put k (JArr [v]) info else info))"

text \<open>Objects and arrays are compared by reference, so a fresh one is in no list.\<close>

definition is_reference :: "jsval \<Rightarrow> bool" where
  "is_reference v = (case v of JObj _ \<Rightarrow> True | JArr _ \<Rightarrow> True | _ \<Rightarrow> False)"

definition push_private :: "bool result \<Rightarrow> jsval \<Rightarrow> string \<Rightarrow> obj \<Rightarrow> obj result" where
  "push_private allowed v k info =
     (if \<not> truthy v then Inr info
      else case allowed of
             Inl e \<Rightarrow> Inl e
           | Inr b \<Rightarrow> Inr (if \<not> b then info
               else case getp info k of
                      JArr vs \<Rightarrow> if v \<in> set vs \<and> \<not> is_reference v then info else put k (JArr (vs @ [v])) info
                    | _ \<Rightarrow> put k (JArr [v]) info))"

definition merge_matrix :: "obj \<Rightarrow> obj \<Rightarrow> obj" where
  "merge_matrix row info = copy_prop row ''avatar_url'' ''avatar_url'' (copy_prop row ''displayname'' ''display_name'' info)"

definition merge_directory :: "bool result \<Rightarrow> bool result \<Rightarrow> obj \<Rightarrow> obj \<Rightarrow> obj result" where
  "merge_directory see_email see_phone row info0 =
     (let info1 = (if \<not> truthy (getp info0 ''display_name'') then copy_prop row ''cn'' ''display_name'' info0 else info0);
          info2 = copy_prop row ''sn'' ''last_name'' (copy_prop row ''sn'' ''sn'' info1);
          given = js_coalesce (getp row ''givenname'') (getp row ''givenName'');
          info3 = (if nullish given then info2 else put ''first_name'' given (put ''givenName'' given info2))
      in case put_private see_email (getp row ''mail'') ''emails'' info3 of
           Inl e \<Rightarrow> Inl e
         | Inr info4 \<Rightarrow>
             (case put_private see_phone (getp row ''mobile'') ''phones'' info4 of
                Inl e \<Rightarrow> Inl e
              | Inr info5 \<Rightarrow> Inr (copy_prop row ''workplaceFqdn'' ''workplaceFqdn'' info5)))"

definition merge_settings :: "bool result \<Rightarrow> bool result \<Rightarrow> jsval \<Rightarrow> obj \<Rightarrow> obj result" where
  "merge_settings see_email see_phone settings info0 =
     (let row = (case settings of JObj ps \<Rightarrow> ps | _ \<Rightarrow> []);
          info1 = copy_prop row ''display_name'' ''display_name'' info0;
          info2 = copy_prop row ''last_name'' ''sn'' (copy_prop row ''last_name'' ''last_name'' info1);
          info3 = copy_prop row ''first_name'' ''givenName'' (copy_prop row ''first_name'' ''first_name'' info2)
      in case push_private see_email (getp row ''email'') ''emails'' info3 of
           Inl e \<Rightarrow> Inl e
         | Inr info4 \<Rightarrow>
             (case push_private see_phone (getp row ''phone'') ''phones'' info4 of
                Inl e \<Rightarrow> Inl e
              | Inr info5 \<Rightarrow>
                  Inr (copy_prop row ''timezone'' ''timezone'' (copy_prop row ''language'' ''language'' info5))))"

text \<open>The visibility and the visible fields that count for an identifier.\<close>

definition settings_for :: "'s ui_env \<Rightarrow> (string \<times> obj) list \<Rightarrow> string \<Rightarrow> jsval \<times> jsval" where
  "settings_for env profileSettings i =
     (case map_of profileSettings i of
        Some row \<Rightarrow> (getp row ''visibility'', js_coalesce (ui_column env (getp row ''visible_fields'')) (JArr []))
      | None \<Rightarrow> (default_visibility env, default_fields env))"

record sources =
  so_matrix :: "(string \<times> obj) list"
  so_directory :: "(string \<times> obj) list"
  so_settings :: "(string \<times> obj) list"
  so_profile :: "(string \<times> obj) list"
  so_contacts :: "(string \<times> obj) list"

text \<open>What the viewer may see of \<open>i\<close>, and what each source adds to the profile.\<close>

definition sees :: "'s ui_env \<Rightarrow> string option \<Rightarrow> sources \<Rightarrow> string \<Rightarrow> string \<Rightarrow> bool result" where
  "sees env viewer src i x =
     (let vf = settings_for env (so_profile src) i
      in may_see (viewer = Some i) (profile_visible env viewer i (fst vf)) (snd vf) x)"

definition from_matrix :: "sources \<Rightarrow> string \<Rightarrow> string \<Rightarrow> obj" where
  "from_matrix src i l =
     (case map_of (so_matrix src) l of None \<Rightarrow> [(''uid'', JStr i)] | Some row \<Rightarrow> merge_matrix row [(''uid'', JStr i)])"

definition from_directory :: "(string \<Rightarrow> bool result) \<Rightarrow> sources \<Rightarrow> string \<Rightarrow> obj \<Rightarrow> obj result" where
  "from_directory see src l info =
     (case map_of (so_directory src) l of
        None \<Rightarrow> Inr info
      | Some row \<Rightarrow> merge_directory (see ''email'') (see ''phone'') row info)"

definition from_settings :: "'s ui_env \<Rightarrow> (string \<Rightarrow> bool result) \<Rightarrow> sources \<Rightarrow> string \<Rightarrow> obj \<Rightarrow> obj result" where
  "from_settings env see src i info =
     (case map_of (so_settings src) i of
        None \<Rightarrow> Inr info
      | Some row \<Rightarrow> merge_settings (see ''email'') (see ''phone'') (ui_column env (getp row ''settings'')) info)"

definition from_contacts :: "sources \<Rightarrow> string \<Rightarrow> obj \<Rightarrow> obj" where
  "from_contacts src i info =
     (case map_of (so_contacts src) i of None \<Rightarrow> info | Some c \<Rightarrow> copy_prop c ''display_name'' ''display_name'' info)"

text \<open>One user of the batch; \<open>None\<close> when nothing is known.\<close>

definition merge_user :: "'s ui_env \<Rightarrow> string option \<Rightarrow> sources \<Rightarrow> string \<times> string \<Rightarrow> obj option result" where
  "merge_user env viewer src il =
     (case il of (i, l) \<Rightarrow>
        if map_of (so_matrix src) l = None \<and> \<not> ui_features env \<and> map_of (so_contacts src) i = None then Inr None
        else case from_directory (sees env viewer src i) src l (from_matrix src i l) of
               Inl e \<Rightarrow> Inl e
             | Inr info2 \<Rightarrow>
                 (case from_settings env (sees env viewer src i) src i info2 of
                    Inl e \<Rightarrow> Inl e
                  | Inr info3 \<Rightarrow>
                      let info4 = from_contacts src i info3
                      in Inr (if length info4 > 1 then Some info4 else None)))"

fun merge_users :: "'s ui_env \<Rightarrow> string option \<Rightarrow> sources \<Rightarrow> (string \<times> string) list \<Rightarrow> (string \<times> obj) list result" where
  "merge_users env viewer src [] = Inr []"
| "merge_users env viewer src (il # ils) =
     (case merge_user env viewer src il of
        Inl e \<Rightarrow> Inl e
      | Inr r \<Rightarrow>
          (case merge_users env viewer src ils of
             Inl e \<Rightarrow> Inl e
           | Inr rs \<Rightarrow> Inr (case r of None \<Rightarrow> rs | Some info \<Rightarrow> (fst il, info) # rs)))"

section \<open>The service\<close>

text \<open>All queries are made, then a failing one rejects the whole batch.\<close>

definition getBatch :: "'s ui_env \<Rightarrow> string list \<Rightarrow> string option \<Rightarrow> 's svc \<Rightarrow> (string \<times> obj) list result \<times> 's svc" where
  "getBatch env ids viewer s =
     (let ils = local_parts ids; d = ab_db (ui_ab env); failed = Inl (Err ''Error getting batch user info'')
      in if ils = [] then (Inr [], s)
         else
           let matrixRows = ui_matrix env (map snd ils); directoryRows = ui_directory env (map snd ils) in
           case (if ui_common env
                 then on_db (db_get d ''usersettings'' [''*''] (Some [(''matrix_id'', JArr (map (JStr \<circ> fst) ils))]) None) s
                 else (Inr [], s)) of
             (settingsRows, s1) \<Rightarrow>
           case on_db (db_get d ''profileSettings'' [''*''] (Some [(''matrix_id'', JArr (map (JStr \<circ> fst) ils))]) None) s1 of
             (profileRows, s2) \<Rightarrow>
           case (case viewer of
                   None \<Rightarrow> ([], s2)
                 | Some v \<Rightarrow> if v = [] then ([], s2)
                     else (case list_book (ui_ab env) v True s2 of (l, s3) \<Rightarrow> (al_contacts l, s3))) of
             (contacts, s3) \<Rightarrow>
           case (matrixRows, directoryRows, settingsRows, profileRows) of
             (Inr ms, Inr ds, Inr ss, Inr ps) \<Rightarrow>
               (case merge_users env viewer
                  \<lparr>so_matrix = rows_by ''user_id'' ms, so_directory = rows_by ''uid'' ds,
                   so_settings = rows_by ''matrix_id'' (filter (\<lambda>r. truthy (ui_column env (getp r ''settings''))) ss),
                   so_profile = rows_by ''matrix_id'' ps, so_contacts = rows_by ''mxid'' contacts\<rparr> ils of
                  Inl e \<Rightarrow> (failed, s3)
                | Inr infos \<Rightarrow> (Inr infos, s3))
           | _ \<Rightarrow> (failed, s3))"

definition get_info :: "'s ui_env \<Rightarrow> string \<Rightarrow> string option \<Rightarrow> 's svc \<Rightarrow> obj option result \<times> 's svc" where
  "get_info env i viewer s =
     (case getBatch env [i] viewer s of
        (Inl e, s1) \<Rightarrow> (Inl e, s1)
      | (Inr infos, s1) \<Rightarrow> (Inr (map_of infos i), s1))"

definition getUserSettings :: "'s ui_env \<Rightarrow> string \<Rightarrow> 's svc \<Rightarrow> obj option result \<times> 's svc" where
  "getUserSettings env user s =
     (case on_db (db_get (ab_db (ui_ab env)) ''profileSettings'' [''*''] (Some [(''matrix_id'', JStr user)]) None) s of
        (Inl e, s1) \<Rightarrow> (Inl e, s1)
      | (Inr [], s1) \<Rightarrow> (Inr None, s1)
      | (Inr (r # _), s1) \<Rightarrow> (Inr (Some r), s1))"

definition createVisibilitySettings :: "'s ui_env \<Rightarrow> string \<Rightarrow> jsval \<Rightarrow> 's svc \<Rightarrow> obj result \<times> 's svc" where
  "createVisibilitySettings env user settings s =
     (case on_db (db_insert (ab_db (ui_ab env)) ''profileSettings''
               (spread [(''matrix_id'', JStr user)] (own_props settings))) s of
        (Inl e, s1) \<Rightarrow> (Inl (Err (''Failed to create visibility settings for user '' @ user)), s1)
      | (Inr [], s1) \<Rightarrow> (Inl (Err (''Database insert failed to return settings for user '' @ user)), s1)
      | (Inr (r # _), s1) \<Rightarrow> (Inr r, s1))"

definition updateVisibilitySettings :: "'s ui_env \<Rightarrow> string \<Rightarrow> jsval \<Rightarrow> 's svc \<Rightarrow> obj result \<times> 's svc" where
  "updateVisibilitySettings env user settings s =
     (if nullish settings then (Inl (Err (''Failed to update visibility settings for user '' @ user)), s)
      else case on_db (db_update (ab_db (ui_ab env)) ''profileSettings'' (own_props settings) ''matrix_id'' (JStr user)) s of
             (Inl e, s1) \<Rightarrow> (Inl (Err (''Failed to update visibility settings for user '' @ user)), s1)
           | (Inr [], s1) \<Rightarrow> (Inl (Err (''Database update failed to return settings for user '' @ user)), s1)
           | (Inr (r # _), s1) \<Rightarrow> (Inr r, s1))"

definition updateVisibility :: "'s ui_env \<Rightarrow> string \<Rightarrow> jsval \<Rightarrow> 's svc \<Rightarrow> obj result \<times> 's svc" where
  "updateVisibility env user settings s =
     (case getUserSettings env user s of
        (Inl e, s1) \<Rightarrow> (Inl (Err (''Failed to retrieve visibility settings for user '' @ user)), s1)
      | (Inr None, s1) \<Rightarrow> createVisibilitySettings env user settings s1
      | (Inr (Some _), s1) \<Rightarrow> updateVisibilitySettings env user settings s1)"

definition getVisibility :: "'s ui_env \<Rightarrow> string \<Rightarrow> 's svc \<Rightarrow> obj option result \<times> 's svc" where
  "getVisibility env user s =
     (case getLocalPart user of
        None \<Rightarrow> (Inr None, s)
      | Some l \<Rightarrow>
          if l = [] then (Inr None, s)
          else (case getUserSettings env user s of
                  (Inl e, s1) \<Rightarrow> (Inl (Err ''Error retreiving user visibility settings''), s1)
                | (Inr None, s1) \<Rightarrow> (Inr (Some [(''visibility'', default_visibility env), (''visible_fields'', default_fields env)]), s1)
                | (Inr (Some r), s1) \<Rightarrow> (Inr (Some r), s1)))"

section \<open>Controllers and routes\<close>

definition error_code :: "nat \<Rightarrow> string \<Rightarrow> response" where
  "error_code status code = Json status (JObj [(''error'', JStr code)])"

definition ui_get :: "'s ui_env \<Rightarrow> request \<Rightarrow> 's svc \<Rightarrow> response \<times> 's svc" where
  "ui_get env req s =
     (case userId req of
        None \<Rightarrow> (error_code 400 ''M_MISSING_PARAMS'', s)
      | Some viewer \<Rightarrow>
          (case get_info env (path_param req ''userId'') (Some viewer) s of
             (Inl e, s1) \<Rightarrow> (NextError e, s1)
           | (Inr None, s1) \<Rightarrow> (error_code 404 ''M_NOT_FOUND'', s1)
           | (Inr (Some info), s1) \<Rightarrow> (Json 200 (JObj info), s1)))"

definition ui_updateVisibility :: "'s ui_env \<Rightarrow> request \<Rightarrow> 's svc \<Rightarrow> response \<times> 's svc" where
  "ui_updateVisibility env req s =
     (if userId req \<noteq> Some (path_param req ''userId'') then (error_code 403 ''M_FORBIDDEN'', s)
      else case updateVisibility env (path_param req ''userId'') (body req) s of
             (Inl e, s1) \<Rightarrow> (NextError e, s1)
           | (Inr r, s1) \<Rightarrow> (Json 200 (JObj r), s1))"

definition ui_getVisibility :: "'s ui_env \<Rightarrow> request \<Rightarrow> 's svc \<Rightarrow> response \<times> 's svc" where
  "ui_getVisibility env req s =
     (case getVisibility env (path_param req ''userId'') s of
        (Inl e, s1) \<Rightarrow> (NextError e, s1)
      | (Inr None, s1) \<Rightarrow> (error_code 404 ''M_NOT_FOUND'', s1)
      | (Inr (Some r), s1) \<Rightarrow> (Json 200 (JObj r), s1))"

datatype ui_route = GetInfo | ReadVisibility | WriteVisibility

definition ui_handle :: "'s ui_env \<Rightarrow> (request \<Rightarrow> auth_outcome) \<Rightarrow> ui_route \<Rightarrow> request \<Rightarrow> 's svc \<Rightarrow> response \<times> 's svc" where
  "ui_handle env authenticator route req0 s =
     (if \<not> ui_ldap env then (Json 500 (JStr ''Not supported''), s)
      else case route of
             ReadVisibility \<Rightarrow> ui_getVisibility env req0 s
           | _ \<Rightarrow>
               (case authMiddleware authenticator req0 of
                  Inl r \<Rightarrow> (r, s)
                | Inr req \<Rightarrow> (if route = GetInfo then ui_get env req s else ui_updateVisibility env req s)))"

section \<open>What merging keeps\<close>

text \<open>Only the e-mail addresses and the telephone numbers are guarded; every other step leaves them.\<close>

lemma copy_prop_other [simp]: "k \<noteq> k' \<Longrightarrow> getp (copy_prop src k0 k' info) k = getp info k"
  by (simp add: copy_prop_def)

lemma put_private_value:
  "put_private a v k info = Inr info' \<Longrightarrow>
     getp info' k' = (if k' = k \<and> truthy v \<and> a = Inr True then JArr [v] else getp info k')"
  by (auto simp: put_private_def split: if_splits sum.splits)

lemma push_private_guard:
  "push_private a v k info = Inr info' \<Longrightarrow> getp info' k' \<noteq> getp info k' \<Longrightarrow> k' = k \<and> a = Inr True"
  by (auto simp: push_private_def split: if_splits sum.splits jsval.splits)

lemma put_private_guard:
  "put_private a v k info = Inr info' \<Longrightarrow> getp info' k' \<noteq> getp info k' \<Longrightarrow> k' = k \<and> a = Inr True"
  by (auto simp: put_private_def split: if_splits sum.splits)

lemma merge_directory_guard:
  assumes "merge_directory e p row info = Inr info'" "k \<in> {''emails'', ''phones''}" "getp info' k \<noteq> getp info k"
  shows "k = ''emails'' \<and> e = Inr True \<or> k = ''phones'' \<and> p = Inr True"
  using assms by (auto simp: merge_directory_def Let_def put_private_value split: sum.splits if_splits)

lemma merge_settings_guard:
  assumes "merge_settings e p v info = Inr info'" "k \<in> {''emails'', ''phones''}" "getp info' k \<noteq> getp info k"
  shows "k = ''emails'' \<and> e = Inr True \<or> k = ''phones'' \<and> p = Inr True"
proof -
  define info3 where "info3 = (let row = (case v of JObj ps \<Rightarrow> ps | _ \<Rightarrow> []) in
    copy_prop row ''first_name'' ''givenName'' (copy_prop row ''first_name'' ''first_name''
      (copy_prop row ''last_name'' ''sn'' (copy_prop row ''last_name'' ''last_name''
        (copy_prop row ''display_name'' ''display_name'' info)))))"
  have i3: "getp info3 k = getp info k" using assms(2) by (auto simp: info3_def Let_def)
  obtain x y info4 info5 where 4: "push_private e x ''emails'' info3 = Inr info4"
    and 5: "push_private p y ''phones'' info4 = Inr info5" and 6: "getp info' k = getp info5 k"
    using assms(1,2) by (auto simp: merge_settings_def Let_def info3_def split: sum.splits)
  have "getp info4 k \<noteq> getp info3 k \<or> getp info5 k \<noteq> getp info4 k" using assms(3) i3 6 by auto
  then show ?thesis using push_private_guard [OF 4, of k] push_private_guard [OF 5, of k] by blast
qed

text \<open>The flag that guards a property.\<close>

definition guard_of :: "string \<Rightarrow> string" where
  "guard_of k = (if k = ''emails'' then ''email'' else ''phone'')"

lemma merge_user_cases:
  assumes "merge_user env viewer src (i, l) = Inr (Some info)"
  obtains info2 info3 where "from_directory (sees env viewer src i) src l (from_matrix src i l) = Inr info2"
    "from_settings env (sees env viewer src i) src i info2 = Inr info3" "info = from_contacts src i info3"
  using assms by (auto simp: merge_user_def Let_def split: if_splits sum.splits)

lemma merge_user_guard:
  assumes "merge_user env viewer src (i, l) = Inr (Some info)" "k \<in> {''emails'', ''phones''}" "getp info k \<noteq> Undef"
  shows "sees env viewer src i (guard_of k) = Inr True"
proof -
  obtain info2 info3 where 2: "from_directory (sees env viewer src i) src l (from_matrix src i l) = Inr info2"
    and 3: "from_settings env (sees env viewer src i) src i info2 = Inr info3" and 4: "info = from_contacts src i info3"
    using assms(1) by (rule merge_user_cases)
  have k: "k \<noteq> ''display_name''" "k \<noteq> ''avatar_url''" "k \<noteq> ''uid''" using assms(2) by auto
  have i1: "getp (from_matrix src i l) k = Undef"
    using k by (simp add: from_matrix_def merge_matrix_def split: option.splits)
  have i4: "getp info k = getp info3 k" using k by (simp add: 4 from_contacts_def split: option.splits)
  consider "getp info2 k \<noteq> getp (from_matrix src i l) k" | "getp info3 k \<noteq> getp info2 k"
    using assms(3) i1 i4 by metis
  then show ?thesis
  proof cases
    case 1
    then obtain row where "merge_directory (sees env viewer src i ''email'') (sees env viewer src i ''phone'') row
        (from_matrix src i l) = Inr info2"
      using 2 by (auto simp: from_directory_def split: option.splits)
    from merge_directory_guard [OF this assms(2) 1] show ?thesis by (auto simp: guard_of_def)
  next
    case 2
    then obtain v where "merge_settings (sees env viewer src i ''email'') (sees env viewer src i ''phone'') v info2 = Inr info3"
      using 3 by (auto simp: from_settings_def split: option.splits)
    from merge_settings_guard [OF this assms(2) 2] show ?thesis by (auto simp: guard_of_def)
  qed
qed

lemma merge_users_mem:
  "merge_users env viewer src ils = Inr infos \<Longrightarrow> (i, info) \<in> set infos \<Longrightarrow>
     \<exists>l. (i, l) \<in> set ils \<and> merge_user env viewer src (i, l) = Inr (Some info)"
proof (induction ils arbitrary: infos)
  case (Cons il ils)
  then show ?case by (cases il) (fastforce split: sum.splits option.splits)
qed simp

lemma local_parts_mem: "(i, l) \<in> set (local_parts is) \<Longrightarrow> i \<in> set is \<and> getLocalPart i = Some l \<and> l \<noteq> []"
  by (induction "is" rule: local_parts.induct) (auto split: option.splits if_splits)

lemma rows_by_step:
  "rows_by k (rows @ [r]) = (if truthy (getp r k) then put (js_str (getp r k)) r (rows_by k rows) else rows_by k rows)"
  by (simp add: rows_by_def)

lemma rows_by_Nil [simp]: "rows_by k [] = []"
  by (simp add: rows_by_def)

lemma rows_by_Some: "map_of (rows_by k rows) x = Some r \<Longrightarrow> r \<in> set rows \<and> truthy (getp r k) \<and> js_str (getp r k) = x"
  by (induction rows rule: rev_induct) (auto simp: rows_by_step split: if_splits)

lemma rows_by_None: "map_of (rows_by k rows) x = None \<Longrightarrow> r \<in> set rows \<Longrightarrow> truthy (getp r k) \<Longrightarrow> js_str (getp r k) \<noteq> x"
  by (induction rows rule: rev_induct) (auto simp: rows_by_step split: if_splits)

section \<open>What the tables say\<close>

text \<open>The settings that count for a user, as the table has them.\<close>

definition in_force :: "'s ui_env \<Rightarrow> obj multiset \<Rightarrow> string \<Rightarrow> jsval \<times> jsval \<Rightarrow> bool" where
  "in_force env rows i vf \<longleftrightarrow>
     (\<exists>r \<in># rows. sql_eq (getp r ''matrix_id'') (JStr i) \<and>
        vf = (getp r ''visibility'', js_coalesce (ui_column env (getp r ''visible_fields'')) (JArr []))) \<or>
     (\<forall>r \<in># rows. \<not> sql_eq (getp r ''matrix_id'') (JStr i)) \<and> vf = (default_visibility env, default_fields env)"

definition profile_cols :: "string list" where
  "profile_cols = [''matrix_id'', ''visibility'', ''visible_fields'']"

lemma local_part_head: "getLocalPart i = Some l \<Longrightarrow> \<exists>t. i = CHR ''@'' # t"
  by (cases i) (auto simp: getLocalPart_def starts_with_def Let_def split: if_splits)

lemma nat_str_zero: "nat_str 0 = ''0''"
  by code_simp

lemma truthy_local: "getLocalPart i = Some l \<Longrightarrow> sql_eq v (JStr i) \<longleftrightarrow> truthy v \<and> js_str v = i"
  using local_part_head [of i l] by (cases v) (auto simp: sql_eq_def int_str_def nat_str_zero split: if_splits)

lemma matches_ids:
  "i \<in> set ids \<Longrightarrow> [] \<notin> set ids \<Longrightarrow> sql_eq (getp r ''matrix_id'') (JStr i) \<Longrightarrow>
     matches [(''matrix_id'', JArr (map JStr ids))] r"
  by (auto simp: matches_def kept_def match_val_def list_ex_iff)

lemma settings_in_force:
  assumes "getLocalPart i = Some l" "mset ps = {# r \<in># rows. matches [(''matrix_id'', JArr (map JStr ids))] r #}"
    "i \<in> set ids" "[] \<notin> set ids"
  shows "in_force env rows i (settings_for env (rows_by ''matrix_id'' ps) i)"
proof (cases "map_of (rows_by ''matrix_id'' ps) i")
  case None
  have "\<not> sql_eq (getp r ''matrix_id'') (JStr i)" if r: "r \<in># rows" for r
  proof
    assume e: "sql_eq (getp r ''matrix_id'') (JStr i)"
    then have "r \<in># mset ps" using r matches_ids [OF assms(3,4) e] by (simp add: assms(2))
    then have "r \<in> set ps" by simp
    from rows_by_None [OF None this] e show False by (simp add: truthy_local [OF assms(1)])
  qed
  then show ?thesis by (simp add: in_force_def settings_for_def None)
next
  case (Some r)
  note r = rows_by_Some [OF Some]
  have "r \<in># mset ps" using r by simp
  then have "r \<in># rows" by (simp add: assms(2))
  then show ?thesis using r by (auto simp: in_force_def settings_for_def Some truthy_local [OF assms(1)])
qed

text \<open>The rows a batch reads from one of the two tables.\<close>

definition rows_read :: "obj multiset \<Rightarrow> string list \<Rightarrow> obj list \<Rightarrow> bool" where
  "rows_read rows ids rs \<longleftrightarrow>
     mset rs = {# r \<in># rows. matches [(''matrix_id'', JArr (map JStr (map fst (local_parts ids))))] r #}"

text \<open>The contacts that the listing of a viewer's address book has.\<close>

definition contacts_of :: "'s ui_env \<Rightarrow> string option \<Rightarrow> 's svc \<Rightarrow> obj list" where
  "contacts_of env viewer s = (case viewer of None \<Rightarrow> []
     | Some v \<Rightarrow> if v = [] then [] else al_contacts (fst (list_book (ui_ab env) v True s)))"

locale profile_db = addressbook_db d wf healthy tab schema key + settings_db d wf healthy tab schema key
  for d :: "'s backend" and wf and healthy and tab and schema and key +
  assumes profiles: "schema ''profileSettings'' = profile_cols" "key ''profileSettings'' = [''matrix_id'']"
begin

lemma batch_run:
  assumes "ab_db (ui_ab env) = d" "wf (sv_db s)" "local_parts ids \<noteq> []"
  obtains (failed) e s' where "getBatch env ids viewer s = (Inl e, s')"
      "healthy (sv_db s) \<Longrightarrow> (\<exists>e. ui_matrix env (map snd (local_parts ids)) = Inl e) \<or>
         (\<exists>e. ui_directory env (map snd (local_parts ids)) = Inl e)"
    | (merged) src ms ds ps ss s' where
      "getBatch env ids viewer s = (case merge_users env viewer src (local_parts ids) of
         Inl e \<Rightarrow> Inl (Err ''Error getting batch user info'') | Inr infos \<Rightarrow> Inr infos, s')"
      "ui_matrix env (map snd (local_parts ids)) = Inr ms" "so_matrix src = rows_by ''user_id'' ms"
      "ui_directory env (map snd (local_parts ids)) = Inr ds" "so_directory src = rows_by ''uid'' ds"
      "so_profile src = rows_by ''matrix_id'' ps" "rows_read (tab (sv_db s) ''profileSettings'') ids ps"
      "so_settings src = rows_by ''matrix_id'' (filter (\<lambda>r. truthy (ui_column env (getp r ''settings''))) ss)"
      "if ui_common env then rows_read (tab (sv_db s) ''usersettings'') ids ss else ss = []"
      "viewer = None \<Longrightarrow> so_contacts src = []"
      "\<exists>s2. tab (sv_db s2) = tab (sv_db s) \<and> so_contacts src = rows_by ''mxid'' (contacts_of env viewer s2)"
proof -
  let ?f = "[(''matrix_id'', JArr (map (JStr \<circ> fst) (local_parts ids)))]"
  obtain q1 s1 where q1: "(if ui_common env then on_db (db_get d ''usersettings'' [''*''] (Some ?f) None) s
      else (Inr [], s)) = (q1, s1)" by fastforce
  obtain q2 s2 where q2: "on_db (db_get d ''profileSettings'' [''*''] (Some ?f) None) s1 = (q2, s2)" by fastforce
  obtain contacts s3 where c: "(case viewer of None \<Rightarrow> ([], s2) | Some v \<Rightarrow> if v = [] then ([], s2)
      else (case list_book (ui_ab env) v True s2 of (l, s3) \<Rightarrow> (al_contacts l, s3))) = (contacts, s3)" by fastforce
  have 1: "wf (sv_db s1) \<and> tab (sv_db s1) = tab (sv_db s) \<and> (healthy (sv_db s) \<longrightarrow> healthy (sv_db s1) \<and> (\<exists>ss. q1 = Inr ss)) \<and>
    (\<forall>ss. q1 = Inr ss \<longrightarrow> (if ui_common env then rows_read (tab (sv_db s) ''usersettings'') ids ss else ss = []))"
  proof (cases "ui_common env")
    case True
    then show ?thesis using svc_get_star [of "''usersettings''" ?f s q1 s1] q1 assms(2)
      by (simp add: settings settings_cols_def rows_read_def)
  next
    case False
    then show ?thesis using q1 assms(2) by auto
  qed
  have 2: "tab (sv_db s2) = tab (sv_db s) \<and> (healthy (sv_db s1) \<longrightarrow> (\<exists>ps. q2 = Inr ps)) \<and>
    (\<forall>ps. q2 = Inr ps \<longrightarrow> rows_read (tab (sv_db s) ''profileSettings'') ids ps)"
    using svc_get_star [OF q2 conjunct1 [OF 1]] 1 by (simp add: profiles profile_cols_def rows_read_def)
  show ?thesis
  proof (cases "\<exists>ms ds ss ps. ui_matrix env (map snd (local_parts ids)) = Inr ms \<and>
      ui_directory env (map snd (local_parts ids)) = Inr ds \<and> q1 = Inr ss \<and> q2 = Inr ps")
    case True
    then obtain ms ds ss ps where m: "ui_matrix env (map snd (local_parts ids)) = Inr ms"
      "ui_directory env (map snd (local_parts ids)) = Inr ds" "q1 = Inr ss" "q2 = Inr ps" by blast
    let ?src = "\<lparr>so_matrix = rows_by ''user_id'' ms, so_directory = rows_by ''uid'' ds,
       so_settings = rows_by ''matrix_id'' (filter (\<lambda>r. truthy (ui_column env (getp r ''settings''))) ss),
       so_profile = rows_by ''matrix_id'' ps, so_contacts = rows_by ''mxid'' contacts\<rparr>"
    have "getBatch env ids viewer s = (case merge_users env viewer ?src (local_parts ids) of
         Inl e \<Rightarrow> Inl (Err ''Error getting batch user info'') | Inr infos \<Rightarrow> Inr infos, s3)"
      unfolding getBatch_def assms(1) Let_def by (simp add: q1 q2 c assms(3) m split: sum.splits)
    moreover have "contacts = contacts_of env viewer s2"
      using c by (auto simp: contacts_of_def split: option.splits if_splits prod.splits)
    ultimately show ?thesis by (rule_tac merged [OF _ m(1) _ m(2)]) (use 1 2 m c in auto)
  next
    case False
    have "getBatch env ids viewer s = (Inl (Err ''Error getting batch user info''), s3)"
      unfolding getBatch_def assms(1) Let_def using False by (auto simp: q1 q2 c assms(3) split: sum.splits)
    then show ?thesis
      by (rule failed) (use False 1 2 in \<open>metis sum.exhaust\<close>)
  qed
qed

lemma batch_settings:
  assumes "rows_read (tab s ''profileSettings'') ids ps" "(i, l) \<in> set (local_parts ids)"
  shows "in_force env (tab s ''profileSettings'') i (settings_for env (rows_by ''matrix_id'' ps) i)"
proof (rule settings_in_force)
  show "getLocalPart i = Some l" using local_parts_mem [OF assms(2)] by simp
  show "mset ps = {# r \<in># tab s ''profileSettings''. matches [(''matrix_id'', JArr (map JStr (map fst (local_parts ids))))] r #}"
    using assms(1) by (simp add: rows_read_def)
  show "i \<in> set (map fst (local_parts ids))" using assms(2) by force
  show "[] \<notin> set (map fst (local_parts ids))" using local_part_head by (fastforce dest: local_parts_mem)
qed

end

section \<open>Properties\<close>

lemma tom_schema_profile: "schema_of tom_tables ''profileSettings'' = profile_cols" "key_of tom_tables ''profileSettings'' = [''matrix_id'']"
  unfolding tom_schema tom_key by code_simp+

lemma tom_profile:
  "tom_database d ok healthy tab \<Longrightarrow> profile_db d ok healthy tab (schema_of tom_tables) (key_of tom_tables)"
  by (intro profile_db.intro profile_db_axioms.intro tom_book tom_settings) (simp_all add: tom_schema_profile)

interpretation profiles: profile_db "mem_db dia" "store_wf tom_tables" store_healthy rows_of
    "schema_of tom_tables" "key_of tom_tables"
  for dia
  by (rule tom_profile [OF mem_tom])

text \<open>When the details of a user are shown to somebody else.\<close>

definition open_to :: "'s ui_env \<Rightarrow> string option \<Rightarrow> string \<Rightarrow> jsval \<times> jsval \<Rightarrow> string \<Rightarrow> bool" where
  "open_to env viewer i vf x \<longleftrightarrow> js_includes (snd vf) x = Inr True \<and>
     (fst vf = JStr ''public'' \<or>
      fst vf = JStr ''contacts'' \<and> ui_features env \<and>
        (\<exists>v. viewer = Some v \<and> ends_with v (CHR '':'' # ui_server env)) \<and> ends_with i (CHR '':'' # ui_server env))"

lemma sees_open:
  assumes "sees env viewer src i x = Inr True" "viewer \<noteq> Some i"
  shows "open_to env viewer i (settings_for env (so_profile src) i) x"
  using assms by (auto simp: sees_def may_see_def Let_def profile_visible_def open_to_def split: if_splits option.splits)

lemma batch_guard:
  assumes "tom_database (ab_db (ui_ab env)) ok healthy tab" "ok (sv_db s)"
    "getBatch env ids viewer s = (Inr infos, s')" "(i, info) \<in> set infos" "viewer \<noteq> Some i"
    "k \<in> {''emails'', ''phones''}" "getp info k \<noteq> Undef"
  shows "\<exists>vf. in_force env (tab (sv_db s) ''profileSettings'') i vf \<and> open_to env viewer i vf (guard_of k)"
proof -
  have ne: "local_parts ids \<noteq> []" using assms(3,4) by (auto simp: getBatch_def)
  show ?thesis
  proof (rule profile_db.batch_run [OF tom_profile [OF assms(1)] refl assms(2) ne, of viewer])
    fix e s'' assume "getBatch env ids viewer s = (Inl e, s'')"
    then show ?thesis using assms(3) by simp
  next
    fix src ms ds ps ss s''
    assume b: "getBatch env ids viewer s = (case merge_users env viewer src (local_parts ids) of
         Inl e \<Rightarrow> Inl (Err ''Error getting batch user info'') | Inr infos \<Rightarrow> Inr infos, s'')"
      and p: "so_profile src = rows_by ''matrix_id'' ps" "rows_read (tab (sv_db s) ''profileSettings'') ids ps"
    have "merge_users env viewer src (local_parts ids) = Inr infos" using b assms(3) by (simp split: sum.splits)
    from merge_users_mem [OF this assms(4)] obtain l where l: "(i, l) \<in> set (local_parts ids)"
      "merge_user env viewer src (i, l) = Inr (Some info)" by blast
    have "open_to env viewer i (settings_for env (so_profile src) i) (guard_of k)"
      by (rule sees_open [OF merge_user_guard [OF l(2) assms(6,7)] assms(5)])
    moreover have "in_force env (tab (sv_db s) ''profileSettings'') i (settings_for env (so_profile src) i)"
      unfolding p(1) by (rule profile_db.batch_settings [OF tom_profile [OF assms(1)], OF p(2) l(1)])
    ultimately show ?thesis by (intro exI conjI)
  qed
qed

lemma in_force_row:
  assumes "{# x \<in># rows. sql_eq (getp x ''matrix_id'') (JStr i) #} = {#r#}" "in_force env rows i vf"
  shows "vf = (getp r ''visibility'', js_coalesce (ui_column env (getp r ''visible_fields'')) (JArr []))"
proof -
  have m: "x = r" if "x \<in># rows" "sql_eq (getp x ''matrix_id'') (JStr i)" for x
  proof -
    have "x \<in># {# x \<in># rows. sql_eq (getp x ''matrix_id'') (JStr i) #}" using that by simp
    then show ?thesis by (simp only: assms(1)) simp
  qed
  have "r \<in># {#r#}" by simp
  then have "r \<in># rows" "sql_eq (getp r ''matrix_id'') (JStr i)" unfolding assms(1) [symmetric] by simp_all
  with assms(2) show ?thesis by (auto simp: in_force_def dest: m)
qed

text \<open>
  C23: The profile that \<open>getBatch\<close> builds for an identifier and a viewer who is not that user has
  e-mail addresses or telephone numbers only as far as the settings that count for this identifier
  allow: the row of the identifier in the table, or the defaults if there is none, say that the field
  is visible and that the profile is public, or that it is for contacts, and then the additional
  features are on and both are users of this server.  The claim is about the profile under this
  identifier: the directory is read by the local part (see \<open>hidden_address_shown_elsewhere\<close>), and the
  lookup of \<open>lookup/diff.ts\<close> returns the fields it is asked for whatever the settings say.
\<close>

theorem private_details_guarded:
  assumes "tom_database (ab_db (ui_ab env)) ok healthy tab" "ok (sv_db s)"
    "getBatch env ids viewer s = (Inr infos, s')" "(i, info) \<in> set infos" "viewer \<noteq> Some i"
    "k \<in> {''emails'', ''phones''}" "getp info k \<noteq> Undef"
  shows "\<exists>vf. in_force env (tab (sv_db s) ''profileSettings'') i vf \<and> open_to env viewer i vf (guard_of k)"
  using batch_guard [OF assms] .

lemma merge_directory_open:
  "\<exists>info'. merge_directory (Inr a) (Inr b) row info = Inr info' \<and> getp info' ''uid'' = getp info ''uid'' \<and>
     getp info' ''emails'' = (if truthy (getp row ''mail'') \<and> a then JArr [getp row ''mail''] else getp info ''emails'')"
  by (simp add: merge_directory_def Let_def put_private_def)

lemma two_props: "getp info a \<noteq> Undef \<Longrightarrow> getp info b \<noteq> Undef \<Longrightarrow> a \<noteq> b \<Longrightarrow> 1 < length info"
  by (cases info; cases "tl info") (auto simp: getp_def split: if_splits)

lemma from_matrix_uid: "getp (from_matrix src i l) ''uid'' = JStr i"
  by (simp add: from_matrix_def merge_matrix_def split: option.splits)

text \<open>A user with a row in the directory and no common settings, seen by somebody who may see all.\<close>

lemma merged_from_directory:
  assumes "map_of (so_directory src) l = Some row" "map_of (so_settings src) j = None" "ui_features env"
    "sees env viewer src j ''email'' = Inr True" "sees env viewer src j ''phone'' = Inr True" "truthy (getp row ''mail'')"
  shows "\<exists>info. merge_user env viewer src (j, l) = Inr (Some info) \<and> getp info ''emails'' = JArr [getp row ''mail'']"
proof -
  obtain info where m: "merge_directory (Inr True) (Inr True) row (from_matrix src j l) = Inr info"
    "getp info ''uid'' = getp (from_matrix src j l) ''uid''"
    "getp info ''emails'' = (if truthy (getp row ''mail'') \<and> True then JArr [getp row ''mail'']
       else getp (from_matrix src j l) ''emails'')"
    by (rule merge_directory_open [of True True row "from_matrix src j l", THEN exE], elim conjE) (rule that)
  let ?info = "from_contacts src j info"
  have c: "getp ?info ''emails'' = JArr [getp row ''mail'']" "getp ?info ''uid'' = JStr j"
    using m(2,3) assms(6) by (simp_all add: from_contacts_def from_matrix_uid split: option.splits)
  have "1 < length ?info" by (rule two_props [of _ "''emails''" "''uid''"]) (simp_all add: c)
  then have "merge_user env viewer src (j, l) = Inr (Some ?info)"
    using assms by (simp add: merge_user_def from_directory_def from_settings_def m(1))
  with c(1) show ?thesis by blast
qed

text \<open>
  The directory knows users by the local part only: somebody whose own settings hide his e-mail
  address is shown with it under the same name at any other server, for which the defaults count.
\<close>

theorem hidden_address_shown_elsewhere:
  assumes "tom_database (ab_db (ui_ab env)) ok healthy tab" "ok (sv_db s)" "healthy (sv_db s)"
    "getLocalPart i = Some l" "getLocalPart j = Some l" "l \<noteq> []" "\<not> ui_common env" "ui_features env"
    "\<And>r. r \<in># tab (sv_db s) ''profileSettings'' \<Longrightarrow> \<not> sql_eq (getp r ''matrix_id'') (JStr j)"
    "r \<in># tab (sv_db s) ''profileSettings''" "sql_eq (getp r ''matrix_id'') (JStr i)" "getp r ''visibility'' = JStr ''private''"
    "ui_visibility env = ''public''" "set (ui_fields env) = {''email'', ''phone''}"
    "ui_matrix env [l] = Inr []" "ui_directory env [l] = Inr [row]" "getp row ''uid'' = JStr l" "truthy (getp row ''mail'')"
    "viewer \<noteq> Some i"
  shows "(\<forall>info. fst (get_info env i viewer s) = Inr (Some info) \<longrightarrow> getp info ''emails'' = Undef) \<and>
    (\<exists>info. fst (get_info env j viewer s) = Inr (Some info) \<and> getp info ''emails'' = JArr [getp row ''mail''])"
proof (intro conjI allI impI)
  fix info assume g: "fst (get_info env i viewer s) = Inr (Some info)"
  then obtain infos s1 where b: "getBatch env [i] viewer s = (Inr infos, s1)" "map_of infos i = Some info"
    by (auto simp: get_info_def split: prod.splits sum.splits)
  show "getp info ''emails'' = Undef"
  proof (rule ccontr)
    assume "getp info ''emails'' \<noteq> Undef"
    from batch_guard [OF assms(1,2) b(1) map_of_SomeD [OF b(2)] assms(19) _ this]
    obtain vf where vf: "in_force env (tab (sv_db s) ''profileSettings'') i vf" "open_to env viewer i vf (guard_of ''emails'')"
      by auto
    have "fst vf = JStr ''private''"
      using in_force_row [OF table_db.key_unique_rows [OF assms(1), OF assms(2) tom_schema_profile(2) assms(10,11)] vf(1)]
        assms(12) by simp
    with vf(2) show False by (simp add: open_to_def)
  qed
next
  have ids: "local_parts [j] = [(j, l)]" by (simp add: assms(5,6))
  show "\<exists>info. fst (get_info env j viewer s) = Inr (Some info) \<and> getp info ''emails'' = JArr [getp row ''mail'']"
  proof (rule profile_db.batch_run [OF tom_profile [OF assms(1)] refl assms(2), of "[j]" viewer])
    show "local_parts [j] \<noteq> []" unfolding ids by simp
  next
    fix e s'' assume "healthy (sv_db s) \<Longrightarrow> (\<exists>e. ui_matrix env (map snd (local_parts [j])) = Inl e) \<or>
         (\<exists>e. ui_directory env (map snd (local_parts [j])) = Inl e)"
    then show ?thesis using assms(3,15,16) unfolding ids by simp
  next
    fix src ms ds ps ss s''
    assume b: "getBatch env [j] viewer s = (case merge_users env viewer src (local_parts [j]) of
         Inl e \<Rightarrow> Inl (Err ''Error getting batch user info'') | Inr infos \<Rightarrow> Inr infos, s'')"
      and src: "so_matrix src = rows_by ''user_id'' ms" "so_directory src = rows_by ''uid'' ds"
        "so_profile src = rows_by ''matrix_id'' ps" "rows_read (tab (sv_db s) ''profileSettings'') [j] ps"
        "so_settings src = rows_by ''matrix_id'' (filter (\<lambda>r. truthy (ui_column env (getp r ''settings''))) ss)"
        "if ui_common env then rows_read (tab (sv_db s) ''usersettings'') [j] ss else ss = []"
      and m: "ui_matrix env (map snd (local_parts [j])) = Inr ms" "ui_directory env (map snd (local_parts [j])) = Inr ds"
    have f: "map_of (so_matrix src) l = None" "map_of (so_directory src) l = Some row" "map_of (so_settings src) j = None"
      using src m assms(7,15-17) unfolding ids by (auto simp: rows_by_def assms(6))
    have "in_force env (tab (sv_db s) ''profileSettings'') j (settings_for env (so_profile src) j)"
      unfolding src(3) by (rule profile_db.batch_settings [OF tom_profile [OF assms(1)], OF src(4), of j l]) (unfold ids, simp)
    then have "settings_for env (so_profile src) j = (default_visibility env, default_fields env)"
      using assms(9) by (auto simp: in_force_def)
    moreover have "default_visibility env = JStr ''public''" "default_fields env = JArr [JStr ''email'', JStr ''phone'']"
      by (simp_all add: default_visibility_def default_fields_def assms(13,14))
    ultimately have sf: "settings_for env (so_profile src) j = (JStr ''public'', JArr [JStr ''email'', JStr ''phone''])"
      by simp
    have see: "sees env viewer src j ''email'' = Inr True" "sees env viewer src j ''phone'' = Inr True"
      by (simp_all add: sees_def Let_def sf may_see_def profile_visible_def js_includes_def)
    obtain info where m: "merge_user env viewer src (j, l) = Inr (Some info)" "getp info ''emails'' = JArr [getp row ''mail'']"
      using merged_from_directory [OF f(2,3) assms(8) see assms(18)] by blast
    then have "fst (get_info env j viewer s) = Inr (Some info)" unfolding get_info_def b ids by simp
    with m(2) show ?thesis by blast
  qed
qed

text \<open>
  C24: The identifier in the body of an update replaces the one of the path that was checked: a user
  without a row of his own stores settings of his choice for somebody else who has none.
\<close>

theorem settings_stored_for_another_user:
  assumes "tom_database (ab_db (ui_ab env)) ok healthy tab" "ok (sv_db s)" "healthy (sv_db s)" "ui_ldap env"
    "authMiddleware authenticator req0 = Inr req" "userId req = Some u" "path_param req ''userId'' = u" "u \<noteq> []"
    "body req = JObj [(''matrix_id'', JStr v), (''visibility'', vis), (''visible_fields'', fs)]"
    "\<And>r. r \<in># tab (sv_db s) ''profileSettings'' \<Longrightarrow> \<not> sql_eq (getp r ''matrix_id'') (JStr u)"
    "\<And>r. r \<in># tab (sv_db s) ''profileSettings'' \<Longrightarrow> \<not> sql_eq (getp r ''matrix_id'') (JStr v)"
  shows "\<exists>s'. ui_handle env authenticator WriteVisibility req0 s =
      (Json 200 (JObj [(''matrix_id'', JStr v), (''visibility'', stored vis), (''visible_fields'', stored fs)]), s') \<and>
    tab (sv_db s') = (tab (sv_db s))(''profileSettings'' :=
      add_mset [(''matrix_id'', JStr v), (''visibility'', stored vis), (''visible_fields'', stored fs)]
        (tab (sv_db s) ''profileSettings''))"
proof -
  let ?vs = "[(''matrix_id'', JStr v), (''visibility'', vis), (''visible_fields'', fs)]"
  let ?row = "[(''matrix_id'', JStr v), (''visibility'', stored vis), (''visible_fields'', stored fs)]"
  note sch = tom_schema_profile profile_cols_def
  obtain q s1 where g: "on_db (db_get (ab_db (ui_ab env)) ''profileSettings'' [''*''] (Some [(''matrix_id'', JStr u)]) None) s = (q, s1)"
    by fastforce
  note r = addressbook_db.svc_get_star [OF tom_book [OF assms(1)], OF g assms(2)]
  have e: "{# r \<in># tab (sv_db s) ''profileSettings''. matches [(''matrix_id'', JStr u)] r #} = {#}"
    using assms(8,10) by (auto simp: table_db.matches_one [OF assms(1)] filter_mset_eq_conv)
  have q: "q = Inr []" "ok (sv_db s1)" "healthy (sv_db s1)" "tab (sv_db s1) = tab (sv_db s)"
    using r assms(3) e by (auto simp: sch)
  obtain i s2 where i: "on_db (db_insert (ab_db (ui_ab env)) ''profileSettings'' ?vs) s1 = (i, s2)" by fastforce
  then obtain x where x: "db_insert (ab_db (ui_ab env)) ''profileSettings'' ?vs (sv_db s1) = (i, x)" "sv_db s2 = x"
    by (auto elim!: on_dbE)
  have c: "complete profile_cols (stored_obj ?vs) = ?row"
    by (simp add: complete_def profile_cols_def stored_obj_def stored_def)
  note ins = table_db.insert_law [OF assms(1), OF q(2) _ _ _ x(1)]
  have "i = Inr [?row] \<and> tab (sv_db s2) = (tab (sv_db s))(''profileSettings'' := add_mset ?row (tab (sv_db s) ''profileSettings''))"
    using ins q(3,4) assms(11) x(2) by (cases i) (auto simp: sch c [unfolded profile_cols_def])
  moreover have "spread [(''matrix_id'', JStr u)] (own_props (body req)) = ?vs"
    by (simp add: assms(9) own_props_def)
  ultimately have "updateVisibility env u (body req) s = (Inr ?row, s2)"
    by (simp add: updateVisibility_def getUserSettings_def g q(1) createVisibilitySettings_def i)
  then have "ui_handle env authenticator WriteVisibility req0 s = (Json 200 (JObj ?row), s2)"
    by (simp add: ui_handle_def assms(4-7) ui_updateVisibility_def)
  with \<open>i = Inr [?row] \<and> _\<close> show ?thesis by blast
qed

text \<open>What an object of settings adds when no list of fields makes the merge fail.\<close>

lemma merge_settings_open:
  "\<exists>info'. merge_settings (Inr a) (Inr b) (JObj ps) info = Inr info' \<and> getp info' ''uid'' = getp info ''uid'' \<and>
     (\<forall>k \<in> {''display_name'', ''last_name'', ''first_name'', ''language'', ''timezone''}.
        truthy (getp ps k) \<longrightarrow> getp info' k = getp ps k)"
proof -
  have p: "\<exists>info'. push_private (Inr a) v k info = Inr info' \<and> (\<forall>k'. k' \<noteq> k \<longrightarrow> getp info' k' = getp info k')" for a v k info
    by (auto simp: push_private_def split: jsval.splits)
  define info3 where "info3 = copy_prop ps ''first_name'' ''givenName'' (copy_prop ps ''first_name'' ''first_name''
      (copy_prop ps ''last_name'' ''sn'' (copy_prop ps ''last_name'' ''last_name''
        (copy_prop ps ''display_name'' ''display_name'' info))))"
  obtain info4 where 4: "push_private (Inr a) (getp ps ''email'') ''emails'' info3 = Inr info4"
    "\<forall>k'. k' \<noteq> ''emails'' \<longrightarrow> getp info4 k' = getp info3 k'" using p by blast
  obtain info5 where 5: "push_private (Inr b) (getp ps ''phone'') ''phones'' info4 = Inr info5"
    "\<forall>k'. k' \<noteq> ''phones'' \<longrightarrow> getp info5 k' = getp info4 k'" using p by blast
  have "merge_settings (Inr a) (Inr b) (JObj ps) info =
      Inr (copy_prop ps ''timezone'' ''timezone'' (copy_prop ps ''language'' ''language'' info5))"
    by (simp add: merge_settings_def Let_def info3_def [symmetric] 4(1) 5(1))
  then show ?thesis
    by (intro exI conjI, assumption) (simp_all add: 4(2) 5(2) info3_def, simp_all add: copy_prop_def)
qed

lemma rows_by_unique:
  assumes "x \<in> set rows" "truthy (getp x k)" "js_str (getp x k) = i"
    "\<And>r. r \<in> set rows \<Longrightarrow> truthy (getp r k) \<Longrightarrow> js_str (getp r k) = i \<Longrightarrow> r = x"
  shows "map_of (rows_by k rows) i = Some x"
proof (cases "map_of (rows_by k rows) i")
  case None
  from rows_by_None [OF None assms(1,2)] assms(3) show ?thesis by simp
next
  case (Some r)
  with rows_by_Some [OF Some] assms(4) show ?thesis by simp
qed

text \<open>A viewer whose lists of fields are arrays.\<close>

lemma sees_total:
  assumes "in_force env rows i (settings_for env (so_profile src) i)"
    "\<And>r. r \<in># rows \<Longrightarrow> \<exists>vs. ui_column env (getp r ''visible_fields'') = JArr vs"
  shows "\<exists>b. sees env viewer src i x = Inr b"
proof -
  have "\<exists>vs. snd (settings_for env (so_profile src) i) = JArr vs"
    using assms by (fastforce simp: in_force_def default_fields_def js_coalesce_def)
  then show ?thesis by (auto simp: sees_def Let_def may_see_def js_includes_def)
qed

text \<open>The only row of a user in the table is the one that is merged.\<close>

lemma settings_row:
  assumes "getLocalPart u = Some l" "{# x \<in># rows. of_user u x #} = {#x#}"
    "mset ss = {# r \<in># rows. matches [(''matrix_id'', JArr (map JStr [u]))] r #}" "P x"
  shows "map_of (rows_by ''matrix_id'' (filter P ss)) u = Some x"
proof (rule rows_by_unique)
  have u: "u \<noteq> []" using local_part_head [OF assms(1)] by auto
  have "x \<in># {#x#}" by simp
  then have xin: "x \<in># rows" "of_user u x" unfolding assms(2) [symmetric] by simp_all
  have "x \<in># mset ss" unfolding assms(3) using xin u matches_ids [of u "[u]" x] by (simp add: of_user_def)
  then show "x \<in> set (filter P ss)" using assms(4) by simp
  show "truthy (getp x ''matrix_id'')" "js_str (getp x ''matrix_id'') = u"
    using xin(2) by (simp_all add: of_user_def truthy_local [OF assms(1)])
  show "r = x" if "r \<in> set (filter P ss)" "truthy (getp r ''matrix_id'')" "js_str (getp r ''matrix_id'') = u" for r
  proof -
    have "r \<in># mset ss" using that(1) by simp
    then have "r \<in># rows" unfolding assms(3) by simp
    then have "r \<in># {# x \<in># rows. of_user u x #}" using that(2,3) by (simp add: of_user_def truthy_local [OF assms(1)])
    then show ?thesis by (simp only: assms(2)) simp
  qed
qed

lemma merged_from_settings:
  assumes "map_of (so_settings src) u = Some x" "ui_column env (getp x ''settings'') = JObj p"
    "ui_features env \<or> map_of (so_matrix src) l \<noteq> None"
    "sees env viewer src u ''email'' = Inr a" "sees env viewer src u ''phone'' = Inr b"
    "k \<in> {''display_name'', ''last_name'', ''first_name'', ''language'', ''timezone''}" "truthy (getp p k)"
  shows "\<exists>info. merge_user env viewer src (u, l) = Inr (Some info) \<and> (getp info k = getp p k \<or> k = ''display_name'' \<and>
    (\<exists>c. map_of (so_contacts src) u = Some c \<and> truthy (getp c k) \<and> getp info k = getp c k))"
proof -
  obtain info2 where i2: "from_directory (sees env viewer src u) src l (from_matrix src u l) = Inr info2" "getp info2 ''uid'' = JStr u"
  proof (cases "map_of (so_directory src) l")
    case None
    then show ?thesis by (intro that [of "from_matrix src u l"]) (simp_all add: from_directory_def from_matrix_uid)
  next
    case (Some row)
    from merge_directory_open [of a b row "from_matrix src u l"] show ?thesis
      by (elim exE conjE, intro that) (simp_all add: from_directory_def Some assms(4,5) from_matrix_uid)
  qed
  from merge_settings_open [of a b p info2] obtain info where i3:
    "merge_settings (Inr a) (Inr b) (JObj p) info2 = Inr info" "getp info ''uid'' = getp info2 ''uid''"
    "\<forall>k \<in> {''display_name'', ''last_name'', ''first_name'', ''language'', ''timezone''}. truthy (getp p k) \<longrightarrow> getp info k = getp p k"
    by (elim exE conjE) (rule that)
  have i3: "from_settings env (sees env viewer src u) src u info2 = Inr info" "getp info ''uid'' = JStr u"
    "getp info k = getp p k"
    using i3(1,2) bspec [OF i3(3) assms(6)] assms(7) by (simp_all add: from_settings_def assms(1,2,4,5) i2(2))
  let ?info = "from_contacts src u info"
  have own: "getp ?info k = getp p k \<or> k = ''display_name'' \<and>
    (\<exists>c. map_of (so_contacts src) u = Some c \<and> truthy (getp c k) \<and> getp ?info k = getp c k)"
    using i3(3) by (auto simp: from_contacts_def copy_prop_def split: option.splits)
  have "getp ?info ''uid'' = JStr u"
    using i3(2) by (auto simp: from_contacts_def copy_prop_def split: option.splits)
  moreover have "getp ?info k \<noteq> Undef" "k \<noteq> ''uid''" using own assms(6,7) by auto
  ultimately have "1 < length ?info" by (intro two_props [of _ k "''uid''"]) auto
  then have "merge_user env viewer src (u, l) = Inr (Some ?info)"
    using assms(3) by (auto simp: merge_user_def i2(1) i3(1) Let_def)
  with own show ?thesis by blast
qed

text \<open>
  C25: The two components meet in the table of settings.  Suppose that the handler of the common
  settings has acknowledged a message for a user, that the user information reads that table without
  a failing source, with the common settings on, through a driver that parses the JSON columns (as
  that of PostgreSQL does), and that the additional features are on or the Matrix database knows the
  user.  Then, whoever asks, his profile shows each name, the language and the time zone that the
  message has; only the displayed name may be another one, that of a contact for the user in the
  list of the viewer's address book.
\<close>

theorem acknowledged_settings_shown:
  assumes "tom_database (ab_db (ui_ab env)) ok healthy tab" "cs_db cenv = ab_db (ui_ab env)"
    "ok (cs_store c)" "healthy (cs_store c)" "safeParseMessage raw = parsed" "field parsed ''payload'' = JObj p"
    "getp p ''matrix_id'' = JStr u" "getLocalPart u = Some l" "l \<noteq> []" "handleMessage cenv raw c = (Inr w, c')"
    "sv_db s = cs_store c'" "ok (sv_db s)" "healthy (sv_db s)" "ui_common env"
    "ui_matrix env [l] = Inr ms" "ui_directory env [l] = Inr ds"
    "ui_features env \<or> (\<exists>m \<in> set ms. getp m ''user_id'' = JStr l)"
    "ui_column env (JStr (str_of (JObj p))) = JObj p"
    "\<And>r. r \<in># tab (sv_db s) ''profileSettings'' \<Longrightarrow> \<exists>vs. ui_column env (getp r ''visible_fields'') = JArr vs"
    "k \<in> {''display_name'', ''last_name'', ''first_name'', ''language'', ''timezone''}" "truthy (getp p k)"
  shows "\<exists>info. fst (get_info env u viewer s) = Inr (Some info) \<and>
    (getp info k = getp p k \<or> k = ''display_name'' \<and> (\<exists>s2 c. tab (sv_db s2) = tab (sv_db s) \<and>
       c \<in> set (contacts_of env viewer s2) \<and> js_str (getp c ''mxid'') = u \<and> truthy (getp c k) \<and> getp info k = getp c k))"
proof -
  have u: "u \<noteq> []" using local_part_head [OF assms(8)] by auto
  have mid: "field (field parsed ''payload'') ''matrix_id'' = JStr u" unfolding assms(6) by (simp add: field_def assms(7))
  have "tom_database (cs_db cenv) ok healthy tab" using assms(1,2) by simp
  from processed_message [OF this assms(3-5) mid u assms(10)]
  have "user_rows (tab (sv_db s) ''usersettings'') u = {#(JStr (str_of (JObj p)), stored (field parsed ''version''))#}"
    by (simp add: assms(6,11) Let_def)
  then obtain x where x: "{# x \<in># tab (sv_db s) ''usersettings''. of_user u x #} = {#x#}"
    "getp x ''settings'' = JStr (str_of (JObj p))"
    by (auto simp: user_rows_def dest!: msed_map_invR)
  have ids: "local_parts [u] = [(u, l)]" by (simp add: assms(8,9))
  have ne: "local_parts [u] \<noteq> []" unfolding ids by simp
  show ?thesis
  proof (rule profile_db.batch_run [OF tom_profile [OF assms(1)] refl assms(12) ne, of viewer])
    fix e s'' assume "healthy (sv_db s) \<Longrightarrow> (\<exists>e. ui_matrix env (map snd (local_parts [u])) = Inl e) \<or>
         (\<exists>e. ui_directory env (map snd (local_parts [u])) = Inl e)"
    then show ?thesis using assms(13,15,16) unfolding ids by simp
  next
    fix src ms' ds' ps ss s''
    assume b: "getBatch env [u] viewer s = (case merge_users env viewer src (local_parts [u]) of
         Inl e \<Rightarrow> Inl (Err ''Error getting batch user info'') | Inr infos \<Rightarrow> Inr infos, s'')"
      and mx: "ui_matrix env (map snd (local_parts [u])) = Inr ms'" "so_matrix src = rows_by ''user_id'' ms'"
      and src: "so_profile src = rows_by ''matrix_id'' ps" "rows_read (tab (sv_db s) ''profileSettings'') [u] ps"
        "so_settings src = rows_by ''matrix_id'' (filter (\<lambda>r. truthy (ui_column env (getp r ''settings''))) ss)"
        "if ui_common env then rows_read (tab (sv_db s) ''usersettings'') [u] ss else ss = []"
      and book: "\<exists>s2. tab (sv_db s2) = tab (sv_db s) \<and> so_contacts src = rows_by ''mxid'' (contacts_of env viewer s2)"
    have row: "map_of (so_settings src) u = Some x"
      unfolding src(3) by (rule settings_row [OF assms(8) x(1)])
         (use src(4) assms(14) in \<open>unfold rows_read_def ids, simp\<close>, simp add: x(2) assms(18))
    have sees: "\<exists>b. sees env viewer src u y = Inr b" for y
      by (rule sees_total [OF _ assms(19)], unfold src(1),
          rule profile_db.batch_settings [OF tom_profile [OF assms(1)], OF src(2), of u l], unfold ids, simp)
    obtain a1 b1 where ab: "sees env viewer src u ''email'' = Inr a1" "sees env viewer src u ''phone'' = Inr b1"
      using sees [of "''email''"] sees [of "''phone''"] by blast
    have "ms' = ms" using mx(1) assms(15) unfolding ids by simp
    then have known: "ui_features env \<or> map_of (so_matrix src) l \<noteq> None"
      using assms(17,9) rows_by_None [of "''user_id''" ms l] unfolding mx(2) by fastforce
    have col: "ui_column env (getp x ''settings'') = JObj p" unfolding x(2) by (rule assms(18))
    obtain info where m: "merge_user env viewer src (u, l) = Inr (Some info)"
      "getp info k = getp p k \<or> k = ''display_name'' \<and>
        (\<exists>c. map_of (so_contacts src) u = Some c \<and> truthy (getp c k) \<and> getp info k = getp c k)"
      using merged_from_settings [OF row col known ab assms(20,21)] by blast
    have "fst (get_info env u viewer s) = Inr (Some info)" unfolding get_info_def b ids using m(1) by simp
    moreover obtain s2 where s2: "tab (sv_db s2) = tab (sv_db s)" "so_contacts src = rows_by ''mxid'' (contacts_of env viewer s2)"
      using book by blast
    have "getp info k = getp p k \<or> k = ''display_name'' \<and> (\<exists>s2 c. tab (sv_db s2) = tab (sv_db s) \<and>
       c \<in> set (contacts_of env viewer s2) \<and> js_str (getp c ''mxid'') = u \<and> truthy (getp c k) \<and> getp info k = getp c k)"
      using m(2) s2(1) rows_by_Some [of "''mxid''" "contacts_of env viewer s2" u] unfolding s2(2) by blast
    ultimately show ?thesis by blast
  qed
qed

section \<open>Witnesses\<close>

definition demo_profile_row :: "string \<Rightarrow> string \<Rightarrow> obj" where
  "demo_profile_row user vis = [(''matrix_id'', JStr user), (''visibility'', JStr vis), (''visible_fields'', JArr [JStr ''email''])]"

definition demo_ui :: "dialect \<Rightarrow> store ui_env" where
  "demo_ui dia = \<lparr>ui_ab = demo_env dia, ui_matrix = (\<lambda>ls. Inr []),
     ui_directory = (\<lambda>ls. Inr [[(''uid'', JStr ''bob''), (''cn'', JStr ''Bob''), (''mail'', JStr ''bob@x.org'')]]),
     ui_column = pg_jsonb, ui_features = True, ui_common = False, ui_server = ''twake.app'', ui_visibility = ''public'',
     ui_fields = [''email'', ''phone''], ui_ldap = True\<rparr>"

text \<open>Settings of bob, and two users without any.\<close>

definition demo_profiles :: "string \<Rightarrow> store svc" where
  "demo_profiles vis = \<lparr>sv_db = with_rows tom_store ''profileSettings'' [demo_profile_row ''@bob:x'' vis], sv_next = 0, sv_slept = []\<rparr>"

lemma demo_ui_tom: "tom_database (ab_db (ui_ab (demo_ui dia))) (store_wf tom_tables) store_healthy rows_of"
  by (simp add: demo_ui_def mem_tom)

lemma demo_profiles_facts: "store_wf tom_tables (sv_db (demo_profiles vis))" "store_healthy (sv_db (demo_profiles vis))"
  "rows_of (sv_db (demo_profiles vis)) ''profileSettings'' = {#demo_profile_row ''@bob:x'' vis#}"
proof -
  have t: "store_wf tom_tables (with_rows tom_store ''profileSettings'' [demo_profile_row ''@bob:x'' vis])"
    "rows_of (with_rows tom_store ''profileSettings'' [demo_profile_row ''@bob:x'' vis]) =
       (rows_of tom_store)(''profileSettings'' := mset [demo_profile_row ''@bob:x'' vis])"
    "faults (with_rows tom_store ''profileSettings'' [demo_profile_row ''@bob:x'' vis]) = faults tom_store"
    by (rule with_rows_ok [OF tom_store_wf];
        simp add: tom_schema_profile profile_cols_def demo_profile_row_def keys_of_def)+
  then show "store_wf tom_tables (sv_db (demo_profiles vis))" "store_healthy (sv_db (demo_profiles vis))"
    "rows_of (sv_db (demo_profiles vis)) ''profileSettings'' = {#demo_profile_row ''@bob:x'' vis#}"
    by (simp_all add: demo_profiles_def store_healthy_def tom_store_rows)
qed

theorem hidden_address_shown_elsewhere_witness:
  "\<exists>info. fst (get_info (demo_ui PG) ''@bob:y'' (Some ''@ann:x'') (demo_profiles ''private'')) = Inr (Some info) \<and>
     getp info ''emails'' = JArr [JStr ''bob@x.org'']"
proof -
  let ?row = "[(''uid'', JStr ''bob''), (''cn'', JStr ''Bob''), (''mail'', JStr ''bob@x.org'')]"
  let ?s = "demo_profiles ''private''"
  have l: "getLocalPart ''@bob:x'' = Some ''bob''" "getLocalPart ''@bob:y'' = Some ''bob''" by code_simp+
  have r: "demo_profile_row ''@bob:x'' ''private'' \<in># rows_of (sv_db ?s) ''profileSettings''"
    "sql_eq (getp (demo_profile_row ''@bob:x'' ''private'') ''matrix_id'') (JStr ''@bob:x'')"
    "getp (demo_profile_row ''@bob:x'' ''private'') ''visibility'' = JStr ''private''"
    by (simp_all add: demo_profiles_facts demo_profile_row_def sql_eq_def)
  have n: "\<not> sql_eq (getp r ''matrix_id'') (JStr ''@bob:y'')" if "r \<in># rows_of (sv_db ?s) ''profileSettings''" for r
    using that by (simp add: demo_profiles_facts demo_profile_row_def sql_eq_def)
  note h = hidden_address_shown_elsewhere [OF demo_ui_tom demo_profiles_facts(1,2) l _ _ _ n r, of PG ?row "Some ''@ann:x''"]
  show ?thesis using h by (simp add: demo_ui_def)
qed

theorem private_details_guarded_witness:
  "\<exists>vf. in_force (demo_ui PG) (rows_of (sv_db (demo_profiles ''public'')) ''profileSettings'') ''@bob:x'' vf \<and>
     open_to (demo_ui PG) (Some ''@ann:x'') ''@bob:x'' vf ''email''"
proof -
  let ?s = "demo_profiles ''public''"
  let ?info = "[(''uid'', JStr ''@bob:x''), (''display_name'', JStr ''Bob''), (''emails'', JArr [JStr ''bob@x.org''])]"
  have "fst (getBatch (demo_ui PG) [''@bob:x''] (Some ''@ann:x'') ?s) = Inr [(''@bob:x'', ?info)]" by code_simp
  then obtain s' where "getBatch (demo_ui PG) [''@bob:x''] (Some ''@ann:x'') ?s = (Inr [(''@bob:x'', ?info)], s')"
    by (metis prod.collapse)
  from private_details_guarded [OF demo_ui_tom demo_profiles_facts(1) this, of "''@bob:x''" ?info "''emails''"]
  show ?thesis by (simp add: guard_of_def)
qed

definition demo_visibility_req :: request where
  "demo_visibility_req = \<lparr>userId = None, accessToken = None, params = [(''userId'', ''@ann:x'')], query = [],
     body = JObj [(''matrix_id'', JStr ''@eve:x''), (''visibility'', JStr ''public''), (''visible_fields'', JArr [JStr ''email''])], headers = []\<rparr>"

theorem settings_stored_for_another_user_witness:
  "\<exists>s'. ui_handle (demo_ui PG) demo_auth WriteVisibility demo_visibility_req (demo_profiles ''private'') =
      (Json 200 (JObj (demo_profile_row ''@eve:x'' ''public'')), s') \<and>
    rows_of (sv_db s') ''profileSettings'' = {#demo_profile_row ''@eve:x'' ''public'', demo_profile_row ''@bob:x'' ''private''#}"
proof -
  let ?s = "demo_profiles ''private''"
  have n: "\<not> sql_eq (getp r ''matrix_id'') (JStr v)" if "r \<in># rows_of (sv_db ?s) ''profileSettings''" "v \<noteq> ''@bob:x''" for r v
    using that by (simp add: demo_profiles_facts demo_profile_row_def sql_eq_def)
  obtain req where a: "authMiddleware demo_auth demo_visibility_req = Inr req" "userId req = Some ''@ann:x''"
    "path_param req ''userId'' = ''@ann:x''" "body req = body demo_visibility_req"
    by (auto simp: authMiddleware_def demo_auth_def path_param_def demo_visibility_req_def)
  have b: "body req = JObj [(''matrix_id'', JStr ''@eve:x''), (''visibility'', JStr ''public''), (''visible_fields'', JArr [JStr ''email''])]"
    using a(4) by (simp add: demo_visibility_req_def)
  have l: "ui_ldap (demo_ui PG)" by (simp add: demo_ui_def)
  from settings_stored_for_another_user [OF demo_ui_tom demo_profiles_facts(1,2) l a(1-3) _ b n n]
  show ?thesis by (auto simp: demo_profile_row_def stored_def demo_profiles_facts)
qed

definition demo_settings_env :: "store ui_env" where
  "demo_settings_env = (demo_ui PG)\<lparr>ui_common := True\<rparr>"

definition demo_acknowledged :: "store svc" where
  "demo_acknowledged = \<lparr>sv_db = cs_store (snd (handleMessage (demo_cs_env PG) (str_of demo_message) demo_cs)), sv_next = 0, sv_slept = []\<rparr>"

lemma demo_acknowledged_facts: "store_wf tom_tables (sv_db demo_acknowledged)" "store_healthy (sv_db demo_acknowledged)"
  "rows_of (sv_db demo_acknowledged) ''profileSettings'' = {#}"
proof -
  let ?row = "settings_row ''@ann:x'' (JObj demo_settings) (JNum 2)"
  have d: "sv_db demo_acknowledged = with_rows tom_store ''usersettings'' [?row]" by code_simp
  have t: "store_wf tom_tables (with_rows tom_store ''usersettings'' [?row])"
    "rows_of (with_rows tom_store ''usersettings'' [?row]) = (rows_of tom_store)(''usersettings'' := mset [?row])"
    "faults (with_rows tom_store ''usersettings'' [?row]) = faults tom_store"
    by (rule with_rows_ok [OF tom_store_wf]; simp add: tom_schema_settings settings_cols_def settings_row_def keys_of_def)+
  then show "store_wf tom_tables (sv_db demo_acknowledged)" "store_healthy (sv_db demo_acknowledged)"
    "rows_of (sv_db demo_acknowledged) ''profileSettings'' = {#}"
    unfolding d by (simp_all add: store_healthy_def tom_store_rows)
qed

theorem acknowledged_settings_shown_witness:
  "\<exists>info. fst (get_info demo_settings_env ''@ann:x'' None demo_acknowledged) = Inr (Some info) \<and>
     getp info ''display_name'' = JStr ''Ann''"
proof -
  have t: "tom_database (ab_db (ui_ab demo_settings_env)) (store_wf tom_tables) store_healthy rows_of"
    "cs_db (demo_cs_env PG) = ab_db (ui_ab demo_settings_env)"
    by (simp_all add: demo_settings_env_def demo_ui_def demo_cs_env_def mem_tom)
  have l: "getLocalPart ''@ann:x'' = Some ''ann''" "''ann'' \<noteq> ([] :: string)" by (code_simp, simp)
  obtain c' where h: "handleMessage (demo_cs_env PG) (str_of demo_message) demo_cs = (Inr (), c')"
  proof -
    have "fst (handleMessage (demo_cs_env PG) (str_of demo_message) demo_cs) = Inr ()" by code_simp
    then show ?thesis by (intro that [of "snd (handleMessage (demo_cs_env PG) (str_of demo_message) demo_cs)"]) (simp add: prod_eq_iff)
  qed
  have s: "sv_db demo_acknowledged = cs_store c'" by (simp add: demo_acknowledged_def h)
  have e: "ui_common demo_settings_env" "ui_features demo_settings_env"
    "ui_column demo_settings_env (JStr (str_of (JObj demo_settings))) = JObj demo_settings"
    "ui_matrix demo_settings_env [''ann''] = Inr []"
    "ui_directory demo_settings_env [''ann''] = Inr [[(''uid'', JStr ''bob''), (''cn'', JStr ''Bob''), (''mail'', JStr ''bob@x.org'')]]"
    by (simp_all add: demo_settings_env_def demo_ui_def pg_jsonb_def json_parse_str_of demo_settings_def)
  have p: "getp demo_settings ''matrix_id'' = JStr ''@ann:x''" "truthy (getp demo_settings ''display_name'')"
    "getp demo_settings ''display_name'' = JStr ''Ann''"
    by (simp_all add: demo_settings_def)
  have r: "\<exists>vs. ui_column demo_settings_env (getp r ''visible_fields'') = JArr vs"
    if "r \<in># rows_of (sv_db demo_acknowledged) ''profileSettings''" for r
    using that by (simp add: demo_acknowledged_facts)
  from acknowledged_settings_shown [OF t demo_cs_facts(1,2) demo_message_facts(1,3) p(1) l h s
      demo_acknowledged_facts(1,2) e(1,4,5) disjI1 [OF e(2)] e(3) r _ p(2), of None]
  show ?thesis using p(3) by (auto simp: contacts_of_def)
qed

end
