(* ===== verification/MatrixApi.thy ===== *)
theory MatrixApi
  imports Http Express
begin

text \<open>
  The Matrix client API of the Tom server (\<open>packages/tom-server/src/matrix-api/client\<close>): creating a
  room with the power levels of the configuration and demoting its owner afterwards, and changing
  a display name.  The Matrix server is the \<open>network\<close> of \<open>Http\<close>.  The configuration is typed: power
  levels are an object, their \<open>users\<close> an object or missing, levels are numbers.
\<close>

section \<open>Power levels\<close>

record room_permissions =
  direct_chat :: "obj option"
  private_group_chat :: "obj option"
  public_group_chat :: "obj option"

text \<open>\<open>rp_permissions\<close> is missing when the configuration has no room permissions: reading one throws.\<close>

record room_config =
  rc_host :: string
  rc_permissions :: "room_permissions option"

text \<open>\<open>v && v.length === 1\<close>\<close>

definition length_is_one :: "jsval \<Rightarrow> bool" where
  "length_is_one v =
     (case v of
        JArr vs \<Rightarrow> length vs = 1
      | JStr s \<Rightarrow> length s = 1
      | JObj ps \<Rightarrow> getp ps ''length'' = JNum 1
      | _ \<Rightarrow> False)"

definition getDefaultPowerLevelContent :: "room_config \<Rightarrow> jsval \<Rightarrow> obj option" where
  "getDefaultPowerLevelContent cfg payload =
     (case (read_prop payload ''preset'', read_prop payload ''invite'', rc_permissions cfg) of
        (Inr preset, Inr invite, Some permissions) \<Rightarrow>
          if length_is_one invite then direct_chat permissions
          else if preset = JStr ''public_chat'' then public_group_chat permissions
          else private_group_chat permissions
      | _ \<Rightarrow> None)"

text \<open>The demotion level and the content without it.\<close>

definition extractCreatorBecomes :: "obj \<Rightarrow> jsval \<times> obj" where
  "extractCreatorBecomes content =
     (js_coalesce (getp content ''creator_becomes'') (JNum 90), del ''creator_becomes'' content)"

text \<open>\<open>key in object\<close> also finds what every object inherits.\<close>

definition object_prototype :: "string list" where
  "object_prototype = [''constructor'', ''__defineGetter__'', ''__defineSetter__'', ''hasOwnProperty'',
     ''__lookupGetter__'', ''__lookupSetter__'', ''isPrototypeOf'', ''propertyIsEnumerable'', ''toString'',
     ''valueOf'', ''__proto__'', ''toLocaleString'']"

definition key_in :: "string \<Rightarrow> obj \<Rightarrow> bool" where
  "key_in k ps \<longleftrightarrow> map_of ps k \<noteq> None \<or> k \<in> set object_prototype"

definition users_of :: "obj \<Rightarrow> obj" where
  "users_of content = (case getp content ''users'' of JObj ps \<Rightarrow> ps | _ \<Rightarrow> [])"

definition invited_users :: "jsval \<Rightarrow> jsval list" where
  "invited_users payload = (case payload of JObj ps \<Rightarrow> (case getp ps ''invite'' of JArr vs \<Rightarrow> vs | _ \<Rightarrow> []) | _ \<Rightarrow> [])"

definition updated_users :: "string \<Rightarrow> jsval \<Rightarrow> obj \<Rightarrow> jsval list \<Rightarrow> obj" where
  "updated_users roomOwner users_default initialUsers invited =
     foldl (\<lambda>users u. put (js_str u) (if u = JStr roomOwner then JNum 100 else js_coalesce users_default (JNum 0)) users)
       (put roomOwner (JNum 100) initialUsers)
       (filter (\<lambda>u. \<not> key_in (js_str u) initialUsers) invited)"

definition deepClone :: "jsval \<Rightarrow> jsval result" where
  "deepClone v = json_parse (str_of v)"

definition prepareCreateRoomBody :: "room_config \<Rightarrow> jsval \<Rightarrow> string \<Rightarrow> (jsval \<times> jsval option) result" where
  "prepareCreateRoomBody cfg payload roomOwner =
     (case deepClone payload of
        Inl e \<Rightarrow> Inl e
      | Inr body0 \<Rightarrow>
          (case getDefaultPowerLevelContent cfg payload of
             None \<Rightarrow> Inr (body0, None)
           | Some content0 \<Rightarrow>
               (case deepClone (JObj content0) of
                  Inl e \<Rightarrow> Inl e
                | Inr cloned \<Rightarrow>
                    let (level, content) = extractCreatorBecomes (own_props cloned);
                        users = updated_users roomOwner (getp content ''users_default'') (users_of content) (invited_users payload)
                    in Inr (JObj (put ''power_level_content_override'' (JObj (put ''users'' (JObj users) content))
                              (own_props body0)), Some level))))"

section \<open>Creating and demoting\<close>

definition is_ok :: "http_resp \<Rightarrow> bool" where
  "is_ok p \<longleftrightarrow> 200 \<le> hp_status p \<and> hp_status p \<le> 299"

definition create_request :: "room_config \<Rightarrow> string \<Rightarrow> jsval \<Rightarrow> http_req" where
  "create_request cfg authorization content =
     \<lparr>hq_method = ''POST'', hq_url = buildUrl (rc_host cfg) ''/_matrix/client/v3/createRoom'',
      hq_headers = [(''content-type'', JSON_TYPE), (''authorization'', authorization)], hq_body = str_of content\<rparr>"

definition power_level_url :: "room_config \<Rightarrow> jsval \<Rightarrow> string" where
  "power_level_url cfg roomId =
     buildUrl (rc_host cfg) (''/_matrix/client/v3/rooms/'' @ encodeURIComponent (js_str roomId) @ ''/state/m.room.power_levels'')"

definition read_levels_request :: "room_config \<Rightarrow> jsval \<Rightarrow> string \<Rightarrow> http_req" where
  "read_levels_request cfg roomId authorization =
     \<lparr>hq_method = ''GET'', hq_url = power_level_url cfg roomId, hq_headers = [(''authorization'', authorization)], hq_body = []\<rparr>"

definition write_levels_request :: "room_config \<Rightarrow> jsval \<Rightarrow> string \<Rightarrow> obj \<Rightarrow> http_req" where
  "write_levels_request cfg roomId authorization content =
     \<lparr>hq_method = ''PUT'', hq_url = power_level_url cfg roomId,
      hq_headers = [(''content-type'', JSON_TYPE), (''authorization'', authorization)], hq_body = str_of (JObj content)\<rparr>"

definition demotion_content :: "jsval \<Rightarrow> string \<Rightarrow> jsval \<Rightarrow> obj result" where
  "demotion_content current roomOwner level =
     (case read_prop current ''users'' of
        Inl e \<Rightarrow> Inl e
      | Inr users \<Rightarrow>
          Inr (put ''users'' (JObj (put roomOwner level (if truthy users then own_props users else []))) (own_props current)))"

definition demoteRoomOwner ::
  "room_config \<Rightarrow> network \<Rightarrow> jsval \<Rightarrow> string \<Rightarrow> string \<Rightarrow> jsval \<Rightarrow> http_log \<Rightarrow> unit result \<times> http_log" where
  "demoteRoomOwner cfg net roomId authorization roomOwner level log =
     (case http_fetch net (read_levels_request cfg roomId authorization) log of
        (Inl e, log1) \<Rightarrow> (Inl e, log1)
      | (Inr p, log1) \<Rightarrow>
          if \<not> is_ok p then (Inl (Err ''Failed to fetch current room power levels''), log1)
          else (case resp_json p of
                  Inl e \<Rightarrow> (Inl e, log1)
                | Inr current \<Rightarrow>
                    (case demotion_content current roomOwner level of
                       Inl e \<Rightarrow> (Inl e, log1)
                     | Inr content \<Rightarrow>
                         (case http_fetch net (write_levels_request cfg roomId authorization content) log1 of
                            (Inl e, log2) \<Rightarrow> (Inl e, log2)
                          | (Inr _, log2) \<Rightarrow> (Inr (), log2)))))"

definition internal_failure :: http_resp where
  "internal_failure = \<lparr>hp_status = 500, hp_headers = [(''content-type'', ''text/plain;charset=UTF-8'')],
     hp_body = ''Failed to create room due to an internal error.''\<rparr>"

text \<open>The log calls before the \<open>try\<close> read properties of the payload.\<close>

definition create_room ::
  "room_config \<Rightarrow> network \<Rightarrow> jsval \<Rightarrow> string \<Rightarrow> string \<Rightarrow> http_log \<Rightarrow> http_resp result \<times> http_log" where
  "create_room cfg net payload authorization roomOwner log =
     (if nullish payload then (Inl (Err ''Cannot read properties''), log)
      else case prepareCreateRoomBody cfg payload roomOwner of
             Inl _ \<Rightarrow> (Inr internal_failure, log)
           | Inr (content, demotion) \<Rightarrow>
               (case http_fetch net (create_request cfg authorization content) log of
                  (Inl _, log1) \<Rightarrow> (Inr internal_failure, log1)
                | (Inr p, log1) \<Rightarrow>
                    if \<not> is_ok p then (Inr p, log1)
                    else (case resp_json p of
                            Inl _ \<Rightarrow> (Inr internal_failure, log1)
                          | Inr created \<Rightarrow>
                              (case read_prop created ''room_id'' of
                                 Inl _ \<Rightarrow> (Inr internal_failure, log1)
                               | Inr roomId \<Rightarrow>
                                   (case demotion of
                                      None \<Rightarrow> (Inr p, log1)
                                    | Some level \<Rightarrow>
                                        (case demoteRoomOwner cfg net roomId authorization roomOwner level log1 of
                                           (Inl _, log2) \<Rightarrow> (Inr internal_failure, log2)
                                         | (Inr _, log2) \<Rightarrow> (Inr p, log2)))))))"

section \<open>Controllers and routes\<close>

definition c_createRoom :: "room_config \<Rightarrow> network \<Rightarrow> request \<Rightarrow> http_log \<Rightarrow> response \<times> http_log" where
  "c_createRoom cfg net req log =
     (if header req ''authorization'' = [] then (Json 400 (JObj [(''message'', JStr ''Authorization header is required'')]), log)
      else case userId req of
             None \<Rightarrow> (Json 400 (JObj [(''message'', JStr ''Missing room owner'')]), log)
           | Some roomOwner \<Rightarrow>
               if roomOwner = [] then (Json 400 (JObj [(''message'', JStr ''Missing room owner'')]), log)
               else (case create_room cfg net (body req) (header req ''authorization'') roomOwner log of
                       (Inl e, log1) \<Rightarrow> (NextError e, log1)
                     | (Inr p, log1) \<Rightarrow>
                         (case resp_json p of Inl e \<Rightarrow> (NextError e, log1) | Inr data \<Rightarrow> (Json (hp_status p) data, log1))))"

definition errcode :: "nat \<Rightarrow> string \<Rightarrow> string \<Rightarrow> response" where
  "errcode status code text = Json status (JObj [(''errcode'', JStr code), (''error'', JStr text)])"

text \<open>\<open>displayname == null || displayname.length === 0\<close>\<close>

definition no_name :: "jsval \<Rightarrow> bool" where
  "no_name v = (case v of JStr s \<Rightarrow> s = [] | JArr vs \<Rightarrow> vs = [] | JObj ps \<Rightarrow> getp ps ''length'' = JNum 0 | _ \<Rightarrow> nullish v)"

text \<open>The update of the service is a placeholder that always succeeds.\<close>

definition c_updateDisplayName :: "bool \<Rightarrow> request \<Rightarrow> response" where
  "c_updateDisplayName updates_allowed req =
     (let user = (case userId req of None \<Rightarrow> [] | Some u \<Rightarrow> u);
          name = (case body req of JObj ps \<Rightarrow> getp ps ''displayname'' | _ \<Rightarrow> Undef)
      in if map_of (headers req) ''authorization'' = None then errcode 400 ''M_UNAUTHORIZED'' ''Authorization header is required''
         else if \<not> updates_allowed then errcode 403 ''M_FORBIDDEN'' ''Profile fields are managed centrally via Common Settings''
         else if path_param req ''userId'' \<noteq> user
              then errcode 403 ''M_FORBIDDEN'' ''You are not allowed to change the display name of another user''
         else if user = [] then errcode 400 ''M_INVALID_PARAM'' ''Invalid user id''
         else if no_name name then errcode 400 ''M_MISSING_PARAMS'' (''Missing key '' @ [CHR 0x27] @ ''displayname'' @ [CHR 0x27])
         else Json 200 (JObj []))"

datatype matrix_route = CreateRoom | UpdateDisplayName

definition matrix_handle ::
  "room_config \<Rightarrow> bool \<Rightarrow> network \<Rightarrow> (request \<Rightarrow> auth_outcome) \<Rightarrow> matrix_route \<Rightarrow> request \<Rightarrow> http_log \<Rightarrow> response \<times> http_log" where
  "matrix_handle cfg updates_allowed net authenticator route req0 log =
     (case authMiddleware authenticator req0 of
        Inl r \<Rightarrow> (r, log)
      | Inr req \<Rightarrow>
          (case route of
             CreateRoom \<Rightarrow> c_createRoom cfg net req log
           | UpdateDisplayName \<Rightarrow> (c_updateDisplayName updates_allowed req, log)))"

section \<open>Documents\<close>

lemma put_values: "list_all (\<lambda>(_, v). P v) ps \<Longrightarrow> P v \<Longrightarrow> list_all (\<lambda>(_, v). P v) (put k v ps)"
  by (induction k v ps rule: put.induct) auto

lemma json_value_put: "json_value v \<Longrightarrow> json_value (JObj ps) \<Longrightarrow> json_value (JObj (put k v ps))"
  by (simp add: put_values distinct_put)

lemma json_value_del: "json_value (JObj ps) \<Longrightarrow> json_value (JObj (del k ps))"
  by (auto simp: del_def list_all_iff distinct_map inj_on_def)

lemma json_value_getp: "json_value (JObj ps) \<Longrightarrow> getp ps k = Undef \<or> json_value (getp ps k)"
  by (auto simp: getp_def list_all_iff split: option.splits dest: map_of_SomeD)

lemma deepClone_json: "json_value v \<Longrightarrow> deepClone v = Inr v"
  by (simp add: deepClone_def json_parse_str_of)

lemma json_value_users: "json_value (JObj content) \<Longrightarrow> json_value (JObj (users_of content))"
  using json_value_getp [of content "''users''"] by (auto simp: users_of_def split: jsval.splits)

lemma json_value_default: "json_value (JObj content) \<Longrightarrow> json_value (js_coalesce (getp content k) (JNum 0))"
  using json_value_getp [of content k] by (auto simp: js_coalesce_def)

section \<open>The levels of a new room\<close>

lemma updated_users_snoc:
  "updated_users owner d initial (us @ [u]) =
     (if key_in (js_str u) initial then updated_users owner d initial us
      else put (js_str u) (if u = JStr owner then JNum 100 else js_coalesce d (JNum 0)) (updated_users owner d initial us))"
  by (simp add: updated_users_def)

lemma json_value_updated:
  "json_value (JObj initial) \<Longrightarrow> json_value (js_coalesce d (JNum 0)) \<Longrightarrow> json_value (JObj (updated_users owner d initial us))"
proof (induction us rule: rev_induct)
  case Nil
  then show ?case using json_value_put [of "JNum 100" initial owner] by (simp add: updated_users_def)
next
  case (snoc u us)
  then have i: "json_value (JObj (updated_users owner d initial us))" by blast
  show ?case
    unfolding updated_users_snoc using json_value_put [OF _ i] i snoc.prems(2) by simp
qed

lemma updated_users_level:
  assumes "\<And>u. u \<in> set us \<Longrightarrow> \<exists>t. u = JStr t" "u \<notin> set object_prototype"
  shows "getp (updated_users owner d initial us) u =
    (if u = owner then JNum 100
     else if map_of initial u \<noteq> None then getp initial u
     else if JStr u \<in> set us then js_coalesce d (JNum 0) else Undef)"
  using assms(1)
proof (induction us rule: rev_induct)
  case Nil
  then show ?case by (auto simp: updated_users_def getp_def split: option.splits)
next
  case (snoc w us)
  obtain t where t: "w = JStr t" using snoc.prems by auto
  show ?case
    using snoc.IH snoc.prems assms(2) by (auto simp: updated_users_snoc t key_in_def)
qed

lemma prepared:
  assumes "json_value (JObj pl)" "getDefaultPowerLevelContent cfg (JObj pl) = Some content" "json_value (JObj content)"
  shows "prepareCreateRoomBody cfg (JObj pl) owner =
    Inr (JObj (put ''power_level_content_override'' (JObj (put ''users''
       (JObj (updated_users owner (getp content ''users_default'') (users_of content) (invited_users (JObj pl))))
       (del ''creator_becomes'' content))) pl), Some (js_coalesce (getp content ''creator_becomes'') (JNum 90)))"
proof -
  have "users_of (del ''creator_becomes'' content) = users_of content" by (simp add: users_of_def)
  then show ?thesis
    by (simp add: prepareCreateRoomBody_def deepClone_json assms own_props_def extractCreatorBecomes_def del: json_value.simps)
qed

lemma create_logs:
  assumes "prepareCreateRoomBody cfg (JObj pl) owner = Inr (content, demotion)"
    "create_room cfg net (JObj pl) auth owner log = (r, log')"
  shows "\<exists>a rest. log' = log @ (create_request cfg auth content, a) # rest"
  using assms
  by (auto simp: create_room_def http_fetch_def demoteRoomOwner_def
      split: if_splits sum.splits prod.splits option.splits)

lemma demote_Inr:
  assumes "demoteRoomOwner cfg net roomId auth owner level log = (Inr x, log')"
  shows "\<exists>g current content w. is_ok g \<and> resp_json g = Inr current \<and> demotion_content current owner level = Inr content \<and>
    log' = log @ [(read_levels_request cfg roomId auth, Inr g), (write_levels_request cfg roomId auth content, Inr w)]"
  using assms
  by (auto simp: demoteRoomOwner_def http_fetch_def split: if_splits sum.splits prod.splits)

text \<open>
  The power levels of a new room are those of the configuration, whatever the request asks for:
  the request to the Matrix server carries everything else of the payload, the levels of the
  configuration without the demotion level, a hundred for the owner, the configured level of a user
  the configuration names, and the default level for the other invited users.
\<close>

theorem room_levels_from_configuration:
  assumes "json_value (JObj pl)" "getDefaultPowerLevelContent cfg (JObj pl) = Some content" "json_value (JObj content)"
    "\<And>u. u \<in> set (invited_users (JObj pl)) \<Longrightarrow> \<exists>t. u = JStr t"
    "create_room cfg net (JObj pl) auth owner log = (r, log')"
  shows "\<exists>q a rest b levels users. log' = log @ (q, a) # rest \<and> hq_method q = ''POST'' \<and>
    hq_url q = buildUrl (rc_host cfg) ''/_matrix/client/v3/createRoom'' \<and> json_parse (hq_body q) = Inr (JObj b) \<and>
    (\<forall>k. k \<noteq> ''power_level_content_override'' \<longrightarrow> getp b k = getp pl k) \<and>
    getp b ''power_level_content_override'' = JObj levels \<and> getp levels ''users'' = JObj users \<and>
    getp levels ''creator_becomes'' = Undef \<and>
    (\<forall>k. k \<noteq> ''users'' \<and> k \<noteq> ''creator_becomes'' \<longrightarrow> getp levels k = getp content k) \<and>
    (\<forall>u. u \<notin> set object_prototype \<longrightarrow> getp users u =
      (if u = owner then JNum 100
       else if map_of (users_of content) u \<noteq> None then getp (users_of content) u
       else if JStr u \<in> set (invited_users (JObj pl)) then js_coalesce (getp content ''users_default'') (JNum 0)
       else Undef))"
proof -
  let ?users = "updated_users owner (getp content ''users_default'') (users_of content) (invited_users (JObj pl))"
  let ?levels = "put ''users'' (JObj ?users) (del ''creator_becomes'' content)"
  let ?b = "put ''power_level_content_override'' (JObj ?levels) pl"
  obtain a rest where l: "log' = log @ (create_request cfg auth (JObj ?b), a) # rest"
    using create_logs [OF prepared [OF assms(1-3)] assms(5)] by blast
  have "json_value (JObj ?users)"
    by (rule json_value_updated [OF json_value_users [OF assms(3)] json_value_default [OF assms(3)]])
  then have "json_value (JObj ?b)" by (intro json_value_put json_value_del assms(1,3))
  then have p: "json_parse (hq_body (create_request cfg auth (JObj ?b))) = Inr (JObj ?b)"
    by (simp add: create_request_def json_parse_str_of del: json_value.simps str_of.simps)
  show ?thesis
    by (rule exI [of _ "create_request cfg auth (JObj ?b)"], rule exI [of _ a], rule exI [of _ rest],
        rule exI [of _ ?b], rule exI [of _ ?levels], rule exI [of _ ?users])
       (use l p updated_users_level [OF assms(4)] in \<open>simp add: create_request_def del: str_of.simps\<close>)
qed

text \<open>
  When the creation of a room is answered as a success and the configuration has levels for it,
  three requests were made: the creation, a successful read of the room's levels, and a write of
  these levels in which only the owner's is changed, to the demotion level of the configuration.
\<close>

theorem created_room_owner_demoted:
  assumes "json_value (JObj pl)" "getDefaultPowerLevelContent cfg (JObj pl) = Some content" "json_value (JObj content)"
    "create_room cfg net (JObj pl) auth owner log = (Inr p, log')" "is_ok p"
  shows "\<exists>q created room g current users levels w.
    resp_json p = Inr created \<and> read_prop created ''room_id'' = Inr room \<and> is_ok g \<and> resp_json g = Inr current \<and>
    read_prop current ''users'' = Inr users \<and>
    log' = log @ [(q, Inr p), (read_levels_request cfg room auth, Inr g), (write_levels_request cfg room auth levels, Inr w)] \<and>
    (\<forall>k. k \<noteq> ''users'' \<longrightarrow> getp levels k = getp (own_props current) k) \<and>
    (\<exists>us. getp levels ''users'' = JObj us \<and> getp us owner = js_coalesce (getp content ''creator_becomes'') (JNum 90) \<and>
       (\<forall>u. u \<noteq> owner \<longrightarrow> getp us u = (if truthy users then getp (own_props users) u else Undef)))"
proof -
  let ?level = "js_coalesce (getp content ''creator_becomes'') (JNum 90)"
  obtain b where b: "prepareCreateRoomBody cfg (JObj pl) owner = Inr (b, Some ?level)"
    using prepared [OF assms(1-3)] by blast
  let ?q = "create_request cfg auth b"
  have nf: "p \<noteq> internal_failure" using assms(5) by (auto simp: internal_failure_def is_ok_def)
  obtain created room where c: "resp_json p = Inr created" "read_prop created ''room_id'' = Inr room"
    "demoteRoomOwner cfg net room auth owner ?level (log @ [(?q, Inr p)]) = (Inr (), log')"
    using assms(4,5) nf
    by (auto simp: create_room_def b http_fetch_def split: if_splits sum.splits prod.splits)
  from demote_Inr [OF c(3)] obtain g current levels w where d: "is_ok g" "resp_json g = Inr current"
    "demotion_content current owner ?level = Inr levels"
    "log' = (log @ [(?q, Inr p)]) @ [(read_levels_request cfg room auth, Inr g), (write_levels_request cfg room auth levels, Inr w)]"
    by blast
  obtain users where u: "read_prop current ''users'' = Inr users"
    "levels = put ''users'' (JObj (put owner ?level (if truthy users then own_props users else []))) (own_props current)"
    using d(3) by (auto simp: demotion_content_def split: sum.splits)
  show ?thesis
    by (rule exI [of _ ?q], rule exI [of _ created], rule exI [of _ room], rule exI [of _ g], rule exI [of _ current],
        rule exI [of _ users], rule exI [of _ levels], rule exI [of _ w])
       (use c(1,2) d(1,2,4) u in simp)
qed

text \<open>
  When the levels of the new room cannot be read, the room stays, its owner keeps the level
  hundred, and the caller gets an error instead of the identifier of the room: the text of the
  internal answer is not a document, so that even its status is lost.
\<close>

theorem undemotable_room_lost:
  assumes "header req ''authorization'' = auth" "auth \<noteq> []" "userId req = Some owner" "owner \<noteq> []" "\<not> nullish (body req)"
    "prepareCreateRoomBody cfg (body req) owner = Inr (content, Some level)"
    "net log (create_request cfg auth content) = Inr p" "is_ok p" "resp_json p = Inr created"
    "read_prop created ''room_id'' = Inr room"
    "net (log @ [(create_request cfg auth content, Inr p)]) (read_levels_request cfg room auth) = g"
    "case g of Inl _ \<Rightarrow> True | Inr x \<Rightarrow> \<not> is_ok x"
  shows "\<exists>e. c_createRoom cfg net req log =
    (NextError e, log @ [(create_request cfg auth content, Inr p), (read_levels_request cfg room auth, g)])"
proof -
  have j: "resp_json internal_failure = Inl (Err ''Unexpected token in JSON'')" by code_simp
  obtain e where d: "demoteRoomOwner cfg net room auth owner level (log @ [(create_request cfg auth content, Inr p)]) =
      (Inl e, (log @ [(create_request cfg auth content, Inr p)]) @ [(read_levels_request cfg room auth, g)])"
    using assms(11,12) by (auto simp: demoteRoomOwner_def http_fetch_def split: sum.splits)
  have "create_room cfg net (body req) auth owner log =
      (Inr internal_failure, log @ [(create_request cfg auth content, Inr p), (read_levels_request cfg room auth, g)])"
    using assms(5-10) d by (simp add: create_room_def http_fetch_def)
  then show ?thesis using j assms(1-4) by (auto simp: c_createRoom_def)
qed

section \<open>Witnesses\<close>

definition demo_levels :: obj where
  "demo_levels = [(''users_default'', JNum 0), (''invite'', JNum 50), (''creator_becomes'', JNum 60)]"

definition demo_room_config :: room_config where
  "demo_room_config = \<lparr>rc_host = ''https://m.x'', rc_permissions = Some \<lparr>direct_chat = None,
     private_group_chat = Some demo_levels, public_group_chat = None\<rparr>\<rparr>"

definition demo_payload :: obj where
  "demo_payload = [(''name'', JStr ''R''), (''invite'', JArr [JStr ''@bob:x'', JStr ''@eve:x'']),
     (''power_level_content_override'', JObj [(''users_default'', JNum 100)])]"

text \<open>A server that creates the room and refuses to show its levels unless \<open>readable\<close>.\<close>

definition demo_network :: "bool \<Rightarrow> network" where
  "demo_network readable log q =
     (if hq_method q = ''POST'' then Inr \<lparr>hp_status = 200, hp_headers = [], hp_body = str_of (JObj [(''room_id'', JStr ''!r:x'')])\<rparr>
      else if hq_method q = ''GET''
      then Inr \<lparr>hp_status = (if readable then 200 else 403), hp_headers = [],
                hp_body = str_of (JObj [(''users'', JObj [(''@ann:x'', JNum 100), (''@bob:x'', JNum 0)])])\<rparr>
      else Inr \<lparr>hp_status = 200, hp_headers = [], hp_body = str_of (JObj [])\<rparr>)"

lemma demo_room_facts:
  "json_value (JObj demo_payload)" "getDefaultPowerLevelContent demo_room_config (JObj demo_payload) = Some demo_levels"
  "json_value (JObj demo_levels)" "u \<in> set (invited_users (JObj demo_payload)) \<Longrightarrow> \<exists>t. u = JStr t"
  by (auto simp: demo_payload_def demo_levels_def getDefaultPowerLevelContent_def read_prop_def demo_room_config_def
      length_is_one_def invited_users_def)

theorem room_levels_from_configuration_witness:
  "\<exists>q b levels users. map fst (snd (create_room demo_room_config (demo_network True) (JObj demo_payload) ''Bearer t'' ''@ann:x'' [])) ! 0 = q \<and>
     json_parse (hq_body q) = Inr (JObj b) \<and> getp b ''power_level_content_override'' = JObj levels \<and>
     getp levels ''users'' = JObj users \<and> getp users ''@ann:x'' = JNum 100 \<and> getp users ''@bob:x'' = JNum 0 \<and>
     getp levels ''users_default'' = JNum 0"
proof -
  obtain r log' where c: "create_room demo_room_config (demo_network True) (JObj demo_payload) ''Bearer t'' ''@ann:x'' [] = (r, log')"
    by fastforce
  have f: "users_of demo_levels = []" "JStr ''@bob:x'' \<in> set (invited_users (JObj demo_payload))"
    "getp demo_levels ''users_default'' = JNum 0" "''@ann:x'' \<notin> set object_prototype" "''@bob:x'' \<notin> set object_prototype"
    by (simp_all add: users_of_def demo_levels_def invited_users_def demo_payload_def object_prototype_def)
  from room_levels_from_configuration [OF demo_room_facts c] obtain q a rest b levels users where
    "log' = (q, a) # rest" "json_parse (hq_body q) = Inr (JObj b)" "getp b ''power_level_content_override'' = JObj levels"
    "getp levels ''users'' = JObj users" "\<forall>k. k \<noteq> ''users'' \<and> k \<noteq> ''creator_becomes'' \<longrightarrow> getp levels k = getp demo_levels k"
    "\<forall>u. u \<notin> set object_prototype \<longrightarrow> getp users u =
      (if u = ''@ann:x'' then JNum 100
       else if map_of (users_of demo_levels) u \<noteq> None then getp (users_of demo_levels) u
       else if JStr u \<in> set (invited_users (JObj demo_payload)) then js_coalesce (getp demo_levels ''users_default'') (JNum 0)
       else Undef)" by auto
  with f c show ?thesis by (auto simp: js_coalesce_def)
qed

theorem created_room_owner_demoted_witness:
  "length (snd (create_room demo_room_config (demo_network True) (JObj demo_payload) ''Bearer t'' ''@ann:x'' [])) = 3"
proof -
  have "fst (create_room demo_room_config (demo_network True) (JObj demo_payload) ''Bearer t'' ''@ann:x'' []) =
    Inr \<lparr>hp_status = 200, hp_headers = [], hp_body = str_of (JObj [(''room_id'', JStr ''!r:x'')])\<rparr>" by code_simp
  then obtain log' where c: "create_room demo_room_config (demo_network True) (JObj demo_payload) ''Bearer t'' ''@ann:x'' [] =
    (Inr \<lparr>hp_status = 200, hp_headers = [], hp_body = str_of (JObj [(''room_id'', JStr ''!r:x'')])\<rparr>, log')"
    by (metis prod.collapse)
  from created_room_owner_demoted [OF demo_room_facts(1-3) c] show ?thesis unfolding c by (auto simp: is_ok_def)
qed

definition demo_room_req :: request where
  "demo_room_req = \<lparr>userId = Some ''@ann:x'', accessToken = None, params = [], query = [], body = JObj demo_payload,
     headers = [(''authorization'', ''Bearer t'')]\<rparr>"

theorem undemotable_room_lost_witness:
  "\<exists>e. fst (c_createRoom demo_room_config (demo_network False) demo_room_req []) = NextError e \<and>
     length (snd (c_createRoom demo_room_config (demo_network False) demo_room_req [])) = 2"
proof -
  let ?req = demo_room_req and ?p = "\<lparr>hp_status = 200, hp_headers = [], hp_body = str_of (JObj [(''room_id'', JStr ''!r:x'')])\<rparr>"
  have r: "header ?req ''authorization'' = ''Bearer t''" "''Bearer t'' \<noteq> []" "userId ?req = Some ''@ann:x''" "''@ann:x'' \<noteq> []"
    "\<not> nullish (body ?req)" "body ?req = JObj demo_payload"
    by (simp_all add: demo_room_req_def header_def)
  note c = prepared [OF demo_room_facts(1-3), of "''@ann:x''", folded r(6)]
  have n: "demo_network False [] (create_request demo_room_config ''Bearer t'' b) = Inr ?p" for b
    by (simp add: demo_network_def create_request_def)
  have g: "case demo_network False l (read_levels_request demo_room_config room ''Bearer t'') of Inl _ \<Rightarrow> True | Inr x \<Rightarrow> \<not> is_ok x" for l room
    by (simp add: demo_network_def read_levels_request_def is_ok_def)
  have p: "is_ok ?p" "resp_json ?p = Inr (JObj [(''room_id'', JStr ''!r:x'')])" "read_prop (JObj [(''room_id'', JStr ''!r:x'')]) ''room_id'' = Inr (JStr ''!r:x'')"
    by (simp_all add: is_ok_def resp_json_def json_parse_str_of read_prop_def del: str_of.simps)
  from undemotable_room_lost [of ?req, OF r(1-5) c, of "demo_network False" "[]", OF n p refl g] show ?thesis by auto
qed

end
