(* ===== verification/Authenticate.thy ===== *)
theory Authenticate
  imports IdDb Http Express MatrixIds
begin

text \<open>
  Who is allowed in: the authenticator of the identity server (\<open>matrix-identity-server/src/utils.ts\<close>),
  the one of the Tom server in front of it (\<open>tom-server/src/identity-server/utils/authenticate.ts\<close>),
  the validation of OpenID tokens and the account endpoints.  Both work on the state of the database
  and the log of the requests to the Matrix server; work that is started and not awaited is done at
  its start.  Query parameters are given once, so that their values are texts.
\<close>

record 's auth_st =
  as_db :: 's
  as_log :: http_log

definition as_on_db :: "('s \<Rightarrow> 'a \<times> 's) \<Rightarrow> 's auth_st \<Rightarrow> 'a \<times> 's auth_st" where
  "as_on_db f s = (case f (as_db s) of (r, x) \<Rightarrow> (r, s\<lparr>as_db := x\<rparr>))"

definition as_fetch :: "network \<Rightarrow> http_req \<Rightarrow> 's auth_st \<Rightarrow> http_resp result \<times> 's auth_st" where
  "as_fetch net q s = (case http_fetch net q (as_log s) of (r, log) \<Rightarrow> (r, s\<lparr>as_log := log\<rparr>))"

section \<open>The token of a request\<close>

text \<open>\<open>/^Bearer (\S+)$/\<close>\<close>

definition bearer_token :: "string \<Rightarrow> string option" where
  "bearer_token h =
     (let t = drop 7 h in
      if starts_with h ''Bearer '' \<and> t \<noteq> [] \<and> list_all (\<lambda>c. \<not> is_space c) t then Some t else None)"

definition request_token :: "request \<Rightarrow> string option" where
  "request_token req =
     (case map_of (headers req) ''authorization'' of
        Some h \<Rightarrow> bearer_token h
      | None \<Rightarrow> if query req \<noteq> [] then map_of (query req) ''access_token'' else None)"

text \<open>\<open>JSON.parse\<close> of the column; every caller reads a property of the content, which null has not.\<close>

definition stored_content :: "jsval \<Rightarrow> obj result" where
  "stored_content v =
     (case parse_col v of
        Inl e \<Rightarrow> Inl e
      | Inr w \<Rightarrow> if nullish w then Inl (Err ''Cannot read properties of null'') else Inr (own_props w))"

section \<open>The authenticator of the identity server\<close>

definition unauthorized :: response where
  "unauthorized = Json 401 (errMsg ''unAuthorized'' None)"

definition terms_not_signed :: response where
  "terms_not_signed = Json 403 (errMsg ''termsNotSigned'' None)"

definition id_authenticate :: "'s backend \<Rightarrow> bool \<Rightarrow> request \<Rightarrow> 's auth_st \<Rightarrow> auth_outcome \<times> 's auth_st" where
  "id_authenticate d requiresTerms req s =
     (case request_token req of
        None \<Rightarrow> (Answered unauthorized, s)
      | Some token \<Rightarrow>
          (case as_on_db (db_get d ''accessTokens'' [''data''] (Some [(''id'', JStr token)]) None) s of
             (Inl _, s1) \<Rightarrow> (Answered unauthorized, s1)
           | (Inr [], s1) \<Rightarrow> (Answered unauthorized, s1)
           | (Inr (row # _), s1) \<Rightarrow>
               (case stored_content (getp row ''data'') of
                  Inl _ \<Rightarrow> (Answered unauthorized, s1)
                | Inr content \<Rightarrow>
                    if \<not> requiresTerms then (CalledBack content (Some (Some token)), s1)
                    else (case as_on_db (db_get d ''userPolicies'' [''policy_name'', ''accepted'']
                                 (Some [(''user_id'', getp content ''sub'')]) None) s1 of
                            (Inl _, s2) \<Rightarrow> (Answered terms_not_signed, s2)
                          | (Inr policies, s2) \<Rightarrow>
                              (if list_ex (\<lambda>p. getp p ''accepted'' = JNum 0) policies then Answered terms_not_signed
                               else CalledBack content (Some (Some token)), s2)))))"

section \<open>The authenticator of the Tom server\<close>

definition whoami_request :: "string \<Rightarrow> string \<Rightarrow> http_req" where
  "whoami_request matrix_server token =
     \<lparr>hq_method = ''GET'', hq_url = ''https://'' @ matrix_server @ ''/_matrix/client/r0/account/whoami'',
      hq_headers = [(''authorization'', ''Bearer '' @ token)], hq_body = []\<rparr>"

definition user_of_whoami :: "http_resp result \<Rightarrow> jsval result" where
  "user_of_whoami r =
     (case r of
        Inl e \<Rightarrow> Inl e
      | Inr p \<Rightarrow> (case resp_json p of Inl e \<Rightarrow> Inl e | Inr userInfo \<Rightarrow> read_prop userInfo ''user_id''))"

definition ask_matrix ::
  "'s backend \<Rightarrow> string \<Rightarrow> network \<Rightarrow> int \<Rightarrow> bool \<Rightarrow> request \<Rightarrow> string \<Rightarrow> 's auth_st \<Rightarrow> auth_outcome \<times> 's auth_st" where
  "ask_matrix d matrix_server net now requiresTerms req token s =
     (case as_fetch net (whoami_request matrix_server token) s of
        (r, s1) \<Rightarrow>
          (case user_of_whoami r of
             Inl _ \<Rightarrow> (Answered unauthorized, s1)
           | Inr uid \<Rightarrow>
               if nullish uid then id_authenticate d requiresTerms req s1
               else let content = [(''sub'', uid), (''epoch'', JNum now)] in
                    (case as_on_db (db_insert d ''matrixTokens''
                             [(''id'', JStr token), (''data'', JStr (str_of (JObj content)))]) s1 of
                       (_, s2) \<Rightarrow> (CalledBack content (Some (Some token)), s2))))"

text \<open>The remote authenticator is called with three arguments, so that it requires the terms.\<close>

definition tom_authenticate ::
  "'s backend \<Rightarrow> string \<Rightarrow> network \<Rightarrow> int \<Rightarrow> request \<Rightarrow> 's auth_st \<Rightarrow> auth_outcome \<times> 's auth_st" where
  "tom_authenticate d matrix_server net now req s =
     (case request_token req of
        None \<Rightarrow> (Answered unauthorized, s)
      | Some token \<Rightarrow>
          (case as_on_db (db_get d ''matrixTokens'' [''data''] (Some [(''id'', JStr token)]) None) s of
             (Inl _, s1) \<Rightarrow> ask_matrix d matrix_server net now True req token s1
           | (Inr [], s1) \<Rightarrow> ask_matrix d matrix_server net now True req token s1
           | (Inr (row # _), s1) \<Rightarrow>
               (case stored_content (getp row ''data'') of
                  Inl _ \<Rightarrow> ask_matrix d matrix_server net now True req token s1
                | Inr content \<Rightarrow> (CalledBack content (Some (Some token)), s1))))"

section \<open>OpenID tokens\<close>

text \<open>\<open>/^((([a-zA-Z0-9][-a-zA-Z0-9]*)?[a-zA-Z0-9])[.])*([a-zA-Z][-a-zA-Z0-9]*[a-zA-Z0-9]|[a-zA-Z])(:(\d+))?$/\<close>\<close>

definition hostnameRe :: re where
  "hostnameRe =
     (let alpha = [(CHR ''a'', CHR ''z''), (CHR ''A'', CHR ''Z'')];
          label = RSeq (ROpt (RSeq (RCls alnum_cls) (RStar (RCls alnum_dash_cls)))) (RCls alnum_cls)
      in RSeqs [RStar (RSeq label (RChr CHR ''.'')),
           RAlt (RSeqs [RCls alpha, RStar (RCls alnum_dash_cls), RCls alnum_cls]) (RCls alpha),
           ROpt (RSeq (RChr CHR '':'') (RPlus (RCls d09)))])"

text \<open>\<open>/^@(.+?):[^:]+$/\<close>: the part before the last colon, on one line, and the part after it are not empty.\<close>

definition matrix_id_like :: "string \<Rightarrow> bool" where
  "matrix_id_like s =
     (case last_index_of CHR '':'' s of
        None \<Rightarrow> False
      | Some k \<Rightarrow> starts_with s ''@'' \<and> 2 \<le> k \<and> list_all (\<lambda>c. c \<noteq> CHR 0x0A \<and> c \<noteq> CHR 0x0D) (take k s) \<and> Suc k < length s)"

definition userinfo_request :: "string \<Rightarrow> string \<Rightarrow> http_req" where
  "userinfo_request baseUrl access =
     \<lparr>hq_method = ''GET'', hq_url = encodeURI (baseUrl @ ''_matrix/federation/v1/openid/userinfo?access_token='' @ access),
      hq_headers = [], hq_body = []\<rparr>"

text \<open>\<open>resolve\<close> is the package \<open>matrix-resolve\<close>.  The reason of a rejection is a text.\<close>

definition validateMatrixToken ::
  "(string \<Rightarrow> string option) \<Rightarrow> network \<Rightarrow> string \<Rightarrow> string \<Rightarrow> 's auth_st \<Rightarrow> (string + string) \<times> 's auth_st" where
  "validateMatrixToken resolve net matrixServer access s =
     (if \<not> re_test hostnameRe matrixServer then (Inl ''Bad matrix_server_name'', s)
      else case resolve matrixServer of
             None \<Rightarrow> (Inl ''Invalid server'', s)
           | Some baseUrl \<Rightarrow>
               (case as_fetch net (userinfo_request baseUrl access) s of
                  (Inl _, s1) \<Rightarrow> (Inl ''Token rejected'', s1)
                | (Inr p, s1) \<Rightarrow>
                    (case resp_json p of
                       Inl _ \<Rightarrow> (Inl ''Token rejected'', s1)
                     | Inr userInfo \<Rightarrow>
                         (case read_prop userInfo ''sub'' of
                            Inl _ \<Rightarrow> (Inl ''Token rejected'', s1)
                          | Inr v \<Rightarrow>
                              if nullish v then (Inl ''Invalid server'', s1)
                              else (case v of
                                      JStr sub \<Rightarrow> (if matrix_id_like sub then Inr sub else Inl ''Invalid response from Matrix Server'', s1)
                                    | _ \<Rightarrow> (Inl ''Token rejected'', s1))))))"

section \<open>Account\<close>

definition register_schema :: "(string \<times> bool) list" where
  "register_schema = [(''access_token'', True), (''expires_in'', True), (''matrix_server_name'', True), (''token_type'', True)]"

definition register ::
  "'s backend \<Rightarrow> (string \<Rightarrow> string option) \<Rightarrow> network \<Rightarrow> (nat \<Rightarrow> char) \<Rightarrow> nat \<Rightarrow> int \<Rightarrow> obj \<Rightarrow> 's auth_st \<Rightarrow> response \<times> 's auth_st" where
  "register d resolve net rnd pos now content s =
     (case validateParameters register_schema content of
        Sent status b \<Rightarrow> (Json (nat status) b, s)
      | Callback c \<Rightarrow>
          (case validateMatrixToken resolve net (js_str (getp c ''matrix_server_name'')) (js_str (getp c ''access_token'')) s of
             (Inl e, s1) \<Rightarrow> (Json 401 (errMsg ''sessionNotValidated'' (Some e)), s1)
           | (Inr sub, s1) \<Rightarrow>
               let token = randomString rnd pos 64 in
               (case as_on_db (db_insert d ''accessTokens''
                        [(''id'', JStr token), (''data'', JStr (str_of (JObj [(''sub'', JStr sub), (''epoch'', JNum now)])))]) s1 of
                  (Inl _, s2) \<Rightarrow> (Json 500 (errMsg ''unknown'' (Some ''Unable to create session'')), s2)
                | (Inr _, s2) \<Rightarrow> (Json 200 (JObj [(''token'', JStr token)]), s2))))"

type_synonym 's authenticator = "request \<Rightarrow> 's auth_st \<Rightarrow> auth_outcome \<times> 's auth_st"

definition account :: "'s authenticator \<Rightarrow> request \<Rightarrow> 's auth_st \<Rightarrow> response \<times> 's auth_st" where
  "account authenticate req s =
     (case authenticate req s of
        (Answered r, s1) \<Rightarrow> (r, s1)
      | (CalledBack content _, s1) \<Rightarrow> (Json 200 (JObj [(''user_id'', getp content ''sub'')]), s1))"

definition logout :: "'s backend \<Rightarrow> 's authenticator \<Rightarrow> request \<Rightarrow> 's auth_st \<Rightarrow> response \<times> 's auth_st" where
  "logout d authenticate req s =
     (case authenticate req s of
        (Answered r, s1) \<Rightarrow> (r, s1)
      | (CalledBack _ token, s1) \<Rightarrow>
          (case as_on_db (db_deleteEqual d ''accessTokens'' ''id''
                   (case token of Some (Some t) \<Rightarrow> JStr t | Some None \<Rightarrow> Null | None \<Rightarrow> Undef)) s1 of
             (Inl _, s2) \<Rightarrow> (Json 401 (errMsg ''unknownToken'' None), s2)
           | (Inr _, s2) \<Rightarrow> (Json 200 (JObj []), s2)))"

section \<open>What the tables give\<close>

definition session_cols :: "string list" where
  "session_cols = [''id'', ''data'']"

definition session_row :: "string \<Rightarrow> jsval \<Rightarrow> int \<Rightarrow> obj" where
  "session_row tok sub e = [(''id'', JStr tok), (''data'', JStr (str_of (JObj [(''sub'', sub), (''epoch'', JNum e)])))]"

lemma stored_session: "json_value sub \<Longrightarrow> stored_content (getp (session_row tok sub e) ''data'') = Inr [(''sub'', sub), (''epoch'', JNum e)]"
  by (simp add: stored_content_def session_row_def parse_col_def json_parse_str_of own_props_def del: str_of.simps)

lemma as_on_dbE:
  assumes "as_on_db f s = (r, s')"
  obtains x where "f (as_db s) = (r, x)" "s' = s\<lparr>as_db := x\<rparr>"
  using assms by (cases "f (as_db s)") (auto simp: as_on_db_def)

text \<open>The sessions of the two authenticators are tables of one shape.\<close>

locale session_db = table_db +
  assumes sessions: "schema ''accessTokens'' = session_cols" "key ''accessTokens'' = [''id'']"
      "schema ''matrixTokens'' = session_cols" "key ''matrixTokens'' = [''id'']"
    and policies: "schema ''userPolicies'' = [''user_id'', ''policy_name'', ''accepted'']"
begin

lemma read_session:
  assumes "t \<in> {''accessTokens'', ''matrixTokens''}" "wf (as_db s)"
    "as_on_db (db_get d t [''data''] (Some [(''id'', JStr tok)]) None) s = (r, s')"
  shows "wf (as_db s') \<and> (healthy (as_db s) \<longrightarrow> healthy (as_db s') \<and> (\<exists>rs. r = Inr rs)) \<and>
    tab (as_db s') = tab (as_db s) \<and> as_log s' = as_log s \<and>
    (\<forall>rs. r = Inr rs \<longrightarrow> mset rs = {# project [''data''] x. x \<in># {# x \<in># tab (as_db s) t. matches [(''id'', JStr tok)] x #} #})"
proof -
  obtain x where x: "db_get d t [''data''] (Some [(''id'', JStr tok)]) None (as_db s) = (r, x)" "s' = s\<lparr>as_db := x\<rparr>"
    using assms(3) by (rule as_on_dbE)
  have c: "''id'' \<in> set (schema t)" "[''data''] = [''*''] \<or> set [''data''] \<subseteq> set (schema t)"
    using assms(1) by (auto simp: sessions session_cols_def)
  show ?thesis
  proof (cases r)
    case (Inl e)
    then show ?thesis using get_one_Inl [OF x(1) [unfolded Inl] assms(2) c] x(2) by simp
  next
    case (Inr rs)
    then show ?thesis using get_one_Inr [OF x(1) [unfolded Inr] assms(2) c] x(2) by simp
  qed
qed

lemma read_session_row:
  assumes "t \<in> {''accessTokens'', ''matrixTokens''}" "wf (as_db s)"
    "as_on_db (db_get d t [''data''] (Some [(''id'', JStr tok)]) None) s = (Inr (row # rows), s')"
  shows "\<exists>x. x \<in># tab (as_db s) t \<and> (tok \<noteq> [] \<longrightarrow> sql_eq (getp x ''id'') (JStr tok)) \<and> getp row ''data'' = getp x ''data''"
proof -
  have "mset (row # rows) = {# project [''data''] x. x \<in># {# x \<in># tab (as_db s) t. matches [(''id'', JStr tok)] x #} #}"
    using read_session [OF assms] by blast
  moreover have "row \<in># mset (row # rows)" by simp
  ultimately have "row \<in># {# project [''data''] x. x \<in># {# x \<in># tab (as_db s) t. matches [(''id'', JStr tok)] x #} #}" by metis
  then obtain x where "x \<in># tab (as_db s) t" "matches [(''id'', JStr tok)] x" "row = project [''data''] x" by auto
  then show ?thesis by (intro exI [of _ x]) (auto simp: matches_one project_def)
qed

text \<open>Who passes the authenticator of the identity server.\<close>

lemma id_authenticate_only:
  assumes "wf (as_db s)" "request_token req = Some tok" "tok \<noteq> []"
    "id_authenticate d terms req s = (CalledBack content t, s')"
  shows "t = Some (Some tok) \<and> tab (as_db s') = tab (as_db s) \<and> as_log s' = as_log s \<and>
    (\<exists>x. x \<in># tab (as_db s) ''accessTokens'' \<and> sql_eq (getp x ''id'') (JStr tok) \<and> stored_content (getp x ''data'') = Inr content) \<and>
    (terms \<longrightarrow> (\<forall>p. p \<in># tab (as_db s) ''userPolicies'' \<longrightarrow> matches [(''user_id'', getp content ''sub'')] p \<longrightarrow> getp p ''accepted'' \<noteq> JNum 0))"
proof -
  obtain row rows s1 where g: "as_on_db (db_get d ''accessTokens'' [''data''] (Some [(''id'', JStr tok)]) None) s = (Inr (row # rows), s1)"
    "stored_content (getp row ''data'') = Inr content"
    "if terms then \<exists>ps. as_on_db (db_get d ''userPolicies'' [''policy_name'', ''accepted'']
         (Some [(''user_id'', getp content ''sub'')]) None) s1 = (Inr ps, s') \<and> \<not> list_ex (\<lambda>p. getp p ''accepted'' = JNum 0) ps
     else s' = s1" "t = Some (Some tok)"
    using assms(2,4) by (auto simp: id_authenticate_def split: prod.splits sum.splits list.splits if_splits)
  have t: "''accessTokens'' \<in> {''accessTokens'', ''matrixTokens''}" by simp
  note r = read_session [OF t assms(1) g(1)]
  obtain x where x: "x \<in># tab (as_db s) ''accessTokens''" "sql_eq (getp x ''id'') (JStr tok)" "getp row ''data'' = getp x ''data''"
    using read_session_row [OF t assms(1) g(1)] assms(3) by blast
  show ?thesis
  proof (cases terms)
    case False
    then show ?thesis using g r x by auto
  next
    case True
    then obtain ps where ps: "as_on_db (db_get d ''userPolicies'' [''policy_name'', ''accepted'']
         (Some [(''user_id'', getp content ''sub'')]) None) s1 = (Inr ps, s')" "\<not> list_ex (\<lambda>p. getp p ''accepted'' = JNum 0) ps"
      using g(3) by auto
    obtain y where y: "db_get d ''userPolicies'' [''policy_name'', ''accepted''] (Some [(''user_id'', getp content ''sub'')]) None (as_db s1) = (Inr ps, y)"
      "s' = s1\<lparr>as_db := y\<rparr>" using ps(1) by (rule as_on_dbE)
    have "tab y = tab (as_db s) \<and> mset ps = {# project [''policy_name'', ''accepted''] p. p \<in>#
        {# p \<in># tab (as_db s) ''userPolicies''. matches [(''user_id'', getp content ''sub'')] p #} #}"
      using get_one_Inr [OF y(1)] r by (simp add: policies)
    moreover have "getp p ''accepted'' \<noteq> JNum 0"
      if "p \<in># tab (as_db s) ''userPolicies''" "matches [(''user_id'', getp content ''sub'')] p" for p
    proof -
      have "project [''policy_name'', ''accepted''] p \<in># mset ps" using calculation that by simp
      then have "getp (project [''policy_name'', ''accepted''] p) ''accepted'' \<noteq> JNum 0"
        using ps(2) by (auto simp: list_ex_iff)
      then show ?thesis by (simp add: project_def)
    qed
    ultimately show ?thesis using g(2,4) r x y(2) by auto
  qed
qed

text \<open>A session that is the only one with its token, seen by the identity server.\<close>

lemma read_only_session:
  assumes "t \<in> {''accessTokens'', ''matrixTokens''}" "wf (as_db s)" "healthy (as_db s)"
    "session_row tok sub e \<in># tab (as_db s) t" "tok \<noteq> []"
  shows "\<exists>s1. as_on_db (db_get d t [''data''] (Some [(''id'', JStr tok)]) None) s =
      (Inr [project [''data''] (session_row tok sub e)], s1) \<and>
    wf (as_db s1) \<and> healthy (as_db s1) \<and> tab (as_db s1) = tab (as_db s) \<and> as_log s1 = as_log s"
proof -
  obtain r s1 where g: "as_on_db (db_get d t [''data''] (Some [(''id'', JStr tok)]) None) s = (r, s1)" by fastforce
  note q = read_session [OF assms(1,2) g]
  obtain rs where rs: "r = Inr rs" using q assms(3) by blast
  have k: "key t = [''id'']" using assms(1) sessions by auto
  have "sql_eq (getp (session_row tok sub e) ''id'') (JStr tok)" by (simp add: session_row_def sql_eq_def)
  then have "{# x \<in># tab (as_db s) t. sql_eq (getp x ''id'') (JStr tok) #} = {#session_row tok sub e#}"
    by (rule key_unique_rows [OF assms(2) k assms(4)])
  moreover have "matches [(''id'', JStr tok)] = (\<lambda>x. sql_eq (getp x ''id'') (JStr tok))"
    using assms(5) by (intro ext) (simp add: matches_one)
  ultimately have "mset rs = {#project [''data''] (session_row tok sub e)#}" using q rs by simp
  then have "rs = [project [''data''] (session_row tok sub e)]" by simp
  then show ?thesis using g rs q assms(3) by auto
qed

lemma data_of_session: "getp (project [''data''] x) ''data'' = getp x ''data''"
  by (simp add: project_def)

lemma id_authenticate_session:
  assumes "wf (as_db s)" "healthy (as_db s)" "session_row tok sub e \<in># tab (as_db s) ''accessTokens''" "json_value sub"
    "request_token req = Some tok" "tok \<noteq> []" "\<And>p. p \<in># tab (as_db s) ''userPolicies'' \<Longrightarrow> getp p ''accepted'' \<noteq> JNum 0"
  shows "\<exists>s'. id_authenticate d terms req s = (CalledBack [(''sub'', sub), (''epoch'', JNum e)] (Some (Some tok)), s') \<and>
    wf (as_db s') \<and> healthy (as_db s') \<and> tab (as_db s') = tab (as_db s)"
proof -
  have t: "''accessTokens'' \<in> {''accessTokens'', ''matrixTokens''}" by simp
  from read_only_session [OF t assms(1-3,6)] obtain s1 where s1:
    "as_on_db (db_get d ''accessTokens'' [''data''] (Some [(''id'', JStr tok)]) None) s =
      (Inr [project [''data''] (session_row tok sub e)], s1)"
    "wf (as_db s1)" "healthy (as_db s1)" "tab (as_db s1) = tab (as_db s)" by blast
  obtain q y where y: "db_get d ''userPolicies'' [''policy_name'', ''accepted''] (Some [(''user_id'', sub)]) None (as_db s1) = (q, y)"
    by fastforce
  have c: "schema ''userPolicies'' \<noteq> []" "[''policy_name'', ''accepted''] = [''*''] \<or> set [''policy_name'', ''accepted''] \<subseteq> set (schema ''userPolicies'')"
    "set (map fst (kept [(''user_id'', sub)])) \<subseteq> set (schema ''userPolicies'')"
    using kept_one [of "''user_id''" sub] by (auto simp: policies)
  note l = get_law [OF s1(2) c y]
  obtain ps where ps: "q = Inr ps" "mset ps = {# project [''policy_name'', ''accepted''] p. p \<in># {# p \<in># tab (as_db s1) ''userPolicies''. matches [(''user_id'', sub)] p #} #}"
    using l s1(3) by (cases q) auto
  have "\<not> list_ex (\<lambda>p. getp p ''accepted'' = JNum 0) ps"
  proof
    assume "list_ex (\<lambda>p. getp p ''accepted'' = JNum 0) ps"
    then obtain p where p: "p \<in> set ps" "getp p ''accepted'' = JNum 0" by (auto simp: list_ex_iff)
    then have "p \<in># mset ps" by simp
    then obtain p0 where "p0 \<in># tab (as_db s) ''userPolicies''" "p = project [''policy_name'', ''accepted''] p0"
      unfolding ps(2) s1(4) by auto
    then show False using assms(7) p(2) by (auto simp: project_def)
  qed
  moreover have "stored_content (getp (project [''data''] (session_row tok sub e)) ''data'') = Inr [(''sub'', sub), (''epoch'', JNum e)]"
    by (simp add: data_of_session stored_session assms(4))
  ultimately have "id_authenticate d terms req s = (CalledBack [(''sub'', sub), (''epoch'', JNum e)] (Some (Some tok)), if terms then s1\<lparr>as_db := y\<rparr> else s1)"
    using s1(1) by (simp add: id_authenticate_def assms(5) as_on_db_def y ps(1))
  then show ?thesis using l s1 ps(1) by auto
qed

text \<open>Who passes the authenticator of the Tom server.\<close>

lemma ask_matrix_only:
  assumes "wf (as_db s)" "request_token req = Some tok" "tok \<noteq> []"
    "ask_matrix d server net now True req tok s = (CalledBack content t, s')"
  shows "t = Some (Some tok) \<and> (\<exists>a. as_log s' = as_log s @ [(whoami_request server tok, a)] \<and>
    (\<exists>uid. user_of_whoami a = Inr uid \<and>
      (if nullish uid then
        (\<exists>x. x \<in># tab (as_db s) ''accessTokens'' \<and> sql_eq (getp x ''id'') (JStr tok) \<and> stored_content (getp x ''data'') = Inr content) \<and>
        (\<forall>p. p \<in># tab (as_db s) ''userPolicies'' \<longrightarrow> matches [(''user_id'', getp content ''sub'')] p \<longrightarrow> getp p ''accepted'' \<noteq> JNum 0)
       else content = [(''sub'', uid), (''epoch'', JNum now)])))"
proof -
  let ?a = "net (as_log s) (whoami_request server tok)"
  obtain s1 where f: "as_fetch net (whoami_request server tok) s = (?a, s1)" "as_db s1 = as_db s"
    "as_log s1 = as_log s @ [(whoami_request server tok, ?a)]"
    by (rule that [of "s\<lparr>as_log := as_log s @ [(whoami_request server tok, ?a)]\<rparr>"]) (simp_all add: as_fetch_def http_fetch_def)
  obtain uid where u: "user_of_whoami ?a = Inr uid"
    using assms(4) by (auto simp: ask_matrix_def f(1) split: sum.splits)
  show ?thesis
  proof (cases "nullish uid")
    case True
    then have "id_authenticate d True req s1 = (CalledBack content t, s')"
      using assms(4) by (simp add: ask_matrix_def f(1) u)
    from id_authenticate_only [OF _ assms(2,3) this] show ?thesis
      using f(2,3) u True assms(1) by (intro conjI exI [of _ ?a] exI [of _ uid]) auto
  next
    case False
    let ?c = "[(''sub'', uid), (''epoch'', JNum now)]"
    obtain r s2 where i: "as_on_db (db_insert d ''matrixTokens'' [(''id'', JStr tok), (''data'', JStr (str_of (JObj ?c)))]) s1 = (r, s2)"
      by fastforce
    then have "as_log s2 = as_log s1" by (auto elim!: as_on_dbE)
    moreover have "content = ?c" "t = Some (Some tok)" "s' = s2"
      using assms(4) False by (simp_all add: ask_matrix_def f(1) u i del: str_of.simps)
    ultimately show ?thesis using f(3) u False by (intro conjI exI [of _ ?a] exI [of _ uid]) auto
  qed
qed

end

lemma tom_schema_sessions:
  "schema_of tom_tables ''accessTokens'' = session_cols" "key_of tom_tables ''accessTokens'' = [''id'']"
  "schema_of tom_tables ''matrixTokens'' = session_cols" "key_of tom_tables ''matrixTokens'' = [''id'']"
  "schema_of tom_tables ''userPolicies'' = [''user_id'', ''policy_name'', ''accepted'']"
  unfolding tom_schema tom_key by code_simp+

lemma tom_sessions:
  "tom_database d ok healthy tab \<Longrightarrow> session_db d ok healthy tab (schema_of tom_tables) (key_of tom_tables)"
  by (intro session_db.intro session_db_axioms.intro) (simp_all add: tom_schema_sessions)

interpretation sessions: session_db "mem_db dia" "store_wf tom_tables" store_healthy rows_of
    "schema_of tom_tables" "key_of tom_tables"
  for dia
  by (rule tom_sessions [OF mem_tom])

section \<open>Properties\<close>

text \<open>
  C2: A request with a token that is not empty passes the Tom server only in three ways: the token is
  stored as a Matrix token, and the content is the stored one; or the Matrix server was asked who
  owns the token and named a user, and the content is this user now; or it named none, the token
  is one of the identity server, and its user has accepted all the policies stored for him.
\<close>

theorem authenticated_only_if:
  assumes "tom_database d ok healthy tab" "ok (as_db s)" "request_token req = Some tok" "tok \<noteq> []"
    "tom_authenticate d server net now req s = (CalledBack content t, s')"
  shows "t = Some (Some tok) \<and>
    ((\<exists>x. x \<in># tab (as_db s) ''matrixTokens'' \<and> sql_eq (getp x ''id'') (JStr tok) \<and> stored_content (getp x ''data'') = Inr content) \<or>
     (\<exists>a uid. as_log s' = as_log s @ [(whoami_request server tok, a)] \<and> user_of_whoami a = Inr uid \<and>
        (if nullish uid then
          (\<exists>x. x \<in># tab (as_db s) ''accessTokens'' \<and> sql_eq (getp x ''id'') (JStr tok) \<and> stored_content (getp x ''data'') = Inr content) \<and>
          (\<forall>p. p \<in># tab (as_db s) ''userPolicies'' \<longrightarrow> matches [(''user_id'', getp content ''sub'')] p \<longrightarrow> getp p ''accepted'' \<noteq> JNum 0)
         else content = [(''sub'', uid), (''epoch'', JNum now)])))"
proof -
  obtain r s1 where g: "as_on_db (db_get d ''matrixTokens'' [''data''] (Some [(''id'', JStr tok)]) None) s = (r, s1)" by fastforce
  have m: "''matrixTokens'' \<in> {''accessTokens'', ''matrixTokens''}" by simp
  note q = session_db.read_session [OF tom_sessions [OF assms(1)], OF m assms(2) g]
  have asked: ?thesis if "ask_matrix d server net now True req tok s1 = (CalledBack content t, s')"
    using session_db.ask_matrix_only [OF tom_sessions [OF assms(1)] _ assms(3,4) that] q by metis
  show ?thesis
  proof (cases r)
    case (Inl e)
    then show ?thesis using asked assms(5) by (simp add: tom_authenticate_def assms(3) g)
  next
    case (Inr rs)
    show ?thesis
    proof (cases rs)
      case Nil
      then show ?thesis using asked assms(5) Inr by (simp add: tom_authenticate_def assms(3) g)
    next
      case (Cons row rows)
      show ?thesis
      proof (cases "stored_content (getp row ''data'')")
        case (Inl e)
        then show ?thesis using asked assms(5) Inr Cons by (simp add: tom_authenticate_def assms(3) g)
      next
        case c: (Inr c)
        then have "c = content \<and> t = Some (Some tok)" using assms(5) Inr Cons by (simp add: tom_authenticate_def assms(3) g)
        moreover obtain x where "x \<in># tab (as_db s) ''matrixTokens''" "sql_eq (getp x ''id'') (JStr tok)" "getp row ''data'' = getp x ''data''"
          using session_db.read_session_row [OF tom_sessions [OF assms(1)], OF m assms(2)] g Inr Cons assms(4) by blast
        ultimately show ?thesis using c by auto
      qed
    qed
  qed
qed

text \<open>
  C1: A request without an authorization header and with an empty access token is let in as the owner
  of a stored token: the filter on the empty identifier is dropped, and the first session counts.
\<close>

theorem empty_access_token_accepted:
  assumes "tom_database d ok healthy tab" "ok (as_db s)" "healthy (as_db s)"
    "map_of (headers req) ''authorization'' = None" "map_of (query req) ''access_token'' = Some []"
    "tab (as_db s) ''matrixTokens'' \<noteq> {#}"
    "\<And>r. r \<in># tab (as_db s) ''matrixTokens'' \<Longrightarrow> \<exists>tok sub e. r = session_row tok (JStr sub) e"
  shows "\<exists>tok sub e. session_row tok (JStr sub) e \<in># tab (as_db s) ''matrixTokens'' \<and>
    fst (tom_authenticate d server net now req s) = CalledBack [(''sub'', JStr sub), (''epoch'', JNum e)] (Some (Some []))"
proof -
  obtain r s1 where g: "as_on_db (db_get d ''matrixTokens'' [''data''] (Some [(''id'', JStr [])]) None) s = (r, s1)" by fastforce
  have m: "''matrixTokens'' \<in> {''accessTokens'', ''matrixTokens''}" by simp
  have all: "matches [(''id'', JStr [])] = (\<lambda>_. True)" by (rule ext) (simp add: table_db.matches_one [OF assms(1)])
  note q = session_db.read_session [OF tom_sessions [OF assms(1)], OF m assms(2) g]
  obtain rs where rs: "r = Inr rs" "mset rs = {# project [''data''] x. x \<in># tab (as_db s) ''matrixTokens'' #}"
    using q assms(3) by (auto simp: all)
  then obtain row rows where row: "rs = row # rows" using assms(6) by (cases rs) auto
  then have "row \<in># mset rs" by simp
  then obtain x where x: "x \<in># tab (as_db s) ''matrixTokens''" "row = project [''data''] x" unfolding rs(2) by auto
  then obtain tok sub e where t: "x = session_row tok (JStr sub) e" using assms(7) by blast
  have c: "stored_content (getp row ''data'') = Inr [(''sub'', JStr sub), (''epoch'', JNum e)]"
    by (simp add: x(2) session_db.data_of_session [OF tom_sessions [OF assms(1)]] t stored_session)
  have "request_token req = Some []" using assms(4,5) by (auto simp: request_token_def)
  then have "fst (tom_authenticate d server net now req s) = CalledBack [(''sub'', JStr sub), (''epoch'', JNum e)] (Some (Some []))"
    using g rs(1) row c by (simp add: tom_authenticate_def)
  with x(1) t show ?thesis by blast
qed

text \<open>The user whom the home server of a name gives for an OpenID token.\<close>

definition named_by_home :: "(string \<Rightarrow> string option) \<Rightarrow> network \<Rightarrow> http_log \<Rightarrow> string \<Rightarrow> string \<Rightarrow> string \<Rightarrow> bool" where
  "named_by_home resolve net log server access sub \<longleftrightarrow>
     (\<exists>base p info. resolve server = Some base \<and> net log (userinfo_request base access) = Inr p \<and> resp_json p = Inr info \<and>
        read_prop info ''sub'' = Inr (JStr sub))"

lemma validated:
  assumes "validateMatrixToken resolve net server access s = (Inr sub, s')"
  shows "matrix_id_like sub \<and> as_db s' = as_db s \<and> named_by_home resolve net (as_log s) server access sub"
  using assms
  by (auto simp: validateMatrixToken_def as_fetch_def http_fetch_def named_by_home_def
      split: if_splits option.splits prod.splits sum.splits jsval.splits)

lemma validated_by_home:
  assumes "named_by_home resolve net (as_log s) server access sub" "re_test hostnameRe server" "matrix_id_like sub"
  shows "\<exists>log. validateMatrixToken resolve net server access s = (Inr sub, s\<lparr>as_log := log\<rparr>)"
  using assms by (auto simp: validateMatrixToken_def as_fetch_def http_fetch_def named_by_home_def read_prop_def split: if_splits)

lemma refused_400: "validateParameters desc content = Sent status b \<longleftrightarrow>
    status = 400 \<and> missing_params desc content \<noteq> [] \<and>
    b = errMsg ''missingParams'' (Some (''Missing parameters '' @ join '', '' (missing_params desc content)))"
  by (auto simp: validateParameters_def Let_def)

lemma delete_session:
  assumes "tom_database d ok healthy tab" "ok s" "healthy s" "tok \<noteq> []" "db_deleteEqual d ''accessTokens'' ''id'' (JStr tok) s = (q, z)"
  shows "\<exists>u. q = Inr u \<and> ok z \<and> healthy z \<and>
    tab z = (tab s)(''accessTokens'' := {# x \<in># tab s ''accessTokens''. \<not> sql_eq (getp x ''id'') (JStr tok) #})"
proof -
  have "''id'' \<in> set (schema_of tom_tables ''accessTokens'')" by (simp add: tom_schema_sessions session_cols_def)
  note l = table_db.delete_law [OF assms(1), OF assms(2) this assms(5)]
  have "\<not> bad_condition ''id'' (JStr tok)" using assms(4) by (simp add: bad_condition_def)
  then show ?thesis using l assms(3) by (cases q) auto
qed

lemma unauthorized_without_session:
  assumes "tom_database d ok healthy tab" "ok (as_db s)" "healthy (as_db s)" "request_token req = Some tok" "tok \<noteq> []"
    "\<And>x. x \<in># tab (as_db s) ''accessTokens'' \<Longrightarrow> \<not> sql_eq (getp x ''id'') (JStr tok)"
  shows "fst (id_authenticate d terms req s) = Answered unauthorized"
proof -
  obtain r s1 where g: "as_on_db (db_get d ''accessTokens'' [''data''] (Some [(''id'', JStr tok)]) None) s = (r, s1)" by fastforce
  have m: "''accessTokens'' \<in> {''accessTokens'', ''matrixTokens''}" by simp
  have e: "{# x \<in># tab (as_db s) ''accessTokens''. matches [(''id'', JStr tok)] x #} = {#}"
    using assms(5,6) by (auto simp: filter_mset_eq_conv table_db.matches_one [OF assms(1)])
  obtain rs where "r = Inr rs"
    "mset rs = image_mset (project [''data'']) {# x \<in># tab (as_db s) ''accessTokens''. matches [(''id'', JStr tok)] x #}"
    using session_db.read_session [OF tom_sessions [OF assms(1)], OF m assms(2) g] assms(3) by blast
  then have "r = Inr []" by (simp only: e image_mset_empty mset_zero_iff)
  then show ?thesis by (simp add: id_authenticate_def assms(4) g)
qed

text \<open>
  C20: A registered token is good until its logout, on a database without failures that has no policy
  left to accept.  A registration that is answered with a token has stored one session, of the very user
  whom the home server of the request named for its OpenID token; the token then authenticates this user;
  logging out with it succeeds, and the token is refused afterwards.
\<close>

theorem registered_until_logout:
  assumes "tom_database d ok healthy tab" "ok (as_db s)" "healthy (as_db s)"
    "register d resolve net rnd pos now content s = (Json 200 (JObj [(''token'', JStr tok)]), s1)"
    "request_token req = Some tok" "tok \<noteq> []"
    "\<And>p. p \<in># tab (as_db s) ''userPolicies'' \<Longrightarrow> getp p ''accepted'' \<noteq> JNum 0"
    "logout d (id_authenticate d True) req s1 = (r, s2)"
  shows "\<exists>sub. named_by_home resolve net (as_log s) (js_str (getp content ''matrix_server_name'')) (js_str (getp content ''access_token'')) sub \<and>
      tab (as_db s1) = (tab (as_db s))(''accessTokens'' := add_mset (session_row tok (JStr sub) now) (tab (as_db s) ''accessTokens'')) \<and>
      fst (id_authenticate d True req s1) = CalledBack [(''sub'', JStr sub), (''epoch'', JNum now)] (Some (Some tok)) \<and>
      r = Json 200 (JObj []) \<and> fst (id_authenticate d True req s2) = Answered unauthorized"
proof -
  let ?vs = "\<lambda>sub. [(''id'', JStr tok), (''data'', JStr (str_of (JObj [(''sub'', JStr sub), (''epoch'', JNum now)])))]"
  have cb: "c = content" if "validateParameters register_schema content = Callback c" for c
    using that by (auto simp: validateParameters_def Let_def split: if_splits)
  obtain c sub s0 rows where cc: "validateParameters register_schema content = Callback c"
    and v0: "validateMatrixToken resolve net (js_str (getp c ''matrix_server_name'')) (js_str (getp c ''access_token'')) s = (Inr sub, s0)"
    and v2: "as_on_db (db_insert d ''accessTokens'' (?vs sub)) s0 = (Inr rows, s1)"
    using assms(4)
    by (auto simp: register_def Let_def refused_400 simp del: str_of.simps split: reply.splits prod.splits sum.splits)
  note v = v0 [unfolded cb [OF cc]] v2
  note val = validated [OF v(1)]
  let ?row = "session_row tok (JStr sub) now"
  obtain x where x: "db_insert d ''accessTokens'' (?vs sub) (as_db s) = (Inr rows, x)" "as_db s1 = x"
    using v(2) val by (auto elim!: as_on_dbE)
  have row: "complete session_cols (stored_obj (?vs sub)) = ?row"
    by (simp add: complete_def session_cols_def stored_obj_def stored_def session_row_def)
  have c: "schema_of tom_tables ''accessTokens'' \<noteq> []" "?vs sub \<noteq> []" "set (map fst (?vs sub)) \<subseteq> set (schema_of tom_tables ''accessTokens'')"
    by (simp_all add: tom_schema_sessions session_cols_def)
  from table_db.insert_law [OF assms(1), OF assms(2) c x(1)] row
  have s1: "ok (as_db s1)" "healthy (as_db s1)" "tab (as_db s1) = (tab (as_db s))(''accessTokens'' := add_mset ?row (tab (as_db s) ''accessTokens''))"
    using assms(3) x(2) by (auto simp: tom_schema_sessions)
  have in1: "?row \<in># tab (as_db s1) ''accessTokens''" "\<And>p. p \<in># tab (as_db s1) ''userPolicies'' \<Longrightarrow> getp p ''accepted'' \<noteq> JNum 0"
    using s1(3) assms(7) by simp_all
  obtain y where y: "id_authenticate d True req s1 = (CalledBack [(''sub'', JStr sub), (''epoch'', JNum now)] (Some (Some tok)), y)"
    "ok (as_db y)" "healthy (as_db y)" "tab (as_db y) = tab (as_db s1)"
    using session_db.id_authenticate_session [OF tom_sessions [OF assms(1)], OF s1(1,2) in1(1) _ assms(5,6) in1(2)] by fastforce
  obtain q z where del: "db_deleteEqual d ''accessTokens'' ''id'' (JStr tok) (as_db y) = (q, z)" by fastforce
  obtain u where q: "q = Inr u" "ok z" "healthy z"
    "tab z = (tab (as_db y))(''accessTokens'' := {# x \<in># tab (as_db y) ''accessTokens''. \<not> sql_eq (getp x ''id'') (JStr tok) #})"
    using delete_session [OF assms(1) y(2,3) assms(6) del] by blast
  have r: "r = Json 200 (JObj [])" "as_db s2 = z"
    using assms(8) by (auto simp: logout_def y(1) as_on_db_def del q(1))
  have "fst (id_authenticate d True req s2) = Answered unauthorized"
    by (rule unauthorized_without_session [OF assms(1) _ _ assms(5,6)]) (use q r(2) in auto)
  moreover have "fst (id_authenticate d True req s1) = CalledBack [(''sub'', JStr sub), (''epoch'', JNum now)] (Some (Some tok))"
    by (simp add: y(1))
  ultimately show ?thesis using val r(1) s1(3) by (intro exI [of _ sub] conjI) simp_all
qed

text \<open>
  The server of the user is not compared with the one that was asked: a home server obtains a session
  for any user, of any server, whom it names.
\<close>

theorem home_server_names_anyone:
  assumes "tom_database d ok healthy tab" "ok (as_db s)" "healthy (as_db s)"
    "validateParameters register_schema content = Callback content"
    "named_by_home resolve net (as_log s) (js_str (getp content ''matrix_server_name'')) (js_str (getp content ''access_token'')) sub"
    "re_test hostnameRe (js_str (getp content ''matrix_server_name''))" "matrix_id_like sub"
    "\<And>x. x \<in># tab (as_db s) ''accessTokens'' \<Longrightarrow> \<not> sql_eq (getp x ''id'') (JStr (randomString rnd pos 64))"
  shows "fst (register d resolve net rnd pos now content s) = Json 200 (JObj [(''token'', JStr (randomString rnd pos 64))])"
proof -
  let ?tok = "randomString rnd pos 64"
  let ?vs = "[(''id'', JStr ?tok), (''data'', JStr (str_of (JObj [(''sub'', JStr sub), (''epoch'', JNum now)])))]"
  obtain log where v: "validateMatrixToken resolve net (js_str (getp content ''matrix_server_name'')) (js_str (getp content ''access_token'')) s =
      (Inr sub, s\<lparr>as_log := log\<rparr>)"
    using validated_by_home [OF assms(5-7)] by blast
  obtain q x where q: "db_insert d ''accessTokens'' ?vs (as_db s) = (q, x)" by fastforce
  have row: "complete session_cols (stored_obj ?vs) = session_row ?tok (JStr sub) now"
    by (simp add: complete_def session_cols_def stored_obj_def stored_def session_row_def)
  have c: "schema_of tom_tables ''accessTokens'' \<noteq> []" "?vs \<noteq> []" "set (map fst ?vs) \<subseteq> set (schema_of tom_tables ''accessTokens'')"
    by (simp_all add: tom_schema_sessions session_cols_def)
  have "\<exists>rs. q = Inr rs"
    using table_db.insert_law [OF assms(1), OF assms(2) c q] assms(3,8)
    by (cases q) (auto simp: tom_schema_sessions row session_row_def)
  then show ?thesis using q v assms(4) by (auto simp: register_def as_on_db_def Let_def simp del: str_of.simps)
qed

text \<open>
  Logging out of the Tom server with a Matrix token is answered as a success and ends nothing:
  the token is deleted from the other table, and it is let in as before.
\<close>

theorem logout_keeps_matrix_session:
  assumes "tom_database d ok healthy tab" "ok (as_db s)" "healthy (as_db s)" "request_token req = Some tok" "tok \<noteq> []"
    "session_row tok (JStr sub) e \<in># tab (as_db s) ''matrixTokens''"
    "logout d (tom_authenticate d server net now) req s = (r, s1)"
  shows "r = Json 200 (JObj []) \<and>
    fst (tom_authenticate d server net later req s1) = CalledBack [(''sub'', JStr sub), (''epoch'', JNum e)] (Some (Some tok))"
proof -
  have m: "''matrixTokens'' \<in> {''accessTokens'', ''matrixTokens''}" by simp
  let ?content = "[(''sub'', JStr sub), (''epoch'', JNum e)]"
  have auth: "\<exists>y. tom_authenticate d server net n req x = (CalledBack ?content (Some (Some tok)), y) \<and>
      ok (as_db y) \<and> healthy (as_db y) \<and> tab (as_db y) = tab (as_db x)"
    if "ok (as_db x)" "healthy (as_db x)" "session_row tok (JStr sub) e \<in># tab (as_db x) ''matrixTokens''" for x n
  proof -
    from session_db.read_only_session [OF tom_sessions [OF assms(1)], OF m that assms(5)] obtain y where
      y: "as_on_db (db_get d ''matrixTokens'' [''data''] (Some [(''id'', JStr tok)]) None) x =
          (Inr [project [''data''] (session_row tok (JStr sub) e)], y)"
        "ok (as_db y)" "healthy (as_db y)" "tab (as_db y) = tab (as_db x)" by blast
    have "stored_content (getp (project [''data''] (session_row tok (JStr sub) e)) ''data'') = Inr ?content"
      by (simp add: session_db.data_of_session [OF tom_sessions [OF assms(1)]] stored_session)
    then show ?thesis using y by (simp add: tom_authenticate_def assms(4))
  qed
  obtain y where y: "tom_authenticate d server net now req s = (CalledBack ?content (Some (Some tok)), y)"
    "ok (as_db y)" "healthy (as_db y)" "tab (as_db y) = tab (as_db s)"
    using auth [OF assms(2,3,6)] by blast
  obtain q z where del: "db_deleteEqual d ''accessTokens'' ''id'' (JStr tok) (as_db y) = (q, z)" by fastforce
  obtain u where q: "q = Inr u" "ok z" "healthy z"
    "tab z = (tab (as_db y))(''accessTokens'' := {# x \<in># tab (as_db y) ''accessTokens''. \<not> sql_eq (getp x ''id'') (JStr tok) #})"
    using delete_session [OF assms(1) y(2,3) assms(5) del] by blast
  have s1: "r = Json 200 (JObj [])" "as_db s1 = z"
    using assms(7) by (auto simp: logout_def y(1) as_on_db_def del q(1))
  have "session_row tok (JStr sub) e \<in># tab (as_db s1) ''matrixTokens''" using assms(6) y(4) q(4) s1(2) by simp
  from auth [OF _ _ this, of later] q(2,3) s1 show ?thesis by fastforce
qed

section \<open>Witnesses\<close>

definition demo_sessions :: "store auth_st" where
  "demo_sessions = \<lparr>as_db = with_rows tom_store ''matrixTokens'' [session_row ''mat'' (JStr ''@bob:x'') 5], as_log = []\<rparr>"

definition demo_request :: "(string \<times> string) list \<Rightarrow> (string \<times> string) list \<Rightarrow> request" where
  "demo_request qs hs = \<lparr>userId = None, accessToken = None, params = [], query = qs, body = Undef, headers = hs\<rparr>"

text \<open>A Matrix server that knows every OpenID token as one of ann.\<close>

definition demo_home :: network where
  "demo_home log q = Inr \<lparr>hp_status = 200, hp_headers = [], hp_body = str_of (JObj [(''sub'', JStr ''@ann:x'')])\<rparr>"

lemma demo_sessions_facts: "store_wf tom_tables (as_db demo_sessions)" "store_healthy (as_db demo_sessions)"
  "rows_of (as_db demo_sessions) = (\<lambda>t. {#})(''matrixTokens'' := {#session_row ''mat'' (JStr ''@bob:x'') 5#})"
proof -
  let ?rs = "[session_row ''mat'' (JStr ''@bob:x'') 5]"
  have t: "store_wf tom_tables (with_rows tom_store ''matrixTokens'' ?rs)"
    "rows_of (with_rows tom_store ''matrixTokens'' ?rs) = (rows_of tom_store)(''matrixTokens'' := mset ?rs)"
    "faults (with_rows tom_store ''matrixTokens'' ?rs) = faults tom_store"
    by (rule with_rows_ok [OF tom_store_wf]; simp add: tom_schema_sessions session_cols_def session_row_def keys_of_def)+
  then show "store_wf tom_tables (as_db demo_sessions)" "store_healthy (as_db demo_sessions)"
    "rows_of (as_db demo_sessions) = (\<lambda>t. {#})(''matrixTokens'' := {#session_row ''mat'' (JStr ''@bob:x'') 5#})"
    by (auto simp: demo_sessions_def store_healthy_def tom_store_rows fun_eq_iff)
qed

lemma demo_bearer: "request_token (demo_request [] [(''authorization'', ''Bearer mat'')]) = Some ''mat''"
  by code_simp

theorem authenticated_only_if_witness:
  "\<exists>content t. fst (tom_authenticate (mem_db PG) ''m.x'' demo_home 9 (demo_request [] [(''authorization'', ''Bearer mat'')]) demo_sessions) =
      CalledBack content t \<and> t = Some (Some ''mat'')"
proof -
  let ?req = "demo_request [] [(''authorization'', ''Bearer mat'')]"
  have "fst (tom_authenticate (mem_db PG) ''m.x'' demo_home 9 ?req demo_sessions) =
      CalledBack [(''sub'', JStr ''@bob:x''), (''epoch'', JNum 5)] (Some (Some ''mat''))" by code_simp
  then obtain s' where a: "tom_authenticate (mem_db PG) ''m.x'' demo_home 9 ?req demo_sessions =
      (CalledBack [(''sub'', JStr ''@bob:x''), (''epoch'', JNum 5)] (Some (Some ''mat'')), s')"
    by (metis prod.collapse)
  from authenticated_only_if [OF mem_tom demo_sessions_facts(1) demo_bearer _ a] show ?thesis unfolding a by simp
qed

theorem empty_access_token_accepted_witness:
  "\<exists>e. fst (tom_authenticate (mem_db SQLITE) ''m.x'' demo_home 9 (demo_request [(''access_token'', [])] []) demo_sessions) =
     CalledBack [(''sub'', JStr ''@bob:x''), (''epoch'', JNum e)] (Some (Some []))"
proof -
  let ?req = "demo_request [(''access_token'', [])] []"
  have q: "map_of (headers ?req) ''authorization'' = None" "map_of (query ?req) ''access_token'' = Some []"
    by (simp_all add: demo_request_def)
  have r: "rows_of (as_db demo_sessions) ''matrixTokens'' \<noteq> {#}"
    "\<And>r. r \<in># rows_of (as_db demo_sessions) ''matrixTokens'' \<Longrightarrow> \<exists>tok sub e. r = session_row tok (JStr sub) e"
    by (auto simp: demo_sessions_facts)
  from empty_access_token_accepted [OF mem_tom demo_sessions_facts(1,2) q r] obtain tok sub e where
    m: "session_row tok (JStr sub) e \<in># rows_of (as_db demo_sessions) ''matrixTokens''"
      "fst (tom_authenticate (mem_db SQLITE) ''m.x'' demo_home 9 ?req demo_sessions) =
        CalledBack [(''sub'', JStr sub), (''epoch'', JNum e)] (Some (Some []))" by blast
  have "stored_content (getp (session_row tok (JStr sub) e) ''data'') = stored_content (getp (session_row ''mat'' (JStr ''@bob:x'') 5) ''data'')"
    using m(1) by (simp add: demo_sessions_facts)
  then have "sub = ''@bob:x''" by (simp add: stored_session)
  with m(2) show ?thesis by auto
qed

definition demo_openid :: obj where
  "demo_openid = [(''access_token'', JStr ''t''), (''expires_in'', JNum 9), (''matrix_server_name'', JStr ''x.org''), (''token_type'', JStr ''Bearer'')]"

theorem registered_until_logout_witness:
  "fst (id_authenticate (mem_db PG) True (demo_request [(''access_token'', replicate 64 CHR ''a'')] [])
     (snd (logout (mem_db PG) (id_authenticate (mem_db PG) True) (demo_request [(''access_token'', replicate 64 CHR ''a'')] [])
       (snd (register (mem_db PG) (\<lambda>h. Some ''https://x.org/'') demo_home (\<lambda>i. CHR ''a'') 0 9 demo_openid demo_sessions))))) =
   Answered unauthorized"
proof -
  let ?tok = "replicate 64 CHR ''a''"
  let ?req = "demo_request [(''access_token'', ?tok)] []"
  let ?reg = "register (mem_db PG) (\<lambda>h. Some ''https://x.org/'') demo_home (\<lambda>i. CHR ''a'') 0 9 demo_openid demo_sessions"
  have "fst ?reg = Json 200 (JObj [(''token'', JStr ?tok)])" by code_simp
  then have r: "?reg = (Json 200 (JObj [(''token'', JStr ?tok)]), snd ?reg)" by (metis prod.collapse)
  have t: "request_token ?req = Some ?tok" "?tok \<noteq> []" by (simp_all add: request_token_def demo_request_def)
  have p: "getp p ''accepted'' \<noteq> JNum 0" if "p \<in># rows_of (as_db demo_sessions) ''userPolicies''" for p
    using that by (simp add: demo_sessions_facts)
  from registered_until_logout [OF mem_tom demo_sessions_facts(1,2) r t p] show ?thesis by (metis prod.collapse)
qed

theorem logout_keeps_matrix_session_witness:
  "fst (logout (mem_db PG) (tom_authenticate (mem_db PG) ''m.x'' demo_home 9) (demo_request [] [(''authorization'', ''Bearer mat'')]) demo_sessions) =
     Json 200 (JObj [])"
proof -
  have "session_row ''mat'' (JStr ''@bob:x'') 5 \<in># rows_of (as_db demo_sessions) ''matrixTokens''"
    by (simp add: demo_sessions_facts)
  from logout_keeps_matrix_session [OF mem_tom demo_sessions_facts(1,2) demo_bearer _ this] show ?thesis
    by (metis list.distinct(1) prod.collapse)
qed

end
