(* ===== verification/VaultApi.thy ===== *)
theory VaultApi
  imports Authenticate
begin

text \<open>
  The vault API (\<open>packages/tom-server/src/vault-api\<close>): the recovery words of a user.  The parser
  gives every request a body.  An error that carries a status is answered with it by the error
  middleware, any other one with 500.
\<close>

definition vault_error :: "nat \<Rightarrow> string \<Rightarrow> response" where
  "vault_error status m = Json status (JObj [(''error'', JStr m)])"

definition method_not_allowed :: response where
  "method_not_allowed = vault_error 405 ''Method not allowed''"

text \<open>\<open>words === undefined || words.length === 0\<close>; of null there is no length to read.\<close>

definition missing_words :: "jsval \<Rightarrow> bool result" where
  "missing_words v =
     (case v of
        Undef \<Rightarrow> Inr True
      | Null \<Rightarrow> Inl (Err ''Cannot read properties of null'')
      | JStr s \<Rightarrow> Inr (s = [])
      | JArr vs \<Rightarrow> Inr (vs = [])
      | JObj ps \<Rightarrow> Inr (getp ps ''length'' = JNum 0)
      | _ \<Rightarrow> Inr False)"

definition words_of :: "'s backend \<Rightarrow> jsval \<Rightarrow> 's auth_st \<Rightarrow> obj list result \<times> 's auth_st" where
  "words_of d user s = as_on_db (db_get d ''recoveryWords'' [''words''] (Some [(''userId'', user)]) None) s"

definition saveRecoveryWords :: "'s backend \<Rightarrow> jsval \<Rightarrow> jsval \<Rightarrow> 's auth_st \<Rightarrow> response \<times> 's auth_st" where
  "saveRecoveryWords d user ws s =
     (case missing_words ws of
        Inl e \<Rightarrow> (vault_error 500 (err_msg e), s)
      | Inr True \<Rightarrow> (vault_error 400 ''Missing recovery words'', s)
      | Inr False \<Rightarrow>
          (case words_of d user s of
             (Inl e, s1) \<Rightarrow> (vault_error 500 (err_msg e), s1)
           | (Inr (_ # _), s1) \<Rightarrow> (vault_error 409 ''User already has recovery words'', s1)
           | (Inr [], s1) \<Rightarrow>
               (case as_on_db (db_insert d ''recoveryWords'' [(''userId'', user), (''words'', ws)]) s1 of
                  (Inl e, s2) \<Rightarrow> (vault_error 500 (err_msg e), s2)
                | (Inr _, s2) \<Rightarrow> (message 201 ''Saved recovery words successfully'', s2))))"

definition getRecoveryWords :: "'s backend \<Rightarrow> jsval \<Rightarrow> 's auth_st \<Rightarrow> response \<times> 's auth_st" where
  "getRecoveryWords d user s =
     (case words_of d user s of
        (Inl e, s1) \<Rightarrow> (vault_error 500 (err_msg e), s1)
      | (Inr [], s1) \<Rightarrow> (vault_error 404 ''User has no recovery sentence'', s1)
      | (Inr [row], s1) \<Rightarrow> (Json 200 (JObj [(''words'', getp row ''words'')]), s1)
      | (Inr _, s1) \<Rightarrow> (vault_error 409 ''User has more than one recovery sentence'', s1))"

text \<open>The answer 204 has no body.\<close>

definition deleteRecoveryWords :: "'s backend \<Rightarrow> jsval \<Rightarrow> 's auth_st \<Rightarrow> response \<times> 's auth_st" where
  "deleteRecoveryWords d user s =
     (case words_of d user s of
        (Inl e, s1) \<Rightarrow> (vault_error 500 (err_msg e), s1)
      | (Inr [], s1) \<Rightarrow> (vault_error 404 ''User has no recovery sentence'', s1)
      | (Inr _, s1) \<Rightarrow>
          (case as_on_db (db_deleteWhere d ''recoveryWords'' [(''userId'', Some ''='', user)]) s1 of
             (Inl e, s2) \<Rightarrow> (vault_error 500 (err_msg e), s2)
           | (Inr _, s2) \<Rightarrow> (Json 204 Undef, s2)))"

definition updateRecoveryWords :: "'s backend \<Rightarrow> jsval \<Rightarrow> jsval \<Rightarrow> 's auth_st \<Rightarrow> response \<times> 's auth_st" where
  "updateRecoveryWords d user ws s =
     (case missing_words ws of
        Inl e \<Rightarrow> (vault_error 500 (err_msg e), s)
      | Inr True \<Rightarrow> (message 400 ''Missing recovery sentence'', s)
      | Inr False \<Rightarrow>
          (case words_of d user s of
             (Inl e, s1) \<Rightarrow> (vault_error 500 (err_msg e), s1)
           | (Inr [], s1) \<Rightarrow> (message 404 ''User has no recovery sentence'', s1)
           | (Inr _, s1) \<Rightarrow>
               (case as_on_db (db_update d ''recoveryWords'' [(''words'', ws)] ''userId'' user) s1 of
                  (Inl e, s2) \<Rightarrow> (vault_error 500 (err_msg e), s2)
                | (Inr _, s2) \<Rightarrow> (message 200 ''Updated recovery words successfully'', s2))))"

section \<open>Routes\<close>

datatype vault_method = GetWords | PostWords | DeleteWords | PutWords | OtherMethod

text \<open>\<open>isAuth\<close>; the authenticators of this program never call back without a token.\<close>

definition vault_handle :: "'s backend \<Rightarrow> 's authenticator \<Rightarrow> vault_method \<Rightarrow> request \<Rightarrow> 's auth_st \<Rightarrow> response \<times> 's auth_st" where
  "vault_handle d authenticate meth req s =
     (if meth = OtherMethod then (method_not_allowed, s)
      else case authenticate req s of
             (Answered r, s1) \<Rightarrow> (r, s1)
           | (CalledBack content (Some (Some _)), s1) \<Rightarrow>
               (let user = getp content ''sub''; ws = field (body req) ''words'' in
                case meth of
                  GetWords \<Rightarrow> getRecoveryWords d user s1
                | PostWords \<Rightarrow> saveRecoveryWords d user ws s1
                | DeleteWords \<Rightarrow> deleteRecoveryWords d user s1
                | _ \<Rightarrow> updateRecoveryWords d user ws s1)
           | (_, s1) \<Rightarrow> (vault_error 401 ''Not Authorized'', s1))"

section \<open>The abstract vault\<close>

text \<open>The words of every user, none or one.\<close>

definition vault_of :: "obj multiset \<Rightarrow> string \<Rightarrow> jsval multiset" where
  "vault_of rows u = {# getp r ''words''. r \<in># {# r \<in># rows. sql_eq (getp r ''userId'') (JStr u) #} #}"

text \<open>What an operation answers and does to the vault.\<close>

definition vault_spec :: "vault_method \<Rightarrow> string \<Rightarrow> jsval \<Rightarrow> (string \<Rightarrow> jsval multiset) \<Rightarrow> response \<times> (string \<Rightarrow> jsval multiset) \<Rightarrow> bool" where
  "vault_spec meth u w m rm \<longleftrightarrow>
     (case meth of
        GetWords \<Rightarrow> snd rm = m \<and>
          (if m u = {#} then fst rm = vault_error 404 ''User has no recovery sentence''
           else \<exists>x. m u = {#x#} \<and> fst rm = Json 200 (JObj [(''words'', x)]))
      | PostWords \<Rightarrow>
          (if m u = {#} then rm = (message 201 ''Saved recovery words successfully'', m(u := {#w#}))
           else rm = (vault_error 409 ''User already has recovery words'', m))
      | DeleteWords \<Rightarrow>
          (if m u = {#} then rm = (vault_error 404 ''User has no recovery sentence'', m) else rm = (Json 204 Undef, m(u := {#})))
      | PutWords \<Rightarrow>
          (if m u = {#} then rm = (message 404 ''User has no recovery sentence'', m)
           else rm = (message 200 ''Updated recovery words successfully'', m(u := {#w#})))
      | OtherMethod \<Rightarrow> False)"

lemma vault_add: "vault_of (add_mset [(''userId'', JStr u), (''words'', w)] rows) = (vault_of rows)(u := add_mset w (vault_of rows u))"
  by (auto simp: vault_of_def sql_eq_def fun_eq_iff)

lemma vault_delete: "vault_of {# r \<in># rows. \<not> sql_eq (getp r ''userId'') (JStr u) #} = (vault_of rows)(u := {#})"
proof
  fix v
  have "{# r \<in># {# r \<in># rows. \<not> sql_eq (getp r ''userId'') (JStr u) #}. sql_eq (getp r ''userId'') (JStr v) #} =
    (if v = u then {#} else {# r \<in># rows. sql_eq (getp r ''userId'') (JStr v) #})"
  proof (cases "v = u")
    case True
    then show ?thesis by (simp add: filter_filter_mset)
  next
    case False
    then show ?thesis by (simp add: filter_filter_mset, intro filter_mset_cong) (auto simp: sql_eq_def)
  qed
  then show "vault_of {# r \<in># rows. \<not> sql_eq (getp r ''userId'') (JStr u) #} v = ((vault_of rows)(u := {#})) v"
    by (simp add: vault_of_def)
qed

locale vault_db = session_db d wf healthy tab schema key
  for d :: "'s backend" and wf and healthy and tab and schema and key +
  assumes vault: "schema ''recoveryWords'' = [''userId'', ''words'']" "key ''recoveryWords'' = [''userId'']"
begin

lemma read_words:
  assumes "wf (as_db s)" "healthy (as_db s)" "u \<noteq> []" "words_of d (JStr u) s = (r, s')"
  shows "\<exists>rs. r = Inr rs \<and> mset (map (\<lambda>x. getp x ''words'') rs) = vault_of (tab (as_db s) ''recoveryWords'') u \<and>
    wf (as_db s') \<and> healthy (as_db s') \<and> tab (as_db s') = tab (as_db s)"
proof -
  obtain x where x: "db_get d ''recoveryWords'' [''words''] (Some [(''userId'', JStr u)]) None (as_db s) = (r, x)" "s' = s\<lparr>as_db := x\<rparr>"
    using assms(4) unfolding words_of_def by (rule as_on_dbE)
  have c: "''userId'' \<in> set (schema ''recoveryWords'')" "[''words''] = [''*''] \<or> set [''words''] \<subseteq> set (schema ''recoveryWords'')"
    by (simp_all add: vault)
  obtain rs where rs: "r = Inr rs" using get_one_Inl [OF _ assms(1) c] x(1) assms(2) by (cases r) auto
  note g = get_one_Inr [OF x(1) [unfolded rs] assms(1) c]
  have m: "matches [(''userId'', JStr u)] = (\<lambda>r. sql_eq (getp r ''userId'') (JStr u))"
    using assms(3) by (intro ext) (simp add: matches_one)
  have "mset (map (\<lambda>x. getp x ''words'') rs) = image_mset (\<lambda>x. getp x ''words'') (mset rs)" by simp
  also have "\<dots> = vault_of (tab (as_db s) ''recoveryWords'') u"
    using g by (simp add: vault_of_def m image_mset.compositionality comp_def project_def)
  finally show ?thesis using g rs x(2) assms(2) by auto
qed

lemma one_sentence: "wf s \<Longrightarrow> size (vault_of (tab s ''recoveryWords'') u) \<le> 1"
  using key_unique [OF _ vault(2), of s "JStr u"] by (simp add: vault_of_def)

lemma vault_update:
  assumes "wf s" "vault_of (tab s ''recoveryWords'') u \<noteq> {#}"
  shows "vault_of {# if sql_eq (getp r ''userId'') (JStr u) then assign [(''words'', w)] r else r. r \<in># tab s ''recoveryWords'' #} =
    (vault_of (tab s ''recoveryWords''))(u := {#w#})"
proof
  fix v
  let ?T = "tab s ''recoveryWords''"
  let ?f = "\<lambda>r. if sql_eq (getp r ''userId'') (JStr u) then assign [(''words'', w)] r else r"
  have id: "getp (?f r) ''userId'' = getp r ''userId''" for r by (simp add: getp_assign_other)
  have e: "vault_of (image_mset ?f ?T) v = {# getp (?f r) ''words''. r \<in># {# r \<in># ?T. sql_eq (getp r ''userId'') (JStr v) #} #}"
    by (simp add: vault_of_def filter_mset_image_mset id image_mset.compositionality comp_def)
  show "vault_of (image_mset ?f ?T) v = ((vault_of ?T)(u := {#w#})) v"
  proof (cases "v = u")
    case False
    have "getp (?f r) ''words'' = getp r ''words''" if "sql_eq (getp r ''userId'') (JStr v)" for r
      using that False by (auto simp: sql_eq_def)
    then show ?thesis unfolding e using False by (auto simp: vault_of_def intro: image_mset_cong)
  next
    case True
    have c: "getp (?f r) ''words'' = w" if "r \<in># ?T" "sql_eq (getp r ''userId'') (JStr u)" for r
      using row_cols [OF assms(1) that(1)] that(2) by (simp add: vault getp_assign_same)
    have "size {# r \<in># ?T. sql_eq (getp r ''userId'') (JStr u) #} \<le> 1"
      using one_sentence [OF assms(1), of u] by (simp add: vault_of_def)
    moreover have "{# r \<in># ?T. sql_eq (getp r ''userId'') (JStr u) #} \<noteq> {#}" using assms(2) by (auto simp: vault_of_def)
    then have "size {# r \<in># ?T. sql_eq (getp r ''userId'') (JStr u) #} \<noteq> 0" by simp
    ultimately have "size {# r \<in># ?T. sql_eq (getp r ''userId'') (JStr u) #} = 1" by linarith
    then obtain r where r: "{# r \<in># ?T. sql_eq (getp r ''userId'') (JStr u) #} = {#r#}" using size_1_singleton_mset by blast
    have "r \<in># {#r#}" by simp
    then have "r \<in># ?T" "sql_eq (getp r ''userId'') (JStr u)" unfolding r [symmetric] by simp_all
    then show ?thesis by (unfold e, unfold True r) (use c in simp)
  qed
qed

lemma vault_cases:
  assumes "wf (as_db s)" "healthy (as_db s)" "u \<noteq> []"
  obtains (none) s' where "words_of d (JStr u) s = (Inr [], s')" "vault_of (tab (as_db s) ''recoveryWords'') u = {#}"
      "wf (as_db s')" "healthy (as_db s')" "tab (as_db s') = tab (as_db s)"
    | (one) row s' where "words_of d (JStr u) s = (Inr [row], s')" "vault_of (tab (as_db s) ''recoveryWords'') u = {#getp row ''words''#}"
      "wf (as_db s')" "healthy (as_db s')" "tab (as_db s') = tab (as_db s)"
proof -
  obtain r s' where g: "words_of d (JStr u) s = (r, s')" by fastforce
  from read_words [OF assms g] obtain rs where rs: "r = Inr rs"
    "mset (map (\<lambda>x. getp x ''words'') rs) = vault_of (tab (as_db s) ''recoveryWords'') u"
    "wf (as_db s')" "healthy (as_db s')" "tab (as_db s') = tab (as_db s)" by blast
  have "length rs \<le> 1" using one_sentence [OF assms(1), of u] unfolding rs(2) [symmetric] by simp
  then consider "rs = []" | row where "rs = [row]" by (cases rs) auto
  then show ?thesis
  proof cases
    case 1
    then show ?thesis by (intro none [of s']) (use g rs in auto)
  next
    case 2
    then show ?thesis by (intro one [of _ s']) (use g rs in auto)
  qed
qed

lemma get_words_spec:
  assumes "wf (as_db s)" "healthy (as_db s)" "u \<noteq> []" "getRecoveryWords d (JStr u) s = (resp, s')"
  shows "(\<forall>t. t \<noteq> ''recoveryWords'' \<longrightarrow> tab (as_db s') t = tab (as_db s) t) \<and>
    vault_spec GetWords u w (vault_of (tab (as_db s) ''recoveryWords'')) (resp, vault_of (tab (as_db s') ''recoveryWords''))"
  using assms(1-3)
  by (cases rule: vault_cases) (use assms(4) in \<open>auto simp: getRecoveryWords_def vault_spec_def\<close>)

lemma save_words_spec:
  assumes "wf (as_db s)" "healthy (as_db s)" "u \<noteq> []" "w \<noteq> []" "saveRecoveryWords d (JStr u) (JStr w) s = (resp, s')"
  shows "(\<forall>t. t \<noteq> ''recoveryWords'' \<longrightarrow> tab (as_db s') t = tab (as_db s) t) \<and>
    vault_spec PostWords u (JStr w) (vault_of (tab (as_db s) ''recoveryWords'')) (resp, vault_of (tab (as_db s') ''recoveryWords''))"
  using assms(1-3)
proof (cases rule: vault_cases)
  case (none s1)
  let ?vs = "[(''userId'', JStr u), (''words'', JStr w)]"
  obtain q x where x: "db_insert d ''recoveryWords'' ?vs (as_db s1) = (q, x)" by fastforce
  have c: "complete (schema ''recoveryWords'') (stored_obj ?vs) = ?vs"
    by (simp add: vault complete_def stored_obj_def stored_def)
  have e: "{# r \<in># tab (as_db s) ''recoveryWords''. sql_eq (getp r ''userId'') (JStr u) #} = {#}"
    using none(2) by (simp add: vault_of_def)
  have "\<exists>rows. q = Inr rows \<and> tab x = (tab (as_db s))(''recoveryWords'' := add_mset ?vs (tab (as_db s) ''recoveryWords''))"
    using insert_law [OF none(3) _ _ _ x] none(4,5) e c by (cases q) (auto simp: vault filter_mset_eq_conv)
  then show ?thesis
    using assms(4,5) none(1,2) x
    by (auto simp: saveRecoveryWords_def missing_words_def as_on_db_def vault_spec_def vault_add)
next
  case (one row s1)
  then show ?thesis using assms(4,5) by (auto simp: saveRecoveryWords_def missing_words_def vault_spec_def)
qed

lemma delete_words_spec:
  assumes "wf (as_db s)" "healthy (as_db s)" "u \<noteq> []" "deleteRecoveryWords d (JStr u) s = (resp, s')"
  shows "(\<forall>t. t \<noteq> ''recoveryWords'' \<longrightarrow> tab (as_db s') t = tab (as_db s) t) \<and>
    vault_spec DeleteWords u w (vault_of (tab (as_db s) ''recoveryWords'')) (resp, vault_of (tab (as_db s') ''recoveryWords''))"
  using assms(1-3)
proof (cases rule: vault_cases)
  case (none s1)
  then show ?thesis using assms(4) by (auto simp: deleteRecoveryWords_def vault_spec_def)
next
  case (one row s1)
  obtain q x where x: "db_deleteWhere d ''recoveryWords'' [(''userId'', Some ''='', JStr u)] (as_db s1) = (q, x)" by fastforce
  have "\<exists>v. q = Inr v \<and> tab x = (tab (as_db s))(''recoveryWords'' := {# r \<in># tab (as_db s) ''recoveryWords''. \<not> sql_eq (getp r ''userId'') (JStr u) #})"
    using delete_where_law [OF one(3) _ x] one(4,5) by (cases q) (auto simp: vault)
  then show ?thesis
    using assms(4) one(1,2) x by (auto simp: deleteRecoveryWords_def as_on_db_def vault_spec_def vault_delete)
qed

lemma update_words_spec:
  assumes "wf (as_db s)" "healthy (as_db s)" "u \<noteq> []" "w \<noteq> []" "updateRecoveryWords d (JStr u) (JStr w) s = (resp, s')"
  shows "(\<forall>t. t \<noteq> ''recoveryWords'' \<longrightarrow> tab (as_db s') t = tab (as_db s) t) \<and>
    vault_spec PutWords u (JStr w) (vault_of (tab (as_db s) ''recoveryWords'')) (resp, vault_of (tab (as_db s') ''recoveryWords''))"
  using assms(1-3)
proof (cases rule: vault_cases)
  case (none s1)
  then show ?thesis using assms(4,5) by (auto simp: updateRecoveryWords_def missing_words_def vault_spec_def)
next
  case (one row s1)
  obtain q x where x: "db_update d ''recoveryWords'' [(''words'', JStr w)] ''userId'' (JStr u) (as_db s1) = (q, x)" by fastforce
  have c: "schema ''recoveryWords'' \<noteq> []" "[(''words'', JStr w)] \<noteq> []"
    "set (''userId'' # map fst [(''words'', JStr w)]) \<subseteq> set (schema ''recoveryWords'')" by (auto simp: vault)
  have k: "set (key ''recoveryWords'') \<inter> set (map fst [(''words'', JStr w)]) = {}" by (simp add: vault)
  have "q \<noteq> Inl e" for e using update_other_ok [OF one(3) c k] x one(4) by blast
  then obtain rs where q: "q = Inr rs" by (cases q) auto
  have s: "stored_obj [(''words'', JStr w)] = [(''words'', JStr w)]" by (simp add: stored_obj_def stored_def)
  have t: "tab x = (tab (as_db s))(''recoveryWords'' := {# if sql_eq (getp r ''userId'') (JStr u) then assign [(''words'', JStr w)] r else r.
      r \<in># tab (as_db s) ''recoveryWords'' #})"
    using update_law [OF one(3) c x, unfolded s] one(5) q by simp
  show ?thesis
    using assms(4,5) one(1,2) x q vault_update [OF assms(1), of u "JStr w"]
    by (auto simp: updateRecoveryWords_def missing_words_def as_on_db_def vault_spec_def t)
qed

end

lemma tom_schema_vault: "schema_of tom_tables ''recoveryWords'' = [''userId'', ''words'']" "key_of tom_tables ''recoveryWords'' = [''userId'']"
  unfolding tom_schema tom_key by code_simp+

lemma tom_vault:
  "tom_database d ok healthy tab \<Longrightarrow> vault_db d ok healthy tab (schema_of tom_tables) (key_of tom_tables)"
  by (intro vault_db.intro vault_db_axioms.intro tom_sessions) (simp_all add: tom_schema_vault)

interpretation vaults: vault_db "mem_db dia" "store_wf tom_tables" store_healthy rows_of
    "schema_of tom_tables" "key_of tom_tables"
  for dia
  by (rule tom_vault [OF mem_tom])

section \<open>Properties\<close>

text \<open>
  C5: The vault API implements a map from users to at most one sentence: reading, storing what is
  absent, deleting and replacing answer and change what these operations on the map do, for the
  authenticated user and for nobody else, and no other table is touched.
\<close>

theorem vault_implements_map:
  assumes "tom_database d ok healthy tab" "authenticate req s = (CalledBack content (Some (Some tok)), s1)"
    "ok (as_db s1)" "healthy (as_db s1)" "getp content ''sub'' = JStr u" "u \<noteq> []"
    "field (body req) ''words'' = JStr w" "w \<noteq> []" "meth \<noteq> OtherMethod"
    "vault_handle d authenticate meth req s = (resp, s')"
  shows "(\<forall>t. t \<noteq> ''recoveryWords'' \<longrightarrow> tab (as_db s') t = tab (as_db s1) t) \<and>
    vault_spec meth u (JStr w) (vault_of (tab (as_db s1) ''recoveryWords'')) (resp, vault_of (tab (as_db s') ''recoveryWords''))"
proof -
  note v = tom_vault [OF assms(1)]
  show ?thesis
  proof (cases meth)
    case GetWords
    then show ?thesis
      using vault_db.get_words_spec [OF v, OF assms(3,4,6), of resp s' "JStr w"] assms(2,5,10) by (simp add: vault_handle_def)
  next
    case PostWords
    then show ?thesis
      using vault_db.save_words_spec [OF v, OF assms(3,4,6,8)] assms(2,5,7,10) by (simp add: vault_handle_def)
  next
    case DeleteWords
    then show ?thesis
      using vault_db.delete_words_spec [OF v, OF assms(3,4,6), of resp s' "JStr w"] assms(2,5,10) by (simp add: vault_handle_def)
  next
    case PutWords
    then show ?thesis
      using vault_db.update_words_spec [OF v, OF assms(3,4,6,8)] assms(2,5,7,10) by (simp add: vault_handle_def)
  qed (use assms(9) in simp)
qed

definition demo_words :: request where
  "demo_words = \<lparr>userId = None, accessToken = None, params = [], query = [], body = JObj [(''words'', JStr ''seed'')],
     headers = [(''authorization'', ''Bearer mat'')]\<rparr>"

theorem vault_implements_map_witness:
  "vault_of (rows_of (as_db (snd (vault_handle (mem_db PG) (tom_authenticate (mem_db PG) ''m.x'' demo_home 9) PostWords demo_words demo_sessions)))
     ''recoveryWords'') ''@bob:x'' = {#JStr ''seed''#}"
proof -
  let ?a = "tom_authenticate (mem_db PG) ''m.x'' demo_home 9"
  obtain resp s' where h: "vault_handle (mem_db PG) ?a PostWords demo_words demo_sessions = (resp, s')" by fastforce
  have "?a demo_words demo_sessions = (CalledBack [(''sub'', JStr ''@bob:x''), (''epoch'', JNum 5)] (Some (Some ''mat'')), demo_sessions)"
    by code_simp
  from vault_implements_map [OF mem_tom this demo_sessions_facts(1,2) _ _ _ _ _ h, of "''@bob:x''" "''seed''"] show ?thesis
    unfolding h by (simp add: field_def demo_words_def vault_spec_def demo_sessions_facts vault_of_def)
qed

end
