(* ===== verification/Lookup.thy ===== *)
theory Lookup
  imports Authenticate
begin

text \<open>
  Looking people up by the hash of their address (\<open>matrix-identity-server/src/lookup\<close>), the hashes
  written for a directory (\<open>lookup/updateHash.ts\<close>) and the change of the pepper
  (\<open>cron/changePepper.ts\<close>).  Parameters: the three functions of nacl, what the directory and the
  Matrix database answer to the one query each of them gets, and \<open>Math.random\<close>.  Operations started
  together are done one after the other, in the order they are started.
\<close>

section \<open>Asking\<close>

text \<open>An error object is sent with its own enumerable properties; those a driver adds beyond the code are left out.\<close>

definition unknown_error :: "jserror \<Rightarrow> response" where
  "unknown_error e =
     Json 500 (JObj [(''errcode'', JStr ''M_UNKNOWN''),
       (''error'', JObj (if err_code e = [] then [] else [(''code'', JStr (err_code e))]))])"

definition supportedHashes :: "string list" where
  "supportedHashes = [''sha256'']"

definition hashDetails :: "'s backend \<Rightarrow> 's authenticator \<Rightarrow> request \<Rightarrow> 's auth_st \<Rightarrow> response \<times> 's auth_st" where
  "hashDetails d authenticate req s =
     (case authenticate req s of
        (Answered r, s1) \<Rightarrow> (r, s1)
      | (CalledBack _ _, s1) \<Rightarrow>
          (case as_on_db (db_get d ''keys'' [''data''] (Some [(''name'', JStr ''pepper'')]) None) s1 of
             (Inl e, s2) \<Rightarrow> (unknown_error e, s2)
           | (Inr [], s2) \<Rightarrow> (unknown_error (Err ''Cannot read properties of undefined''), s2)
           | (Inr (row # _), s2) \<Rightarrow>
               (Json 200 (JObj [(''algorithms'', JArr (map JStr supportedHashes)), (''lookup_pepper'', getp row ''data'')]), s2)))"

definition lookup_schema :: "(string \<times> bool) list" where
  "lookup_schema = [(''addresses'', True), (''algorithm'', False), (''pepper'', False)]"

definition is_text :: "jsval \<Rightarrow> bool" where
  "is_text v = (case v of JStr _ \<Rightarrow> True | _ \<Rightarrow> False)"

definition addresses_ok :: "int \<Rightarrow> jsval \<Rightarrow> bool" where
  "addresses_ok limit v = (case v of JArr vs \<Rightarrow> list_all is_text vs \<and> int (length vs) \<le> limit | _ \<Rightarrow> False)"

text \<open>The records from hashes to addresses; of two rows with one hash the later counts.\<close>

definition hash_record :: "obj list \<Rightarrow> obj" where
  "hash_record rows = foldl (\<lambda>m row. put (js_str (getp row ''hash'')) (getp row ''value'') m) [] rows"

definition lookup_reply :: "bool \<Rightarrow> obj list \<Rightarrow> response" where
  "lookup_reply additional rows =
     (let mappings = JObj (hash_record (filter (\<lambda>r. getp r ''active'' = JNum 1) rows));
          inactives = JObj (hash_record (filter (\<lambda>r. getp r ''active'' \<noteq> JNum 1) rows))
      in Json 200 (JObj (if additional then [(''mappings'', mappings), (''inactive_mappings'', inactives)]
                         else [(''mappings'', mappings)])))"

definition lookup ::
  "'s backend \<Rightarrow> 's authenticator \<Rightarrow> int \<Rightarrow> bool \<Rightarrow> obj \<Rightarrow> request \<Rightarrow> 's auth_st \<Rightarrow> response \<times> 's auth_st" where
  "lookup d authenticate limit additional content req s =
     (case authenticate req s of
        (Answered r, s1) \<Rightarrow> (r, s1)
      | (CalledBack _ _, s1) \<Rightarrow>
          (case validateParameters lookup_schema content of
             Sent status b \<Rightarrow> (Json (nat status) b, s1)
           | Callback c \<Rightarrow>
               if \<not> addresses_ok limit (getp c ''addresses'') then (Json 400 (errMsg ''invalidParam'' None), s1)
               else (case as_on_db (db_get d ''hashes'' [''value'', ''hash'', ''active''] (Some [(''hash'', getp c ''addresses'')]) None) s1 of
                       (Inl e, s2) \<Rightarrow> (unknown_error e, s2)
                     | (Inr rows, s2) \<Rightarrow> (lookup_reply additional rows, s2))))"

section \<open>Writing hashes\<close>

record nacl =
  encode_utf8 :: "string \<Rightarrow> string"
  crypto_hash_sha256 :: "string \<Rightarrow> string"
  crypto_hash :: "string \<Rightarrow> string"

text \<open>\<open>hash[method](text)\<close>\<close>

definition hash_call :: "nacl \<Rightarrow> string \<Rightarrow> string \<Rightarrow> string result" where
  "hash_call nl meth t =
     (if meth = ''sha256'' then hash_strs (encode_utf8 nl) (Some (crypto_hash_sha256 nl)) [t]
      else if meth = ''sha512'' then hash_strs (encode_utf8 nl) (Some (crypto_hash nl)) [t]
      else Inl (Err ''hash[method] is not a function''))"

definition fieldsToHash :: "string list" where
  "fieldsToHash = [''phone'', ''email'']"

definition medium_of :: "string \<Rightarrow> string" where
  "medium_of fld = (if fld = ''phone'' then ''msisdn'' else fld)"

text \<open>\<open>value.replace(/\s/g, '').replace(/^\+/, '')\<close>; only texts have the method.\<close>

definition plain_phone :: "string \<Rightarrow> string" where
  "plain_phone v = (let t = filter (\<lambda>c. \<not> is_space c) v in if starts_with t ''+'' then drop 1 t else t)"

definition hashed_value :: "string \<Rightarrow> jsval \<Rightarrow> string result" where
  "hashed_value fld v =
     (if fld \<noteq> ''phone'' then Inr (js_str v)
      else case v of JStr t \<Rightarrow> Inr (plain_phone t) | _ \<Rightarrow> Inl (Err ''value.replace is not a function''))"

definition hashed_text :: "string \<Rightarrow> string \<Rightarrow> jsval \<Rightarrow> string" where
  "hashed_text t medium pepper = t @ '' '' @ medium @ '' '' @ js_str pepper"

record hash_job =
  hj_address :: string
  hj_method :: string
  hj_field :: string
  hj_value :: jsval
  hj_active :: jsval

definition hash_jobs :: "(string \<times> obj) list \<Rightarrow> hash_job list" where
  "hash_jobs data = concat (map (\<lambda>(a, v). concat (map (\<lambda>fld.
     let x = getp v fld in
     if nullish x \<or> js_str x = [] then []
     else map (\<lambda>meth. \<lparr>hj_address = a, hj_method = meth, hj_field = fld, hj_value = x, hj_active = getp v ''active''\<rparr>)
            supportedHashes) fieldsToHash)) data)"

definition hash_entry :: "jsval \<Rightarrow> hash_job \<Rightarrow> string \<Rightarrow> obj" where
  "hash_entry pepper j h =
     [(''hash'', JStr h), (''pepper'', pepper), (''type'', JStr (medium_of (hj_field j))),
      (''value'', JStr (hj_address j)), (''active'', hj_active j)]"

text \<open>The pepper is read from the table as long as the closure has none.\<close>

definition read_pepper :: "'s backend \<Rightarrow> jsval \<Rightarrow> 's \<Rightarrow> jsval result \<times> 's" where
  "read_pepper d pepper s =
     (if \<not> nullish pepper \<and> pepper \<noteq> JStr [] then (Inr pepper, s)
      else case db_get d ''keys'' [''data''] (Some [(''name'', JStr ''pepper'')]) None s of
             (Inl e, s1) \<Rightarrow> (Inl e, s1)
           | (Inr [], s1) \<Rightarrow> (Inl (Err ''Cannot read properties of undefined''), s1)
           | (Inr (row # _), s1) \<Rightarrow> (Inr (getp row ''data''), s1))"

definition hash_of_job :: "nacl \<Rightarrow> jsval \<Rightarrow> hash_job \<Rightarrow> string result" where
  "hash_of_job nl pepper j =
     (case hashed_value (hj_field j) (hj_value j) of
        Inl e \<Rightarrow> Inl e
      | Inr t \<Rightarrow> hash_call nl (hj_method j) (hashed_text t (medium_of (hj_field j)) pepper))"

definition update_one :: "'s backend \<Rightarrow> nacl \<Rightarrow> jsval \<Rightarrow> hash_job \<Rightarrow> 's \<Rightarrow> unit result \<times> jsval \<times> 's" where
  "update_one d nl pepper j s =
     (case read_pepper d pepper s of
        (Inl e, s1) \<Rightarrow> (Inl e, pepper, s1)
      | (Inr p, s1) \<Rightarrow>
          (case hash_of_job nl p j of
             Inl e \<Rightarrow> (Inl e, p, s1)
           | Inr h \<Rightarrow>
               (case db_insert d ''hashes'' (hash_entry p j h) s1 of
                  (Inl e, s2) \<Rightarrow> (Inl e, p, s2)
                | (Inr _, s2) \<Rightarrow> (Inr (), p, s2))))"

text \<open>
  The pool hands its workers out in the order of the requests.  A worker whose job fails is not given
  back, so that a job is started as long as fewer than \<open>workers\<close> of the jobs before it have failed;
  the others wait for ever, and nobody waits for them.
\<close>

fun run_pool :: "'s backend \<Rightarrow> nacl \<Rightarrow> nat \<Rightarrow> jsval \<Rightarrow> hash_job list \<Rightarrow> 's \<Rightarrow> unit result \<times> 's" where
  "run_pool d nl workers pepper [] s = (Inr (), s)"
| "run_pool d nl 0 pepper (j # js) s = (Inr (), s)"
| "run_pool d nl (Suc n) pepper (j # js) s =
     (case update_one d nl pepper j s of
        (Inr _, p, s1) \<Rightarrow> run_pool d nl (Suc n) p js s1
      | (Inl e, p, s1) \<Rightarrow> (Inl e, snd (run_pool d nl n p js s1)))"

definition updateHash :: "'s backend \<Rightarrow> nacl \<Rightarrow> (string \<times> obj) list \<Rightarrow> jsval \<Rightarrow> 's \<Rightarrow> unit result \<times> 's" where
  "updateHash d nl data pepper s = run_pool d nl 5 pepper (hash_jobs data) s"

section \<open>Changing the pepper\<close>

datatype matrix_db = MatrixDown jserror | MatrixUsers "obj list result"

record lookup_conf =
  lc_server :: string
  lc_matrix :: "matrix_db option"
  lc_federated :: bool

text \<open>\<open>replace(/^@(.*?):.*$/, '$1')\<close>\<close>

definition uid_of :: "string \<Rightarrow> string" where
  "uid_of a =
     (if starts_with a ''@'' \<and> CHR '':'' \<in> set (drop 1 a) \<and> list_all (\<lambda>c. c \<noteq> CHR 0x0A \<and> c \<noteq> CHR 0x0D) a
      then takeWhile (\<lambda>c. c \<noteq> CHR '':'') (drop 1 a) else a)"

text \<open>The \<open>replace\<close> of every entry of a column; what is not a text has none.\<close>

fun uids_of :: "string \<Rightarrow> obj list \<Rightarrow> string list result" where
  "uids_of col [] = Inr []"
| "uids_of col (row # rows) =
     (case getp row col of
        JStr a \<Rightarrow> (case uids_of col rows of Inl e \<Rightarrow> Inl e | Inr us \<Rightarrow> Inr (uid_of a # us))
      | _ \<Rightarrow> Inl (Err ''replace is not a function''))"

definition set_active :: "obj \<Rightarrow> obj" where
  "set_active row = put ''active'' (JNum 1) row"

definition filter_users :: "lookup_conf \<Rightarrow> obj list \<Rightarrow> obj list result" where
  "filter_users cf rows =
     (case lc_matrix cf of
        None \<Rightarrow> Inr rows
      | Some (MatrixDown e) \<Rightarrow> Inl e
      | Some (MatrixUsers answer) \<Rightarrow>
          (case answer of
             Inl _ \<Rightarrow> Inr (if lc_federated cf then [] else rows)
           | Inr [] \<Rightarrow> Inr (if lc_federated cf then [] else rows)
           | Inr (entry # entries) \<Rightarrow>
               (case uids_of ''name'' (entry # entries) of
                  Inl e \<Rightarrow> Inl e
                | Inr names \<Rightarrow>
                    let known = (\<lambda>row. getp row ''uid'' \<in> set (map JStr names)) in
                    Inr (if lc_federated cf then map set_active (filter known rows)
                         else map (\<lambda>row. if known row then set_active row else row) rows))))"

definition matrix_id_of :: "string \<Rightarrow> jsval \<Rightarrow> string result" where
  "matrix_id_of server v =
     (case (case v of JStr u \<Rightarrow> toMatrixId u server | _ \<Rightarrow> Inl (TypeErr ''localpart must be a non-empty string'')) of
        Inr i \<Rightarrow> Inr i
      | Inl (TypeErr m) \<Rightarrow> Inl (Err m)
      | Inl (MatrixErr b) \<Rightarrow> Inl \<lparr>err_msg = js_str (field b ''error''), err_code = js_str (field b ''errcode'')\<rparr>)"

definition user_entry :: "lookup_conf \<Rightarrow> obj \<Rightarrow> obj" where
  "user_entry cf row =
     [(''email'', getp row ''mail''), (''phone'', getp row ''mobile''),
      (''active'', if lc_matrix cf = None then JNum 1 else getp row ''active'')]"

fun users_to_hash :: "lookup_conf \<Rightarrow> obj list \<Rightarrow> (string \<times> obj) list \<Rightarrow> (string \<times> obj) list result" where
  "users_to_hash cf [] res = Inr res"
| "users_to_hash cf (row # rows) res =
     (case matrix_id_of (lc_server cf) (getp row ''uid'') of
        Inl e \<Rightarrow> Inl e
      | Inr a \<Rightarrow> users_to_hash cf rows (put a (user_entry cf row) res))"

definition drop_old_hashes :: "'s backend \<Rightarrow> 's \<Rightarrow> 's" where
  "drop_old_hashes d s =
     (case db_get d ''keys'' [''data''] (Some [(''name'', JStr ''previousPepper'')]) None s of
        (Inr (row # _), s1) \<Rightarrow>
          (if nullish (getp row ''data'') \<or> length (js_str (getp row ''data'')) \<noteq> 32 then s1
           else snd (db_deleteEqual d ''hashes'' ''pepper'' (getp row ''data'') s1))
      | (_, s1) \<Rightarrow> s1)"

text \<open>The data of the table, from what the directory answers; every failure rejects the whole update.\<close>

definition hash_data :: "lookup_conf \<Rightarrow> obj list result \<Rightarrow> (string \<times> obj) list result" where
  "hash_data cf directory =
     (case directory of
        Inl e \<Rightarrow> Inl e
      | Inr rows \<Rightarrow> (case filter_users cf rows of Inl e \<Rightarrow> Inl e | Inr rows' \<Rightarrow> users_to_hash cf rows' []))"

definition write_hashes ::
  "'s backend \<Rightarrow> nacl \<Rightarrow> lookup_conf \<Rightarrow> obj list result \<Rightarrow> string \<Rightarrow> 's \<Rightarrow> unit result \<times> 's" where
  "write_hashes d nl cf directory newPepper s =
     (case hash_data cf directory of Inl e \<Rightarrow> (Inl e, s) | Inr data \<Rightarrow> updateHash d nl data (JStr newPepper) s)"

definition set_key :: "'s backend \<Rightarrow> string \<Rightarrow> jsval \<Rightarrow> 's \<Rightarrow> unit result \<times> 's" where
  "set_key d n v s =
     (case db_update d ''keys'' [(''data'', v)] ''name'' (JStr n) s of (Inl e, s1) \<Rightarrow> (Inl e, s1) | (Inr _, s1) \<Rightarrow> (Inr (), s1))"

definition updateHashes ::
  "'s backend \<Rightarrow> nacl \<Rightarrow> lookup_conf \<Rightarrow> obj list result \<Rightarrow> (nat \<Rightarrow> char) \<Rightarrow> nat \<Rightarrow> 's \<Rightarrow> unit result \<times> 's" where
  "updateHashes d nl cf directory rnd pos s =
     (let s1 = drop_old_hashes d s in
      case db_get d ''keys'' [''data''] (Some [(''name'', JStr ''pepper'')]) None s1 of
        (Inl e, s2) \<Rightarrow> (Inl e, s2)
      | (Inr [], s2) \<Rightarrow> (Inl (Err ''Cannot read properties of undefined''), s2)
      | (Inr (row # _), s2) \<Rightarrow>
          let newPepper = randomString rnd pos 32 in
          (case promise_all [set_key d ''previousPepper'' (getp row ''data''), write_hashes d nl cf directory newPepper] s2 of
             (Inl e, s3) \<Rightarrow> (Inl e, s3)
           | (Inr _, s3) \<Rightarrow> set_key d ''pepper'' (JStr newPepper) s3))"

section \<open>What the tables give\<close>

definition hash_cols :: "string list" where
  "hash_cols = [''hash'', ''pepper'', ''type'', ''value'', ''active'']"

text \<open>The row a job writes, and what a table says of a key.\<close>

definition job_row :: "nacl \<Rightarrow> jsval \<Rightarrow> hash_job \<Rightarrow> obj" where
  "job_row nl pepper j = stored_obj (hash_entry pepper j (case hash_of_job nl pepper j of Inr h \<Rightarrow> h | Inl _ \<Rightarrow> []))"

definition key_is :: "obj multiset \<Rightarrow> string \<Rightarrow> jsval \<Rightarrow> bool" where
  "key_is keys n v \<longleftrightarrow> {# r \<in># keys. sql_eq (getp r ''name'') (JStr n) #} = {#[(''name'', JStr n), (''data'', v)]#}"

definition with_pepper :: "jsval \<Rightarrow> obj multiset \<Rightarrow> obj multiset" where
  "with_pepper p hs = {# r \<in># hs. sql_eq (getp r ''pepper'') p #}"

definition without_pepper :: "jsval \<Rightarrow> obj multiset \<Rightarrow> obj multiset" where
  "without_pepper p hs = {# r \<in># hs. \<not> sql_eq (getp r ''pepper'') p #}"

lemma complete_entry: "complete hash_cols (stored_obj (hash_entry p j h)) = stored_obj (hash_entry p j h)"
  by (simp add: complete_def hash_cols_def stored_obj_def hash_entry_def)

lemma getp_entry:
  "getp (stored_obj (hash_entry p j h)) ''hash'' = JStr h"
  "getp (stored_obj (hash_entry p j h)) ''pepper'' = stored p"
  "getp (stored_obj (hash_entry p j h)) ''value'' = JStr (hj_address j)"
  "getp (stored_obj (hash_entry p j h)) ''active'' = stored (hj_active j)"
  by (simp_all add: stored_obj_def hash_entry_def stored_def)

lemma randomString_nonempty: "randomString rnd pos 32 \<noteq> []"
  by (simp add: randomString_eq)

locale lookup_db = table_db +
  assumes hashes: "schema ''hashes'' = hash_cols" "key ''hashes'' = [''hash'']"
    and keys: "schema ''keys'' = [''name'', ''data'']" "key ''keys'' = [''name'']"
begin

lemma update_one_spec:
  assumes "wf s" "p \<noteq> []" "update_one d nl (JStr p) j s = (r, p', s')"
  shows "p' = JStr p \<and> wf s' \<and> (healthy s \<longrightarrow> healthy s') \<and>
    (case r of
       Inl _ \<Rightarrow> tab s' = tab s
     | Inr _ \<Rightarrow> (\<exists>h. hash_of_job nl (JStr p) j = Inr h) \<and>
         tab s' = (tab s)(''hashes'' := add_mset (job_row nl (JStr p) j) (tab s ''hashes'')))"
proof -
  have rp: "read_pepper d (JStr p) s = (Inr (JStr p), s)" using assms(2) by (simp add: read_pepper_def)
  show ?thesis
  proof (cases "hash_of_job nl (JStr p) j")
    case (Inl e)
    then show ?thesis using assms rp by (auto simp: update_one_def)
  next
    case (Inr h)
    obtain q x where q: "db_insert d ''hashes'' (hash_entry (JStr p) j h) s = (q, x)" by fastforce
    have c: "hash_entry (JStr p) j h \<noteq> []" "set (map fst (hash_entry (JStr p) j h)) \<subseteq> set (schema ''hashes'')" "schema ''hashes'' \<noteq> []"
      by (auto simp: hash_entry_def hashes hash_cols_def)
    show ?thesis
      using insert_law [OF assms(1) c(3,1,2) q] assms(3) rp Inr q
      by (cases q) (auto simp: update_one_def hashes complete_entry job_row_def)
  qed
qed

lemma run_pool_spec:
  assumes "wf s" "p \<noteq> []" "run_pool d nl n (JStr p) js s = (r, s')"
  shows "\<exists>added. wf s' \<and> (healthy s \<longrightarrow> healthy s') \<and>
    tab s' = (tab s)(''hashes'' := added + tab s ''hashes'') \<and>
    (\<forall>x \<in># added. getp x ''pepper'' = JStr p) \<and>
    (r = Inr () \<longrightarrow> 0 < n \<longrightarrow> added = mset (map (job_row nl (JStr p)) js) \<and> (\<forall>j \<in> set js. \<exists>h. hash_of_job nl (JStr p) j = Inr h))"
  using assms
proof (induction js arbitrary: n s r s')
  case Nil
  then show ?case by (intro exI [of _ "{#}"]) auto
next
  case (Cons j js)
  show ?case
  proof (cases n)
    case 0
    then show ?thesis using Cons.prems by (intro exI [of _ "{#}"]) auto
  next
    case (Suc m)
    obtain q p' s1 where u: "update_one d nl (JStr p) j s = (q, p', s1)" using prod_cases3 by blast
    note us = update_one_spec [OF Cons.prems(1,2) u]
    have w: "wf s1" and p': "p' = JStr p" using us by auto
    show ?thesis
    proof (cases q)
      case (Inl e)
      obtain r2 s2 where r2: "run_pool d nl m (JStr p) js s1 = (r2, s2)" by fastforce
      from Cons.IH [OF w Cons.prems(2) r2] obtain added where "wf s2" "healthy s1 \<longrightarrow> healthy s2"
        "tab s2 = (tab s1)(''hashes'' := added + tab s1 ''hashes'')" "\<forall>x \<in># added. getp x ''pepper'' = JStr p" by blast
      then show ?thesis using Cons.prems(3) Suc u Inl us r2 p' by (intro exI [of _ added]) auto
    next
      case (Inr a)
      have r2: "run_pool d nl (Suc m) (JStr p) js s1 = (r, s')" using Cons.prems(3) Suc u Inr p' by simp
      from Cons.IH [OF w Cons.prems(2) r2] obtain added where *: "wf s'" "healthy s1 \<longrightarrow> healthy s'"
        "tab s' = (tab s1)(''hashes'' := added + tab s1 ''hashes'')" "\<forall>x \<in># added. getp x ''pepper'' = JStr p"
        "r = Inr () \<longrightarrow> added = mset (map (job_row nl (JStr p)) js) \<and> (\<forall>j \<in> set js. \<exists>h. hash_of_job nl (JStr p) j = Inr h)"
        by blast
      have "getp (job_row nl (JStr p) j) ''pepper'' = JStr p" by (simp add: job_row_def getp_entry stored_def)
      then show ?thesis using * us Inr by (intro exI [of _ "add_mset (job_row nl (JStr p) j) added"]) auto
    qed
  qed
qed

lemma write_hashes_spec:
  assumes "wf s" "p \<noteq> []" "write_hashes d nl cf directory p s = (r, s')"
  shows "\<exists>added. wf s' \<and> (healthy s \<longrightarrow> healthy s') \<and>
    tab s' = (tab s)(''hashes'' := added + tab s ''hashes'') \<and>
    (\<forall>x \<in># added. getp x ''pepper'' = JStr p) \<and>
    (r = Inr () \<longrightarrow> (\<exists>data. hash_data cf directory = Inr data \<and>
       added = mset (map (job_row nl (JStr p)) (hash_jobs data)) \<and>
       (\<forall>j \<in> set (hash_jobs data). \<exists>h. hash_of_job nl (JStr p) j = Inr h)))"
proof (cases "hash_data cf directory")
  case (Inl e)
  then show ?thesis using assms by (intro exI [of _ "{#}"]) (auto simp: write_hashes_def)
next
  case (Inr data)
  then have "run_pool d nl 5 (JStr p) (hash_jobs data) s = (r, s')"
    using assms(3) by (simp add: write_hashes_def updateHash_def)
  from run_pool_spec [OF assms(1,2) this] show ?thesis unfolding Inr by fastforce
qed

lemma read_key:
  assumes "wf s" "healthy s" "key_is (tab s ''keys'') n v" "n \<noteq> []"
    "db_get d ''keys'' [''data''] (Some [(''name'', JStr n)]) None s = (r, s')"
  shows "r = Inr [[(''data'', v)]] \<and> wf s' \<and> healthy s' \<and> tab s' = tab s"
proof -
  have c: "''name'' \<in> set (schema ''keys'')" "[''data''] = [''*''] \<or> set [''data''] \<subseteq> set (schema ''keys'')" by (simp_all add: keys)
  obtain rs where rs: "r = Inr rs" using get_one_Inl [OF _ assms(1) c] assms(2,5) by (cases r) auto
  note g = get_one_Inr [OF assms(5) [unfolded rs] assms(1) c]
  have "matches [(''name'', JStr n)] = (\<lambda>r. sql_eq (getp r ''name'') (JStr n))"
    using assms(4) by (intro ext) (simp add: matches_one)
  then have "mset rs = {#[(''data'', v)]#}" using g assms(3) by (simp add: key_is_def project_def)
  then show ?thesis using rs g assms(2) by simp
qed

lemma set_key_spec:
  assumes "wf s" "healthy s" "set_key d n v s = (r, s')" "\<not> nullish v"
  shows "r = Inr () \<and> wf s' \<and> healthy s' \<and> (\<forall>t. t \<noteq> ''keys'' \<longrightarrow> tab s' t = tab s t) \<and>
    (\<forall>w. key_is (tab s ''keys'') n w \<longrightarrow> key_is (tab s' ''keys'') n v) \<and>
    (\<forall>m w. m \<noteq> n \<longrightarrow> key_is (tab s ''keys'') m w \<longrightarrow> key_is (tab s' ''keys'') m w)"
proof -
  let ?T = "tab s ''keys''"
  let ?f = "\<lambda>r. if sql_eq (getp r ''name'') (JStr n) then assign [(''data'', v)] r else r"
  obtain q x where q: "db_update d ''keys'' [(''data'', v)] ''name'' (JStr n) s = (q, x)" by fastforce
  have c: "schema ''keys'' \<noteq> []" "[(''data'', v)] \<noteq> []" "set (''name'' # map fst [(''data'', v)]) \<subseteq> set (schema ''keys'')"
    by (auto simp: keys)
  have k: "set (key ''keys'') \<inter> set (map fst [(''data'', v)]) = {}" by (simp add: keys)
  have so: "stored_obj [(''data'', v)] = [(''data'', v)]" using assms(4) by (simp add: stored_obj_def stored_def)
  have "q \<noteq> Inl e" for e using update_other_ok [OF assms(1) c k] q assms(2) by blast
  then obtain rs where rs: "q = Inr rs" by (cases q) auto
  have u: "wf x" "healthy x" "tab x = (tab s)(''keys'' := image_mset ?f ?T)"
    using update_law [OF assms(1) c q, unfolded so] assms(2) rs by simp_all
  have nm: "getp (?f r) ''name'' = getp r ''name''" for r by (simp add: getp_assign_other)
  have f: "{# r \<in># image_mset ?f ?T. sql_eq (getp r ''name'') (JStr m) #} = image_mset ?f {# r \<in># ?T. sql_eq (getp r ''name'') (JStr m) #}" for m
    by (simp add: filter_mset_image_mset nm)
  have same: "key_is (image_mset ?f ?T) n v" if "key_is ?T n w" for w
    using that f [of n] by (simp add: key_is_def assign_def sql_eq_def)
  have other: "key_is (image_mset ?f ?T) m w" if "m \<noteq> n" "key_is ?T m w" for m w
    using that f [of m] by (simp add: key_is_def sql_eq_def)
  show ?thesis using assms(3) q rs u same other by (auto simp: set_key_def)
qed
lemma drop_old_spec:
  assumes "wf s" "healthy s" "key_is (tab s ''keys'') ''previousPepper'' (JStr q)"
  shows "wf (drop_old_hashes d s) \<and> healthy (drop_old_hashes d s) \<and>
    tab (drop_old_hashes d s) = (tab s)(''hashes'' := if length q = 32 then without_pepper (JStr q) (tab s ''hashes'') else tab s ''hashes'')"
proof -
  obtain r s1 where g: "db_get d ''keys'' [''data''] (Some [(''name'', JStr ''previousPepper'')]) None s = (r, s1)" by fastforce
  have g1: "r = Inr [[(''data'', JStr q)]]" "wf s1" "healthy s1" "tab s1 = tab s"
    using read_key [OF assms _ g] by auto
  show ?thesis
  proof (cases "length q = 32")
    case False
    then show ?thesis using g g1 by (auto simp: drop_old_hashes_def)
  next
    case True
    obtain u s2 where u: "db_deleteEqual d ''hashes'' ''pepper'' (JStr q) s1 = (u, s2)" by fastforce
    have "\<not> bad_condition ''pepper'' (JStr q)" using True by (auto simp: bad_condition_def)
    moreover have "''pepper'' \<in> set (schema ''hashes'')" by (simp add: hashes hash_cols_def)
    ultimately have "wf s2 \<and> healthy s2 \<and> tab s2 = (tab s)(''hashes'' := without_pepper (JStr q) (tab s ''hashes''))"
      using delete_law [OF g1(2) _ u] g1(3,4) by (cases u) (auto simp: without_pepper_def)
    then show ?thesis using g g1 u True by (auto simp: drop_old_hashes_def)
  qed
qed

text \<open>What every change of the pepper does, also one that fails.\<close>

lemma updateHashes_spec:
  assumes "wf s" "healthy s" "key_is (tab s ''keys'') ''pepper'' (JStr p)" "key_is (tab s ''keys'') ''previousPepper'' (JStr q)"
    "updateHashes d nl cf directory rnd pos s = (r, s')"
  shows "\<exists>added. wf s' \<and> healthy s' \<and> key_is (tab s' ''keys'') ''previousPepper'' (JStr p) \<and>
    key_is (tab s' ''keys'') ''pepper'' (if r = Inr () then JStr (randomString rnd pos 32) else JStr p) \<and>
    tab s' ''hashes'' = added + (if length q = 32 then without_pepper (JStr q) (tab s ''hashes'') else tab s ''hashes'') \<and>
    (\<forall>t. t \<notin> {''keys'', ''hashes''} \<longrightarrow> tab s' t = tab s t) \<and>
    (\<forall>x \<in># added. getp x ''pepper'' = JStr (randomString rnd pos 32)) \<and>
    (r = Inr () \<longrightarrow> (\<exists>data. hash_data cf directory = Inr data \<and>
       added = mset (map (job_row nl (JStr (randomString rnd pos 32))) (hash_jobs data)) \<and>
       (\<forall>j \<in> set (hash_jobs data). \<exists>h. hash_of_job nl (JStr (randomString rnd pos 32)) j = Inr h)))"
proof -
  let ?np = "randomString rnd pos 32"
  let ?H = "if length q = 32 then without_pepper (JStr q) (tab s ''hashes'') else tab s ''hashes''"
  define s1 where "s1 = drop_old_hashes d s"
  have s1: "wf s1" "healthy s1" "tab s1 = (tab s)(''hashes'' := ?H)"
    using drop_old_spec [OF assms(1,2,4)] by (simp_all add: s1_def)
  obtain r2 s2 where g: "db_get d ''keys'' [''data''] (Some [(''name'', JStr ''pepper'')]) None s1 = (r2, s2)" by fastforce
  have k1: "key_is (tab s1 ''keys'') ''pepper'' (JStr p)" "key_is (tab s1 ''keys'') ''previousPepper'' (JStr q)"
    using assms(3,4) s1(3) by simp_all
  have s2: "r2 = Inr [[(''data'', JStr p)]]" "wf s2" "healthy s2" "tab s2 = tab s1"
    using read_key [OF s1(1,2) k1(1) _ g] by auto
  obtain r3 s3 where k: "set_key d ''previousPepper'' (JStr p) s2 = (r3, s3)" by fastforce
  have s3: "r3 = Inr ()" "wf s3" "healthy s3" "\<forall>t. t \<noteq> ''keys'' \<longrightarrow> tab s3 t = tab s2 t"
    "key_is (tab s3 ''keys'') ''previousPepper'' (JStr p)" "key_is (tab s3 ''keys'') ''pepper'' (JStr p)"
    using set_key_spec [OF s2(2,3) k] k1 s2(4) by auto
  obtain r4 s4 where w: "write_hashes d nl cf directory ?np s3 = (r4, s4)" by fastforce
  from write_hashes_spec [OF s3(2) randomString_nonempty w] obtain added where
    s4: "wf s4" "healthy s4" "tab s4 = (tab s3)(''hashes'' := added + tab s3 ''hashes'')"
      "\<forall>x \<in># added. getp x ''pepper'' = JStr ?np"
      "r4 = Inr () \<longrightarrow> (\<exists>data. hash_data cf directory = Inr data \<and>
         added = mset (map (job_row nl (JStr ?np)) (hash_jobs data)) \<and>
         (\<forall>j \<in> set (hash_jobs data). \<exists>h. hash_of_job nl (JStr ?np) j = Inr h))"
    using s3(3) by blast
  have t: "tab s4 ''hashes'' = added + ?H" "tab s4 ''keys'' = tab s3 ''keys''"
    "\<forall>t. t \<notin> {''keys'', ''hashes''} \<longrightarrow> tab s4 t = tab s t"
    using s4(3) s3(4) s2(4) s1(3) by auto
  show ?thesis
  proof (cases r4)
    case (Inl e)
    then have "r = Inl e" "s' = s4"
      using assms(5) g s2(1) k s3(1) w by (simp_all add: updateHashes_def s1_def [symmetric])
    then show ?thesis using s3(5,6) s4(1,2,4) t by (intro exI [of _ added]) auto
  next
    case (Inr x)
    then have u: "set_key d ''pepper'' (JStr ?np) s4 = (r, s')"
      using assms(5) g s2(1) k s3(1) w by (simp add: updateHashes_def s1_def [symmetric] Let_def)
    have "r = Inr ()" "wf s'" "healthy s'" "\<forall>t. t \<noteq> ''keys'' \<longrightarrow> tab s' t = tab s4 t"
      "key_is (tab s' ''keys'') ''previousPepper'' (JStr p)" "key_is (tab s' ''keys'') ''pepper'' (JStr ?np)"
      using set_key_spec [OF s4(1,2) u] s3(5,6) t(2) by auto
    then show ?thesis using s4(4,5) t Inr by (intro exI [of _ added]) auto
  qed
qed

text \<open>A second change after one that failed.\<close>

lemma second_change:
  assumes "wf s" "healthy s" "key_is (tab s ''keys'') ''pepper'' (JStr p)" "key_is (tab s ''keys'') ''previousPepper'' (JStr q)"
    "length p = 32" "randomString rnd2 pos2 32 \<noteq> p"
    "updateHashes d nl cf dir1 rnd1 pos1 s = (Inl e1, s1)" "updateHashes d nl cf dir2 rnd2 pos2 s1 = (Inl e2, s2)"
  shows "wf s2 \<and> healthy s2 \<and> key_is (tab s2 ''keys'') ''pepper'' (JStr p) \<and> with_pepper (JStr p) (tab s2 ''hashes'') = {#}"
proof -
  from updateHashes_spec [OF assms(1-4,7)] have s1: "wf s1" "healthy s1" "key_is (tab s1 ''keys'') ''pepper'' (JStr p)"
    "key_is (tab s1 ''keys'') ''previousPepper'' (JStr p)" by auto
  from updateHashes_spec [OF s1 assms(8)] obtain added where s2: "wf s2" "healthy s2" "key_is (tab s2 ''keys'') ''pepper'' (JStr p)"
    "tab s2 ''hashes'' = added + without_pepper (JStr p) (tab s1 ''hashes'')"
    "\<forall>x \<in># added. getp x ''pepper'' = JStr (randomString rnd2 pos2 32)"
    using assms(5) by auto
  have "with_pepper (JStr p) added = {#}"
    using s2(5) assms(6) by (auto simp: with_pepper_def filter_mset_eq_conv sql_eq_def)
  moreover have "with_pepper (JStr p) (without_pepper (JStr p) H) = {#}" for H
    by (auto simp: with_pepper_def without_pepper_def filter_filter_mset filter_mset_eq_conv)
  ultimately show ?thesis using s2 by (simp add: with_pepper_def)
qed

lemma one_hash: "wf s \<Longrightarrow> r1 \<in># tab s ''hashes'' \<Longrightarrow> r2 \<in># tab s ''hashes'' \<Longrightarrow>
  getp r1 ''hash'' = JStr h \<Longrightarrow> getp r2 ''hash'' = JStr h \<Longrightarrow> r1 = r2"
proof -
  assume w: "wf s" and r: "r1 \<in># tab s ''hashes''" "r2 \<in># tab s ''hashes''" "getp r1 ''hash'' = JStr h" "getp r2 ''hash'' = JStr h"
  have "{# r \<in># tab s ''hashes''. sql_eq (getp r ''hash'') (JStr h) #} = {#r1#}"
    using key_unique_rows [OF w hashes(2) r(1), of "JStr h"] r(3) by (simp add: sql_eq_def)
  moreover have "r2 \<in># {# r \<in># tab s ''hashes''. sql_eq (getp r ''hash'') (JStr h) #}" using r by (simp add: sql_eq_def)
  ultimately show "r1 = r2" by simp
qed

text \<open>What is found: the value of the only row with a hash.\<close>

lemma read_hashes:
  assumes "wf s" "db_get d ''hashes'' [''value'', ''hash'', ''active''] (Some [(''hash'', JArr (map JStr hs))]) None s = (r, s')"
  shows "wf s' \<and> tab s' = tab s \<and> (healthy s \<longrightarrow> healthy s' \<and> (\<exists>rs. r = Inr rs)) \<and>
    (\<forall>rs. r = Inr rs \<longrightarrow> mset rs = {# project [''value'', ''hash'', ''active''] x.
       x \<in># {# x \<in># tab s ''hashes''. join '','' hs = [] \<or> (\<exists>h \<in> set hs. sql_eq (getp x ''hash'') (JStr h)) #} #})"
proof -
  have c: "''hash'' \<in> set (schema ''hashes'')" "[''value'', ''hash'', ''active''] = [''*''] \<or> set [''value'', ''hash'', ''active''] \<subseteq> set (schema ''hashes'')"
    by (simp_all add: hashes hash_cols_def)
  have j: "js_str (JArr (map JStr hs)) = join '','' hs" by (simp add: comp_def)
  have "matches [(''hash'', JArr (map JStr hs))] = (\<lambda>x. join '','' hs = [] \<or> (\<exists>h \<in> set hs. sql_eq (getp x ''hash'') (JStr h)))"
    by (intro ext) (auto simp: matches_def kept_def match_val_def list_ex_iff comp_def)
  then show ?thesis
    using get_one_Inr [OF _ assms(1) c, of "JArr (map JStr hs)" None _ s'] get_one_Inl [OF _ assms(1) c, of "JArr (map JStr hs)" None _ s'] assms(2)
    by (cases r) auto
qed

end

lemma map_of_hash_record:
  "map_of (hash_record rows) h = Some v \<Longrightarrow> \<exists>r \<in> set rows. js_str (getp r ''hash'') = h \<and> getp r ''value'' = v"
  "r \<in> set rows \<Longrightarrow> js_str (getp r ''hash'') = h \<Longrightarrow> \<exists>v. map_of (hash_record rows) h = Some v"
proof -
  show "map_of (hash_record rows) h = Some v \<Longrightarrow> \<exists>r \<in> set rows. js_str (getp r ''hash'') = h \<and> getp r ''value'' = v"
    by (induction rows rule: rev_induct) (auto simp: hash_record_def split: if_splits)
  show "r \<in> set rows \<Longrightarrow> js_str (getp r ''hash'') = h \<Longrightarrow> \<exists>v. map_of (hash_record rows) h = Some v"
    by (induction rows rule: rev_induct) (auto simp: hash_record_def)
qed

text \<open>The hashes a reply names under one of its two keys.\<close>

definition named_in :: "response \<Rightarrow> string \<Rightarrow> string \<Rightarrow> jsval option" where
  "named_in resp k h = (case resp of Json status b \<Rightarrow> if status = 200 then map_of (as_obj (field b k)) h else None | _ \<Rightarrow> None)"

definition all_hashed :: "obj multiset \<Rightarrow> bool" where
  "all_hashed hs \<longleftrightarrow> (\<forall>r \<in># hs. \<exists>h. getp r ''hash'' = JStr h)"

context lookup_db
begin

lemma lookup_named:
  assumes "wf (as_db s1)" "healthy (as_db s1)" "all_hashed (tab (as_db s1) ''hashes'')"
    "authenticate req s = (CalledBack c t, s1)" "int (length hs) \<le> limit"
    "getp content ''addresses'' = JArr (map JStr hs)" "lookup d authenticate limit additional content req s = (resp, s')"
  shows "tab (as_db s') = tab (as_db s1) \<and>
    (named_in resp ''mappings'' h = Some v \<longleftrightarrow> (\<exists>r \<in># tab (as_db s1) ''hashes''.
       getp r ''hash'' = JStr h \<and> (hs = [] \<or> hs = [[]] \<or> h \<in> set hs) \<and> getp r ''active'' = JNum 1 \<and> getp r ''value'' = v))"
proof -
  let ?T = "tab (as_db s1) ''hashes''"
  let ?sel = "\<lambda>x. hs = [] \<or> hs = [[]] \<or> (\<exists>h \<in> set hs. sql_eq (getp x ''hash'') (JStr h))"
  let ?p = "project [''value'', ''hash'', ''active'']"
  have je: "join '','' hs = [] \<longleftrightarrow> hs = [] \<or> hs = [[]]" by (cases hs; cases "tl hs") auto
  obtain r x where g: "db_get d ''hashes'' [''value'', ''hash'', ''active''] (Some [(''hash'', JArr (map JStr hs))]) None (as_db s1) = (r, x)"
    by fastforce
  from read_hashes [OF assms(1) g] assms(2) obtain rs where rs: "r = Inr rs" "tab x = tab (as_db s1)"
    "mset rs = image_mset ?p (filter_mset ?sel ?T)" unfolding je by auto
  have l: "resp = lookup_reply additional rs" "s' = s1\<lparr>as_db := x\<rparr>"
    using assms(4-7) g rs(1)
    by (auto simp: lookup_def validateParameters_def missing_params_def lookup_schema_def addresses_ok_def
        is_text_def list_all_iff as_on_db_def Let_def)
  have set_rs: "set rs = ?p ` {x. x \<in># ?T \<and> ?sel x}"
    using arg_cong [OF rs(3), of set_mset] by auto
  have hp: "getp (?p x) ''hash'' = getp x ''hash''" "getp (?p x) ''value'' = getp x ''value''" "getp (?p x) ''active'' = getp x ''active''" for x
    by (simp_all add: project_def)
  have in_rs: "\<exists>x. x \<in># ?T \<and> ?sel x \<and> y = ?p x" if "y \<in> set rs" for y
    using that unfolding set_rs by blast
  have n: "named_in resp ''mappings'' h = map_of (hash_record (filter (\<lambda>r. getp r ''active'' = JNum 1) rs)) h"
    by (simp add: l lookup_reply_def named_in_def field_def as_obj_def Let_def)
  show ?thesis
  proof (intro conjI iffI)
    show "tab (as_db s') = tab (as_db s1)" using l rs(2) by simp
  next
    assume "named_in resp ''mappings'' h = Some v"
    then obtain y where "y \<in> set rs" "getp y ''active'' = JNum 1" "js_str (getp y ''hash'') = h" "getp y ''value'' = v"
      unfolding n using map_of_hash_record(1) [of "filter (\<lambda>r. getp r ''active'' = JNum 1) rs"] by auto
    then obtain x where x: "x \<in># ?T" "?sel x" "getp x ''active'' = JNum 1" "js_str (getp x ''hash'') = h" "getp x ''value'' = v"
      using in_rs [of y] hp by metis
    obtain h' where "getp x ''hash'' = JStr h'" using x(1) assms(3) by (auto simp: all_hashed_def)
    then show "\<exists>r \<in># ?T. getp r ''hash'' = JStr h \<and> (hs = [] \<or> hs = [[]] \<or> h \<in> set hs) \<and> getp r ''active'' = JNum 1 \<and> getp r ''value'' = v"
      using x by (auto simp: sql_eq_def intro!: bexI [of _ x])
  next
    assume "\<exists>r \<in># ?T. getp r ''hash'' = JStr h \<and> (hs = [] \<or> hs = [[]] \<or> h \<in> set hs) \<and> getp r ''active'' = JNum 1 \<and> getp r ''value'' = v"
    then obtain x where x: "x \<in># ?T" "getp x ''hash'' = JStr h" "hs = [] \<or> hs = [[]] \<or> h \<in> set hs" "getp x ''active'' = JNum 1" "getp x ''value'' = v"
      by blast
    then have "?p x \<in> set rs" unfolding set_rs by (auto simp: sql_eq_def)
    then obtain w where w: "named_in resp ''mappings'' h = Some w"
      unfolding n using map_of_hash_record(2) [of "?p x" "filter (\<lambda>r. getp r ''active'' = JNum 1) rs" h] x(2,4) hp by auto
    then obtain y where y: "y \<in> set rs" "js_str (getp y ''hash'') = h" "getp y ''value'' = w"
      unfolding n using map_of_hash_record(1) [of "filter (\<lambda>r. getp r ''active'' = JNum 1) rs"] by auto
    then obtain z where z: "z \<in># ?T" "js_str (getp z ''hash'') = h" "getp z ''value'' = w" using in_rs [of y] hp by metis
    obtain h' where "getp z ''hash'' = JStr h'" using z(1) assms(3) by (auto simp: all_hashed_def)
    with z have "getp z ''hash'' = JStr h" by simp
    then have "z = x" using one_hash [OF assms(1) z(1) x(1) _ x(2)] by blast
    then show "named_in resp ''mappings'' h = Some v" using w z x by simp
  qed
qed

end

lemma tom_schema_lookup: "schema_of tom_tables ''hashes'' = hash_cols" "key_of tom_tables ''hashes'' = [''hash'']"
  "schema_of tom_tables ''keys'' = [''name'', ''data'']" "key_of tom_tables ''keys'' = [''name'']"
  unfolding tom_schema tom_key by code_simp+

lemma tom_lookup:
  "tom_database d ok healthy tab \<Longrightarrow> lookup_db d ok healthy tab (schema_of tom_tables) (key_of tom_tables)"
  by (intro lookup_db.intro lookup_db_axioms.intro) (simp_all add: tom_schema_lookup)

interpretation lookups: lookup_db "mem_db dia" "store_wf tom_tables" store_healthy rows_of
    "schema_of tom_tables" "key_of tom_tables"
  for dia
  by (rule tom_lookup [OF mem_tom])

section \<open>Jobs\<close>

lemma job_of_entry:
  assumes "(a, v) \<in> set data" "fld \<in> {''email'', ''phone''}" "getp v fld = JStr m" "m \<noteq> []"
  shows "\<lparr>hj_address = a, hj_method = ''sha256'', hj_field = fld, hj_value = JStr m, hj_active = getp v ''active''\<rparr> \<in> set (hash_jobs data)"
  using assms by (force simp: hash_jobs_def fieldsToHash_def supportedHashes_def Let_def)

text \<open>The hash of a mail address or a phone number under a pepper.\<close>

definition address_hash :: "nacl \<Rightarrow> string \<Rightarrow> string \<Rightarrow> string \<Rightarrow> string result" where
  "address_hash nl fld m pepper =
     hash_call nl ''sha256'' (hashed_text (if fld = ''phone'' then plain_phone m else m) (medium_of fld) (JStr pepper))"

lemma job_row_of_entry:
  assumes "(a, v) \<in> set data" "fld \<in> {''email'', ''phone''}" "getp v fld = JStr m" "m \<noteq> []" "address_hash nl fld m p = Inr h"
  shows "\<exists>x \<in># mset (map (job_row nl (JStr p)) (hash_jobs data)). getp x ''hash'' = JStr h \<and>
    getp x ''value'' = JStr a \<and> getp x ''active'' = stored (getp v ''active'')"
proof -
  let ?j = "\<lparr>hj_address = a, hj_method = ''sha256'', hj_field = fld, hj_value = JStr m, hj_active = getp v ''active''\<rparr>"
  have "?j \<in> set (hash_jobs data)" by (rule job_of_entry [OF assms(1-4)])
  moreover have "hash_of_job nl (JStr p) ?j = Inr h"
    using assms(2,5) by (auto simp: hash_of_job_def hashed_value_def address_hash_def medium_of_def)
  then have "getp (job_row nl (JStr p) ?j) ''hash'' = JStr h" "getp (job_row nl (JStr p) ?j) ''value'' = JStr a"
    "getp (job_row nl (JStr p) ?j) ''active'' = stored (getp v ''active'')"
    by (simp_all add: job_row_def getp_entry)
  ultimately show ?thesis by (intro bexI [of _ "job_row nl (JStr p) ?j"]) auto
qed

lemma all_hashed_jobs: "all_hashed hs \<Longrightarrow> all_hashed (mset (map (job_row nl p) js) + {# r \<in># hs. P r #})"
  by (auto simp: all_hashed_def job_row_def getp_entry)

section \<open>Properties\<close>

text \<open>
  C10: A change of the pepper that succeeds publishes the new one, keeps the one before as the previous
  pepper, removes the hashes of the pepper before that when it was a generated one, keeps all other
  hashes, and writes one row for every mail address and phone number of the users of the directory.
\<close>

theorem pepper_rotation:
  assumes "tom_database d ok healthy tab" "ok s" "healthy s"
    "key_is (tab s ''keys'') ''pepper'' (JStr p)" "key_is (tab s ''keys'') ''previousPepper'' (JStr q)"
    "updateHashes d nl cf directory rnd pos s = (Inr (), s')"
  shows "key_is (tab s' ''keys'') ''pepper'' (JStr (randomString rnd pos 32)) \<and>
    key_is (tab s' ''keys'') ''previousPepper'' (JStr p) \<and>
    (\<exists>data. hash_data cf directory = Inr data \<and>
       tab s' ''hashes'' = mset (map (job_row nl (JStr (randomString rnd pos 32))) (hash_jobs data)) +
         {# r \<in># tab s ''hashes''. \<not> (length q = 32 \<and> sql_eq (getp r ''pepper'') (JStr q)) #}) \<and>
    (\<forall>t. t \<notin> {''keys'', ''hashes''} \<longrightarrow> tab s' t = tab s t)"
proof -
  let ?np = "randomString rnd pos 32"
  let ?H = "{# r \<in># tab s ''hashes''. \<not> (length q = 32 \<and> sql_eq (getp r ''pepper'') (JStr q)) #}"
  have H: "(if length q = 32 then without_pepper (JStr q) (tab s ''hashes'') else tab s ''hashes'') = ?H"
    by (simp add: without_pepper_def)
  from lookup_db.updateHashes_spec [OF tom_lookup [OF assms(1)] assms(2-6), unfolded H] obtain added where
    u: "key_is (tab s' ''keys'') ''previousPepper'' (JStr p)" "key_is (tab s' ''keys'') ''pepper'' (JStr ?np)"
      "tab s' ''hashes'' = added + ?H" "\<forall>t. t \<notin> {''keys'', ''hashes''} \<longrightarrow> tab s' t = tab s t"
      "\<exists>data. hash_data cf directory = Inr data \<and> added = mset (map (job_row nl (JStr ?np)) (hash_jobs data))"
    by auto
  then obtain data where "hash_data cf directory = Inr data" "added = mset (map (job_row nl (JStr ?np)) (hash_jobs data))" by blast
  then show ?thesis using u(1-4) by (intro conjI exI [of _ data]) simp_all
qed

text \<open>
  C9: After a change of the pepper that succeeds, whoever asks for the hash of the mail address or the
  phone number of an active user, made with the new pepper, is told this user's Matrix identifier.
\<close>

theorem rotated_users_found:
  assumes "tom_database d ok healthy tab" "ok s" "healthy s" "all_hashed (tab s ''hashes'')"
    "key_is (tab s ''keys'') ''pepper'' (JStr p)" "key_is (tab s ''keys'') ''previousPepper'' (JStr q)"
    "updateHashes d nl cf directory rnd pos s = (Inr (), s')" "hash_data cf directory = Inr data"
    "(a, v) \<in> set data" "fld \<in> {''email'', ''phone''}" "getp v fld = JStr m" "m \<noteq> []" "getp v ''active'' = JNum 1"
    "address_hash nl fld m (randomString rnd pos 32) = Inr h"
    "authenticate req s1 = (CalledBack c t, s2)" "as_db s2 = s'" "1 \<le> limit" "getp content ''addresses'' = JArr [JStr h]"
  shows "named_in (fst (lookup d authenticate limit additional content req s1)) ''mappings'' h = Some (JStr a)"
proof -
  note l = tom_lookup [OF assms(1)]
  let ?np = "randomString rnd pos 32"
  from lookup_db.updateHashes_spec [OF l assms(2,3,5,6,7)] obtain added where
    u: "ok s'" "healthy s'" "tab s' ''hashes'' = added + (if length q = 32 then without_pepper (JStr q) (tab s ''hashes'') else tab s ''hashes'')"
      "added = mset (map (job_row nl (JStr ?np)) (hash_jobs data))"
    using assms(8) by auto
  have t: "tab s' ''hashes'' = added + {# r \<in># tab s ''hashes''. \<not> (length q = 32 \<and> sql_eq (getp r ''pepper'') (JStr q)) #}"
    using u(3) by (simp add: without_pepper_def)
  have "all_hashed (tab s' ''hashes'')" unfolding t u(4) by (rule all_hashed_jobs [OF assms(4)])
  then have s2: "ok (as_db s2)" "healthy (as_db s2)" "all_hashed (tab (as_db s2) ''hashes'')"
    using u(1,2) assms(16) by simp_all
  obtain x where x: "x \<in># added" "getp x ''hash'' = JStr h" "getp x ''value'' = JStr a" "getp x ''active'' = JNum 1"
    using job_row_of_entry [OF assms(9-12,14)] assms(13) u(4) by (auto simp: stored_def)
  obtain resp s3 where k: "lookup d authenticate limit additional content req s1 = (resp, s3)" by fastforce
  have "int (length [h]) \<le> limit" "getp content ''addresses'' = JArr (map JStr [h])" using assms(17,18) by simp_all
  from lookup_db.lookup_named [OF l s2 assms(15) this k, of h "JStr a"] x u(3) assms(16)
  show ?thesis unfolding k by auto
qed

text \<open>
  Two users of the directory with the same mail address or phone number make every change of the
  pepper fail, as the hash of the address would have to be stored twice.
\<close>

theorem shared_address_blocks_rotation:
  assumes "tom_database d ok healthy tab" "ok s" "healthy s"
    "key_is (tab s ''keys'') ''pepper'' (JStr p)" "key_is (tab s ''keys'') ''previousPepper'' (JStr q)"
    "hash_data cf directory = Inr data" "(a, v) \<in> set data" "(b, w) \<in> set data" "a \<noteq> b"
    "fld \<in> {''email'', ''phone''}" "getp v fld = JStr m" "getp w fld = JStr m" "m \<noteq> []"
    "address_hash nl fld m (randomString rnd pos 32) = Inr h"
  shows "\<exists>e. fst (updateHashes d nl cf directory rnd pos s) = Inl e"
proof (rule ccontr)
  note l = tom_lookup [OF assms(1)]
  assume "\<nexists>e. fst (updateHashes d nl cf directory rnd pos s) = Inl e"
  then obtain s' where s': "updateHashes d nl cf directory rnd pos s = (Inr (), s')"
    by (cases "updateHashes d nl cf directory rnd pos s"; cases "fst (updateHashes d nl cf directory rnd pos s)") auto
  from lookup_db.updateHashes_spec [OF l assms(2-5) s'] obtain added where
    u: "ok s'" "added \<subseteq># tab s' ''hashes''" "added = mset (map (job_row nl (JStr (randomString rnd pos 32))) (hash_jobs data))"
    using assms(6) by auto
  obtain x where x: "x \<in># added" "getp x ''hash'' = JStr h" "getp x ''value'' = JStr a"
    using job_row_of_entry [OF assms(7,10,11,13,14)] u(3) by auto
  obtain y where y: "y \<in># added" "getp y ''hash'' = JStr h" "getp y ''value'' = JStr b"
    using job_row_of_entry [OF assms(8,10,12,13,14)] u(3) by auto
  have "x = y" using lookup_db.one_hash [OF l u(1) _ _ x(2) y(2)] x(1) y(1) mset_subset_eqD [OF u(2)] by blast
  then show False using x(3) y(3) assms(9) by simp
qed

text \<open>
  A change of the pepper that fails leaves the published pepper alone but records it as the previous
  one, so that the next change removes every hash made with the published pepper; when that change
  fails too, clients still read this pepper and nobody is found with it.
\<close>

theorem failed_rotations_empty_lookup:
  assumes "tom_database d ok healthy tab" "ok s" "healthy s"
    "key_is (tab s ''keys'') ''pepper'' (JStr p)" "key_is (tab s ''keys'') ''previousPepper'' (JStr q)"
    "length p = 32" "randomString rnd2 pos2 32 \<noteq> p"
    "updateHashes d nl cf dir1 rnd1 pos1 s = (Inl e1, s1)" "updateHashes d nl cf dir2 rnd2 pos2 s1 = (Inl e2, s2)"
  shows "key_is (tab s2 ''keys'') ''pepper'' (JStr p) \<and> with_pepper (JStr p) (tab s2 ''hashes'') = {#}"
  using lookup_db.second_change [OF tom_lookup [OF assms(1)] assms(2-9)] by blast

text \<open>
  C11: A lookup answers with the Matrix identifiers of the active rows that have one of the hashes asked
  for, and with no other; but a request for no hash, or for the empty one alone, is answered with
  every active row of the table.
\<close>

theorem lookup_answers:
  assumes "tom_database d ok healthy tab" "authenticate req s = (CalledBack c t, s1)"
    "ok (as_db s1)" "healthy (as_db s1)" "all_hashed (tab (as_db s1) ''hashes'')" "int (length hs) \<le> limit"
    "getp content ''addresses'' = JArr (map JStr hs)" "lookup d authenticate limit additional content req s = (resp, s')"
  shows "tab (as_db s') = tab (as_db s1) \<and>
    (\<forall>h v. named_in resp ''mappings'' h = Some v \<longleftrightarrow> (\<exists>r \<in># tab (as_db s1) ''hashes''.
       getp r ''hash'' = JStr h \<and> (hs = [] \<or> hs = [[]] \<or> h \<in> set hs) \<and> getp r ''active'' = JNum 1 \<and> getp r ''value'' = v))"
  using lookup_db.lookup_named [OF tom_lookup [OF assms(1)] assms(3-5,2,6-8)] by blast

section \<open>Witnesses\<close>

definition demo_pepper :: string where
  "demo_pepper = replicate 32 CHR ''p''"

definition demo_hash_row :: "string \<Rightarrow> string \<Rightarrow> string \<Rightarrow> obj" where
  "demo_hash_row h p a = [(''hash'', JStr h), (''pepper'', JStr p), (''type'', JStr ''email''), (''value'', JStr a), (''active'', JNum 1)]"

definition demo_lookup :: store where
  "demo_lookup = with_rows (with_rows tom_store ''keys''
       [[(''name'', JStr ''pepper''), (''data'', JStr demo_pepper)], [(''name'', JStr ''previousPepper''), (''data'', JStr [])]])
     ''hashes'' [demo_hash_row ''h1'' demo_pepper ''@ann:x'']"

definition demo_nacl :: nacl where
  "demo_nacl = \<lparr>encode_utf8 = (\<lambda>t. t), crypto_hash_sha256 = (\<lambda>t. [CHR 0x01]), crypto_hash = (\<lambda>t. t)\<rparr>"

definition demo_conf :: lookup_conf where
  "demo_conf = \<lparr>lc_server = ''[::1]'', lc_matrix = None, lc_federated = False\<rparr>"

definition demo_person :: "string \<Rightarrow> string \<Rightarrow> obj" where
  "demo_person u m = [(''uid'', JStr u), (''mail'', JStr m), (''mobile'', Null)]"

lemma demo_lookup_facts: "store_wf tom_tables demo_lookup" "store_healthy demo_lookup"
  "rows_of demo_lookup = (\<lambda>t. {#})(''keys'' := {#[(''name'', JStr ''pepper''), (''data'', JStr demo_pepper)],
       [(''name'', JStr ''previousPepper''), (''data'', JStr [])]#}, ''hashes'' := {#demo_hash_row ''h1'' demo_pepper ''@ann:x''#})"
proof -
  let ?ks = "[[(''name'', JStr ''pepper''), (''data'', JStr demo_pepper)], [(''name'', JStr ''previousPepper''), (''data'', JStr [])]]"
  let ?s = "with_rows tom_store ''keys'' ?ks"
  have t: "store_wf tom_tables ?s" "rows_of ?s = (rows_of tom_store)(''keys'' := mset ?ks)" "faults ?s = faults tom_store"
    by (rule with_rows_ok [OF tom_store_wf]; simp add: tom_schema_lookup keys_of_def)+
  have p: "store_wf tom_tables demo_lookup" "rows_of demo_lookup = (rows_of ?s)(''hashes'' := mset [demo_hash_row ''h1'' demo_pepper ''@ann:x''])"
    "faults demo_lookup = faults ?s"
    unfolding demo_lookup_def
    by (rule with_rows_ok [OF t(1)]; simp add: tom_schema_lookup hash_cols_def demo_hash_row_def keys_of_def)+
  show "store_wf tom_tables demo_lookup" "store_healthy demo_lookup"
    "rows_of demo_lookup = (\<lambda>t. {#})(''keys'' := {#[(''name'', JStr ''pepper''), (''data'', JStr demo_pepper)],
       [(''name'', JStr ''previousPepper''), (''data'', JStr [])]#}, ''hashes'' := {#demo_hash_row ''h1'' demo_pepper ''@ann:x''#})"
    using t p by (auto simp: store_healthy_def tom_store_rows fun_eq_iff)
qed

lemma demo_keys: "key_is (rows_of demo_lookup ''keys'') ''pepper'' (JStr demo_pepper)"
  "key_is (rows_of demo_lookup ''keys'') ''previousPepper'' (JStr [])" "all_hashed (rows_of demo_lookup ''hashes'')"
  by (simp_all add: key_is_def demo_lookup_facts sql_eq_def all_hashed_def demo_hash_row_def)

definition demo_rnd :: "nat \<Rightarrow> char" where
  "demo_rnd i = CHR ''a''"

definition demo_bob :: "obj list result" where
  "demo_bob = Inr [demo_person ''bob'' ''b'']"

lemma demo_rotation_runs: "fst (updateHashes (mem_db PG) demo_nacl demo_conf demo_bob demo_rnd 0 demo_lookup) = Inr ()"
  by code_simp

lemma demo_data: "hash_data demo_conf demo_bob = Inr [(''@bob:[::1]'', [(''email'', JStr ''b''), (''phone'', Null), (''active'', JNum 1)])]"
  by code_simp

lemma demo_rotation: "\<exists>s'. updateHashes (mem_db PG) demo_nacl demo_conf demo_bob demo_rnd 0 demo_lookup = (Inr (), s')"
  using demo_rotation_runs by (metis prod.collapse)

theorem pepper_rotation_witness:
  "key_is (rows_of (snd (updateHashes (mem_db PG) demo_nacl demo_conf demo_bob demo_rnd 0 demo_lookup)) ''keys'')
     ''previousPepper'' (JStr demo_pepper)"
proof -
  obtain s' where s': "updateHashes (mem_db PG) demo_nacl demo_conf demo_bob demo_rnd 0 demo_lookup = (Inr (), s')"
    using demo_rotation by blast
  from pepper_rotation [OF mem_tom demo_lookup_facts(1,2) demo_keys(1,2) s'] show ?thesis unfolding s' by simp
qed

lemma demo_mail_hash: "\<exists>h. address_hash demo_nacl ''email'' m p = Inr h"
  by (simp add: address_hash_def hash_call_def hash_strs_def)

theorem rotated_users_found_witness:
  "\<exists>s' h. updateHashes (mem_db PG) demo_nacl demo_conf demo_bob demo_rnd 0 demo_lookup = (Inr (), s') \<and>
     named_in (fst (lookup (mem_db PG) (\<lambda>_ s. (CalledBack [] (Some (Some ''t'')), s)) 100 False
         [(''addresses'', JArr [JStr h])] (demo_request [] []) \<lparr>as_db = s', as_log = []\<rparr>)) ''mappings'' h = Some (JStr ''@bob:[::1]'')"
proof -
  obtain s' where s': "updateHashes (mem_db PG) demo_nacl demo_conf demo_bob demo_rnd 0 demo_lookup = (Inr (), s')"
    using demo_rotation by blast
  obtain h where h: "address_hash demo_nacl ''email'' ''b'' (randomString demo_rnd 0 32) = Inr h" using demo_mail_hash by blast
  have "named_in (fst (lookup (mem_db PG) (\<lambda>_ s. (CalledBack [] (Some (Some ''t'')), s)) 100 False
         [(''addresses'', JArr [JStr h])] (demo_request [] []) \<lparr>as_db = s', as_log = []\<rparr>)) ''mappings'' h = Some (JStr ''@bob:[::1]'')"
    using rotated_users_found [OF mem_tom demo_lookup_facts(1,2) demo_keys(3,1,2) s' demo_data _ _ _ _ _ h refl, of "''@bob:[::1]''"]
    by simp
  with s' show ?thesis by blast
qed

definition demo_twins :: "obj list result" where
  "demo_twins = Inr [demo_person ''bob'' ''b'', demo_person ''eve'' ''b'']"

theorem shared_address_blocks_rotation_witness:
  "\<exists>e. fst (updateHashes (mem_db SQLITE) demo_nacl demo_conf demo_twins demo_rnd 0 demo_lookup) = Inl e"
proof -
  have t: "hash_data demo_conf demo_twins = Inr
      [(''@bob:[::1]'', [(''email'', JStr ''b''), (''phone'', Null), (''active'', JNum 1)]),
       (''@eve:[::1]'', [(''email'', JStr ''b''), (''phone'', Null), (''active'', JNum 1)])]" by code_simp
  obtain h where h: "address_hash demo_nacl ''email'' ''b'' (randomString demo_rnd 0 32) = Inr h" using demo_mail_hash by blast
  from shared_address_blocks_rotation [OF mem_tom demo_lookup_facts(1,2) demo_keys(1,2) t _ _ _ _ _ _ _ h,
    of "''@bob:[::1]''" _ "''@eve:[::1]''"] show ?thesis by simp
qed

theorem failed_rotations_empty_lookup_witness:
  "\<exists>e1 s1 e2 s2. updateHashes (mem_db PG) demo_nacl demo_conf (Inl (Err ''down'')) demo_rnd 0 demo_lookup = (Inl e1, s1) \<and>
     updateHashes (mem_db PG) demo_nacl demo_conf (Inl (Err ''down'')) demo_rnd 32 s1 = (Inl e2, s2) \<and>
     with_pepper (JStr demo_pepper) (rows_of s2 ''hashes'') = {#}"
proof -
  let ?u = "updateHashes (mem_db PG) demo_nacl demo_conf (Inl (Err ''down''))"
  have "fst (?u demo_rnd 0 demo_lookup) = Inl (Err ''down'')" by code_simp
  then obtain s1 where s1: "?u demo_rnd 0 demo_lookup = (Inl (Err ''down''), s1)" by (metis prod.collapse)
  have "fst (?u demo_rnd 32 (snd (?u demo_rnd 0 demo_lookup))) = Inl (Err ''down'')" by code_simp
  then obtain s2 where s2: "?u demo_rnd 32 s1 = (Inl (Err ''down''), s2)" unfolding s1 by (metis prod.collapse snd_conv)
  have "randomString demo_rnd 32 32 \<noteq> demo_pepper" by code_simp
  moreover have "length demo_pepper = 32" by (simp add: demo_pepper_def)
  ultimately show ?thesis
    using failed_rotations_empty_lookup [OF mem_tom demo_lookup_facts(1,2) demo_keys(1,2) _ _ s1 s2] s1 s2 by blast
qed

theorem lookup_answers_witness:
  "named_in (fst (lookup (mem_db PG) (\<lambda>_ s. (CalledBack [] (Some (Some ''t'')), s)) 100 False [(''addresses'', JArr [])]
       (demo_request [] []) \<lparr>as_db = demo_lookup, as_log = []\<rparr>)) ''mappings'' ''h1'' = Some (JStr ''@ann:x'')"
proof -
  let ?s = "\<lparr>as_db = demo_lookup, as_log = []\<rparr>"
  let ?a = "\<lambda>_ s. (CalledBack [] (Some (Some ''t'')), s)"
  obtain resp s' where l: "lookup (mem_db PG) ?a 100 False [(''addresses'', JArr [])] (demo_request [] []) ?s = (resp, s')" by fastforce
  have "store_wf tom_tables (as_db ?s)" "store_healthy (as_db ?s)" "all_hashed (rows_of (as_db ?s) ''hashes'')"
    using demo_lookup_facts(1,2) demo_keys(3) by simp_all
  from lookup_answers [OF mem_tom refl this _ _ l, of "[]"] show ?thesis
    unfolding l by (simp add: demo_lookup_facts demo_hash_row_def)
qed

end
