(* ===== verification/CronUsers.thy ===== *)
theory CronUsers
  imports Lookup
begin

text \<open>
  The periodic tasks of the identity server (\<open>matrix-identity-server/src/cron\<close>): \<open>updateUsers.ts\<close>, which
  compares the directory with the hashes and keeps the history of the users, \<open>check-quota.ts\<close>, and the
  report of the changes in the history (\<open>tom-server/src/identity-server/lookup/diff.ts\<close>).  Parameters:
  the answers of the directory and of the Matrix database.  Work that is started together is done in
  the order it is started; a rejection nobody awaits is lost.
\<close>

section \<open>Comparing the directory with the hashes\<close>

definition matrix_names :: "lookup_conf \<Rightarrow> string list option result" where
  "matrix_names cf =
     (case lc_matrix cf of
        None \<Rightarrow> Inr None
      | Some (MatrixDown _) \<Rightarrow> Inr (Some [])
      | Some (MatrixUsers (Inl e)) \<Rightarrow> Inl e
      | Some (MatrixUsers (Inr rows)) \<Rightarrow> (case uids_of ''name'' rows of Inl e \<Rightarrow> Inl e | Inr names \<Rightarrow> Inr (Some names)))"

definition history_entry :: "string \<Rightarrow> int \<Rightarrow> int \<Rightarrow> obj" where
  "history_entry a now act = [(''address'', JStr a), (''timestamp'', JNum now), (''active'', JNum act)]"

definition write_history :: "'s backend \<Rightarrow> string list \<Rightarrow> string \<Rightarrow> int \<Rightarrow> int \<Rightarrow> 's \<Rightarrow> 's" where
  "write_history d history a now act s =
     (if a \<in> set history then snd (db_update d ''userHistory'' (history_entry a now act) ''address'' (JStr a) s)
      else snd (db_insert d ''userHistory'' (history_entry a now act) s))"

record seen_users =
  su_data :: "(string \<times> obj) list"
  su_found :: bool

text \<open>One user of the directory; \<open>known\<close> are the user names of the hashes with their flags, in the order of the rows.\<close>

definition visit_user ::
  "'s backend \<Rightarrow> lookup_conf \<Rightarrow> string list option \<Rightarrow> (string \<times> jsval) list \<Rightarrow> string list \<Rightarrow> int \<Rightarrow> obj \<Rightarrow> string \<Rightarrow>
   seen_users \<Rightarrow> 's \<Rightarrow> seen_users \<times> 's" where
  "visit_user d cf names known history now user a acc s =
     (let uid = js_str (getp user ''uid'');
          isMatrixUser = (case names of None \<Rightarrow> False | Some ns \<Rightarrow> uid \<in> set ns) in
      case map_of known uid of
        None \<Rightarrow>
          let act = if lc_matrix cf = None \<or> isMatrixUser then 1 else 0;
              s1 = if act \<noteq> 0 then write_history d history a now act s else s;
              entry = [(''email'', getp user ''mail''), (''phone'', getp user ''mobile''), (''active'', JNum act)]
          in (acc\<lparr>su_data := if \<not> lc_federated cf \<or> isMatrixUser then put a entry (su_data acc) else su_data acc,
                  su_found := True\<rparr>, s1)
      | Some flag \<Rightarrow>
          if isMatrixUser \<and> \<not> truthy flag then
            (acc, write_history d history a now 1 (snd (db_update d ''hashes'' [(''active'', JNum 1)] ''value'' (JStr a) s)))
          else (acc, s))"

fun visit_users ::
  "'s backend \<Rightarrow> lookup_conf \<Rightarrow> string list option \<Rightarrow> (string \<times> jsval) list \<Rightarrow> string list \<Rightarrow> int \<Rightarrow> obj list \<Rightarrow>
   seen_users \<Rightarrow> 's \<Rightarrow> seen_users result \<times> 's" where
  "visit_users d cf names known history now [] acc s = (Inr acc, s)"
| "visit_users d cf names known history now (user # users) acc s =
     (case matrix_id_of (lc_server cf) (getp user ''uid'') of
        Inl e \<Rightarrow> (Inl e, s)
      | Inr a \<Rightarrow>
          (case visit_user d cf names known history now user a acc s of
             (acc', s1) \<Rightarrow> visit_users d cf names known history now users acc' s1))"

definition setInactive :: "'s backend \<Rightarrow> int \<Rightarrow> string \<Rightarrow> 's \<Rightarrow> 's" where
  "setInactive d now address s =
     (case db_get d ''userHistory'' [''active''] (Some [(''address'', JStr address)]) None s of
        (Inl _, s1) \<Rightarrow> s1
      | (Inr [], s1) \<Rightarrow>
          snd (db_insert d ''userHistory'' [(''address'', JStr address), (''active'', JNum 0), (''timestamp'', JNum now)] s1)
      | (Inr (row # _), s1) \<Rightarrow>
          if getp row ''active'' \<noteq> JNum 0 then snd (db_update d ''userHistory'' [(''active'', JNum 0)] ''address'' (JStr address) s1)
          else s1)"

text \<open>The known users that are not in the directory, each once.\<close>

fun leave_users :: "'s backend \<Rightarrow> lookup_conf \<Rightarrow> int \<Rightarrow> obj list \<Rightarrow> string list \<Rightarrow> string list \<Rightarrow> 's \<Rightarrow> unit result \<times> 's" where
  "leave_users d cf now users [] seen s = (Inr (), s)"
| "leave_users d cf now users (uid # uids) seen s =
     (if JStr uid \<in> set (map (\<lambda>u. getp u ''uid'') users) \<or> uid \<in> set seen then leave_users d cf now users uids seen s
      else case matrix_id_of (lc_server cf) (JStr uid) of
             Inl e \<Rightarrow> (Inl e, s)
           | Inr a \<Rightarrow> leave_users d cf now users uids (uid # seen) (setInactive d now a s))"

definition updateUsers ::
  "'s backend \<Rightarrow> nacl \<Rightarrow> lookup_conf \<Rightarrow> obj list result \<Rightarrow> int \<Rightarrow> 's \<Rightarrow> unit result \<times> 's" where
  "updateUsers d nl cf directory now s =
     (case db_get d ''hashes'' [''value'', ''active''] None None s of (hashAnswer, s1) \<Rightarrow>
      case db_get d ''userHistory'' [''address''] None None s1 of (historyAnswer, s2) \<Rightarrow>
      case (directory, hashAnswer, historyAnswer, matrix_names cf) of
        (Inr users, Inr hashRows, Inr historyRows, Inr names) \<Rightarrow>
          (case uids_of ''value'' hashRows of
             Inl e \<Rightarrow> (Inl e, s2)
           | Inr knownUids \<Rightarrow>
               let known = zip knownUids (map (\<lambda>r. getp r ''active'') hashRows);
                   history = map (\<lambda>r. js_str (getp r ''address'')) historyRows in
               (case visit_users d cf names known history now users \<lparr>su_data = [], su_found = False\<rparr> s2 of
                  (Inl e, s3) \<Rightarrow> (Inl e, s3)
                | (Inr acc, s3) \<Rightarrow>
                    let s4 = if su_found acc then snd (updateHash d nl (su_data acc) Undef s3) else s3 in
                    leave_users d cf now users knownUids [] s4))
      | (Inl e, _) \<Rightarrow> (Inl e, s2)
      | (_, Inl e, _) \<Rightarrow> (Inl e, s2)
      | (_, _, Inl e, _) \<Rightarrow> (Inl e, s2)
      | (_, _, _, Inl e) \<Rightarrow> (Inl e, s2))"

section \<open>Quotas\<close>

text \<open>
  \<open>usage\<close> gives the rows of the media of a user and \<open>+x\<close> is applied to their lengths; a length that is
  not a number is outside the model, as is the close of the connection.
\<close>

definition save_usage :: "'s backend \<Rightarrow> jsval \<Rightarrow> int \<Rightarrow> 's \<Rightarrow> 's" where
  "save_usage d user bytes s =
     (case db_deleteEqual d ''userQuotas'' ''user_id'' user s of
        (Inl _, s1) \<Rightarrow> s1
      | (Inr _, s1) \<Rightarrow> snd (db_insert d ''userQuotas'' [(''user_id'', user), (''size'', JNum bytes)] s1))"

definition num_of :: "jsval \<Rightarrow> int" where
  "num_of v = (case as_number v of Some n \<Rightarrow> n | None \<Rightarrow> 0)"

definition user_usage :: "obj list \<Rightarrow> int" where
  "user_usage rows = foldl (\<lambda>acc r. acc + num_of (getp r ''media_length'')) 0 rows"

definition checkQuota :: "'s backend \<Rightarrow> obj list result option \<Rightarrow> (jsval \<Rightarrow> obj list result) \<Rightarrow> 's \<Rightarrow> unit result \<times> 's" where
  "checkQuota d matrixUsers media s =
     (case matrixUsers of
        None \<Rightarrow> (Inl (Err ''Failed to check users quota''), s)
      | Some (Inl _) \<Rightarrow> (Inl (Err ''Failed to check users quota''), s)
      | Some (Inr rows) \<Rightarrow>
          (Inr (), foldl (\<lambda>s row. case media (getp row ''name'') of
              Inl _ \<Rightarrow> s
            | Inr ms \<Rightarrow> save_usage d (getp row ''name'') (user_usage ms) s) s rows))"

section \<open>Reporting the changes\<close>

definition diff_schema :: "(string \<times> bool) list" where
  "diff_schema = [(''since'', True), (''fields'', False), (''limit'', False), (''offset'', False)]"

text \<open>
  The rows of the history of a reply: an active one adds its user of the directory, to whom the address
  is given; a property of \<open>undefined\<close> cannot be set.  Limits and offsets are numbers that are not
  negative, and the history names every user once.
\<close>

fun split_history :: "(string \<times> obj) list \<Rightarrow> obj list \<Rightarrow> jsval list \<Rightarrow> jsval list \<Rightarrow> (jsval list \<times> jsval list) result" where
  "split_history users [] new gone = Inr (new, gone)"
| "split_history users (row # rows) new gone =
     (let a = js_str (getp row ''address''); uid = uid_of a in
      if getp row ''active'' \<noteq> JNum 0 then
        (case map_of users uid of
           None \<Rightarrow> Inl (Err ''Cannot set properties of undefined'')
         | Some user \<Rightarrow> split_history users rows (new @ [JObj (put ''address'' (JStr a) user)]) gone)
      else split_history users rows new (gone @ [JObj [(''uid'', JStr uid), (''address'', JStr a)]]))"

definition slice :: "nat \<Rightarrow> nat \<Rightarrow> 'a list \<Rightarrow> 'a list" where
  "slice start stop xs = drop start (take stop xs)"

definition nat_option :: "jsval \<Rightarrow> nat \<Rightarrow> nat" where
  "nat_option v dflt = (case v of JNum n \<Rightarrow> nat n | _ \<Rightarrow> dflt)"

definition asked_fields :: "jsval \<Rightarrow> string list result" where
  "asked_fields v =
     (let with_uid = (\<lambda>fs. if ''uid'' \<in> set fs then fs else fs @ [''uid'']) in
      case v of
        JArr vs \<Rightarrow> Inr (with_uid (map js_str vs))
      | Undef \<Rightarrow> Inr [''uid'']
      | Null \<Rightarrow> Inr [''uid'']
      | _ \<Rightarrow> Inl (Err ''fields.includes or fields.push is not a function''))"

text \<open>The reads of the directory, as far as they are made.\<close>

definition changed_users ::
  "(string list \<Rightarrow> string list \<Rightarrow> obj list result) \<Rightarrow> jsval \<Rightarrow> obj list \<Rightarrow> (jsval list \<times> jsval list) result" where
  "changed_users directory flds rows =
     (case asked_fields flds of
        Inl e \<Rightarrow> Inl e
      | Inr fs \<Rightarrow>
          (case directory fs (map (\<lambda>r. uid_of (js_str (getp r ''address''))) rows) of
             Inl e \<Rightarrow> Inl e
           | Inr userRows \<Rightarrow> split_history (foldl (\<lambda>m u. put (js_str (getp u ''uid'')) u m) [] userRows) rows [] []))"

definition diff ::
  "'s backend \<Rightarrow> 's authenticator \<Rightarrow> (string list \<Rightarrow> string list \<Rightarrow> obj list result) \<Rightarrow> int \<Rightarrow> obj \<Rightarrow> request \<Rightarrow> 's auth_st \<Rightarrow>
   response \<times> 's auth_st" where
  "diff d authenticate directory now content req s =
     (case authenticate req s of
        (Answered r, s1) \<Rightarrow> (r, s1)
      | (CalledBack _ _, s1) \<Rightarrow>
          (case validateParameters diff_schema content of
             Sent status b \<Rightarrow> (Json (nat status) b, s1)
           | Callback c \<Rightarrow>
               (case as_on_db (db_getHigherThan d ''userHistory'' [''address'', ''active'']
                        (Some [(''timestamp'', getp c ''since'')]) (Some ''address'')) s1 of
                  (Inl _, s2) \<Rightarrow> (Json 500 (errMsg ''unknown'' None), s2)
                | (Inr rows, s2) \<Rightarrow>
                    (case changed_users directory (getp c ''fields'') rows of
                       Inl _ \<Rightarrow> (Json 500 (errMsg ''unknown'' None), s2)
                     | Inr (new, gone) \<Rightarrow>
                         let start = nat_option (getp c ''offset'') 0;
                             stop = start + nat_option (getp c ''limit'') 30 in
                         (Json 200 (JObj [(''new'', JArr (slice start stop new)), (''deleted'', JArr (slice start stop gone)),
                            (''timestamp'', JNum now)]), s2)))))"

section \<open>What the tables give\<close>

definition history_row :: "string \<Rightarrow> int \<Rightarrow> int \<Rightarrow> obj" where
  "history_row a act ts = [(''address'', JStr a), (''active'', JNum act), (''timestamp'', JNum ts)]"

definition history_of :: "obj multiset \<Rightarrow> string \<Rightarrow> obj multiset" where
  "history_of rows a = {# r \<in># rows. sql_eq (getp r ''address'') (JStr a) #}"

definition activate :: "obj \<Rightarrow> obj" where
  "activate r = assign [(''active'', JNum 1)] r"

text \<open>The rows of one table are all in the other, as they were or activated.\<close>

definition hashes_kept :: "obj multiset \<Rightarrow> obj multiset \<Rightarrow> bool" where
  "hashes_kept hs hs' \<longleftrightarrow> (\<forall>r \<in># hs. r \<in># hs' \<or> activate r \<in># hs')"

lemma activate_twice [simp]: "activate (activate r) = activate r"
  by (induction r) (auto simp: activate_def assign_def)

lemma hashes_kept_refl [simp]: "hashes_kept hs hs"
  by (simp add: hashes_kept_def)

lemma hashes_kept_trans [trans]: "hashes_kept a b \<Longrightarrow> hashes_kept b c \<Longrightarrow> hashes_kept a c"
  unfolding hashes_kept_def by (metis activate_twice)

lemma hashes_kept_add: "hashes_kept hs (added + hs)"
  by (simp add: hashes_kept_def)

lemma hashes_kept_map: "hashes_kept hs {# if P r then activate r else r. r \<in># hs #}"
  unfolding hashes_kept_def by (auto simp: image_iff)

lemma map_of_stored: "map_of (stored_obj vs) k = map_option stored (map_of vs k)"
  by (induction vs) (auto simp: stored_obj_def)

lemma all_hashed_activate: "all_hashed hs \<Longrightarrow> all_hashed {# if P r then assign [(''active'', v)] r else r. r \<in># hs #}"
  by (fastforce simp: all_hashed_def getp_assign_other)

lemma matrix_id_of_at: "matrix_id_of server v = Inr a \<Longrightarrow> \<exists>u. v = JStr u \<and> a = ''@'' @ u @ '':'' @ server"
  by (auto simp: matrix_id_of_def toMatrixId_Inr split: jsval.splits sum.splits mxid_error.splits)

lemma matrix_id_of_inj: "matrix_id_of server v = Inr a \<Longrightarrow> matrix_id_of server w = Inr a \<Longrightarrow> v = w"
  by (auto simp: matrix_id_of_def toMatrixId_Inr split: jsval.splits sum.splits mxid_error.splits)

text \<open>A step for other users: the tables stay well-formed, no hash is lost, and the history of \<open>a\<close> stays.\<close>

definition leaves_alone ::
  "('s \<Rightarrow> bool) \<Rightarrow> ('s \<Rightarrow> bool) \<Rightarrow> ('s \<Rightarrow> string \<Rightarrow> obj multiset) \<Rightarrow> string \<Rightarrow> 's \<Rightarrow> 's \<Rightarrow> bool" where
  "leaves_alone ok healthy tab a s s' \<longleftrightarrow> ok s' \<and> (healthy s \<longrightarrow> healthy s') \<and>
     hashes_kept (tab s ''hashes'') (tab s' ''hashes'') \<and>
     (all_hashed (tab s ''hashes'') \<longrightarrow> all_hashed (tab s' ''hashes'')) \<and>
     history_of (tab s' ''userHistory'') a = history_of (tab s ''userHistory'') a"

locale history_db = lookup_db +
  assumes history: "schema ''userHistory'' = [''address'', ''active'', ''timestamp'']" "key ''userHistory'' = [''address'']"
begin

lemma update_history_other:
  assumes "wf s" "b \<noteq> a" "vs \<noteq> []" "set (map fst vs) \<subseteq> set (schema ''userHistory'')"
    "map_of vs ''address'' = None \<or> map_of vs ''address'' = Some (JStr b)"
  shows "wf (snd (db_update d ''userHistory'' vs ''address'' (JStr b) s)) \<and>
    (healthy s \<longrightarrow> healthy (snd (db_update d ''userHistory'' vs ''address'' (JStr b) s))) \<and>
    (\<forall>t. t \<noteq> ''userHistory'' \<longrightarrow> tab (snd (db_update d ''userHistory'' vs ''address'' (JStr b) s)) t = tab s t) \<and>
    history_of (tab (snd (db_update d ''userHistory'' vs ''address'' (JStr b) s)) ''userHistory'') a = history_of (tab s ''userHistory'') a"
proof -
  obtain q x where q: "db_update d ''userHistory'' vs ''address'' (JStr b) s = (q, x)" by fastforce
  have c: "schema ''userHistory'' \<noteq> []" "set (''address'' # map fst vs) \<subseteq> set (schema ''userHistory'')"
    using assms(4) by (auto simp: history)
  let ?f = "\<lambda>r. if sql_eq (getp r ''address'') (JStr b) then assign (stored_obj vs) r else r"
  have so: "map_of (stored_obj vs) ''address'' = map_option stored (map_of vs ''address'')"
    by (rule map_of_stored)
  have f: "sql_eq (getp (?f r) ''address'') (JStr a) = sql_eq (getp r ''address'') (JStr a)" if r: "r \<in># tab s ''userHistory''" for r
  proof (cases "sql_eq (getp r ''address'') (JStr b)")
    case True
    then have n: "\<not> sql_eq (getp r ''address'') (JStr a)" using assms(2) by (auto simp: sql_eq_def)
    from assms(5) show ?thesis
    proof
      assume "map_of vs ''address'' = None"
      then have "''address'' \<notin> set (map fst (stored_obj vs))" 
        by (force simp: map_of_eq_None_iff stored_obj_def)
      then show ?thesis by (simp add: getp_assign_other)
    next
      assume "map_of vs ''address'' = Some (JStr b)"
      then have "map_of (stored_obj vs) ''address'' = Some (JStr b)" using so by (simp add: stored_def)
      moreover have "''address'' \<in> set (map fst r)" using row_cols [OF assms(1) r] by (simp add: history)
      ultimately have "getp (assign (stored_obj vs) r) ''address'' = JStr b" by (rule getp_assign_same)
      then show ?thesis using True n assms(2) by (simp add: sql_eq_def)
    qed
  qed simp
  have "history_of (image_mset ?f (tab s ''userHistory'')) a = image_mset ?f (history_of (tab s ''userHistory'') a)"
    unfolding history_of_def filter_mset_image_mset by (rule arg_cong [where f = "image_mset _"], rule filter_mset_cong [OF refl f])
  also have "\<dots> = history_of (tab s ''userHistory'') a"
    using assms(2) by (auto simp: history_of_def sql_eq_def intro!: image_mset_cong [where g = id, simplified])
  finally have "history_of (image_mset ?f (tab s ''userHistory'')) a = history_of (tab s ''userHistory'') a" .
  then show ?thesis using update_law [OF assms(1) c(1) assms(3) c(2) q] q by (cases q) auto
qed

lemma insert_history_other:
  assumes "wf s" "b \<noteq> a" "vs \<noteq> []" "set (map fst vs) \<subseteq> set (schema ''userHistory'')" "map_of vs ''address'' = Some (JStr b)"
  shows "wf (snd (db_insert d ''userHistory'' vs s)) \<and> (healthy s \<longrightarrow> healthy (snd (db_insert d ''userHistory'' vs s))) \<and>
    (\<forall>t. t \<noteq> ''userHistory'' \<longrightarrow> tab (snd (db_insert d ''userHistory'' vs s)) t = tab s t) \<and>
    history_of (tab (snd (db_insert d ''userHistory'' vs s)) ''userHistory'') a = history_of (tab s ''userHistory'') a"
proof -
  obtain q x where q: "db_insert d ''userHistory'' vs s = (q, x)" by fastforce
  have c: "schema ''userHistory'' \<noteq> []" by (simp add: history)
  have "map_of (stored_obj vs) ''address'' = Some (JStr b)"
    using assms(5) by (simp add: map_of_stored stored_def)
  then have "getp (complete (schema ''userHistory'') (stored_obj vs)) ''address'' = JStr b"
    by (simp add: complete_def history)
  then show ?thesis
    using insert_law [OF assms(1) c assms(3,4) q] q assms(2) by (cases q) (auto simp: history_of_def sql_eq_def)
qed

lemma history_entry_cols: "history_entry b now act \<noteq> []" "set (map fst (history_entry b now act)) \<subseteq> set (schema ''userHistory'')"
  "map_of (history_entry b now act) ''address'' = Some (JStr b)"
  by (auto simp: history_entry_def history)

lemma write_history_other:
  assumes "wf s" "b \<noteq> a"
  shows "wf (write_history d known b now act s) \<and> (healthy s \<longrightarrow> healthy (write_history d known b now act s)) \<and>
    (\<forall>t. t \<noteq> ''userHistory'' \<longrightarrow> tab (write_history d known b now act s) t = tab s t) \<and>
    history_of (tab (write_history d known b now act s) ''userHistory'') a = history_of (tab s ''userHistory'') a"
  using update_history_other [OF assms history_entry_cols(1,2)] insert_history_other [OF assms history_entry_cols]
  by (simp add: write_history_def history_entry_cols(3))

lemma leaves_alone_refl: "wf s \<Longrightarrow> leaves_alone wf healthy tab a s s"
  by (simp add: leaves_alone_def)

lemma leaves_alone_trans: "leaves_alone wf healthy tab a s s1 \<Longrightarrow> leaves_alone wf healthy tab a s1 s2 \<Longrightarrow> leaves_alone wf healthy tab a s s2"
  unfolding leaves_alone_def by (auto intro: hashes_kept_trans)

lemma alone_history: "wf s \<Longrightarrow> b \<noteq> a \<Longrightarrow> leaves_alone wf healthy tab a s (write_history d known b now act s)"
  using write_history_other [of s b a known now act] by (simp add: leaves_alone_def)

lemma activate_hashes:
  assumes "wf s"
  shows "leaves_alone wf healthy tab a s (snd (db_update d ''hashes'' [(''active'', JNum 1)] ''value'' (JStr b) s))"
proof -
  obtain q x where q: "db_update d ''hashes'' [(''active'', JNum 1)] ''value'' (JStr b) s = (q, x)" by fastforce
  have c: "schema ''hashes'' \<noteq> []" "[(''active'', JNum 1)] \<noteq> []" "set (''value'' # map fst [(''active'', JNum 1)]) \<subseteq> set (schema ''hashes'')"
    by (auto simp: hashes hash_cols_def)
  have so: "stored_obj [(''active'', JNum 1)] = [(''active'', JNum 1)]" by (simp add: stored_obj_def stored_def)
  show ?thesis
    using update_law [OF assms c q, unfolded so] q hashes_kept_map [of "tab s ''hashes''" "\<lambda>r. sql_eq (getp r ''value'') (JStr b)",
        unfolded activate_def]
    by (cases q) (auto simp: leaves_alone_def all_hashed_activate)
qed

lemma visit_user_alone:
  assumes "wf s" "b \<noteq> a" "visit_user d cf names known hist now user b acc s = (acc', s')"
  shows "leaves_alone wf healthy tab a s s'"
proof (cases "map_of known (js_str (getp user ''uid''))")
  case None
  then show ?thesis
    using assms(3) alone_history [OF assms(1,2)] leaves_alone_refl [OF assms(1)]
    by (auto simp: visit_user_def Let_def split: if_splits)
next
  case (Some flag)
  let ?s1 = "snd (db_update d ''hashes'' [(''active'', JNum 1)] ''value'' (JStr b) s)"
  have u: "leaves_alone wf healthy tab a s ?s1" by (rule activate_hashes [OF assms(1)])
  then have "wf ?s1" by (simp add: leaves_alone_def)
  from leaves_alone_trans [OF u alone_history [OF this assms(2)]] show ?thesis
    using assms(3) Some leaves_alone_refl [OF assms(1)] by (auto simp: visit_user_def Let_def split: if_splits)
qed

lemma visit_users_alone:
  assumes "wf s" "\<And>user. user \<in> set users \<Longrightarrow> matrix_id_of (lc_server cf) (getp user ''uid'') \<noteq> Inr a"
    "visit_users d cf names known hist now users acc s = (r, s')"
  shows "leaves_alone wf healthy tab a s s'"
  using assms
proof (induction users arbitrary: acc s)
  case Nil
  then show ?case by (simp add: leaves_alone_refl)
next
  case (Cons user users)
  show ?case
  proof (cases "matrix_id_of (lc_server cf) (getp user ''uid'')")
    case (Inl e)
    then show ?thesis using Cons.prems by (simp add: leaves_alone_refl)
  next
    case (Inr b)
    obtain acc' s1 where v: "visit_user d cf names known hist now user b acc s = (acc', s1)" by fastforce
    have ba: "b \<noteq> a" using Cons.prems(2) [of user] Inr by auto
    note va = visit_user_alone [OF Cons.prems(1) ba v]
    have "visit_users d cf names known hist now users acc' s1 = (r, s')" using Cons.prems(3) Inr v by simp
    then have "leaves_alone wf healthy tab a s1 s'" using Cons.IH Cons.prems(2) va by (auto simp: leaves_alone_def)
    with va show ?thesis by (rule leaves_alone_trans)
  qed
qed

text \<open>The pool adds rows, whatever the pepper.\<close>

lemma read_pepper_alone: "wf s \<Longrightarrow> read_pepper d p s = (r, s') \<Longrightarrow> wf s' \<and> (healthy s \<longrightarrow> healthy s') \<and> tab s' = tab s"
proof -
  assume w: "wf s" and r: "read_pepper d p s = (r, s')"
  have c: "''name'' \<in> set (schema ''keys'')" "[''data''] = [''*''] \<or> set [''data''] \<subseteq> set (schema ''keys'')" by (simp_all add: keys)
  show ?thesis
    using r w get_one_Inr [OF _ w c, of "JStr ''pepper''" None] get_one_Inl [OF _ w c, of "JStr ''pepper''" None]
    by (auto simp: read_pepper_def split: if_splits prod.splits sum.splits list.splits)
qed

lemma update_one_alone: "wf s \<Longrightarrow> update_one d nl p j s = (r, p', s') \<Longrightarrow> leaves_alone wf healthy tab a s s'"
proof -
  assume w: "wf s" and u: "update_one d nl p j s = (r, p', s')"
  obtain q s1 where q: "read_pepper d p s = (q, s1)" by fastforce
  note s1 = read_pepper_alone [OF w q]
  show ?thesis
  proof (cases "\<exists>p1 h. q = Inr p1 \<and> hash_of_job nl p1 j = Inr h")
    case False
    then have "s' = s1" using u q by (cases q) (auto simp: update_one_def split: sum.splits)
    then show ?thesis using s1 by (simp add: leaves_alone_def)
  next
    case True
    then obtain p1 h where h: "q = Inr p1" "hash_of_job nl p1 j = Inr h" by blast
    obtain i x where i: "db_insert d ''hashes'' (hash_entry p1 j h) s1 = (i, x)" by fastforce
    have c: "hash_entry p1 j h \<noteq> []" "set (map fst (hash_entry p1 j h)) \<subseteq> set (schema ''hashes'')" "schema ''hashes'' \<noteq> []"
      by (auto simp: hash_entry_def hashes hash_cols_def)
    have w1: "wf s1" using s1 by blast
    have "s' = x" using u q h i by (cases i) (auto simp: update_one_def)
    then show ?thesis
      using insert_law [OF w1 c(3,1,2) i] s1 by (cases i) (auto simp: leaves_alone_def hashes_kept_def all_hashed_def hashes complete_entry getp_entry)
  qed
qed

lemma run_pool_alone: "wf s \<Longrightarrow> leaves_alone wf healthy tab a s (snd (run_pool d nl n p js s))"
proof (induction js arbitrary: n p s)
  case Nil
  then show ?case by (simp add: leaves_alone_refl)
next
  case (Cons j js)
  show ?case
  proof (cases n)
    case 0
    then show ?thesis using Cons.prems by (simp add: leaves_alone_refl)
  next
    case (Suc m)
    obtain r p' s1 where u: "update_one d nl p j s = (r, p', s1)" using prod_cases3 by blast
    have s1: "leaves_alone wf healthy tab a s s1" by (rule update_one_alone [OF Cons.prems u])
    then have "wf s1" by (simp add: leaves_alone_def)
    from leaves_alone_trans [OF s1 Cons.IH [OF this]] show ?thesis using u Suc by (cases r) simp_all
  qed
qed

lemma setInactive_other:
  assumes "wf s" "b \<noteq> a"
  shows "leaves_alone wf healthy tab a s (setInactive d now b s)"
proof -
  obtain r s1 where g: "db_get d ''userHistory'' [''active''] (Some [(''address'', JStr b)]) None s = (r, s1)" by fastforce
  have c: "''address'' \<in> set (schema ''userHistory'')" "[''active''] = [''*''] \<or> set [''active''] \<subseteq> set (schema ''userHistory'')"
    by (simp_all add: history)
  have s1: "wf s1" "healthy s \<longrightarrow> healthy s1" "tab s1 = tab s"
    using g get_one_Inr [OF _ assms(1) c, of "JStr b" None _ s1] get_one_Inl [OF _ assms(1) c, of "JStr b" None _ s1]
    by (cases r; auto)+
  let ?i = "[(''address'', JStr b), (''active'', JNum 0), (''timestamp'', JNum now)]"
  have i: "leaves_alone wf healthy tab a s (snd (db_insert d ''userHistory'' ?i s1))"
    using insert_history_other [OF s1(1) assms(2), of ?i] s1 by (simp add: leaves_alone_def history)
  have u: "leaves_alone wf healthy tab a s (snd (db_update d ''userHistory'' [(''active'', JNum 0)] ''address'' (JStr b) s1))"
    using update_history_other [OF s1(1) assms(2), of "[(''active'', JNum 0)]"] s1 by (simp add: leaves_alone_def history)
  have n: "leaves_alone wf healthy tab a s s1" using s1 by (simp add: leaves_alone_def)
  show ?thesis using g i u n by (auto simp: setInactive_def split: sum.splits list.splits)
qed

lemma setInactive_hashes: "wf s \<Longrightarrow> wf (setInactive d now b s) \<and> (healthy s \<longrightarrow> healthy (setInactive d now b s)) \<and>
    hashes_kept (tab s ''hashes'') (tab (setInactive d now b s) ''hashes'')"
  using setInactive_other [of s b "b @ ''x''" now] by (simp add: leaves_alone_def)

lemma setInactive_self:
  assumes "wf s" "healthy s" "history_of (tab s ''userHistory'') a = {#history_row a act ts#}" "a \<noteq> []"
  shows "history_of (tab (setInactive d now a s) ''userHistory'') a = {#history_row a 0 ts#}"
proof -
  obtain r s1 where g: "db_get d ''userHistory'' [''active''] (Some [(''address'', JStr a)]) None s = (r, s1)" by fastforce
  have c: "''address'' \<in> set (schema ''userHistory'')" "[''active''] = [''*''] \<or> set [''active''] \<subseteq> set (schema ''userHistory'')"
    by (simp_all add: history)
  obtain rs where rs: "r = Inr rs" using get_one_Inl [OF _ assms(1) c] g assms(2) by (cases r) auto
  note s1 = get_one_Inr [OF g [unfolded rs] assms(1) c]
  have "matches [(''address'', JStr a)] = (\<lambda>r. sql_eq (getp r ''address'') (JStr a))"
    using assms(4) by (intro ext) (simp add: matches_one)
  then have "mset rs = {#[(''active'', JNum act)]#}"
    using s1 assms(3) by (simp add: history_of_def history_row_def project_def)
  then have rs1: "r = Inr [[(''active'', JNum act)]]" using rs by simp
  show ?thesis
  proof (cases "act = 0")
    case True
    then show ?thesis using g rs1 s1 assms(3) by (simp add: setInactive_def)
  next
    case False
    let ?vs = "[(''active'', JNum 0)]"
    let ?T = "tab s ''userHistory''"
    let ?f = "\<lambda>r. if sql_eq (getp r ''address'') (JStr a) then assign ?vs r else r"
    obtain q x where q: "db_update d ''userHistory'' ?vs ''address'' (JStr a) s1 = (q, x)" by fastforce
    have w1: "wf s1" "healthy s1" "tab s1 = tab s" using s1 assms(2) by auto
    have c: "schema ''userHistory'' \<noteq> []" "?vs \<noteq> []" "set (''address'' # map fst ?vs) \<subseteq> set (schema ''userHistory'')"
      by (auto simp: history)
    have k: "set (key ''userHistory'') \<inter> set (map fst ?vs) = {}" by (simp add: history)
    have so: "stored_obj ?vs = ?vs" by (simp add: stored_obj_def stored_def)
    have "q \<noteq> Inl e" for e using update_other_ok [OF w1(1) c k] q w1(2) by blast
    then obtain us where us: "q = Inr us" by (cases q) auto
    have t: "tab x = (tab s)(''userHistory'' := image_mset ?f ?T)"
      using update_law [OF w1(1) c q, unfolded so] us w1(3) by simp
    have nm: "getp (?f r) ''address'' = getp r ''address''" for r by (simp add: getp_assign_other)
    have "history_of (image_mset ?f ?T) a = image_mset ?f (history_of ?T a)"
      by (simp add: history_of_def filter_mset_image_mset nm)
    also have "\<dots> = {#history_row a 0 ts#}" using assms(3) by (simp add: history_row_def assign_def sql_eq_def)
    finally show ?thesis using g rs1 False q t by (simp add: setInactive_def)
  qed
qed

lemma leave_users_alone:
  assumes "wf s" "\<And>x. x \<in> set uids \<Longrightarrow> x \<in> set seen \<or> matrix_id_of (lc_server cf) (JStr x) \<noteq> Inr a"
    "leave_users d cf now users uids seen s = (r, s')"
  shows "leaves_alone wf healthy tab a s s'"
  using assms
proof (induction uids arbitrary: seen s)
  case Nil
  then show ?case by (simp add: leaves_alone_refl)
next
  case (Cons x uids)
  show ?case
  proof (cases "JStr x \<in> set (map (\<lambda>u. getp u ''uid'') users) \<or> x \<in> set seen")
    case True
    then have "leave_users d cf now users uids seen s = (r, s')" using Cons.prems(3) by simp
    then show ?thesis by (intro Cons.IH [OF Cons.prems(1)]) (use Cons.prems(2) in auto)
  next
    case new: False
    show ?thesis
    proof (cases "matrix_id_of (lc_server cf) (JStr x)")
      case (Inl e)
      then show ?thesis using Cons.prems new by (simp add: leaves_alone_refl)
    next
      case (Inr b)
      have ba: "b \<noteq> a" using Cons.prems(2) [of x] Inr new by auto
      note sa = setInactive_other [OF Cons.prems(1) ba, of now]
      have "leave_users d cf now users uids (x # seen) (setInactive d now b s) = (r, s')"
        using Cons.prems(3) Inr new by simp
      then have "leaves_alone wf healthy tab a (setInactive d now b s) s'"
        by (intro Cons.IH) (use Cons.prems(2) sa in \<open>auto simp: leaves_alone_def\<close>)
      with sa show ?thesis by (rule leaves_alone_trans)
    qed
  qed
qed

lemma leave_users_self:
  assumes "wf s" "healthy s" "history_of (tab s ''userHistory'') a = {#history_row a act ts#}"
    "matrix_id_of (lc_server cf) (JStr u) = Inr a" "JStr u \<notin> set (map (\<lambda>x. getp x ''uid'') users)"
    "u \<in> set uids" "u \<notin> set seen" "leave_users d cf now users uids seen s = (Inr (), s')"
  shows "history_of (tab s' ''userHistory'') a = {#history_row a 0 ts#}"
  using assms
proof (induction uids arbitrary: seen s)
  case (Cons x uids)
  have a: "a \<noteq> []" using matrix_id_of_at [OF Cons.prems(4)] by auto
  show ?case
  proof (cases "x = u")
    case True
    let ?s1 = "setInactive d now a s"
    have l: "leave_users d cf now users uids (u # seen) ?s1 = (Inr (), s')"
      using Cons.prems(4,5,7,8) True by simp
    have h: "history_of (tab ?s1 ''userHistory'') a = {#history_row a 0 ts#}"
      by (rule setInactive_self [OF Cons.prems(1-3) a])
    have w: "wf ?s1" using setInactive_hashes [OF Cons.prems(1)] by blast
    have "leaves_alone wf healthy tab a ?s1 s'"
      by (rule leave_users_alone [OF w _ l]) (use matrix_id_of_inj [OF _ Cons.prems(4)] in auto)
    then show ?thesis using h by (simp add: leaves_alone_def)
  next
    case False
    then have u: "u \<in> set uids" using Cons.prems(6) by simp
    show ?thesis
    proof (cases "JStr x \<in> set (map (\<lambda>u. getp u ''uid'') users) \<or> x \<in> set seen")
      case True
      then have "leave_users d cf now users uids seen s = (Inr (), s')" using Cons.prems(8) by simp
      from Cons.IH [OF Cons.prems(1-5) u Cons.prems(7) this] show ?thesis .
    next
      case new: False
      then obtain b where b: "matrix_id_of (lc_server cf) (JStr x) = Inr b"
        using Cons.prems(8) by (cases "matrix_id_of (lc_server cf) (JStr x)") auto
      have "b \<noteq> a" using matrix_id_of_inj [OF b] Cons.prems(4) False by auto
      note sa = setInactive_other [OF Cons.prems(1) this, of now]
      have w: "wf (setInactive d now b s)" "healthy (setInactive d now b s)"
        "history_of (tab (setInactive d now b s) ''userHistory'') a = {#history_row a act ts#}"
        using sa Cons.prems(2,3) by (simp_all add: leaves_alone_def)
      have "u \<notin> set (x # seen)" "leave_users d cf now users uids (x # seen) (setInactive d now b s) = (Inr (), s')"
        using Cons.prems(7,8) b new False by auto
      from Cons.IH [OF w Cons.prems(4,5) u this] show ?thesis .
    qed
  qed
qed simp

end

lemma uids_of_mem: "uids_of col rows = Inr us \<Longrightarrow> r \<in> set rows \<Longrightarrow> getp r col = JStr x \<Longrightarrow> uid_of x \<in> set us"
  by (induction rows arbitrary: us) (auto split: jsval.splits sum.splits)

text \<open>The parts of an update that gets through.\<close>

lemma updateUsers_parts:
  assumes "updateUsers d nl cf directory now s = (r, s')"
  obtains (stopped) s1 s2 r1 r2 where "db_get d ''hashes'' [''value'', ''active''] None None s = (r1, s1)"
      "db_get d ''userHistory'' [''address''] None None s1 = (r2, s2)" "s' = s2" "\<exists>e. r = Inl e"
    | (visited) s1 s2 hs us users names known hist e where "db_get d ''hashes'' [''value'', ''active''] None None s = (Inr hs, s1)"
      "db_get d ''userHistory'' [''address''] None None s1 = (us, s2)" "directory = Inr users"
      "visit_users d cf names known hist now users \<lparr>su_data = [], su_found = False\<rparr> s2 = (Inl e, s')" "\<exists>e. r = Inl e"
    | (finished) s1 s2 hs us users names known hist acc s3 uids where "db_get d ''hashes'' [''value'', ''active''] None None s = (Inr hs, s1)"
      "db_get d ''userHistory'' [''address''] None None s1 = (us, s2)" "directory = Inr users"
      "uids_of ''value'' hs = Inr uids"
      "visit_users d cf names known hist now users \<lparr>su_data = [], su_found = False\<rparr> s2 = (Inr acc, s3)"
      "leave_users d cf now users uids [] (if su_found acc then snd (updateHash d nl (su_data acc) Undef s3) else s3) = (r, s')"
proof -
  obtain r1 s1 where g1: "db_get d ''hashes'' [''value'', ''active''] None None s = (r1, s1)" by fastforce
  obtain r2 s2 where g2: "db_get d ''userHistory'' [''address''] None None s1 = (r2, s2)" by fastforce
  show thesis
  proof (cases "\<exists>users hs us names uids. directory = Inr users \<and> r1 = Inr hs \<and> r2 = Inr us \<and> matrix_names cf = Inr names \<and> uids_of ''value'' hs = Inr uids")
    case False
    then have "s' = s2 \<and> (\<exists>e. r = Inl e)"
      using assms g1 g2 by (cases directory; cases r1; cases r2; cases "matrix_names cf")
        (auto simp: updateUsers_def split: sum.splits)
    then show thesis using stopped [OF g1 g2] by blast
  next
    case True
    then obtain users hs us names uids where p: "directory = Inr users" "r1 = Inr hs" "r2 = Inr us" "matrix_names cf = Inr names"
      "uids_of ''value'' hs = Inr uids" by blast
    let ?known = "zip uids (map (\<lambda>r. getp r ''active'') hs)"
    let ?hist = "map (\<lambda>r. js_str (getp r ''address'')) us"
    obtain v s3 where v: "visit_users d cf names ?known ?hist now users \<lparr>su_data = [], su_found = False\<rparr> s2 = (v, s3)" by fastforce
    show thesis
    proof (cases v)
      case (Inl e)
      then have q: "s3 = s'" "r = Inl e" using assms g1 g2 p v by (simp_all add: updateUsers_def Let_def)
      show thesis using visited [OF g1 [unfolded p(2)] g2 p(1) v [unfolded Inl q(1)]] q(2) by blast
    next
      case (Inr acc)
      then have "leave_users d cf now users uids [] (if su_found acc then snd (updateHash d nl (su_data acc) Undef s3) else s3) = (r, s')"
        using assms g1 g2 p v by (simp add: updateUsers_def Let_def)
      then show thesis by (rule finished [OF g1 [unfolded p(2)] g2 p(1,5) v [unfolded Inr]])
    qed
  qed
qed

context history_db
begin

lemma read_all_hashes:
  assumes "wf s" "db_get d ''hashes'' [''value'', ''active''] None None s = (r, s')"
  shows "wf s' \<and> tab s' = tab s \<and> (healthy s \<longrightarrow> healthy s') \<and>
    (\<forall>rs x a. r = Inr rs \<longrightarrow> x \<in># tab s ''hashes'' \<longrightarrow> getp x ''value'' = JStr a \<longrightarrow> (\<exists>y \<in> set rs. getp y ''value'' = JStr a))"
proof -
  have c: "schema ''hashes'' \<noteq> []" "[''value'', ''active''] = [''*''] \<or> set [''value'', ''active''] \<subseteq> set (schema ''hashes'')"
    by (simp_all add: hashes hash_cols_def)
  show ?thesis
  proof (cases r)
    case (Inl e)
    then show ?thesis using get_all_Inl [OF assms(2) [unfolded Inl] assms(1) c] by simp
  next
    case (Inr rs)
    note g = get_all_Inr [OF assms(2) [unfolded Inr] assms(1) c]
    have "\<exists>y \<in> set rs. getp y ''value'' = JStr a" if "x \<in># tab s ''hashes''" "getp x ''value'' = JStr a" for x a
    proof -
      have "project [''value'', ''active''] x \<in># mset rs" using g that(1) by simp
      then show ?thesis using that(2) by (intro bexI [of _ "project [''value'', ''active''] x"]) (simp_all add: project_def)
    qed
    then show ?thesis using g Inr by auto
  qed
qed

lemma read_all_history:
  assumes "wf s" "db_get d ''userHistory'' [''address''] None None s = (r, s')"
  shows "wf s' \<and> tab s' = tab s \<and> (healthy s \<longrightarrow> healthy s')"
proof -
  have c: "schema ''userHistory'' \<noteq> []" "[''address''] = [''*''] \<or> set [''address''] \<subseteq> set (schema ''userHistory'')"
    by (simp_all add: history)
  show ?thesis
    using get_all_Inl [OF _ assms(1) c] get_all_Inr [OF _ assms(1) c] assms(2) by (cases r) auto
qed

lemma updateUsers_alone:
  assumes "wf s" "updateUsers d nl cf directory now s = (r, s')"
  shows "leaves_alone wf healthy tab [] s s'"
proof -
  have no: "matrix_id_of (lc_server cf) v \<noteq> Inr []" for v using matrix_id_of_at by fastforce
  from assms(2) show ?thesis
  proof (cases rule: updateUsers_parts)
    case (stopped s1 s2 r1 r2)
    then show ?thesis
      using read_all_hashes [OF assms(1) stopped(1)] read_all_history [OF _ stopped(2)] by (simp add: leaves_alone_def)
  next
    case (visited s1 s2 hs us users names known hist e)
    have "wf s2 \<and> tab s2 = tab s \<and> (healthy s \<longrightarrow> healthy s2)"
      using read_all_hashes [OF assms(1) visited(1)] read_all_history [OF _ visited(2)] by auto
    then have s2: "wf s2" "leaves_alone wf healthy tab [] s s2" by (simp_all add: leaves_alone_def)
    show ?thesis by (rule leaves_alone_trans [OF s2(2) visit_users_alone [OF s2(1) no visited(4)]])
  next
    case (finished s1 s2 hs us users names known hist acc s3 uids)
    let ?s4 = "if su_found acc then snd (updateHash d nl (su_data acc) Undef s3) else s3"
    have "wf s2 \<and> tab s2 = tab s \<and> (healthy s \<longrightarrow> healthy s2)"
      using read_all_hashes [OF assms(1) finished(1)] read_all_history [OF _ finished(2)] by auto
    then have s2: "wf s2" "leaves_alone wf healthy tab [] s s2" by (simp_all add: leaves_alone_def)
    have s3: "leaves_alone wf healthy tab [] s s3"
      by (rule leaves_alone_trans [OF s2(2) visit_users_alone [OF s2(1) no finished(5)]])
    then have "wf s3" by (simp add: leaves_alone_def)
    then have "leaves_alone wf healthy tab [] s3 ?s4"
      using run_pool_alone leaves_alone_refl by (simp add: updateHash_def)
    from leaves_alone_trans [OF s3 this] have s4: "leaves_alone wf healthy tab [] s ?s4" .
    then have w4: "wf ?s4" by (simp add: leaves_alone_def)
    show ?thesis by (rule leaves_alone_trans [OF s4 leave_users_alone [OF w4 _ finished(6)]]) (use no in blast)
  qed
qed

lemma departed_row:
  assumes "wf s" "healthy s" "x \<in># tab s ''hashes''" "getp x ''value'' = JStr a" "uid_of a = u"
    "matrix_id_of (lc_server cf) (JStr u) = Inr a" "JStr u \<notin> set (map (\<lambda>x. getp x ''uid'') users)"
    "history_of (tab s ''userHistory'') a = {#history_row a act ts#}"
    "updateUsers d nl cf (Inr users) now s = (Inr (), s')"
  shows "history_of (tab s' ''userHistory'') a = {#history_row a 0 ts#}"
  using assms(9)
proof (cases rule: updateUsers_parts)
  case (finished s1 s2 hs us users' names known hist acc s3 uids)
  let ?s4 = "if su_found acc then snd (updateHash d nl (su_data acc) Undef s3) else s3"
  note h = read_all_hashes [OF assms(1) finished(1)]
  have s2: "wf s2" "healthy s2" "tab s2 = tab s" using h read_all_history [OF _ finished(2)] assms(2) by auto
  have no: "matrix_id_of (lc_server cf) (getp user ''uid'') \<noteq> Inr a" if "user \<in> set users'" for user
    using that assms(7) finished(3) matrix_id_of_inj [OF _ assms(6)] by fastforce
  have s3: "leaves_alone wf healthy tab a s2 s3" by (rule visit_users_alone [OF s2(1) no finished(5)])
  then have "wf s3" by (simp add: leaves_alone_def)
  then have "leaves_alone wf healthy tab a s3 ?s4" using run_pool_alone leaves_alone_refl by (simp add: updateHash_def)
  from leaves_alone_trans [OF s3 this] have s4: "leaves_alone wf healthy tab a s2 ?s4" .
  have w4: "wf ?s4" "healthy ?s4" "history_of (tab ?s4 ''userHistory'') a = {#history_row a act ts#}"
    using s4 s2 assms(8) unfolding leaves_alone_def by simp_all
  obtain y where "y \<in> set hs" "getp y ''value'' = JStr a" using h assms(3,4) by blast
  then have "uid_of a \<in> set uids" by (rule uids_of_mem [OF finished(4)])
  then have u: "u \<in> set uids" "u \<notin> set []" using assms(5) by simp_all
  have "JStr u \<notin> set (map (\<lambda>x. getp x ''uid'') users')" using assms(7) finished(3) by simp
  from leave_users_self [OF w4 assms(6) this u finished(6)] show ?thesis .
qed auto

end

lemma tom_schema_history: "schema_of tom_tables ''userHistory'' = [''address'', ''active'', ''timestamp'']"
  "key_of tom_tables ''userHistory'' = [''address'']"
  unfolding tom_schema tom_key by code_simp+

lemma tom_history:
  "tom_database d ok healthy tab \<Longrightarrow> history_db d ok healthy tab (schema_of tom_tables) (key_of tom_tables)"
  by (intro history_db.intro history_db_axioms.intro tom_lookup) (simp_all add: tom_schema_history)

interpretation histories: history_db "mem_db dia" "store_wf tom_tables" store_healthy rows_of
    "schema_of tom_tables" "key_of tom_tables"
  for dia
  by (rule tom_history [OF mem_tom])

section \<open>What a report lists\<close>

definition deleted_in :: "response \<Rightarrow> string \<Rightarrow> bool" where
  "deleted_in resp a =
     (case resp of
        Json status b \<Rightarrow> (case field b ''deleted'' of JArr vs \<Rightarrow> list_ex (\<lambda>v. field v ''address'' = JStr a) vs | _ \<Rightarrow> False)
      | _ \<Rightarrow> False)"

lemma split_history_gone:
  "split_history users rows new gone = Inr (new', gone') \<Longrightarrow> v \<in> set gone' \<Longrightarrow> field v ''address'' = JStr a \<Longrightarrow>
   v \<in> set gone \<or> (\<exists>row \<in> set rows. js_str (getp row ''address'') = a)"
proof (induction users rows new gone rule: split_history.induct)
  case (2 users row rows new gone)
  show ?case
  proof (cases "getp row ''active'' = JNum 0")
    case True
    then show ?thesis using "2.IH"(2) [OF refl refl] "2.prems" by (fastforce simp: Let_def field_def)
  next
    case False
    then obtain user where "map_of users (uid_of (js_str (getp row ''address''))) = Some user"
      using "2.prems"(1) by (auto simp: Let_def split: option.splits)
    then show ?thesis using "2.IH"(1) [OF refl refl False] "2.prems" False by (auto simp: Let_def)
  qed
qed simp

lemma deleted_from_history:
  assumes "authenticate req s = (CalledBack c t, s1)" "deleted_in (fst (diff d authenticate directory now content req s)) a"
  shows "\<exists>rows s2. as_on_db (db_getHigherThan d ''userHistory'' [''address'', ''active''] (Some [(''timestamp'', getp content ''since'')]) (Some ''address'')) s1 =
      (Inr rows, s2) \<and> (\<exists>row \<in> set rows. js_str (getp row ''address'') = a)"
proof -
  have e: "\<not> deleted_in (Json n (errMsg x y)) a" for n x y by (simp add: deleted_in_def errMsg_def field_def Let_def)
  have v: "validateParameters diff_schema content = Callback content"
    using assms e by (auto simp: diff_def validateParameters_def Let_def split: if_splits)
  obtain r s2 where r: "as_on_db (db_getHigherThan d ''userHistory'' [''address'', ''active''] (Some [(''timestamp'', getp content ''since'')]) (Some ''address'')) s1 = (r, s2)"
    by fastforce
  obtain rows where rows: "r = Inr rows" using assms r v e by (cases r) (auto simp: diff_def)
  obtain new gone where g: "changed_users directory (getp content ''fields'') rows = Inr (new, gone)"
    using assms r v e rows by (cases "changed_users directory (getp content ''fields'') rows") (auto simp: diff_def)
  have "\<exists>v \<in> set gone. field v ''address'' = JStr a"
    using assms r v rows g
    by (auto simp: diff_def deleted_in_def field_def Let_def slice_def list_ex_iff dest!: in_set_dropD in_set_takeD)
  then obtain v where "v \<in> set gone" "field v ''address'' = JStr a" by blast
  with g have "\<exists>row \<in> set rows. js_str (getp row ''address'') = a"
    using split_history_gone [of _ rows "[]" "[]" new gone v a] by (auto simp: changed_users_def split: sum.splits)
  with r rows show ?thesis by blast
qed

section \<open>Properties\<close>

text \<open>
  Whoever is found by a lookup is still found after the periodic comparison with the directory,
  whatever the directory answers: also when the user has left it.
\<close>

theorem found_user_stays_found:
  assumes "tom_database d ok healthy tab" "ok s" "healthy s" "all_hashed (tab s ''hashes'')"
    "x \<in># tab s ''hashes''" "getp x ''hash'' = JStr h" "getp x ''value'' = v" "getp x ''active'' = JNum 1"
    "updateUsers d nl cf directory now s = (r, s')" "authenticate req s1 = (CalledBack c t, s2)" "as_db s2 = s'"
    "1 \<le> limit" "getp content ''addresses'' = JArr [JStr h]"
  shows "named_in (fst (lookup d authenticate limit additional content req s1)) ''mappings'' h = Some v"
proof -
  note l = tom_lookup [OF assms(1)]
  have u: "ok s'" "healthy s'" "hashes_kept (tab s ''hashes'') (tab s' ''hashes'')" "all_hashed (tab s' ''hashes'')"
    using history_db.updateUsers_alone [OF tom_history [OF assms(1)] assms(2,9)] assms(3,4) by (simp_all add: leaves_alone_def)
  note td = lookup_db.axioms(1) [OF l]
  have cols: "map fst x = schema_of tom_tables ''hashes''" by (rule table_db.row_cols [OF td, OF assms(2,5)])
  note cols = cols [unfolded tom_schema_lookup(1)]
  have "getp (activate x) ''hash'' = JStr h" "getp (activate x) ''value'' = v"
    using assms(6,7) by (simp_all add: activate_def getp_assign_other)
  moreover have "getp (activate x) ''active'' = JNum 1"
    unfolding activate_def using cols by (intro getp_assign_same) (simp_all add: hash_cols_def)
  ultimately obtain y where y: "y \<in># tab s' ''hashes''" "getp y ''hash'' = JStr h" "getp y ''value'' = v" "getp y ''active'' = JNum 1"
    using u(3) assms(5-8) unfolding hashes_kept_def by blast
  obtain resp s3 where k: "lookup d authenticate limit additional content req s1 = (resp, s3)" by fastforce
  have s2: "ok (as_db s2)" "healthy (as_db s2)" "all_hashed (tab (as_db s2) ''hashes'')" using u assms(11) by simp_all
  have n: "int (length [h]) \<le> limit" "getp content ''addresses'' = JArr (map JStr [h])" using assms(12,13) by simp_all
  have "\<exists>r \<in># tab (as_db s2) ''hashes''. getp r ''hash'' = JStr h \<and> ([h] = [] \<or> [h] = [[]] \<or> h \<in> set [h]) \<and>
      getp r ''active'' = JNum 1 \<and> getp r ''value'' = v"
    using y assms(11) by (intro bexI [of _ y]) simp_all
  with lookup_db.lookup_named [OF l s2 assms(10) n(1) n(2) k, of h v] show ?thesis unfolding k by simp
qed

text \<open>
  A user who has left the directory is marked as inactive in the history, but the row keeps the time
  at which the user was last seen as new: the report of the changes since any later time does not
  list the user among the deleted ones.
\<close>

theorem departed_not_reported:
  assumes "tom_database d ok healthy tab" "ok s" "healthy s" "x \<in># tab s ''hashes''" "getp x ''value'' = JStr a" "uid_of a = u"
    "matrix_id_of (lc_server cf) (JStr u) = Inr a" "JStr u \<notin> set (map (\<lambda>x. getp x ''uid'') users)"
    "history_of (tab s ''userHistory'') a = {#history_row a act ts#}"
    "updateUsers d nl cf (Inr users) now s = (Inr (), s')"
    "authenticate req s1 = (CalledBack c t, s2)" "as_db s2 = s'" "getp content ''since'' = JNum since" "ts \<le> since"
  shows "history_of (tab s' ''userHistory'') a = {#history_row a 0 ts#} \<and>
    \<not> deleted_in (fst (diff d authenticate dir now' content req s1)) a"
proof -
  note hd = tom_history [OF assms(1)]
  note td = lookup_db.axioms(1) [OF tom_lookup [OF assms(1)]]
  have h: "history_of (tab s' ''userHistory'') a = {#history_row a 0 ts#}"
    by (rule history_db.departed_row [OF hd assms(2-10)])
  have ok: "ok s'" using history_db.updateUsers_alone [OF hd assms(2,10)] by (simp add: leaves_alone_def)
  have "\<not> deleted_in (fst (diff d authenticate dir now' content req s1)) a"
  proof
    assume "deleted_in (fst (diff d authenticate dir now' content req s1)) a"
    from deleted_from_history [OF assms(11) this] obtain rows s3 row where
      q: "as_on_db (db_getHigherThan d ''userHistory'' [''address'', ''active''] (Some [(''timestamp'', JNum since)]) (Some ''address'')) s2 = (Inr rows, s3)"
      and row: "row \<in> set rows" "js_str (getp row ''address'') = a"
      unfolding assms(13) by blast
    from q obtain y where y: "db_getHigherThan d ''userHistory'' [''address'', ''active''] (Some [(''timestamp'', JNum since)]) (Some ''address'') s' = (Inr rows, y)"
      using assms(12) by (auto elim: as_on_dbE)
    have c: "''timestamp'' \<in> set (schema_of tom_tables ''userHistory'')"
      "[''address'', ''active''] = [''*''] \<or> set [''address'', ''active''] \<subseteq> set (schema_of tom_tables ''userHistory'')"
      by (simp_all add: tom_schema_history)
    have k: "kept [(''timestamp'', JNum since)] \<noteq> []" by (simp add: kept_def int_str_def)
    have "mset rows = {# project [''address'', ''active''] r. r \<in># {# r \<in># tab s' ''userHistory''. op_val ''>'' (getp r ''timestamp'') (JNum since) #} #}"
      using table_db.get_higher_law [OF td, OF ok c y] k by simp
    moreover have "row \<in># mset rows" using row(1) by simp
    ultimately have "row \<in># {# project [''address'', ''active''] r. r \<in># {# r \<in># tab s' ''userHistory''. op_val ''>'' (getp r ''timestamp'') (JNum since) #} #}"
      by metis
    then obtain z where z: "z \<in># tab s' ''userHistory''" "op_val ''>'' (getp z ''timestamp'') (JNum since)"
      "row = project [''address'', ''active''] z" by auto
    have az: "js_str (getp z ''address'') = a" using row(2) z(3) by (simp add: project_def)
    have "\<not> nullish (getp z ''address'')"
      using az matrix_id_of_at [OF assms(7)] by (cases "getp z ''address''") auto
    then have "z \<in># history_of (tab s' ''userHistory'') a" using z(1) az by (simp add: history_of_def sql_eq_def)
    then have "z = history_row a 0 ts" using h by simp
    then have "op_val ''>'' (JNum ts) (JNum since)" using z(2) by (simp add: history_row_def)
    then show False using assms(14) by (simp add: op_val_def sql_cmp_def sql_greater_def)
  qed
  with h show ?thesis by blast
qed

section \<open>Witnesses\<close>

text \<open>A user whose hash is stored and who is not in the directory any more.\<close>

definition demo_ann :: string where
  "demo_ann = ''@ann:[::1]''"

definition demo_left :: store where
  "demo_left = with_rows (with_rows tom_store ''userHistory'' [history_row demo_ann 1 5])
     ''hashes'' [demo_hash_row ''h1'' demo_pepper demo_ann]"

lemma demo_left_facts: "store_wf tom_tables demo_left" "store_healthy demo_left"
  "rows_of demo_left = (\<lambda>t. {#})(''userHistory'' := {#history_row demo_ann 1 5#}, ''hashes'' := {#demo_hash_row ''h1'' demo_pepper demo_ann#})"
proof -
  let ?s = "with_rows tom_store ''userHistory'' [history_row demo_ann 1 5]"
  have t: "store_wf tom_tables ?s" "rows_of ?s = (rows_of tom_store)(''userHistory'' := mset [history_row demo_ann 1 5])" "faults ?s = faults tom_store"
    by (rule with_rows_ok [OF tom_store_wf]; simp add: tom_schema_history keys_of_def history_row_def)+
  have p: "store_wf tom_tables demo_left" "rows_of demo_left = (rows_of ?s)(''hashes'' := mset [demo_hash_row ''h1'' demo_pepper demo_ann])"
    "faults demo_left = faults ?s"
    unfolding demo_left_def
    by (rule with_rows_ok [OF t(1)]; simp add: tom_schema_lookup hash_cols_def demo_hash_row_def keys_of_def)+
  show "store_wf tom_tables demo_left" "store_healthy demo_left"
    "rows_of demo_left = (\<lambda>t. {#})(''userHistory'' := {#history_row demo_ann 1 5#}, ''hashes'' := {#demo_hash_row ''h1'' demo_pepper demo_ann#})"
    using t p by (auto simp: store_healthy_def tom_store_rows fun_eq_iff)
qed

abbreviation demo_update :: "unit result \<times> store" where
  "demo_update \<equiv> updateUsers (mem_db SQLITE) demo_nacl demo_conf (Inr []) 9 demo_left"

lemma demo_update_runs: "\<exists>s'. demo_update = (Inr (), s')"
proof -
  have "fst demo_update = Inr ()" by code_simp
  then show ?thesis by (metis prod.collapse)
qed

lemma demo_left_hash: "demo_hash_row ''h1'' demo_pepper demo_ann \<in># rows_of demo_left ''hashes''" "all_hashed (rows_of demo_left ''hashes'')"
  by (simp_all add: demo_left_facts all_hashed_def demo_hash_row_def)

theorem found_user_stays_found_witness:
  "named_in (fst (lookup (mem_db SQLITE) (\<lambda>_ s. (CalledBack [] (Some (Some ''t'')), s)) 100 False [(''addresses'', JArr [JStr ''h1''])]
       (demo_request [] []) \<lparr>as_db = snd demo_update, as_log = []\<rparr>)) ''mappings'' ''h1'' = Some (JStr demo_ann)"
proof -
  obtain s' where s': "demo_update = (Inr (), s')" using demo_update_runs by blast
  have "getp (demo_hash_row ''h1'' demo_pepper demo_ann) ''hash'' = JStr ''h1''"
    "getp (demo_hash_row ''h1'' demo_pepper demo_ann) ''value'' = JStr demo_ann"
    "getp (demo_hash_row ''h1'' demo_pepper demo_ann) ''active'' = JNum 1" by (simp_all add: demo_hash_row_def)
  note found = found_user_stays_found [OF mem_tom demo_left_facts(1,2) demo_left_hash(2,1) this s',
    where authenticate = "\<lambda>_ s. (CalledBack [] (Some (Some ''t'')), s)" and ?s1.0 = "\<lparr>as_db = s', as_log = []\<rparr>" and
      ?s2.0 = "\<lparr>as_db = s', as_log = []\<rparr>" and limit = 100 and content = "[(''addresses'', JArr [JStr ''h1''])]"]
  show ?thesis unfolding s' using found [OF refl] by simp
qed

theorem departed_not_reported_witness:
  "\<not> deleted_in (fst (diff (mem_db SQLITE) (\<lambda>_ s. (CalledBack [] (Some (Some ''t'')), s)) (\<lambda>_ _. Inr []) 10 [(''since'', JNum 5)]
       (demo_request [] []) \<lparr>as_db = snd demo_update, as_log = []\<rparr>)) demo_ann"
proof -
  obtain s' where s': "demo_update = (Inr (), s')" using demo_update_runs by blast
  have v: "getp (demo_hash_row ''h1'' demo_pepper demo_ann) ''value'' = JStr demo_ann" by (simp add: demo_hash_row_def)
  have u: "uid_of demo_ann = ''ann''" "matrix_id_of (lc_server demo_conf) (JStr ''ann'') = Inr demo_ann" by code_simp+
  have n: "JStr ''ann'' \<notin> set (map (\<lambda>x. getp x ''uid'') [])" by simp
  have h: "history_of (rows_of demo_left ''userHistory'') demo_ann = {#history_row demo_ann 1 5#}"
    by (simp add: history_of_def demo_left_facts history_row_def sql_eq_def)
  note gone = departed_not_reported [OF mem_tom demo_left_facts(1,2) demo_left_hash(1) v u n h s',
    where authenticate = "\<lambda>_ s. (CalledBack [] (Some (Some ''t'')), s)" and ?s1.0 = "\<lparr>as_db = s', as_log = []\<rparr>" and
      ?s2.0 = "\<lparr>as_db = s', as_log = []\<rparr>" and content = "[(''since'', JNum 5)]" and since = 5]
  show ?thesis unfolding s' using gone [OF refl] by simp
qed

end
