(* ===== verification/ThreePid.thy ===== *)
theory ThreePid
  imports Lookup
begin

text \<open>
  Third party identifiers of the identity server: the validation of mail addresses
  (\<open>matrix-identity-server/src/validate/email\<close>) and the association of validated addresses with Matrix
  identifiers (\<open>3pid\<close>).  Parameters: nacl, \<open>Math.random\<close>, the clock and its UTC text, the URL parser of
  the runtime, the network.  A mail is part of the outcome; no response at all is \<open>None\<close>.  The
  parameters are values of any type, which are turned into texts where the code does so.
\<close>

record mail =
  mail_to :: string
  mail_raw :: string

record 's tp_env =
  te_db :: "'s backend"
  te_delay :: "int option"
  te_template :: string
  te_date :: string
  te_url :: "string \<Rightarrow> string option"
  te_net :: network
  te_nacl :: nacl
  te_sign :: "string \<Rightarrow> string \<Rightarrow> string result"
  te_server :: string

section \<open>The patterns\<close>

definition secret_cls :: "(char \<times> char) list" where
  "secret_cls = [(CHR ''0'', CHR ''9''), (CHR ''a'', CHR ''z''), (CHR ''A'', CHR ''Z''),
     (CHR ''.'', CHR ''.''), (CHR ''='', CHR ''=''), (CHR ''_'', CHR ''_''), (CHR ''-'', CHR ''-'')]"

text \<open>\<open>/^[0-9a-zA-Z.=_-]{6,255}$/\<close>, \<open>/^[0-9a-zA-Z.=_-]{1,255}$/\<close>, \<open>/^@[0-9a-zA-Z._=-]+:[0-9a-zA-Z.-]+$/\<close>\<close>

definition clientSecretRe :: "string \<Rightarrow> bool" where
  "clientSecretRe s \<longleftrightarrow> 6 \<le> length s \<and> length s \<le> 255 \<and> list_all (in_cls secret_cls) s"

definition sidRe :: "string \<Rightarrow> bool" where
  "sidRe s \<longleftrightarrow> 1 \<le> length s \<and> length s \<le> 255 \<and> list_all (in_cls secret_cls) s"

definition mxidRe :: re where
  "mxidRe =
     RSeqs [RChr CHR ''@'', RPlus (RCls secret_cls), RChr CHR '':'',
       RPlus (RCls [(CHR ''0'', CHR ''9''), (CHR ''a'', CHR ''z''), (CHR ''A'', CHR ''Z''), (CHR ''.'', CHR ''.''), (CHR ''-'', CHR ''-'')])]"

definition word_cls :: "(char \<times> char) list" where
  "word_cls = [(CHR ''0'', CHR ''9''), (CHR ''a'', CHR ''z''), (CHR ''A'', CHR ''Z''), (CHR ''_'', CHR ''_'')]"

text \<open>\<open>/^\w[+.-\w]*\w@\w[.-\w]*\w\.\w{2,6}$/\<close>; the dash before \<open>\w\<close> stands for itself.\<close>

definition validEmailRe :: re where
  "validEmailRe =
     (let w = RCls word_cls; dash = (CHR ''-'', CHR ''-''); dot = (CHR ''.'', CHR ''.'') in
      RSeqs [w, RStar (RCls ((CHR ''+'', CHR ''+'') # dot # dash # word_cls)), w, RChr CHR ''@'',
        w, RStar (RCls (dot # dash # word_cls)), w, RChr CHR ''.'', RBetween 2 6 w])"

section \<open>Asking for a validation\<close>

definition preConfigureTemplate :: "string \<Rightarrow> string \<Rightarrow> string \<Rightarrow> string \<Rightarrow> string \<Rightarrow> string" where
  "preConfigureTemplate template base_url server from_addr boundary =
     (let baseUrl = (if base_url \<noteq> [] then strip_trailing CHR ''/'' base_url else ''https://'' @ server) @
            ''/_matrix/identity/v2/validate/email/submitToken''
      in replace_name ''__link__'' (baseUrl @ ''?__linkQuery__'')
           (replace_name ''__multipart_boundary__'' boundary (replace_name ''__from__'' from_addr template)))"

text \<open>The serialisation of \<open>URLSearchParams\<close>.\<close>

definition form_encode :: "string \<Rightarrow> string" where
  "form_encode s = concat (map (\<lambda>c.
     if c = CHR '' '' then ''+''
     else if in_cls word_cls c \<or> c \<in> set ''*-.'' then [c] else encode_char c) s)"

definition link_query :: "string \<Rightarrow> string \<Rightarrow> string \<Rightarrow> string" where
  "link_query tok secret sid =
     ''token='' @ form_encode tok @ ''&client_secret='' @ form_encode secret @ ''&sid='' @ form_encode sid"

definition mailBody :: "string \<Rightarrow> string \<Rightarrow> string \<Rightarrow> string \<Rightarrow> string \<Rightarrow> string \<Rightarrow> string \<Rightarrow> string" where
  "mailBody template dst tok secret sid date messageid =
     replace_name ''__linkQuery__'' (link_query tok secret sid)
       (replace_name ''__messageid__'' messageid (replace_name ''__date__'' date (replace_name ''__to__'' dst template)))"

definition error_with :: "nat \<Rightarrow> jserror \<Rightarrow> response" where
  "error_with status e = (case unknown_error e of Json _ b \<Rightarrow> Json status b | r \<Rightarrow> r)"

type_synonym 's outcome = "response option \<times> mail option \<times> 's auth_st"

definition text_of :: "jsval \<Rightarrow> string" where
  "text_of v = (case v of JStr t \<Rightarrow> t | _ \<Rightarrow> [])"

definition fillTable ::
  "'s tp_env \<Rightarrow> (nat \<Rightarrow> char) \<Rightarrow> nat \<Rightarrow> int \<Rightarrow> jsval \<Rightarrow> jsval \<Rightarrow> jsval \<Rightarrow> jsval \<Rightarrow> 's auth_st \<Rightarrow> 's outcome" where
  "fillTable env rnd pos now dst secret attempt nextLink s =
     (let sid = randomString rnd pos 64 in
      case as_on_db (createOneTimeToken (te_db env) rnd (pos + 64) now
               [(''sid'', JStr sid), (''email'', dst), (''client_secret'', secret)] (te_delay env) (text_of nextLink)) s of
        (None, s1) \<Rightarrow> (None, None, s1)
      | (Some (Inl e), s1) \<Rightarrow> (Some (error_with 400 e), None, s1)
      | (Some (Inr tok), s1) \<Rightarrow>
          let sent = \<lparr>mail_to = js_str dst, mail_raw = mailBody (te_template env) (js_str dst) tok (js_str secret) sid (te_date env)
                       (randomString rnd (pos + 128) 32)\<rparr> in
          (case as_on_db (db_insert (te_db env) ''mappings''
                   [(''client_secret'', secret), (''address'', dst), (''medium'', JStr ''email''), (''valid'', JNum 0),
                    (''submit_time'', JNum 0), (''session_id'', JStr sid), (''send_attempt'', attempt)]) s1 of
             (Inl e, s2) \<Rightarrow> (Some (error_with 400 e), Some sent, s2)
           | (Inr _, s2) \<Rightarrow> (Some (Json 200 (JObj [(''sid'', JStr sid)])), Some sent, s2)))"

definition token_schema :: "(string \<times> bool) list" where
  "token_schema = [(''client_secret'', True), (''email'', True), (''next_link'', False), (''send_attempt'', True)]"

definition invalid_param :: "string \<Rightarrow> response" where
  "invalid_param m = Json 400 (errMsg ''invalidParam'' (Some m))"

definition requestToken ::
  "'s tp_env \<Rightarrow> 's authenticator \<Rightarrow> (nat \<Rightarrow> char) \<Rightarrow> nat \<Rightarrow> int \<Rightarrow> obj \<Rightarrow> request \<Rightarrow> 's auth_st \<Rightarrow> 's outcome" where
  "requestToken env authenticate rnd pos now content req s =
     (case authenticate req s of
        (Answered r, s1) \<Rightarrow> (Some r, None, s1)
      | (CalledBack _ _, s1) \<Rightarrow>
          (case validateParameters token_schema content of
             Sent status b \<Rightarrow> (Some (Json (nat status) b), None, s1)
           | Callback c \<Rightarrow>
               let secret = getp c ''client_secret''; attempt = getp c ''send_attempt'';
                   dst = getp c ''email''; nextLink = getp c ''next_link'' in
               if \<not> clientSecretRe (js_str secret) then (Some (invalid_param ''invalid client_secret''), None, s1)
               else if \<not> re_test validEmailRe (js_str dst) then (Some (Json 400 (errMsg ''invalidEmail'' None)), None, s1)
               else if truthy nextLink \<and> te_url env (js_str nextLink) = None then (Some (invalid_param ''invalid next_link''), None, s1)
               else (case as_on_db (db_get (te_db env) ''mappings'' [''send_attempt'', ''session_id'']
                              (Some [(''client_secret'', secret), (''address'', dst)]) None) s1 of
                       (Inl e, s2) \<Rightarrow> (Some (error_with 400 e), None, s2)
                     | (Inr [], s2) \<Rightarrow> fillTable env rnd pos now dst secret attempt nextLink s2
                     | (Inr (row # _), s2) \<Rightarrow>
                         if attempt = getp row ''send_attempt''
                         then (Some (Json 200 (JObj [(''sid'', getp row ''session_id'')])), None, s2)
                         else (case as_on_db (db_deleteEqualAnd (te_db env) ''mappings'' (''client_secret'', secret)
                                        (''session_id'', getp row ''session_id'')) s2 of
                                 (Inl e, s3) \<Rightarrow> (Some (error_with 400 e), None, s3)
                               | (Inr _, s3) \<Rightarrow> fillTable env rnd pos now dst secret attempt nextLink s3))))"

section \<open>Submitting the token\<close>

datatype token_method = GetMethod | PostMethod | OtherVerb

definition submit_error :: "jserror \<Rightarrow> response" where
  "submit_error e = invalid_param (''Unknown or expired token'' @ ''Error: '' @ err_msg e)"

text \<open>\<open>v?.length != null\<close>: texts and arrays have a length, and so has an object with such a property.\<close>

definition has_length :: "jsval \<Rightarrow> bool" where
  "has_length v = (case v of JStr _ \<Rightarrow> True | JArr _ \<Rightarrow> True | JObj ps \<Rightarrow> \<not> nullish (getp ps ''length'') | _ \<Rightarrow> False)"

text \<open>\<open>===\<close> between a stored value and one of the request: two arrays or two objects are never the same.\<close>

definition strict_eq :: "jsval \<Rightarrow> jsval \<Rightarrow> bool" where
  "strict_eq x y \<longleftrightarrow> x = y \<and> (case x of JArr _ \<Rightarrow> False | JObj _ \<Rightarrow> False | _ \<Rightarrow> True)"

text \<open>Failures after the token was accepted are swallowed: nothing is answered.\<close>

definition submitToken :: "'s tp_env \<Rightarrow> token_method \<Rightarrow> int \<Rightarrow> obj \<Rightarrow> 's auth_st \<Rightarrow> response option \<times> 's auth_st" where
  "submitToken env meth now prms s =
     (if meth = OtherVerb then (Some (Json 400 (errMsg ''unAuthorized'' (Some ''Unauthorized method''))), s)
      else if has_length (getp prms ''client_secret'') \<and> has_length (getp prms ''token'') \<and> has_length (getp prms ''sid'') then
          (case as_on_db (verifyToken (te_db env) now (getp prms ''token'')) s of
             (Inl e, s1) \<Rightarrow> (Some (submit_error e), s1)
           | (Inr data, s1) \<Rightarrow>
               if nullish data then (Some (submit_error (Err ''Cannot read properties of null'')), s1)
               else if strict_eq (field data ''sid'') (getp prms ''sid'') \<and>
                       strict_eq (field data ''client_secret'') (getp prms ''client_secret'') then
                 (case as_on_db (deleteToken (te_db env) (getp prms ''token'')) s1 of
                    (Inl _, s2) \<Rightarrow> (None, s2)
                  | (Inr _, s2) \<Rightarrow>
                      (case as_on_db (db_updateAnd (te_db env) ''mappings'' [(''valid'', JNum 1), (''submit_time'', JNum now)]
                               (''session_id'', field data ''sid'') (''client_secret'', field data ''client_secret'')) s2 of
                         (Inl _, s3) \<Rightarrow> (None, s3)
                       | (Inr _, s3) \<Rightarrow>
                           let link = field data ''next_link'' in
                           if meth = GetMethod \<and> truthy link
                           then (map_option Redirect (te_url env (js_str link)), s3)
                           else (Some (Json 200 (JObj [(''success'', JBool True)])), s3)))
               else (Some (invalid_param ''sid or secret mismatch''), s1))
      else (Some (Json 400 (errMsg ''missingParams'' None)), s))"

definition coded_error :: "nat \<Rightarrow> string \<Rightarrow> string \<Rightarrow> response" where
  "coded_error status c m = Json status (JObj [(''errcode'', JStr c), (''error'', JStr m)])"

definition no_valid_session :: response where
  "no_valid_session = coded_error 404 ''M_NO_VALID_SESSION'' ''No valid session was found matching that sid and client secret''"

definition session_not_validated :: response where
  "session_not_validated = coded_error 400 ''M_SESSION_NOT_VALIDATED'' ''This validation session has not yet been completed''"

definition validationTime :: int where
  "validationTime = 100 * 365 * 24 * 60 * 60 * 1000"

text \<open>A time that is not a number compares with nothing and is sent as null.\<close>

definition getValidated3pid :: "'s tp_env \<Rightarrow> 's authenticator \<Rightarrow> int \<Rightarrow> obj \<Rightarrow> request \<Rightarrow> 's auth_st \<Rightarrow> response \<times> 's auth_st" where
  "getValidated3pid env authenticate now prms req s =
     (if has_length (getp prms ''client_secret'') \<and> has_length (getp prms ''sid'') then
          (case authenticate req s of
             (Answered r, s1) \<Rightarrow> (r, s1)
           | (CalledBack _ _, s1) \<Rightarrow>
               (case as_on_db (db_get (te_db env) ''mappings'' [''valid'', ''address'', ''medium'', ''submit_time'']
                        (Some [(''client_secret'', getp prms ''client_secret''), (''session_id'', getp prms ''sid'')]) None) s1 of
                  (Inl e, s2) \<Rightarrow> (unknown_error e, s2)
                | (Inr [], s2) \<Rightarrow> (no_valid_session, s2)
                | (Inr rows, s2) \<Rightarrow>
                    (case find (\<lambda>r. getp r ''valid'' = JNum 1) rows of
                       None \<Rightarrow> (session_not_validated, s2)
                     | Some row \<Rightarrow>
                         let submitTime = as_number (getp row ''submit_time'') in
                         if (case submitTime of Some n \<Rightarrow> validationTime + n < now | None \<Rightarrow> False)
                         then (coded_error 400 ''M_SESSION_EXPIRED'' ''This validation session has expired'', s2)
                         else (Json 200 (JObj [(''address'', getp row ''address''), (''medium'', getp row ''medium''),
                                (''validated_at'', case submitTime of Some n \<Rightarrow> JNum n | None \<Rightarrow> Null)]), s2))))
      else (Json 400 (errMsg ''missingParams'' None), s))"

section \<open>Binding\<close>

text \<open>The invitations of an address, as \<open>invitationTokens.map(({ data }) => data)\<close>; reading a property of null throws.\<close>

fun invites_of :: "jsval list \<Rightarrow> jsval list result" where
  "invites_of [] = Inr []"
| "invites_of (v # vs) =
     (case read_prop v ''data'' of
        Inl e \<Rightarrow> Inl e
      | Inr x \<Rightarrow> (case invites_of vs of Inl e \<Rightarrow> Inl e | Inr xs \<Rightarrow> Inr (x # xs)))"

definition server_of :: "string \<Rightarrow> string" where
  "server_of mxid = (case split_on CHR '':'' mxid of _ # b # _ \<Rightarrow> b | _ \<Rightarrow> ''undefined'')"

definition onbind_request :: "string \<Rightarrow> jsval \<Rightarrow> jsval \<Rightarrow> jsval list \<Rightarrow> http_req" where
  "onbind_request mxid address medium invites =
     \<lparr>hq_method = ''POST'', hq_url = buildUrl (server_of mxid) ''/_matrix/federation/v1/3pid/onbind'',
      hq_headers = [(''Content-Type'', JSON_TYPE)],
      hq_body = str_of (JObj [(''mxid'', JStr mxid), (''address'', address), (''medium'', medium), (''invites'', JArr invites)])\<rparr>"

text \<open>The hook is called and not awaited; its failures are only logged.\<close>

definition onBind :: "'s tp_env \<Rightarrow> string \<Rightarrow> jsval \<Rightarrow> jsval \<Rightarrow> 's auth_st \<Rightarrow> 's auth_st" where
  "onBind env mxid address medium s =
     (case as_on_db (listInvitationTokens (te_db env) (js_str address)) s of
        (Some (v # vs), s1) \<Rightarrow>
          (case invites_of (v # vs) of
             Inl _ \<Rightarrow> s1
           | Inr invites \<Rightarrow> snd (as_fetch (te_net env) (onbind_request mxid address medium invites) s1))
      | (_, s1) \<Rightarrow> s1)"

definition bind_schema :: "(string \<times> bool) list" where
  "bind_schema = [(''client_secret'', True), (''mxid'', True), (''sid'', True)]"

text \<open>\<open>submit_time + 86400000 * 36500\<close>\<close>

definition not_after_of :: "jsval \<Rightarrow> jsval" where
  "not_after_of v =
     (case v of
        JNum n \<Rightarrow> JNum (n + 86400000 * 36500)
      | Null \<Rightarrow> JNum (86400000 * 36500)
      | _ \<Rightarrow> JStr (js_str v @ int_str (86400000 * 36500)))"

definition bind_body :: "obj \<Rightarrow> jsval \<Rightarrow> obj" where
  "bind_body row mxid =
     [(''address'', getp row ''address''), (''medium'', getp row ''medium''), (''mxid'', mxid),
      (''not_after'', not_after_of (getp row ''submit_time'')), (''not_before'', getp row ''submit_time''),
      (''ts'', getp row ''submit_time'')]"

definition bound_field :: "jsval \<Rightarrow> string" where
  "bound_field medium = (if medium = JStr ''email'' then ''mail'' else ''msisdn'')"

text \<open>The signed answer; a key that is not two texts leaves the request without an answer.\<close>

definition signed_binding :: "'s tp_env \<Rightarrow> obj \<Rightarrow> jsval \<Rightarrow> 's auth_st \<Rightarrow> response option \<times> 's auth_st" where
  "signed_binding env row mxid s =
     (case as_on_db (db_get (te_db env) ''longTermKeypairs'' [''keyID'', ''private''] (Some []) None) s of
        (Inl e, s1) \<Rightarrow> (Some (unknown_error e), s1)
      | (Inr [], s1) \<Rightarrow> (Some (unknown_error (Err ''Cannot read properties of undefined'')), s1)
      | (Inr (keyrow # _), s1) \<Rightarrow>
          (case (getp keyrow ''private'', getp keyrow ''keyID'') of
             (JStr private, JStr kid) \<Rightarrow>
               (case signJson (te_sign env) (bind_body row mxid) private (te_server env) kid of
                  Inl e \<Rightarrow> (Some (unknown_error e), s1)
                | Inr signed \<Rightarrow> (Some (Json 200 (JObj signed)), s1))
           | _ \<Rightarrow> (None, s1)))"

definition store_binding :: "'s tp_env \<Rightarrow> obj \<Rightarrow> jsval \<Rightarrow> 's auth_st \<Rightarrow> response option \<times> 's auth_st" where
  "store_binding env row mxid s =
     (case as_on_db (db_get (te_db env) ''keys'' [''data''] (Some [(''name'', JStr ''pepper'')]) None) s of
        (Inl e, s1) \<Rightarrow> (Some (unknown_error e), s1)
      | (Inr [], s1) \<Rightarrow> (Some (unknown_error (Err ''Cannot read properties of undefined'')), s1)
      | (Inr (pepperRow # _), s1) \<Rightarrow>
          let pepper = getp pepperRow ''data''; fld = bound_field (getp row ''medium'') in
          (case hash_call (te_nacl env) ''sha256'' (hashed_text (js_str (getp row ''address'')) fld pepper) of
             Inl e \<Rightarrow> (Some (unknown_error e), s1)
           | Inr h \<Rightarrow>
               (case as_on_db (db_insert (te_db env) ''hashes''
                        [(''hash'', JStr h), (''pepper'', pepper), (''type'', JStr fld), (''value'', mxid), (''active'', JNum 1)]) s1 of
                  (Inl e, s2) \<Rightarrow> (Some (unknown_error e), s2)
                | (Inr _, s2) \<Rightarrow> signed_binding env row mxid s2)))"

definition bind3pid :: "'s tp_env \<Rightarrow> 's authenticator \<Rightarrow> obj \<Rightarrow> request \<Rightarrow> 's auth_st \<Rightarrow> response option \<times> 's auth_st" where
  "bind3pid env authenticate content req s =
     (case authenticate req s of
        (Answered r, s1) \<Rightarrow> (Some r, s1)
      | (CalledBack _ _, s1) \<Rightarrow>
          (case validateParameters bind_schema content of
             Sent status b \<Rightarrow> (Some (Json (nat status) b), s1)
           | Callback c \<Rightarrow>
               let secret = getp c ''client_secret''; mxid = getp c ''mxid''; sid = getp c ''sid'' in
               if \<not> clientSecretRe (js_str secret) then (Some (invalid_param ''invalid client_secret''), s1)
               else if \<not> re_test mxidRe (js_str mxid) then (Some (invalid_param ''invalid Matrix user ID''), s1)
               else if \<not> sidRe (js_str sid) then (Some (invalid_param ''invalid session ID''), s1)
               else (case as_on_db (db_get (te_db env) ''mappings'' [''address'', ''medium'', ''submit_time'', ''valid'']
                              (Some [(''session_id'', sid), (''client_secret'', secret)]) None) s1 of
                       (Inl e, s2) \<Rightarrow> (Some (unknown_error e), s2)
                     | (Inr [], s2) \<Rightarrow> (Some no_valid_session, s2)
                     | (Inr (row # _), s2) \<Rightarrow>
                         if getp row ''valid'' = JNum 0 then (Some session_not_validated, s2)
                         else store_binding env row mxid
                                (onBind env (js_str mxid) (getp row ''address'') (getp row ''medium'') s2))))"

section \<open>Unbinding\<close>

definition unbind_schema :: "(string \<times> bool) list" where
  "unbind_schema = [(''client_secret'', False), (''mxid'', True), (''sid'', False), (''threepid'', True)]"

definition error_text :: "jserror \<Rightarrow> response" where
  "error_text e = Json 500 (errMsg ''unknown'' (Some (''Error: '' @ err_msg e)))"

definition unbind3pid :: "'s tp_env \<Rightarrow> 's authenticator \<Rightarrow> obj \<Rightarrow> request \<Rightarrow> 's auth_st \<Rightarrow> response option \<times> 's auth_st" where
  "unbind3pid env authenticate content req s =
     (case authenticate req s of
        (Answered r, s1) \<Rightarrow> (Some r, s1)
      | (CalledBack _ _, s1) \<Rightarrow>
          (case validateParameters unbind_schema content of
             Sent status b \<Rightarrow> (Some (Json (nat status) b), s1)
           | Callback c \<Rightarrow>
               let secret = getp c ''client_secret''; mxid = getp c ''mxid''; sid = getp c ''sid'' in
               if nullish secret \<or> nullish sid then (None, s1)
               else if \<not> clientSecretRe (js_str secret) then (Some (invalid_param ''invalid client_secret''), s1)
               else if \<not> re_test mxidRe (js_str mxid) then (Some (invalid_param ''invalid Matrix user ID''), s1)
               else if \<not> sidRe (js_str sid) then (Some (invalid_param ''invalid session ID''), s1)
               else (case as_on_db (db_get (te_db env) ''mappings'' [''address'']
                              (Some [(''session_id'', sid), (''client_secret'', secret)]) None) s1 of
                       (Inl e, s2) \<Rightarrow> (Some (error_text e), s2)
                     | (Inr [], s2) \<Rightarrow>
                         (Some (Json 403 (errMsg ''invalidParam'' (Some ''invalid session ID or client_secret''))), s2)
                     | (Inr (row # _), s2) \<Rightarrow>
                         if field (getp c ''threepid'') ''address'' \<noteq> getp row ''address''
                         then (Some (Json 403 (errMsg ''invalidParam'' (Some ''invalid address''))), s2)
                         else (case as_on_db (db_deleteEqual (te_db env) ''hashes'' ''value'' mxid) s2 of
                                 (Inl e, s3) \<Rightarrow> (Some (error_text e), s3)
                               | (Inr _, s3) \<Rightarrow> (Some (Json 200 (JObj [])), s3)))))"

section \<open>What the tables give\<close>

context table_db
begin

lemma update_and_other_ok:
  assumes "wf s" "schema t \<noteq> []" "vs \<noteq> []" "set (fst c1 # fst c2 # map fst vs) \<subseteq> set (schema t)"
    "set (key t) \<inter> set (map fst vs) = {}" "db_updateAnd d t vs c1 c2 s = (Inl e, s')"
  shows "\<not> healthy s"
proof
  assume "healthy s"
  then obtain w where k: "key t \<noteq> []" and big: "1 < size {# r \<in>#
      {# if both c1 c2 r then assign (stored_obj vs) r else r. r \<in># tab s t #}. same_key (key t) w r #}"
    using update_and_law [OF assms(1-4,6)] by auto
  have "map fst (stored_obj vs) = map fst vs" by (simp add: stored_obj_def comp_def case_prod_unfold)
  then have "k \<notin> set (map fst (stored_obj vs))" if "k \<in> set (key t)" for k
    using assms(5) that by (simp add: disjoint_iff)
  then have g: "same_key (key t) w (if both c1 c2 r then assign (stored_obj vs) r else r) = same_key (key t) w r" for r
    by (simp add: same_key_def list_all_iff getp_assign_other)
  have "size {# r \<in># {# if both c1 c2 r then assign (stored_obj vs) r else r. r \<in># tab s t #}. same_key (key t) w r #} =
      size {# r \<in># tab s t. same_key (key t) w r #}"
    by (simp only: filter_mset_image_mset g size_image_mset)
  with big keys_unique [OF assms(1) k, of w] show False by simp
qed

end

definition mapping_cols :: "string list" where
  "mapping_cols = [''client_secret'', ''session_id'', ''medium'', ''valid'', ''address'', ''submit_time'', ''send_attempt'']"

text \<open>The sessions with a secret and an identifier, and what a validation makes of them.\<close>

definition in_session :: "string \<Rightarrow> string \<Rightarrow> obj \<Rightarrow> bool" where
  "in_session secret sid = both (''session_id'', JStr sid) (''client_secret'', JStr secret)"

definition validated_rows :: "string \<Rightarrow> string \<Rightarrow> int \<Rightarrow> obj multiset \<Rightarrow> obj multiset" where
  "validated_rows secret sid now rows =
     {# if in_session secret sid r then assign [(''valid'', JNum 1), (''submit_time'', JNum now)] r else r. r \<in># rows #}"

text \<open>The data a row of a one-time token holds for a session.\<close>

definition token_for :: "string \<Rightarrow> string \<Rightarrow> obj \<Rightarrow> bool" where
  "token_for secret sid r \<longleftrightarrow>
     (\<exists>data. parse_col (getp r ''data'') = Inr data \<and> field data ''sid'' = JStr sid \<and> field data ''client_secret'' = JStr secret)"

definition mapping_row :: "string \<Rightarrow> string \<Rightarrow> string \<Rightarrow> jsval \<Rightarrow> obj" where
  "mapping_row secret sid address attempt =
     [(''client_secret'', JStr secret), (''session_id'', JStr sid), (''medium'', JStr ''email''), (''valid'', JNum 0),
      (''address'', JStr address), (''submit_time'', JNum 0), (''send_attempt'', stored attempt)]"

definition validated_row :: "string \<Rightarrow> string \<Rightarrow> string \<Rightarrow> jsval \<Rightarrow> int \<Rightarrow> obj" where
  "validated_row secret sid address attempt now =
     [(''client_secret'', JStr secret), (''session_id'', JStr sid), (''medium'', JStr ''email''), (''valid'', JNum 1),
      (''address'', JStr address), (''submit_time'', JNum now), (''send_attempt'', stored attempt)]"

text \<open>The answer about a session with one row.\<close>

locale session_table = lookup_db +
  assumes mappings: "schema ''mappings'' = mapping_cols" "key ''mappings'' = [''client_secret'']"
    and tokens: "schema ''oneTimeTokens'' = token_cols" "key ''oneTimeTokens'' = [''id'']"
    and others: "schema ''invitationTokens'' = [''id'', ''address'', ''data'']" "schema ''longTermKeypairs'' = long_term_cols"
begin

lemma mapping_update:
  assumes "wf s" "db_updateAnd d ''mappings'' [(''valid'', JNum 1), (''submit_time'', JNum now)]
    (''session_id'', JStr sid) (''client_secret'', JStr secret) s = (r, s')"
  shows "wf s' \<and> (healthy s \<longrightarrow> healthy s' \<and> (\<exists>rs. r = Inr rs)) \<and>
    (case r of Inl _ \<Rightarrow> tab s' = tab s
     | Inr _ \<Rightarrow> tab s' = (tab s)(''mappings'' := validated_rows secret sid now (tab s ''mappings'')))"
proof -
  let ?vs = "[(''valid'', JNum 1), (''submit_time'', JNum now)]"
  let ?c1 = "(''session_id'', JStr sid)" and ?c2 = "(''client_secret'', JStr secret)"
  have c: "schema ''mappings'' \<noteq> []" "?vs \<noteq> []" "set (fst ?c1 # fst ?c2 # map fst ?vs) \<subseteq> set (schema ''mappings'')"
    by (auto simp: mappings mapping_cols_def)
  have k: "set (key ''mappings'') \<inter> set (map fst ?vs) = {}" by (simp add: mappings)
  have so: "stored_obj ?vs = ?vs" by (simp add: stored_obj_def stored_def)
  have h: "\<exists>rs. r = Inr rs" if "healthy s"
    using update_and_other_ok [OF assms(1) c k] that assms(2) by (cases r) auto
  show ?thesis
    using update_and_law [OF assms(1) c assms(2), unfolded so] h
    by (cases r) (auto simp: validated_rows_def in_session_def)
qed

lemma token_delete:
  assumes "wf s" "deleteToken d tok s = (r, s')"
  shows "r = Inr () \<and> wf s' \<and> (healthy s \<longrightarrow> healthy s') \<and> (\<forall>t. t \<noteq> ''oneTimeTokens'' \<longrightarrow> tab s' t = tab s t)"
proof -
  obtain q x where q: "db_deleteEqual d ''oneTimeTokens'' ''id'' tok s = (q, x)" by fastforce
  have "''id'' \<in> set (schema ''oneTimeTokens'')" by (simp add: tokens token_cols_def)
  from delete_law [OF assms(1) this q] show ?thesis
    using assms(2) q by (cases q) (auto simp: deleteToken_def swallow_def)
qed

lemma verified_row:
  assumes "wf s" "verifyToken d now tok s = (Inr data, s')"
  shows "\<exists>r \<in># tab s ''oneTimeTokens''. (\<not> nullish tok \<and> js_str tok \<noteq> [] \<longrightarrow> match_val (getp r ''id'') tok) \<and>
    (\<exists>n. as_number (getp r ''expires'') = Some n \<and> now \<le> n) \<and> parse_col (getp r ''data'') = Inr data"
proof -
  obtain row rows where g: "db_get d ''oneTimeTokens'' [''data'', ''expires''] (Some [(''id'', tok)]) None s = (Inr (row # rows), s')"
    "\<exists>n. as_number (getp row ''expires'') = Some n \<and> now \<le> n" "parse_col (getp row ''data'') = Inr data"
    using assms(2) by (auto simp: verifyToken_def split: prod.splits sum.splits list.splits if_splits option.splits)
  have "row \<in># mset (row # rows)" by simp
  moreover have "mset (row # rows) = {# project [''data'', ''expires''] r. r \<in># {# r \<in># tab s ''oneTimeTokens''. matches [(''id'', tok)] r #} #}"
    using get_token [OF assms(1) tokens(1) g(1)] by blast
  ultimately have "row \<in># {# project [''data'', ''expires''] r. r \<in># {# r \<in># tab s ''oneTimeTokens''. matches [(''id'', tok)] r #} #}" by metis
  then obtain r where "r \<in># tab s ''oneTimeTokens''" "matches [(''id'', tok)] r" "row = project [''data'', ''expires''] r" by auto
  then show ?thesis using g(2,3) by (intro bexI [of _ r]) (auto simp: matches_def kept_def project_def)
qed

text \<open>A submission changes the sessions only for a token that was stored for them.\<close>

lemma submit_spec:
  assumes "wf (as_db s)" "te_db env = d" "submitToken env meth now prms s = (resp, s')"
  shows "wf (as_db s') \<and> (\<forall>t. t \<notin> {''oneTimeTokens'', ''mappings''} \<longrightarrow> tab (as_db s') t = tab (as_db s) t) \<and>
    (tab (as_db s') ''mappings'' = tab (as_db s) ''mappings'' \<or>
     (\<exists>secret sid r. getp prms ''client_secret'' = JStr secret \<and> getp prms ''sid'' = JStr sid \<and>
        tab (as_db s') ''mappings'' = validated_rows secret sid now (tab (as_db s) ''mappings'') \<and>
        r \<in># tab (as_db s) ''oneTimeTokens'' \<and> (js_str (getp prms ''token'') \<noteq> [] \<longrightarrow> match_val (getp r ''id'') (getp prms ''token'')) \<and>
        (\<exists>n. as_number (getp r ''expires'') = Some n \<and> now \<le> n) \<and> token_for secret sid r))"
proof (cases "meth \<noteq> OtherVerb \<and> has_length (getp prms ''client_secret'') \<and> has_length (getp prms ''token'') \<and> has_length (getp prms ''sid'')")
  case False
  then have "s' = s" using assms(3) by (auto simp: submitToken_def split: if_splits)
  then show ?thesis using assms(1) by simp
next
  case True
  let ?tok = "getp prms ''token''"
  obtain v x where v: "verifyToken d now ?tok (as_db s) = (v, x)" by fastforce
  have x: "wf x" "tab x = tab (as_db s)" using verify_token_frame [OF assms(1) tokens(1) v] by auto
  let ?same = "\<lambda>data. strict_eq (field data ''sid'') (getp prms ''sid'') \<and> strict_eq (field data ''client_secret'') (getp prms ''client_secret'')"
  show ?thesis
  proof (cases "\<exists>data. v = Inr data \<and> \<not> nullish data \<and> ?same data")
    case False
    then have "s' = s\<lparr>as_db := x\<rparr>"
      using assms(2,3) True v by (cases v) (auto simp: submitToken_def as_on_db_def split: if_splits)
    then show ?thesis using x by simp
  next
    case same: True
    then obtain data where data: "v = Inr data" "\<not> nullish data" "?same data" by blast
    obtain secret sid where p: "getp prms ''client_secret'' = JStr secret" "getp prms ''sid'' = JStr sid"
      using data(3) True by (auto simp: strict_eq_def has_length_def split: jsval.splits)
    then have f: "field data ''sid'' = JStr sid" "field data ''client_secret'' = JStr secret" using data(3) by (simp_all add: strict_eq_def)
    have nt: "\<not> nullish ?tok" using True by (auto simp: has_length_def split: jsval.splits)
    obtain y where y: "deleteToken d ?tok x = (Inr (), y)" "wf y" "\<forall>t. t \<noteq> ''oneTimeTokens'' \<longrightarrow> tab y t = tab x t"
      using token_delete [OF x(1)] by (metis prod.collapse)
    obtain u z where u: "db_updateAnd d ''mappings'' [(''valid'', JNum 1), (''submit_time'', JNum now)]
        (''session_id'', JStr sid) (''client_secret'', JStr secret) y = (u, z)" by fastforce
    note z = mapping_update [OF y(2) u]
    have s': "s' = s\<lparr>as_db := z\<rparr>"
      using assms(2,3) p True v data f y(1) u by (cases u) (auto simp: submitToken_def as_on_db_def Let_def split: if_splits)
    obtain r where "r \<in># tab (as_db s) ''oneTimeTokens''" "js_str ?tok \<noteq> [] \<longrightarrow> match_val (getp r ''id'') ?tok"
      "\<exists>n. as_number (getp r ''expires'') = Some n \<and> now \<le> n" "parse_col (getp r ''data'') = Inr data"
      using verified_row [OF assms(1) v [unfolded data(1)]] nt by blast
    then have r: "\<exists>r. r \<in># tab (as_db s) ''oneTimeTokens'' \<and> (js_str ?tok \<noteq> [] \<longrightarrow> match_val (getp r ''id'') ?tok) \<and>
        (\<exists>n. as_number (getp r ''expires'') = Some n \<and> now \<le> n) \<and> token_for secret sid r"
      using f unfolding token_for_def by blast
    show ?thesis
    proof (cases u)
      case (Inl e)
      then show ?thesis using s' z x(2) y(3) by simp
    next
      case (Inr us)
      then show ?thesis using s' z x(2) y(3) p r by simp
    qed
  qed
qed

text \<open>A healthy database carries a submission through.\<close>

lemma submit_accepted:
  assumes "wf (as_db s)" "healthy (as_db s)" "te_db env = d" "meth \<noteq> OtherVerb"
    "getp prms ''client_secret'' = JStr secret" "getp prms ''token'' = JStr tok" "getp prms ''sid'' = JStr sid"
    "fst (verifyToken d now (JStr tok) (as_db s)) = Inr data" "field data ''sid'' = JStr sid" "field data ''client_secret'' = JStr secret"
    "submitToken env meth now prms s = (resp, s')"
  shows "wf (as_db s') \<and> healthy (as_db s') \<and>
    tab (as_db s') ''mappings'' = validated_rows secret sid now (tab (as_db s) ''mappings'') \<and>
    (\<not> truthy (field data ''next_link'') \<longrightarrow> resp = Some (Json 200 (JObj [(''success'', JBool True)])))"
proof -
  obtain x where v: "verifyToken d now (JStr tok) (as_db s) = (Inr data, x)" using assms(8) by (metis prod.collapse)
  have x: "wf x" "healthy x" "tab x = tab (as_db s)" using verify_token_frame [OF assms(1) tokens(1) v] assms(2) by auto
  have nn: "\<not> nullish data" using assms(9) by (cases data) (auto simp: field_def)
  obtain y where y: "deleteToken d (JStr tok) x = (Inr (), y)" "wf y" "healthy y" "\<forall>t. t \<noteq> ''oneTimeTokens'' \<longrightarrow> tab y t = tab x t"
    using token_delete [OF x(1)] x(2) by (metis prod.collapse)
  obtain u z where u: "db_updateAnd d ''mappings'' [(''valid'', JNum 1), (''submit_time'', JNum now)]
      (''session_id'', JStr sid) (''client_secret'', JStr secret) y = (u, z)" by fastforce
  note z = mapping_update [OF y(2) u]
  obtain us where us: "u = Inr us" using z y(3) by blast
  have s': "s' = s\<lparr>as_db := z\<rparr>"
    using assms(3-7,9-11) v nn y(1) u us by (auto simp: submitToken_def has_length_def strict_eq_def as_on_db_def Let_def split: if_splits)
  have "\<not> truthy (field data ''next_link'') \<Longrightarrow> resp = Some (Json 200 (JObj [(''success'', JBool True)]))"
    using assms(3-7,9-11) v nn y(1) u us by (auto simp: submitToken_def has_length_def strict_eq_def as_on_db_def Let_def split: if_splits)
  then show ?thesis using s' z us x(3) y(3,4) by simp
qed

lemma read_session_row:
  assumes "wf (as_db s1)" "healthy (as_db s1)" "te_db env = d" "authenticate req s = (CalledBack c t, s1)" "secret \<noteq> []" "sid \<noteq> []"
    "{# r \<in># tab (as_db s1) ''mappings''. in_session secret sid r #} = {#row#}"
    "getp row ''submit_time'' = JNum n" "now \<le> validationTime + n" "getp row ''valid'' \<in> {JNum 0, JNum 1}"
  shows "fst (getValidated3pid env authenticate now [(''client_secret'', JStr secret), (''sid'', JStr sid)] req s) =
    (if getp row ''valid'' = JNum 1
     then Json 200 (JObj [(''address'', getp row ''address''), (''medium'', getp row ''medium''), (''validated_at'', JNum n)])
     else session_not_validated)"
proof -
  let ?fs = "[''valid'', ''address'', ''medium'', ''submit_time'']"
  let ?f = "[(''client_secret'', JStr secret), (''session_id'', JStr sid)]"
  obtain r x where g: "db_get d ''mappings'' ?fs (Some ?f) None (as_db s1) = (r, x)" by fastforce
  have c: "schema ''mappings'' \<noteq> []" "?fs = [''*''] \<or> set ?fs \<subseteq> set (schema ''mappings'')" "set (map fst (kept ?f)) \<subseteq> set (schema ''mappings'')"
    by (auto simp: mappings mapping_cols_def kept_def)
  obtain rs where rs: "r = Inr rs" using get_law [OF assms(1) c g] assms(2) by (cases r) auto
  have "matches ?f = in_session secret sid"
    using assms(5,6) by (intro ext) (auto simp: matches_def kept_def match_val_def in_session_def both_def)
  then have "mset rs = {#project ?fs row#}" using get_law [OF assms(1) c g] rs assms(7) by simp
  then have "rs = [project ?fs row]" by simp
  then show ?thesis
    using g rs assms(3,4,8-10) by (auto simp: getValidated3pid_def has_length_def as_on_db_def project_def Let_def not_less)
qed

lemma request_session:
  assumes "wf (as_db s0)" "healthy (as_db s0)" "te_db env = d" "authenticate req s = (CalledBack c t, s0)"
    "getp content ''client_secret'' = JStr secret" "getp content ''email'' = JStr address" "nullish (getp content ''next_link'')"
    "\<not> nullish (getp content ''send_attempt'')" "clientSecretRe secret" "re_test validEmailRe address"
    "\<And>r. r \<in># tab (as_db s0) ''mappings'' \<Longrightarrow> \<not> sql_eq (getp r ''client_secret'') (JStr secret)"
    "\<And>r. r \<in># tab (as_db s0) ''oneTimeTokens'' \<Longrightarrow> \<not> sql_eq (getp r ''id'') (JStr (randomString rnd (pos + 64) 64))"
    "requestToken env authenticate rnd pos now content req s = (resp, sent, s1)"
  shows "resp = Some (Json 200 (JObj [(''sid'', JStr (randomString rnd pos 64))])) \<and> (\<exists>ml. sent = Some ml \<and> mail_to ml = address) \<and>
    wf (as_db s1) \<and> healthy (as_db s1) \<and>
    {# r \<in># tab (as_db s1) ''mappings''. in_session secret (randomString rnd pos 64) r #} =
      {#mapping_row secret (randomString rnd pos 64) address (getp content ''send_attempt'')#} \<and>
    token_row (randomString rnd (pos + 64) 64) (token_expiry now (te_delay env))
      [(''sid'', JStr (randomString rnd pos 64)), (''email'', JStr address), (''client_secret'', JStr secret)]
      \<in># tab (as_db s1) ''oneTimeTokens''"
proof -
  let ?sid = "randomString rnd pos 64"
  let ?tok = "randomString rnd (pos + 64) 64"
  let ?data = "[(''sid'', JStr ?sid), (''email'', JStr address), (''client_secret'', JStr secret)]"
  let ?att = "getp content ''send_attempt''"
  let ?fs = "[''send_attempt'', ''session_id'']"
  let ?f = "[(''client_secret'', JStr secret), (''address'', JStr address)]"
  have ne: "secret \<noteq> []" using assms(9) by (auto simp: clientSecretRe_def)
  obtain r x where g: "db_get d ''mappings'' ?fs (Some ?f) None (as_db s0) = (r, x)" by fastforce
  have c: "schema ''mappings'' \<noteq> []" "?fs = [''*''] \<or> set ?fs \<subseteq> set (schema ''mappings'')" "set (map fst (kept ?f)) \<subseteq> set (schema ''mappings'')"
    by (auto simp: mappings mapping_cols_def kept_def)
  note gl = get_law [OF assms(1) c g]
  obtain rs where rs: "r = Inr rs" using gl assms(2) by (cases r) auto
  have none: "{# r \<in># tab (as_db s0) ''mappings''. matches ?f r #} = {#}"
    using assms(11) ne by (auto simp: matches_def kept_def match_val_def filter_mset_eq_conv)
  have "mset rs = image_mset (project ?fs) {# r \<in># tab (as_db s0) ''mappings''. matches ?f r #}" using gl rs by simp
  then have "mset rs = {#}" unfolding none by simp
  then have r: "r = Inr []" using rs by simp
  have x: "wf x" "healthy x" "tab x = tab (as_db s0)" using gl assms(2) by auto
  obtain y where y: "createOneTimeToken d rnd (pos + 64) now ?data (te_delay env) [] x = (Some (Inr ?tok), y)"
    using create_token_fresh [OF x(1,2) tokens] assms(12) x(3) by fastforce
  have y': "wf y" "healthy y" "tab y = (tab x)(''oneTimeTokens'' := add_mset (token_row ?tok (token_expiry now (te_delay env)) ?data) (tab x ''oneTimeTokens''))"
    using create_token [OF x(1) tokens(1) y] x(2) by (simp_all add: token_data_def)
  let ?vs = "[(''client_secret'', JStr secret), (''address'', JStr address), (''medium'', JStr ''email''), (''valid'', JNum 0),
    (''submit_time'', JNum 0), (''session_id'', JStr ?sid), (''send_attempt'', ?att)]"
  obtain q z where q: "db_insert d ''mappings'' ?vs y = (q, z)" by fastforce
  have ci: "schema ''mappings'' \<noteq> []" "?vs \<noteq> []" "set (map fst ?vs) \<subseteq> set (schema ''mappings'')"
    by (auto simp: mappings mapping_cols_def)
  have row: "complete (schema ''mappings'') (stored_obj ?vs) = mapping_row secret ?sid address ?att"
    by (simp add: mappings mapping_cols_def complete_def stored_obj_def mapping_row_def stored_def)
  have ym: "tab y ''mappings'' = tab (as_db s0) ''mappings''" using y'(3) x(3) by simp
  have "getp (mapping_row secret ?sid address ?att) ''client_secret'' = JStr secret" by (simp add: mapping_row_def)
  then obtain us where us: "q = Inr us"
    using insert_law [OF y'(1) ci q, unfolded row] y'(2) assms(11) ym by (cases q) (auto simp: mappings)
  have z: "wf z" "healthy z" "tab z = (tab y)(''mappings'' := add_mset (mapping_row secret ?sid address ?att) (tab y ''mappings''))"
    using insert_law [OF y'(1) ci q, unfolded row] y'(2) us by simp_all
  have v: "validateParameters token_schema content = Callback content"
    using assms(5,6,8) by (simp add: validateParameters_def missing_params_def token_schema_def)
  have nl: "\<not> truthy (getp content ''next_link'')" "text_of (getp content ''next_link'') = []"
    using assms(7) by (cases "getp content ''next_link''"; simp add: text_of_def)+
  obtain ml where e: "resp = Some (Json 200 (JObj [(''sid'', JStr ?sid)]))" "sent = Some ml" "mail_to ml = address" "s1 = s0\<lparr>as_db := z\<rparr>"
    using assms(3-6,9,10,13) v nl g r y q us
    by (auto simp: requestToken_def fillTable_def as_on_db_def Let_def)
  have old: "{# r \<in># tab (as_db s0) ''mappings''. in_session secret ?sid r #} = {#}"
    using assms(11) by (auto simp: in_session_def both_def filter_mset_eq_conv)
  have "in_session secret ?sid (mapping_row secret ?sid address ?att)"
    by (simp add: in_session_def both_def mapping_row_def sql_eq_def)
  then have "{# r \<in># tab z ''mappings''. in_session secret ?sid r #} = {#mapping_row secret ?sid address ?att#}"
    using z(3) ym old by simp
  moreover have "token_row ?tok (token_expiry now (te_delay env)) ?data \<in># tab z ''oneTimeTokens''"
    using z(3) y'(3) by simp
  ultimately show ?thesis using e z by simp
qed

text \<open>The row of a session.\<close>

lemma session_row:
  assumes "wf s" "row \<in># tab s ''mappings''" "in_session secret sid row"
  shows "{# r \<in># tab s ''mappings''. in_session secret sid r #} = {#row#}"
proof -
  have k: "{# r \<in># tab s ''mappings''. sql_eq (getp r ''client_secret'') (JStr secret) #} = {#row#}"
    using key_unique_rows [OF assms(1) mappings(2) assms(2)] assms(3) by (simp add: in_session_def both_def)
  have "{# r \<in># tab s ''mappings''. in_session secret sid r #} =
      {# r \<in># {# r \<in># tab s ''mappings''. sql_eq (getp r ''client_secret'') (JStr secret) #}. sql_eq (getp r ''session_id'') (JStr sid) #}"
    by (simp add: filter_filter_mset in_session_def both_def conj_commute)
  also have "\<dots> = {#row#}" unfolding k using assms(3) by (simp add: in_session_def both_def)
  finally show ?thesis .
qed

lemma read_mapping:
  assumes "wf s" "healthy s" "row \<in># tab s ''mappings''" "in_session secret sid row" "secret \<noteq> []" "sid \<noteq> []"
    "set fs \<subseteq> set mapping_cols"
    "db_get d ''mappings'' fs (Some [(''session_id'', JStr sid), (''client_secret'', JStr secret)]) None s = (r, s')"
  shows "r = Inr [project fs row] \<and> wf s' \<and> healthy s' \<and> tab s' = tab s"
proof -
  let ?f = "[(''session_id'', JStr sid), (''client_secret'', JStr secret)]"
  have c: "schema ''mappings'' \<noteq> []" "fs = [''*''] \<or> set fs \<subseteq> set (schema ''mappings'')" "set (map fst (kept ?f)) \<subseteq> set (schema ''mappings'')"
    using assms(7) by (auto simp: mappings mapping_cols_def kept_def)
  note g = get_law [OF assms(1) c assms(8)]
  obtain rs where rs: "r = Inr rs" using g assms(2) by (cases r) auto
  have "matches ?f = in_session secret sid"
    using assms(5,6) by (intro ext) (auto simp: matches_def kept_def match_val_def in_session_def both_def)
  then have "mset rs = {#project fs row#}" using g rs session_row [OF assms(1,3,4)] by simp
  then show ?thesis using rs g assms(2) by simp
qed

lemma unbind_removes:
  assumes "wf (as_db s1)" "healthy (as_db s1)" "te_db env = d" "authenticate req s = (CalledBack c t, s1)"
    "row \<in># tab (as_db s1) ''mappings''" "in_session secret sid row" "clientSecretRe secret" "sidRe sid" "re_test mxidRe mxid"
    "content = [(''client_secret'', JStr secret), (''mxid'', JStr mxid), (''sid'', JStr sid), (''threepid'', JObj [(''address'', getp row ''address'')])]"
    "unbind3pid env authenticate content req s = (resp, s')"
  shows "resp = Some (Json 200 (JObj [])) \<and>
    tab (as_db s') = (tab (as_db s1))(''hashes'' := {# r \<in># tab (as_db s1) ''hashes''. \<not> sql_eq (getp r ''value'') (JStr mxid) #})"
proof -
  have ne: "secret \<noteq> []" "sid \<noteq> []" using assms(7,8) by (auto simp: clientSecretRe_def sidRe_def)
  obtain r x where g: "db_get d ''mappings'' [''address''] (Some [(''session_id'', JStr sid), (''client_secret'', JStr secret)]) None (as_db s1) = (r, x)"
    by fastforce
  have x: "r = Inr [[(''address'', getp row ''address'')]]" "wf x" "healthy x" "tab x = tab (as_db s1)"
    using read_mapping [OF assms(1,2,5,6) ne _ g] by (simp_all add: mapping_cols_def project_def)
  obtain u y where u: "db_deleteEqual d ''hashes'' ''value'' (JStr mxid) x = (u, y)" by fastforce
  have "\<not> re_test mxidRe []" by code_simp
  then have m: "mxid \<noteq> []" using assms(9) by auto
  have "''value'' \<in> set (schema ''hashes'')" by (simp add: hashes hash_cols_def)
  moreover have "\<not> bad_condition ''value'' (JStr mxid)" using m by (simp add: bad_condition_def)
  ultimately obtain v where y: "u = Inr v"
      "tab y = (tab (as_db s1))(''hashes'' := {# r \<in># tab (as_db s1) ''hashes''. \<not> sql_eq (getp r ''value'') (JStr mxid) #})"
    using delete_law [OF x(2) _ u] x(3,4) by (cases u) auto
  have v: "validateParameters unbind_schema content = Callback content"
    by (simp add: assms(10) validateParameters_def missing_params_def unbind_schema_def)
  show ?thesis
    using assms(3,4,7-9,11) v g x(1) u y unfolding assms(10)
    by (auto simp: unbind3pid_def as_on_db_def field_def Let_def)
qed

lemma onBind_alone:
  assumes "wf (as_db s)" "te_db env = d"
  shows "wf (as_db (onBind env mxid a m s)) \<and> (healthy (as_db s) \<longrightarrow> healthy (as_db (onBind env mxid a m s))) \<and>
    tab (as_db (onBind env mxid a m s)) = tab (as_db s)"
proof -
  obtain r x where r: "listInvitationTokens d (js_str a) (as_db s) = (r, x)" by fastforce
  obtain q where q: "db_get d ''invitationTokens'' [''data'', ''address'', ''id''] (Some [(''address'', JStr (js_str a))]) None (as_db s) = (q, x)"
    using r by (auto simp: listInvitationTokens_def split: prod.splits sum.splits)
  have c: "''address'' \<in> set (schema ''invitationTokens'')"
    "[''data'', ''address'', ''id''] = [''*''] \<or> set [''data'', ''address'', ''id''] \<subseteq> set (schema ''invitationTokens'')"
    by (simp_all add: others)
  have x: "wf x" "healthy (as_db s) \<longrightarrow> healthy x" "tab x = tab (as_db s)"
    using get_one_Inr [OF _ assms(1) c, of "JStr (js_str a)" None _ x] get_one_Inl [OF _ assms(1) c, of "JStr (js_str a)" None _ x] q
    by (cases q; auto)+
  have "as_db (snd (as_fetch net rq s1)) = as_db s1" for net rq and s1 :: "'a auth_st"
    by (simp add: as_fetch_def split: prod.splits)
  then have "as_db (onBind env mxid a m s) = x"
    using r assms(2) by (auto simp: onBind_def as_on_db_def split: option.splits list.splits sum.splits)
  with x show ?thesis by simp
qed

lemma signed_alone:
  assumes "wf (as_db s)" "te_db env = d" "signed_binding env row mxid s = (resp, s')"
  shows "wf (as_db s') \<and> (healthy (as_db s) \<longrightarrow> healthy (as_db s')) \<and> tab (as_db s') = tab (as_db s)"
proof -
  obtain q x where q: "db_get d ''longTermKeypairs'' [''keyID'', ''private''] (Some []) None (as_db s) = (q, x)" by fastforce
  have c: "schema ''longTermKeypairs'' \<noteq> []" "[''keyID'', ''private''] = [''*''] \<or> set [''keyID'', ''private''] \<subseteq> set (schema ''longTermKeypairs'')"
    "set (map fst (kept [])) \<subseteq> set (schema ''longTermKeypairs'')"
    by (simp_all add: others long_term_cols_def)
  have "as_db s' = x"
    using assms(2,3) q
    by (auto simp: signed_binding_def as_on_db_def split: sum.splits list.splits jsval.splits)
  then show ?thesis using get_law [OF assms(1) c q] by auto
qed

lemma bind_adds:
  assumes "wf (as_db s1)" "healthy (as_db s1)" "te_db env = d" "authenticate req s = (CalledBack c t, s1)"
    "row \<in># tab (as_db s1) ''mappings''" "in_session secret sid row" "clientSecretRe secret" "sidRe sid" "re_test mxidRe mxid"
    "content = [(''client_secret'', JStr secret), (''mxid'', JStr mxid), (''sid'', JStr sid)]"
    "getp row ''medium'' = JStr ''email''" "getp row ''address'' = JStr a" "getp row ''valid'' \<noteq> JNum 0"
    "key_is (tab (as_db s1) ''keys'') ''pepper'' (JStr p)"
    "hash_call (te_nacl env) ''sha256'' (hashed_text a ''mail'' (JStr p)) = Inr h"
    "bind3pid env authenticate content req s = (resp, s')"
  shows "wf (as_db s') \<and> healthy (as_db s') \<and>
    (tab (as_db s') ''hashes'' = tab (as_db s1) ''hashes'' \<or>
     tab (as_db s') ''hashes'' = add_mset
       [(''hash'', JStr h), (''pepper'', JStr p), (''type'', JStr ''mail''), (''value'', JStr mxid), (''active'', JNum 1)] (tab (as_db s1) ''hashes'')) \<and>
    ((\<forall>r \<in># tab (as_db s1) ''hashes''. getp r ''hash'' \<noteq> JStr h) \<longrightarrow> all_hashed (tab (as_db s1) ''hashes'') \<longrightarrow>
     tab (as_db s') ''hashes'' \<noteq> tab (as_db s1) ''hashes'')"
proof -
  have ne: "secret \<noteq> []" "sid \<noteq> []" using assms(7,8) by (auto simp: clientSecretRe_def sidRe_def)
  let ?fs = "[''address'', ''medium'', ''submit_time'', ''valid'']"
  let ?row = "project ?fs row"
  obtain r x where g: "db_get d ''mappings'' ?fs (Some [(''session_id'', JStr sid), (''client_secret'', JStr secret)]) None (as_db s1) = (r, x)"
    by fastforce
  have x: "r = Inr [?row]" "wf x" "healthy x" "tab x = tab (as_db s1)"
    using read_mapping [OF assms(1,2,5,6) ne _ g] by (simp_all add: mapping_cols_def)
  have row: "getp ?row ''medium'' = JStr ''email''" "getp ?row ''address'' = JStr a" "getp ?row ''valid'' \<noteq> JNum 0"
    using assms(11-13) by (simp_all add: project_def)
  define s2 where "s2 = onBind env mxid (JStr a) (JStr ''email'') (s1\<lparr>as_db := x\<rparr>)"
  have s2: "wf (as_db s2)" "healthy (as_db s2)" "tab (as_db s2) = tab (as_db s1)"
    using onBind_alone [of "s1\<lparr>as_db := x\<rparr>" env mxid "JStr a" "JStr ''email''"] x assms(3) by (simp_all add: s2_def)
  have v: "validateParameters bind_schema content = Callback content"
    by (simp add: assms(10) validateParameters_def missing_params_def bind_schema_def)
  have b: "store_binding env ?row (JStr mxid) s2 = (resp, s')"
    using assms(3,4,7-9,16) v g x(1) row unfolding assms(10)
    by (auto simp: bind3pid_def as_on_db_def Let_def s2_def)
  obtain k y where k: "db_get d ''keys'' [''data''] (Some [(''name'', JStr ''pepper'')]) None (as_db s2) = (k, y)" by fastforce
  have y: "k = Inr [[(''data'', JStr p)]]" "wf y" "healthy y" "tab y = tab (as_db s1)"
    using read_key [OF s2(1,2) _ _ k, of "JStr p"] assms(14) s2(3) by auto
  let ?vs = "[(''hash'', JStr h), (''pepper'', JStr p), (''type'', JStr ''mail''), (''value'', JStr mxid), (''active'', JNum 1)]"
  obtain i z where i: "db_insert d ''hashes'' ?vs y = (i, z)" by fastforce
  have ci: "schema ''hashes'' \<noteq> []" "?vs \<noteq> []" "set (map fst ?vs) \<subseteq> set (schema ''hashes'')"
    by (auto simp: hashes hash_cols_def)
  have co: "complete (schema ''hashes'') (stored_obj ?vs) = ?vs"
    by (simp add: hashes hash_cols_def complete_def stored_obj_def stored_def)
  note il = insert_law [OF y(2) ci i, unfolded co]
  show ?thesis
  proof (cases i)
    case (Inl e)
    then have z: "as_db s' = z" using b k y(1) assms(3,15) row i by (auto simp: store_binding_def as_on_db_def bound_field_def Let_def)
    have "\<exists>r \<in># tab (as_db s1) ''hashes''. sql_eq (getp r ''hash'') (JStr h)" using il y Inl by (simp add: hashes)
    then have "\<not> ((\<forall>r \<in># tab (as_db s1) ''hashes''. getp r ''hash'' \<noteq> JStr h) \<and> all_hashed (tab (as_db s1) ''hashes''))"
      by (fastforce simp: all_hashed_def sql_eq_def)
    then show ?thesis using il y Inl z by auto
  next
    case (Inr us)
    then have sb: "signed_binding env ?row (JStr mxid) (s2\<lparr>as_db := z\<rparr>) = (resp, s')"
      using b k y(1) assms(3,15) row i by (auto simp: store_binding_def as_on_db_def bound_field_def Let_def)
    have "wf z" "healthy z" "tab z ''hashes'' = add_mset ?vs (tab (as_db s1) ''hashes'')" using il y Inr by simp_all
    then show ?thesis using signed_alone [OF _ assms(3) sb] by simp
  qed
qed

end

lemma tom_schema_sessions3:
  "schema_of tom_tables ''mappings'' = mapping_cols" "key_of tom_tables ''mappings'' = [''client_secret'']"
  "schema_of tom_tables ''invitationTokens'' = [''id'', ''address'', ''data'']"
  unfolding tom_schema tom_key by code_simp+

lemma tom_sessions3:
  "tom_database d ok healthy tab \<Longrightarrow> session_table d ok healthy tab (schema_of tom_tables) (key_of tom_tables)"
  by (intro session_table.intro session_table_axioms.intro tom_lookup)
     (simp_all add: tom_schema_sessions3 tom_schema_tokens tom_key_tokens tom_schema_pairs)

interpretation pid_sessions: session_table "mem_db dia" "store_wf tom_tables" store_healthy rows_of
    "schema_of tom_tables" "key_of tom_tables"
  for dia
  by (rule tom_sessions3 [OF mem_tom])

section \<open>Properties\<close>

text \<open>
  C7: Whoever has any session of validation of his own, complete or not, removes all the lookup hashes of
  any Matrix identifier by unbinding the address of that session from it: the identifier is compared
  neither with the caller nor with what the session was bound to.
\<close>

theorem unbind_removes_any_user:
  assumes "tom_database d ok healthy tab" "te_db env = d" "authenticate req s = (CalledBack c t, s1)"
    "ok (as_db s1)" "healthy (as_db s1)" "row \<in># tab (as_db s1) ''mappings''" "in_session secret sid row"
    "clientSecretRe secret" "sidRe sid" "re_test mxidRe victim"
    "content = [(''client_secret'', JStr secret), (''mxid'', JStr victim), (''sid'', JStr sid), (''threepid'', JObj [(''address'', getp row ''address'')])]"
    "unbind3pid env authenticate content req s = (resp, s')"
  shows "resp = Some (Json 200 (JObj [])) \<and>
    tab (as_db s') = (tab (as_db s1))(''hashes'' := {# r \<in># tab (as_db s1) ''hashes''. \<not> sql_eq (getp r ''value'') (JStr victim) #})"
  by (rule session_table.unbind_removes [OF tom_sessions3 [OF assms(1)], OF assms(4,5,2,3,6-12)])

text \<open>
  C8: A submission changes the sessions only if its secret and its session identifier are texts and a
  stored token that has not expired was stored for exactly them; it then validates the sessions with this
  secret and identifier and no other.  When the token of the request, a text or an array, does not
  print as the empty text, that stored token is the one named, or one of those named, in the request.
\<close>

theorem validation_needs_token:
  assumes "tom_database d ok healthy tab" "ok (as_db s)" "te_db env = d"
    "submitToken env meth now prms s = (resp, s')" "tab (as_db s') ''mappings'' \<noteq> tab (as_db s) ''mappings''"
  shows "\<exists>secret sid r. getp prms ''client_secret'' = JStr secret \<and> getp prms ''sid'' = JStr sid \<and>
    tab (as_db s') ''mappings'' = validated_rows secret sid now (tab (as_db s) ''mappings'') \<and>
    r \<in># tab (as_db s) ''oneTimeTokens'' \<and>
    (js_str (getp prms ''token'') = [] \<or> match_val (getp r ''id'') (getp prms ''token'')) \<and>
    (\<exists>n. as_number (getp r ''expires'') = Some n \<and> now \<le> n) \<and> token_for secret sid r"
proof -
  note u = session_table.submit_spec [OF tom_sessions3 [OF assms(1)], OF assms(2,3,4), THEN conjunct2, THEN conjunct2]
  show ?thesis using u [unfolded imp_conv_disj not_not] by (rule disjE) (use assms(5) in simp, assumption)
qed

text \<open>
  An empty token is accepted in place of the one that was mailed: when the only stored token is the one
  of the session, whoever knows the secret and the identifier of the session, which the answer to the
  request gave him, validates the address without having received the mail.
\<close>

theorem validated_without_token:
  assumes "tom_database d ok healthy tab" "ok (as_db s)" "healthy (as_db s)" "te_db env = d" "meth \<noteq> OtherVerb"
    "tab (as_db s) ''oneTimeTokens'' = {#token_row tok expiry data#}" "json_value (JObj data)" "now \<le> expiry"
    "getp data ''sid'' = JStr sid" "getp data ''client_secret'' = JStr secret"
    "submitToken env meth now [(''client_secret'', JStr secret), (''token'', JStr []), (''sid'', JStr sid)] s = (resp, s')"
  shows "tab (as_db s') ''mappings'' = validated_rows secret sid now (tab (as_db s) ''mappings'')"
proof -
  note st = tom_sessions3 [OF assms(1)]
  note td = lookup_db.axioms(1) [OF tom_lookup [OF assms(1)]]
  obtain r x where g: "db_get d ''oneTimeTokens'' [''data'', ''expires''] (Some [(''id'', JStr [])]) None (as_db s) = (r, x)" by fastforce
  note gt = table_db.get_token [OF td, OF assms(2) tom_schema_tokens g]
  obtain rs where rs: "r = Inr rs" using gt assms(3) by blast
  have "mset rs = {# project [''data'', ''expires''] r. r \<in># {# r \<in># tab (as_db s) ''oneTimeTokens''. matches [(''id'', JStr [])] r #} #}"
    using gt rs by blast
  then have "mset rs = {#project [''data'', ''expires''] (token_row tok expiry data)#}"
    by (simp add: assms(6) table_db.matches_one [OF td])
  then have "rs = [project [''data'', ''expires''] (token_row tok expiry data)]" by simp
  then have v: "fst (verifyToken d now (JStr []) (as_db s)) = Inr (JObj data)"
    using g rs assms(7,8) by (simp add: verifyToken_def project_def token_row_def parse_col_def json_parse_str_of)
  have p: "getp [(''client_secret'', JStr secret), (''token'', JStr []), (''sid'', JStr sid)] ''client_secret'' = JStr secret"
    "getp [(''client_secret'', JStr secret), (''token'', JStr []), (''sid'', JStr sid)] ''token'' = JStr []"
    "getp [(''client_secret'', JStr secret), (''token'', JStr []), (''sid'', JStr sid)] ''sid'' = JStr sid"
    "field (JObj data) ''sid'' = JStr sid" "field (JObj data) ''client_secret'' = JStr secret"
    using assms(9,10) by (simp_all add: field_def)
  show ?thesis
    using session_table.submit_accepted [OF st, OF assms(2-5) p(1-3) v p(4,5) assms(11)] by blast
qed

text \<open>The life of a validation on a database that keeps the laws of the interface.\<close>

lemma session_life:
  assumes "tom_database d ok healthy tab" "ok (as_db s0)" "healthy (as_db s0)" "te_db env = d" "authenticate req s = (CalledBack c t, s0)"
    "getp content ''client_secret'' = JStr secret" "getp content ''email'' = JStr address" "nullish (getp content ''next_link'')"
    "\<not> nullish (getp content ''send_attempt'')" "clientSecretRe secret" "re_test validEmailRe address"
    "json_value (JStr secret)" "json_value (JStr address)" "json_value (JStr (randomString rnd pos 64))"
    "\<And>r. r \<in># tab (as_db s0) ''mappings'' \<Longrightarrow> \<not> sql_eq (getp r ''client_secret'') (JStr secret)"
    "\<And>r. r \<in># tab (as_db s0) ''oneTimeTokens'' \<Longrightarrow> \<not> sql_eq (getp r ''id'') (JStr (randomString rnd (pos + 64) 64))"
    "requestToken env authenticate rnd pos now content req s = (resp, sent, s1)"
    "sid = randomString rnd pos 64" "tok = randomString rnd (pos + 64) 64" "now2 \<le> token_expiry now (te_delay env)" "meth \<noteq> OtherVerb"
    "authenticate req1 s1' = (CalledBack c1 t1, s1'')" "as_db s1'' = as_db s1" "now1 \<le> validationTime"
    "submitToken env meth now2 [(''client_secret'', JStr secret), (''token'', JStr tok), (''sid'', JStr sid)] s1 = (resp2, s2)"
    "authenticate req2 s2' = (CalledBack c2 t2, s2'')" "as_db s2'' = as_db s2" "now3 \<le> validationTime + now2"
  shows "resp = Some (Json 200 (JObj [(''sid'', JStr sid)])) \<and> (\<exists>ml. sent = Some ml \<and> mail_to ml = address) \<and>
    fst (getValidated3pid env authenticate now1 [(''client_secret'', JStr secret), (''sid'', JStr sid)] req1 s1') = session_not_validated \<and>
    resp2 = Some (Json 200 (JObj [(''success'', JBool True)])) \<and>
    fst (getValidated3pid env authenticate now3 [(''client_secret'', JStr secret), (''sid'', JStr sid)] req2 s2') =
      Json 200 (JObj [(''address'', JStr address), (''medium'', JStr ''email''), (''validated_at'', JNum now2)])"
proof -
  note st = tom_sessions3 [OF assms(1)]
  note td = lookup_db.axioms(1) [OF tom_lookup [OF assms(1)]]
  note rq = session_table.request_session [OF st, OF assms(2-11,15-17), folded assms(18,19)]
  have ne: "secret \<noteq> []" "sid \<noteq> []" "tok \<noteq> []" using assms(10,18,19) by (auto simp: clientSecretRe_def randomString_eq)
  let ?att = "getp content ''send_attempt''"
  let ?row = "mapping_row secret sid address ?att"
  let ?data = "[(''sid'', JStr sid), (''email'', JStr address), (''client_secret'', JStr secret)]"
  have s1: "ok (as_db s1)" "healthy (as_db s1)" "{# r \<in># tab (as_db s1) ''mappings''. in_session secret sid r #} = {#?row#}"
    "token_row tok (token_expiry now (te_delay env)) ?data \<in># tab (as_db s1) ''oneTimeTokens''" using rq by auto
  have i1: "ok (as_db s1'')" "healthy (as_db s1'')" "{# r \<in># tab (as_db s1'') ''mappings''. in_session secret sid r #} = {#?row#}"
    using s1 assms(23) by simp_all
  have row: "getp ?row ''submit_time'' = JNum 0" "getp ?row ''valid'' \<in> {JNum 0, JNum 1}" "getp ?row ''valid'' \<noteq> JNum 1"
    by (simp_all add: mapping_row_def)
  have "now1 \<le> validationTime + 0" using assms(24) by simp
  note before = session_table.read_session_row [OF st, where env = env and ?s1.0 = "s1''" and row = ?row and authenticate = authenticate and secret = secret and sid = sid,
    OF i1(1,2) assms(4,22) ne(1,2) i1(3) row(1) this row(2)]
  have "json_value (JObj ?data)" using assms(12-14,18) by simp
  then have v: "fst (verifyToken d now2 (JStr tok) (as_db s1)) = Inr (JObj ?data)"
    using table_db.verify_token_row [OF td, OF s1(1,2) tom_schema_tokens tom_key_tokens ne(3) s1(4)] assms(20) by simp
  have p: "getp [(''client_secret'', JStr secret), (''token'', JStr tok), (''sid'', JStr sid)] ''client_secret'' = JStr secret"
    "getp [(''client_secret'', JStr secret), (''token'', JStr tok), (''sid'', JStr sid)] ''token'' = JStr tok"
    "getp [(''client_secret'', JStr secret), (''token'', JStr tok), (''sid'', JStr sid)] ''sid'' = JStr sid"
    "field (JObj ?data) ''sid'' = JStr sid" "field (JObj ?data) ''client_secret'' = JStr secret" "\<not> truthy (field (JObj ?data) ''next_link'')"
    by (simp_all add: field_def)
  note sub = session_table.submit_accepted [OF st, OF s1(1,2) assms(4,21) p(1-3) v p(4,5) assms(25)]
  let ?new = "validated_row secret sid address ?att now2"
  let ?f = "\<lambda>r. if in_session secret sid r then assign [(''valid'', JNum 1), (''submit_time'', JNum now2)] r else r"
  have ids: "in_session secret sid (?f r) = in_session secret sid r" for r
    by (simp add: in_session_def both_def getp_assign_other)
  have "{# r \<in># validated_rows secret sid now2 (tab (as_db s1) ''mappings''). in_session secret sid r #} = image_mset ?f {#?row#}"
    unfolding validated_rows_def filter_mset_image_mset ids s1(3) ..
  also have "in_session secret sid ?row" by (simp add: in_session_def both_def mapping_row_def sql_eq_def)
  then have "image_mset ?f {#?row#} = {#?new#}" by (simp add: mapping_row_def validated_row_def assign_def)
  finally have i2: "{# r \<in># tab (as_db s2'') ''mappings''. in_session secret sid r #} = {#?new#}"
    using sub assms(27) by simp
  have s2: "ok (as_db s2'')" "healthy (as_db s2'')" using sub assms(27) by auto
  have new: "getp ?new ''submit_time'' = JNum now2" "getp ?new ''valid'' \<in> {JNum 0, JNum 1}" "getp ?new ''valid'' = JNum 1"
    "getp ?new ''address'' = JStr address" "getp ?new ''medium'' = JStr ''email''"
    by (simp_all add: validated_row_def)
  note after = session_table.read_session_row [OF st, where env = env and ?s1.0 = "s2''" and row = ?new and authenticate = authenticate and secret = secret and sid = sid,
    OF s2 assms(4,26) ne(1,2) i2 new(1) assms(28) new(2)]
  show ?thesis using rq before after row(3) new(3-5) sub p(6) by simp
qed

text \<open>
  C6: The life of a validation on SQLite: a request for a new session, on a database without failures
  of its own, is answered with its identifier and a mail to the address; until the token is submitted
  the session counts as not validated, afterwards it answers with the address and the time of the submission.
\<close>

theorem session_lifecycle:
  assumes "te_db env = mem_db SQLITE" "store_wf tom_tables (as_db s0)" "store_healthy (as_db s0)" "authenticate req s = (CalledBack c t, s0)"
    "getp content ''client_secret'' = JStr secret" "getp content ''email'' = JStr address" "nullish (getp content ''next_link'')"
    "\<not> nullish (getp content ''send_attempt'')" "clientSecretRe secret" "re_test validEmailRe address"
    "json_value (JStr secret)" "json_value (JStr address)" "json_value (JStr (randomString rnd pos 64))"
    "\<And>r. r \<in># rows_of (as_db s0) ''mappings'' \<Longrightarrow> \<not> sql_eq (getp r ''client_secret'') (JStr secret)"
    "\<And>r. r \<in># rows_of (as_db s0) ''oneTimeTokens'' \<Longrightarrow> \<not> sql_eq (getp r ''id'') (JStr (randomString rnd (pos + 64) 64))"
    "requestToken env authenticate rnd pos now content req s = (resp, sent, s1)"
    "sid = randomString rnd pos 64" "tok = randomString rnd (pos + 64) 64" "now2 \<le> token_expiry now (te_delay env)" "meth \<noteq> OtherVerb"
    "authenticate req1 s1' = (CalledBack c1 t1, s1'')" "as_db s1'' = as_db s1" "now1 \<le> validationTime"
    "submitToken env meth now2 [(''client_secret'', JStr secret), (''token'', JStr tok), (''sid'', JStr sid)] s1 = (resp2, s2)"
    "authenticate req2 s2' = (CalledBack c2 t2, s2'')" "as_db s2'' = as_db s2" "now3 \<le> validationTime + now2"
  shows "resp = Some (Json 200 (JObj [(''sid'', JStr sid)])) \<and> (\<exists>ml. sent = Some ml \<and> mail_to ml = address) \<and>
    fst (getValidated3pid env authenticate now1 [(''client_secret'', JStr secret), (''sid'', JStr sid)] req1 s1') = session_not_validated \<and>
    resp2 = Some (Json 200 (JObj [(''success'', JBool True)])) \<and>
    fst (getValidated3pid env authenticate now3 [(''client_secret'', JStr secret), (''sid'', JStr sid)] req2 s2') =
      Json 200 (JObj [(''address'', JStr address), (''medium'', JStr ''email''), (''validated_at'', JNum now2)])"
  by (rule session_life [OF mem_tom assms(2,3,1,4-27)])

text \<open>
  On PostgreSQL the same request cannot be stored: the column of the identifier is declared for 12
  characters where 64 are written, and the expiry of the token is counted in milliseconds
  in a column of 32 bits, so that every such time after January 1970 is out of its range.
\<close>

definition declared_type :: "(string \<times> string) list \<Rightarrow> string \<Rightarrow> string \<Rightarrow> string list" where
  "declared_type conf t c =
     (case map_of conf t of None \<Rightarrow> []
      | Some ddl \<Rightarrow> (case find (\<lambda>ws. hd ws = c) (column_defs ddl) of None \<Rightarrow> [] | Some ws \<Rightarrow> take 1 (tl ws)))"

theorem session_exceeds_columns:
  "declared_type tom_tables ''mappings'' ''session_id'' = [''varchar(12)''] \<and> 12 < length (randomString rnd pos 64) \<and>
   declared_type tom_tables ''oneTimeTokens'' ''expires'' = [''int''] \<and>
   (2 ^ 31 \<le> now \<longrightarrow> 2 ^ 31 - 1 < token_expiry now delay)"
proof -
  have "now \<le> token_expiry now delay" by (simp add: token_expiry_def split: option.split)
  moreover have "declared_type tom_tables ''mappings'' ''session_id'' = [''varchar(12)'']"
    "declared_type tom_tables ''oneTimeTokens'' ''expires'' = [''int'']" by code_simp+
  ultimately show ?thesis by auto
qed

text \<open>
  C37: Binding a mail address in a database without failures stores exactly one new lookup row, with the
  hash of the text that has the word \<open>mail\<close>, where clients and the directory use \<open>email\<close>: unless the two
  hashes collide, or one of them was stored before, a lookup for the address does not find the
  identifier that was bound.
\<close>

theorem bound_mail_not_found:
  assumes "tom_database d ok healthy tab" "te_db env = d" "authenticate req s = (CalledBack c t, s1)"
    "ok (as_db s1)" "healthy (as_db s1)" "row \<in># tab (as_db s1) ''mappings''" "in_session secret sid row"
    "clientSecretRe secret" "sidRe sid" "re_test mxidRe mxid"
    "content = [(''client_secret'', JStr secret), (''mxid'', JStr mxid), (''sid'', JStr sid)]"
    "getp row ''medium'' = JStr ''email''" "getp row ''address'' = JStr a" "getp row ''valid'' \<noteq> JNum 0"
    "key_is (tab (as_db s1) ''keys'') ''pepper'' (JStr p)" "all_hashed (tab (as_db s1) ''hashes'')"
    "hash_call (te_nacl env) ''sha256'' (hashed_text a ''mail'' (JStr p)) = Inr h"
    "address_hash (te_nacl env) ''email'' a p = Inr h'" "h' \<noteq> h" "h' \<noteq> []"
    "\<forall>r \<in># tab (as_db s1) ''hashes''. getp r ''hash'' \<noteq> JStr h' \<and> getp r ''hash'' \<noteq> JStr h"
    "bind3pid env authenticate content req s = (resp, s')"
    "authenticate req2 s2 = (CalledBack c2 t2, s3)" "as_db s3 = as_db s'" "1 \<le> limit" "getp asked ''addresses'' = JArr [JStr h']"
  shows "tab (as_db s') ''hashes'' = add_mset
      [(''hash'', JStr h), (''pepper'', JStr p), (''type'', JStr ''mail''), (''value'', JStr mxid), (''active'', JNum 1)] (tab (as_db s1) ''hashes'') \<and>
    named_in (fst (lookup d authenticate limit additional asked req2 s2)) ''mappings'' h' = None"
proof -
  note st = tom_sessions3 [OF assms(1)]
  note b = session_table.bind_adds [OF st, OF assms(4,5,2,3,6-15,17,22)]
  have h: "all_hashed (tab (as_db s') ''hashes'')" "\<forall>r \<in># tab (as_db s') ''hashes''. getp r ''hash'' \<noteq> JStr h'"
    using b assms(16,19,21) by (auto simp: all_hashed_def)
  have s3: "ok (as_db s3)" "healthy (as_db s3)" "all_hashed (tab (as_db s3) ''hashes'')" using b h assms(24) by simp_all
  have n: "int (length [h']) \<le> limit" "getp asked ''addresses'' = JArr (map JStr [h'])" using assms(25,26) by simp_all
  obtain r s4 where k: "lookup d authenticate limit additional asked req2 s2 = (r, s4)" by fastforce
  have "named_in r ''mappings'' h' \<noteq> Some v" for v
    using lookup_db.lookup_named [OF tom_lookup [OF assms(1)], OF s3 assms(23) n k, of h' v] h(2) assms(24) by auto
  then have "named_in r ''mappings'' h' = None" by (cases "named_in r ''mappings'' h'") auto
  moreover have "tab (as_db s') ''hashes'' \<noteq> tab (as_db s1) ''hashes''" using b assms(16,21) by blast
  ultimately show ?thesis unfolding k using b by auto
qed

section \<open>Witnesses\<close>

definition demo_secret :: string where
  "demo_secret = ''secret''"

definition demo_token :: string where
  "demo_token = ''tok''"

definition demo_session :: obj where
  "demo_session = mapping_row demo_secret ''s1'' ''ab@cd.ef'' (JNum 1)"

definition demo_valid :: obj where
  "demo_valid = validated_row ''secret2'' ''s2'' ''gh@cd.ef'' (JNum 1) 5"

definition demo_data_of :: obj where
  "demo_data_of = [(''sid'', JStr ''s1''), (''email'', JStr ''ab@cd.ef''), (''client_secret'', JStr demo_secret)]"

definition demo_pid :: store where
  "demo_pid = with_rows (with_rows demo_lookup ''mappings'' [demo_session, demo_valid])
     ''oneTimeTokens'' [token_row demo_token 9 demo_data_of]"

lemma demo_pid_facts: "store_wf tom_tables demo_pid" "store_healthy demo_pid"
  "rows_of demo_pid = (rows_of demo_lookup)(''mappings'' := {#demo_session, demo_valid#},
     ''oneTimeTokens'' := {#token_row demo_token 9 demo_data_of#})"
proof -
  let ?s = "with_rows demo_lookup ''mappings'' [demo_session, demo_valid]"
  have t: "store_wf tom_tables ?s" "rows_of ?s = (rows_of demo_lookup)(''mappings'' := mset [demo_session, demo_valid])"
    "faults ?s = faults demo_lookup"
    by (rule with_rows_ok [OF demo_lookup_facts(1)];
        simp add: tom_schema_sessions3 mapping_cols_def demo_session_def demo_valid_def mapping_row_def validated_row_def
          keys_of_def demo_secret_def)+
  have p: "store_wf tom_tables demo_pid"
    "rows_of demo_pid = (rows_of ?s)(''oneTimeTokens'' := mset [token_row demo_token 9 demo_data_of])" "faults demo_pid = faults ?s"
    unfolding demo_pid_def
    by (rule with_rows_ok [OF t(1)]; simp add: tom_schema_tokens tom_key_tokens token_cols_def token_row_def keys_of_def)+
  show "store_wf tom_tables demo_pid" "store_healthy demo_pid"
    "rows_of demo_pid = (rows_of demo_lookup)(''mappings'' := {#demo_session, demo_valid#},
       ''oneTimeTokens'' := {#token_row demo_token 9 demo_data_of#})"
    using t p demo_lookup_facts(2) by (auto simp: store_healthy_def)
qed

abbreviation "demo_auth \<equiv> (\<lambda>_ s. (CalledBack [] (Some (Some ''t'')), s))"

text \<open>A hash that tells texts of different lengths apart.\<close>

definition length_nacl :: nacl where
  "length_nacl = \<lparr>encode_utf8 = (\<lambda>t. t),
     crypto_hash_sha256 = (\<lambda>t. [if even (length t) then CHR 0x01 else CHR 0xFF]), crypto_hash = (\<lambda>t. t)\<rparr>"

definition demo_tp :: "dialect \<Rightarrow> store tp_env" where
  "demo_tp dia = \<lparr>te_db = mem_db dia, te_delay = None, te_template = ''__link__'', te_date = ''now'',
     te_url = (\<lambda>u. Some u), te_net = (\<lambda>_ _. Inl (Err ''down'')), te_nacl = length_nacl,
     te_sign = (\<lambda>_ _. Inr ''sig''), te_server = ''x''\<rparr>"

abbreviation "demo_st st \<equiv> \<lparr>as_db = st, as_log = []\<rparr>"

lemma demo_st_facts: "store_wf tom_tables (as_db (demo_st demo_pid))" "store_healthy (as_db (demo_st demo_pid))"
  by (simp_all add: demo_pid_facts)

lemma demo_sessions: "demo_session \<in># rows_of demo_pid ''mappings''" "in_session demo_secret ''s1'' demo_session"
  "demo_valid \<in># rows_of demo_pid ''mappings''" "in_session ''secret2'' ''s2'' demo_valid"
  by (simp_all add: demo_pid_facts in_session_def both_def demo_session_def demo_valid_def mapping_row_def validated_row_def sql_eq_def)

lemma demo_patterns: "clientSecretRe demo_secret" "clientSecretRe ''secret2''" "sidRe ''s1''" "sidRe ''s2''" "re_test mxidRe ''@ann:x''"
  "re_test mxidRe ''@bob:x''" "re_test validEmailRe ''ij@cd.ef''" "clientSecretRe ''secret3''"
  by code_simp+

theorem unbind_removes_any_user_witness:
  "rows_of (as_db (snd (unbind3pid (demo_tp PG) demo_auth
       [(''client_secret'', JStr demo_secret), (''mxid'', JStr ''@ann:x''), (''sid'', JStr ''s1''),
        (''threepid'', JObj [(''address'', getp demo_session ''address'')])]
       (demo_request [] []) (demo_st demo_pid)))) ''hashes'' = {#}"
proof -
  let ?c = "[(''client_secret'', JStr demo_secret), (''mxid'', JStr ''@ann:x''), (''sid'', JStr ''s1''),
        (''threepid'', JObj [(''address'', getp demo_session ''address'')])]"
  obtain resp s' where u: "unbind3pid (demo_tp PG) demo_auth ?c (demo_request [] []) (demo_st demo_pid) = (resp, s')" by fastforce
  have "te_db (demo_tp PG) = mem_db PG" by (simp add: demo_tp_def)
  note w = unbind_removes_any_user [OF mem_tom this, where authenticate = demo_auth and ?s1.0 = "demo_st demo_pid", OF refl demo_st_facts]
  show ?thesis
    using w [of demo_session demo_secret "''s1''" "''@ann:x''", OF _ demo_sessions(2) demo_patterns(1,3,5) refl u] demo_sessions(1) u
    by (simp add: demo_pid_facts demo_lookup_facts demo_hash_row_def sql_eq_def)
qed

lemma demo_token_row: "getp demo_data_of ''sid'' = JStr ''s1''" "getp demo_data_of ''client_secret'' = JStr demo_secret"
  "json_value (JObj demo_data_of)"
  by code_simp+

lemma demo_submitted:
  "map_option t_rows (map_of (tabs (as_db (snd (submitToken (demo_tp SQLITE) GetMethod 7
     [(''client_secret'', JStr demo_secret), (''token'', JStr demo_token), (''sid'', JStr ''s1'')] (demo_st demo_pid))))) ''mappings'') =
   Some [assign [(''valid'', JNum 1), (''submit_time'', JNum 7)] demo_session, demo_valid]"
  by code_simp

theorem validation_needs_token_witness:
  "rows_of (as_db (snd (submitToken (demo_tp SQLITE) GetMethod 7
     [(''client_secret'', JStr demo_secret), (''token'', JStr demo_token), (''sid'', JStr ''s1'')] (demo_st demo_pid)))) ''mappings'' =
   validated_rows demo_secret ''s1'' 7 (rows_of demo_pid ''mappings'')"
proof -
  let ?p = "[(''client_secret'', JStr demo_secret), (''token'', JStr demo_token), (''sid'', JStr ''s1'')]"
  let ?r = "submitToken (demo_tp SQLITE) GetMethod 7 ?p (demo_st demo_pid)"
  have db: "te_db (demo_tp SQLITE) = mem_db SQLITE" by (simp add: demo_tp_def)
  have "rows_of (as_db (snd ?r)) ''mappings'' = mset [assign [(''valid'', JNum 1), (''submit_time'', JNum 7)] demo_session, demo_valid]"
    using demo_submitted by (auto simp: rows_of_def split: option.splits)
  then have c: "rows_of (as_db (snd ?r)) ''mappings'' \<noteq> rows_of (as_db (demo_st demo_pid)) ''mappings''"
    by (simp add: demo_pid_facts demo_session_def mapping_row_def assign_def)
  from validation_needs_token [OF mem_tom demo_st_facts(1) db prod.collapse [symmetric] c] show ?thesis by auto
qed

theorem validated_without_token_witness:
  "\<exists>r \<in># rows_of (as_db (snd (submitToken (demo_tp PG) PostMethod 7
       [(''client_secret'', JStr demo_secret), (''token'', JStr []), (''sid'', JStr ''s1'')] (demo_st demo_pid)))) ''mappings''.
     in_session demo_secret ''s1'' r \<and> getp r ''valid'' = JNum 1"
proof -
  let ?p = "[(''client_secret'', JStr demo_secret), (''token'', JStr []), (''sid'', JStr ''s1'')]"
  have db: "te_db (demo_tp PG) = mem_db PG" by (simp add: demo_tp_def)
  have "rows_of (as_db (demo_st demo_pid)) ''oneTimeTokens'' = {#token_row demo_token 9 demo_data_of#}" by (simp add: demo_pid_facts)
  from validated_without_token [OF mem_tom demo_st_facts db _ this demo_token_row(3) _ demo_token_row(1,2) prod.collapse [symmetric], of PostMethod 7]
  show ?thesis
    by (simp add: demo_pid_facts validated_rows_def demo_session_def demo_valid_def mapping_row_def in_session_def both_def sql_eq_def
        validated_row_def assign_def)
qed

definition demo_ask :: obj where
  "demo_ask = [(''client_secret'', JStr ''secret3''), (''email'', JStr ''ij@cd.ef''), (''send_attempt'', JNum 1)]"

lemma demo_random: "json_value (JStr (randomString demo_rnd 0 64))" "json_value (JStr ''secret3'')" "json_value (JStr ''ij@cd.ef'')"
  "randomString demo_rnd (0 + 64) 64 \<noteq> demo_token"
  by code_simp+

theorem session_lifecycle_witness:
  "\<exists>s1 s2. requestToken (demo_tp SQLITE) demo_auth demo_rnd 0 100 demo_ask (demo_request [] []) (demo_st demo_pid) = s1 \<and>
     submitToken (demo_tp SQLITE) PostMethod 200 [(''client_secret'', JStr ''secret3''), (''token'', JStr (randomString demo_rnd (0 + 64) 64)),
       (''sid'', JStr (randomString demo_rnd 0 64))] (snd (snd s1)) = s2 \<and>
     fst (getValidated3pid (demo_tp SQLITE) demo_auth 300 [(''client_secret'', JStr ''secret3''), (''sid'', JStr (randomString demo_rnd 0 64))]
       (demo_request [] []) (snd s2)) =
     Json 200 (JObj [(''address'', JStr ''ij@cd.ef''), (''medium'', JStr ''email''), (''validated_at'', JNum 200)])"
proof -
  obtain resp sent s1 where q: "requestToken (demo_tp SQLITE) demo_auth demo_rnd 0 100 demo_ask (demo_request [] []) (demo_st demo_pid) = (resp, sent, s1)"
    by (metis prod.exhaust)
  obtain resp2 s2 where u: "submitToken (demo_tp SQLITE) PostMethod 200 [(''client_secret'', JStr ''secret3''), (''token'', JStr (randomString demo_rnd (0 + 64) 64)),
       (''sid'', JStr (randomString demo_rnd 0 64))] s1 = (resp2, s2)" by fastforce
  have db: "te_db (demo_tp SQLITE) = mem_db SQLITE" "te_delay (demo_tp SQLITE) = None" by (simp_all add: demo_tp_def)
  have ask: "getp demo_ask ''client_secret'' = JStr ''secret3''" "getp demo_ask ''email'' = JStr ''ij@cd.ef''"
    "nullish (getp demo_ask ''next_link'')" "\<not> nullish (getp demo_ask ''send_attempt'')" by (simp_all add: demo_ask_def)
  have new: "\<not> sql_eq (getp r ''client_secret'') (JStr ''secret3'')" if "r \<in># rows_of (as_db (demo_st demo_pid)) ''mappings''" for r
    using that by (auto simp: demo_pid_facts demo_session_def demo_valid_def mapping_row_def validated_row_def sql_eq_def demo_secret_def)
  have tok: "\<not> sql_eq (getp r ''id'') (JStr (randomString demo_rnd (0 + 64) 64))" if "r \<in># rows_of (as_db (demo_st demo_pid)) ''oneTimeTokens''" for r
    using that demo_random(4) by (auto simp: demo_pid_facts token_row_def sql_eq_def)
  from session_lifecycle [OF db(1) demo_st_facts, where authenticate = demo_auth and ?now1.0 = 0 and ?now3.0 = 300 and ?s1' = s1 and ?s2' = s2
      and ?req1.0 = "demo_request [] []" and ?req2.0 = "demo_request [] []",
    OF refl ask demo_patterns(8,7) demo_random(2,3,1) new tok q refl refl _ _ refl refl _ u refl refl]
  show ?thesis unfolding q using u by (simp add: token_expiry_def db(2) validationTime_def)
qed

lemma demo_hashes: "hash_call (te_nacl (demo_tp PG)) ''sha256'' (hashed_text ''gh@cd.ef'' ''mail'' (JStr demo_pepper)) = Inr ''AQ''"
  "address_hash (te_nacl (demo_tp PG)) ''email'' ''gh@cd.ef'' demo_pepper = Inr ''_w''"
  by code_simp+

theorem bound_mail_not_found_witness:
  "\<exists>s'. snd (bind3pid (demo_tp PG) demo_auth [(''client_secret'', JStr ''secret2''), (''mxid'', JStr ''@bob:x''), (''sid'', JStr ''s2'')]
       (demo_request [] []) (demo_st demo_pid)) = s' \<and>
     add_mset [(''hash'', JStr ''AQ''), (''pepper'', JStr demo_pepper), (''type'', JStr ''mail''), (''value'', JStr ''@bob:x''), (''active'', JNum 1)]
       (rows_of demo_lookup ''hashes'') = rows_of (as_db s') ''hashes'' \<and>
   named_in (fst (lookup (mem_db PG) demo_auth 10 False [(''addresses'', JArr [JStr ''_w''])] (demo_request [] [])
     s')) ''mappings'' ''_w'' = None"
proof -
  let ?c = "[(''client_secret'', JStr ''secret2''), (''mxid'', JStr ''@bob:x''), (''sid'', JStr ''s2'')]"
  obtain resp s' where u: "bind3pid (demo_tp PG) demo_auth ?c (demo_request [] []) (demo_st demo_pid) = (resp, s')" by fastforce
  have db: "te_db (demo_tp PG) = mem_db PG" by (simp add: demo_tp_def)
  have v: "getp demo_valid ''medium'' = JStr ''email''" "getp demo_valid ''address'' = JStr ''gh@cd.ef''" "getp demo_valid ''valid'' \<noteq> JNum 0"
    by (simp_all add: demo_valid_def validated_row_def)
  have k: "key_is (rows_of (as_db (demo_st demo_pid)) ''keys'') ''pepper'' (JStr demo_pepper)" "all_hashed (rows_of (as_db (demo_st demo_pid)) ''hashes'')"
    "\<forall>r \<in># rows_of (as_db (demo_st demo_pid)) ''hashes''. getp r ''hash'' \<noteq> JStr ''_w'' \<and> getp r ''hash'' \<noteq> JStr ''AQ''"
    using demo_keys by (simp_all add: demo_pid_facts demo_lookup_facts demo_hash_row_def)
  have m: "demo_valid \<in># rows_of (as_db (demo_st demo_pid)) ''mappings''" using demo_sessions(3) by simp
  from bound_mail_not_found [OF mem_tom db, where authenticate = demo_auth and ?s1.0 = "demo_st demo_pid" and ?s2.0 = s' and ?s3.0 = s',
    OF refl demo_st_facts m demo_sessions(4) demo_patterns(2,4,6) refl v k(1,2) demo_hashes _ _ k(3) u refl refl, of 10 "[(''addresses'', JArr [JStr ''_w''])]"]
  show ?thesis using u by (auto simp: demo_pid_facts)
qed

end
