(* ===== verification/StoreInvite.thy ===== *)
theory StoreInvite
  imports ThreePid
begin

text \<open>
  Invitations of addresses nobody is known under (\<open>matrix-identity-server/src/invitation\<close>), the
  signature their tokens give (\<open>ephemeral_signing\<close>), and what is answered about the public keys of the server
  (\<open>keyManagement\<close>).  Parameters: the new key pair, \<open>isMobilePhone\<close>, the files, the network, \<open>Math.random\<close> and
  the clock.  Addresses are texts; the SMS and the mail are started and not awaited.
\<close>

section \<open>Texts\<close>

definition si_schema :: "(string \<times> bool) list" where
  "si_schema = [(''address'', False), (''phone'', False), (''medium'', True), (''room_alias'', False),
     (''room_avatar_url'', False), (''room_id'', True), (''room_join_rules'', False), (''room_name'', False),
     (''room_type'', False), (''sender'', True), (''sender_avatar_url'', False), (''sender_display_name'', False),
     (''invitation_link'', False)]"

definition si_buildSmsBody :: "string \<Rightarrow> string \<Rightarrow> string \<Rightarrow> string" where
  "si_buildSmsBody template inviter link =
     replace_name ''__invitation_link__'' link (replace_name ''__inviter__'' inviter template)"

definition si_preConfigureTemplate :: "string \<Rightarrow> string \<Rightarrow> string \<Rightarrow> string" where
  "si_preConfigureTemplate template from_addr boundary =
     replace_name ''__multipart_boundary__'' boundary (replace_name ''__from__'' from_addr template)"

definition inviteLink :: "string \<Rightarrow> string \<Rightarrow> jsval \<Rightarrow> string" where
  "inviteLink server senderId roomAlias =
     ''https://'' @ server @ ''/#/'' @ (if nullish roomAlias then senderId else js_str roomAlias)"

definition or_stars :: "jsval \<Rightarrow> string" where
  "or_stars v = (if nullish v then ''*****'' else js_str v)"

definition si_mailBody :: "string \<Rightarrow> obj \<Rightarrow> string \<Rightarrow> string \<Rightarrow> string \<Rightarrow> string \<Rightarrow> string" where
  "si_mailBody template c dst server date messageid =
     replace_name ''__link__'' (inviteLink server (js_str (getp c ''sender'')) (getp c ''room_alias''))
      (replace_name ''__room_type__'' (or_stars (getp c ''room_type''))
      (replace_name ''__room_avatar__'' (or_stars (getp c ''room_avatar_url''))
      (replace_name ''__room_name__'' (or_stars (getp c ''room_name''))
      (replace_name ''__messageid__'' messageid
      (replace_name ''__date__'' date
      (replace_name ''__inviter_name__'' (or_stars (getp c ''sender_display_name''))
      (replace_name ''__to__'' dst template)))))))"

text \<open>\<open>Math.ceil(n * 0.4)\<close>, which the rounding of the product does not change for lengths of texts.\<close>

definition redactionCount :: "nat \<Rightarrow> nat" where
  "redactionCount n = (2 * n + 4) div 5"

definition replaceLastCharacters :: "string \<Rightarrow> string" where
  "replaceLastCharacters str =
     (let n = length str
      in foldl (\<lambda>chars i. chars[i := CHR ''*'']) str [n - redactionCount n ..< n])"

text \<open>\<open>indexOf\<close> gives -1 for an address without the sign, and \<open>slice(0, -1)\<close> drops the last character.\<close>

definition redactAddress :: "string \<Rightarrow> string \<Rightarrow> string" where
  "redactAddress medium address =
     (if medium = ''email''
      then (if CHR ''@'' \<in> set address
            then replaceLastCharacters (takeWhile (\<lambda>c. c \<noteq> CHR ''@'') address) @ ''@'' @
                 replaceLastCharacters (tl (dropWhile (\<lambda>c. c \<noteq> CHR ''@'') address))
            else replaceLastCharacters (butlast address) @ ''@'' @ replaceLastCharacters address)
      else if medium = ''msisdn'' then replaceLastCharacters address
      else address)"

section \<open>Inviting\<close>

record sms_conf =
  sms_url :: "string option"
  sms_login :: "string option"
  sms_key :: "string option"

record 's si_env =
  si_db :: "'s backend"
  si_net :: network
  si_phone :: "string \<Rightarrow> bool"
  si_template :: string
  si_sms_template :: "string result"
  si_sms :: sms_conf
  si_base_url :: "string option"
  si_server :: string
  si_invitation_server :: "string option"
  si_chat_url :: "string option"
  si_pair :: "key_pair result"
  si_date :: string
  si_sign :: "string \<Rightarrow> string \<Rightarrow> string result"

definition opt_header :: "string \<Rightarrow> string option \<Rightarrow> (string \<times> string) list" where
  "opt_header k v = [(k, case v of Some t \<Rightarrow> t | None \<Rightarrow> ''undefined'')]"

text \<open>\<open>SmsService.send\<close>; its constructor throws when there is no URL.\<close>

definition sms_request :: "sms_conf \<Rightarrow> string \<Rightarrow> string \<Rightarrow> string \<Rightarrow> http_req" where
  "sms_request cf url dst msg =
     \<lparr>hq_method = ''POST'', hq_url = buildUrl url ''/sms-campaign/send'',
      hq_headers = (''Content-Type'', JSON_TYPE) # opt_header ''api-login'' (sms_login cf) @ opt_header ''api-key'' (sms_key cf),
      hq_body = str_of (JObj [(''sender'', JStr ''Twake''), (''recipients'', JArr [JObj [(''phone_number'', JStr dst)]]),
        (''text'', JStr msg), (''type'', JStr ''sms_low_cost'')])\<rparr>"

definition authorization_token :: "request \<Rightarrow> string option" where
  "authorization_token req =
     (case map_of (headers req) ''authorization'' of
        None \<Rightarrow> None
      | Some h \<Rightarrow> Some (case split_on CHR '' '' h of _ # t # _ \<Rightarrow> t | _ \<Rightarrow> ''undefined''))"

definition lookup_request :: "string \<Rightarrow> string \<Rightarrow> jsval \<Rightarrow> jsval \<Rightarrow> http_req" where
  "lookup_request base token address pepper =
     \<lparr>hq_method = ''POST'', hq_url = buildUrl base ''/_matrix/identity/v2/lookup'',
      hq_headers = [(''Authorization'', ''Bearer '' @ token), (''Accept'', JSON_TYPE), (''Content-Type'', JSON_TYPE)],
      hq_body = str_of (JObj [(''addresses'', JArr [address]), (''algorithm'', JStr ''sha256''), (''pepper'', pepper)])\<rparr>"

definition found_mappings :: "jsval \<Rightarrow> bool" where
  "found_mappings v \<longleftrightarrow> truthy v \<and> truthy (field v ''mappings'') \<and> own_props (field v ''mappings'') \<noteq> []"

definition threepid_in_use :: "jsval \<Rightarrow> response" where
  "threepid_in_use sender =
     Json 400 (JObj [(''errcode'', JStr ''M_THREEPID_IN_USE''),
       (''error'', JStr ''The third party identifier is already in use by another user.''), (''mxid'', sender)])"

definition key_obj :: "key_pair \<Rightarrow> jsval" where
  "key_obj kp = JObj [(''publicKey'', JStr (publicKey kp)), (''privateKey'', JStr (privateKey kp)), (''keyId'', JStr (keyId kp))]"

definition validity_url :: "string \<Rightarrow> string \<Rightarrow> string" where
  "validity_url server path = ''https://'' @ server @ ''/_matrix/identity/v2/pubkey'' @ path"

definition invitation_reply :: "string \<Rightarrow> string \<Rightarrow> key_pair \<Rightarrow> key_pair \<Rightarrow> string \<Rightarrow> response" where
  "invitation_reply server name keys ephemeralKey token =
     Json 200 (JObj [(''display_name'', JStr name),
       (''public_keys'', JArr
          [JObj [(''key_validity_url'', JStr (validity_url server ''/isvalid'')), (''public_key'', JStr (publicKey keys))],
           JObj [(''key_validity_url'', JStr (validity_url server ''/ephemeral/isvalid'')), (''public_key'', JStr (privateKey ephemeralKey))]]),
       (''token'', JStr token)])"

text \<open>The mail or the SMS; what throws here ends the request with an error after the token is stored.\<close>

definition announce :: "'s si_env \<Rightarrow> (nat \<Rightarrow> char) \<Rightarrow> nat \<Rightarrow> obj \<Rightarrow> string \<Rightarrow> string \<Rightarrow> 's auth_st \<Rightarrow> mail option result \<times> 's auth_st" where
  "announce env rnd pos c medium address s =
     (if medium = ''email''
      then (Inr (Some \<lparr>mail_to = address, mail_raw = si_mailBody (si_template env) c address
               (case si_invitation_server env of Some t \<Rightarrow> t | None \<Rightarrow> ''matrix.to'') (si_date env) (randomString rnd pos 32)\<rparr>), s)
      else let link = (if nullish (getp c ''invitation_link'')
                       then (case si_chat_url env of Some t \<Rightarrow> t | None \<Rightarrow> ''https://chat.twake.app'')
                       else js_str (getp c ''invitation_link''))
           in (case sms_url (si_sms env) of
                 None \<Rightarrow> (Inl (Err ''Cannot read properties of undefined''), s)
               | Some url \<Rightarrow>
                   (case si_sms_template env of
                      Inl e \<Rightarrow> (Inl e, s)
                    | Inr t \<Rightarrow> (Inr None, snd (as_fetch (si_net env)
                        (sms_request (si_sms env) url address (si_buildSmsBody t (js_str (getp c ''sender'')) link)) s)))))"

text \<open>What follows when nobody is known under the address; a key that cannot be stored leaves the request open.\<close>

definition store_invitation :: "'s si_env \<Rightarrow> (nat \<Rightarrow> char) \<Rightarrow> nat \<Rightarrow> obj \<Rightarrow> string \<Rightarrow> string \<Rightarrow> 's auth_st \<Rightarrow> 's outcome" where
  "store_invitation env rnd pos c medium address s =
     (case as_on_db (createKeypair (si_db env) True (si_pair env)) s of
        (None, s1) \<Rightarrow> (None, None, s1)
      | (Some (Inl e), s1) \<Rightarrow> (Some (unknown_error e), None, s1)
      | (Some (Inr ephemeralKey), s1) \<Rightarrow>
          (case as_on_db (createInvitationToken (si_db env) rnd pos address (put ''key'' (key_obj ephemeralKey) c)) s1 of
             (Inl e, s2) \<Rightarrow> (Some (unknown_error e), None, s2)
           | (Inr token, s2) \<Rightarrow>
               (case announce env rnd (pos + 64) c medium address s2 of
                  (Inl e, s3) \<Rightarrow> (Some (unknown_error e), None, s3)
                | (Inr sent, s3) \<Rightarrow>
                    (case as_on_db (getKeys (si_db env) ''current'') s3 of
                       (Inl e, s4) \<Rightarrow> (Some (unknown_error e), sent, s4)
                     | (Inr keys, s4) \<Rightarrow>
                         (Some (invitation_reply (si_server env) (redactAddress medium address) keys ephemeralKey token), sent, s4)))))"

definition invite_address :: "'s si_env \<Rightarrow> (nat \<Rightarrow> char) \<Rightarrow> nat \<Rightarrow> obj \<Rightarrow> string \<Rightarrow> string \<Rightarrow> request \<Rightarrow> 's auth_st \<Rightarrow> 's outcome" where
  "invite_address env rnd pos c medium address req s =
     (case authorization_token req of
        None \<Rightarrow> (Some (unknown_error (Err ''Cannot read properties of undefined'')), None, s)
      | Some token \<Rightarrow>
          (case as_on_db (db_get (si_db env) ''keys'' [''data''] (Some [(''name'', JStr ''pepper'')]) None) s of
             (Inl e, s1) \<Rightarrow> (Some (unknown_error e), None, s1)
           | (Inr [], s1) \<Rightarrow> (Some (Json 500 (errMsg ''unknown'' (Some ''No pepper found''))), None, s1)
           | (Inr (row # _), s1) \<Rightarrow>
               (case si_base_url env of
                  None \<Rightarrow> (Some (unknown_error (Err ''Cannot read properties of undefined'')), None, s1)
                | Some base \<Rightarrow>
                    (case as_fetch (si_net env) (lookup_request base token (JStr address) (getp row ''data'')) s1 of
                       (Inl e, s2) \<Rightarrow> (Some (unknown_error e), None, s2)
                     | (Inr p, s2) \<Rightarrow>
                         (case resp_json p of
                            Inl e \<Rightarrow> (Some (unknown_error e), None, s2)
                          | Inr result \<Rightarrow>
                              if hp_status p = 200 \<and> found_mappings result then (Some (threepid_in_use (getp c ''sender'')), None, s2)
                              else if hp_status p = 200 then store_invitation env rnd pos c medium address s2
                              else (Some (Json 500 (errMsg ''unknown''
                                     (Some ''Unexpected response statusCode from the /_matrix/identity/v2/lookup API''))), None, s2))))))"

text \<open>A phone number that is no text makes the validator throw, which is only logged.\<close>

definition storeInvit :: "'s si_env \<Rightarrow> 's authenticator \<Rightarrow> (nat \<Rightarrow> char) \<Rightarrow> nat \<Rightarrow> obj \<Rightarrow> request \<Rightarrow> 's auth_st \<Rightarrow> 's outcome" where
  "storeInvit env authenticate rnd pos content req s =
     (case authenticate req s of
        (Answered r, s1) \<Rightarrow> (Some r, None, s1)
      | (CalledBack _ _, s1) \<Rightarrow>
          (case validateParameters si_schema content of
             Sent status b \<Rightarrow> (Some (Json (nat status) b), None, s1)
           | Callback c \<Rightarrow>
               if getp c ''medium'' = JStr ''email'' then
                 (let address = getp c ''address'' in
                  if nullish address \<or> \<not> re_test validEmailRe (js_str address)
                  then (Some (invalid_param ''Invalid email address.''), None, s1)
                  else invite_address env rnd pos c ''email'' (js_str address) req s1)
               else if getp c ''medium'' = JStr ''msisdn'' then
                 (case getp c ''phone'' of
                    JStr phone \<Rightarrow>
                      if \<not> si_phone env phone then (Some (invalid_param ''Invalid phone number.''), None, s1)
                      else invite_address env rnd pos c ''msisdn'' phone req s1
                  | v \<Rightarrow> if nullish v then (Some (invalid_param ''Invalid phone number.''), None, s1) else (None, None, s1))
               else (Some (Json 400 (errMsg ''unrecognized'' (Some ''This medium is not supported.''))), None, s1)))"

section \<open>Signing with the key of an invitation\<close>

definition sign_schema :: "(string \<times> bool) list" where
  "sign_schema = [(''private_key'', True), (''mxid'', True), (''token'', True)]"

definition not_found_error :: "jserror \<Rightarrow> response" where
  "not_found_error e =
     Json 404 (JObj [(''errcode'', JStr ''M_NOT_FOUND''),
       (''error'', JObj (if err_code e = [] then [] else [(''code'', JStr (err_code e))]))])"

text \<open>\<open>ident\<close> is the identifier of the new key as unpadded base64.\<close>

definition signEd25519 :: "'s si_env \<Rightarrow> 's authenticator \<Rightarrow> (nat \<Rightarrow> char) \<Rightarrow> nat \<Rightarrow> string \<Rightarrow> obj \<Rightarrow> request \<Rightarrow> 's auth_st \<Rightarrow> response \<times> 's auth_st" where
  "signEd25519 env authenticate rnd pos ident content req s =
     (case authenticate req s of
        (Answered r, s1) \<Rightarrow> (r, s1)
      | (CalledBack _ _, s1) \<Rightarrow>
          (case validateParameters sign_schema content of
             Sent status b \<Rightarrow> (Json (nat status) b, s1)
           | Callback c \<Rightarrow>
               let mxid = getp c ''mxid''; token = js_str (getp c ''token'') in
               if \<not> sidRe token then (invalid_param ''invalid token'', s1)
               else if \<not> re_test mxidRe (js_str mxid) then (invalid_param ''invalid Matrix user ID'', s1)
               else (case as_on_db (verifyInvitationToken (si_db env) token) s1 of
                       (Inl e, s2) \<Rightarrow> (not_found_error e, s2)
                     | (Inr data, s2) \<Rightarrow>
                         (case read_prop data ''sender'' of
                            Inl e \<Rightarrow> (not_found_error e, s2)
                          | Inr sender \<Rightarrow>
                              (case (case getp c ''private_key'' of
                                       JStr private \<Rightarrow>
                                         signJson (si_sign env)
                                           [(''mxid'', mxid), (''sender'', sender), (''token'', JStr (randomString rnd pos 64))]
                                           private (si_server env) (''ed25519:'' @ ident)
                                     | _ \<Rightarrow> Inl (Err ''base64Url.replace is not a function'')) of
                                 Inl e \<Rightarrow> (not_found_error e, s2)
                               | Inr signed \<Rightarrow> (Json 200 (JObj signed), s2))))))"

section \<open>Public keys\<close>

definition getPubkey :: "'s backend \<Rightarrow> string \<Rightarrow> 's \<Rightarrow> response \<times> 's" where
  "getPubkey d keyID s =
     (case db_get d ''shortTermKeypairs'' [''public''] (Some [(''keyID'', JStr keyID)]) None s of
        (Inl e, s1) \<Rightarrow> (unknown_error e, s1)
      | (Inr [row], s1) \<Rightarrow> (Json 200 (JObj [(''public_key'', getp row ''public'')]), s1)
      | (Inr _, s1) \<Rightarrow>
          (case db_get d ''longTermKeypairs'' [''public''] (Some [(''keyID'', JStr keyID)]) None s1 of
             (Inl e, s2) \<Rightarrow> (unknown_error e, s2)
           | (Inr [], s2) \<Rightarrow> (Json 404 (errMsg ''notFound'' (Some ''The public key was not found'')), s2)
           | (Inr (row # _), s2) \<Rightarrow> (Json 200 (JObj [(''public_key'', getp row ''public'')]), s2)))"

definition validity :: "bool \<Rightarrow> response" where
  "validity b = Json 200 (JObj [(''valid'', JBool b)])"

definition isPubkeyValid :: "'s backend \<Rightarrow> request \<Rightarrow> 's \<Rightarrow> response \<times> 's" where
  "isPubkeyValid d req s =
     (case map_of (query req) ''public_key'' of
        Some (c # cs) \<Rightarrow>
          (case db_get d ''longTermKeypairs'' [''public''] (Some [(''public'', JStr (c # cs))]) None s of
             (Inl e, s1) \<Rightarrow> (unknown_error e, s1)
           | (Inr rows, s1) \<Rightarrow> (validity (rows \<noteq> []), s1))
      | _ \<Rightarrow> (Json 400 (errMsg ''missingParams'' None), s))"

definition isEphemeralPubkeyValid :: "'s backend \<Rightarrow> request \<Rightarrow> 's \<Rightarrow> response \<times> 's" where
  "isEphemeralPubkeyValid d req s =
     (case map_of (query req) ''public_key'' of
        Some (c # cs) \<Rightarrow>
          (case db_get d ''shortTermKeypairs'' [''public''] (Some [(''public'', JStr (c # cs))]) None s of
             (Inl e, s1) \<Rightarrow> (unknown_error e, s1)
           | (Inr rows, s1) \<Rightarrow> (validity (rows \<noteq> []), s1))
      | _ \<Rightarrow> (Json 400 (errMsg ''missingParams'' None), s))"

text \<open>The change of the long-term key (\<open>updateKey.ts\<close>); every failure is only logged.\<close>

definition edKeyRe :: "string \<Rightarrow> bool" where
  "edKeyRe s \<longleftrightarrow>
     starts_with s ''ed25519:'' \<and> drop 8 s \<noteq> [] \<and> list_all (in_cls ((CHR ''-'', CHR ''-'') # word_cls)) (drop 8 s)"

definition updateKey :: "'s backend \<Rightarrow> key_pair \<Rightarrow> 's \<Rightarrow> 's" where
  "updateKey d newKey s =
     (case db_get d ''longTermKeypairs'' [''keyID''] (Some [(''name'', JStr ''previousKey'')]) None s of
        (Inr (prev # _), s1) \<Rightarrow>
          if \<not> edKeyRe (js_str (getp prev ''keyID'')) then s1
          else (case db_get d ''longTermKeypairs'' [''keyID'', ''public'', ''private''] (Some [(''name'', JStr ''currentKey'')]) None s1 of
                  (Inr (cur # _), s2) \<Rightarrow>
                    (case db_update d ''longTermKeypairs''
                            [(''keyID'', getp cur ''keyID''), (''public'', getp cur ''public''), (''private'', getp cur ''private'')]
                            ''name'' (JStr ''previousKey'') s2 of
                       (Inl _, s3) \<Rightarrow> s3
                     | (Inr _, s3) \<Rightarrow>
                         snd (db_update d ''longTermKeypairs''
                                [(''keyID'', JStr (keyId newKey)), (''public'', JStr (publicKey newKey)), (''private'', JStr (privateKey newKey))]
                                ''name'' (JStr ''currentKey'') s3))
                | (_, s2) \<Rightarrow> s2)
      | (_, s1) \<Rightarrow> s1)"

section \<open>What the tables give\<close>

definition short_cols :: "string list" where
  "short_cols = [''keyID'', ''public'', ''private'', ''active'']"

definition invite_row :: "string \<Rightarrow> string \<Rightarrow> obj \<Rightarrow> obj" where
  "invite_row tok address data = [(''id'', JStr tok), (''address'', JStr address), (''data'', JStr (str_of (JObj data)))]"

locale invite_table = session_table +
  assumes short: "schema ''shortTermKeypairs'' = short_cols"
    and invite_key: "key ''invitationTokens'' = [''id'']" and long_key: "key ''longTermKeypairs'' = [''name'']"
begin

lemma token_stored:
  assumes "wf s" "healthy s" "\<And>r. r \<in># tab s ''invitationTokens'' \<Longrightarrow> \<not> sql_eq (getp r ''id'') (JStr (randomString rnd pos 64))"
    "createInvitationToken d rnd pos address data s = (r, s')"
  shows "r = Inr (randomString rnd pos 64) \<and> wf s' \<and> healthy s' \<and> tab s' = (tab s)(''invitationTokens'' :=
    add_mset (invite_row (randomString rnd pos 64) address data) (tab s ''invitationTokens''))"
proof -
  let ?vs = "[(''id'', JStr (randomString rnd pos 64)), (''address'', JStr address), (''data'', JStr (str_of (JObj data)))]"
  obtain q x where q: "db_insert d ''invitationTokens'' ?vs s = (q, x)" by fastforce
  have c: "schema ''invitationTokens'' \<noteq> []" "?vs \<noteq> []" "set (map fst ?vs) \<subseteq> set (schema ''invitationTokens'')"
    by (auto simp: others)
  have row: "complete (schema ''invitationTokens'') (stored_obj ?vs) = invite_row (randomString rnd pos 64) address data"
    by (simp add: others complete_def stored_obj_def stored_def invite_row_def)
  have "getp (invite_row (randomString rnd pos 64) address data) ''id'' = JStr (randomString rnd pos 64)" by (simp add: invite_row_def)
  then show ?thesis
    using insert_law [OF assms(1) c q, unfolded row] assms(2-4) q
    by (cases q) (auto simp: createInvitationToken_def Let_def invite_key)
qed

lemma keys_read:
  assumes "wf s" "healthy s" "tab s ''longTermKeypairs'' \<noteq> {#}" "getKeys d type s = (r, s')"
  shows "\<exists>kp. r = Inr kp \<and> wf s' \<and> healthy s' \<and> tab s' = tab s"
proof -
  let ?fs = "[''keyID'', ''public'', ''private'']"
  obtain q x where g: "db_get d ''longTermKeypairs'' ?fs None None s = (q, x)" by fastforce
  have c: "schema ''longTermKeypairs'' \<noteq> []" "?fs = [''*''] \<or> set ?fs \<subseteq> set (schema ''longTermKeypairs'')"
    by (simp_all add: others long_term_cols_def)
  obtain rs where rs: "q = Inr rs" using get_all_Inl [OF _ assms(1) c] g assms(2) by (cases q) auto
  note gl = get_all_Inr [OF g [unfolded rs] assms(1) c]
  have "mset rs = {# project ?fs r. r \<in># tab s ''longTermKeypairs'' #}" using gl by blast
  then obtain row rest where "rs = row # rest" using assms(3) by (cases rs) auto
  then show ?thesis using gl g rs assms(2,4) by (auto simp: getKeys_def getAll_def Let_def)
qed

lemma short_absent:
  assumes "wf s" "healthy s" "k \<noteq> []" "\<And>r. r \<in># tab s ''shortTermKeypairs'' \<Longrightarrow> \<not> sql_eq (getp r ''public'') (JStr k)"
    "map_of (query req) ''public_key'' = Some k"
  shows "fst (isEphemeralPubkeyValid d req s) = validity False"
proof -
  obtain q x where g: "db_get d ''shortTermKeypairs'' [''public''] (Some [(''public'', JStr k)]) None s = (q, x)" by fastforce
  have c: "''public'' \<in> set (schema ''shortTermKeypairs'')" "[''public''] = [''*''] \<or> set [''public''] \<subseteq> set (schema ''shortTermKeypairs'')"
    by (simp_all add: short short_cols_def)
  obtain rs where rs: "q = Inr rs" using get_one_Inl [OF _ assms(1) c] g assms(2) by (cases q) auto
  have "{# r \<in># tab s ''shortTermKeypairs''. matches [(''public'', JStr k)] r #} = {#}"
    using assms(3,4) by (auto simp: matches_one filter_mset_eq_conv)
  then have "mset rs = {#}" using get_one_Inr [OF g [unfolded rs] assms(1) c] by simp
  then show ?thesis using g rs assms(3,5) by (cases k) (auto simp: isEphemeralPubkeyValid_def)
qed

text \<open>Nobody has the asked text as a hash: the answer is empty.\<close>

lemma lookup_nobody:
  assumes "wf (as_db s1)" "healthy (as_db s1)" "all_hashed (tab (as_db s1) ''hashes'')" "authenticate req s = (CalledBack c t, s1)"
    "a \<noteq> []" "1 \<le> limit" "\<forall>r \<in># tab (as_db s1) ''hashes''. getp r ''hash'' \<noteq> JStr a" "getp content ''addresses'' = JArr [JStr a]"
  shows "fst (lookup d authenticate limit False content req s) = Json 200 (JObj [(''mappings'', JObj [])])"
proof -
  let ?fs = "[''value'', ''hash'', ''active'']"
  obtain r x where g: "db_get d ''hashes'' ?fs (Some [(''hash'', JArr (map JStr [a]))]) None (as_db s1) = (r, x)" by fastforce
  from read_hashes [OF assms(1) g] assms(2) obtain rs where rs: "r = Inr rs"
    "mset rs = {# project ?fs x. x \<in># {# x \<in># tab (as_db s1) ''hashes''. join '','' [a] = [] \<or> (\<exists>h \<in> set [a]. sql_eq (getp x ''hash'') (JStr h)) #} #}"
    by auto
  have "\<not> sql_eq (getp x ''hash'') (JStr a)" if "x \<in># tab (as_db s1) ''hashes''" for x
    using that assms(3,7) unfolding all_hashed_def by (auto simp: sql_eq_def)
  then have none: "{# x \<in># tab (as_db s1) ''hashes''. join '','' [a] = [] \<or> (\<exists>h \<in> set [a]. sql_eq (getp x ''hash'') (JStr h)) #} = {#}"
    using assms(5) by (auto simp: filter_mset_eq_conv)
  have "rs = []" using rs(2) unfolding none by simp
  then show ?thesis
    using g rs(1) assms(4,6,8)
    by (auto simp: lookup_def validateParameters_def missing_params_def lookup_schema_def addresses_ok_def is_text_def
        as_on_db_def Let_def lookup_reply_def hash_record_def)
qed

text \<open>A mail address nobody is known under is invited.\<close>

lemma invited:
  assumes "wf (as_db s1)" "healthy (as_db s1)" "si_db env = d" "authenticate req s = (CalledBack c t, s1)"
    "getp content ''medium'' = JStr ''email''" "getp content ''address'' = JStr a" "re_test validEmailRe a"
    "\<not> nullish (getp content ''room_id'')" "\<not> nullish (getp content ''sender'')"
    "authorization_token req = Some tok" "si_base_url env = Some base" "key_is (tab (as_db s1) ''keys'') ''pepper'' p"
    "si_net env (as_log s1) (lookup_request base tok (JStr a) p) = Inr answer" "hp_status answer = 200"
    "resp_json answer = Inr v" "\<not> found_mappings v" "si_pair env = Inr kp"
    "\<And>r. r \<in># tab (as_db s1) ''invitationTokens'' \<Longrightarrow> \<not> sql_eq (getp r ''id'') (JStr (randomString rnd pos 64))"
    "storeInvit env authenticate rnd pos content req s = (resp, sent, s')"
  shows "(\<exists>keys. resp = Some (invitation_reply (si_server env) (redactAddress ''email'' a) keys kp (randomString rnd pos 64))) \<and>
    wf (as_db s') \<and> healthy (as_db s') \<and>
    tab (as_db s') = (tab (as_db s1))(''longTermKeypairs'' := add_mset (pair_row kp) (rotated (tab (as_db s1) ''longTermKeypairs'')),
      ''invitationTokens'' := add_mset (invite_row (randomString rnd pos 64) a (put ''key'' (key_obj kp) content)) (tab (as_db s1) ''invitationTokens''))"
proof -
  have v: "validateParameters si_schema content = Callback content"
    using assms(5,8,9) by (simp add: validateParameters_def missing_params_def si_schema_def)
  obtain r1 x1 where k: "db_get d ''keys'' [''data''] (Some [(''name'', JStr ''pepper'')]) None (as_db s1) = (r1, x1)" by fastforce
  have x1: "r1 = Inr [[(''data'', p)]]" "wf x1" "healthy x1" "tab x1 = tab (as_db s1)"
    using read_key [OF assms(1,2,12) _ k] by simp_all
  obtain r2 x2 where c2: "createKeypair d True (Inr kp) x1 = (r2, x2)" by fastforce
  have x2: "r2 = Some (Inr kp)" "wf x2" "healthy x2" "tab x2 = (tab x1)(''longTermKeypairs'' := add_mset (pair_row kp) (rotated (tab x1 ''longTermKeypairs'')))"
    using create_long_term [OF x1(2,3) others(2) long_key c2] by simp_all
  obtain r3 x3 where c3: "createInvitationToken d rnd pos a (put ''key'' (key_obj kp) content) x2 = (r3, x3)" by fastforce
  have x3: "r3 = Inr (randomString rnd pos 64)" "wf x3" "healthy x3" "tab x3 = (tab x2)(''invitationTokens'' :=
      add_mset (invite_row (randomString rnd pos 64) a (put ''key'' (key_obj kp) content)) (tab x2 ''invitationTokens''))"
    using token_stored [OF x2(2,3) _ c3] assms(18) x2(4) x1(4) by simp_all
  obtain r4 x4 where c4: "getKeys d ''current'' x3 = (r4, x4)" by fastforce
  have "tab x3 ''longTermKeypairs'' \<noteq> {#}" using x3(4) x2(4) by simp
  then obtain keys where x4: "r4 = Inr keys" "wf x4" "healthy x4" "tab x4 = tab x3"
    using keys_read [OF x3(2,3) _ c4] by blast
  have p: "getp [(''data'', p)] ''data'' = p" by simp
  have "resp = Some (invitation_reply (si_server env) (redactAddress ''email'' a) keys kp (randomString rnd pos 64))" "as_db s' = x4"
    using assms(3-7,10,11,13-17,19) v k x1(1) c2 x2(1) c3 x3(1) c4 x4(1)
    by (auto simp: storeInvit_def invite_address_def store_invitation_def announce_def as_on_db_def as_fetch_def http_fetch_def Let_def)
  then show ?thesis using x4 x3(4) x2(4) x1(4) by (auto simp: fun_upd_def)
qed

end

lemma tom_invite_tables: "schema_of tom_tables ''shortTermKeypairs'' = short_cols" "key_of tom_tables ''invitationTokens'' = [''id'']"
  unfolding tom_schema tom_key by code_simp+

lemma tom_invite_table:
  "tom_database d ok healthy tab \<Longrightarrow> invite_table d ok healthy tab (schema_of tom_tables) (key_of tom_tables)"
  by (intro invite_table.intro invite_table_axioms.intro tom_sessions3) (simp_all add: tom_invite_tables tom_key_pairs)

interpretation invite_store: invite_table "mem_db dia" "store_wf tom_tables" store_healthy rows_of
    "schema_of tom_tables" "key_of tom_tables"
  for dia
  by (rule tom_invite_table [OF mem_tom])

section \<open>Redaction\<close>

lemma foldl_stars:
  "a \<le> b \<Longrightarrow> b \<le> length s \<Longrightarrow>
   foldl (\<lambda>cs i. cs[i := CHR ''*'']) s [a ..< b] = take a s @ replicate (b - a) CHR ''*'' @ drop b s"
proof (induction b)
  case (Suc b)
  show ?case
  proof (cases "a \<le> b")
    case True
    with Suc have "foldl (\<lambda>cs i. cs[i := CHR ''*'']) s [a ..< b] = take a s @ replicate (b - a) CHR ''*'' @ drop b s" by simp
    moreover have "drop b s = s ! b # drop (Suc b) s" using Suc.prems by (simp add: Cons_nth_drop_Suc)
    moreover have "replicate (Suc b - a) CHR ''*'' = replicate (b - a) CHR ''*'' @ [CHR ''*'']"
      using True by (simp add: Suc_diff_le replicate_append_same)
    ultimately show ?thesis using True Suc.prems by (simp add: list_update_append min_def)
  next
    case False
    with Suc.prems have "a = Suc b" by simp
    then show ?thesis by simp
  qed
qed simp

lemma replaceLast_eq:
  "replaceLastCharacters s = take (3 * length s div 5) s @ replicate (length s - 3 * length s div 5) CHR ''*''"
proof -
  have n: "length s - redactionCount (length s) = 3 * length s div 5" by (simp add: redactionCount_def)
  have "3 * length s div 5 \<le> length s" by simp
  then show ?thesis unfolding replaceLastCharacters_def Let_def n by (simp add: foldl_stars)
qed

section \<open>Properties\<close>

text \<open>
  C38: The answer to an invitation reveals the first three fifths of the name and of the domain of the
  invited address at most, and its length: every other character of them is a star.
\<close>

theorem redacted_address:
  assumes "CHR ''@'' \<notin> set name"
  shows "redactAddress ''email'' (name @ ''@'' @ host) =
    take (3 * length name div 5) name @ replicate (length name - 3 * length name div 5) CHR ''*'' @ ''@'' @
    take (3 * length host div 5) host @ replicate (length host - 3 * length host div 5) CHR ''*''"
proof -
  have nm: "c \<noteq> CHR ''@''" if "c \<in> set name" for c using assms that by auto
  have "takeWhile (\<lambda>c. c \<noteq> CHR ''@'') (name @ ''@'' @ host) = name" "dropWhile (\<lambda>c. c \<noteq> CHR ''@'') (name @ ''@'' @ host) = ''@'' @ host"
    using nm by (simp_all add: takeWhile_append2 dropWhile_append2)
  then show ?thesis by (simp add: redactAddress_def replaceLast_eq)
qed

text \<open>
  C3: Whoever invites a mail address that is not known becomes the holder of the private key with which the
  server signs from then on: the key made for the invitation replaces the current long-term key,
  and its private half is sent in the place of a public key.  The endpoint that the answer names
  for it does not know that key.
\<close>

theorem invitation_reveals_private_key:
  assumes "tom_database d ok healthy tab" "si_db env = d" "authenticate req s = (CalledBack c t, s1)" "ok (as_db s1)" "healthy (as_db s1)"
    "getp content ''medium'' = JStr ''email''" "getp content ''address'' = JStr a" "re_test validEmailRe a"
    "\<not> nullish (getp content ''room_id'')" "\<not> nullish (getp content ''sender'')"
    "authorization_token req = Some tok" "si_base_url env = Some base" "key_is (tab (as_db s1) ''keys'') ''pepper'' p"
    "si_net env (as_log s1) (lookup_request base tok (JStr a) p) = Inr answer" "hp_status answer = 200"
    "resp_json answer = Inr v" "\<not> found_mappings v" "si_pair env = Inr kp"
    "\<And>r. r \<in># tab (as_db s1) ''invitationTokens'' \<Longrightarrow> \<not> sql_eq (getp r ''id'') (JStr (randomString rnd pos 64))"
    "storeInvit env authenticate rnd pos content req s = (resp, sent, s')"
    "privateKey kp \<noteq> []" "\<And>r. r \<in># tab (as_db s1) ''shortTermKeypairs'' \<Longrightarrow> \<not> sql_eq (getp r ''public'') (JStr (privateKey kp))"
    "map_of (query req2) ''public_key'' = Some (privateKey kp)"
  shows "(\<exists>name first url token. resp = Some (Json 200 (JObj [(''display_name'', JStr name),
      (''public_keys'', JArr [first, JObj [(''key_validity_url'', JStr url), (''public_key'', JStr (privateKey kp))]]), (''token'', token)]))) \<and>
    {# r \<in># tab (as_db s') ''longTermKeypairs''. named ''currentKey'' r #} = {#pair_row kp#} \<and>
    fst (isEphemeralPubkeyValid d req2 (as_db s')) = validity False"
proof -
  note it = tom_invite_table [OF assms(1)]
  note iv = invite_table.invited [OF it, OF assms(4,5,2,3,6-20)]
  have w: "ok (as_db s')" "healthy (as_db s')" using iv by auto
  have cur: "{# r \<in># tab (as_db s') ''longTermKeypairs''. sql_eq (getp r ''name'') (JStr ''currentKey'') #} = {#pair_row kp#}"
    using iv by (intro table_db.key_unique_rows [OF assms(1) w(1) tom_key_pairs]) (simp_all add: pair_row_def sql_eq_def)
  have "fst (isEphemeralPubkeyValid d req2 (as_db s')) = validity False"
    using invite_table.short_absent [OF it, OF w assms(21) _ assms(23)] assms(22) iv by simp
  then show ?thesis using iv cur by (auto simp: invitation_reply_def named_def)
qed

text \<open>
  The address is looked up as it is and not as its hash: when the lookup at the base URL is the
  one of this server over the same tables, a mail address is invited although its owner is known,
  unless some hash equals the address itself.
\<close>

theorem registered_address_invited:
  assumes "tom_database d ok healthy tab" "si_db env = d" "authenticate req s = (CalledBack c t, s1)" "ok (as_db s1)" "healthy (as_db s1)"
    "getp content ''medium'' = JStr ''email''" "getp content ''address'' = JStr a" "re_test validEmailRe a"
    "\<not> nullish (getp content ''room_id'')" "\<not> nullish (getp content ''sender'')"
    "authorization_token req = Some tok" "si_base_url env = Some base" "key_is (tab (as_db s1) ''keys'') ''pepper'' p"
    "fst (lookup d authenticate limit False [(''addresses'', JArr [JStr a]), (''algorithm'', JStr ''sha256''), (''pepper'', p)] req2 s2) = Json 200 b"
    "si_net env (as_log s1) (lookup_request base tok (JStr a) p) = Inr \<lparr>hp_status = 200, hp_headers = hs, hp_body = str_of b\<rparr>"
    "authenticate req2 s2 = (CalledBack c2 t2, s3)" "as_db s3 = as_db s1" "1 \<le> limit"
    "all_hashed (tab (as_db s1) ''hashes'')" "\<forall>r \<in># tab (as_db s1) ''hashes''. getp r ''hash'' \<noteq> JStr a"
    "si_pair env = Inr kp"
    "\<And>r. r \<in># tab (as_db s1) ''invitationTokens'' \<Longrightarrow> \<not> sql_eq (getp r ''id'') (JStr (randomString rnd pos 64))"
    "storeInvit env authenticate rnd pos content req s = (resp, sent, s')"
  shows "\<exists>keys. resp = Some (invitation_reply (si_server env) (redactAddress ''email'' a) keys kp (randomString rnd pos 64))"
proof -
  note it = tom_invite_table [OF assms(1)]
  have "a \<noteq> []" using assms(8) by (cases a) (simp_all, code_simp)
  moreover have "ok (as_db s3)" "healthy (as_db s3)" "all_hashed (tab (as_db s3) ''hashes'')" "\<forall>r \<in># tab (as_db s3) ''hashes''. getp r ''hash'' \<noteq> JStr a"
    using assms(4,5,17,19,20) by simp_all
  ultimately have b: "b = JObj [(''mappings'', JObj [])]"
    using invite_table.lookup_nobody [OF it, where authenticate = authenticate and ?s1.0 = s3 and a = a, OF _ _ _ assms(16) _ assms(18)] assms(14) by simp
  have "json_parse (str_of (JObj [(''mappings'', JObj [])])) = Inr (JObj [(''mappings'', JObj [])])" by code_simp
  then have j: "resp_json \<lparr>hp_status = 200, hp_headers = hs, hp_body = str_of b\<rparr> = Inr (JObj [(''mappings'', JObj [])])"
    by (simp add: resp_json_def b)
  have n: "\<not> found_mappings (JObj [(''mappings'', JObj [])])" by code_simp
  show ?thesis
    using invite_table.invited [OF it, OF assms(4,5,2,3,6-13,15) _ j n assms(21,22,23)] by simp
qed

section \<open>Witnesses\<close>

theorem redacted_address_witness:
  "redactAddress ''email'' (''alice'' @ ''@'' @ ''example.org'') = ''ali**@exampl*****''"
  by (subst redacted_address [of "''alice''"], simp, code_simp)

definition demo_key :: key_pair where
  "demo_key = \<lparr>publicKey = ''pub'', privateKey = ''priv'', keyId = ''curve25519:1''\<rparr>"

definition nobody :: string where
  "nobody = str_of (JObj [(''mappings'', JObj [])])"

definition demo_si :: "dialect \<Rightarrow> store si_env" where
  "demo_si dia = \<lparr>si_db = mem_db dia, si_net = (\<lambda>_ _. Inr \<lparr>hp_status = 200, hp_headers = [], hp_body = nobody\<rparr>),
     si_phone = (\<lambda>_. True), si_template = ''__link__'', si_sms_template = Inr [], si_sms = \<lparr>sms_url = None, sms_login = None, sms_key = None\<rparr>,
     si_base_url = Some ''https://b'', si_server = ''x'', si_invitation_server = None, si_chat_url = None, si_pair = Inr demo_key,
     si_date = ''now'', si_sign = (\<lambda>_ _. Inr ''sig'')\<rparr>"

definition demo_invitee :: obj where
  "demo_invitee = [(''medium'', JStr ''email''), (''address'', JStr ''gh@cd.ef''), (''room_id'', JStr ''!r:x''), (''sender'', JStr ''@eve:x'')]"

abbreviation "demo_sender \<equiv> demo_request [] [(''authorization'', ''Bearer t'')]"

lemma demo_invitee_facts: "getp demo_invitee ''medium'' = JStr ''email''" "getp demo_invitee ''address'' = JStr ''gh@cd.ef''"
  "re_test validEmailRe ''gh@cd.ef''" "\<not> nullish (getp demo_invitee ''room_id'')" "\<not> nullish (getp demo_invitee ''sender'')"
  "authorization_token demo_sender = Some ''t''" "si_base_url (demo_si PG) = Some ''https://b''"
  by code_simp+

lemma demo_si_facts: "si_db (demo_si dia) = mem_db dia" "si_pair (demo_si dia) = Inr demo_key"
  "si_net (demo_si dia) log q = Inr \<lparr>hp_status = 200, hp_headers = [], hp_body = nobody\<rparr>" "si_base_url (demo_si dia) = Some ''https://b''"
  by (simp_all add: demo_si_def)

lemma demo_si_tables: "key_is (rows_of (as_db (demo_st demo_pid)) ''keys'') ''pepper'' (JStr demo_pepper)"
  "r \<in># rows_of (as_db (demo_st demo_pid)) ''invitationTokens'' \<Longrightarrow> \<not> sql_eq (getp r ''id'') (JStr tok)"
  "r \<in># rows_of (as_db (demo_st demo_pid)) ''shortTermKeypairs'' \<Longrightarrow> \<not> sql_eq (getp r ''public'') (JStr k)"
  "all_hashed (rows_of (as_db (demo_st demo_pid)) ''hashes'')"
  "\<forall>r \<in># rows_of (as_db (demo_st demo_pid)) ''hashes''. getp r ''hash'' \<noteq> JStr ''gh@cd.ef''"
  using demo_keys by (simp_all add: demo_pid_facts demo_lookup_facts demo_hash_row_def)

lemma demo_nobody: "hp_status \<lparr>hp_status = 200, hp_headers = [], hp_body = nobody\<rparr> = 200"
  "resp_json \<lparr>hp_status = 200, hp_headers = [], hp_body = nobody\<rparr> = Inr (JObj [(''mappings'', JObj [])])"
  "\<not> found_mappings (JObj [(''mappings'', JObj [])])"
  by code_simp+

theorem invitation_reveals_private_key_witness:
  "{# r \<in># rows_of (as_db (snd (snd (storeInvit (demo_si PG) demo_auth demo_rnd 0 demo_invitee demo_sender (demo_st demo_pid)))))
      ''longTermKeypairs''. named ''currentKey'' r #} = {#pair_row demo_key#}"
proof -
  obtain resp sent s' where i: "storeInvit (demo_si PG) demo_auth demo_rnd 0 demo_invitee demo_sender (demo_st demo_pid) = (resp, sent, s')"
    by (metis prod.exhaust)
  have k: "privateKey demo_key \<noteq> []" "map_of (query (demo_request [(''public_key'', privateKey demo_key)] [])) ''public_key'' = Some (privateKey demo_key)"
    by (simp_all add: demo_key_def demo_request_def)
  note f = demo_invitee_facts
  from invitation_reveals_private_key [OF mem_tom demo_si_facts(1), where authenticate = demo_auth and ?s1.0 = "demo_st demo_pid",
    OF refl demo_st_facts f(1-6) demo_si_facts(4) demo_si_tables(1) demo_si_facts(3) demo_nobody demo_si_facts(2) demo_si_tables(2) i k(1) demo_si_tables(3) k(2)]
  show ?thesis using i by simp
qed

theorem registered_address_invited_witness:
  "\<exists>keys. fst (storeInvit (demo_si PG) demo_auth demo_rnd 0 demo_invitee demo_sender (demo_st demo_pid)) =
     Some (invitation_reply (si_server (demo_si PG)) (redactAddress ''email'' ''gh@cd.ef'') keys demo_key (randomString demo_rnd 0 64))"
proof -
  obtain resp sent s' where i: "storeInvit (demo_si PG) demo_auth demo_rnd 0 demo_invitee demo_sender (demo_st demo_pid) = (resp, sent, s')"
    by (metis prod.exhaust)
  note f = demo_invitee_facts
  have l: "fst (lookup (mem_db PG) demo_auth 10 False [(''addresses'', JArr [JStr ''gh@cd.ef'']), (''algorithm'', JStr ''sha256''), (''pepper'', JStr demo_pepper)]
      demo_sender (demo_st demo_pid)) = Json 200 (JObj [(''mappings'', JObj [])])" by code_simp
  have n: "si_net (demo_si PG) (as_log (demo_st demo_pid)) (lookup_request ''https://b'' ''t'' (JStr ''gh@cd.ef'') (JStr demo_pepper)) =
      Inr \<lparr>hp_status = 200, hp_headers = [], hp_body = str_of (JObj [(''mappings'', JObj [])])\<rparr>"
    by (simp add: demo_si_def nobody_def)
  from registered_address_invited [OF mem_tom demo_si_facts(1), where authenticate = demo_auth and ?s1.0 = "demo_st demo_pid" and ?s3.0 = "demo_st demo_pid",
    OF refl demo_st_facts f(1-6) demo_si_facts(4) demo_si_tables(1) l n refl refl _ demo_si_tables(4,5) demo_si_facts(2) demo_si_tables(2) i]
  show ?thesis using i by simp
qed

end
