(* ===== verification/Search.thy ===== *)
theory Search
  imports UserInfo Express MatrixIds "HOL-Library.Sublist"
begin

text \<open>
  The search in the user registry (\<open>tom-server/src/identity-server/lookup/_search.ts\<close>,
  \<open>autocompletion.ts\<close>): three sources, the profiles of the Matrix server, the viewer's address book
  (\<open>Addressbook\<close>) and the directory, joined, sorted, cut to a page and completed with what the user
  information service (\<open>UserInfo\<close>) shows the viewer.  The answers of the Matrix database and of the
  directory to the predicate are parameters.  Nothing checks the types of the query, so that the
  predicate, the limit and the offset are whatever the client sent.
\<close>

record 's se_env =
  se_ui :: "'s ui_env"
  se_profiles :: "jsval \<Rightarrow> obj list result"
  se_people :: "jsval \<Rightarrow> obj list result"
  se_directory_enabled :: bool
  se_additional :: bool
  se_server :: string

section \<open>The sources\<close>

text \<open>A user identifier as a Matrix identifier; what cannot be one becomes the empty text.\<close>

definition as_mxid :: "string \<Rightarrow> jsval \<Rightarrow> string" where
  "as_mxid server v =
     (case v of
        JStr u \<Rightarrow> if isMatrixId u then u else (case toMatrixId u server of Inl _ \<Rightarrow> [] | Inr i \<Rightarrow> i)
      | _ \<Rightarrow> [])"

definition mxids_of :: "string \<Rightarrow> string \<Rightarrow> obj list \<Rightarrow> string list" where
  "mxids_of server col rows =
     filter (\<lambda>i. i \<noteq> []) (map (\<lambda>r. as_mxid server (getp r col)) (filter (\<lambda>r. truthy (getp r col)) rows))"

text \<open>\<open>!predicate || predicate.length <= 0\<close>\<close>

definition no_predicate :: "jsval \<Rightarrow> bool" where
  "no_predicate v \<longleftrightarrow> \<not> truthy v \<or>
     (case v of
        JArr xs \<Rightarrow> xs = []
      | JObj ps \<Rightarrow> (case getp ps ''length'' of JNum n \<Rightarrow> n \<le> 0 | JBool b \<Rightarrow> \<not> b | Null \<Rightarrow> True | _ \<Rightarrow> False)
      | _ \<Rightarrow> False)"

definition matrixDbPromise :: "'s se_env \<Rightarrow> jsval \<Rightarrow> string list result" where
  "matrixDbPromise env predicate =
     (if \<not> se_directory_enabled env \<or> no_predicate predicate then Inr []
      else case se_profiles env predicate of Inl e \<Rightarrow> Inl e | Inr rows \<Rightarrow> Inr (mxids_of (se_server env) ''user_id'' rows))"

definition userDbPromise :: "'s se_env \<Rightarrow> jsval \<Rightarrow> string list result" where
  "userDbPromise env predicate =
     (if \<not> se_additional env \<or> no_predicate predicate then Inr []
      else case se_people env predicate of Inl e \<Rightarrow> Inl e | Inr rows \<Rightarrow> Inr (mxids_of (se_server env) ''uid'' rows))"

text \<open>A contact without a text as its name has no \<open>includes\<close>, and the whole source fails.\<close>

definition contact_matches :: "string \<Rightarrow> obj \<Rightarrow> bool result" where
  "contact_matches predicate c =
     (case getp c ''mxid'' of
        JStr m \<Rightarrow>
          if m = [] \<or> \<not> isMatrixId m then Inr False
          else if contains m predicate then Inr True
          else (case getp c ''display_name'' of
                  JStr n \<Rightarrow> Inr (contains n predicate)
                | v \<Rightarrow> Inl (Err ''c.display_name.includes is not a function''))
      | _ \<Rightarrow> Inr False)"

fun matching_contacts :: "string \<Rightarrow> obj list \<Rightarrow> string list result" where
  "matching_contacts predicate [] = Inr []"
| "matching_contacts predicate (c # cs) =
     (case contact_matches predicate c of
        Inl e \<Rightarrow> Inl e
      | Inr b \<Rightarrow>
          (case matching_contacts predicate cs of
             Inl e \<Rightarrow> Inl e
           | Inr ms \<Rightarrow> Inr (if b then js_str (getp c ''mxid'') # ms else ms)))"

definition addressbookPromise :: "'s se_env \<Rightarrow> string \<Rightarrow> jsval \<Rightarrow> 's svc \<Rightarrow> string list result \<times> 's svc" where
  "addressbookPromise env owner predicate s =
     (if no_predicate predicate \<or> owner = [] then (Inr [], s)
      else case list_book (ui_ab (se_ui env)) owner False s of
             (l, s1) \<Rightarrow> (matching_contacts (js_str predicate) (al_contacts l), s1))"

section \<open>Completing\<close>

definition or_else :: "jsval \<Rightarrow> jsval \<Rightarrow> jsval" where
  "or_else v d = (if truthy v then v else d)"

text \<open>\<open>xs?.at(0)\<close>\<close>

definition at_zero :: "jsval \<Rightarrow> jsval" where
  "at_zero v = (case v of JArr (x # _) \<Rightarrow> x | _ \<Rightarrow> Undef)"

definition enriched :: "string \<Rightarrow> obj \<Rightarrow> obj" where
  "enriched mxid info =
     (let t = (\<lambda>k. or_else (getp info k) (JStr [])) in
      [(''address'', JStr mxid), (''uid'', JStr mxid), (''display_name'', t ''display_name''),
       (''displayName'', t ''display_name''), (''cn'', t ''display_name''), (''sn'', t ''sn''), (''avatar_url'', t ''avatar_url''),
       (''last_name'', t ''last_name''), (''first_name'', t ''first_name''), (''givenName'', t ''first_name''),
       (''givenname'', t ''first_name''),
       (''emails'', or_else (getp info ''emails'') (JArr [])), (''mail'', or_else (at_zero (getp info ''emails'')) (JStr [])),
       (''phones'', or_else (getp info ''phones'') (JArr [])), (''mobile'', or_else (at_zero (getp info ''phones'')) (JStr [])),
       (''language'', t ''language''), (''timezone'', t ''timezone'')])"

definition enrichWithUserInfo :: "'s se_env \<Rightarrow> string list \<Rightarrow> string \<Rightarrow> 's svc \<Rightarrow> obj list \<times> 's svc" where
  "enrichWithUserInfo env mxids viewer s =
     (if mxids = [] then ([], s)
      else case getBatch (se_ui env) mxids (Some viewer) s of
             (Inl _, s1) \<Rightarrow> ([], s1)
           | (Inr infos, s1) \<Rightarrow>
               (concat (map (\<lambda>i. case map_of infos i of None \<Rightarrow> [] | Some info \<Rightarrow> [enriched i info]) mxids), s1))"

section \<open>Searching\<close>

text \<open>\<open>Array.prototype.slice\<close>: negative positions count from the end.\<close>

definition js_pos :: "int \<Rightarrow> nat \<Rightarrow> nat" where
  "js_pos i n = (if i < 0 then nat (int n + i) else min (nat i) n)"

definition js_slice :: "int \<Rightarrow> int \<Rightarrow> 'a list \<Rightarrow> 'a list" where
  "js_slice a b xs = drop (js_pos a (length xs)) (take (js_pos b (length xs)) xs)"

text \<open>
  The whole number a text stands for (\<open>ToIntegerOrInfinity\<close>): digits of base 2, 8 or 16 after their
  prefix, or a decimal literal, cut at its point; any other text counts as 0.
\<close>

definition base_val :: "nat \<Rightarrow> string \<Rightarrow> nat option" where
  "base_val b ds =
     (if ds = [] then None
      else foldl (\<lambda>acc c. case (acc, hex_val c) of (Some n, Some d) \<Rightarrow> if d < b then Some (b * n + d) else None | _ \<Rightarrow> None)
             (Some 0) ds)"

definition decimal_val :: "string \<Rightarrow> nat option" where
  "decimal_val t =
     (let whole = takeWhile is_digit t; rest = dropWhile is_digit t;
          fraction = (case rest of c # cs \<Rightarrow> if c = CHR ''.'' then takeWhile is_digit cs else [] | [] \<Rightarrow> []);
          tail = (case rest of c # cs \<Rightarrow> if c = CHR ''.'' then dropWhile is_digit cs else rest | [] \<Rightarrow> []);
          digits = dec_val (whole @ fraction);
          scaled = (\<lambda>e :: int. let k = e - int (length fraction) in
                     if 0 \<le> k then digits * 10 ^ nat k else digits div 10 ^ nat (- k))
      in if whole @ fraction = [] then None
         else (case tail of
                 [] \<Rightarrow> Some (scaled 0)
               | c # cs \<Rightarrow>
                   if c \<in> {CHR ''e'', CHR ''E''} then
                     (let (neg, ds) = (case cs of x # xs \<Rightarrow> if x = CHR ''-'' then (True, xs) else if x = CHR ''+'' then (False, xs) else (False, cs)
                                       | [] \<Rightarrow> (False, []))
                      in if ds = [] \<or> \<not> list_all is_digit ds then None
                         else Some (scaled (if neg then - int (dec_val ds) else int (dec_val ds))))
                   else None))"

definition text_integer :: "string \<Rightarrow> int" where
  "text_integer t =
     (let or_zero = (\<lambda>n. case n of Some k \<Rightarrow> int k | None \<Rightarrow> 0) in
      case t of
        CHR ''0'' # c # ds \<Rightarrow>
          if c \<in> {CHR ''x'', CHR ''X''} then or_zero (base_val 16 ds)
          else if c \<in> {CHR ''o'', CHR ''O''} then or_zero (base_val 8 ds)
          else if c \<in> {CHR ''b'', CHR ''B''} then or_zero (base_val 2 ds)
          else or_zero (decimal_val t)
      | CHR ''-'' # ds \<Rightarrow> - or_zero (decimal_val ds)
      | CHR ''+'' # ds \<Rightarrow> or_zero (decimal_val ds)
      | _ \<Rightarrow> or_zero (decimal_val t))"

definition trimmed :: "string \<Rightarrow> string" where
  "trimmed t = rev (dropWhile is_space (rev (dropWhile is_space t)))"

text \<open>The position in a list of \<open>n\<close> elements that an argument of \<open>slice\<close> names.\<close>

definition text_pos :: "string \<Rightarrow> nat \<Rightarrow> nat" where
  "text_pos t n =
     (let u = trimmed t in
      if u \<in> {''Infinity'', ''+Infinity''} then n else if u = ''-Infinity'' then 0 else js_pos (text_integer u) n)"

definition slice_pos :: "jsval \<Rightarrow> nat \<Rightarrow> nat" where
  "slice_pos v n =
     (case v of
        JNum i \<Rightarrow> js_pos i n
      | JBool b \<Rightarrow> js_pos (if b then 1 else 0) n
      | JStr t \<Rightarrow> text_pos t n
      | JArr _ \<Rightarrow> text_pos (js_str v) n
      | _ \<Rightarrow> 0)"

text \<open>\<open>x + y\<close> adds numbers and booleans; with any other value it joins the two texts.\<close>

definition js_plus :: "jsval \<Rightarrow> jsval \<Rightarrow> jsval" where
  "js_plus x y =
     (let num = (\<lambda>v. case v of JNum n \<Rightarrow> Some n | JBool b \<Rightarrow> Some (if b then 1 else 0) | _ \<Rightarrow> None) in
      case (num x, num y) of (Some m, Some n) \<Rightarrow> JNum (m + n) | _ \<Rightarrow> JStr (js_str x @ js_str y))"

definition page_of :: "jsval \<Rightarrow> jsval \<Rightarrow> 'a list \<Rightarrow> 'a list" where
  "page_of offset limit xs =
     drop (slice_pos offset (length xs)) (take (slice_pos (js_plus offset limit) (length xs)) xs)"

text \<open>The members of the two sets; a source that failed contributes nothing.\<close>

definition or_none :: "string list result \<Rightarrow> string list" where
  "or_none r = (case r of Inl _ \<Rightarrow> [] | Inr xs \<Rightarrow> xs)"

definition actives :: "string list result \<Rightarrow> string list result \<Rightarrow> string list" where
  "actives m a = js_sort code_unit_compare (remdups (or_none m @ or_none a))"

definition inactives :: "string list \<Rightarrow> string list result \<Rightarrow> string list" where
  "inactives act u = js_sort code_unit_compare (remdups (filter (\<lambda>i. i \<notin> set act) (or_none u)))"

definition search_reply :: "obj list \<Rightarrow> obj list \<Rightarrow> response" where
  "search_reply ms us = Json 200 (JObj [(''matches'', JArr (map JObj ms)), (''inactive_matches'', JArr (map JObj us))])"

definition search :: "'s se_env \<Rightarrow> obj \<Rightarrow> 's svc \<Rightarrow> response \<times> 's svc" where
  "search env data s =
     (let owner = js_str (or_else (getp data ''owner'') (JStr [])); predicate = or_else (getp data ''val'') (JStr []);
          limit = or_else (getp data ''limit'') (JNum 30); offset = or_else (getp data ''offset'') (JNum 0) in
      if \<not> truthy predicate then (search_reply [] [], s)
      else case addressbookPromise env owner predicate s of
             (contacts, s1) \<Rightarrow>
               let act = actives (matrixDbPromise env predicate) contacts;
                   inact = inactives act (userDbPromise env predicate);
                   page = page_of offset limit (act @ inact)
               in (case enrichWithUserInfo env (filter (\<lambda>i. i \<in> set act) page) owner s1 of
                     (ms, s2) \<Rightarrow>
                       (case enrichWithUserInfo env (filter (\<lambda>i. i \<in> set inact) page) owner s2 of
                          (us, s3) \<Rightarrow> (search_reply ms us, s3))))"

definition autocompletion_schema :: "(string \<times> bool) list" where
  "autocompletion_schema = [(''scope'', True), (''fields'', False), (''limit'', False), (''offset'', False), (''val'', False)]"

text \<open>The handler behind the authenticator, which gives \<open>outcome\<close>.\<close>

definition autocompletion :: "'s se_env \<Rightarrow> auth_outcome \<Rightarrow> obj \<Rightarrow> 's svc \<Rightarrow> response \<times> 's svc" where
  "autocompletion env outcome content s =
     (case outcome of
        Answered r \<Rightarrow> (r, s)
      | CalledBack token _ \<Rightarrow>
          (case validateParameters autocompletion_schema content of
             Sent status b \<Rightarrow> (Json (nat status) b, s)
           | Callback data \<Rightarrow>
               search env (put ''owner'' (js_coalesce (getp token ''sub'') (JStr ''@default:server'')) data) s))"

section \<open>Lemmas\<close>

lemma actives_facts: "sorted (actives m a)" "distinct (actives m a)" "set (actives m a) = set (or_none m) \<union> set (or_none a)"
  by (simp_all add: actives_def js_sort_code_unit)

lemma inactives_facts: "sorted (inactives act u)" "distinct (inactives act u)" "set (inactives act u) = set (or_none u) - set act"
  by (auto simp: inactives_def js_sort_code_unit)



lemma js_slice_page: "js_slice (int k) (int k + int l) xs = take l (drop k xs)"
proof (cases "k \<le> length xs")
  case True
  have "drop k (take (min (k + l) (length xs)) xs) = take l (drop k xs)"
    by (metis add.commute drop_take min.commute take_all_iff take_take take_drop nle_le)
  then show ?thesis using True by (simp add: js_slice_def js_pos_def nat_add_distrib nat_int_add)
qed (simp add: js_slice_def js_pos_def nat_int_add)

lemma enriched_uid: "getp (enriched i info) ''uid'' = JStr i" "getp (enriched i info) ''address'' = JStr i"
  by (simp_all add: enriched_def Let_def)

text \<open>Whoever is completed was asked for, in the same order, and nobody twice.\<close>

lemma enrich_uids:
  assumes "enrichWithUserInfo env ids viewer s = (os, s')"
  shows "\<exists>P. map (\<lambda>x. getp x ''uid'') os = map JStr (filter P ids)"
proof (cases "ids = []")
  case False
  obtain r x where g: "getBatch (se_ui env) ids (Some viewer) s = (r, x)" by fastforce
  show ?thesis
  proof (cases r)
    case (Inl e)
    then have "os = []" using assms g False by (simp add: enrichWithUserInfo_def)
    then show ?thesis by (intro exI [of _ "\<lambda>_. False"]) simp
  next
    case (Inr infos)
    have "map (\<lambda>x. getp x ''uid'') (concat (map (\<lambda>i. case map_of infos i of None \<Rightarrow> [] | Some info \<Rightarrow> [enriched i info]) is)) =
        map JStr (filter (\<lambda>i. map_of infos i \<noteq> None) is)" for "is"
      by (induction "is") (auto simp: enriched_uid split: option.splits)
    then show ?thesis using assms g False Inr by (auto simp: enrichWithUserInfo_def)
  qed
qed (use assms in \<open>simp add: enrichWithUserInfo_def\<close>)

lemma matching_from:
  assumes "matching_contacts predicate cs = Inr ms" "m \<in> set ms"
  shows "\<exists>c \<in> set cs. getp c ''mxid'' = JStr m \<and> isMatrixId m"
  using assms
proof (induction cs arbitrary: ms)
  case (Cons c cs)
  then show ?case
    by (auto simp: contact_matches_def split: sum.splits jsval.splits if_splits)
qed simp





section \<open>Properties\<close>

text \<open>
  The pages of a search fit together: with \<open>l\<close> results on a page the first \<open>n\<close> pages show the first
  \<open>n * l\<close> of the identifiers found, in order; each is found once, the active ones first.
\<close>

theorem pages_fit:
  "concat (map (\<lambda>k. js_slice (int (k * l)) (int (k * l) + int l) (actives m a @ inactives (actives m a) u)) [0 ..< n]) =
     take (n * l) (actives m a @ inactives (actives m a) u) \<and>
   distinct (actives m a @ inactives (actives m a) u)"
proof
  let ?xs = "actives m a @ inactives (actives m a) u"
  show "concat (map (\<lambda>k. js_slice (int (k * l)) (int (k * l) + int l) ?xs) [0 ..< n]) = take (n * l) ?xs"
  proof (induction n)
    case (Suc n)
    have "take (Suc n * l) ?xs = take (n * l) ?xs @ take l (drop (n * l) ?xs)"
      by (simp only: mult_Suc add.commute [of l] take_add)
    with Suc show ?case by (simp only: upt_Suc_append map_append concat_append le0 js_slice_page) (simp add: js_slice_page)
  qed simp
  show "distinct ?xs" by (simp add: actives_facts inactives_facts)
qed

text \<open>
  A limit that is sent as a text is joined to the offset instead of added to it: from offset 1 with the
  limit ``50'' the page ends at position 150.
\<close>

theorem text_limit_joined: "page_of (JNum 1) (JStr ''50'') xs = take 149 (drop 1 xs)"
proof -
  have "js_plus (JNum 1) (JStr ''50'') = JStr ''150''" by code_simp
  moreover have "trimmed ''150'' = ''150''" "text_integer ''150'' = 150" by code_simp+
  moreover have "drop (min 1 n) (take (min 150 n) xs) = take 149 (drop 1 xs)" if "n = length xs" for n
    using that by (cases "150 \<le> n") (auto simp: drop_take min_def not_le)
  ultimately show ?thesis by (simp add: page_of_def slice_pos_def text_pos_def js_pos_def)
qed


text \<open>
  C13: With the user directory and the additional features off, a search shows a user nobody but the
  contacts of his own address book.
\<close>

theorem directory_off_contacts_only:
  assumes "\<not> se_directory_enabled env" "\<not> se_additional env"
    "js_str (or_else (getp data ''owner'') (JStr [])) = owner" "list_book (ui_ab (se_ui env)) owner False s = (book, s1)"
    "search env data s = (resp, s')"
  shows "\<exists>ms. resp = search_reply ms [] \<and> (\<forall>x \<in> set ms. \<exists>c \<in> set (al_contacts book). getp c ''mxid'' = getp x ''uid'')"
proof (cases "truthy (or_else (getp data ''val'') (JStr []))")
  case False
  then have "resp = search_reply [] []" using assms(5) by (simp add: search_def Let_def)
  then show ?thesis by (intro exI [of _ "[]"]) simp
next
  case True
  let ?p = "or_else (getp data ''val'') (JStr [])"
  have nn: "\<not> \<not> truthy ?p" using True by simp
  obtain contacts s2 where c: "addressbookPromise env owner ?p s = (contacts, s2)" by fastforce
  have off: "matrixDbPromise env ?p = Inr []" "userDbPromise env ?p = Inr []" using assms(1,2) by (simp_all add: matrixDbPromise_def userDbPromise_def)
  let ?act = "actives (Inr []) contacts"
  define page where "page = page_of (or_else (getp data ''offset'') (JNum 0)) (or_else (getp data ''limit'') (JNum 30)) ?act"
  obtain ms s3 where ms: "enrichWithUserInfo env (filter (\<lambda>i. i \<in> set ?act) page) owner s2 = (ms, s3)" by fastforce
  have e: "inactives ?act (Inr []) = []" by (simp add: inactives_def or_none_def js_sort_def)
  have r: "resp = search_reply ms []"
  proof -
    have "search env data s = (search_reply ms [], s3)"
      unfolding search_def Let_def assms(3) if_not_P [OF nn] c prod.case off e append_Nil2 page_def [symmetric] ms
      by (simp add: enrichWithUserInfo_def)
    then show ?thesis using assms(5) by simp
  qed
  obtain P where P: "map (\<lambda>x. getp x ''uid'') ms = map JStr (filter P (filter (\<lambda>i. i \<in> set ?act) page))" using enrich_uids [OF ms] by blast
  have "\<exists>c \<in> set (al_contacts book). getp c ''mxid'' = getp x ''uid''" if x: "x \<in> set ms" for x
  proof -
    have "getp x ''uid'' \<in> set (map (\<lambda>x. getp x ''uid'') ms)" using x by auto
    then obtain i where i: "getp x ''uid'' = JStr i" "i \<in> set ?act" unfolding P by auto
    then have "i \<in> set (or_none contacts)" by (simp add: actives_facts(3) or_none_def)
    then obtain xs where xs: "contacts = Inr xs" "i \<in> set xs" by (auto simp: or_none_def split: sum.splits)
    then have "owner \<noteq> []" "matching_contacts (js_str ?p) (al_contacts book) = Inr xs"
      using c assms(4) by (auto simp: addressbookPromise_def split: if_splits)
    then show ?thesis using matching_from [OF _ xs(2)] i(1) by force
  qed
  then show ?thesis using r by blast
qed

section \<open>Witnesses\<close>

definition demo_se :: "bool \<Rightarrow> store se_env" where
  "demo_se on = \<lparr>se_ui = demo_ui PG, se_profiles = (\<lambda>_. Inr [[(''user_id'', JStr ''@zed:x'')], [(''user_id'', JStr ''@bob:x'')]]),
     se_people = (\<lambda>_. Inr [[(''uid'', JStr ''bob'')], [(''uid'', JStr ''carl'')]]), se_directory_enabled = on, se_additional = on,
     se_server = ''x''\<rparr>"

definition demo_query :: obj where
  "demo_query = [(''owner'', JStr ''@ann:x''), (''val'', JStr ''ob'')]"

lemma demo_query_facts: "or_else (getp demo_query ''val'') (JStr []) = JStr ''ob''"
  "js_str (or_else (getp demo_query ''owner'') (JStr [])) = ''@ann:x''"
  "or_else (getp demo_query ''offset'') (JNum 0) = JNum 0" "or_else (getp demo_query ''limit'') (JNum 30) = JNum 30"
  by code_simp+


theorem directory_off_contacts_only_witness:
  "\<exists>ms. fst (search (demo_se False) demo_query demo_svc) = search_reply ms [] \<and>
     (\<forall>x \<in> set ms. \<exists>c \<in> set (al_contacts (fst (list_book (demo_env PG) ''@ann:x'' False demo_svc))). getp c ''mxid'' = getp x ''uid'')"
proof -
  obtain book s1 where b: "list_book (ui_ab (se_ui (demo_se False))) ''@ann:x'' False demo_svc = (book, s1)" by fastforce
  obtain resp s' where r: "search (demo_se False) demo_query demo_svc = (resp, s')" by fastforce
  have "\<not> se_directory_enabled (demo_se False)" "\<not> se_additional (demo_se False)" "ui_ab (se_ui (demo_se False)) = demo_env PG"
    by (simp_all add: demo_se_def demo_ui_def)
  then show ?thesis using directory_off_contacts_only [OF _ _ demo_query_facts(2) b r] b r by simp
qed

end
