(* ===== verification/Admin.thy ===== *)
theory Admin
  imports TokenService CommonSettings
begin

text \<open>
  The administration of users at the Matrix server: the handler that \<open>CommonSettings\<close> pushes profiles to
  (\<open>tom-server/src/admin-settings-api\<close>) and the deactivation of accounts
  (\<open>tom-server/src/deactivate-account-api\<close>).  Both log in with the credentials of the configuration
  (\<open>TokenService\<close>).  Parameters: the network, the encoder of forms, the parser of the avatar's URL (which
  also sets its two parameters), and what the Matrix database answers about a user.  The text of a
  status is left out of the messages of errors.
\<close>

record ad_env =
  ad_tokens :: token_env
  ad_form :: "(string \<times> string) list \<Rightarrow> string"
  ad_login :: string
  ad_password :: string
  ad_matrix :: string
  ad_net :: network
  ad_secret :: "string option"
  ad_avatar :: "string \<Rightarrow> string option"
  ad_erased :: "string \<Rightarrow> obj list result"
  ad_users :: "string \<Rightarrow> obj list result"

record ad_st =
  ad_log :: http_log
  ad_cached :: "string option"

definition ad_fetch :: "network \<Rightarrow> http_req \<Rightarrow> ad_st \<Rightarrow> http_resp result \<times> ad_st" where
  "ad_fetch net q s = (case http_fetch net q (ad_log s) of (r, l) \<Rightarrow> (r, s\<lparr>ad_log := l\<rparr>))"

text \<open>\<open>buildUrl\<close> with a second argument that is a URL itself, which then wins.\<close>

definition resolve_url :: "string \<Rightarrow> string \<Rightarrow> string" where
  "resolve_url base path =
     (if starts_with path ''https://'' \<or> starts_with path ''http://'' then path else buildUrl base path)"

section \<open>The token of the administrator\<close>

definition getAdminAccessToken :: "ad_env \<Rightarrow> ad_st \<Rightarrow> string result \<times> ad_st" where
  "getAdminAccessToken env s =
     (case getAccessTokenWithCreds (ad_tokens env) (ad_form env) (ad_login env) (ad_password env) (ad_log s) of
        (tok, l) \<Rightarrow> (if nullish tok then Inl (Err ''Failed to get access token'') else Inr (js_str tok), s\<lparr>ad_log := l\<rparr>))"

definition getCachedToken :: "ad_env \<Rightarrow> ad_st \<Rightarrow> string result \<times> ad_st" where
  "getCachedToken env s =
     (case ad_cached s of
        Some tok \<Rightarrow> (Inr tok, s)
      | None \<Rightarrow>
          (case getAdminAccessToken env s of
             (Inl e, s1) \<Rightarrow> (Inl e, s1)
           | (Inr tok, s1) \<Rightarrow> (Inr tok, s1\<lparr>ad_cached := Some tok\<rparr>)))"

definition invalidateToken :: "ad_st \<Rightarrow> ad_st" where
  "invalidateToken s = s\<lparr>ad_cached := None\<rparr>"

text \<open>The requests of the administrator: method, further headers and body.\<close>

definition with_token :: "ad_env \<Rightarrow> string \<Rightarrow> string \<Rightarrow> (string \<times> string) list \<Rightarrow> string \<Rightarrow> string \<Rightarrow> http_req" where
  "with_token env endpoint meth hs content tok =
     \<lparr>hq_method = meth, hq_url = resolve_url (ad_matrix env) endpoint, hq_headers = put ''Authorization'' (''Bearer '' @ tok) hs,
      hq_body = content\<rparr>"

definition doFetch ::
  "ad_env \<Rightarrow> string \<Rightarrow> string \<Rightarrow> (string \<times> string) list \<Rightarrow> string \<Rightarrow> string \<Rightarrow> ad_st \<Rightarrow> http_resp result \<times> ad_st" where
  "doFetch env endpoint meth hs content tok s = ad_fetch (ad_net env) (with_token env endpoint meth hs content tok) s"

text \<open>The loop; \<open>left\<close> is \<open>maxRetries - attempt\<close>.\<close>

fun request_loop ::
  "ad_env \<Rightarrow> string \<Rightarrow> string \<Rightarrow> (string \<times> string) list \<Rightarrow> string \<Rightarrow> nat \<Rightarrow> ad_st \<Rightarrow> http_resp result \<times> ad_st" where
  "request_loop env endpoint meth hs content left s =
     (case getCachedToken env s of
        (Inl e, s1) \<Rightarrow> (Inl e, s1)
      | (Inr tok, s1) \<Rightarrow>
          (case doFetch env endpoint meth hs content tok s1 of
             (Inl e, s2) \<Rightarrow> (Inl e, s2)
           | (Inr p, s2) \<Rightarrow>
               if hp_status p \<noteq> 401 then (Inr p, s2)
               else (case left of
                       0 \<Rightarrow> (Inl (Err (''Request to '' @ endpoint @ '' failed'')), s2)
                     | Suc n \<Rightarrow> request_loop env endpoint meth hs content n (invalidateToken s2))))"

definition makeRequestWithAdminToken ::
  "ad_env \<Rightarrow> string \<Rightarrow> string \<Rightarrow> (string \<times> string) list \<Rightarrow> string \<Rightarrow> ad_st \<Rightarrow> http_resp result \<times> ad_st" where
  "makeRequestWithAdminToken env endpoint meth hs content s = request_loop env endpoint meth hs content 1 s"

section \<open>Profiles\<close>

definition upload_url :: "ad_env \<Rightarrow> string" where
  "upload_url env = ''https://'' @ ad_matrix env @ ''/_matrix/media/v3/upload?filename=avatar.png''"

definition fetchAndUploadAvatar :: "ad_env \<Rightarrow> jsval \<Rightarrow> ad_st \<Rightarrow> jsval result \<times> ad_st" where
  "fetchAndUploadAvatar env avatarUrl s =
     (case ad_avatar env (js_str avatarUrl) of
        None \<Rightarrow> (Inl (Err ''Invalid URL''), s)
      | Some url \<Rightarrow>
          (case ad_fetch (ad_net env) \<lparr>hq_method = ''GET'', hq_url = url, hq_headers = [], hq_body = []\<rparr> s of
             (Inl e, s1) \<Rightarrow> (Inl e, s1)
           | (Inr img, s1) \<Rightarrow>
               if \<not> resp_ok img then (Inl (Err (''Failed to fetch avatar: '' @ nat_str (hp_status img))), s1)
               else (case makeRequestWithAdminToken env (upload_url env) ''POST'' [(''Content-Type'', ''image/png'')] (hp_body img) s1 of
                       (Inl e, s2) \<Rightarrow> (Inl e, s2)
                     | (Inr p, s2) \<Rightarrow>
                         if \<not> resp_ok p then (Inl (Err (''Upload failed: '' @ nat_str (hp_status p))), s2)
                         else (case resp_json p of
                                 Inl e \<Rightarrow> (Inl e, s2)
                               | Inr v \<Rightarrow>
                                   (case read_prop v ''content_uri'' of
                                      Inl e \<Rightarrow> (Inl e, s2)
                                    | Inr uri \<Rightarrow> (Inr (js_coalesce uri Null), s2))))))"

definition user_endpoint :: "ad_env \<Rightarrow> string \<Rightarrow> string" where
  "user_endpoint env user = buildUrl (ad_matrix env) (''/_synapse/admin/v2/users/'' @ user)"

definition profile_payload :: "jsval \<Rightarrow> jsval \<Rightarrow> obj" where
  "profile_payload displayName avatarMxc =
     (if nullish displayName then [] else [(''displayname'', displayName)]) @
     (if nullish avatarMxc then [] else [(''avatar_url'', avatarMxc)])"

definition put_profile :: "ad_env \<Rightarrow> string \<Rightarrow> obj \<Rightarrow> ad_st \<Rightarrow> unit result \<times> ad_st" where
  "put_profile env user updatePayload s =
     (if updatePayload = [] then (Inr (), s)
      else case makeRequestWithAdminToken env (user_endpoint env user) ''PUT'' [] (str_of (JObj updatePayload)) s of
             (Inl e, s1) \<Rightarrow> (Inl e, s1)
           | (Inr p, s1) \<Rightarrow>
               (case resp_json p of
                  Inl e \<Rightarrow> (Inl e, s1)
                | Inr _ \<Rightarrow> (if resp_ok p then Inr () else Inl (Err (''Failed to update profile: '' @ nat_str (hp_status p))), s1)))"

definition as_updateUserInformation :: "ad_env \<Rightarrow> string \<Rightarrow> jsval \<Rightarrow> jsval \<Rightarrow> ad_st \<Rightarrow> unit result \<times> ad_st" where
  "as_updateUserInformation env user displayName avatarUrl s =
     (if nullish avatarUrl then put_profile env user (profile_payload displayName Null) s
      else case fetchAndUploadAvatar env avatarUrl s of
             (Inl e, s1) \<Rightarrow> (Inl e, s1)
           | (Inr mxc, s1) \<Rightarrow> put_profile env user (profile_payload displayName mxc) s1)"

definition checkAdminSettingsToken :: "ad_env \<Rightarrow> request \<Rightarrow> guard" where
  "checkAdminSettingsToken env req =
     (case map_of (headers req) ''authorization'' of
        None \<Rightarrow> Done (Json 401 (JObj [(''error'', JStr ''Missing or invalid Authorization header'')]))
      | Some h \<Rightarrow>
          if \<not> starts_with h ''Bearer '' then Done (Json 401 (JObj [(''error'', JStr ''Missing or invalid Authorization header'')]))
          else if Some (drop 7 h) \<noteq> ad_secret env then Done (Json 403 (JObj [(''error'', JStr ''Forbidden: invalid token'')]))
          else Pass)"

definition as_handle :: "ad_env \<Rightarrow> request \<Rightarrow> ad_st \<Rightarrow> response \<times> ad_st" where
  "as_handle env req s =
     (let user = path_param req ''id'' in
      if user = [] then (message 400 ''Missing user ID'', s)
      else case (read_prop (body req) ''displayName'', read_prop (body req) ''avatarUrl'') of
             (Inr displayName, Inr avatarUrl) \<Rightarrow>
               if displayName = Undef \<and> avatarUrl = Undef then (message 400 ''No valid fields to update'', s)
               else (case as_updateUserInformation env user displayName avatarUrl s of
                       (Inl e, s1) \<Rightarrow> (NextError e, s1)
                     | (Inr _, s1) \<Rightarrow> (Json 200 (JObj []), s1))
           | (Inl e, _) \<Rightarrow> (NextError e, s)
           | (_, Inl e) \<Rightarrow> (NextError e, s))"

definition settings_route :: "ad_env \<Rightarrow> request \<Rightarrow> ad_st \<Rightarrow> response \<times> ad_st" where
  "settings_route env req s = (case checkAdminSettingsToken env req of Done r \<Rightarrow> (r, s) | Pass \<Rightarrow> as_handle env req s)"

section \<open>Deactivation\<close>

definition media_request :: "ad_env \<Rightarrow> string \<Rightarrow> string \<Rightarrow> http_req" where
  "media_request env user tok =
     \<lparr>hq_method = ''DELETE'', hq_url = buildUrl (ad_matrix env) (''/_synapse/admin/v1/users/'' @ user @ ''/media''),
      hq_headers = [(''Authorization'', ''Bearer '' @ tok)], hq_body = []\<rparr>"

definition deactivate_request :: "ad_env \<Rightarrow> string \<Rightarrow> string \<Rightarrow> http_req" where
  "deactivate_request env user tok =
     \<lparr>hq_method = ''POST'', hq_url = buildUrl (ad_matrix env) (''/_synapse/admin/v1/deactivate/'' @ user),
      hq_headers = [(''Authorization'', ''Bearer '' @ tok), (''Content-Type'', JSON_TYPE)],
      hq_body = str_of (JObj [(''erase'', JBool True)])\<rparr>"

text \<open>Every failure of the deletion of media is only logged.\<close>

definition deleteUserMedia :: "ad_env \<Rightarrow> string \<Rightarrow> string \<Rightarrow> ad_st \<Rightarrow> ad_st" where
  "deleteUserMedia env user tok s = snd (ad_fetch (ad_net env) (media_request env user tok) s)"

text \<open>The response is not looked at.\<close>

definition disableUserAccount :: "ad_env \<Rightarrow> string \<Rightarrow> string \<Rightarrow> ad_st \<Rightarrow> unit result \<times> ad_st" where
  "disableUserAccount env user tok s =
     (case ad_fetch (ad_net env) (deactivate_request env user tok) s of
        (Inl _, s1) \<Rightarrow> (Inl (Err ''Failed to deactivate user''), s1)
      | (Inr _, s1) \<Rightarrow> (Inr (), s1))"

definition da_getAdminAccessToken :: "ad_env \<Rightarrow> ad_st \<Rightarrow> string result \<times> ad_st" where
  "da_getAdminAccessToken env s =
     (case getAccessTokenWithCreds (ad_tokens env) (ad_form env) (ad_login env) (ad_password env) (ad_log s) of
        (tok, l) \<Rightarrow> (if \<not> truthy tok then Inl (Err ''Failed to get access token'') else Inr (js_str tok), s\<lparr>ad_log := l\<rparr>))"

definition removeAccount :: "ad_env \<Rightarrow> string \<Rightarrow> ad_st \<Rightarrow> unit result \<times> ad_st" where
  "removeAccount env user s =
     (case da_getAdminAccessToken env s of
        (Inl e, s1) \<Rightarrow> (Inl e, s1)
      | (Inr tok, s1) \<Rightarrow> disableUserAccount env user tok (deleteUserMedia env user tok s1))"

definition checkAccessToken :: "ad_env \<Rightarrow> request \<Rightarrow> guard" where
  "checkAccessToken env req =
     (case map_of (headers req) ''x-access-token'' of
        Some (c # cs) \<Rightarrow> if ad_secret env = Some (c # cs) then Pass else Done (message 401 ''Unauthorized'')
      | _ \<Rightarrow> Done (message 401 ''Unauthorized''))"

text \<open>A failing query rejects the middleware, which nobody waits for: there is no answer.\<close>

definition checkUserExists :: "ad_env \<Rightarrow> request \<Rightarrow> guard option" where
  "checkUserExists env req =
     (let user = path_param req ''id'' in
      if user = [] then Some (Done (message 400 ''Missing user ID''))
      else case ad_erased env user of
             Inl _ \<Rightarrow> None
           | Inr (_ # _) \<Rightarrow> Some (Done (message 400 ''User is already erased''))
           | Inr [] \<Rightarrow>
               (case ad_users env user of
                  Inl _ \<Rightarrow> None
                | Inr [] \<Rightarrow> Some (Done (message 404 ''User not found''))
                | Inr (row # _) \<Rightarrow>
                    Some (if getp row ''deactivated'' = JNum 1 then Done (message 400 ''User is already deactivated'') else Pass)))"

definition da_handle :: "ad_env \<Rightarrow> request \<Rightarrow> ad_st \<Rightarrow> response \<times> ad_st" where
  "da_handle env req s =
     (let user = path_param req ''id'' in
      if user = [] then (message 400 ''Missing user ID'', s)
      else case removeAccount env user s of
             (Inl e, s1) \<Rightarrow> (NextError e, s1)
           | (Inr _, s1) \<Rightarrow> (message 200 ''User deactivated'', s1))"

definition deactivate_route :: "ad_env \<Rightarrow> request \<Rightarrow> ad_st \<Rightarrow> response option \<times> ad_st" where
  "deactivate_route env req s =
     (case checkAccessToken env req of
        Done r \<Rightarrow> (Some r, s)
      | Pass \<Rightarrow>
          (case checkUserExists env req of
             None \<Rightarrow> (None, s)
           | Some (Done r) \<Rightarrow> (Some r, s)
           | Some Pass \<Rightarrow> (case da_handle env req s of (r, s1) \<Rightarrow> (Some r, s1))))"

section \<open>Properties\<close>

declare request_loop.simps [simp del]

lemma getCachedToken_cached:
  "getCachedToken env s = (Inr tok, s1) \<Longrightarrow> ad_cached s1 = Some tok"
  by (auto simp: getCachedToken_def split: option.splits prod.splits sum.splits)

lemma request_loop_accepted:
  "request_loop env endpoint meth hs content left s = (Inr p, s') \<Longrightarrow>
   \<exists>tok l. ad_cached s' = Some tok \<and> hp_status p \<noteq> 401 \<and> ad_log s' = l @ [(with_token env endpoint meth hs content tok, Inr p)]"
proof (induction left arbitrary: s)
  case 0
  then show ?case
    by (subst (asm) request_loop.simps)
      (auto simp: doFetch_def ad_fetch_def http_fetch_def dest: getCachedToken_cached split: prod.splits sum.splits if_splits)
next
  case (Suc n)
  from Suc.prems show ?case
    by (subst (asm) request_loop.simps)
      (auto simp: doFetch_def ad_fetch_def http_fetch_def dest: getCachedToken_cached Suc.IH split: prod.splits sum.splits if_splits)
qed

text \<open>
  A request of the administrator that gives a response was accepted with the token that is kept: the
  last exchange is the request with this token and the response, whose status is not 401; a token that was
  refused is not kept for the next request.
\<close>

theorem admin_token_accepted:
  assumes "makeRequestWithAdminToken env endpoint meth hs content s = (Inr p, s')"
  shows "\<exists>tok l. ad_cached s' = Some tok \<and> hp_status p \<noteq> 401 \<and> ad_log s' = l @ [(with_token env endpoint meth hs content tok, Inr p)]"
  using request_loop_accepted assms by (simp add: makeRequestWithAdminToken_def)

text \<open>
  C14: The push of a profile that \<open>CommonSettings\<close> makes is answered with 200 only after the Matrix server
  accepted the name of the message for that user, in the last exchange.
\<close>

theorem pushed_name_reaches_matrix:
  assumes "settings_route env req s = (Json 200 b, s')" "body req = JObj [(''displayName'', JStr name), (''avatarUrl'', avatar)]"
  shows "\<exists>payload tok p l. ad_log s' = l @ [(with_token env (user_endpoint env (path_param req ''id'')) ''PUT'' [] (str_of (JObj payload)) tok, Inr p)] \<and>
    getp payload ''displayname'' = JStr name \<and> resp_ok p \<and> (\<exists>h t. map_of (headers req) ''authorization'' = Some h \<and> h = ''Bearer '' @ t \<and> ad_secret env = Some t)"
proof -
  obtain h where h: "map_of (headers req) ''authorization'' = Some h" "starts_with h ''Bearer ''" "ad_secret env = Some (drop 7 h)"
    "as_handle env req s = (Json 200 b, s')"
    using assms(1) by (auto simp: settings_route_def checkAdminSettingsToken_def split: option.splits if_splits)
  have "take 7 h = ''Bearer ''" using h(2) by (simp add: starts_with_def eval_nat_numeral)
  then have hb: "h = ''Bearer '' @ drop 7 h" by (metis append_take_drop_id)
  obtain mxc s1 where u: "put_profile env (path_param req ''id'') (profile_payload (JStr name) mxc) s1 = (Inr (), s')"
    using h(4) assms(2)
    by (auto simp: as_handle_def as_updateUserInformation_def read_prop_def message_def Let_def split: if_splits prod.splits sum.splits)
  let ?pl = "profile_payload (JStr name) mxc"
  have ne: "?pl \<noteq> []" "getp ?pl ''displayname'' = JStr name" by (simp_all add: profile_payload_def)
  obtain p where p: "makeRequestWithAdminToken env (user_endpoint env (path_param req ''id'')) ''PUT'' [] (str_of (JObj ?pl)) s1 = (Inr p, s')" "resp_ok p"
    using u ne(1) by (auto simp: put_profile_def split: prod.splits sum.splits if_splits)
  from request_loop_accepted [OF p(1) [unfolded makeRequestWithAdminToken_def]] show ?thesis using p(2) ne(2) h(1,3) hb by blast
qed

text \<open>
  C15: Nothing is sent to the Matrix server for a deactivation unless the request carries the configured
  token and names a user who exists and is neither erased nor deactivated.
\<close>

theorem deactivation_guarded:
  assumes "deactivate_route env req s = (r, s')" "s' \<noteq> s"
  shows "(\<exists>t. map_of (headers req) ''x-access-token'' = Some t \<and> t \<noteq> [] \<and> ad_secret env = Some t) \<and>
    path_param req ''id'' \<noteq> [] \<and> ad_erased env (path_param req ''id'') = Inr [] \<and>
    (\<exists>row rows. ad_users env (path_param req ''id'') = Inr (row # rows) \<and> getp row ''deactivated'' \<noteq> JNum 1)"
proof -
  have a: "checkAccessToken env req = Pass" "checkUserExists env req = Some Pass"
    using assms by (auto simp: deactivate_route_def split: guard.splits option.splits)
  from a(1) have "\<exists>t. map_of (headers req) ''x-access-token'' = Some t \<and> t \<noteq> [] \<and> ad_secret env = Some t"
    by (auto simp: checkAccessToken_def split: option.splits list.splits if_splits)
  with a(2) show ?thesis
    by (auto simp: checkUserExists_def Let_def split: if_splits sum.splits list.splits)
qed

text \<open>
  A deactivation that the Matrix server refuses is reported as done: whatever the response to the
  request that disables the account, once the administrator is logged in the answer is the same.
\<close>

theorem refused_deactivation_reported:
  assumes "checkAccessToken env req = Pass" "checkUserExists env req = Some Pass"
    "da_getAdminAccessToken env s = (Inr tok, s1)"
    "\<And>log. \<exists>p. ad_net env log (deactivate_request env (path_param req ''id'') tok) = Inr p"
  shows "fst (deactivate_route env req s) = Some (message 200 ''User deactivated'') \<and>
    (\<exists>l p. ad_log (snd (deactivate_route env req s)) = l @ [(deactivate_request env (path_param req ''id'') tok, Inr p)])"
proof -
  let ?u = "path_param req ''id''"
  have u: "?u \<noteq> []" using assms(2) by (auto simp: checkUserExists_def Let_def)
  let ?s2 = "deleteUserMedia env ?u tok s1"
  obtain p where p: "ad_net env (ad_log ?s2) (deactivate_request env ?u tok) = Inr p" using assms(4) by blast
  then have "disableUserAccount env ?u tok ?s2 = (Inr (), ?s2\<lparr>ad_log := ad_log ?s2 @ [(deactivate_request env ?u tok, Inr p)]\<rparr>)"
    by (simp add: disableUserAccount_def ad_fetch_def http_fetch_def)
  then show ?thesis
    using assms(1-3) u by (simp add: deactivate_route_def da_handle_def removeAccount_def Let_def)
qed

section \<open>Witnesses\<close>

text \<open>A server that logs the administrator in with six requests and refuses everything afterwards.\<close>

definition login_net :: network where
  "login_net log q =
     (if length log = 0 then Inr \<lparr>hp_status = 200, hp_headers = [], hp_body = str_of (JObj [(''token'', JStr ''p'')])\<rparr>
      else if length log = 1 then Inr \<lparr>hp_status = 200, hp_headers = [(''set-cookie'', ''lemon=7'')], hp_body = []\<rparr>
      else if length log < 6 then demo_net (drop 2 log) q
      else Inr \<lparr>hp_status = 403, hp_headers = [], hp_body = []\<rparr>)"

definition demo_ad :: "network \<Rightarrow> ad_env" where
  "demo_ad net = \<lparr>ad_tokens = demo_token_env\<lparr>te_net := net\<rparr>, ad_form = (\<lambda>_. ''f''), ad_login = ''root'', ad_password = ''pw'',
     ad_matrix = ''matrix.x'', ad_net = net, ad_secret = Some ''s3'', ad_avatar = (\<lambda>_. None), ad_erased = (\<lambda>_. Inr []),
     ad_users = (\<lambda>_. Inr [[(''deactivated'', JNum 0)]])\<rparr>"

definition demo_deactivation :: request where
  "demo_deactivation = \<lparr>userId = None, accessToken = None, params = [(''id'', ''@eve:x'')], query = [], body = Undef,
     headers = [(''x-access-token'', ''s3'')]\<rparr>"

definition no_log :: ad_st where
  "no_log = \<lparr>ad_log = [], ad_cached = None\<rparr>"

lemma demo_guards: "checkAccessToken (demo_ad net) demo_deactivation = Pass" "checkUserExists (demo_ad net) demo_deactivation = Some Pass"
  "path_param demo_deactivation ''id'' = ''@eve:x''"
  by (simp_all add: checkAccessToken_def checkUserExists_def demo_ad_def demo_deactivation_def path_param_def)

lemma demo_login: "fst (da_getAdminAccessToken (demo_ad login_net) no_log) = Inr ''syt''"
proof -
  have m: "match_token ''<a href='cb?loginToken=t1'>'' = Some ''t1''" by code_simp
  show ?thesis
    by (simp add: da_getAdminAccessToken_def getAccessTokenWithCreds_def getAuthCookie_def getAuthProviderLoginToken_def
        getAccessTokenWithCookie_def getOidcProvider_def getOidcRedirectLocation_def getLoginToken_def
        requestAccessToken_def http_fetch_def demo_ad_def no_log_def login_net_def demo_token_env_def demo_net_def resp_json_def json_parse_str_of m
        provider_of_flows_def read_prop_def first_elem_def or_null_def token_of_login_def
        del: match_token.simps)
qed

theorem refused_deactivation_reported_witness:
  "fst (deactivate_route (demo_ad login_net) demo_deactivation no_log) = Some (message 200 ''User deactivated'')"
proof -
  obtain s1 where s1: "da_getAdminAccessToken (demo_ad login_net) no_log = (Inr ''syt'', s1)" using demo_login by (metis prod.collapse)
  have "\<exists>p. ad_net (demo_ad login_net) log q = Inr p" for log q by (simp add: demo_ad_def login_net_def demo_net_def)
  then show ?thesis using refused_deactivation_reported [OF demo_guards(1,2) s1] by blast
qed

theorem deactivation_guarded_witness:
  "\<exists>t. map_of (headers demo_deactivation) ''x-access-token'' = Some t \<and> t \<noteq> []"
proof -
  let ?net = "\<lambda>_ _. Inl (Err ''down'')"
  obtain r s' where d: "deactivate_route (demo_ad ?net) demo_deactivation no_log = (r, s')" by fastforce
  have "length (ad_log (snd (deactivate_route (demo_ad ?net) demo_deactivation no_log))) = 1" by code_simp
  then have "s' \<noteq> no_log" unfolding d by (auto simp: no_log_def)
  from deactivation_guarded [OF d this] show ?thesis by blast
qed

abbreviation "welcome \<equiv> (\<lambda>_ _. Inr \<lparr>hp_status = 200, hp_headers = [], hp_body = str_of (JObj [])\<rparr>)"

definition logged_in :: ad_st where
  "logged_in = \<lparr>ad_log = [], ad_cached = Some ''syt''\<rparr>"

theorem admin_token_accepted_witness:
  "\<exists>tok. ad_cached (snd (makeRequestWithAdminToken (demo_ad welcome) ''/x'' ''PUT'' [] [] logged_in)) = Some tok"
proof -
  have "fst (makeRequestWithAdminToken (demo_ad welcome) ''/x'' ''PUT'' [] [] logged_in) =
      Inr \<lparr>hp_status = 200, hp_headers = [], hp_body = str_of (JObj [])\<rparr>" by code_simp
  then obtain s' where "makeRequestWithAdminToken (demo_ad welcome) ''/x'' ''PUT'' [] [] logged_in =
      (Inr \<lparr>hp_status = 200, hp_headers = [], hp_body = str_of (JObj [])\<rparr>, s')" by (metis prod.collapse)
  from admin_token_accepted [OF this] this show ?thesis by auto
qed

definition demo_push :: request where
  "demo_push = \<lparr>userId = None, accessToken = None, params = [(''id'', ''@ann:x'')], query = [],
     body = JObj [(''displayName'', JStr ''Ann''), (''avatarUrl'', Null)], headers = [(''authorization'', ''Bearer s3'')]\<rparr>"

theorem pushed_name_reaches_matrix_witness:
  "\<exists>payload tok p l. ad_log (snd (settings_route (demo_ad welcome) demo_push logged_in)) =
      l @ [(with_token (demo_ad welcome) (user_endpoint (demo_ad welcome) (path_param demo_push ''id'')) ''PUT'' [] (str_of (JObj payload)) tok, Inr p)] \<and>
    getp payload ''displayname'' = JStr ''Ann''"
proof -
  have "fst (settings_route (demo_ad welcome) demo_push logged_in) = Json 200 (JObj [])" by code_simp
  then obtain s' where s': "settings_route (demo_ad welcome) demo_push logged_in = (Json 200 (JObj []), s')" by (metis prod.collapse)
  have "body demo_push = JObj [(''displayName'', JStr ''Ann''), (''avatarUrl'', Null)]" by (simp add: demo_push_def)
  from pushed_name_reaches_matrix [OF s' this] s' show ?thesis by auto
qed

end
