(* ===== verification/Config.thy ===== *)
theory Config
  imports Json Http
begin

text \<open>
  The reader of the configuration of every server (\<open>packages/config-parser\<close>), with the parser that is
  used by default and the new one.  The environment, the files and \<open>parseFloat\<close> (numbers are integers
  here) are parameters.  Keys are ASCII and none of the properties every object inherits; a
  configuration file holds an object; a description has each key
  once and has the form of the new parser (the old one takes any object).
\<close>

datatype cfg_type = TString | TNumber | TBoolean | TArray | TObject | TJson

record cfg_prop =
  cp_type :: cfg_type
  cp_default :: jsval
  cp_required :: bool

type_synonym cfg_desc = "(string \<times> cfg_prop) list"

datatype cfg_source = FromEnvironment | FromDefault

datatype cfg_error =
    InvalidNumberFormatError string
  | InvalidBooleanFormatError string
  | InvalidJsonFormatError string
  | EmptyStringError
  | FileReadParseError string
  | UnacceptedKeyError string
  | ConfigCoercionError string cfg_source cfg_error
  | MissingRequiredConfigError string
  | OldKeyError string

definition trim_text :: "string \<Rightarrow> string" where
  "trim_text s = rev (dropWhile is_space (rev (dropWhile is_space s)))"

text \<open>\<open>value.split(/[,\s]+/).filter((s) => s.length > 0)\<close>: the pieces between separators that are not empty.\<close>

fun pieces :: "string \<Rightarrow> string \<Rightarrow> string list" where
  "pieces acc [] = (if acc = [] then [] else [rev acc])"
| "pieces acc (c # cs) =
     (if c = CHR '','' \<or> is_space c then (if acc = [] then pieces [] cs else rev acc # pieces [] cs)
      else pieces (c # acc) cs)"

definition coerceValue :: "(string \<Rightarrow> int option) \<Rightarrow> string \<Rightarrow> cfg_type \<Rightarrow> cfg_error + jsval" where
  "coerceValue parseFloat v t =
     (case t of
        TNumber \<Rightarrow> (case parseFloat v of None \<Rightarrow> Inl (InvalidNumberFormatError v) | Some n \<Rightarrow> Inr (JNum n))
      | TBoolean \<Rightarrow>
          (let lowerValue = trim_text (to_lower v) in
           if lowerValue = ''true'' \<or> lowerValue = ''1'' then Inr (JBool True)
           else if lowerValue = ''false'' \<or> lowerValue = ''0'' then Inr (JBool False)
           else Inl (InvalidBooleanFormatError v))
      | TArray \<Rightarrow> Inr (JArr (map JStr (pieces [] v)))
      | TJson \<Rightarrow> (case json_parse v of Inl _ \<Rightarrow> Inl (InvalidJsonFormatError v) | Inr x \<Rightarrow> Inr x)
      | TObject \<Rightarrow> (case json_parse v of Inl _ \<Rightarrow> Inl (InvalidJsonFormatError v) | Inr x \<Rightarrow> Inr x)
      | TString \<Rightarrow> Inr (JStr v))"

definition loadConfigFromFile :: "(string \<Rightarrow> string result) \<Rightarrow> string \<Rightarrow> cfg_error + obj" where
  "loadConfigFromFile files filePath =
     (case files filePath of
        Inl _ \<Rightarrow> Inl (FileReadParseError filePath)
      | Inr content \<Rightarrow> (case json_parse content of Inr (JObj ps) \<Rightarrow> Inr ps | _ \<Rightarrow> Inl (FileReadParseError filePath)))"

definition env_text :: "(string \<Rightarrow> string option) \<Rightarrow> bool \<Rightarrow> string \<Rightarrow> string option" where
  "env_text env useEnv k = (if useEnv then env (to_upper k) else None)"

fun applyEnvironmentVariables ::
  "(string \<Rightarrow> int option) \<Rightarrow> (string \<Rightarrow> string option) \<Rightarrow> bool \<Rightarrow> cfg_desc \<Rightarrow> obj \<Rightarrow> cfg_error + obj" where
  "applyEnvironmentVariables parseFloat env useEnv [] config = Inr config"
| "applyEnvironmentVariables parseFloat env useEnv ((k, p) # ds) config =
     (case env_text env useEnv k of
        None \<Rightarrow> applyEnvironmentVariables parseFloat env useEnv ds config
      | Some v \<Rightarrow>
          if v = [] then Inl (ConfigCoercionError k FromEnvironment EmptyStringError)
          else (case coerceValue parseFloat v (cp_type p) of
                  Inl e \<Rightarrow> Inl (ConfigCoercionError k FromEnvironment e)
                | Inr x \<Rightarrow> applyEnvironmentVariables parseFloat env useEnv ds (put k x config)))"

text \<open>A default that is a text is coerced unless a text is wanted.\<close>

definition default_value :: "(string \<Rightarrow> int option) \<Rightarrow> cfg_prop \<Rightarrow> cfg_error + jsval" where
  "default_value parseFloat p =
     (case cp_default p of
        JStr t \<Rightarrow> if cp_type p = TString then Inr (JStr t) else coerceValue parseFloat t (cp_type p)
      | v \<Rightarrow> Inr v)"

fun applyDefaultValues :: "(string \<Rightarrow> int option) \<Rightarrow> cfg_desc \<Rightarrow> obj \<Rightarrow> cfg_error + obj" where
  "applyDefaultValues parseFloat [] config = Inr config"
| "applyDefaultValues parseFloat ((k, p) # ds) config =
     (if nullish (getp config k) \<and> cp_default p \<noteq> Undef
      then (case default_value parseFloat p of
              Inl e \<Rightarrow> Inl (ConfigCoercionError k FromDefault e)
            | Inr x \<Rightarrow> applyDefaultValues parseFloat ds (put k x config))
      else applyDefaultValues parseFloat ds config)"

definition validateUnwantedKeys :: "obj \<Rightarrow> cfg_desc \<Rightarrow> cfg_error option" where
  "validateUnwantedKeys config desc =
     map_option (\<lambda>(k, _). UnacceptedKeyError k) (find (\<lambda>(k, _). map_of desc k = None) config)"

definition validateRequiredKeys :: "obj \<Rightarrow> cfg_desc \<Rightarrow> cfg_error option" where
  "validateRequiredKeys config desc =
     map_option (\<lambda>(k, _). MissingRequiredConfigError k) (find (\<lambda>(k, p). cp_required p \<and> getp config k = Undef) desc)"

text \<open>What is given as the base: nothing, an object or the path of a file.\<close>

datatype cfg_base = NoBase | BaseObject obj | BaseFile string

text \<open>\<open>JSON.parse(JSON.stringify(base))\<close> of an object.\<close>

definition json_copy :: "obj \<Rightarrow> cfg_error + obj" where
  "json_copy ps = (case json_parse (str_of (JObj ps)) of Inr (JObj qs) \<Rightarrow> Inr qs | _ \<Rightarrow> Inl (InvalidJsonFormatError []))"

definition base_config :: "(string \<Rightarrow> string result) \<Rightarrow> bool \<Rightarrow> cfg_base \<Rightarrow> cfg_error + obj" where
  "base_config files old base =
     (case base of
        NoBase \<Rightarrow> Inr []
      | BaseObject ps \<Rightarrow> if old then Inr ps else json_copy ps
      | BaseFile f \<Rightarrow> loadConfigFromFile files f)"

definition newParser ::
  "(string \<Rightarrow> int option) \<Rightarrow> (string \<Rightarrow> string option) \<Rightarrow> bool \<Rightarrow> cfg_desc \<Rightarrow> obj \<Rightarrow> cfg_error + obj" where
  "newParser parseFloat env useEnv desc config =
     (case applyEnvironmentVariables parseFloat env useEnv desc config of
        Inl e \<Rightarrow> Inl e
      | Inr c1 \<Rightarrow>
          (case applyDefaultValues parseFloat desc c1 of
             Inl e \<Rightarrow> Inl e
           | Inr c2 \<Rightarrow>
               (case validateUnwantedKeys c2 desc of
                  Some e \<Rightarrow> Inl e
                | None \<Rightarrow> (case validateRequiredKeys c2 desc of Some e \<Rightarrow> Inl e | None \<Rightarrow> Inr c2))))"

text \<open>The old parser, whose descriptions give a default for each key.\<close>

fun old_values :: "(string \<Rightarrow> string option) \<Rightarrow> obj \<Rightarrow> obj \<Rightarrow> obj" where
  "old_values env [] res = res"
| "old_values env ((k, dflt) # ds) res =
     old_values env ds
       (case env (to_upper k) of
          Some (c # cs) \<Rightarrow> put k (JStr (c # cs)) res
        | _ \<Rightarrow> if nullish (getp res k) \<and> \<not> nullish dflt then put k dflt res else res)"

definition oldParser :: "(string \<Rightarrow> string option) \<Rightarrow> obj \<Rightarrow> obj \<Rightarrow> cfg_error + obj" where
  "oldParser env desc config =
     (let res = old_values env desc config in
      case find (\<lambda>(k, _). getp desc k = Undef) res of
        Some (k, _) \<Rightarrow> Inl (OldKeyError k)
      | None \<Rightarrow> Inr res)"

text \<open>A description as the old parser sees it: the values are its properties themselves.\<close>

definition type_name :: "cfg_type \<Rightarrow> string" where
  "type_name t =
     (case t of TString \<Rightarrow> ''string'' | TNumber \<Rightarrow> ''number'' | TBoolean \<Rightarrow> ''boolean'' | TArray \<Rightarrow> ''array'' | TObject \<Rightarrow> ''object''
      | TJson \<Rightarrow> ''json'')"

definition prop_value :: "cfg_prop \<Rightarrow> jsval" where
  "prop_value p = JObj ((''type'', JStr (type_name (cp_type p))) # (if cp_default p = Undef then [] else [(''default'', cp_default p)]) @
     (if cp_required p then [(''required'', JBool True)] else []))"

definition old_view :: "cfg_desc \<Rightarrow> obj" where
  "old_view d = map (\<lambda>(k, p). (k, prop_value p)) d"

definition twakeConfig ::
  "(string \<Rightarrow> int option) \<Rightarrow> (string \<Rightarrow> string option) \<Rightarrow> (string \<Rightarrow> string result) \<Rightarrow> cfg_desc \<Rightarrow> cfg_base \<Rightarrow> bool \<Rightarrow> bool \<Rightarrow>
   cfg_error + obj" where
  "twakeConfig parseFloat env files desc base useEnv useOldParser =
     (let shouldUseOldParser = useOldParser \<and> env ''TWAKE_CONFIG_PARSER_NEW'' = None in
      case base_config files shouldUseOldParser base of
        Inl e \<Rightarrow> Inl e
      | Inr config \<Rightarrow>
          if shouldUseOldParser then oldParser env (old_view desc) config
          else newParser parseFloat env useEnv desc config)"


section \<open>What the new parser gives each key\<close>

definition env_value ::
  "(string \<Rightarrow> int option) \<Rightarrow> (string \<Rightarrow> string option) \<Rightarrow> bool \<Rightarrow> string \<Rightarrow> cfg_prop \<Rightarrow> jsval \<Rightarrow> cfg_error + jsval" where
  "env_value parseFloat env useEnv k p base =
     (case env_text env useEnv k of
        None \<Rightarrow> Inr base
      | Some v \<Rightarrow> if v = [] then Inl EmptyStringError else coerceValue parseFloat v (cp_type p))"

definition default_step :: "(string \<Rightarrow> int option) \<Rightarrow> cfg_prop \<Rightarrow> jsval \<Rightarrow> cfg_error + jsval" where
  "default_step parseFloat p v = (if nullish v \<and> cp_default p \<noteq> Undef then default_value parseFloat p else Inr v)"

text \<open>The value of one key on its own: the environment, then the base, then the default.\<close>

definition own_value ::
  "(string \<Rightarrow> int option) \<Rightarrow> (string \<Rightarrow> string option) \<Rightarrow> bool \<Rightarrow> string \<Rightarrow> cfg_prop \<Rightarrow> jsval \<Rightarrow> cfg_error + jsval" where
  "own_value parseFloat env useEnv k p base =
     (case env_value parseFloat env useEnv k p base of
        Inl e \<Rightarrow> Inl e
      | Inr v \<Rightarrow> default_step parseFloat p v)"

definition accepted :: "(string \<Rightarrow> int option) \<Rightarrow> (string \<Rightarrow> string option) \<Rightarrow> bool \<Rightarrow> cfg_desc \<Rightarrow> obj \<Rightarrow> bool" where
  "accepted parseFloat env useEnv desc config \<longleftrightarrow>
     list_all (\<lambda>(k, p). case own_value parseFloat env useEnv k p (getp config k) of
                          Inl _ \<Rightarrow> False | Inr v \<Rightarrow> cp_required p \<longrightarrow> v \<noteq> Undef) desc \<and>
     list_all (\<lambda>(k, _). k \<in> set (map fst desc)) config"

lemma env_run_other:
  "applyEnvironmentVariables parseFloat env useEnv desc config = Inr c \<Longrightarrow> k \<notin> set (map fst desc) \<Longrightarrow> getp c k = getp config k"
  by (induction parseFloat env useEnv desc config rule: applyEnvironmentVariables.induct)
     (auto split: option.splits if_splits sum.splits)

lemma default_run_other:
  "applyDefaultValues parseFloat desc config = Inr c \<Longrightarrow> k \<notin> set (map fst desc) \<Longrightarrow> getp c k = getp config k"
  by (induction parseFloat desc config rule: applyDefaultValues.induct) (auto split: if_splits sum.splits)

text \<open>The passes as folds of a step on one key.\<close>

lemma env_run_step:
  "env_text env useEnv k = None \<Longrightarrow>
   applyEnvironmentVariables parseFloat env useEnv ((k, p) # ds) config = applyEnvironmentVariables parseFloat env useEnv ds config"
  "env_text env useEnv k = None \<Longrightarrow> env_value parseFloat env useEnv k p base = Inr base"
  "env_text env useEnv k = Some v \<Longrightarrow> env_value parseFloat env useEnv k p base = Inr x \<Longrightarrow>
   applyEnvironmentVariables parseFloat env useEnv ((k, p) # ds) config = applyEnvironmentVariables parseFloat env useEnv ds (put k x config)"
  "env_value parseFloat env useEnv k p base = Inl e \<Longrightarrow>
   applyEnvironmentVariables parseFloat env useEnv ((k, p) # ds) config = Inl (ConfigCoercionError k FromEnvironment e)"
  by (auto simp: env_value_def split: option.splits if_splits)

lemma env_value_base: "env_text env useEnv k = Some v \<Longrightarrow> env_value parseFloat env useEnv k p a = env_value parseFloat env useEnv k p b"
  by (simp add: env_value_def)

lemma env_run_iff:
  "distinct (map fst desc) \<Longrightarrow>
   (\<exists>c. applyEnvironmentVariables parseFloat env useEnv desc config = Inr c) \<longleftrightarrow>
   (\<forall>(k, p) \<in> set desc. \<exists>v. env_value parseFloat env useEnv k p (getp config k) = Inr v)"
proof (induction desc arbitrary: config)
  case (Cons d ds)
  obtain k p where d: "d = (k, p)" by (cases d)
  have other: "getp (put k x config) k' = getp config k'" if "(k', p') \<in> set ds" for k' p' x
    using that Cons.prems d by force
  show ?case
  proof (cases "env_value parseFloat env useEnv k p (getp config k)")
    case (Inl e)
    then show ?thesis by (auto simp: d env_run_step(4) simp del: applyEnvironmentVariables.simps)
  next
    case (Inr x)
    have "(\<forall>(k', p') \<in> set ds. \<exists>v. env_value parseFloat env useEnv k' p' (getp (put k x config) k') = Inr v) \<longleftrightarrow>
          (\<forall>(k', p') \<in> set ds. \<exists>v. env_value parseFloat env useEnv k' p' (getp config k') = Inr v)"
      using other by (fastforce simp del: getp_put)
    then show ?thesis
      using Cons Inr by (cases "env_text env useEnv k") (simp_all add: d env_run_step(1,3) del: applyEnvironmentVariables.simps getp_put)
  qed
qed simp

lemma env_run_value:
  "distinct (map fst desc) \<Longrightarrow> applyEnvironmentVariables parseFloat env useEnv desc config = Inr c \<Longrightarrow> (k, p) \<in> set desc \<Longrightarrow>
   env_value parseFloat env useEnv k p (getp config k) = Inr (getp c k)"
proof (induction desc arbitrary: config)
  case (Cons d ds)
  obtain k' p' where d: "d = (k', p')" by (cases d)
  have neq: "k \<noteq> k'" if "(k, p) \<in> set ds" using that Cons.prems(1) d by force
  show ?case
  proof (cases "env_value parseFloat env useEnv k' p' (getp config k')")
    case (Inl e)
    then show ?thesis using Cons.prems by (simp add: d env_run_step(4) del: applyEnvironmentVariables.simps)
  next
    case (Inr x)
    obtain config' where run: "applyEnvironmentVariables parseFloat env useEnv ds config' = Inr c"
      and here: "getp config' k' = x" and there: "\<And>i. i \<noteq> k' \<Longrightarrow> getp config' i = getp config i"
    proof (cases "env_text env useEnv k'")
      case None
      then show ?thesis using that [of config] Cons.prems(2) Inr by (simp add: d env_run_step(1,2) del: applyEnvironmentVariables.simps)
    next
      case (Some v)
      then show ?thesis
        using that [of "put k' x config"] Cons.prems(2) Inr by (simp add: d env_run_step(3) del: applyEnvironmentVariables.simps)
    qed
    have "getp c k' = x" using run Cons.prems(1) here d by (simp add: env_run_other)
    then show ?thesis using Cons.IH [OF _ run] Cons.prems(1,3) Inr neq there d by (cases "(k, p) \<in> set ds") auto
  qed
qed simp

lemma default_run_iff:
  "distinct (map fst desc) \<Longrightarrow>
   (\<exists>c. applyDefaultValues parseFloat desc config = Inr c) \<longleftrightarrow>
   (\<forall>(k, p) \<in> set desc. \<exists>v. default_step parseFloat p (getp config k) = Inr v)"
proof (induction desc arbitrary: config)
  case (Cons d ds)
  obtain k p where d: "d = (k, p)" by (cases d)
  have other: "getp (put k x config) k' = getp config k'" if "(k', p') \<in> set ds" for k' p' x
    using that Cons.prems d by force
  have same: "(\<forall>(k', p') \<in> set ds. \<exists>v. default_step parseFloat p' (getp (put k x config) k') = Inr v) \<longleftrightarrow>
        (\<forall>(k', p') \<in> set ds. \<exists>v. default_step parseFloat p' (getp config k') = Inr v)" for x
    using other by (fastforce simp del: getp_put)
  show ?case
    using Cons same by (cases "default_value parseFloat p") (simp_all add: d default_step_def del: getp_put)
qed simp

lemma default_run_value:
  "distinct (map fst desc) \<Longrightarrow> applyDefaultValues parseFloat desc config = Inr c \<Longrightarrow> (k, p) \<in> set desc \<Longrightarrow>
   default_step parseFloat p (getp config k) = Inr (getp c k)"
proof (induction desc arbitrary: config)
  case (Cons d ds)
  obtain k' p' where d: "d = (k', p')" by (cases d)
  have neq: "k \<noteq> k'" if "(k, p) \<in> set ds" using that Cons.prems(1) d by force
  obtain x config' where run: "applyDefaultValues parseFloat ds config' = Inr c"
    and x: "default_step parseFloat p' (getp config k') = Inr x"
    and here: "getp config' k' = x" and there: "\<And>i. i \<noteq> k' \<Longrightarrow> getp config' i = getp config i"
  proof (cases "nullish (getp config k') \<and> cp_default p' \<noteq> Undef")
    case True
    then obtain x where "default_value parseFloat p' = Inr x" "applyDefaultValues parseFloat ds (put k' x config) = Inr c"
      using Cons.prems(2) d by (auto split: sum.splits)
    then show ?thesis using that [of "put k' x config" x] True by (auto simp: default_step_def)
  next
    case False
    then show ?thesis using that [of config "getp config k'"] Cons.prems(2) by (auto simp: d default_step_def)
  qed
  have "getp c k' = x" using run Cons.prems(1) here d by (simp add: default_run_other)
  then show ?case using Cons.IH [OF _ run] Cons.prems(1,3) x neq there d by (cases "(k, p) \<in> set ds") auto
qed simp

lemma env_run_keys:
  "applyEnvironmentVariables parseFloat env useEnv desc config = Inr c \<Longrightarrow>
   set (map fst c) \<union> set (map fst desc) = set (map fst config) \<union> set (map fst desc)"
  by (induction parseFloat env useEnv desc config rule: applyEnvironmentVariables.induct)
     (auto simp: keys_put split: option.splits if_splits sum.splits simp del: set_map)

lemma default_run_keys:
  "applyDefaultValues parseFloat desc config = Inr c \<Longrightarrow>
   set (map fst c) \<union> set (map fst desc) = set (map fst config) \<union> set (map fst desc)"
  by (induction parseFloat desc config rule: applyDefaultValues.induct)
     (auto simp: keys_put split: if_splits sum.splits simp del: set_map)

lemma unwanted_none: "validateUnwantedKeys c desc = None \<longleftrightarrow> set (map fst c) \<subseteq> set (map fst desc)"
  by (force simp: validateUnwantedKeys_def find_None_iff map_of_eq_None_iff subset_iff)

lemma required_none:
  "validateRequiredKeys c desc = None \<longleftrightarrow> (\<forall>(k, p) \<in> set desc. cp_required p \<longrightarrow> getp c k \<noteq> Undef)"
  by (auto simp: validateRequiredKeys_def find_None_iff)

lemma env_run_keys_iff:
  "applyEnvironmentVariables parseFloat env useEnv desc config = Inr c1 \<Longrightarrow> applyDefaultValues parseFloat desc c1 = Inr c2 \<Longrightarrow>
   set (map fst c2) \<subseteq> set (map fst desc) \<longleftrightarrow> set (map fst config) \<subseteq> set (map fst desc)"
  using env_run_keys [of parseFloat env useEnv desc config c1] default_run_keys [of parseFloat desc c1 c2] by blast

lemma newParser_Inr:
  "newParser parseFloat env useEnv desc config = Inr c \<longleftrightarrow>
   (\<exists>c1. applyEnvironmentVariables parseFloat env useEnv desc config = Inr c1 \<and> applyDefaultValues parseFloat desc c1 = Inr c) \<and>
   set (map fst c) \<subseteq> set (map fst desc) \<and> (\<forall>(k, p) \<in> set desc. cp_required p \<longrightarrow> getp c k \<noteq> Undef)"
  by (auto simp: newParser_def unwanted_none [symmetric] required_none [symmetric] split: sum.splits option.splits simp del: set_map)

lemma newParser_E:
  assumes "newParser parseFloat env useEnv desc config = Inr c"
  obtains c1 where "applyEnvironmentVariables parseFloat env useEnv desc config = Inr c1" "applyDefaultValues parseFloat desc c1 = Inr c"
    "set (map fst c) \<subseteq> set (map fst desc)" "set (map fst config) \<subseteq> set (map fst desc)"
  using assms unfolding newParser_Inr by (metis env_run_keys_iff)

lemma newParser_value:
  assumes "distinct (map fst desc)" "newParser parseFloat env useEnv desc config = Inr c" "(k, p) \<in> set desc"
  shows "own_value parseFloat env useEnv k p (getp config k) = Inr (getp c k)"
  using assms env_run_value [OF assms(1) _ assms(3)] default_run_value [OF assms(1) _ assms(3)]
  by (auto simp: newParser_Inr own_value_def)






abbreviation "demo_float \<equiv> map_option int \<circ> Some \<circ> dec_val"



text \<open>
  The new parser answers a configuration exactly when each key can be given its value, none that is
  required is left out and the base has no other key.
\<close>

theorem config_accepted_iff:
  assumes "distinct (map fst desc)"
  shows "(\<exists>c. newParser parseFloat env useEnv desc config = Inr c) \<longleftrightarrow> accepted parseFloat env useEnv desc config"
proof
  assume "\<exists>c. newParser parseFloat env useEnv desc config = Inr c"
  then obtain c where c: "newParser parseFloat env useEnv desc config = Inr c" by blast
  have keys: "set (map fst config) \<subseteq> set (map fst desc)" using c by (rule newParser_E)
  have req: "\<forall>(k, p) \<in> set desc. cp_required p \<longrightarrow> getp c k \<noteq> Undef" using c unfolding newParser_Inr by blast
  have one: "case own_value parseFloat env useEnv k p (getp config k) of Inl _ \<Rightarrow> False | Inr v \<Rightarrow> cp_required p \<longrightarrow> v \<noteq> Undef"
    if "(k, p) \<in> set desc" for k p
    using newParser_value [OF assms c that] req that by auto
  show "accepted parseFloat env useEnv desc config"
    unfolding accepted_def list_all_iff using one keys by (force simp: image_subset_iff)
next
  assume a: "accepted parseFloat env useEnv desc config"
  have own: "\<exists>v. own_value parseFloat env useEnv k p (getp config k) = Inr v \<and> (cp_required p \<longrightarrow> v \<noteq> Undef)"
    if "(k, p) \<in> set desc" for k p
  proof -
    have "case own_value parseFloat env useEnv k p (getp config k) of Inl _ \<Rightarrow> False | Inr v \<Rightarrow> cp_required p \<longrightarrow> v \<noteq> Undef"
      using a that unfolding accepted_def list_all_iff by blast
    then show ?thesis by (simp split: sum.splits)
  qed
  have "\<exists>v. env_value parseFloat env useEnv k p (getp config k) = Inr v" if "(k, p) \<in> set desc" for k p
    using own [OF that] by (auto simp: own_value_def split: sum.splits)
  then obtain c1 where c1: "applyEnvironmentVariables parseFloat env useEnv desc config = Inr c1"
    using env_run_iff [OF assms, of parseFloat env useEnv config] by blast
  have step: "default_step parseFloat p (getp c1 k) = own_value parseFloat env useEnv k p (getp config k)" if "(k, p) \<in> set desc" for k p
    using env_run_value [OF assms c1 that] by (simp add: own_value_def)
  have "\<exists>v. default_step parseFloat p (getp c1 k) = Inr v" if "(k, p) \<in> set desc" for k p
    using own [OF that] step [OF that] by auto
  then obtain c2 where c2: "applyDefaultValues parseFloat desc c1 = Inr c2"
    using default_run_iff [OF assms, of parseFloat c1] by blast
  have "cp_required p \<longrightarrow> getp c2 k \<noteq> Undef" if "(k, p) \<in> set desc" for k p
    using default_run_value [OF assms c2 that] step [OF that] own [OF that] by auto
  then have "\<forall>(k, p) \<in> set desc. cp_required p \<longrightarrow> getp c2 k \<noteq> Undef" by blast
  moreover have "set (map fst c2) \<subseteq> set (map fst desc)"
    unfolding env_run_keys_iff [OF c1 c2]
    using a [unfolded accepted_def, THEN conjunct2] by (auto simp: list_all_iff)
  ultimately show "\<exists>c. newParser parseFloat env useEnv desc config = Inr c"
    using c1 c2 newParser_Inr by blast
qed

theorem config_accepted_iff_witness:
  "(\<exists>c. newParser (\<lambda>_. None) (\<lambda>_. None) True [(''port'', \<lparr>cp_type = TNumber, cp_default = Undef, cp_required = True\<rparr>)] [] = Inr c) \<longleftrightarrow>
   accepted (\<lambda>_. None) (\<lambda>_. None) True [(''port'', \<lparr>cp_type = TNumber, cp_default = Undef, cp_required = True\<rparr>)] []"
  by (rule config_accepted_iff) simp

section \<open>Types\<close>

definition cfg_separator :: "char \<Rightarrow> bool" where
  "cfg_separator c \<longleftrightarrow> c = CHR '','' \<or> is_space c"

text \<open>The words of a text: its longest parts without a separator, in order.\<close>

inductive splits :: "string \<Rightarrow> string list \<Rightarrow> bool" where
  splits_Nil: "splits [] []"
| splits_skip: "cfg_separator c \<Longrightarrow> splits s xs \<Longrightarrow> splits (c # s) xs"
| splits_word: "x \<noteq> [] \<Longrightarrow> list_all (\<lambda>c. \<not> cfg_separator c) x \<Longrightarrow> s = [] \<or> cfg_separator (hd s) \<Longrightarrow> splits s xs \<Longrightarrow>
    splits (x @ s) (x # xs)"










text \<open>Nothing makes the value of the type object an object: the text of a number gives the number.\<close>

theorem object_type_not_enforced:
  "twakeConfig parseFloat (\<lambda>n. if n = ''POLICIES'' then Some ''5'' else None) files
     [(''policies'', \<lparr>cp_type = TObject, cp_default = Undef, cp_required = False\<rparr>)] NoBase True False = Inr [(''policies'', JNum 5)]"
proof -
  have "to_upper ''policies'' = ''POLICIES''" "json_parse ''5'' = Inr (JNum 5)" by code_simp+
  then show ?thesis
    by (simp add: twakeConfig_def base_config_def newParser_def env_text_def coerceValue_def validateUnwantedKeys_def validateRequiredKeys_def)
qed

section \<open>The old parser\<close>

lemma old_values_other: "k \<notin> set (map fst desc) \<Longrightarrow> getp (old_values env desc res) k = getp res k"
  by (induction env desc res rule: old_values.induct) (auto split: option.splits list.splits)

text \<open>
  The old parser, which is used by default, stores the variable of a key as the text it is,
  whatever the type of the key: a boolean option that the environment sets to \<open>false\<close> or \<open>0\<close> is on.
\<close>

theorem old_parser_text:
  assumes "oldParser env desc config = Inr c" and "k \<in> set (map fst desc)" and "distinct (map fst desc)"
    and "env (to_upper k) = Some v" and "v \<noteq> []"
  shows "getp c k = JStr v \<and> truthy (getp c k)"
proof -
  have "getp (old_values env desc config) k = JStr v"
    using assms(2-5)
    by (induction env desc config rule: old_values.induct)
       (auto simp: old_values_other split: option.splits list.splits simp del: set_map list.set_map)
  then show ?thesis using assms(1,5) by (auto simp: oldParser_def Let_def split: option.splits)
qed

theorem old_parser_text_witness: "getp [(''tls'', JStr ''false'')] ''tls'' = JStr ''false'' \<and> truthy (getp [(''tls'', JStr ''false'')] ''tls'')"
proof (rule old_parser_text)
  show "oldParser (\<lambda>n. if n = ''TLS'' then Some ''false'' else None) [(''tls'', JBool False)] [] = Inr [(''tls'', JStr ''false'')]"
    by code_simp
  show "(\<lambda>n. if n = ''TLS'' then Some ''false'' else None) (to_upper ''tls'') = Some ''false''" by code_simp
qed simp_all

end
