(* ===== verification/Federation.thy ===== *)
theory Federation
  imports Lookup
begin

text \<open>
  The federated identity service (\<open>federated-identity-service/src\<close>), which keeps the hashes of the
  addresses other servers know, and the task of a server that pushes its own hashes there
  (\<open>matrix-identity-server/src/cron/update-federated-identity-hashes.ts\<close>).  The package
  \<open>ip-address\<close> is two parameters, and so are the three functions of nacl, the network, what the
  directory answers and the host of the base address.
\<close>

section \<open>Who may ask\<close>

record 's fed_env =
  fe_db :: "'s backend"
  fe_ip :: "string \<Rightarrow> string option"
  fe_in_subnet :: "string \<Rightarrow> string \<Rightarrow> bool"
  fe_trusted :: "string list"
  fe_trust_header :: bool
  fe_limit :: int
  fe_additional :: bool

definition TRUSTED :: string where
  "TRUSTED = ''TOKEN_TRUSTED_SERVER''"

text \<open>What follows the last colon of the header, or of the address of the socket.\<close>

definition caller_address :: "'s fed_env \<Rightarrow> string \<Rightarrow> request \<Rightarrow> string" where
  "caller_address env remote req =
     last (split_on CHR '':''
       (case (if fe_trust_header env then map_of (headers req) ''x-forwarded-for'' else None) of
          Some (c # cs) \<Rightarrow> c # cs
        | _ \<Rightarrow> remote))"

text \<open>
  The trusted addresses were converted at the start.  \<open>includes\<close> compares two objects made apart, which
  are never the same: an address is trusted because of \<open>isInSubnet\<close>.
\<close>

definition fed_authenticate :: "'s fed_env \<Rightarrow> string \<Rightarrow> 's authenticator" where
  "fed_authenticate env remote req s =
     (case fe_ip env (caller_address env remote req) of
        None \<Rightarrow> (Answered unauthorized, s)
      | Some ip \<Rightarrow>
          if list_ex (fe_in_subnet env ip) (fe_trusted env)
          then (CalledBack [(''sub'', JStr []), (''epoch'', JNum 0)] (Some (Some TRUSTED)), s)
          else (case request_token req of
                  None \<Rightarrow> (Answered unauthorized, s)
                | Some token \<Rightarrow>
                    (case as_on_db (db_get (fe_db env) ''accessTokens'' [''data''] (Some [(''id'', JStr token)]) None) s of
                       (Inr (row # _), s1) \<Rightarrow>
                         (case stored_content (getp row ''data'') of
                            Inl _ \<Rightarrow> (Answered unauthorized, s1)
                          | Inr content \<Rightarrow> (CalledBack content (Some (Some token)), s1))
                     | (_, s1) \<Rightarrow> (Answered unauthorized, s1))))"

text \<open>The middleware; what its callback throws is answered by the \<open>catch\<close> around the token.\<close>

definition fed_auth :: "'s fed_env \<Rightarrow> string \<Rightarrow> request \<Rightarrow> 's auth_st \<Rightarrow> guard \<times> 's auth_st" where
  "fed_auth env remote req s =
     (case fed_authenticate env remote req s of
        (Answered r, s1) \<Rightarrow> (Done r, s1)
      | (CalledBack content token, s1) \<Rightarrow>
          if token \<noteq> Some (Some TRUSTED) \<and> getp content ''sub'' = Undef then (Done unauthorized, s1) else (Pass, s1))"

section \<open>Validation and errors\<close>

definition invalid :: "string \<Rightarrow> string \<Rightarrow> (string \<times> string) list" where
  "invalid msg path = [(msg, path)]"

definition text_errors :: "string \<Rightarrow> jsval \<Rightarrow> (string \<times> string) list" where
  "text_errors path v = (if is_text v then [] else invalid ''Invalid value'' path)"

definition addresses_errors :: "int \<Rightarrow> jsval \<Rightarrow> (string \<times> string) list" where
  "addresses_errors limit v =
     (case v of
        JArr vs \<Rightarrow>
          if \<not> list_all is_text vs then invalid ''One of the address is not a string'' ''addresses''
          else if int (length vs) > limit then invalid (''Adresses limit of '' @ int_str limit @ '' exceeded'') ''addresses''
          else []
      | _ \<Rightarrow> invalid ''Invalid value'' ''addresses'')"

definition mappings_errors :: "jsval \<Rightarrow> (string \<times> string) list" where
  "mappings_errors v =
     (case v of
        JObj [] \<Rightarrow> []
      | JObj [(_, JArr vs)] \<Rightarrow>
          if list_all is_text vs then [] else invalid ''Mappings object values are not string arrays'' ''mappings''
      | JObj [_] \<Rightarrow> invalid ''Mappings object values are not string arrays'' ''mappings''
      | JObj _ \<Rightarrow> invalid ''Only one server address is allowed'' ''mappings''
      | _ \<Rightarrow> invalid ''Invalid value'' ''mappings'')"

text \<open>\<open>errorMiddleware\<close> on the two errors the handlers make.\<close>

definition fed_error :: "nat \<Rightarrow> string \<Rightarrow> string \<Rightarrow> response" where
  "fed_error status errcode msg = Json status (JObj [(''errcode'', JStr errcode), (''error'', JStr msg)])"

definition fed_invalid :: "(string \<times> string) list \<Rightarrow> response" where
  "fed_invalid errors =
     fed_error 400 ''M_INVALID_PARAM''
       (join '', '' (map (\<lambda>(msg, path). ''Error field: '' @ msg @ '' (property: '' @ path @ '')'') errors))"

definition fed_unknown :: "jserror \<Rightarrow> response" where
  "fed_unknown e = fed_error 500 ''M_UNKNOWN'' (''Error: '' @ err_msg e)"

section \<open>Looking up\<close>

text \<open>\<open>groupBy\<close> and \<open>mapValues\<close>: the hashes of each server.\<close>

definition add_to_group :: "obj \<Rightarrow> obj \<Rightarrow> obj" where
  "add_to_group m row =
     (let k = js_str (getp row ''server'') in
      put k (JArr ((case getp m k of JArr hs \<Rightarrow> hs | _ \<Rightarrow> []) @ [getp row ''hash''])) m)"

definition group_by_server :: "obj list \<Rightarrow> obj" where
  "group_by_server rows = foldl add_to_group [] rows"

definition fed_reply :: "bool \<Rightarrow> obj \<Rightarrow> obj \<Rightarrow> obj list \<Rightarrow> response" where
  "fed_reply additional mappings inactives rows =
     Json 200 (JObj ([(''mappings'', JObj mappings), (''third_party_mappings'', JObj (group_by_server rows))] @
       (if additional then [(''inactive_mappings'', JObj inactives)] else [])))"

text \<open>The result of \<open>concat\<close> is dropped, so that inactive hashes are asked for among the others, too.\<close>

definition third_party_hashes :: "obj \<Rightarrow> jsval \<Rightarrow> jsval list" where
  "third_party_hashes mappings addresses =
     (case addresses of JArr vs \<Rightarrow> filter (\<lambda>h. h \<notin> set (map (JStr \<circ> fst) mappings)) vs | _ \<Rightarrow> [])"

definition fed_lookup :: "'s fed_env \<Rightarrow> request \<Rightarrow> 's auth_st \<Rightarrow> response \<times> 's auth_st" where
  "fed_lookup env req s =
     (let c = own_props (body req);
          errors = text_errors ''algorithm'' (getp c ''algorithm'') @ text_errors ''pepper'' (getp c ''pepper'') @
            addresses_errors (fe_limit env) (getp c ''addresses'')
      in if errors \<noteq> [] then (fed_invalid errors, s)
         else case as_on_db (db_get (fe_db env) ''hashes'' [''value'', ''hash'', ''active''] (Some [(''hash'', getp c ''addresses'')]) None) s of
                (Inl e, s1) \<Rightarrow> (fed_unknown e, s1)
              | (Inr rows, s1) \<Rightarrow>
                  (let mappings = hash_record (filter (\<lambda>r. getp r ''active'' = JNum 1) rows);
                       inactives = hash_record (filter (\<lambda>r. getp r ''active'' \<noteq> JNum 1) rows);
                       others = third_party_hashes mappings (getp c ''addresses'')
                   in if others = [] then (fed_reply (fe_additional env) mappings inactives [], s1)
                      else case as_on_db (db_get (fe_db env) ''hashByServer'' [''hash'', ''server''] (Some [(''hash'', JArr others)]) None) s1 of
                             (Inl e, s2) \<Rightarrow> (fed_unknown e, s2)
                           | (Inr rows2, s2) \<Rightarrow> (fed_reply (fe_additional env) mappings inactives rows2, s2)))"

section \<open>Receiving the hashes of a server\<close>

definition server_row :: "jsval \<Rightarrow> jsval \<Rightarrow> jsval \<Rightarrow> obj" where
  "server_row hash server pepper = [(''hash'', hash), (''server'', server), (''pepper'', pepper)]"

definition insert_hash :: "'s fed_env \<Rightarrow> jsval \<Rightarrow> jsval \<Rightarrow> jsval \<Rightarrow> 's auth_st \<Rightarrow> unit result \<times> 's auth_st" where
  "insert_hash env server pepper h s =
     (case as_on_db (db_insert (fe_db env) ''hashByServer'' (server_row h server pepper)) s of
        (Inl e, s1) \<Rightarrow> (Inl e, s1)
      | (Inr _, s1) \<Rightarrow> (Inr (), s1))"

definition old_hashes :: "jsval \<Rightarrow> jsval list \<Rightarrow> sql_condition list" where
  "old_hashes server peppers = (''server'', Some ''='', server) # map (\<lambda>p. (''pepper'', Some ''!='', p)) peppers"

definition fed_lookups :: "'s fed_env \<Rightarrow> request \<Rightarrow> 's auth_st \<Rightarrow> response \<times> 's auth_st" where
  "fed_lookups env req s =
     (let c = own_props (body req); pepper = getp c ''pepper'';
          errors = text_errors ''algorithm'' (getp c ''algorithm'') @ text_errors ''pepper'' pepper @ mappings_errors (getp c ''mappings'');
          server = (case own_props (getp c ''mappings'') of [] \<Rightarrow> Undef | (k, _) # _ \<Rightarrow> JStr k)
      in if errors \<noteq> [] then (fed_invalid errors, s)
         else case as_on_db (db_get (fe_db env) ''keys'' [''data''] (Some [(''name'', JArr [JStr ''pepper'', JStr ''previousPepper''])]) None) s of
                (Inl e, s1) \<Rightarrow> (fed_unknown e, s1)
              | (Inr rows, s1) \<Rightarrow>
                  (case as_on_db (db_deleteWhere (fe_db env) ''hashByServer'' (old_hashes server (map (\<lambda>r. getp r ''data'') rows))) s1 of
                     (Inl e, s2) \<Rightarrow> (fed_unknown e, s2)
                   | (Inr _, s2) \<Rightarrow>
                       (case own_props (getp c ''mappings'') of
                          (_, JArr hashes) # _ \<Rightarrow>
                            (case promise_all (map (insert_hash env server pepper) hashes) s2 of
                               (Inl e, s3) \<Rightarrow> (fed_unknown e, s3)
                             | (Inr _, s3) \<Rightarrow> (Json 201 (JObj []), s3))
                        | _ \<Rightarrow> (fed_unknown (Err ''Cannot read properties of undefined''), s2))))"

definition fed_hashDetails :: "'s fed_env \<Rightarrow> 's auth_st \<Rightarrow> response \<times> 's auth_st" where
  "fed_hashDetails env s =
     (case as_on_db (db_get (fe_db env) ''keys'' [''data''] (Some [(''name'', JStr ''pepper'')]) None) s of
        (Inl e, s1) \<Rightarrow> (fed_unknown e, s1)
      | (Inr [], s1) \<Rightarrow> (fed_unknown (Err ''Cannot read properties of undefined''), s1)
      | (Inr (row # _), s1) \<Rightarrow>
          (let resp = [(''algorithms'', JArr (map JStr supportedHashes)), (''lookup_pepper'', getp row ''data'')] in
           case as_on_db (db_get (fe_db env) ''keys'' [''data''] (Some [(''name'', JStr ''previousPepper'')]) None) s1 of
             (Inr (row2 # _), s2) \<Rightarrow> (Json 200 (JObj (resp @ [(''alt_lookup_peppers'', JArr [getp row2 ''data''])])), s2)
           | (_, s2) \<Rightarrow> (Json 200 (JObj resp), s2)))"

datatype fed_endpoint = FedLookup | FedHashDetails | FedLookups

definition fed_route :: "'s fed_env \<Rightarrow> fed_endpoint \<Rightarrow> string \<Rightarrow> request \<Rightarrow> 's auth_st \<Rightarrow> response \<times> 's auth_st" where
  "fed_route env e remote req s =
     (case fed_auth env remote req s of
        (Done r, s1) \<Rightarrow> (r, s1)
      | (Pass, s1) \<Rightarrow>
          (case e of FedLookup \<Rightarrow> fed_lookup env req s1 | FedHashDetails \<Rightarrow> fed_hashDetails env s1 | FedLookups \<Rightarrow> fed_lookups env req s1))"

section \<open>Pushing\<close>

text \<open>What an answer to \<open>hash_details\<close> offers; an object counts as a list by a \<open>length\<close> that is a number.\<close>

definition short_list :: "jsval \<Rightarrow> bool" where
  "short_list v =
     (case v of JArr xs \<Rightarrow> xs = [] | JStr t \<Rightarrow> t = []
      | JObj ps \<Rightarrow> (case getp ps ''length'' of JNum n \<Rightarrow> n < 1 | _ \<Rightarrow> False) | _ \<Rightarrow> False)"

record offer =
  of_algorithm :: jsval
  of_pepper :: jsval
  of_others :: jsval

definition offer_of :: "http_resp result \<Rightarrow> offer option" where
  "offer_of r =
     (case r of
        Inl _ \<Rightarrow> None
      | Inr p \<Rightarrow>
          (case resp_json p of
             Inr (JObj b) \<Rightarrow>
               if ''errcode'' \<in> set (map fst b) \<or> nullish (getp b ''algorithms'') \<or> short_list (getp b ''algorithms'') \<or>
                  nullish (getp b ''lookup_pepper'') then None
               else Some \<lparr>of_algorithm = getp (own_props (getp b ''algorithms'')) ''0'', of_pepper = getp b ''lookup_pepper'',
                          of_others = getp b ''alt_lookup_peppers''\<rparr>
           | _ \<Rightarrow> None))"

text \<open>\<open>[lookup_pepper, ...(alt_lookup_peppers ?? [])]\<close>; only lists and texts can be spread.\<close>

definition offered_peppers :: "offer \<Rightarrow> jsval list result" where
  "offered_peppers f =
     (case of_others f of
        JArr vs \<Rightarrow> Inr (of_pepper f # vs)
      | JStr t \<Rightarrow> Inr (of_pepper f # map (\<lambda>c. JStr [c]) t)
      | v \<Rightarrow> if nullish v then Inr [of_pepper f] else Inl (Err ''alt_lookup_peppers is not iterable''))"

definition details_request :: "string \<Rightarrow> http_req" where
  "details_request address =
     \<lparr>hq_method = ''GET'', hq_url = encodeURI (''https://'' @ address @ ''/_matrix/identity/v2/hash_details''), hq_headers = [], hq_body = []\<rparr>"

fun fetch_all :: "network \<Rightarrow> http_req list \<Rightarrow> http_log \<Rightarrow> http_resp result list \<times> http_log" where
  "fetch_all net [] log = ([], log)"
| "fetch_all net (q # qs) log =
     (case http_fetch net q log of (r, log1) \<Rightarrow> (case fetch_all net qs log1 of (rs, log2) \<Rightarrow> (r # rs, log2)))"

text \<open>The record of the services that offered something; of two entries with one address the later counts.\<close>

fun service_details :: "(string \<times> offer) list \<Rightarrow> (string \<times> jsval \<times> jsval list) list \<Rightarrow> (string \<times> jsval \<times> jsval list) list result" where
  "service_details [] acc = Inr acc"
| "service_details ((a, f) # fs) acc =
     (case offered_peppers f of Inl e \<Rightarrow> Inl e | Inr ps \<Rightarrow> service_details fs (put a (of_algorithm f, ps) acc))"

text \<open>The texts that are hashed: the addresses of the active users.\<close>

definition shared_texts :: "(string \<times> obj) list \<Rightarrow> jsval \<Rightarrow> string list" where
  "shared_texts data pepper = concat (map (\<lambda>(a, v). concat (map (\<lambda>fld.
     let x = getp v fld in
     if nullish x \<or> js_str x = [] \<or> getp v ''active'' \<noteq> JNum 1 then []
     else [hashed_text (if fld = ''phone'' then plain_phone (js_str x) else js_str x) (medium_of fld) pepper]) fieldsToHash)) data)"

text \<open>The algorithm is the one the service names first; names that every object has are left out.\<close>

fun map_result :: "('a \<Rightarrow> 'b result) \<Rightarrow> 'a list \<Rightarrow> 'b list result" where
  "map_result f [] = Inr []"
| "map_result f (x # xs) =
     (case f x of Inl e \<Rightarrow> Inl e | Inr y \<Rightarrow> (case map_result f xs of Inl e \<Rightarrow> Inl e | Inr ys \<Rightarrow> Inr (y # ys)))"

definition getUsersHashes :: "nacl \<Rightarrow> (string \<times> obj) list \<Rightarrow> jsval \<Rightarrow> jsval \<Rightarrow> string list result" where
  "getUsersHashes nl data algorithm pepper = map_result (hash_call nl (js_str algorithm)) (shared_texts data pepper)"

definition push_request :: "string \<Rightarrow> string \<Rightarrow> jsval \<Rightarrow> jsval \<Rightarrow> string list \<Rightarrow> http_req" where
  "push_request host address algorithm pepper hashes =
     \<lparr>hq_method = ''post'', hq_url = encodeURI (''https://'' @ address @ ''/_matrix/identity/v2/lookups''),
      hq_headers = [(''Content-Type'', ''application/json'')],
      hq_body = str_of (JObj [(''algorithm'', algorithm), (''pepper'', pepper), (''mappings'', JObj [(host, JArr (map JStr hashes))])])\<rparr>"

definition planned :: "(string \<times> jsval \<times> jsval list) list \<Rightarrow> string list \<Rightarrow> (string \<times> jsval \<times> jsval) list" where
  "planned details addresses =
     concat (map (\<lambda>a. case map_of details a of None \<Rightarrow> [] | Some (algorithm, ps) \<Rightarrow> map (\<lambda>p. (a, algorithm, p)) ps) addresses)"

datatype services = NoServices | ServiceList "string list" | ServiceText string

definition separator :: "char \<Rightarrow> bool" where
  "separator c \<longleftrightarrow> c = CHR '','' \<or> is_space c"

function split_separators :: "string \<Rightarrow> string list" where
  "split_separators s =
     (case dropWhile (\<lambda>c. \<not> separator c) s of
        [] \<Rightarrow> [s]
      | _ # rest \<Rightarrow> takeWhile (\<lambda>c. \<not> separator c) s # split_separators (dropWhile separator rest))"
  by auto
termination
proof (relation "measure length", simp, clarsimp)
  fix s :: string and c rest
  assume "dropWhile (\<lambda>c. \<not> separator c) s = c # rest"
  then have "length (c # rest) \<le> length s" by (metis length_dropWhile_le)
  then show "length (dropWhile separator rest) < length s" using length_dropWhile_le [of separator rest] by simp
qed

definition service_addresses :: "services \<Rightarrow> string list" where
  "service_addresses v = (case v of NoServices \<Rightarrow> [] | ServiceList xs \<Rightarrow> xs | ServiceText t \<Rightarrow> split_separators t)"

record push_env =
  pu_net :: network
  pu_nacl :: nacl
  pu_conf :: lookup_conf
  pu_services :: services
  pu_host :: "string result"

definition offers :: "string list \<Rightarrow> http_resp result list \<Rightarrow> (string \<times> offer) list" where
  "offers addresses answers =
     concat (map (\<lambda>(a, r). case offer_of r of None \<Rightarrow> [] | Some f \<Rightarrow> [(a, f)]) (zip addresses answers))"

text \<open>What is decided between the answers and the requests.\<close>

definition push_plan :: "push_env \<Rightarrow> obj list result \<Rightarrow> http_resp result list \<Rightarrow> http_req list result" where
  "push_plan env directory answers =
     (let found = offers (service_addresses (pu_services env)) answers in
      case service_details found [] of
        Inl e \<Rightarrow> Inl e
      | Inr details \<Rightarrow>
          (case hash_data (pu_conf env) directory of
             Inl e \<Rightarrow> Inl e
           | Inr data \<Rightarrow>
               (case map_result (\<lambda>(a, algorithm, p).
                          case getUsersHashes (pu_nacl env) data algorithm p of
                            Inl e \<Rightarrow> Inl e
                          | Inr hs \<Rightarrow> Inr (a, algorithm, p, hs)) (planned details (map fst found)) of
                  Inl e \<Rightarrow> Inl e
                | Inr jobs \<Rightarrow>
                    (case pu_host env of
                       Inl e \<Rightarrow> Inl e
                     | Inr host \<Rightarrow> Inr (map (\<lambda>(a, algorithm, p, hs). push_request host a algorithm p hs) jobs)))))"

text \<open>The answers to the pushes are only reported.\<close>

definition updateFederatedIdentityHashes :: "push_env \<Rightarrow> obj list result \<Rightarrow> http_log \<Rightarrow> unit result \<times> http_log" where
  "updateFederatedIdentityHashes env directory log =
     (case fetch_all (pu_net env) (map details_request (service_addresses (pu_services env))) log of
        (answers, log1) \<Rightarrow>
          (case push_plan env directory answers of
             Inl e \<Rightarrow> (Inl e, log1)
           | Inr qs \<Rightarrow> (Inr (), snd (fetch_all (pu_net env) qs log1))))"

section \<open>The tables\<close>

definition server_cols :: "string list" where
  "server_cols = [''hash'', ''server'', ''pepper'']"

text \<open>The three columns of the table of pushed hashes are its primary key.\<close>

locale fed_db = lookup_db +
  assumes pushed: "schema ''hashByServer'' = server_cols" "key ''hashByServer'' = server_cols"
    and sessions: "schema ''accessTokens'' = [''id'', ''data'']"
    and delete_conditions_law: "wf s \<Longrightarrow> cs \<noteq> [] \<Longrightarrow> set (map fst cs) \<subseteq> set (schema t) \<Longrightarrow> db_deleteWhere d t cs s = (ures, s') \<Longrightarrow>
          wf s' \<and> (healthy s \<longrightarrow> healthy s') \<and>
          (case ures of
             Inl e \<Rightarrow> tab s' = tab s \<and> \<not> healthy s
           | Inr _ \<Rightarrow> tab s' = (tab s)(t := {# r \<in># tab s t. \<not> list_all (\<lambda>(f, oper, v).
               sql_cmp (case oper of None \<Rightarrow> ''='' | Some x \<Rightarrow> x) (getp r f) (stored v)) cs #}))"

lemma where_conds_hold:
  assumes "mk = Qmark \<or> mk = Dollar"
  shows "list_all (cmp_holds (map (snd \<circ> snd) cs) r) (where_conds mk cs) =
    list_all (\<lambda>(f, oper, v). sql_cmp (case oper of None \<Rightarrow> ''='' | Some x \<Rightarrow> x) (getp r f) (stored v)) cs"
proof -
  have "cmp_holds (map (snd \<circ> snd) cs) r (where_conds mk cs ! i) =
      (\<lambda>(f, oper, v). sql_cmp (case oper of None \<Rightarrow> ''='' | Some x \<Rightarrow> x) (getp r f) (stored v)) (cs ! i)"
    if "i < length cs" for i
    using that assms by (cases "cs ! i") (auto simp: where_conds_def cmp_holds_def param_def)
  moreover have "length (where_conds mk cs) = length cs" by (simp add: where_conds_def)
  ultimately show ?thesis by (simp add: list_all_length)
qed

lemma where_conds_fields: "map fst (where_conds mk cs) = map fst cs"
proof (rule nth_equalityI)
  show "map fst (where_conds mk cs) ! i = map fst cs ! i" if "i < length (map fst (where_conds mk cs))" for i
    using that by (cases "cs ! i") (simp add: where_conds_def)
qed (simp add: where_conds_def)

lemma mem_delete_conditions_law:
  assumes "store_wf conf s" "cs \<noteq> []" "set (map fst cs) \<subseteq> set (schema_of conf t)" "db_deleteWhere (mem_db dia) t cs s = (res, s')"
  shows "store_wf conf s' \<and> (store_healthy s \<longrightarrow> store_healthy s') \<and>
    (case res of
       Inl e \<Rightarrow> rows_of s' = rows_of s \<and> \<not> store_healthy s
     | Inr _ \<Rightarrow> rows_of s' = (rows_of s)(t := {# r \<in># rows_of s t. \<not> list_all (\<lambda>(f, oper, v).
         sql_cmp (case oper of None \<Rightarrow> ''='' | Some x \<Rightarrow> x) (getp r f) (stored v)) cs #}))"
proof -
  obtain mk where mk: "mk = Qmark \<or> mk = Dollar"
    "void_result (exec_stmt dia (Delete t (where_conds mk cs)) (map (snd \<circ> snd) cs) s) = (res, s')"
    using assms(4)
    by (cases dia) (auto simp: mem_db.simps sqlite_backend_def sqlite_deleteWhere_def pg_backend_def pg_deleteWhere_def mem_conn_def)
  have ne: "schema_of conf t \<noteq> []" "where_conds mk cs \<noteq> []" "set (map fst (where_conds mk cs)) \<subseteq> set (schema_of conf t)"
    using assms(2,3) where_conds_fields [of mk cs] by (auto simp: where_conds_def)
  from mem_delete_conds [OF assms(1) ne _ mk(2)] where_conds_hold [OF mk(1)] show ?thesis by simp
qed

definition fed_tables :: "(string \<times> string) list" where
  "fed_tables = merged_tables (Some [(''hashByServer'', ''hash varchar(48), server text, pepper text, PRIMARY KEY (hash, server, pepper)'')])"

definition fed_layout :: "(string \<times> string list \<times> string list) list" where
  "fed_layout = take 15 tom_layout @ [(''hashByServer'', server_cols, server_cols)]"

lemma fed_layout_read: "map (\<lambda>(t, ddl). (t, col_names ddl, pk_of ddl)) fed_tables = fed_layout"
  by code_simp

lemma fed_schema_of: "schema_of fed_tables t = (case map_of fed_layout t of None \<Rightarrow> [] | Some (c, k) \<Rightarrow> c)"
  and fed_key_of: "key_of fed_tables t = (case map_of fed_layout t of None \<Rightarrow> [] | Some (c, k) \<Rightarrow> k)"
proof -
  have "map_of (map (\<lambda>(t, ddl). (t, col_names ddl, pk_of ddl)) conf) t =
      map_option (\<lambda>ddl. (col_names ddl, pk_of ddl)) (map_of conf t)" for conf
    by (induction conf) auto
  then have "map_of fed_layout t = map_option (\<lambda>ddl. (col_names ddl, pk_of ddl)) (map_of fed_tables t)"
    unfolding fed_layout_read [symmetric] .
  then show "schema_of fed_tables t = (case map_of fed_layout t of None \<Rightarrow> [] | Some (c, k) \<Rightarrow> c)"
    "key_of fed_tables t = (case map_of fed_layout t of None \<Rightarrow> [] | Some (c, k) \<Rightarrow> k)"
    by (auto simp: schema_of_def key_of_def split: option.splits)
qed

lemma fed_schema: "schema_of fed_tables ''hashByServer'' = server_cols" "schema_of fed_tables ''accessTokens'' = [''id'', ''data'']"
  "schema_of fed_tables ''hashes'' = hash_cols" "key_of fed_tables ''hashes'' = [''hash'']"
  "key_of fed_tables ''hashByServer'' = server_cols"
  "schema_of fed_tables ''keys'' = [''name'', ''data'']" "key_of fed_tables ''keys'' = [''name'']"
  unfolding fed_schema_of fed_key_of by code_simp+

interpretation federated: fed_db "mem_db dia" "store_wf fed_tables" store_healthy rows_of "schema_of fed_tables" "key_of fed_tables"
  for dia
proof (intro fed_db.intro lookup_db.intro fed_db_axioms.intro lookup_db_axioms.intro)
  show "table_db (mem_db dia) (store_wf fed_tables) store_healthy rows_of (schema_of fed_tables) (key_of fed_tables)"
    by (rule mem.table_db_axioms)
qed (simp_all add: fed_schema mem_delete_conditions_law del: set_map)

definition fed_store :: store where
  "fed_store = \<lparr>tabs = map (\<lambda>(t, c, k). (t, \<lparr>t_cols = c, t_pkey = k, t_rows = []\<rparr>)) fed_layout, faults = []\<rparr>"

lemma fed_store_wf: "store_wf fed_tables fed_store"
proof -
  have e: "fed_store = empty_store fed_tables"
    by (simp add: fed_store_def empty_store_def fed_layout_read [symmetric] case_prod_unfold comp_def)
  have "list_all2 (\<lambda>(t, ddl) (t', tb). table_wf ddl tb) fed_tables (tabs (empty_store fed_tables))"
    by (simp add: empty_store_def list.rel_map case_prod_unfold table_wf_def keys_of_def list.rel_refl split: option.split)
  moreover have "list_all (\<lambda>(t, c, k). list_all plain_col c \<and> distinct c) fed_layout" "''sqlite_master'' \<notin> set (map fst fed_layout)"
    "distinct (map fst fed_layout)"
    by code_simp+
  ultimately show ?thesis
    unfolding store_wf_def e fed_layout_read [symmetric]
    by (simp add: empty_store_def comp_def case_prod_unfold list_all_iff)
qed

section \<open>What the handlers do to the tables\<close>

lemma stored_server_row: "complete server_cols (stored_obj (server_row (JStr h) (JStr srv) (JStr p))) = server_row (JStr h) (JStr srv) (JStr p)"
  by (simp add: complete_def server_cols_def stored_obj_def server_row_def stored_def)

text \<open>The rows a push takes away: those of the server whose pepper is neither of the two of the service.\<close>

definition stale :: "string \<Rightarrow> string \<Rightarrow> string \<Rightarrow> obj \<Rightarrow> bool" where
  "stale srv p q r \<longleftrightarrow> sql_eq (getp r ''server'') (JStr srv) \<and> sql_cmp ''!='' (getp r ''pepper'') (JStr p) \<and>
     sql_cmp ''!='' (getp r ''pepper'') (JStr q)"

definition of_server :: "string \<Rightarrow> obj \<Rightarrow> bool" where
  "of_server srv r \<longleftrightarrow> sql_eq (getp r ''server'') (JStr srv)"

lemma stale_same: "stale srv p q r = stale srv q p r"
  by (auto simp: stale_def)

lemma stale_conditions:
  "list_all (\<lambda>(f, oper, v). sql_cmp (case oper of None \<Rightarrow> ''='' | Some x \<Rightarrow> x) (getp r f) (stored v)) (old_hashes (JStr srv) [JStr p, JStr q]) = stale srv p q r"
  by (simp add: old_hashes_def stale_def sql_cmp_def stored_def)

lemma own_props_obj: "own_props (JObj ps) = ps"
  by (simp add: own_props_def)

lemma is_text_list: "list_all is_text vs \<Longrightarrow> \<exists>ts. vs = map JStr ts"
proof (induction vs)
  case (Cons v vs)
  then obtain t ts where "v = JStr t" "vs = map JStr ts" by (auto simp: is_text_def split: jsval.splits)
  then show ?case by (intro exI [of _ "t # ts"]) simp
qed simp

text \<open>What a push that got past the peppers does.\<close>

definition push_effect :: "request \<Rightarrow> string \<Rightarrow> string \<Rightarrow> response \<Rightarrow> (string \<Rightarrow> obj multiset) \<Rightarrow> (string \<Rightarrow> obj multiset) \<Rightarrow> bool" where
  "push_effect req p q resp tabs0 tabs1 \<longleftrightarrow>
     (\<exists>srv hs pp done_hs. getp (own_props (body req)) ''mappings'' = JObj [(srv, JArr (map JStr hs))] \<and>
        getp (own_props (body req)) ''pepper'' = JStr pp \<and> set done_hs \<subseteq> set hs \<and>
        (resp = Json 201 (JObj []) \<and> done_hs = hs \<or> (\<forall>b. resp \<noteq> Json 201 b)) \<and>
        tabs1 = tabs0(''hashByServer'' :=
          mset (map (\<lambda>h. server_row (JStr h) (JStr srv) (JStr pp)) done_hs) + {# r \<in># tabs0 ''hashByServer''. \<not> stale srv p q r #}))"

definition valid_push :: "request \<Rightarrow> bool" where
  "valid_push req \<longleftrightarrow>
     (let c = own_props (body req) in
      text_errors ''algorithm'' (getp c ''algorithm'') @ text_errors ''pepper'' (getp c ''pepper'') @ mappings_errors (getp c ''mappings'') = [])"

lemma valid_push_shape:
  assumes "valid_push req"
  shows "\<exists>pp. getp (own_props (body req)) ''pepper'' = JStr pp \<and>
    (getp (own_props (body req)) ''mappings'' = JObj [] \<or>
     (\<exists>srv hs. getp (own_props (body req)) ''mappings'' = JObj [(srv, JArr (map JStr hs))]))"
proof -
  have "is_text (getp (own_props (body req)) ''pepper'')" "mappings_errors (getp (own_props (body req)) ''mappings'') = []"
    using assms by (auto simp: valid_push_def text_errors_def invalid_def Let_def split: if_splits)
  then show ?thesis
    by (auto simp: is_text_def mappings_errors_def invalid_def dest: is_text_list split: jsval.splits list.splits if_splits)
qed

lemma fed_refused: "fed_invalid es \<noteq> Json 201 b" "fed_unknown e \<noteq> Json 201 b"
  by (simp_all add: fed_invalid_def fed_unknown_def fed_error_def)

text \<open>What the tables and the replies say of a hash.\<close>

definition listed :: "obj multiset \<Rightarrow> string \<Rightarrow> jsval \<Rightarrow> bool" where
  "listed hs h v \<longleftrightarrow> (\<exists>r \<in># hs. getp r ''hash'' = JStr h \<and> getp r ''active'' = JNum 1 \<and> getp r ''value'' = v)"

definition known_at :: "obj multiset \<Rightarrow> string \<Rightarrow> string \<Rightarrow> bool" where
  "known_at rows srv h \<longleftrightarrow> (\<exists>r \<in># rows. getp r ''hash'' = JStr h \<and> js_str (getp r ''server'') = srv)"

definition in_group :: "obj \<Rightarrow> string \<Rightarrow> jsval \<Rightarrow> bool" where
  "in_group m srv v \<longleftrightarrow> (case getp m srv of JArr hs \<Rightarrow> v \<in> set hs | _ \<Rightarrow> False)"

definition third_party :: "response \<Rightarrow> string \<Rightarrow> string \<Rightarrow> bool" where
  "third_party resp srv h \<longleftrightarrow>
     (case resp of Json status b \<Rightarrow> status = 200 \<and> in_group (as_obj (field b ''third_party_mappings'')) srv (JStr h) | _ \<Rightarrow> False)"

lemma getp_group:
  "getp (group_by_server rows) srv =
     (let hs = map (\<lambda>r. getp r ''hash'') (filter (\<lambda>r. js_str (getp r ''server'') = srv) rows) in if hs = [] then Undef else JArr hs)"
proof (induction rows rule: rev_induct)
  case Nil
  then show ?case by (simp add: group_by_server_def getp_def)
next
  case (snoc r rows)
  have "group_by_server (rows @ [r]) = add_to_group (group_by_server rows) r" by (simp add: group_by_server_def)
  then show ?case using snoc by (auto simp: add_to_group_def Let_def)
qed

lemma in_group_rows: "in_group (group_by_server rows) srv v \<longleftrightarrow> (\<exists>r \<in> set rows. js_str (getp r ''server'') = srv \<and> getp r ''hash'' = v)"
  by (auto simp: in_group_def getp_group Let_def filter_empty_conv)

text \<open>The hashes of a request that no active row has.\<close>

definition unlisted :: "obj multiset \<Rightarrow> string list \<Rightarrow> string list" where
  "unlisted rows hs = filter (\<lambda>h. \<not> (\<exists>v. listed rows h v)) hs"

lemma third_party_unmapped:
  "third_party_hashes m (JArr (map JStr hs)) = map JStr (filter (\<lambda>h. \<forall>v. map_of m h \<noteq> Some v) hs)"
proof -
  have "JStr h \<notin> set (map (JStr \<circ> fst) m) \<longleftrightarrow> (\<forall>v. map_of m h \<noteq> Some v)" for h
    using map_of_eq_None_iff [of m h] by (cases "map_of m h") auto
  then show ?thesis by (simp add: third_party_hashes_def filter_map comp_def)
qed

lemma named_in_reply: "named_in (fed_reply additional m i rows) ''mappings'' h = map_of m h"
  by (simp add: fed_reply_def named_in_def field_def as_obj_def)

lemma third_party_reply: "third_party (fed_reply additional m i rows) srv h = in_group (group_by_server rows) srv (JStr h)"
  by (simp add: fed_reply_def third_party_def field_def as_obj_def)

context fed_db
begin

lemma insert_hash_spec:
  assumes "wf (as_db s)" "fe_db env = d" "insert_hash env (JStr srv) (JStr p) (JStr h) s = (r, s')"
  shows "wf (as_db s') \<and> (healthy (as_db s) \<longrightarrow> healthy (as_db s')) \<and>
    tab (as_db s') = (tab (as_db s))(''hashByServer'' :=
      (if r = Inr () then {#server_row (JStr h) (JStr srv) (JStr p)#} else {#}) + tab (as_db s) ''hashByServer'')"
proof -
  obtain q x where q: "db_insert d ''hashByServer'' (server_row (JStr h) (JStr srv) (JStr p)) (as_db s) = (q, x)" by fastforce
  have c: "schema ''hashByServer'' \<noteq> []" "server_row (JStr h) (JStr srv) (JStr p) \<noteq> []"
    "set (map fst (server_row (JStr h) (JStr srv) (JStr p))) \<subseteq> set (schema ''hashByServer'')"
    by (auto simp: server_row_def pushed server_cols_def)
  show ?thesis
    using insert_law [OF assms(1) c q] assms(2,3) q
    by (cases q) (auto simp: insert_hash_def as_on_db_def pushed stored_server_row)
qed

lemma insert_all_spec:
  assumes "wf (as_db s)" "fe_db env = d" "promise_all (map (insert_hash env (JStr srv) (JStr p) \<circ> JStr) hs) s = (r, s')"
  shows "\<exists>done_hs. wf (as_db s') \<and> (healthy (as_db s) \<longrightarrow> healthy (as_db s')) \<and> set done_hs \<subseteq> set hs \<and> (r = Inr () \<longrightarrow> done_hs = hs) \<and>
    tab (as_db s') = (tab (as_db s))(''hashByServer'' :=
      mset (map (\<lambda>h. server_row (JStr h) (JStr srv) (JStr p)) done_hs) + tab (as_db s) ''hashByServer'')"
  using assms(1,3)
proof (induction hs arbitrary: s r s')
  case Nil
  then show ?case by (intro exI [of _ "[]"]) auto
next
  case (Cons h hs)
  obtain r1 s1 where i: "insert_hash env (JStr srv) (JStr p) (JStr h) s = (r1, s1)" by fastforce
  obtain r2 s2 where k: "promise_all (map (insert_hash env (JStr srv) (JStr p) \<circ> JStr) hs) s1 = (r2, s2)" by fastforce
  note s1 = insert_hash_spec [OF Cons.prems(1) assms(2) i]
  have "wf (as_db s1)" using s1 by blast
  from Cons.IH [OF this k] obtain done_hs where w: "wf (as_db s2)" "healthy (as_db s1) \<longrightarrow> healthy (as_db s2)"
    "set done_hs \<subseteq> set hs" "r2 = Inr () \<longrightarrow> done_hs = hs"
    "tab (as_db s2) = (tab (as_db s1))(''hashByServer'' :=
      mset (map (\<lambda>h. server_row (JStr h) (JStr srv) (JStr p)) done_hs) + tab (as_db s1) ''hashByServer'')" by blast
  have s': "s' = s2 \<and> (r = Inr () \<longrightarrow> r1 = Inr () \<and> r2 = Inr ())" using Cons.prems(2) i k by (cases r1) (auto simp: comp_def)
  show ?case
    using w s1 s' by (intro exI [of _ "(if r1 = Inr () then [h] else []) @ done_hs"]) auto
qed

lemma read_peppers:
  assumes "wf s" "key_is (tab s ''keys'') ''pepper'' (JStr p)" "key_is (tab s ''keys'') ''previousPepper'' (JStr q)"
    "db_get d ''keys'' [''data''] (Some [(''name'', JArr [JStr ''pepper'', JStr ''previousPepper''])]) None s = (r, s')"
  shows "wf s' \<and> (healthy s \<longrightarrow> healthy s') \<and> tab s' = tab s \<and>
    (\<forall>rows. r = Inr rows \<longrightarrow> map (\<lambda>r. getp r ''data'') rows \<in> {[JStr p, JStr q], [JStr q, JStr p]})"
proof -
  let ?T = "tab s ''keys''"
  have c: "''name'' \<in> set (schema ''keys'')" "[''data''] = [''*''] \<or> set [''data''] \<subseteq> set (schema ''keys'')" by (simp_all add: keys)
  have m: "matches [(''name'', JArr [JStr ''pepper'', JStr ''previousPepper''])] =
      (\<lambda>r. sql_eq (getp r ''name'') (JStr ''pepper'') \<or> sql_eq (getp r ''name'') (JStr ''previousPepper''))"
    by (intro ext) (auto simp: matches_def kept_def match_val_def)
  have "{# r \<in># ?T. sql_eq (getp r ''name'') (JStr ''pepper'') \<or> sql_eq (getp r ''name'') (JStr ''previousPepper'') #} =
      {# r \<in># ?T. sql_eq (getp r ''name'') (JStr ''pepper'') #} + {# r \<in># ?T. sql_eq (getp r ''name'') (JStr ''previousPepper'') #}"
    by (rule multiset_eqI) (auto simp: sql_eq_def)
  then have two: "image_mset (project [''data'']) (filter_mset (matches [(''name'', JArr [JStr ''pepper'', JStr ''previousPepper''])]) ?T) =
      {#[(''data'', JStr p)], [(''data'', JStr q)]#}"
    using assms(2,3) unfolding m by (simp add: key_is_def project_def)
  have "map (\<lambda>r. getp r ''data'') rows \<in> {[JStr p, JStr q], [JStr q, JStr p]}" if "mset rows = {#[(''data'', JStr p)], [(''data'', JStr q)]#}" for rows
  proof -
    have l: "length rows = 2" using arg_cong [OF that, of size] by simp
    then obtain a b where ab: "rows = [a, b]" by (auto simp: numeral_2_eq_2 length_Suc_conv)
    then have "(a = [(''data'', JStr p)] \<and> b = [(''data'', JStr q)]) \<or> (a = [(''data'', JStr q)] \<and> b = [(''data'', JStr p)])"
      using that by (auto simp: add_eq_conv_ex)
    then show ?thesis using ab by auto
  qed
  then show ?thesis
    using get_one_Inr [OF _ assms(1) c, of "JArr [JStr ''pepper'', JStr ''previousPepper'']" None _ s']
      get_one_Inl [OF _ assms(1) c, of "JArr [JStr ''pepper'', JStr ''previousPepper'']" None _ s'] assms(4) two
    by (cases r) (auto simp: insert_commute)
qed

lemma push_inserted:
  assumes "tab x1 = tab (as_db s) \<and> (healthy (as_db s) \<longrightarrow> healthy x1)" "fe_db env = d"
    "getp (own_props (body req)) ''mappings'' = JObj [(srv, JArr (map JStr hs))]" "getp (own_props (body req)) ''pepper'' = JStr pp"
    "wf x2 \<and> (healthy x1 \<longrightarrow> healthy x2) \<and>
      (case r2 of Inl _ \<Rightarrow> tab x2 = tab x1
       | Inr _ \<Rightarrow> tab x2 = (tab x1)(''hashByServer'' := {# r \<in># tab x1 ''hashByServer''. \<not> stale srv p q r #}))"
    "promise_all (map (insert_hash env (JStr srv) (JStr pp) \<circ> JStr) hs) (s\<lparr>as_db := x2\<rparr>) = (r3, s3)"
    "(resp, s') = (case r2 of Inl e \<Rightarrow> (fed_unknown e, s\<lparr>as_db := x2\<rparr>)
       | Inr _ \<Rightarrow> (case r3 of Inl e \<Rightarrow> fed_unknown e | Inr _ \<Rightarrow> Json 201 (JObj []), s3))"
  shows "wf (as_db s') \<and> (healthy (as_db s) \<longrightarrow> healthy (as_db s')) \<and>
    (tab (as_db s') = tab (as_db s) \<and> (\<forall>b. resp \<noteq> Json 201 b) \<or> push_effect req p q resp (tab (as_db s)) (tab (as_db s')))"
proof (cases r2)
  case (Inl e)
  then show ?thesis using assms(1,5,7) fed_refused by auto
next
  case (Inr u)
  then have x2: "wf x2" "healthy (as_db s) \<longrightarrow> healthy x2"
    "tab x2 = (tab (as_db s))(''hashByServer'' := {# r \<in># tab (as_db s) ''hashByServer''. \<not> stale srv p q r #})"
    using assms(1,5) by auto
  have "wf (as_db (s\<lparr>as_db := x2\<rparr>))" using x2(1) by simp
  from insert_all_spec [OF this assms(2,6)] obtain done_hs where i: "wf (as_db s3)" "healthy x2 \<longrightarrow> healthy (as_db s3)"
    "set done_hs \<subseteq> set hs" "r3 = Inr () \<longrightarrow> done_hs = hs"
    "tab (as_db s3) = (tab x2)(''hashByServer'' :=
       mset (map (\<lambda>h. server_row (JStr h) (JStr srv) (JStr pp)) done_hs) + tab x2 ''hashByServer'')" by auto
  have s3: "s' = s3" "resp = Json 201 (JObj []) \<and> done_hs = hs \<or> (\<forall>b. resp \<noteq> Json 201 b)"
    using assms(7) Inr i(4) fed_refused by (cases r3; simp)+
  have "tab (as_db s') = (tab (as_db s))(''hashByServer'' :=
      mset (map (\<lambda>h. server_row (JStr h) (JStr srv) (JStr pp)) done_hs) + {# r \<in># tab (as_db s) ''hashByServer''. \<not> stale srv p q r #})"
    using i(5) x2(3) s3(1) by simp
  then have "push_effect req p q resp (tab (as_db s)) (tab (as_db s'))"
    unfolding push_effect_def using assms(3,4) i(3) s3(2) by blast
  then show ?thesis using i(1,2) x2(2) s3(1) by auto
qed

lemma delete_stale:
  assumes "wf x" "data \<in> {[JStr p, JStr q], [JStr q, JStr p]}" "db_deleteWhere d ''hashByServer'' (old_hashes (JStr srv) data) x = (r, x')"
  shows "wf x' \<and> (healthy x \<longrightarrow> healthy x') \<and>
    (case r of Inl _ \<Rightarrow> tab x' = tab x
     | Inr _ \<Rightarrow> tab x' = (tab x)(''hashByServer'' := {# r \<in># tab x ''hashByServer''. \<not> stale srv p q r #}))"
proof -
  have cs: "old_hashes (JStr srv) data \<noteq> []" "set (map fst (old_hashes (JStr srv) data)) \<subseteq> set (schema ''hashByServer'')"
    by (auto simp: old_hashes_def pushed server_cols_def)
  have sel: "list_all (\<lambda>(f, oper, v). sql_cmp (case oper of None \<Rightarrow> ''='' | Some x \<Rightarrow> x) (getp r f) (stored v)) (old_hashes (JStr srv) data) =
      stale srv p q r" for r
    using assms(2) stale_conditions [of r srv p q] stale_conditions [of r srv q p] stale_same [of srv q p r] by fastforce
  show ?thesis using delete_conditions_law [OF assms(1) cs assms(3)] unfolding sel by (cases r) auto
qed

lemma delete_nobody:
  assumes "wf x" "db_deleteWhere d ''hashByServer'' (old_hashes Undef data) x = (r, x')"
  shows "wf x' \<and> (healthy x \<longrightarrow> healthy x') \<and> tab x' = tab x"
proof -
  have cs: "old_hashes Undef data \<noteq> []" "set (map fst (old_hashes Undef data)) \<subseteq> set (schema ''hashByServer'')"
    by (auto simp: old_hashes_def pushed server_cols_def)
  have "\<not> list_all (\<lambda>(f, oper, v). sql_cmp (case oper of None \<Rightarrow> ''='' | Some x \<Rightarrow> x) (getp r f) (stored v)) (old_hashes Undef data)" for r
    by (simp add: old_hashes_def sql_cmp_def sql_eq_def stored_def)
  then show ?thesis using delete_conditions_law [OF assms(1) cs assms(2)] by (cases r) auto
qed

lemma push_spec:
  assumes "wf (as_db s)" "fe_db env = d" "key_is (tab (as_db s) ''keys'') ''pepper'' (JStr p)"
    "key_is (tab (as_db s) ''keys'') ''previousPepper'' (JStr q)" "fed_lookups env req s = (resp, s')"
  shows "wf (as_db s') \<and> (healthy (as_db s) \<longrightarrow> healthy (as_db s')) \<and>
    (tab (as_db s') = tab (as_db s) \<and> (\<forall>b. resp \<noteq> Json 201 b) \<or> push_effect req p q resp (tab (as_db s)) (tab (as_db s')))"
proof (cases "valid_push req")
  case False
  then show ?thesis using assms(1,5) fed_refused by (auto simp: fed_lookups_def valid_push_def Let_def)
next
  case True
  then obtain pp where pp: "getp (own_props (body req)) ''pepper'' = JStr pp"
    and maps: "getp (own_props (body req)) ''mappings'' = JObj [] \<or> (\<exists>srv hs. getp (own_props (body req)) ''mappings'' = JObj [(srv, JArr (map JStr hs))])"
    using valid_push_shape by blast
  obtain r1 x1 where k: "db_get d ''keys'' [''data''] (Some [(''name'', JArr [JStr ''pepper'', JStr ''previousPepper''])]) None (as_db s) = (r1, x1)"
    by fastforce
  note rk = read_peppers [OF assms(1,3,4) k]
  show ?thesis
  proof (cases r1)
    case (Inl e)
    then show ?thesis using assms(2,5) True k rk fed_refused by (auto simp: fed_lookups_def valid_push_def as_on_db_def Let_def)
  next
    case (Inr rows)
    have w1: "wf x1" and data: "map (\<lambda>r. getp r ''data'') rows \<in> {[JStr p, JStr q], [JStr q, JStr p]}" using rk Inr by blast+
    from maps show ?thesis
    proof
      assume e: "getp (own_props (body req)) ''mappings'' = JObj []"
      obtain r2 x2 where del: "db_deleteWhere d ''hashByServer'' (old_hashes Undef (map (\<lambda>r. getp r ''data'') rows)) x1 = (r2, x2)" by fastforce
      have "s' = s\<lparr>as_db := x2\<rparr>" and "\<forall>b. resp \<noteq> Json 201 b"
        using assms(2,5) True k Inr del e fed_refused
        by (auto simp: fed_lookups_def valid_push_def as_on_db_def own_props_obj Let_def split: sum.splits)
      then show ?thesis using delete_nobody [OF w1 del] rk by auto
    next
      assume "\<exists>srv hs. getp (own_props (body req)) ''mappings'' = JObj [(srv, JArr (map JStr hs))]"
      then obtain srv hs where m: "getp (own_props (body req)) ''mappings'' = JObj [(srv, JArr (map JStr hs))]" by blast
      obtain r2 x2 where del: "db_deleteWhere d ''hashByServer'' (old_hashes (JStr srv) (map (\<lambda>r. getp r ''data'') rows)) x1 = (r2, x2)" by fastforce
      note dl = delete_stale [OF w1 data del]
      obtain r3 s3 where ins: "promise_all (map (insert_hash env (JStr srv) (JStr pp) \<circ> JStr) hs) (s\<lparr>as_db := x2\<rparr>) = (r3, s3)" by fastforce
      have run: "(resp, s') = (case r2 of Inl e \<Rightarrow> (fed_unknown e, s\<lparr>as_db := x2\<rparr>)
          | Inr _ \<Rightarrow> (case r3 of Inl e \<Rightarrow> fed_unknown e | Inr _ \<Rightarrow> Json 201 (JObj []), s3))"
        using assms(2,5) True k Inr del m pp ins
        by (auto simp: fed_lookups_def valid_push_def as_on_db_def own_props_obj comp_def Let_def split: sum.splits)
      show ?thesis
        by (rule push_inserted [OF _ assms(2) m pp dl ins run]) (use rk in auto)
    qed
  qed
qed

text \<open>The records of active hashes and of the servers.\<close>

lemma fed_read_hashes:
  assumes "wf s" "healthy s" "all_hashed (tab s ''hashes'')"
    "db_get d ''hashes'' [''value'', ''hash'', ''active''] (Some [(''hash'', JArr (map JStr hs))]) None s = (r, s1)"
  shows "\<exists>rows. r = Inr rows \<and> wf s1 \<and> healthy s1 \<and> tab s1 = tab s \<and>
    (\<forall>h v. map_of (hash_record (filter (\<lambda>r. getp r ''active'' = JNum 1) rows)) h = Some v \<longleftrightarrow>
       (hs = [] \<or> hs = [[]] \<or> h \<in> set hs) \<and> listed (tab s ''hashes'') h v)"
proof -
  from read_hashes [OF assms(1,4)] assms(2) obtain rows where rows: "r = Inr rows" "wf s1" "healthy s1" "tab s1 = tab s" by blast
  let ?auth = "\<lambda>_ s. (CalledBack [] None, s)"
  let ?content = "[(''addresses'', JArr (map JStr hs))]"
  have l: "lookup d ?auth (int (length hs)) False ?content req \<lparr>as_db = s, as_log = []\<rparr> = (lookup_reply False rows, \<lparr>as_db = s1, as_log = []\<rparr>)" for req
    using assms(4) rows(1)
    by (simp add: lookup_def validateParameters_def missing_params_def lookup_schema_def addresses_ok_def
        is_text_def list_all_iff as_on_db_def getp_def)
  have "map_of (hash_record (filter (\<lambda>r. getp r ''active'' = JNum 1) rows)) h = Some v \<longleftrightarrow>
      (hs = [] \<or> hs = [[]] \<or> h \<in> set hs) \<and> listed (tab s ''hashes'') h v" for h v
    using lookup_named [of "\<lparr>as_db = s, as_log = []\<rparr>" ?auth req "\<lparr>as_db = s, as_log = []\<rparr>", OF _ _ _ refl order_refl _ l [of req], of h v]
      assms(1-3)
    by (auto simp: listed_def lookup_reply_def named_in_def field_def as_obj_def getp_def)
  then show ?thesis using rows by blast
qed

lemma fed_read_servers:
  assumes "wf s" "healthy s" "all_hashed (tab s ''hashByServer'')"
    "db_get d ''hashByServer'' [''hash'', ''server''] (Some [(''hash'', JArr (map JStr hs))]) None s = (r, s1)"
  shows "\<exists>rows. r = Inr rows \<and> wf s1 \<and> healthy s1 \<and> tab s1 = tab s \<and>
    (\<forall>srv h. in_group (group_by_server rows) srv (JStr h) \<longleftrightarrow>
       (hs = [] \<or> hs = [[]] \<or> h \<in> set hs) \<and> known_at (tab s ''hashByServer'') srv h)"
proof -
  let ?T = "tab s ''hashByServer''"
  have c: "''hash'' \<in> set (schema ''hashByServer'')" "[''hash'', ''server''] = [''*''] \<or> set [''hash'', ''server''] \<subseteq> set (schema ''hashByServer'')"
    by (simp_all add: pushed server_cols_def)
  have j: "join '','' hs = [] \<longleftrightarrow> hs = [] \<or> hs = [[]]" by (cases hs; cases "tl hs") auto
  have "matches [(''hash'', JArr (map JStr hs))] = (\<lambda>x. join '','' hs = [] \<or> (\<exists>h \<in> set hs. sql_eq (getp x ''hash'') (JStr h)))"
    by (intro ext) (auto simp: matches_def kept_def match_val_def list_ex_iff comp_def)
  then have m: "matches [(''hash'', JArr (map JStr hs))] = (\<lambda>x. hs = [] \<or> hs = [[]] \<or> (\<exists>h \<in> set hs. sql_eq (getp x ''hash'') (JStr h)))"
    by (simp add: j)
  obtain rows where r: "r = Inr rows" using get_one_Inl [OF _ assms(1) c] assms(2,4) by (cases r) auto
  note g = get_one_Inr [OF assms(4) [unfolded r] assms(1) c]
  have set_rows: "set rows = project [''hash'', ''server''] ` {x. x \<in># ?T \<and> matches [(''hash'', JArr (map JStr hs))] x}"
    using arg_cong [OF conjunct2 [OF conjunct2 [OF conjunct2 [OF g]]], of set_mset] by auto
  have "in_group (group_by_server rows) srv (JStr h) \<longleftrightarrow> (hs = [] \<or> hs = [[]] \<or> h \<in> set hs) \<and> known_at ?T srv h" for srv h
    using assms(3) unfolding in_group_rows set_rows m known_at_def all_hashed_def
    by (auto simp: project_def sql_eq_def)
  then show ?thesis using r g assms(2) by auto
qed

lemma fed_lookup_spec:
  assumes "fe_db env = d" "wf (as_db s)" "healthy (as_db s)" "all_hashed (tab (as_db s) ''hashes'')" "all_hashed (tab (as_db s) ''hashByServer'')"
    "is_text (getp (own_props (body req)) ''algorithm'')" "is_text (getp (own_props (body req)) ''pepper'')"
    "getp (own_props (body req)) ''addresses'' = JArr (map JStr hs)" "int (length hs) \<le> fe_limit env" "fed_lookup env req s = (resp, s')"
  shows "tab (as_db s') = tab (as_db s) \<and>
    (\<forall>h v. named_in resp ''mappings'' h = Some v \<longleftrightarrow> (hs = [] \<or> hs = [[]] \<or> h \<in> set hs) \<and> listed (tab (as_db s) ''hashes'') h v) \<and>
    (\<forall>srv h. third_party resp srv h \<longleftrightarrow> unlisted (tab (as_db s) ''hashes'') hs \<noteq> [] \<and>
       (unlisted (tab (as_db s) ''hashes'') hs = [[]] \<or> h \<in> set (unlisted (tab (as_db s) ''hashes'') hs)) \<and>
       known_at (tab (as_db s) ''hashByServer'') srv h)"
proof -
  have ok: "text_errors ''algorithm'' (getp (own_props (body req)) ''algorithm'') @ text_errors ''pepper'' (getp (own_props (body req)) ''pepper'') @
      addresses_errors (fe_limit env) (getp (own_props (body req)) ''addresses'') = []"
    using assms(6-9) by (simp add: text_errors_def addresses_errors_def list_all_iff is_text_def)
  obtain r1 x1 where g1: "db_get d ''hashes'' [''value'', ''hash'', ''active''] (Some [(''hash'', JArr (map JStr hs))]) None (as_db s) = (r1, x1)" by fastforce
  from fed_read_hashes [OF assms(2-4) g1] obtain rows where rows: "r1 = Inr rows" "wf x1" "healthy x1" "tab x1 = tab (as_db s)"
    and m: "\<And>h v. map_of (hash_record (filter (\<lambda>r. getp r ''active'' = JNum 1) rows)) h = Some v \<longleftrightarrow>
       (hs = [] \<or> hs = [[]] \<or> h \<in> set hs) \<and> listed (tab (as_db s) ''hashes'') h v" by blast
  let ?m = "hash_record (filter (\<lambda>r. getp r ''active'' = JNum 1) rows)"
  let ?i = "hash_record (filter (\<lambda>r. getp r ''active'' \<noteq> JNum 1) rows)"
  let ?un = "unlisted (tab (as_db s) ''hashes'') hs"
  have un: "third_party_hashes ?m (JArr (map JStr hs)) = map JStr ?un"
    unfolding third_party_unmapped by (auto simp: unlisted_def m intro!: arg_cong [of _ _ "map JStr"] filter_cong)
  show ?thesis
  proof (cases "?un = []")
    case True
    then have "resp = fed_reply (fe_additional env) ?m ?i []" "s' = s\<lparr>as_db := x1\<rparr>"
      using assms(1,8,10) ok g1 rows(1) un by (simp_all add: fed_lookup_def as_on_db_def Let_def)
    then show ?thesis using True rows(4) by (simp add: named_in_reply third_party_reply m in_group_rows)
  next
    case False
    obtain r2 x2 where g2: "db_get d ''hashByServer'' [''hash'', ''server''] (Some [(''hash'', JArr (map JStr ?un))]) None x1 = (r2, x2)" by fastforce
    have "all_hashed (tab x1 ''hashByServer'')" using assms(5) rows(4) by simp
    from fed_read_servers [OF rows(2,3) this g2] obtain rows2 where rows2: "r2 = Inr rows2" "tab x2 = tab (as_db s)"
      and t: "\<And>srv h. in_group (group_by_server rows2) srv (JStr h) \<longleftrightarrow> (?un = [] \<or> ?un = [[]] \<or> h \<in> set ?un) \<and> known_at (tab x1 ''hashByServer'') srv h"
      using rows(4) by auto
    have "resp = fed_reply (fe_additional env) ?m ?i rows2" "s' = s\<lparr>as_db := x2\<rparr>"
      using assms(1,8,10) ok g1 rows(1) un False g2 rows2(1) by (simp_all add: fed_lookup_def as_on_db_def Let_def)
    then show ?thesis using False rows2(2) rows(4) by (simp add: named_in_reply third_party_reply m t)
  qed
qed

end

section \<open>What a push sends\<close>

lemma fetch_all_log:
  "fetch_all net qs log = (rs, log') \<Longrightarrow> \<exists>l. log' = log @ l \<and> map fst l = qs \<and> map snd l = rs"
proof (induction qs arbitrary: log rs log')
  case (Cons q qs)
  obtain rs2 log2 where r: "fetch_all net qs (log @ [(q, net log q)]) = (rs2, log2)" by fastforce
  from Cons.IH [OF r] obtain l where "log2 = (log @ [(q, net log q)]) @ l" "map fst l = qs" "map snd l = rs2" by blast
  then show ?case using Cons.prems r by (intro exI [of _ "(q, net log q) # l"]) (auto simp: http_fetch_def)
qed simp

lemma map_result_Inr: "map_result f xs = Inr ys \<Longrightarrow> y \<in> set ys \<Longrightarrow> \<exists>x \<in> set xs. f x = Inr y"
  by (induction xs arbitrary: ys) (auto split: sum.splits)

lemma map_result_Inl: "x \<in> set xs \<Longrightarrow> f x = Inl e \<Longrightarrow> \<exists>e'. map_result f xs = Inl e'"
  by (induction xs) (auto split: sum.splits)

text \<open>A hash of the mail address or the phone number of an active user.\<close>

definition active_hash :: "nacl \<Rightarrow> (string \<times> obj) list \<Rightarrow> jsval \<Rightarrow> jsval \<Rightarrow> string \<Rightarrow> bool" where
  "active_hash nl data algorithm pepper h \<longleftrightarrow>
     (\<exists>(a, v) \<in> set data. \<exists>fld \<in> {''phone'', ''email''}. getp v ''active'' = JNum 1 \<and> \<not> nullish (getp v fld) \<and> js_str (getp v fld) \<noteq> [] \<and>
        hash_call nl (js_str algorithm)
          (hashed_text (if fld = ''phone'' then plain_phone (js_str (getp v fld)) else js_str (getp v fld)) (medium_of fld) pepper) = Inr h)"

lemma users_hashes_active:
  "getUsersHashes nl data algorithm pepper = Inr hs \<Longrightarrow> h \<in> set hs \<Longrightarrow> active_hash nl data algorithm pepper h"
proof -
  assume g: "getUsersHashes nl data algorithm pepper = Inr hs" "h \<in> set hs"
  then obtain t where t: "t \<in> set (shared_texts data pepper)" "hash_call nl (js_str algorithm) t = Inr h"
    using map_result_Inr [of "hash_call nl (js_str algorithm)" "shared_texts data pepper" hs h] by (auto simp: getUsersHashes_def)
  from t(1) obtain a v fld where "(a, v) \<in> set data" "fld \<in> set fieldsToHash" "\<not> nullish (getp v fld)" "js_str (getp v fld) \<noteq> []"
    "getp v ''active'' = JNum 1"
    "t = hashed_text (if fld = ''phone'' then plain_phone (js_str (getp v fld)) else js_str (getp v fld)) (medium_of fld) pepper"
    by (auto simp: shared_texts_def Let_def split: if_splits)
  then show ?thesis using t(2) unfolding active_hash_def fieldsToHash_def by (intro bexI [of _ "(a, v)"]) auto
qed

lemma service_details_from:
  "service_details fs acc = Inr det \<Longrightarrow> map_of det a = Some (algorithm, ps) \<Longrightarrow> map_of acc a \<noteq> Some (algorithm, ps) \<Longrightarrow>
   \<exists>f. (a, f) \<in> set fs \<and> algorithm = of_algorithm f \<and> offered_peppers f = Inr ps"
proof (induction fs acc rule: service_details.induct)
  case (2 b g fs acc)
  then obtain qs where qs: "offered_peppers g = Inr qs" "service_details fs (put b (of_algorithm g, qs) acc) = Inr det"
    by (auto split: sum.splits)
  show ?case
  proof (cases "map_of (put b (of_algorithm g, qs) acc) a = Some (algorithm, ps)")
    case True
    then have "a = b \<and> algorithm = of_algorithm g \<and> ps = qs" using "2.prems"(3) by (auto split: if_splits)
    then show ?thesis using qs(1) by auto
  next
    case False
    then show ?thesis using "2.IH" [OF qs "2.prems"(2)] by auto
  qed
qed simp

lemma planned_from:
  "(a, algorithm, p) \<in> set (planned details as) \<Longrightarrow> \<exists>ps. map_of details a = Some (algorithm, ps) \<and> p \<in> set ps"
proof -
  assume "(a, algorithm, p) \<in> set (planned details as)"
  then obtain b where "(a, algorithm, p) \<in> set (case map_of details b of None \<Rightarrow> [] | Some (algorithm, ps) \<Rightarrow> map (\<lambda>p. (b, algorithm, p)) ps)"
    by (auto simp: planned_def)
  then show ?thesis by (cases "map_of details b") auto
qed

text \<open>A push to a service with what it offered.\<close>

definition service_push :: "push_env \<Rightarrow> obj list result \<Rightarrow> (string \<times> offer) list \<Rightarrow> http_req \<Rightarrow> bool" where
  "service_push env directory found q \<longleftrightarrow>
     (\<exists>data host address f ps pepper hs. hash_data (pu_conf env) directory = Inr data \<and> pu_host env = Inr host \<and>
        (address, f) \<in> set found \<and> offered_peppers f = Inr ps \<and> pepper \<in> set ps \<and>
        getUsersHashes (pu_nacl env) data (of_algorithm f) pepper = Inr hs \<and>
        (\<forall>h \<in> set hs. active_hash (pu_nacl env) data (of_algorithm f) pepper h) \<and>
        q = push_request host address (of_algorithm f) pepper hs)"

lemma push_plan_requests:
  assumes "push_plan env directory answers = Inr qs" "q \<in> set qs"
  shows "service_push env directory (offers (service_addresses (pu_services env)) answers) q"
proof -
  obtain details data jobs host where d: "hash_data (pu_conf env) directory = Inr data" "pu_host env = Inr host"
    "service_details (offers (service_addresses (pu_services env)) answers) [] = Inr details"
    "map_result (\<lambda>(a, algorithm, p). case getUsersHashes (pu_nacl env) data algorithm p of Inl e \<Rightarrow> Inl e | Inr hs \<Rightarrow> Inr (a, algorithm, p, hs))
       (planned details (map fst (offers (service_addresses (pu_services env)) answers))) = Inr jobs"
    "qs = map (\<lambda>(a, algorithm, p, hs). push_request host a algorithm p hs) jobs"
    using assms(1) by (auto simp: push_plan_def Let_def split: sum.splits)
  obtain a algorithm p hs where j: "(a, algorithm, p, hs) \<in> set jobs" "q = push_request host a algorithm p hs"
    using assms(2) d(5) by auto
  have g: "getUsersHashes (pu_nacl env) data algorithm p = Inr hs"
    and pl: "(a, algorithm, p) \<in> set (planned details (map fst (offers (service_addresses (pu_services env)) answers)))"
    using map_result_Inr [OF d(4) j(1)] by (auto split: sum.splits simp del: set_map)
  obtain ps where ps: "map_of details a = Some (algorithm, ps)" "p \<in> set ps" using planned_from [OF pl] by blast
  obtain f where f: "(a, f) \<in> set (offers (service_addresses (pu_services env)) answers)" "algorithm = of_algorithm f"
    "offered_peppers f = Inr ps"
    using service_details_from [OF d(3) ps(1)] by auto
  have "\<forall>h \<in> set hs. active_hash (pu_nacl env) data (of_algorithm f) p h" using users_hashes_active g f(2) by blast
  then show ?thesis unfolding service_push_def using d(1,2) f ps(2) g j(2) by blast
qed

lemma service_details_other: "service_details fs acc = Inr det \<Longrightarrow> a \<notin> set (map fst fs) \<Longrightarrow> map_of det a = map_of acc a"
  by (induction fs acc rule: service_details.induct) (auto split: sum.splits)

lemma service_details_of:
  "service_details fs acc = Inr det \<Longrightarrow> distinct (map fst fs) \<Longrightarrow> (a, f) \<in> set fs \<Longrightarrow>
   \<exists>ps. offered_peppers f = Inr ps \<and> map_of det a = Some (of_algorithm f, ps)"
proof (induction fs acc rule: service_details.induct)
  case (2 b g fs acc)
  then obtain ps where ps: "offered_peppers g = Inr ps" "service_details fs (put b (of_algorithm g, ps) acc) = Inr det"
    by (auto split: sum.splits)
  show ?case
  proof (cases "(a, f) \<in> set fs")
    case True
    then show ?thesis using "2.IH" [OF ps] "2.prems"(2) by simp
  next
    case False
    then have "a = b" "f = g" using "2.prems"(3) by auto
    then show ?thesis using ps service_details_other [OF ps(2), of b] "2.prems"(2) by auto
  qed
qed simp

lemma offers_addresses: "set (map fst (offers addresses answers)) \<subseteq> set addresses"
  by (auto simp: offers_def dest: set_zip_leftD split: option.splits)

lemma offers_distinct: "distinct addresses \<Longrightarrow> distinct (map fst (offers addresses answers))"
proof (induction addresses arbitrary: answers)
  case (Cons a addresses)
  then show ?case
  proof (cases answers)
    case answers: (Cons r rs)
    have "a \<notin> set (map fst (offers addresses rs))" using offers_addresses [of addresses rs] Cons.prems by auto
    then show ?thesis using Cons answers by (auto simp: offers_def split: option.splits)
  qed (simp add: offers_def)
qed (simp add: offers_def)

lemma offered_first: "offered_peppers f = Inr ps \<Longrightarrow> of_pepper f \<in> set ps"
  by (auto simp: offered_peppers_def split: jsval.splits if_splits)

lemma planned_in:
  "a \<in> set as \<Longrightarrow> map_of details a = Some (algorithm, ps) \<Longrightarrow> p \<in> set ps \<Longrightarrow> (a, algorithm, p) \<in> set (planned details as)"
  by (force simp: planned_def)

lemma unknown_algorithm: "js_str algorithm \<notin> {''sha256'', ''sha512''} \<Longrightarrow> shared_texts data pepper \<noteq> [] \<Longrightarrow>
  \<exists>e. getUsersHashes nl data algorithm pepper = Inl e"
proof -
  assume a: "js_str algorithm \<notin> {''sha256'', ''sha512''}" "shared_texts data pepper \<noteq> []"
  then obtain t where "t \<in> set (shared_texts data pepper)" by (cases "shared_texts data pepper") auto
  moreover have "hash_call nl (js_str algorithm) t = Inl (Err ''hash[method] is not a function'')" using a(1) by (simp add: hash_call_def)
  ultimately show ?thesis unfolding getUsersHashes_def by (rule map_result_Inl)
qed

lemma shared_texts_nonempty:
  assumes "(i, v) \<in> set data" "fld \<in> {''phone'', ''email''}" "getp v fld = JStr m" "m \<noteq> []" "getp v ''active'' = JNum 1"
  shows "shared_texts data pepper \<noteq> []"
proof -
  have "hashed_text (if fld = ''phone'' then plain_phone m else m) (medium_of fld) pepper \<in> set (shared_texts data pepper)"
    using assms unfolding shared_texts_def by (auto simp: fieldsToHash_def intro!: bexI [of _ "(i, v)"])
  then show ?thesis by auto
qed

definition trusted_caller :: "'s fed_env \<Rightarrow> string \<Rightarrow> request \<Rightarrow> bool" where
  "trusted_caller env remote req \<longleftrightarrow>
     (\<exists>ip. fe_ip env (caller_address env remote req) = Some ip \<and> list_ex (fe_in_subnet env ip) (fe_trusted env))"

context fed_db
begin

lemma fed_auth_spec:
  assumes "wf (as_db s)" "fe_db env = d" "fed_auth env remote req s = (g, s')"
  shows "wf (as_db s') \<and> (healthy (as_db s) \<longrightarrow> healthy (as_db s')) \<and> tab (as_db s') = tab (as_db s) \<and>
    (g = Pass \<and> (trusted_caller env remote req \<or>
       (\<exists>token. request_token req = Some token \<and> (\<exists>r \<in># tab (as_db s) ''accessTokens''. token = [] \<or> sql_eq (getp r ''id'') (JStr token)))) \<or>
     g = Done unauthorized)"
proof (cases "fe_ip env (caller_address env remote req)")
  case None
  then show ?thesis using assms by (auto simp: fed_auth_def fed_authenticate_def)
next
  case (Some ip)
  show ?thesis
  proof (cases "list_ex (fe_in_subnet env ip) (fe_trusted env)")
    case True
    then show ?thesis using assms Some by (auto simp: fed_auth_def fed_authenticate_def trusted_caller_def)
  next
    case not_trusted: False
    show ?thesis
    proof (cases "request_token req")
      case None
      then show ?thesis using assms Some not_trusted by (auto simp: fed_auth_def fed_authenticate_def)
    next
      case token: (Some token)
      obtain r x where g: "db_get d ''accessTokens'' [''data''] (Some [(''id'', JStr token)]) None (as_db s) = (r, x)" by fastforce
      have c: "''id'' \<in> set (schema ''accessTokens'')" "[''data''] = [''*''] \<or> set [''data''] \<subseteq> set (schema ''accessTokens'')"
        by (simp_all add: sessions)
      have w: "wf x \<and> (healthy (as_db s) \<longrightarrow> healthy x) \<and> tab x = tab (as_db s)"
        using get_one_Inr [OF _ assms(1) c] get_one_Inl [OF _ assms(1) c] g by (cases r) auto
      have found: "\<exists>y \<in># tab (as_db s) ''accessTokens''. token = [] \<or> sql_eq (getp y ''id'') (JStr token)" if "r = Inr (row # rows)" for row rows
      proof -
        have m: "mset (row # rows) = image_mset (project [''data'']) (filter_mset (matches [(''id'', JStr token)]) (tab (as_db s) ''accessTokens''))"
          using get_one_Inr [OF g [unfolded that] assms(1) c] by simp
        have "row \<in># mset (row # rows)" by simp
        then show ?thesis unfolding m by (auto simp: matches_one)
      qed
      have "s' = s\<lparr>as_db := x\<rparr> \<and> (g = Done unauthorized \<or> g = Pass \<and> (\<exists>row rows. r = Inr (row # rows)))"
        using assms(2,3) Some not_trusted token g
        by (auto simp: fed_auth_def fed_authenticate_def as_on_db_def split: sum.splits list.splits if_splits)
      then show ?thesis using w found token by auto
    qed
  qed
qed

end

section \<open>Properties\<close>

text \<open>
  A request that the federated identity service lets pass comes from an address in the subnet of a
  trusted server, or carries the identifier of a stored session (an empty identifier passes with any
  session); all others are answered with 401 and leave every table as it was.
\<close>

theorem fed_guarded:
  assumes "fed_db d ok healthy tab sc k" "fe_db env = d" "ok (as_db s)" "fed_route env e remote req s = (resp, s')"
    "\<not> trusted_caller env remote req"
    "\<And>token r. request_token req = Some token \<Longrightarrow> r \<in># tab (as_db s) ''accessTokens'' \<Longrightarrow> token \<noteq> [] \<and> \<not> sql_eq (getp r ''id'') (JStr token)"
  shows "resp = unauthorized \<and> tab (as_db s') = tab (as_db s)"
proof -
  obtain g s1 where a: "fed_auth env remote req s = (g, s1)" by fastforce
  then have "g = Done unauthorized" "tab (as_db s1) = tab (as_db s)"
    using fed_db.fed_auth_spec [OF assms(1,3,2) a] assms(5,6) by auto
  then show ?thesis using assms(4) a by (simp add: fed_route_def)
qed

text \<open>
  A lookup at the federated identity service answers with the identifiers of the active local users
  that have one of the hashes, and for the other hashes with the servers that pushed them; a single
  empty hash, or no hash at all, stands for all of them.
\<close>

theorem fed_lookup_answers:
  assumes "fed_db d ok healthy tab sc k" "fe_db env = d" "ok (as_db s)" "healthy (as_db s)"
    "all_hashed (tab (as_db s) ''hashes'')" "all_hashed (tab (as_db s) ''hashByServer'')"
    "is_text (getp (own_props (body req)) ''algorithm'')" "is_text (getp (own_props (body req)) ''pepper'')"
    "getp (own_props (body req)) ''addresses'' = JArr (map JStr hs)" "int (length hs) \<le> fe_limit env" "fed_lookup env req s = (resp, s')"
  shows "tab (as_db s') = tab (as_db s) \<and>
    (\<forall>h v. named_in resp ''mappings'' h = Some v \<longleftrightarrow> (hs = [] \<or> hs = [[]] \<or> h \<in> set hs) \<and> listed (tab (as_db s) ''hashes'') h v) \<and>
    (\<forall>srv h. third_party resp srv h \<longleftrightarrow> unlisted (tab (as_db s) ''hashes'') hs \<noteq> [] \<and>
       (unlisted (tab (as_db s) ''hashes'') hs = [[]] \<or> h \<in> set (unlisted (tab (as_db s) ''hashes'') hs)) \<and>
       known_at (tab (as_db s) ''hashByServer'') srv h)"
  by (rule fed_db.fed_lookup_spec [OF assms])

text \<open>
  C18: Whatever a server pushes, and whatever goes wrong, no table but the one of the pushed hashes
  changes, and in it only rows of the server that the request names.
\<close>

theorem push_isolated:
  assumes "fed_db d ok healthy tab sc k" "fe_db env = d" "ok (as_db s)"
    "key_is (tab (as_db s) ''keys'') ''pepper'' (JStr p)" "key_is (tab (as_db s) ''keys'') ''previousPepper'' (JStr q)"
    "fed_lookups env req s = (resp, s')" "\<forall>srv \<in> set (map fst (own_props (getp (own_props (body req)) ''mappings''))). srv \<noteq> other"
  shows "(\<forall>t. t \<noteq> ''hashByServer'' \<longrightarrow> tab (as_db s') t = tab (as_db s) t) \<and>
    filter_mset (of_server other) (tab (as_db s') ''hashByServer'') = filter_mset (of_server other) (tab (as_db s) ''hashByServer'')"
proof -
  from fed_db.push_spec [OF assms(1,3,2,4-6)]
  have "tab (as_db s') = tab (as_db s) \<or> push_effect req p q resp (tab (as_db s)) (tab (as_db s'))" by blast
  then show ?thesis
  proof
    assume "push_effect req p q resp (tab (as_db s)) (tab (as_db s'))"
    then obtain srv hs pp done_hs where e: "getp (own_props (body req)) ''mappings'' = JObj [(srv, JArr (map JStr hs))]"
      "tab (as_db s') = (tab (as_db s))(''hashByServer'' :=
         mset (map (\<lambda>h. server_row (JStr h) (JStr srv) (JStr pp)) done_hs) + {# r \<in># tab (as_db s) ''hashByServer''. \<not> stale srv p q r #})"
      unfolding push_effect_def by blast
    have ne: "srv \<noteq> other" using assms(7) e(1) by (simp add: own_props_obj)
    have "filter_mset (of_server other) (mset (map (\<lambda>h. server_row (JStr h) (JStr srv) (JStr pp)) done_hs)) = {#}"
      using ne by (auto simp: filter_mset_eq_conv of_server_def server_row_def sql_eq_def)
    moreover have "filter_mset (of_server other) {# r \<in># T. \<not> stale srv p q r #} = filter_mset (of_server other) T" for T
      unfolding filter_filter_mset using ne by (intro filter_mset_cong) (auto simp: of_server_def stale_def sql_eq_def)
    ultimately show ?thesis unfolding e(2) by simp
  qed simp
qed

text \<open>
  A push that is answered with 201 has replaced what the service knew of the server by the hashes of
  the request: the rows of the server with a pepper that is neither the current one nor the one before
  are gone, those with one of the two stay.
\<close>

theorem push_replaces:
  assumes "fed_db d ok healthy tab sc k" "fe_db env = d" "ok (as_db s)"
    "key_is (tab (as_db s) ''keys'') ''pepper'' (JStr p)" "key_is (tab (as_db s) ''keys'') ''previousPepper'' (JStr q)"
    "fed_lookups env req s = (Json 201 b, s')"
  shows "\<exists>srv hs pp. getp (own_props (body req)) ''mappings'' = JObj [(srv, JArr (map JStr hs))] \<and>
    getp (own_props (body req)) ''pepper'' = JStr pp \<and>
    tab (as_db s') ''hashByServer'' = mset (map (\<lambda>h. server_row (JStr h) (JStr srv) (JStr pp)) hs) +
      {# r \<in># tab (as_db s) ''hashByServer''. \<not> stale srv p q r #}"
  using fed_db.push_spec [OF assms(1,3,2,4-6)] unfolding push_effect_def by fastforce

text \<open>
  C16: What a server pushed with success (answer 201) is found: whoever looks up one of its hashes right
  after, on a database without failures and within the limit of addresses, is told this server, unless
  the hash is the one of an active local user.
\<close>

theorem pushed_is_found:
  assumes "fed_db d ok healthy tab sc k" "fe_db env = d" "ok (as_db s)" "healthy (as_db s)"
    "all_hashed (tab (as_db s) ''hashes'')" "all_hashed (tab (as_db s) ''hashByServer'')"
    "key_is (tab (as_db s) ''keys'') ''pepper'' (JStr p)" "key_is (tab (as_db s) ''keys'') ''previousPepper'' (JStr q)"
    "fed_lookups env req s = (Json 201 b, s1)" "getp (own_props (body req)) ''mappings'' = JObj [(srv, JArr (map JStr hs))]" "h \<in> set hs"
    "is_text (getp (own_props (body req2)) ''algorithm'')" "is_text (getp (own_props (body req2)) ''pepper'')"
    "getp (own_props (body req2)) ''addresses'' = JArr (map JStr asked)" "int (length asked) \<le> fe_limit env" "h \<in> set asked"
    "\<forall>v. \<not> listed (tab (as_db s) ''hashes'') h v"
  shows "third_party (fst (fed_lookup env req2 s1)) srv h"
proof -
  from fed_db.push_spec [OF assms(1,3,2,7-9)]
  have s1: "ok (as_db s1)" "healthy (as_db s1)" and e: "push_effect req p q (Json 201 b) (tab (as_db s)) (tab (as_db s1))"
    using assms(4) by auto
  obtain pp where t: "tab (as_db s1) = (tab (as_db s))(''hashByServer'' :=
      mset (map (\<lambda>h. server_row (JStr h) (JStr srv) (JStr pp)) hs) + {# r \<in># tab (as_db s) ''hashByServer''. \<not> stale srv p q r #})"
    using e assms(10) inj_map_eq_map [of JStr] unfolding push_effect_def by (auto simp: inj_def)
  have hashed: "all_hashed (tab (as_db s1) ''hashes'')" "all_hashed (tab (as_db s1) ''hashByServer'')"
    using assms(5,6) by (auto simp: t all_hashed_def server_row_def)
  have known: "known_at (tab (as_db s1) ''hashByServer'') srv h"
    using assms(11) unfolding known_at_def t by (auto simp: server_row_def intro!: bexI [of _ "server_row (JStr h) (JStr srv) (JStr pp)"])
  have "h \<in> set (unlisted (tab (as_db s1) ''hashes'') asked)" using assms(16,17) by (simp add: unlisted_def t)
  moreover obtain resp s2 where l: "fed_lookup env req2 s1 = (resp, s2)" by fastforce
  ultimately show ?thesis
    using fed_db.fed_lookup_spec [OF assms(1,2) s1 hashed assms(12-15) l] known by auto
qed

text \<open>
  A server that pushes one of its hashes again, under a pepper that is still in use, is refused: its rows
  with this pepper were not taken away, and the primary key does not admit the same row twice.
\<close>

theorem repeated_push_refused:
  assumes "fed_db d ok healthy tab sc k" "fe_db env = d" "ok (as_db s)"
    "key_is (tab (as_db s) ''keys'') ''pepper'' (JStr p)" "key_is (tab (as_db s) ''keys'') ''previousPepper'' (JStr q)"
    "getp (own_props (body req)) ''mappings'' = JObj [(srv, JArr (map JStr hs))]" "getp (own_props (body req)) ''pepper'' = JStr pp"
    "pp \<in> {p, q}" "h \<in> set hs" "server_row (JStr h) (JStr srv) (JStr pp) \<in># tab (as_db s) ''hashByServer''"
    "fed_lookups env req s = (resp, s')"
  shows "resp \<noteq> Json 201 b"
proof
  assume resp: "resp = Json 201 b"
  let ?row = "server_row (JStr h) (JStr srv) (JStr pp)"
  from fed_db.push_spec [OF assms(1,3,2,4,5,11)] resp
  have s': "ok (as_db s')" and e: "push_effect req p q (Json 201 b) (tab (as_db s)) (tab (as_db s'))" by auto
  have t: "tab (as_db s') ''hashByServer'' = mset (map (\<lambda>h. server_row (JStr h) (JStr srv) (JStr pp)) hs) +
      {# r \<in># tab (as_db s) ''hashByServer''. \<not> stale srv p q r #}"
    using e assms(6,7) inj_map_eq_map [of JStr] unfolding push_effect_def by (auto simp: inj_def)
  obtain xs ys where "hs = xs @ h # ys" using split_list [OF assms(9)] by blast
  then obtain A where A: "mset (map (\<lambda>h. server_row (JStr h) (JStr srv) (JStr pp)) hs) = add_mset ?row A" by auto
  have "?row \<in># {# r \<in># tab (as_db s) ''hashByServer''. \<not> stale srv p q r #}"
    using assms(8,10) by (auto simp: stale_def sql_cmp_def server_row_def)
  then obtain B where B: "{# r \<in># tab (as_db s) ''hashByServer''. \<not> stale srv p q r #} = add_mset ?row B" by (rule mset_add)
  have key: "k ''hashByServer'' = server_cols" by (rule fed_db.pushed(2) [OF assms(1)])
  have "same_key server_cols (getp ?row) ?row" by (simp add: same_key_def server_cols_def server_row_def sql_eq_def)
  then have "1 < size {# r \<in># tab (as_db s') ''hashByServer''. same_key (k ''hashByServer'') (getp ?row) r #}"
    unfolding t A B key by simp
  moreover have "table_db d ok healthy tab sc k" using assms(1) by (simp add: fed_db_def lookup_db_def)
  from table_db.keys_unique [OF this s', of "''hashByServer''" "getp ?row"]
  have "size {# r \<in># tab (as_db s') ''hashByServer''. same_key (k ''hashByServer'') (getp ?row) r #} \<le> 1"
    by (simp add: key server_cols_def)
  ultimately show False by simp
qed

text \<open>
  C17: The periodic push asks each configured service for its details and then sends only requests to the
  addresses of those that answered with an offer; each carries the host of the server, the algorithm
  this service named first, one of the peppers it offered, and the hashes made with the two, which are
  all of mail addresses and phone numbers of active users.
\<close>

theorem push_shares_active_only:
  assumes "updateFederatedIdentityHashes env directory log = (r, log')"
  shows "\<exists>asked pushed. log' = log @ asked @ pushed \<and>
    map fst asked = map details_request (service_addresses (pu_services env)) \<and>
    (\<forall>q \<in> set (map fst pushed). service_push env directory (offers (service_addresses (pu_services env)) (map snd asked)) q)"
proof -
  let ?asks = "map details_request (service_addresses (pu_services env))"
  obtain answers log1 where f: "fetch_all (pu_net env) ?asks log = (answers, log1)" by fastforce
  obtain l1 where l1: "log1 = log @ l1" "map fst l1 = ?asks" "map snd l1 = answers" using fetch_all_log [OF f] by blast
  show ?thesis
  proof (cases "push_plan env directory answers")
    case (Inl e)
    then have "log' = log @ l1 @ []" using assms f l1 by (simp add: updateFederatedIdentityHashes_def)
    then show ?thesis using l1(2) by (intro exI [of _ l1] exI [of _ "[]"]) simp
  next
    case (Inr qs)
    obtain rs log2 where f2: "fetch_all (pu_net env) qs log1 = (rs, log2)" by fastforce
    obtain l2 where l2: "log2 = log1 @ l2" "map fst l2 = qs" using fetch_all_log [OF f2] by blast
    have "log' = log @ l1 @ l2" using assms f Inr f2 l1(1) l2(1) by (simp add: updateFederatedIdentityHashes_def)
    moreover have "service_push env directory (offers (service_addresses (pu_services env)) (map snd l1)) q"
      if "q \<in> set (map fst l2)" for q
      using push_plan_requests [OF Inr] that unfolding l2(2) l1(3) .
    ultimately show ?thesis using l1(2) by blast
  qed
qed

text \<open>
  C39: One service that names an algorithm the server has not got stops the whole task before anything is
  pushed to any service, as soon as one active user has a mail address or a phone number.
\<close>

theorem bad_algorithm_stops_push:
  assumes "fetch_all (pu_net env) (map details_request (service_addresses (pu_services env))) log = (answers, log1)"
    "distinct (service_addresses (pu_services env))" "(a, f) \<in> set (offers (service_addresses (pu_services env)) answers)"
    "js_str (of_algorithm f) \<notin> {''sha256'', ''sha512''}"
    "hash_data (pu_conf env) directory = Inr data" "(i, v) \<in> set data" "fld \<in> {''phone'', ''email''}" "getp v fld = JStr m" "m \<noteq> []"
    "getp v ''active'' = JNum 1"
  shows "\<exists>e. updateFederatedIdentityHashes env directory log = (Inl e, log1)"
proof -
  let ?found = "offers (service_addresses (pu_services env)) answers"
  have "\<exists>e. push_plan env directory answers = Inl e"
  proof (cases "service_details ?found []")
    case (Inr details)
    obtain ps where ps: "offered_peppers f = Inr ps" "map_of details a = Some (of_algorithm f, ps)"
      using service_details_of [OF Inr offers_distinct [OF assms(2)] assms(3)] by blast
    have "a \<in> set (map fst ?found)" using assms(3) by force
    then have job: "(a, of_algorithm f, of_pepper f) \<in> set (planned details (map fst ?found))"
      using planned_in ps(2) offered_first [OF ps(1)] by blast
    obtain e where "getUsersHashes (pu_nacl env) data (of_algorithm f) (of_pepper f) = Inl e"
      using unknown_algorithm [OF assms(4) shared_texts_nonempty [OF assms(6-10)]] by blast
    then show ?thesis
      using map_result_Inl [OF job, of "\<lambda>(a, algorithm, p). case getUsersHashes (pu_nacl env) data algorithm p of Inl e \<Rightarrow> Inl e | Inr hs \<Rightarrow> Inr (a, algorithm, p, hs)" e]
        assms(5) Inr by (auto simp: push_plan_def Let_def)
  qed (simp add: push_plan_def Let_def)
  then show ?thesis using assms(1) by (auto simp: updateFederatedIdentityHashes_def)
qed

section \<open>Witnesses\<close>

definition demo_fed :: store where
  "demo_fed = with_rows (with_rows (with_rows fed_store ''keys''
       [[(''name'', JStr ''pepper''), (''data'', JStr ''pp'')], [(''name'', JStr ''previousPepper''), (''data'', JStr ''qq'')]])
     ''hashes'' [demo_hash_row ''h1'' ''pp'' ''@ann:x''])
     ''hashByServer'' [server_row (JStr ''h2'') (JStr ''s.x'') (JStr ''old''), server_row (JStr ''h3'') (JStr ''t.x'') (JStr ''old'')]"

definition demo_fed_rows :: "string \<Rightarrow> obj multiset" where
  "demo_fed_rows = (\<lambda>t. {#})
     (''keys'' := {#[(''name'', JStr ''pepper''), (''data'', JStr ''pp'')], [(''name'', JStr ''previousPepper''), (''data'', JStr ''qq'')]#},
      ''hashes'' := {#demo_hash_row ''h1'' ''pp'' ''@ann:x''#},
      ''hashByServer'' := {#server_row (JStr ''h2'') (JStr ''s.x'') (JStr ''old''), server_row (JStr ''h3'') (JStr ''t.x'') (JStr ''old'')#})"

lemma fed_store_rows: "rows_of fed_store t = {#}"
proof -
  have "map_of (map (\<lambda>(t, c, k). (t, \<lparr>t_cols = c, t_pkey = k, t_rows = []\<rparr>)) ls) t = Some tb \<Longrightarrow> t_rows tb = []" for ls tb
    by (induction ls) (auto split: if_splits)
  then show ?thesis by (auto simp: rows_of_def fed_store_def split: option.splits)
qed

lemma demo_fed_facts: "store_wf fed_tables demo_fed" "store_healthy demo_fed" "rows_of demo_fed = demo_fed_rows"
proof -
  let ?ks = "[[(''name'', JStr ''pepper''), (''data'', JStr ''pp'')], [(''name'', JStr ''previousPepper''), (''data'', JStr ''qq'')]]"
  let ?hs = "[demo_hash_row ''h1'' ''pp'' ''@ann:x'']"
  let ?ss = "[server_row (JStr ''h2'') (JStr ''s.x'') (JStr ''old''), server_row (JStr ''h3'') (JStr ''t.x'') (JStr ''old'')]"
  let ?s1 = "with_rows fed_store ''keys'' ?ks"
  let ?s2 = "with_rows ?s1 ''hashes'' ?hs"
  have t: "store_wf fed_tables ?s1" "rows_of ?s1 = (rows_of fed_store)(''keys'' := mset ?ks)" "faults ?s1 = faults fed_store"
    by (rule with_rows_ok [OF fed_store_wf]; simp add: fed_schema keys_of_def)+
  have u: "store_wf fed_tables ?s2" "rows_of ?s2 = (rows_of ?s1)(''hashes'' := mset ?hs)" "faults ?s2 = faults ?s1"
    by (rule with_rows_ok [OF t(1)]; simp add: fed_schema hash_cols_def demo_hash_row_def keys_of_def)+
  have p: "store_wf fed_tables demo_fed" "rows_of demo_fed = (rows_of ?s2)(''hashByServer'' := mset ?ss)" "faults demo_fed = faults ?s2"
    unfolding demo_fed_def
    by (rule with_rows_ok [OF u(1)]; simp add: fed_schema server_cols_def server_row_def keys_of_def)+
  show "store_wf fed_tables demo_fed" "store_healthy demo_fed" "rows_of demo_fed = demo_fed_rows"
    using t u p by (auto simp: store_healthy_def fed_store_rows fun_eq_iff demo_fed_rows_def) (simp add: fed_store_def)
qed

definition demo_fed_env :: "dialect \<Rightarrow> store fed_env" where
  "demo_fed_env dia = \<lparr>fe_db = mem_db dia, fe_ip = Some, fe_in_subnet = (=), fe_trusted = [''10.0.0.1''], fe_trust_header = False,
     fe_limit = 10, fe_additional = True\<rparr>"

definition demo_fed_request :: "obj \<Rightarrow> request" where
  "demo_fed_request b = (demo_request [] [])\<lparr>body := JObj b\<rparr>"

definition demo_pushed :: request where
  "demo_pushed = demo_fed_request [(''algorithm'', JStr ''sha256''), (''pepper'', JStr ''pp''), (''mappings'', JObj [(''s.x'', JArr [JStr ''h4''])])]"

definition demo_asked :: request where
  "demo_asked = demo_fed_request [(''algorithm'', JStr ''sha256''), (''pepper'', JStr ''pp''), (''addresses'', JArr [JStr ''h1'', JStr ''h4''])]"

definition demo_fed_st :: "store auth_st" where
  "demo_fed_st = \<lparr>as_db = demo_fed, as_log = []\<rparr>"

lemma demo_fed_st_facts: "store_wf fed_tables (as_db demo_fed_st)" "store_healthy (as_db demo_fed_st)"
  "key_is (rows_of (as_db demo_fed_st) ''keys'') ''pepper'' (JStr ''pp'')" "key_is (rows_of (as_db demo_fed_st) ''keys'') ''previousPepper'' (JStr ''qq'')"
  "all_hashed (rows_of (as_db demo_fed_st) ''hashes'')" "all_hashed (rows_of (as_db demo_fed_st) ''hashByServer'')"
  using demo_fed_facts
  by (simp_all add: demo_fed_st_def demo_fed_rows_def key_is_def sql_eq_def all_hashed_def demo_hash_row_def server_row_def)

lemma demo_pushed_runs: "fst (fed_lookups (demo_fed_env PG) demo_pushed demo_fed_st) = Json 201 (JObj [])"
  by code_simp

theorem fed_guarded_witness:
  "fst (fed_route (demo_fed_env SQLITE) FedLookups ''10.0.0.2'' demo_pushed demo_fed_st) = unauthorized"
proof -
  obtain resp s' where r: "fed_route (demo_fed_env SQLITE) FedLookups ''10.0.0.2'' demo_pushed demo_fed_st = (resp, s')" by fastforce
  have t: "\<not> trusted_caller (demo_fed_env SQLITE) ''10.0.0.2'' demo_pushed"
    by (simp add: trusted_caller_def demo_fed_env_def caller_address_def)
  have n: "request_token demo_pushed = None"
    by (simp add: demo_pushed_def demo_fed_request_def demo_request_def request_token_def)
  have "resp = unauthorized \<and> rows_of (as_db s') = rows_of (as_db demo_fed_st)"
    by (rule fed_guarded [OF federated.fed_db_axioms _ demo_fed_st_facts(1) r t]) (simp_all add: demo_fed_env_def n)
  then show ?thesis using r by simp
qed

theorem fed_lookup_answers_witness:
  "named_in (fst (fed_lookup (demo_fed_env SQLITE) demo_asked demo_fed_st)) ''mappings'' ''h1'' = Some (JStr ''@ann:x'')"
proof -
  obtain resp s' where r: "fed_lookup (demo_fed_env SQLITE) demo_asked demo_fed_st = (resp, s')" by fastforce
  have a: "is_text (getp (own_props (body demo_asked)) ''algorithm'')" "is_text (getp (own_props (body demo_asked)) ''pepper'')"
    "getp (own_props (body demo_asked)) ''addresses'' = JArr (map JStr [''h1'', ''h4''])"
    by (simp_all add: demo_asked_def demo_fed_request_def own_props_def getp_def is_text_def)
  have l: "listed (rows_of (as_db demo_fed_st) ''hashes'') ''h1'' (JStr ''@ann:x'')"
    using demo_fed_facts(3) by (simp add: demo_fed_st_def demo_fed_rows_def listed_def demo_hash_row_def)
  have "int (length [''h1'', ''h4'']) \<le> fe_limit (demo_fed_env SQLITE)" "fe_db (demo_fed_env SQLITE) = mem_db SQLITE"
    by (simp_all add: demo_fed_env_def)
  from fed_lookup_answers [OF federated.fed_db_axioms this(2) demo_fed_st_facts(1,2,5,6) a this(1) r] l r show ?thesis by simp
qed

theorem push_isolated_witness:
  "filter_mset (of_server ''t.x'') (rows_of (as_db (snd (fed_lookups (demo_fed_env PG) demo_pushed demo_fed_st))) ''hashByServer'') =
   {#server_row (JStr ''h3'') (JStr ''t.x'') (JStr ''old'')#}"
proof -
  obtain resp s' where r: "fed_lookups (demo_fed_env PG) demo_pushed demo_fed_st = (resp, s')" by fastforce
  have o: "\<forall>srv \<in> set (map fst (own_props (getp (own_props (body demo_pushed)) ''mappings''))). srv \<noteq> ''t.x''"
    by (simp add: demo_pushed_def demo_fed_request_def own_props_def getp_def)
  have "fe_db (demo_fed_env PG) = mem_db PG" by (simp add: demo_fed_env_def)
  from push_isolated [OF federated.fed_db_axioms this demo_fed_st_facts(1,3,4) r o] r show ?thesis
    using demo_fed_facts(3) by (simp add: demo_fed_st_def demo_fed_rows_def of_server_def server_row_def sql_eq_def)
qed

theorem push_replaces_witness:
  "rows_of (as_db (snd (fed_lookups (demo_fed_env PG) demo_pushed demo_fed_st))) ''hashByServer'' =
   {#server_row (JStr ''h4'') (JStr ''s.x'') (JStr ''pp''), server_row (JStr ''h3'') (JStr ''t.x'') (JStr ''old'')#}"
proof -
  obtain s' where r: "fed_lookups (demo_fed_env PG) demo_pushed demo_fed_st = (Json 201 (JObj []), s')"
    using demo_pushed_runs by (metis prod.collapse)
  have "fe_db (demo_fed_env PG) = mem_db PG" by (simp add: demo_fed_env_def)
  from push_replaces [OF federated.fed_db_axioms this demo_fed_st_facts(1,3,4) r] show ?thesis unfolding r
    using demo_fed_facts(3) inj_map_eq_map [of JStr]
    by (auto simp: demo_fed_st_def demo_fed_rows_def stale_def server_row_def sql_eq_def sql_cmp_def demo_pushed_def
        demo_fed_request_def own_props_def getp_def inj_def map_eq_Cons_conv)
qed

theorem pushed_is_found_witness:
  "third_party (fst (fed_lookup (demo_fed_env PG) demo_asked (snd (fed_lookups (demo_fed_env PG) demo_pushed demo_fed_st)))) ''s.x'' ''h4''"
proof -
  obtain s' where r: "fed_lookups (demo_fed_env PG) demo_pushed demo_fed_st = (Json 201 (JObj []), s')"
    using demo_pushed_runs by (metis prod.collapse)
  have a: "is_text (getp (own_props (body demo_asked)) ''algorithm'')" "is_text (getp (own_props (body demo_asked)) ''pepper'')"
    "getp (own_props (body demo_asked)) ''addresses'' = JArr (map JStr [''h1'', ''h4''])"
    by (simp_all add: demo_asked_def demo_fed_request_def own_props_def getp_def is_text_def)
  have m: "getp (own_props (body demo_pushed)) ''mappings'' = JObj [(''s.x'', JArr (map JStr [''h4'']))]"
    by (simp add: demo_pushed_def demo_fed_request_def own_props_def getp_def)
  have n: "\<forall>v. \<not> listed (rows_of (as_db demo_fed_st) ''hashes'') ''h4'' v"
    using demo_fed_facts(3) by (simp add: demo_fed_st_def demo_fed_rows_def listed_def demo_hash_row_def)
  have e: "fe_db (demo_fed_env PG) = mem_db PG" "int (length [''h1'', ''h4'']) \<le> fe_limit (demo_fed_env PG)" by (simp_all add: demo_fed_env_def)
  from pushed_is_found [OF federated.fed_db_axioms e(1) demo_fed_st_facts(1,2,5,6,3,4) r m _ a e(2) _ n] r show ?thesis by simp
qed

definition demo_services :: network where
  "demo_services log q = Inr \<lparr>hp_status = 200, hp_headers = [],
     hp_body = (if starts_with (hq_url q) ''https://bad'' then str_of (JObj [(''algorithms'', JArr [JStr ''none'']), (''lookup_pepper'', JStr ''z'')])
                else str_of (JObj [(''algorithms'', JArr [JStr ''sha256'']), (''lookup_pepper'', JStr ''z'')]))\<rparr>"

definition demo_push_env :: "string list \<Rightarrow> push_env" where
  "demo_push_env as = \<lparr>pu_net = demo_services, pu_nacl = demo_nacl, pu_conf = demo_conf, pu_services = ServiceList as, pu_host = Inr ''h.x:443''\<rparr>"

definition demo_offer :: offer where
  "demo_offer = \<lparr>of_algorithm = JStr ''sha256'', of_pepper = JStr ''z'', of_others = Undef\<rparr>"

lemma demo_offers: "offers [''good''] [demo_services [] (details_request ''good'')] = [(''good'', demo_offer)]"
  by code_simp

lemma demo_shared: "\<exists>h. getUsersHashes demo_nacl [(''@bob:[::1]'', [(''email'', JStr ''b''), (''phone'', Null), (''active'', JNum 1)])]
    (JStr ''sha256'') (JStr ''z'') = Inr [h]"
proof -
  have "shared_texts [(''@bob:[::1]'', [(''email'', JStr ''b''), (''phone'', Null), (''active'', JNum 1)])] (JStr ''z'') =
      [hashed_text ''b'' (medium_of ''email'') (JStr ''z'')]" by code_simp
  moreover have "hash_call demo_nacl ''sha256'' (hashed_text ''b'' (medium_of ''email'') (JStr ''z'')) = Inr ''AQ''" by code_simp
  ultimately show ?thesis by (simp add: getUsersHashes_def)
qed

lemma demo_pushes:
  "\<exists>q. updateFederatedIdentityHashes (demo_push_env [''good'']) demo_bob [] =
     (Inr (), [(details_request ''good'', demo_services [] (details_request ''good'')),
       (q, demo_services [(details_request ''good'', demo_services [] (details_request ''good''))] q)]) \<and>
     hq_method q = ''post''"
proof -
  let ?env = "demo_push_env [''good'']"
  let ?r = "demo_services [] (details_request ''good'')"
  have e: "pu_net ?env = demo_services" "pu_nacl ?env = demo_nacl" "pu_conf ?env = demo_conf" "pu_host ?env = Inr ''h.x:443''"
    "service_addresses (pu_services ?env) = [''good'']"
    by (simp_all add: demo_push_env_def service_addresses_def)
  obtain h where h: "getUsersHashes demo_nacl [(''@bob:[::1]'', [(''email'', JStr ''b''), (''phone'', Null), (''active'', JNum 1)])]
    (JStr ''sha256'') (JStr ''z'') = Inr [h]" using demo_shared by blast
  have sd: "offered_peppers demo_offer = Inr [JStr ''z'']" "of_algorithm demo_offer = JStr ''sha256''"
    by (simp_all add: demo_offer_def offered_peppers_def)
  have "push_plan ?env demo_bob [?r] = Inr [push_request ''h.x:443'' ''good'' (JStr ''sha256'') (JStr ''z'') [h]]"
    using demo_data by (simp add: push_plan_def e demo_offers sd planned_def h)
  moreover define q where "q = push_request ''h.x:443'' ''good'' (JStr ''sha256'') (JStr ''z'') [h]"
  moreover define r where "r = ?r"
  ultimately have "push_plan ?env demo_bob [r] = Inr [q]" by simp
  then have "updateFederatedIdentityHashes ?env demo_bob [] =
      (Inr (), [(details_request ''good'', r), (q, demo_services [(details_request ''good'', r)] q)])"
    using r_def by (simp add: updateFederatedIdentityHashes_def e http_fetch_def)
  moreover have "hq_method q = ''post''" by (simp add: q_def push_request_def)
  ultimately show ?thesis unfolding r_def by blast
qed

theorem push_shares_active_only_witness:
  "\<exists>a q ans. snd (updateFederatedIdentityHashes (demo_push_env [''good'']) demo_bob []) = [a, (q, ans)] \<and> hq_method q = ''post'' \<and>
     service_push (demo_push_env [''good'']) demo_bob (offers [''good''] [snd a]) q"
proof -
  let ?env = "demo_push_env [''good'']"
  have d: "service_addresses (pu_services ?env) = [''good'']" by (simp add: demo_push_env_def service_addresses_def)
  let ?a = "(details_request ''good'', demo_services [] (details_request ''good''))"
  obtain q where q: "updateFederatedIdentityHashes ?env demo_bob [] = (Inr (), [?a, (q, demo_services [?a] q)])" "hq_method q = ''post''"
    using demo_pushes by (elim exE conjE)
  define a ans where "a = ?a" and "ans = demo_services [?a] q"
  have run: "snd (updateFederatedIdentityHashes ?env demo_bob []) = [a, (q, ans)]" unfolding q(1) a_def ans_def snd_conv ..
  obtain asked pushed where l: "snd (updateFederatedIdentityHashes ?env demo_bob []) = [] @ asked @ pushed"
    "map fst asked = map details_request (service_addresses (pu_services ?env))"
    "\<forall>q \<in> set (map fst pushed). service_push ?env demo_bob (offers (service_addresses (pu_services ?env)) (map snd asked)) q"
    using push_shares_active_only [OF prod.collapse [symmetric], of ?env demo_bob "[]"] by (elim exE conjE)
  have "length asked = 1" using arg_cong [OF l(2), of length] d by simp
  then obtain a' where a: "asked = [a']" by (cases asked) auto
  have "a' = a" "pushed = [(q, ans)]" using run(1) l(1) unfolding a by simp_all
  then show ?thesis using run q(2) l(3) unfolding a d by (intro exI [of _ a] exI [of _ q] exI [of _ ans]) simp
qed

theorem bad_algorithm_stops_push_witness:
  "\<exists>e log1. updateFederatedIdentityHashes (demo_push_env [''good'', ''bad'']) demo_bob [] = (Inl e, log1)"
proof -
  let ?env = "demo_push_env [''good'', ''bad'']"
  obtain answers log1 where f: "fetch_all (pu_net ?env) (map details_request (service_addresses (pu_services ?env))) [] = (answers, log1)" by fastforce
  have "list_ex (\<lambda>(a, f). a = ''bad'' \<and> f = \<lparr>of_algorithm = JStr ''none'', of_pepper = JStr ''z'', of_others = Undef\<rparr>)
      (offers (service_addresses (pu_services ?env)) (fst (fetch_all (pu_net ?env) (map details_request (service_addresses (pu_services ?env))) [])))"
    by code_simp
  then have o: "(''bad'', \<lparr>of_algorithm = JStr ''none'', of_pepper = JStr ''z'', of_others = Undef\<rparr>) \<in> set (offers (service_addresses (pu_services ?env)) answers)"
    unfolding f by (auto simp: list_ex_iff)
  have d: "distinct (service_addresses (pu_services ?env))" by (simp add: demo_push_env_def service_addresses_def)
  have h: "hash_data (pu_conf ?env) demo_bob = Inr [(''@bob:[::1]'', [(''email'', JStr ''b''), (''phone'', Null), (''active'', JNum 1)])]"
    using demo_data by (simp add: demo_push_env_def)
  have "\<exists>e. updateFederatedIdentityHashes ?env demo_bob [] = (Inl e, log1)"
  proof (rule bad_algorithm_stops_push [OF f d o _ h])
    show "getp [(''email'', JStr ''b''), (''phone'', Null), (''active'', JNum 1)] ''email'' = JStr ''b''"
      "getp [(''email'', JStr ''b''), (''phone'', Null), (''active'', JNum 1)] ''active'' = JNum 1"
      by code_simp+
  qed simp_all
  then show ?thesis by blast
qed

end
