(* ===== verification/Metrics.thy ===== *)
theory Metrics
  imports Express
begin

text \<open>
  The metrics of the users (\<open>tom-server/src/metrics-api\<close>).  What the Matrix database answers to the
  four queries and the clock, which every list reads for itself, are parameters; the columns of
  times are numbers.  The queries for the users are answered in the order in which they are sent.
\<close>

record metrics_env =
  mt_users :: "obj list result"
  mt_ips :: "string \<Rightarrow> obj list result"
  mt_events :: "string \<Rightarrow> obj list result"
  mt_admins :: "string \<Rightarrow> obj list result"
  mt_clock :: "nat \<Rightarrow> int"

record matrix_user =
  mu_name :: string
  mu_creation_ts :: int
  mu_last_seen_ts :: int

record user_activity =
  dailyActiveUsers :: "matrix_user list"
  weeklyActiveUsers :: "matrix_user list"
  monthlyActiveUsers :: "matrix_user list"
  weeklyNewUsers :: "matrix_user list"
  monthlyNewUsers :: "matrix_user list"

definition ONE_DAY_IN_MS :: int where
  "ONE_DAY_IN_MS = 24 * 60 * 60 * 1000"

definition ONE_WEEK_IN_MS :: int where
  "ONE_WEEK_IN_MS = 7 * ONE_DAY_IN_MS"

definition ONE_MONTH_IN_MS :: int where
  "ONE_MONTH_IN_MS = 30 * ONE_DAY_IN_MS"

definition number_col :: "obj \<Rightarrow> string \<Rightarrow> int" where
  "number_col row k = (case getp row k of JNum n \<Rightarrow> n | _ \<Rightarrow> 0)"

section \<open>The service\<close>

definition fetchUserLastSeenTime :: "metrics_env \<Rightarrow> string \<Rightarrow> int" where
  "fetchUserLastSeenTime env user =
     (case mt_ips env user of
        Inl _ \<Rightarrow> 0
      | Inr rows \<Rightarrow> foldl (\<lambda>latestTime row. if number_col row ''last_seen'' > latestTime then number_col row ''last_seen'' else latestTime) 0 rows)"

definition fetchUsersList :: "metrics_env \<Rightarrow> matrix_user list result" where
  "fetchUsersList env =
     (case mt_users env of
        Inl _ \<Rightarrow> Inl (Err ''Failed to fetch users list'')
      | Inr rows \<Rightarrow> Inr (map (\<lambda>row. let name = js_str (getp row ''name'') in
          \<lparr>mu_name = name, mu_creation_ts = number_col row ''creation_ts'' * 1000, mu_last_seen_ts = fetchUserLastSeenTime env name\<rparr>) rows))"

definition active_since :: "int \<Rightarrow> matrix_user list \<Rightarrow> matrix_user list" where
  "active_since t users = filter (\<lambda>u. mu_last_seen_ts u \<ge> t \<or> mu_creation_ts u \<ge> t) users"

definition new_since :: "int \<Rightarrow> matrix_user list \<Rightarrow> matrix_user list" where
  "new_since t users = filter (\<lambda>u. mu_creation_ts u \<ge> t) users"

definition getDailyActiveUsers :: "int \<Rightarrow> matrix_user list \<Rightarrow> matrix_user list" where
  "getDailyActiveUsers now users = active_since (now - ONE_DAY_IN_MS) users"

definition getWeeklyActiveUsers :: "int \<Rightarrow> matrix_user list \<Rightarrow> matrix_user list" where
  "getWeeklyActiveUsers now users = active_since (now - ONE_WEEK_IN_MS) users"

definition getMonthlyActiveUsers :: "int \<Rightarrow> matrix_user list \<Rightarrow> matrix_user list" where
  "getMonthlyActiveUsers now users = active_since (now - ONE_MONTH_IN_MS) users"

definition getWeeklyNewUsers :: "int \<Rightarrow> matrix_user list \<Rightarrow> matrix_user list" where
  "getWeeklyNewUsers now users = new_since (now - ONE_WEEK_IN_MS) users"

definition getMonthlyNewUsers :: "int \<Rightarrow> matrix_user list \<Rightarrow> matrix_user list" where
  "getMonthlyNewUsers now users = new_since (now - ONE_MONTH_IN_MS) users"

definition getUserActivityStats :: "metrics_env \<Rightarrow> user_activity result" where
  "getUserActivityStats env =
     (case fetchUsersList env of
        Inl _ \<Rightarrow> Inl (Err ''Failed to fetch user activity stats'')
      | Inr users \<Rightarrow> Inr \<lparr>dailyActiveUsers = getDailyActiveUsers (mt_clock env 0) users,
          weeklyActiveUsers = getWeeklyActiveUsers (mt_clock env 1) users,
          monthlyActiveUsers = getMonthlyActiveUsers (mt_clock env 2) users,
          weeklyNewUsers = getWeeklyNewUsers (mt_clock env 3) users,
          monthlyNewUsers = getMonthlyNewUsers (mt_clock env 4) users\<rparr>)"

definition getUserMessageCount :: "metrics_env \<Rightarrow> string \<Rightarrow> (string \<times> int) result" where
  "getUserMessageCount env user =
     (case mt_events env user of
        Inl _ \<Rightarrow> Inl (Err ''Failed to fetch user message count'')
      | Inr rows \<Rightarrow> Inr (user, int (length rows)))"

fun message_counts :: "metrics_env \<Rightarrow> matrix_user list \<Rightarrow> (string \<times> int) list result" where
  "message_counts env [] = Inr []"
| "message_counts env (u # us) =
     (case getUserMessageCount env (mu_name u) of
        Inl e \<Rightarrow> Inl e
      | Inr c \<Rightarrow> (case message_counts env us of Inl e \<Rightarrow> Inl e | Inr cs \<Rightarrow> Inr (c # cs)))"

definition most_messages :: "string \<times> int \<Rightarrow> string \<times> int \<Rightarrow> int" where
  "most_messages a b = snd b - snd a"

definition getUserMessageStats :: "metrics_env \<Rightarrow> (string \<times> int) list result" where
  "getUserMessageStats env =
     (case fetchUsersList env of
        Inl _ \<Rightarrow> Inl (Err ''Failed to fetch user message count'')
      | Inr users \<Rightarrow>
          (case message_counts env users of
             Inl _ \<Rightarrow> Inl (Err ''Failed to fetch user message count'')
           | Inr stats \<Rightarrow> Inr (js_sort most_messages stats)))"

section \<open>Middleware, controllers, routes\<close>

definition checkAdmin :: "metrics_env \<Rightarrow> string \<Rightarrow> bool" where
  "checkAdmin env user = (case mt_admins env user of Inl _ \<Rightarrow> False | Inr rows \<Rightarrow> rows \<noteq> [])"

definition checkPermissions :: "metrics_env \<Rightarrow> request \<Rightarrow> guard" where
  "checkPermissions env req =
     (case userId req of
        None \<Rightarrow> Done (message 400 ''Bad Request'')
      | Some u \<Rightarrow> if checkAdmin env u then Pass else Done (message 403 ''Forbidden''))"

definition user_json :: "matrix_user \<Rightarrow> jsval" where
  "user_json u = JObj [(''name'', JStr (mu_name u)), (''creation_ts'', JNum (mu_creation_ts u)), (''last_seen_ts'', JNum (mu_last_seen_ts u))]"

definition getActivityStats :: "metrics_env \<Rightarrow> response" where
  "getActivityStats env =
     (case getUserActivityStats env of
        Inl e \<Rightarrow> NextError e
      | Inr a \<Rightarrow> Json 200 (JObj [(''dailyActiveUsers'', JArr (map user_json (dailyActiveUsers a))),
          (''weeklyActiveUsers'', JArr (map user_json (weeklyActiveUsers a))), (''monthlyActiveUsers'', JArr (map user_json (monthlyActiveUsers a))),
          (''weeklyNewUsers'', JArr (map user_json (weeklyNewUsers a))), (''monthlyNewUsers'', JArr (map user_json (monthlyNewUsers a)))]))"

definition getMessageStats :: "metrics_env \<Rightarrow> response" where
  "getMessageStats env =
     (case getUserMessageStats env of
        Inl e \<Rightarrow> NextError e
      | Inr stats \<Rightarrow> Json 200 (JArr (map (\<lambda>(u, n). JObj [(''user_id'', JStr u), (''message_count'', JNum n)]) stats)))"

datatype metrics_endpoint = Activity | Messages

definition metrics_route :: "metrics_env \<Rightarrow> (request \<Rightarrow> auth_outcome) \<Rightarrow> metrics_endpoint \<Rightarrow> request \<Rightarrow> response" where
  "metrics_route env authenticator e req0 =
     (case authMiddleware authenticator req0 of
        Inl r \<Rightarrow> r
      | Inr req \<Rightarrow>
          (case checkPermissions env req of
             Done r \<Rightarrow> r
           | Pass \<Rightarrow> (case e of Activity \<Rightarrow> getActivityStats env | Messages \<Rightarrow> getMessageStats env)))"

section \<open>Properties\<close>

interpretation by_count: js_comparator most_messages
  by unfold_locales (auto simp: most_messages_def)

lemma foldl_max: "foldl (\<lambda>l x. if f x > l then f x else l) a xs = Max (insert a (f ` set xs))" for f :: "'a \<Rightarrow> int"
proof (induction xs arbitrary: a)
  case (Cons x xs)
  have m: "(if f x > a then f x else a) = max a (f x)" by simp
  have "Max (insert (max a (f x)) (f ` set xs)) = Max (insert a (insert (f x) (f ` set xs)))"
    by (cases "xs = []") (simp_all add: max.assoc)
  then show ?case using Cons.IH [of "max a (f x)"] unfolding foldl_Cons m by simp
qed simp

text \<open>The last time a user was seen is the latest of his rows, zero when the query fails or has none.\<close>

theorem last_seen_latest:
  "fetchUserLastSeenTime env user = (case mt_ips env user of Inl _ \<Rightarrow> 0 | Inr rows \<Rightarrow> Max (insert 0 ((\<lambda>r. number_col r ''last_seen'') ` set rows)))"
  by (simp add: fetchUserLastSeenTime_def foldl_max [of "\<lambda>r. number_col r ''last_seen''"] split: sum.split)

lemma message_counts_Inr:
  "message_counts env us = Inr cs \<Longrightarrow>
   list_all2 (\<lambda>u c. fst c = mu_name u \<and> (\<exists>rows. mt_events env (mu_name u) = Inr rows \<and> snd c = int (length rows))) us cs"
  by (induction us arbitrary: cs) (auto simp: getUserMessageCount_def split: sum.splits)

text \<open>
  The statistics of the messages name every user of the Matrix server once, with the number of his
  messages, the most active first.
\<close>

theorem message_stats_sorted:
  assumes "getUserMessageStats env = Inr stats"
  shows "\<exists>users cs. fetchUsersList env = Inr users \<and> mset stats = mset cs \<and>
    list_all2 (\<lambda>u c. fst c = mu_name u \<and> (\<exists>rows. mt_events env (mu_name u) = Inr rows \<and> snd c = int (length rows))) users cs \<and>
    sorted_wrt (\<lambda>a b. snd b \<le> snd a) stats"
proof -
  obtain users cs where u: "fetchUsersList env = Inr users" "message_counts env users = Inr cs" "stats = js_sort most_messages cs"
    using assms by (auto simp: getUserMessageStats_def split: sum.splits)
  have "sorted_wrt (\<lambda>a b. snd b \<le> snd a) stats"
    using by_count.js_sort_sorted [of cs] unfolding u(3) by (simp add: most_messages_def)
  then show ?thesis using u message_counts_Inr [OF u(2)] by (intro exI [of _ users] exI [of _ cs]) simp
qed

text \<open>
  Whatever time passes between the five readings of the clock, as long as it is less than six days,
  who is active in a day is active in the week and the month, and who is new is active.
\<close>

theorem activity_nested:
  assumes "getUserActivityStats env = Inr a" "\<And>i j. i \<le> 4 \<Longrightarrow> j \<le> 4 \<Longrightarrow> mt_clock env j - mt_clock env i \<le> 6 * ONE_DAY_IN_MS"
    "mt_clock env 1 \<le> mt_clock env 3" "mt_clock env 2 \<le> mt_clock env 4"
  shows "set (dailyActiveUsers a) \<subseteq> set (weeklyActiveUsers a) \<and> set (weeklyActiveUsers a) \<subseteq> set (monthlyActiveUsers a) \<and>
    set (weeklyNewUsers a) \<subseteq> set (weeklyActiveUsers a) \<and> set (monthlyNewUsers a) \<subseteq> set (monthlyActiveUsers a) \<and>
    set (weeklyNewUsers a) \<subseteq> set (monthlyNewUsers a)"
proof -
  obtain users where u: "a = \<lparr>dailyActiveUsers = getDailyActiveUsers (mt_clock env 0) users,
      weeklyActiveUsers = getWeeklyActiveUsers (mt_clock env 1) users, monthlyActiveUsers = getMonthlyActiveUsers (mt_clock env 2) users,
      weeklyNewUsers = getWeeklyNewUsers (mt_clock env 3) users, monthlyNewUsers = getMonthlyNewUsers (mt_clock env 4) users\<rparr>"
    using assms(1) by (auto simp: getUserActivityStats_def split: sum.splits)
  have c: "mt_clock env 1 - mt_clock env 0 \<le> 6 * ONE_DAY_IN_MS" "mt_clock env 2 - mt_clock env 1 \<le> 6 * ONE_DAY_IN_MS"
    "mt_clock env 4 - mt_clock env 3 \<le> 6 * ONE_DAY_IN_MS"
    using assms(2) by simp_all
  show ?thesis
    using c assms(3,4)
    by (auto simp: u getDailyActiveUsers_def getWeeklyActiveUsers_def getMonthlyActiveUsers_def getWeeklyNewUsers_def
        getMonthlyNewUsers_def active_since_def new_since_def ONE_WEEK_IN_MS_def ONE_MONTH_IN_MS_def ONE_DAY_IN_MS_def)
qed

text \<open>The metrics are answered to administrators of the Matrix server only.\<close>

theorem metrics_admin_only:
  assumes "metrics_route env authenticator e req = Json 200 b" "\<And>r. authenticator req = Answered r \<Longrightarrow> \<forall>b. r \<noteq> Json 200 b"
  shows "\<exists>content token u rows. authenticator req = CalledBack content (Some token) \<and> u = js_str (getp content ''sub'') \<and>
    mt_admins env u = Inr rows \<and> rows \<noteq> []"
  using assms
  by (auto simp: metrics_route_def authMiddleware_def checkPermissions_def checkAdmin_def message_def Let_def
      split: auth_outcome.splits option.splits if_splits sum.splits guard.splits)

end
