(* ===== verification/WellKnown.thy ===== *)
theory WellKnown
  imports Federation CommonSettings
begin

text \<open>
  The discovery document of the Tom server (\<open>tom-server/src/wellKnown\<close>).  The configuration is an object;
  the Matrix server, whose own document is merged in, is the network.  A text in a template is the
  string of the value.  The error of a handler that rejects is seen by nobody: such a request is
  never answered (\<open>None\<close>).
\<close>

definition getConfigFromMatrixServer :: "network \<Rightarrow> jsval \<Rightarrow> http_log \<Rightarrow> jsval \<times> http_log" where
  "getConfigFromMatrixServer net host log =
     (case host of
        JStr h \<Rightarrow>
          (case http_fetch net \<lparr>hq_method = ''GET'', hq_url = buildUrl h ''.well-known/matrix/client'', hq_headers = [], hq_body = []\<rparr> log of
             (Inr p, log1) \<Rightarrow> (if resp_ok p then (case resp_json p of Inl _ \<Rightarrow> JObj [] | Inr v \<Rightarrow> v) else JObj [], log1)
           | (Inl _, log1) \<Rightarrow> (JObj [], log1))
      | _ \<Rightarrow> (JObj [], log))"

definition https :: "jsval \<Rightarrow> jsval" where
  "https v = JStr (''https://'' @ js_str v @ ''/'')"

text \<open>\<open>config.features.common_settings.enabled\<close> throws when one of the first two is missing.\<close>

definition getTwakeChatConfig :: "obj \<Rightarrow> jsval result" where
  "getTwakeChatConfig conf =
     (let features = getp conf ''features'' in
      case read_prop features ''common_settings'' of
        Inl e \<Rightarrow> Inl e
      | Inr settings \<Rightarrow>
          (case (read_prop settings ''enabled'', read_prop settings ''application_url'', read_prop features ''matrix_profile_updates_allowed'') of
             (Inr enabled, Inr url, Inr allowed) \<Rightarrow>
               Inr (JObj (spread (own_props (getp conf ''twake_chat''))
                 [(''default_homeserver'', getp conf ''matrix_server''), (''homeserver'', https (getp conf ''matrix_server'')),
                  (''common_settings'', JObj [(''enabled'', enabled), (''application_url'', url)]), (''matrix_profile_updates_allowed'', allowed)]))
           | (Inl e, _, _) \<Rightarrow> Inl e
           | (_, Inl e, _) \<Rightarrow> Inl e
           | (_, _, Inl e) \<Rightarrow> Inl e))"

definition own_document :: "obj \<Rightarrow> jsval \<Rightarrow> obj" where
  "own_document conf chat =
     [(''m.homeserver'', JObj [(''base_url'', https (getp conf ''matrix_server''))]),
      (''m.identity_server'', JObj [(''base_url'', getp conf ''base_url'')]),
      (''org.matrix.msc3575.proxy'', JObj [(''url'', JStr (''https://syncv3.'' @ js_str (getp conf ''server_name'')))]),
      (''t.server'', JObj [(''base_url'', getp conf ''base_url''), (''server_name'', getp conf ''server_name'')]),
      (''m.integrations'', JObj [(''jitsi'', JObj [(''preferredDomain'', getp conf ''jitsiPreferredDomain''), (''baseUrl'', getp conf ''jitsiBaseUrl''),
         (''useJwt'', getp conf ''jitsiUseJwt'')])]),
      (''app.twake.chat'', chat)]"

definition add_services :: "obj \<Rightarrow> obj \<Rightarrow> obj" where
  "add_services conf w =
     (let addresses = (case getp conf ''federated_identity_services'' of
                         JArr vs \<Rightarrow> vs | JStr t \<Rightarrow> map JStr (split_separators t) | _ \<Rightarrow> [])
      in if addresses = [] then w else put ''m.federated_identity_services'' (JObj [(''base_urls'', JArr (map https addresses))]) w)"

text \<open>The token is written into what stands there, which the Matrix server may have replaced.\<close>

definition add_jwt :: "obj \<Rightarrow> obj \<Rightarrow> obj result" where
  "add_jwt conf w =
     (if \<not> truthy (getp conf ''jitsiUseJwt'') then Inr w
      else case read_prop (getp w ''m.integrations'') ''jitsi'' of
             Inr (JObj jitsi) \<Rightarrow>
               Inr (put ''m.integrations'' (JObj (put ''jitsi'' (JObj (put ''jwt''
                 (JObj [(''algorithm'', getp conf ''jitsiJwtAlgorithm''), (''secret'', getp conf ''jitsiJwtSecret''), (''issuer'', getp conf ''jitsiJwtIssuer'')])
                 jitsi)) (own_props (getp w ''m.integrations'')))) w)
           | Inl e \<Rightarrow> Inl e
           | _ \<Rightarrow> Inl (Err ''Cannot create property jwt''))"

text \<open>\<open>oidc_issuer.length >= 0\<close> holds of every text, also of the empty one.\<close>

definition add_issuer :: "obj \<Rightarrow> obj \<Rightarrow> obj" where
  "add_issuer conf w =
     (case getp conf ''oidc_issuer'' of
        JStr t \<Rightarrow> put ''m.authentication'' (JObj [(''issuer'', JStr t)]) w
      | JArr vs \<Rightarrow> put ''m.authentication'' (JObj [(''issuer'', JArr vs)]) w
      | _ \<Rightarrow> w)"

definition wellKnownClient :: "network \<Rightarrow> obj \<Rightarrow> http_log \<Rightarrow> response option \<times> http_log" where
  "wellKnownClient net conf log =
     (case getConfigFromMatrixServer net (getp conf ''matrix_internal_host'') log of
        (matrixConfig, log1) \<Rightarrow>
          (case getTwakeChatConfig conf of
             Inl _ \<Rightarrow> (None, log1)
           | Inr chat \<Rightarrow>
               (case add_jwt conf (add_services conf (spread (own_document conf chat) (own_props matrixConfig))) of
                  Inl _ \<Rightarrow> (None, log1)
                | Inr w \<Rightarrow> (Some (Json 200 (JObj (add_issuer conf w))), log1))))"

section \<open>Properties\<close>

lemma getp_add_issuer: "k \<noteq> ''m.authentication'' \<Longrightarrow> getp (add_issuer conf w) k = getp w k"
  by (simp add: add_issuer_def split: jsval.split)

lemma getp_add_services: "k \<noteq> ''m.federated_identity_services'' \<Longrightarrow> getp (add_services conf w) k = getp w k"
  by (simp add: add_services_def Let_def split: jsval.split)

lemma getp_add_jwt: "add_jwt conf w = Inr w' \<Longrightarrow> k \<noteq> ''m.integrations'' \<Longrightarrow> getp w' k = getp w k"
  by (auto simp: add_jwt_def split: if_splits sum.splits jsval.splits)

text \<open>
  When the token of Jitsi is in use, the secret it is signed with is part of every document that is
  answered, and the document is answered to anybody.
\<close>

theorem jitsi_secret_published:
  assumes "wellKnownClient net conf log = (Some resp, log')" "truthy (getp conf ''jitsiUseJwt'')"
  shows "\<exists>w integrations jitsi. resp = Json 200 (JObj w) \<and> getp w ''m.integrations'' = JObj integrations \<and>
    getp integrations ''jitsi'' = JObj jitsi \<and> field (getp jitsi ''jwt'') ''secret'' = getp conf ''jitsiJwtSecret''"
proof -
  obtain w0 w where w: "add_jwt conf w0 = Inr w" "resp = Json 200 (JObj (add_issuer conf w))"
    using assms(1) by (auto simp: wellKnownClient_def split: prod.splits sum.splits)
  then obtain integrations jitsi where "getp w ''m.integrations'' = JObj (put ''jitsi'' (JObj (put ''jwt''
      (JObj [(''algorithm'', getp conf ''jitsiJwtAlgorithm''), (''secret'', getp conf ''jitsiJwtSecret''), (''issuer'', getp conf ''jitsiJwtIssuer'')])
      jitsi)) integrations)"
    using assms(2) by (auto simp: add_jwt_def split: if_splits sum.splits jsval.splits)
  then show ?thesis unfolding w(2) by (simp add: getp_add_issuer field_def getp_def [of "[_, _, _]"])
qed

text \<open>
  What the Matrix server answers for itself wins over the configuration: the home server and the
  identity server a client is sent to are those of its document when they are there.
\<close>

theorem matrix_document_wins:
  assumes "wellKnownClient net conf log = (Some (Json 200 (JObj w)), log')"
    "fst (getConfigFromMatrixServer net (getp conf ''matrix_internal_host'') log) = JObj doc" "distinct (map fst doc)" "map_of doc k = Some v"
    "k \<notin> {''m.authentication'', ''m.federated_identity_services'', ''m.integrations''}"
  shows "getp w k = v"
proof -
  obtain chat w1 where w: "add_jwt conf (add_services conf (spread (own_document conf chat) doc)) = Inr w1" "w = add_issuer conf w1"
    using assms(1,2) by (auto simp: wellKnownClient_def own_props_obj split: prod.splits sum.splits)
  have "getp w k = getp (spread (own_document conf chat) doc) k"
    using assms(5) getp_add_jwt [OF w(1), of k] unfolding w(2) by (simp add: getp_add_issuer getp_add_services)
  moreover have "map_of (rev doc) k = Some v"
    using map_of_is_SomeI [of "rev doc" k v] assms(3) map_of_SomeD [OF assms(4)] by (simp add: rev_map [symmetric])
  ultimately show ?thesis by (simp add: getp_def)
qed

end
