(* ===== verification/Terms.thy ===== *)
theory Terms
  imports Federation
begin

text \<open>
  The policies of the identity server and their acceptance (\<open>matrix-identity-server/src/terms\<close>), whose
  table the authenticator reads.  The files are a parameter, a file of policies holds an object.
  The updates that are started and not awaited are done at their start.  A handler that throws
  where nothing catches it answers nothing (\<open>None\<close>).
\<close>

section \<open>The policies\<close>

text \<open>\<open>computePolicy\<close> keeps the policies in a variable of the module: its value before, and what is returned.\<close>

definition computePolicy :: "(string \<Rightarrow> string result) \<Rightarrow> jsval \<Rightarrow> jsval \<Rightarrow> jsval result" where
  "computePolicy files conf_policies policies =
     (if own_props policies \<noteq> [] then Inr policies
      else if nullish conf_policies then Inr policies
      else case conf_policies of
             JStr f \<Rightarrow>
               (case files f of
                  Inl _ \<Rightarrow> Inl (Err ''Unable to parse policies file'')
                | Inr t \<Rightarrow> (case json_parse t of Inl _ \<Rightarrow> Inl (Err ''Unable to parse policies file'') | Inr v \<Rightarrow> Inr v))
           | v \<Rightarrow> Inr v)"

definition getTerms :: "jsval \<Rightarrow> response" where
  "getTerms policies = Json 200 (JObj [(''policies'', policies)])"

text \<open>The addresses of one policy: the members that are no texts; reading from null throws.\<close>

definition policy_urls :: "obj \<Rightarrow> jsval list result" where
  "policy_urls policy = map_result (\<lambda>v. read_prop v ''url'') (filter (\<lambda>v. \<not> is_text v) (map snd policy))"

fun urls_from :: "obj \<Rightarrow> (string \<times> jsval list) list \<Rightarrow> (string \<times> jsval list) list result" where
  "urls_from [] acc = Inr acc"
| "urls_from ((policyName, policy) # ps) acc =
     (if nullish policy then urls_from ps acc
      else case policy_urls (own_props policy) of
             Inl e \<Rightarrow> Inl e
           | Inr urls \<Rightarrow>
               let newName = policyName @ '' '' @ js_str (field policy ''version'') in
               urls_from ps (if urls = [] then acc
                             else put newName ((case map_of acc newName of None \<Rightarrow> [] | Some us \<Rightarrow> us) @ urls) acc))"

definition getUrlsFromPolicies :: "jsval \<Rightarrow> (string \<times> jsval list) list result" where
  "getUrlsFromPolicies policies = urls_from (own_props policies) []"

text \<open>\<open>fillPoliciesDB\<close>, which nothing calls; a failing insertion is logged.\<close>

definition fillPoliciesDB :: "'s backend \<Rightarrow> (string \<times> jsval list) list \<Rightarrow> string \<Rightarrow> int \<Rightarrow> 's \<Rightarrow> 's" where
  "fillPoliciesDB d urls user accepted s =
     foldl (\<lambda>s (policyName, _). snd (db_insert d ''userPolicies''
       [(''policy_name'', JStr policyName), (''user_id'', JStr user), (''accepted'', JNum accepted)] s)) s urls"

section \<open>Accepting\<close>

definition accepted_names :: "(string \<times> jsval list) list \<Rightarrow> jsval list \<Rightarrow> string list" where
  "accepted_names urlsFromPolicies urls =
     concat (map (\<lambda>(policyName, us). map (\<lambda>_. policyName) (filter (\<lambda>u. u \<in> set us) urls)) urlsFromPolicies)"

text \<open>Any query parameter makes the token the one of the query, which may be missing.\<close>

definition terms_token :: "request \<Rightarrow> jsval" where
  "terms_token req =
     (if query req \<noteq> [] then (case map_of (query req) ''access_token'' of None \<Rightarrow> Undef | Some t \<Rightarrow> JStr t)
      else case map_of (headers req) ''authorization'' of
             None \<Rightarrow> JStr []
           | Some h \<Rightarrow> (case split_on CHR '' '' h of _ # t # _ \<Rightarrow> JStr t | _ \<Rightarrow> Undef))"

fun accept_all :: "'s backend \<Rightarrow> jsval \<Rightarrow> string list \<Rightarrow> 's auth_st \<Rightarrow> 's auth_st" where
  "accept_all d user [] s = s"
| "accept_all d user (p # ps) s =
     accept_all d user ps (snd (as_on_db (db_updateAnd d ''userPolicies'' [(''accepted'', JNum 1)] (''user_id'', user) (''policy_name'', JStr p)) s))"

definition accept_terms :: "'s backend \<Rightarrow> string list \<Rightarrow> request \<Rightarrow> 's auth_st \<Rightarrow> response \<times> 's auth_st" where
  "accept_terms d names req s =
     (case as_on_db (db_get d ''accessTokens'' [''data''] (Some [(''id'', terms_token req)]) None) s of
        (Inr (row # _), s1) \<Rightarrow>
          (case stored_content (getp row ''data'') of
             Inl _ \<Rightarrow> (Json 500 (errMsg ''unknown'' None), s1)
           | Inr content \<Rightarrow> (Json 200 (JObj []), accept_all d (getp content ''sub'') names s1))
      | (_, s1) \<Rightarrow> (Json 500 (errMsg ''unknown'' None), s1))"

definition PostTerms ::
  "'s backend \<Rightarrow> 's authenticator \<Rightarrow> (string \<times> jsval list) list \<Rightarrow> obj \<Rightarrow> request \<Rightarrow> 's auth_st \<Rightarrow> response option \<times> 's auth_st" where
  "PostTerms d authenticate urlsFromPolicies content req s =
     (case authenticate req s of
        (Answered r, s1) \<Rightarrow> (Some r, s1)
      | (CalledBack _ _, s1) \<Rightarrow>
          (case validateParameters [(''user_accepts'', True)] content of
             Sent status b \<Rightarrow> (Some (Json (nat status) b), s1)
           | Callback c \<Rightarrow>
               (case (case getp c ''user_accepts'' of JStr u \<Rightarrow> Some [JStr u] | JArr us \<Rightarrow> Some us
                      | _ \<Rightarrow> if urlsFromPolicies = [] then Some [] else None) of
                  None \<Rightarrow> (None, s1)
                | Some urls \<Rightarrow>
                    (let names = accepted_names urlsFromPolicies urls in
                     if names = [] then (Some (Json 400 (errMsg ''unrecognized'' (Some ''Unknown policy''))), s1)
                     else case accept_terms d names req s1 of (r, s2) \<Rightarrow> (Some r, s2)))))"

section \<open>What an acceptance does\<close>

definition accept_row :: "jsval \<Rightarrow> string list \<Rightarrow> obj \<Rightarrow> obj" where
  "accept_row user names r =
     (if sql_eq (getp r ''user_id'') user \<and> (\<exists>p \<in> set names. sql_eq (getp r ''policy_name'') (JStr p))
      then assign [(''accepted'', JNum 1)] r else r)"

lemma assign_twice: "assign vs (assign vs r) = assign vs r"
  by (auto simp: assign_def split: option.splits)

lemma accept_row_Cons:
  "accept_row user (p # ps) r =
     accept_row user ps (if both (''user_id'', user) (''policy_name'', JStr p) r then assign [(''accepted'', JNum 1)] r else r)"
  by (auto simp: accept_row_def both_def getp_assign_other assign_twice)

lemma accept_row_Nil: "accept_row user [] = (\<lambda>r. r)"
  by (rule ext) (simp add: accept_row_def)

context session_db
begin

lemma accept_all_spec:
  assumes "key ''userPolicies'' = []" "wf (as_db s)" "healthy (as_db s)"
  shows "wf (as_db (accept_all d user names s)) \<and> healthy (as_db (accept_all d user names s)) \<and>
    tab (as_db (accept_all d user names s)) = (tab (as_db s))(''userPolicies'' := image_mset (accept_row user names) (tab (as_db s) ''userPolicies''))"
  using assms(2,3)
proof (induction names arbitrary: s)
  case Nil
  then show ?case by (simp add: accept_row_Nil)
next
  case (Cons p ps)
  obtain r x where u: "db_updateAnd d ''userPolicies'' [(''accepted'', JNum 1)] (''user_id'', user) (''policy_name'', JStr p) (as_db s) = (r, x)"
    by fastforce
  have c: "schema ''userPolicies'' \<noteq> []" "[(''accepted'', JNum 1)] \<noteq> []"
    "set (fst (''user_id'', user) # fst (''policy_name'', JStr p) # map fst [(''accepted'', JNum 1)]) \<subseteq> set (schema ''userPolicies'')"
    by (simp_all add: policies)
  have so: "stored_obj [(''accepted'', JNum 1)] = [(''accepted'', JNum 1)]" by (simp add: stored_obj_def stored_def)
  obtain rs where r: "r = Inr rs" using update_and_law [OF Cons.prems(1) c u] Cons.prems(2) assms(1) by (cases r) auto
  have x: "wf x" "healthy x" "tab x = (tab (as_db s))(''userPolicies'' :=
      {# if both (''user_id'', user) (''policy_name'', JStr p) r then assign [(''accepted'', JNum 1)] r else r. r \<in># tab (as_db s) ''userPolicies'' #})"
    using update_and_law [OF Cons.prems(1) c u] Cons.prems(2) unfolding r so by auto
  have s1: "snd (as_on_db (db_updateAnd d ''userPolicies'' [(''accepted'', JNum 1)] (''user_id'', user) (''policy_name'', JStr p)) s) = s\<lparr>as_db := x\<rparr>"
    using u by (simp add: as_on_db_def)
  have w: "wf (as_db (s\<lparr>as_db := x\<rparr>))" "healthy (as_db (s\<lparr>as_db := x\<rparr>))" using x(1,2) by simp_all
  show ?case using Cons.IH [OF w] unfolding accept_all.simps s1 by (auto simp: x(3) accept_row_Cons comp_def multiset.map_comp fun_eq_iff)
qed

lemma accept_terms_spec:
  assumes "key ''userPolicies'' = []" "wf (as_db s)" "healthy (as_db s)" "accept_terms d names req s = (Json 200 b, s')"
  shows "\<exists>x content. x \<in># tab (as_db s) ''accessTokens'' \<and> matches [(''id'', terms_token req)] x \<and>
    stored_content (getp x ''data'') = Inr content \<and>
    tab (as_db s') = (tab (as_db s))(''userPolicies'' := image_mset (accept_row (getp content ''sub'') names) (tab (as_db s) ''userPolicies''))"
proof -
  obtain row rows s1 content where g: "as_on_db (db_get d ''accessTokens'' [''data''] (Some [(''id'', terms_token req)]) None) s = (Inr (row # rows), s1)"
    "stored_content (getp row ''data'') = Inr content" "s' = accept_all d (getp content ''sub'') names s1"
    using assms(4) by (auto simp: accept_terms_def split: prod.splits sum.splits list.splits)
  obtain y where y: "db_get d ''accessTokens'' [''data''] (Some [(''id'', terms_token req)]) None (as_db s) = (Inr (row # rows), y)"
    "s1 = s\<lparr>as_db := y\<rparr>" using g(1) by (rule as_on_dbE)
  have c: "''id'' \<in> set (schema ''accessTokens'')" "[''data''] = [''*''] \<or> set [''data''] \<subseteq> set (schema ''accessTokens'')"
    by (simp_all add: sessions session_cols_def)
  note r = get_one_Inr [OF y(1) assms(2) c]
  have s1: "wf (as_db s1)" "healthy (as_db s1)" "tab (as_db s1) = tab (as_db s)" using r assms(3) y(2) by simp_all
  have m: "mset (row # rows) = image_mset (project [''data'']) (filter_mset (matches [(''id'', terms_token req)]) (tab (as_db s) ''accessTokens''))"
    using r by simp
  have "row \<in># mset (row # rows)" by simp
  then obtain x where x: "x \<in># tab (as_db s) ''accessTokens''" "matches [(''id'', terms_token req)] x" "row = project [''data''] x"
    unfolding m by auto
  show ?thesis
    using accept_all_spec [OF assms(1) s1(1,2), of "getp content ''sub''" names] s1(3) g(2,3) x
    by (intro exI [of _ x] exI [of _ content]) (simp add: project_def)
qed

end

section \<open>Properties\<close>

lemma PostTerms_200:
  assumes "PostTerms d authenticate urls content req s = (Some (Json 200 b), s')" "authenticate req s = (CalledBack c t, s1)"
    "getp content ''user_accepts'' = JArr us"
  shows "accepted_names urls us \<noteq> [] \<and> accept_terms d (accepted_names urls us) req s1 = (Json 200 b, s')"
  using assms
  by (auto simp: PostTerms_def validateParameters_def missing_params_def Let_def errMsg_def split: prod.splits if_splits reply.splits)

text \<open>
  An acceptance that is answered with 200 marks the policies whose addresses were named, and no
  others, as accepted by the user of a stored session that the token of the request selects; nothing
  else changes.
\<close>

theorem terms_accepted:
  assumes "session_db d ok healthy tab sc k" "k ''userPolicies'' = []"
    "PostTerms d authenticate urls content req s = (Some (Json 200 b), s')" "authenticate req s = (CalledBack c t, s1)"
    "ok (as_db s1)" "healthy (as_db s1)" "getp content ''user_accepts'' = JArr us"
  shows "\<exists>x own. x \<in># tab (as_db s1) ''accessTokens'' \<and> matches [(''id'', terms_token req)] x \<and> stored_content (getp x ''data'') = Inr own \<and>
    tab (as_db s') = (tab (as_db s1))(''userPolicies'' :=
      image_mset (accept_row (getp own ''sub'') (accepted_names urls us)) (tab (as_db s1) ''userPolicies''))"
  using session_db.accept_terms_spec [OF assms(1,2,5,6)] PostTerms_200 [OF assms(3,4,7)] by blast

text \<open>
  With a query parameter that is not the token, the policies are accepted for the user of any
  session: when all stored sessions are of one user, for him, whoever asked.
\<close>

theorem terms_accepted_for_another:
  assumes "session_db d ok healthy tab sc k" "k ''userPolicies'' = []"
    "PostTerms d authenticate urls content req s = (Some (Json 200 b), s')" "authenticate req s = (CalledBack c t, s1)"
    "ok (as_db s1)" "healthy (as_db s1)" "getp content ''user_accepts'' = JArr us"
    "query req \<noteq> []" "map_of (query req) ''access_token'' = None"
    "\<And>x own. x \<in># tab (as_db s1) ''accessTokens'' \<Longrightarrow> stored_content (getp x ''data'') = Inr own \<Longrightarrow> getp own ''sub'' = JStr victim"
  shows "tab (as_db s') ''userPolicies'' = image_mset (accept_row (JStr victim) (accepted_names urls us)) (tab (as_db s1) ''userPolicies'')"
  using terms_accepted [OF assms(1-7)] assms(10) by auto

end
