(* ===== verification/LdapDb.thy ===== *)
theory LdapDb
  imports Sql
begin

text \<open>
  The directory of the users over LDAP (\<open>matrix-identity-server/src/userdb/ldap.ts\<close>) and the object in
  front of it with its cache (\<open>userdb/index.ts\<close>).  What the server answers to the text of a filter, its
  connection included, is a parameter.  The values of an attribute are texts, a buffer is decoded.
\<close>

datatype raw_value = RawText string | RawBuffer string | RawList "string list"

type_synonym ldap_entry = "(string \<times> raw_value) list"

type_synonym ldap_search = "string \<Rightarrow> ldap_entry list result"

record ldap_conf =
  ld_search :: ldap_search
  ld_filter :: string

text \<open>The settings, the two calls of the client, and the constructor, which reads anonymously without a name or a password.\<close>

record ldap_settings =
  ldap_uri :: "string option"
  ldap_base :: "string option"
  ldap_filter_text :: "string option"
  ldap_user :: "string option"
  ldap_password :: "string option"

record ldap_wire =
  bind_as :: "string \<Rightarrow> string \<Rightarrow> string \<Rightarrow> unit result"
  search_as :: "string \<Rightarrow> string option \<Rightarrow> string \<Rightarrow> string \<Rightarrow> ldap_entry list result"

definition text_or :: "string \<Rightarrow> string option \<Rightarrow> string" where
  "text_or d x = (case x of None \<Rightarrow> d | Some t \<Rightarrow> t)"

definition ldap_connect :: "ldap_wire \<Rightarrow> ldap_settings \<Rightarrow> string option result" where
  "ldap_connect w c =
     (case (ldap_user c, ldap_password c) of
        (Some (ch # u), Some pw) \<Rightarrow>
          (case bind_as w (text_or [] (ldap_uri c)) (ch # u) pw of Inl e \<Rightarrow> Inl e | Inr _ \<Rightarrow> Inr (Some (ch # u)))
      | _ \<Rightarrow> Inr None)"

definition UserDBLDAP :: "ldap_wire \<Rightarrow> ldap_settings \<Rightarrow> ldap_conf" where
  "UserDBLDAP w c =
     \<lparr>ld_search = (\<lambda>t. case ldap_connect w c of
          Inl e \<Rightarrow> Inl e
        | Inr who \<Rightarrow> search_as w (text_or [] (ldap_uri c)) who (text_or [] (ldap_base c)) t),
      ld_filter = text_or ''(objectClass=*)'' (ldap_filter_text c)\<rparr>"

definition attr_value :: "raw_value option \<Rightarrow> jsval" where
  "attr_value r =
     (case r of
        None \<Rightarrow> Undef
      | Some (RawText t) \<Rightarrow> JStr t
      | Some (RawBuffer t) \<Rightarrow> JStr t
      | Some (RawList []) \<Rightarrow> Undef
      | Some (RawList (t # _)) \<Rightarrow> JStr t)"

definition row_of_entry :: "string list \<Rightarrow> ldap_entry \<Rightarrow> obj" where
  "row_of_entry flds e =
     foldl (\<lambda>res k. put k (attr_value (map_of e k)) res) []
       (if flds \<noteq> [] then flds else filter (\<lambda>k. k \<noteq> ''controls'') (map fst e))"

definition real_entry :: "obj \<Rightarrow> bool" where
  "real_entry row \<longleftrightarrow> list_ex (\<lambda>(_, v). \<not> nullish v) row"

definition by_field :: "string \<Rightarrow> obj \<Rightarrow> obj \<Rightarrow> int" where
  "by_field ord a b =
     (if nullish (getp a ord) then (if nullish (getp b ord) then 0 else -1)
      else if nullish (getp b ord) then 1
      else if js_str (getp a ord) > js_str (getp b ord) then 1
      else if js_str (getp a ord) < js_str (getp b ord) then -1
      else 0)"

definition ldap_rows :: "string list \<Rightarrow> string option \<Rightarrow> ldap_entry list \<Rightarrow> obj list" where
  "ldap_rows flds ord es =
     (let rows = filter real_entry (map (row_of_entry flds) es)
      in case ord of None \<Rightarrow> rows | Some f \<Rightarrow> js_sort (by_field f) rows)"

definition ldap_fetch :: "ldap_conf \<Rightarrow> string \<Rightarrow> string list \<Rightarrow> string option \<Rightarrow> obj list result" where
  "ldap_fetch cf fl flds ord = (case ld_search cf fl of Inl e \<Rightarrow> Inl e | Inr es \<Rightarrow> Inr (ldap_rows flds ord es))"

section \<open>The text of a filter\<close>

definition item_text :: "string \<Rightarrow> string \<Rightarrow> string" where
  "item_text k v = ''('' @ k @ ''='' @ v @ '')''"

definition individual_filter :: "string \<times> jsval \<Rightarrow> string" where
  "individual_filter kv =
     (case kv of (k, v) \<Rightarrow>
        case v of
          JArr vs \<Rightarrow> ''(|'' @ concat (map (\<lambda>x. item_text k (js_str x)) vs) @ '')''
        | _ \<Rightarrow> item_text k (js_str v))"

definition specific_filter :: "obj option \<Rightarrow> string" where
  "specific_filter filterFields =
     (let fs = map individual_filter (case filterFields of None \<Rightarrow> [] | Some fl \<Rightarrow> kept fl)
      in case fs of
           [] \<Rightarrow> ''(objectClass=*)''
         | [f] \<Rightarrow> f
         | _ \<Rightarrow> ''(&'' @ concat fs @ '')'')"

definition ldap_get :: "ldap_conf \<Rightarrow> string list \<Rightarrow> obj option \<Rightarrow> string option \<Rightarrow> obj list result" where
  "ldap_get cf flds filterFields ord = ldap_fetch cf (''(&'' @ ld_filter cf @ specific_filter filterFields @ '')'') flds ord"

definition match_filter :: "string list \<Rightarrow> string \<Rightarrow> string" where
  "match_filter searchFields v =
     (let specific = concat (map (\<lambda>k. item_text k (if v \<noteq> [] then ''*'' @ v @ ''*'' else ''*'')) searchFields)
      in if length searchFields > 1 then ''(|'' @ specific @ '')'' else specific)"

definition ldap_match :: "ldap_conf \<Rightarrow> string list \<Rightarrow> string list \<Rightarrow> string \<Rightarrow> obj list result" where
  "ldap_match cf flds searchFields v =
     (if searchFields = [] then Inr [] else ldap_fetch cf (''(&'' @ ld_filter cf @ match_filter searchFields v @ '')'') flds None)"

definition ldap_getAll :: "ldap_conf \<Rightarrow> string list \<Rightarrow> string option \<Rightarrow> obj list result" where
  "ldap_getAll cf flds ord = ldap_fetch cf (ld_filter cf) flds ord"

section \<open>The object in front\<close>

type_synonym user_cache = "string \<Rightarrow> obj list option"

text \<open>\<open>/^[\w-]+$/\<close>\<close>

definition order_ok :: "string \<Rightarrow> bool" where
  "order_ok s \<longleftrightarrow> s \<noteq> [] \<and> list_all (\<lambda>c. is_digit c \<or> in_range CHR ''a'' CHR ''z'' c \<or> in_range CHR ''A'' CHR ''Z'' c \<or> c = CHR ''_'' \<or> c = CHR ''-'') s"

definition safe_order :: "string option \<Rightarrow> string option" where
  "safe_order ord = (case ord of None \<Rightarrow> None | Some f \<Rightarrow> if order_ok f then Some f else None)"

definition cache_key :: "string \<Rightarrow> string list \<Rightarrow> string option \<Rightarrow> string" where
  "cache_key table flds ord = join '','' (table # flds) @ (case ord of None \<Rightarrow> [] | Some f \<Rightarrow> ''_'' @ f)"

definition userdb_getAll ::
  "(string list \<Rightarrow> string option \<Rightarrow> obj list result) \<Rightarrow> bool \<Rightarrow> string \<Rightarrow> string list \<Rightarrow> string option \<Rightarrow> user_cache \<Rightarrow> obj list result \<times> user_cache" where
  "userdb_getAll backend caching table flds ord0 cache =
     (let ord = safe_order ord0 in
      if \<not> caching then (backend flds ord, cache)
      else let k = cache_key table flds ord in
           case cache k of
             Some data \<Rightarrow> (Inr data, cache)
           | None \<Rightarrow> (case backend flds ord of Inl e \<Rightarrow> (Inl e, cache) | Inr res \<Rightarrow> (Inr res, cache(k \<mapsto> res))))"

definition userdb_match ::
  "(string list \<Rightarrow> string list \<Rightarrow> string \<Rightarrow> string option \<Rightarrow> obj list result) \<Rightarrow> string list \<Rightarrow> string list \<Rightarrow> string \<Rightarrow> string option \<Rightarrow> obj list result" where
  "userdb_match backend flds searchFields v ord = backend flds searchFields v (safe_order ord)"

section \<open>What a filter means\<close>

text \<open>
  Filters as RFC 4515 writes and reads them.  How the values of an attribute are compared is the
  schema of the directory: a parameter for equality, one for parts and one for beginnings.
\<close>

datatype ldap_filter = FEq string string | FPresent string | FContains string string | FPrefix string string
  | FAnd "ldap_filter list" | FOr "ldap_filter list"

record matching =
  mr_eq :: "string \<Rightarrow> string \<Rightarrow> string \<Rightarrow> bool"
  mr_contains :: "string \<Rightarrow> string \<Rightarrow> string \<Rightarrow> bool"
  mr_prefix :: "string \<Rightarrow> string \<Rightarrow> string \<Rightarrow> bool"

definition values_of :: "ldap_entry \<Rightarrow> string \<Rightarrow> string list" where
  "values_of e k = (case map_of e k of None \<Rightarrow> [] | Some (RawText t) \<Rightarrow> [t] | Some (RawBuffer t) \<Rightarrow> [t] | Some (RawList ts) \<Rightarrow> ts)"

fun holds :: "matching \<Rightarrow> ldap_filter \<Rightarrow> ldap_entry \<Rightarrow> bool" where
  "holds m (FEq k v) e = list_ex (\<lambda>x. mr_eq m k x v) (values_of e k)"
| "holds m (FPresent k) e = (values_of e k \<noteq> [])"
| "holds m (FContains k v) e = list_ex (\<lambda>x. mr_contains m k x v) (values_of e k)"
| "holds m (FPrefix k v) e = list_ex (\<lambda>x. mr_prefix m k x v) (values_of e k)"
| "holds m (FAnd fs) e = list_all (\<lambda>f. holds m f e) fs"
| "holds m (FOr fs) e = list_ex (\<lambda>f. holds m f e) fs"

definition special :: "char \<Rightarrow> bool" where
  "special c \<longleftrightarrow> c \<in> {CHR ''*'', CHR ''('', CHR '')'', CHR 0x5C, CHR 0x00}"

definition hex2 :: "nat \<Rightarrow> string" where
  "hex2 n = [''0123456789abcdef'' ! (n div 16), ''0123456789abcdef'' ! (n mod 16)]"

definition escape :: "string \<Rightarrow> string" where
  "escape v = concat (map (\<lambda>c. if special c then CHR 0x5C # hex2 (of_char c) else [c]) v)"

fun show_filter :: "ldap_filter \<Rightarrow> string" where
  "show_filter (FEq k v) = item_text k (escape v)"
| "show_filter (FPresent k) = item_text k ''*''"
| "show_filter (FContains k v) = item_text k (''*'' @ escape v @ ''*'')"
| "show_filter (FPrefix k v) = item_text k (escape v @ ''*'')"
| "show_filter (FAnd fs) = ''(&'' @ concat (map show_filter fs) @ '')''"
| "show_filter (FOr fs) = ''(|'' @ concat (map show_filter fs) @ '')''"

text \<open>
  The names of attributes have no character with a meaning in a filter.  The documented behaviour of the
  server: it answers a well-formed filter with the entries that match.  There is such a server for each
  directory (\<open>ldap_server_exists\<close>), as two well-formed filters have different texts.
\<close>

definition attr_char :: "char \<Rightarrow> bool" where
  "attr_char c \<longleftrightarrow> is_digit c \<or> in_range CHR ''a'' CHR ''z'' c \<or> in_range CHR ''A'' CHR ''Z'' c \<or> c \<in> {CHR ''-'', CHR ''.'', CHR '';''}"

definition attr_name :: "string \<Rightarrow> bool" where
  "attr_name k \<longleftrightarrow> k \<noteq> [] \<and> list_all attr_char k"

fun wf_filter :: "ldap_filter \<Rightarrow> bool" where
  "wf_filter (FEq k v) = attr_name k"
| "wf_filter (FPresent k) = attr_name k"
| "wf_filter (FContains k v) = (attr_name k \<and> v \<noteq> [])"
| "wf_filter (FPrefix k v) = (attr_name k \<and> v \<noteq> [])"
| "wf_filter (FAnd fs) = list_all wf_filter fs"
| "wf_filter (FOr fs) = list_all wf_filter fs"

definition ldap_server :: "matching \<Rightarrow> ldap_entry list \<Rightarrow> ldap_search \<Rightarrow> bool" where
  "ldap_server m es search \<longleftrightarrow> (\<forall>f. wf_filter f \<longrightarrow> search (show_filter f) = Inr (filter (holds m f) es))"

definition plain :: "string \<Rightarrow> bool" where
  "plain v \<longleftrightarrow> list_all (\<lambda>c. \<not> special c) v"

lemma escape_plain: "plain v \<Longrightarrow> escape v = v"
  by (induction v) (auto simp: plain_def escape_def)

definition wanted_item :: "string \<times> jsval \<Rightarrow> ldap_filter" where
  "wanted_item kv = (case kv of (k, v) \<Rightarrow> case v of JArr vs \<Rightarrow> FOr (map (\<lambda>x. FEq k (js_str x)) vs) | _ \<Rightarrow> FEq k (js_str v))"

definition plain_item :: "string \<times> jsval \<Rightarrow> bool" where
  "plain_item kv = (case kv of (k, v) \<Rightarrow> case v of JArr vs \<Rightarrow> list_all (\<lambda>x. plain (js_str x)) vs | _ \<Rightarrow> plain (js_str v))"

definition kept_items :: "obj option \<Rightarrow> obj" where
  "kept_items filterFields = (case filterFields of None \<Rightarrow> [] | Some fl \<Rightarrow> kept fl)"

definition wanted :: "obj option \<Rightarrow> ldap_filter" where
  "wanted filterFields =
     (case map wanted_item (kept_items filterFields) of [] \<Rightarrow> FPresent ''objectClass'' | [f] \<Rightarrow> f | fs \<Rightarrow> FAnd fs)"

lemma individual_wanted: "plain_item kv \<Longrightarrow> individual_filter kv = show_filter (wanted_item kv)"
  by (auto simp: plain_item_def individual_filter_def wanted_item_def escape_plain list_all_iff
      intro!: arg_cong [of _ _ concat] split: jsval.splits)

lemma specific_wanted:
  assumes "list_all plain_item (kept_items filterFields)"
  shows "specific_filter filterFields = show_filter (wanted filterFields)"
proof -
  have e: "map individual_filter (kept_items filterFields) = map show_filter (map wanted_item (kept_items filterFields))"
    using assms individual_wanted by (simp add: list_all_iff)
  have c: "(case map show_filter gs of [] \<Rightarrow> ''(objectClass=*)'' | [f] \<Rightarrow> f | _ \<Rightarrow> ''(&'' @ concat (map show_filter gs) @ '')'') =
      show_filter (case gs of [] \<Rightarrow> FPresent ''objectClass'' | [f] \<Rightarrow> f | fs \<Rightarrow> FAnd fs)" for gs
    by (cases gs; cases "tl gs") (auto simp: item_text_def)
  show ?thesis unfolding specific_filter_def wanted_def kept_items_def [symmetric] Let_def e by (rule c)
qed

lemma wf_wanted: "list_all (attr_name \<circ> fst) (kept_items filterFields) \<Longrightarrow> wf_filter (wanted filterFields)"
proof -
  assume a: "list_all (attr_name \<circ> fst) (kept_items filterFields)"
  have "wf_filter (wanted_item kv)" if "attr_name (fst kv)" for kv
    using that by (auto simp: wanted_item_def list_all_iff split: prod.splits jsval.splits)
  then have "list_all wf_filter (map wanted_item (kept_items filterFields))" using a by (simp add: list_all_iff)
  moreover have "wf_filter (FPresent ''objectClass'')" by code_simp
  ultimately show ?thesis unfolding wanted_def by (auto split: list.split)
qed

lemma ldap_fetch_answer:
  assumes "ldap_server m es (ld_search cf)" "t = show_filter f" "wf_filter f" "\<And>e. holds m f e \<longleftrightarrow> P e"
  shows "ldap_fetch cf t flds ord = Inr (ldap_rows flds ord (filter P es))"
proof -
  have "holds m f = P" using assms(4) by (intro ext) simp
  then show ?thesis using assms(1-3) by (simp add: ldap_fetch_def ldap_server_def)
qed

section \<open>The texts of well-formed filters are different\<close>

lemma escape_Cons: "escape (c # v) = (if special c then CHR 0x5C # hex2 (of_char c) else [c]) @ escape v"
  by (simp add: escape_def)

lemma escape_Nil [simp]: "escape [] = []"
  by (simp add: escape_def)

lemma escape_inj: "escape v = escape w \<Longrightarrow> v = w"
proof (induction v arbitrary: w)
  case Nil
  then show ?case by (cases w) (auto simp: escape_Cons split: if_splits)
next
  case (Cons c v)
  then obtain d w' where w: "w = d # w'" by (cases w) (auto simp: escape_Cons split: if_splits)
  have "c = d \<and> escape v = escape w'"
    using Cons.prems unfolding w escape_Cons
    by (auto simp: special_def hex2_def split: if_splits)
  then show ?case using Cons.IH w by simp
qed

lemma escape_chars: "c \<in> set (escape v) \<Longrightarrow> c \<noteq> CHR '')'' \<and> c \<noteq> CHR ''*''"
  by (induction v) (auto simp: escape_Cons special_def hex2_def split: if_splits)

lemma escape_ne: "v \<noteq> [] \<Longrightarrow> escape v \<noteq> []"
  by (cases v) (auto simp: escape_Cons)

fun leaf :: "ldap_filter \<Rightarrow> (string \<times> string) option" where
  "leaf (FEq k v) = Some (k, escape v)"
| "leaf (FPresent k) = Some (k, ''*'')"
| "leaf (FContains k v) = Some (k, ''*'' @ escape v @ ''*'')"
| "leaf (FPrefix k v) = Some (k, escape v @ ''*'')"
| "leaf _ = None"

lemma show_leaf: "leaf f = Some (k, t) \<Longrightarrow> show_filter f = item_text k t"
  by (cases f) auto

lemma leaf_shape:
  assumes "leaf f = Some (k, t)" "wf_filter f"
  shows "attr_name k" "CHR '')'' \<notin> set t"
  using assms by (cases f; auto dest: escape_chars)+

lemma split_first: "x \<notin> set a \<Longrightarrow> x \<notin> set b \<Longrightarrow> a @ x # r = b @ x # s \<Longrightarrow> a = b \<and> r = s"
proof (induction a arbitrary: b)
  case Nil
  then show ?case by (cases b) auto
next
  case (Cons y a)
  then show ?case by (cases b) auto
qed

lemma split_last_star: "a @ ''*'' = b @ ''*'' \<longleftrightarrow> a = b"
  by simp

lemma star_free: "CHR ''*'' \<notin> set (escape v)"
  using escape_chars by blast

lemma leaf_inj:
  assumes "leaf f = Some (k, t)" "leaf g = Some (k, t)" "wf_filter f" "wf_filter g"
  shows "f = g"
proof -
  have s: "CHR ''*'' \<in> set t" if "t = a @ ''*'' \<or> t = ''*'' @ a" for a using that by auto
  have e: "t = escape v \<Longrightarrow> CHR ''*'' \<notin> set t" for v using star_free by simp
  have p: "t = escape v @ ''*'' \<Longrightarrow> v \<noteq> [] \<Longrightarrow> hd t \<noteq> CHR ''*''" for v
    using star_free [of v] escape_ne [of v] by (cases "escape v") auto
  have l: "t = ''*'' @ escape v @ ''*'' \<Longrightarrow> t \<noteq> ''*''" for v by simp
  show ?thesis
  proof (cases f)
    case (FEq a v)
    then have "CHR ''*'' \<notin> set t" using assms(1) e by auto
    then show ?thesis using FEq assms(1,2) by (cases g) (auto dest: escape_inj)
  next
    case (FPresent a)
    then have t: "t = ''*''" "a = k" using assms(1) by auto
    show ?thesis
    proof (cases g)
      case (FEq b v)
      then show ?thesis using assms(2) t e [of v] by auto
    next
      case (FPrefix b v)
      then show ?thesis using assms(2,4) t p [of v] by auto
    qed (use assms(2) t \<open>f = FPresent a\<close> in auto)
  next
    case (FContains a v)
    then have t: "t = ''*'' @ escape v @ ''*''" "a = k" using assms(1) by auto
    show ?thesis
    proof (cases g)
      case (FEq b w)
      then show ?thesis using assms(2) t e [of w] by auto
    next
      case (FPrefix b w)
      then show ?thesis using assms(2,4) t p [of w] by auto
    qed (use assms(2) t \<open>f = FContains a v\<close> in \<open>auto dest: escape_inj\<close>)
  next
    case (FPrefix a v)
    then have t: "t = escape v @ ''*''" "a = k" "hd t \<noteq> CHR ''*''" using assms(1,3) p by auto
    show ?thesis
    proof (cases g)
      case (FEq b w)
      then show ?thesis using assms(2) t(1) e [of w] by auto
    next
      case (FPrefix b w)
      then show ?thesis using assms(2) t(1,2) \<open>f = FPrefix a v\<close> by (auto dest: escape_inj)
    next
      case (FContains b w)
      then have "hd t = CHR ''*''" using assms(2) by auto
      then show ?thesis using t(3) by simp
    next
      case (FPresent b)
      then have "hd t = CHR ''*''" using assms(2) by auto
      then show ?thesis using t(3) by simp
    qed (use assms(2) in auto)
  qed (use assms(1) in auto)
qed

lemma attr_not_eq: "attr_name k \<Longrightarrow> CHR ''='' \<notin> set k"
  by (auto simp: attr_name_def list_all_iff attr_char_def is_digit_def in_range_def)

lemma attr_hd: "attr_name k \<Longrightarrow> \<exists>c r. k = c # r \<and> c \<noteq> CHR ''&'' \<and> c \<noteq> CHR ''|''"
  by (cases k) (auto simp: attr_name_def attr_char_def is_digit_def in_range_def)

lemma show_open: "\<exists>r. show_filter f = CHR ''('' # r"
  by (cases f) (auto simp: item_text_def)

lemma list_unique:
  assumes "\<And>f g r s. f \<in> set fs \<Longrightarrow> wf_filter f \<Longrightarrow> wf_filter g \<Longrightarrow> show_filter f @ r = show_filter g @ s \<Longrightarrow> f = g \<and> r = s"
    "list_all wf_filter fs" "list_all wf_filter gs"
    "concat (map show_filter fs) @ CHR '')'' # r = concat (map show_filter gs) @ CHR '')'' # s"
  shows "fs = gs \<and> r = s"
  using assms
proof (induction fs arbitrary: gs)
  case Nil
  then show ?case using show_open [of "hd gs"] by (cases gs) auto
next
  case (Cons f fs)
  obtain g gs' where gs: "gs = g # gs'"
    using Cons.prems(4) show_open [of f] by (cases gs) auto
  have "f = g \<and> concat (map show_filter fs) @ CHR '')'' # r = concat (map show_filter gs') @ CHR '')'' # s"
    using Cons.prems(2-4) by (intro Cons.prems(1)) (auto simp: gs)
  moreover have "fs = gs' \<and> r = s" if "concat (map show_filter fs) @ CHR '')'' # r = concat (map show_filter gs') @ CHR '')'' # s"
    using Cons.prems(2,3) gs that by (intro Cons.IH Cons.prems(1)) auto
  ultimately show ?case using gs by simp
qed

lemma leaf_unique:
  assumes "leaf f = Some (k, t)" "wf_filter f" "wf_filter g" "show_filter f @ r = show_filter g @ s"
  shows "f = g \<and> r = s"
proof (cases "leaf g")
  case None
  obtain c k' where "k = c # k'" "c \<noteq> CHR ''&''" "c \<noteq> CHR ''|''" using attr_hd [OF leaf_shape(1) [OF assms(1,2)]] by blast
  then show ?thesis using assms(4) None show_leaf [OF assms(1)] by (cases g) (auto simp: item_text_def)
next
  case (Some kt)
  obtain k' t' where g: "leaf g = Some (k', t')" using Some by (cases kt) auto
  have "k @ CHR ''='' # (t @ CHR '')'' # r) = k' @ CHR ''='' # (t' @ CHR '')'' # s)"
    using assms(4) show_leaf [OF assms(1)] show_leaf [OF g] by (simp add: item_text_def)
  then have k: "k = k' \<and> t @ CHR '')'' # r = t' @ CHR '')'' # s"
    by (rule split_first [OF attr_not_eq [OF leaf_shape(1) [OF assms(1,2)]] attr_not_eq [OF leaf_shape(1) [OF g assms(3)]]])
  have t: "t = t' \<and> r = s"
    by (rule split_first [OF leaf_shape(2) [OF assms(1,2)] leaf_shape(2) [OF g assms(3)] conjunct2 [OF k]])
  have "leaf g = Some (k, t)" using g k t by simp
  then have "f = g" by (rule leaf_inj [OF assms(1) _ assms(2,3)])
  then show ?thesis using t by simp
qed

lemma show_unique: "wf_filter f \<Longrightarrow> wf_filter g \<Longrightarrow> show_filter f @ r = show_filter g @ s \<Longrightarrow> f = g \<and> r = s"
proof (induction f arbitrary: g r s)
  case (FAnd fs)
  show ?case
  proof (cases g)
    case g: (FAnd gs)
    have "fs = gs \<and> r = s"
    proof (rule list_unique)
      show "h = h' \<and> r' = s'" if "h \<in> set fs" "wf_filter h" "wf_filter h'" "show_filter h @ r' = show_filter h' @ s'" for h h' r' s'
        by (rule FAnd.IH [OF that])
    qed (use FAnd.prems g in simp_all)
    then show ?thesis using g by simp
  next
    case (FOr gs)
    then show ?thesis using FAnd.prems by simp
  qed (use leaf_unique [OF _ FAnd.prems(2,1) FAnd.prems(3) [symmetric]] in auto)
next
  case (FOr fs)
  show ?case
  proof (cases g)
    case (FAnd gs)
    then show ?thesis using FOr.prems by simp
  next
    case g: (FOr gs)
    have "fs = gs \<and> r = s"
    proof (rule list_unique)
      show "h = h' \<and> r' = s'" if "h \<in> set fs" "wf_filter h" "wf_filter h'" "show_filter h @ r' = show_filter h' @ s'" for h h' r' s'
        by (rule FOr.IH [OF that])
    qed (use FOr.prems g in simp_all)
    then show ?thesis using g by simp
  qed (use leaf_unique [OF _ FOr.prems(2,1) FOr.prems(3) [symmetric]] in auto)
next
  case (FEq k v)
  show ?case by (rule leaf_unique [OF _ FEq.prems]) simp
next
  case (FPresent k)
  show ?case by (rule leaf_unique [OF _ FPresent.prems]) simp
next
  case (FContains k v)
  show ?case by (rule leaf_unique [OF _ FContains.prems]) simp
next
  case (FPrefix k v)
  show ?case by (rule leaf_unique [OF _ FPrefix.prems]) simp
qed

lemma show_filter_inj: "wf_filter f \<Longrightarrow> wf_filter g \<Longrightarrow> show_filter f = show_filter g \<Longrightarrow> f = g"
  using show_unique [of f g "[]" "[]"] by simp

theorem ldap_server_exists:
  "ldap_server m es (\<lambda>t. Inr (filter (holds m (inv_into (Collect wf_filter) show_filter t)) es))"
proof -
  have "inv_into (Collect wf_filter) show_filter (show_filter f) = f" if "wf_filter f" for f
    using that show_filter_inj by (intro inv_into_f_f) (auto simp: inj_on_def)
  then show ?thesis by (simp add: ldap_server_def)
qed

section \<open>Properties\<close>

interpretation ldap_order: js_comparator "by_field ord" for ord
  by unfold_locales (auto simp: by_field_def split: if_splits)

text \<open>
  A read answers with the entries that match the filter of the configuration and have, for each key
  of the request that is kept, one of its values, in the requested order; provided that no value has
  one of the five characters that mean something in a filter.
\<close>

theorem ldap_get_matches:
  assumes "ldap_server m es (ld_search cf)" "ld_filter cf = show_filter b" "wf_filter b"
    "list_all plain_item (kept_items filterFields)" "list_all (attr_name \<circ> fst) (kept_items filterFields)"
  shows "ldap_get cf flds filterFields ord =
    Inr (ldap_rows flds ord (filter (\<lambda>e. holds m b e \<and> holds m (wanted filterFields) e) es))"
proof -
  have t: "''(&'' @ ld_filter cf @ specific_filter filterFields @ '')'' = show_filter (FAnd [b, wanted filterFields])"
    using assms(2) specific_wanted [OF assms(4)] by simp
  show ?thesis unfolding ldap_get_def
    by (rule ldap_fetch_answer [OF assms(1) t]) (simp_all add: assms(3) wf_wanted [OF assms(5)])
qed

text \<open>
  Values are not escaped: a read for the user with the identifier \<open>*\<close> is answered with all users.
\<close>

theorem ldap_star_reads_all:
  assumes "ldap_server m es (ld_search cf)" "ld_filter cf = show_filter b" "wf_filter b" "attr_name k"
  shows "ldap_get cf flds (Some [(k, JStr ''*'')]) ord = Inr (ldap_rows flds ord (filter (\<lambda>e. holds m b e \<and> values_of e k \<noteq> []) es))"
proof -
  have t: "''(&'' @ ld_filter cf @ specific_filter (Some [(k, JStr ''*'')]) @ '')'' = show_filter (FAnd [b, FPresent k])"
    using assms(2) by (simp add: specific_filter_def kept_def individual_filter_def)
  show ?thesis unfolding ldap_get_def by (rule ldap_fetch_answer [OF assms(1) t]) (simp_all add: assms(3,4))
qed

text \<open>
  A search over several attributes finds, for a text without special characters, the entries that have
  it as a part of one of them; but a text that closes its own item and opens another one finds the
  entries by an attribute that is not among those that are searched, such as the hash of a password.
\<close>

theorem ldap_match_finds:
  assumes "ldap_server m es (ld_search cf)" "ld_filter cf = show_filter b" "wf_filter b"
    "list_all attr_name searchFields" "1 < length searchFields" "plain v" "v \<noteq> []"
  shows "ldap_match cf flds searchFields v =
    Inr (ldap_rows flds None (filter (\<lambda>e. holds m b e \<and> list_ex (\<lambda>k. holds m (FContains k v) e) searchFields) es))"
proof -
  have t: "''(&'' @ ld_filter cf @ match_filter searchFields v @ '')'' = show_filter (FAnd [b, FOr (map (\<lambda>k. FContains k v) searchFields)])"
    using assms(2,5-7) by (simp add: match_filter_def escape_plain comp_def)
  have ne: "searchFields \<noteq> []" using assms(5) by auto
  have "ldap_fetch cf (''(&'' @ ld_filter cf @ match_filter searchFields v @ '')'') flds None =
      Inr (ldap_rows flds None (filter (\<lambda>e. holds m b e \<and> list_ex (\<lambda>k. holds m (FContains k v) e) searchFields) es))"
    using assms(3,4,7) by (intro ldap_fetch_answer [OF assms(1) t]) (simp_all add: list_ex_iff list_all_iff)
  then show ?thesis using ne by (simp add: ldap_match_def)
qed

theorem ldap_match_probes_attribute:
  assumes "ldap_server m es (ld_search cf)" "ld_filter cf = show_filter b" "wf_filter b" "list_all attr_name searchFields" "1 < length searchFields"
    "plain v" "v \<noteq> []" "plain w" "w \<noteq> []" "attr_name secret"
  shows "ldap_match cf flds searchFields (v @ ''*)('' @ secret @ ''='' @ w) =
    Inr (ldap_rows flds None (filter (\<lambda>e. holds m b e \<and>
      (list_ex (\<lambda>k. holds m (FContains k v) e) searchFields \<or> holds m (FPrefix secret w) e)) es))"
proof -
  let ?fs = "concat (map (\<lambda>k. [FContains k v, FPrefix secret w]) searchFields)"
  have "concat (map (\<lambda>k. item_text k (''*'' @ (v @ ''*)('' @ secret @ ''='' @ w) @ ''*'')) ks) =
      concat (map show_filter (concat (map (\<lambda>k. [FContains k v, FPrefix secret w]) ks)))" for ks
    by (induction ks) (simp_all add: item_text_def escape_plain [OF assms(6)] escape_plain [OF assms(8)])
  then have t: "''(&'' @ ld_filter cf @ match_filter searchFields (v @ ''*)('' @ secret @ ''='' @ w) @ '')'' = show_filter (FAnd [b, FOr ?fs])"
    using assms(2,5) by (simp add: match_filter_def)
  have ne: "searchFields \<noteq> []" using assms(5) by auto
  have h: "holds m (FOr ?fs) e \<longleftrightarrow> list_ex (\<lambda>k. holds m (FContains k v) e) searchFields \<or> holds m (FPrefix secret w) e" for e
    using ne by (cases searchFields) (auto simp: list_ex_iff)
  have "ldap_fetch cf (''(&'' @ ld_filter cf @ match_filter searchFields (v @ ''*)('' @ secret @ ''='' @ w) @ '')'') flds None =
      Inr (ldap_rows flds None (filter (\<lambda>e. holds m b e \<and>
        (list_ex (\<lambda>k. holds m (FContains k v) e) searchFields \<or> holds m (FPrefix secret w) e)) es))"
  proof (rule ldap_fetch_answer [OF assms(1) t])
    show "wf_filter (FAnd [b, FOr ?fs])" using assms(3,4,7,9,10) by (auto simp: list_all_iff)
    have "holds m (FAnd [b, g]) e \<longleftrightarrow> holds m b e \<and> holds m g e" for g e by simp
    then show "holds m (FAnd [b, FOr ?fs]) e \<longleftrightarrow> holds m b e \<and>
        (list_ex (\<lambda>k. holds m (FContains k v) e) searchFields \<or> holds m (FPrefix secret w) e)" for e
      by (simp only: h)
  qed
  then show ?thesis using ne by (simp add: ldap_match_def)
qed

text \<open>The cache gives back what the directory answered to the same request before, without asking again.\<close>

theorem cached_answer:
  assumes "userdb_getAll backend True table flds ord cache = (Inr res, cache')"
  shows "userdb_getAll backend2 True table flds ord cache' = (Inr res, cache')"
  using assms by (auto simp: userdb_getAll_def Let_def split: option.splits sum.splits)

text \<open>But the key of the cache does not tell an order from a field, so that different requests share one answer.\<close>

theorem cache_key_clash:
  assumes "backend [''uid_sn''] None = Inr res"
  shows "userdb_getAll backend True ''users'' [''uid''] (Some ''sn'')
      (snd (userdb_getAll backend True ''users'' [''uid_sn''] None Map.empty)) = (Inr res, [''users,uid_sn'' \<mapsto> res])"
proof -
  have k: "cache_key ''users'' [''uid_sn''] None = ''users,uid_sn''" "cache_key ''users'' [''uid''] (Some ''sn'') = ''users,uid_sn''"
    by code_simp+
  have o: "safe_order None = None" "safe_order (Some ''sn'') = Some ''sn''" by code_simp+
  show ?thesis using assms by (simp add: userdb_getAll_def Let_def k o)
qed

text \<open>
  With a name and a password nothing is read unless the directory accepts them; with an empty name or
  without a password everything is read anonymously, the name is not used.
\<close>

theorem ldap_refused:
  assumes "ldap_user c = Some u" "u \<noteq> []" "ldap_password c = Some pw" "bind_as w (text_or [] (ldap_uri c)) u pw = Inl e"
  shows "ldap_get (UserDBLDAP w c) flds fl ord = Inl e" "ldap_getAll (UserDBLDAP w c) flds ord = Inl e"
  using assms by (cases u; simp add: ldap_get_def ldap_getAll_def ldap_fetch_def UserDBLDAP_def ldap_connect_def)+

theorem ldap_anonymous:
  assumes "ldap_user c \<in> {None, Some []} \<or> ldap_password c = None"
  shows "ldap_getAll (UserDBLDAP w c) flds ord =
    (case search_as w (text_or [] (ldap_uri c)) None (text_or [] (ldap_base c)) (text_or ''(objectClass=*)'' (ldap_filter_text c)) of
       Inl e \<Rightarrow> Inl e | Inr es \<Rightarrow> Inr (ldap_rows flds ord es))"
proof -
  have "ldap_connect w c = Inr None"
    using assms by (auto simp: ldap_connect_def split: option.split list.split)
  then show ?thesis by (simp add: ldap_getAll_def ldap_fetch_def UserDBLDAP_def)
qed

end
