(* ===== verification/Schedule.thy ===== *)
theory Schedule
  imports Prelude
begin

text \<open>
  The schedule of the periodic tasks (\<open>matrix-identity-server/src/cron/index.ts\<close>).  The check of a
  cron line, the count of the hashes and the first change of the pepper are parameters; the tasks
  themselves are in \<open>Lookup\<close>, \<open>CronUsers\<close> and \<open>Federation\<close>.  The list holds the tasks that were started with
  their lines once everything that was begun has settled: the two of the hashes come last, as they wait for the database.
\<close>

record cron_conf =
  cc_service :: bool
  cc_update_users :: "string option"
  cc_pepper :: "string option"
  cc_quota :: "string option"
  cc_federated :: "string option"
  cc_services :: "string list"

datatype cron_task = UpdateHashes | UpdateUsers | CheckQuota | UpdateFederated

type_synonym schedule = "(cron_task \<times> string) list"

record 's cron_env =
  ce_validate :: "string \<Rightarrow> bool"
  ce_count :: "'s \<Rightarrow> int result"
  ce_update :: "'s \<Rightarrow> unit result \<times> 's"

definition line_or :: "string \<Rightarrow> string option \<Rightarrow> string" where
  "line_or d l = (case l of None \<Rightarrow> d | Some x \<Rightarrow> x)"

definition check_line :: "'s cron_env \<Rightarrow> string \<Rightarrow> unit result" where
  "check_line env l = (if ce_validate env l then Inr () else Inl (Err (''Invalid cron line: '' @ l)))"

definition addUpdateHashesJob :: "'s cron_env \<Rightarrow> cron_conf \<Rightarrow> 's \<Rightarrow> unit result \<times> schedule \<times> 's" where
  "addUpdateHashesJob env c s =
     (let cronString = line_or ''0 0 0 * * *'' (cc_update_users c); pepperCron = line_or ''0 0 0 * * *'' (cc_pepper c);
          jobs = [(UpdateHashes, pepperCron), (UpdateUsers, cronString)]; failed = Inl (Err ''Failed to add update hashes job'') in
      case check_line env cronString of
        Inl e \<Rightarrow> (Inl e, [], s)
      | Inr _ \<Rightarrow>
          (case check_line env pepperCron of
             Inl e \<Rightarrow> (Inl e, [], s)
           | Inr _ \<Rightarrow>
               if \<not> cc_service c then (Inr (), [], s)
               else (case ce_count env s of
                       Inl _ \<Rightarrow> (failed, [], s)
                     | Inr n \<Rightarrow>
                         if n > 0 then (Inr (), jobs, s)
                         else (case ce_update env s of
                                 (Inl _, s1) \<Rightarrow> (failed, [], s1)
                               | (Inr _, s1) \<Rightarrow> (Inr (), jobs, s1)))))"

definition addCheckUserQuotaJob :: "'s cron_env \<Rightarrow> cron_conf \<Rightarrow> unit result \<times> schedule" where
  "addCheckUserQuotaJob env c =
     (let cronString = line_or ''0 0 0 * * *'' (cc_quota c) in
      case check_line env cronString of Inl e \<Rightarrow> (Inl e, []) | Inr _ \<Rightarrow> (Inr (), [(CheckQuota, cronString)]))"

definition addUpdateFederatedIdentityHashesJob :: "'s cron_env \<Rightarrow> cron_conf \<Rightarrow> unit result \<times> schedule" where
  "addUpdateFederatedIdentityHashesJob env c =
     (let cronString = line_or ''3 3 3 * * *'' (cc_federated c) in
      case check_line env cronString of Inl e \<Rightarrow> (Inl e, []) | Inr _ \<Rightarrow> (Inr (), [(UpdateFederated, cronString)]))"

text \<open>
  \<open>Promise.all\<close>: the three are begun whatever becomes of the others; the first rejection in time is the
  reason: a bad line of the hashes, the quota, the federation, then what the database answered.
\<close>

fun first_failure :: "unit result list \<Rightarrow> unit result" where
  "first_failure [] = Inr ()"
| "first_failure (Inl e # rs) = Inl e"
| "first_failure (Inr _ # rs) = first_failure rs"

definition lines_of_hashes :: "'s cron_env \<Rightarrow> cron_conf \<Rightarrow> unit result" where
  "lines_of_hashes env c =
     first_failure [check_line env (line_or ''0 0 0 * * *'' (cc_update_users c)), check_line env (line_or ''0 0 0 * * *'' (cc_pepper c))]"

definition init_tasks :: "'s cron_env \<Rightarrow> cron_conf \<Rightarrow> 's \<Rightarrow> unit result \<times> schedule \<times> 's" where
  "init_tasks env c s =
     (if \<not> cc_service c then (Inr (), [], s)
      else case addUpdateHashesJob env c s of
             (hashes, hashTasks, s1) \<Rightarrow>
               (case addCheckUserQuotaJob env c of
                  (quota, quotaTasks) \<Rightarrow>
                    (case (if cc_services c \<noteq> [] then addUpdateFederatedIdentityHashesJob env c else (Inr (), [])) of
                       (federated, fedTasks) \<Rightarrow>
                         ((case first_failure [lines_of_hashes env c, quota, federated, hashes] of
                             Inl e \<Rightarrow> Inl (Err (''Failed to initialize cron tasks: Error: '' @ err_msg e))
                           | Inr _ \<Rightarrow> Inr ()),
                          quotaTasks @ fedTasks @ hashTasks, s1))))"

section \<open>Properties\<close>

lemma first_failure_Inr: "first_failure rs = Inr () \<longleftrightarrow> (\<forall>r \<in> set rs. r = Inr ())"
  by (induction rs rule: first_failure.induct) auto

lemma first_failure_Inl: "first_failure rs = Inl e \<Longrightarrow> Inl e \<in> set rs"
  by (induction rs rule: first_failure.induct) auto

lemma check_line_Inr: "check_line env l = Inr () \<longleftrightarrow> ce_validate env l"
  by (simp add: check_line_def)

lemma quota_ok: "addCheckUserQuotaJob env c = (Inr u, ts) \<longleftrightarrow>
    ce_validate env (line_or ''0 0 0 * * *'' (cc_quota c)) \<and> ts = [(CheckQuota, line_or ''0 0 0 * * *'' (cc_quota c))]"
  by (auto simp: addCheckUserQuotaJob_def Let_def check_line_def)

lemma federated_ok: "addUpdateFederatedIdentityHashesJob env c = (Inr u, ts) \<longleftrightarrow>
    ce_validate env (line_or ''3 3 3 * * *'' (cc_federated c)) \<and> ts = [(UpdateFederated, line_or ''3 3 3 * * *'' (cc_federated c))]"
  by (auto simp: addUpdateFederatedIdentityHashesJob_def Let_def check_line_def)

lemma hashes_ok: "addUpdateHashesJob env c s = (Inr u, ts, s') \<Longrightarrow> cc_service c \<Longrightarrow>
    ts = [(UpdateHashes, line_or ''0 0 0 * * *'' (cc_pepper c)), (UpdateUsers, line_or ''0 0 0 * * *'' (cc_update_users c))] \<and>
    (\<exists>n. ce_count env s = Inr n \<and> (if n > 0 then s' = s else ce_update env s = (Inr (), s')))"
  by (auto simp: addUpdateHashesJob_def Let_def split: sum.splits prod.splits if_splits)

definition federated_job :: "'s cron_env \<Rightarrow> cron_conf \<Rightarrow> unit result \<times> schedule" where
  "federated_job env c = (if cc_services c \<noteq> [] then addUpdateFederatedIdentityHashesJob env c else (Inr (), []))"

lemma init_tasks_eq:
  assumes "init_tasks env c s = (r, tasks, s')" "cc_service c"
  shows "(r = Inr () \<longleftrightarrow> first_failure [lines_of_hashes env c, fst (addCheckUserQuotaJob env c), fst (federated_job env c), fst (addUpdateHashesJob env c s)] = Inr ())"
    and "tasks = snd (addCheckUserQuotaJob env c) @ snd (federated_job env c) @ fst (snd (addUpdateHashesJob env c s))"
    and "s' = snd (snd (addUpdateHashesJob env c s))"
  using assms unfolding init_tasks_def federated_job_def [symmetric] by (auto split: prod.splits sum.splits)

lemma federated_tasks:
  assumes "federated_job env c = (Inr u, ts)"
  shows "map fst ts = (if cc_services c \<noteq> [] then [UpdateFederated] else []) \<and> list_all (ce_validate env) (map snd ts)"
proof (cases "cc_services c = []")
  case True
  then show ?thesis using assms by (simp add: federated_job_def)
next
  case False
  then have "addUpdateFederatedIdentityHashesJob env c = (Inr u, ts)" using assms by (simp add: federated_job_def)
  then show ?thesis using False unfolding federated_ok by simp
qed

text \<open>
  A schedule that is ready has every task once: the quota, the federation if services are configured, the
  pepper and the users; and there are hashes, from before or from a first change of the pepper that succeeded.
\<close>

theorem ready_schedule:
  assumes "init_tasks env c s = (Inr (), tasks, s')" "cc_service c"
  shows "map fst tasks = CheckQuota # (if cc_services c \<noteq> [] then [UpdateFederated] else []) @ [UpdateHashes, UpdateUsers]"
    and "list_all (ce_validate env) (map snd tasks)"
    and "\<exists>n. ce_count env s = Inr n \<and> (if n > 0 then s' = s else ce_update env s = (Inr (), s'))"
proof -
  obtain h ht s2 where d1: "addUpdateHashesJob env c s = (h, ht, s2)" by (cases "addUpdateHashesJob env c s") auto
  obtain q qt where d2: "addCheckUserQuotaJob env c = (q, qt)" by (cases "addCheckUserQuotaJob env c") auto
  obtain f ft where d3: "federated_job env c = (f, ft)" by (cases "federated_job env c") auto
  have "s2 = s'" using init_tasks_eq(3) [OF assms] d1 by simp
  then have d: "addUpdateHashesJob env c s = (h, ht, s')" "addCheckUserQuotaJob env c = (q, qt)" "federated_job env c = (f, ft)"
    using d1 d2 d3 by simp_all
  have t: "tasks = qt @ ft @ ht" using init_tasks_eq(2) [OF assms] d by simp
  have ok: "first_failure [lines_of_hashes env c, q, f, h] = Inr ()" using init_tasks_eq(1) [OF assms] d by simp
  have r: "lines_of_hashes env c = Inr ()" "q = Inr ()" "f = Inr ()" "h = Inr ()"
    using ok unfolding first_failure_Inr by simp_all
  have v: "ce_validate env (line_or ''0 0 0 * * *'' (cc_update_users c))" "ce_validate env (line_or ''0 0 0 * * *'' (cc_pepper c))"
    using r(1) unfolding lines_of_hashes_def first_failure_Inr by (simp_all add: check_line_Inr)
  have q: "ce_validate env (line_or ''0 0 0 * * *'' (cc_quota c))" "qt = [(CheckQuota, line_or ''0 0 0 * * *'' (cc_quota c))]"
    using d(2) r(2) quota_ok [of env c] by simp_all
  have f: "map fst ft = (if cc_services c \<noteq> [] then [UpdateFederated] else [])" "list_all (ce_validate env) (map snd ft)"
    using federated_tasks [OF d(3) [unfolded r(3)]] by blast+
  note h = hashes_ok [OF d(1) [unfolded r(4)] assms(2)]
  show "map fst tasks = CheckQuota # (if cc_services c \<noteq> [] then [UpdateFederated] else []) @ [UpdateHashes, UpdateUsers]"
    using t q(2) f(1) h by simp
  show "list_all (ce_validate env) (map snd tasks)"
    using t q f(2) h v by simp
  show "\<exists>n. ce_count env s = Inr n \<and> (if n > 0 then s' = s else ce_update env s = (Inr (), s'))" using h by simp
qed

text \<open>
  A first change of the pepper that fails leaves the server without the tasks that would repair it:
  only the quota and the federation run, until the next start.
\<close>

theorem failed_first_update:
  assumes "init_tasks env c s = (r, tasks, s')" "cc_service c" "ce_count env s = Inr n" "n \<le> 0" "ce_update env s = (Inl e, s1)"
  shows "r \<noteq> Inr ()" "UpdateHashes \<notin> fst ` set tasks" "UpdateUsers \<notin> fst ` set tasks"
proof -
  have h: "fst (addUpdateHashesJob env c s) \<noteq> Inr ()" "fst (snd (addUpdateHashesJob env c s)) = []"
    using assms(2-5) by (auto simp: addUpdateHashesJob_def Let_def split: sum.split)
  have q: "fst x = CheckQuota" if "x \<in> set (snd (addCheckUserQuotaJob env c))" for x
    using that by (auto simp: addCheckUserQuotaJob_def Let_def split: sum.splits)
  have f: "fst x = UpdateFederated" if "x \<in> set (snd (federated_job env c))" for x
    using that by (auto simp: federated_job_def addUpdateFederatedIdentityHashesJob_def Let_def split: sum.splits if_splits)
  have "fst x = CheckQuota \<or> fst x = UpdateFederated" if "x \<in> set tasks" for x
    using that unfolding init_tasks_eq(2) [OF assms(1,2)] h(2) set_append Un_iff list.set using q f by blast
  then show "UpdateHashes \<notin> fst ` set tasks" "UpdateUsers \<notin> fst ` set tasks" by (metis cron_task.distinct imageE)+
  show "r \<noteq> Inr ()" using init_tasks_eq(1) [OF assms(1,2)] h(1) unfolding first_failure_Inr by simp
qed

end
