(* ===== verification/Notify.thy ===== *)
theory Notify
  imports TokenService
begin

text \<open>
  What sends texts and mails (\<open>tom-server/src/utils/services\<close>: \<open>sms-service.ts\<close>, \<open>email-service.ts\<close>,
  \<open>notification-service.ts\<close>), the endpoint for texts (\<open>sms-api\<close>) and the one for the image that carries
  an access token (\<open>qrcode-api\<close>).  The network is the one of \<open>Http\<close>; the transport of mails, the check of
  a phone number, the conversion of a text to a number and the drawing of an image are parameters.
\<close>

section \<open>The services\<close>

record notify_conf =
  nc_sms_url :: "string option"
  nc_sms_login :: "string option"
  nc_sms_key :: "string option"
  nc_smtp_server :: jsval
  nc_smtp_port :: jsval
  nc_smtp_verify :: jsval
  nc_smtp_tls :: jsval
  nc_smtp_user :: jsval
  nc_smtp_password :: jsval
  nc_smtp_sender :: "string option"
  nc_server_name :: string

record sms_service =
  API_ENDPOINT :: string
  HEADERS :: "(string \<times> string) list"

text \<open>The text of a header whose value may be undefined.\<close>

definition header_text :: "string option \<Rightarrow> string" where
  "header_text v = (case v of None \<Rightarrow> ''undefined'' | Some t \<Rightarrow> t)"

definition newSmsService :: "notify_conf \<Rightarrow> sms_service result" where
  "newSmsService c =
     (case nc_sms_url c of
        None \<Rightarrow> Inl (Err ''Cannot read properties of undefined'')
      | Some url \<Rightarrow>
          if url = [] then Inl (Err ''Invalid URL'')
          else Inr \<lparr>API_ENDPOINT = buildUrl url ''/sms-campaign/send'',
                 HEADERS = [(''content-type'', JSON_TYPE), (''api-login'', header_text (nc_sms_login c)), (''api-key'', header_text (nc_sms_key c))]\<rparr>)"

definition text_request :: "sms_service \<Rightarrow> string \<Rightarrow> string \<Rightarrow> http_req" where
  "text_request sv dest txt =
     \<lparr>hq_method = ''POST'', hq_url = API_ENDPOINT sv, hq_headers = HEADERS sv,
      hq_body = str_of (JObj [(''sender'', JStr ''Twake''), (''recipients'', JArr [JObj [(''phone_number'', JStr dest)]]), (''text'', JStr txt)])\<rparr>"

text \<open>The body is read before the status is looked at; a message of a body that has no properties throws as well.\<close>

definition sms_outcome :: "http_resp result \<Rightarrow> unit result" where
  "sms_outcome r =
     (case r of
        Inl e \<Rightarrow> Inl e
      | Inr p \<Rightarrow>
          (case resp_json p of
             Inl e \<Rightarrow> Inl e
           | Inr data \<Rightarrow>
               if hp_status p \<noteq> 200 \<and> hp_status p \<noteq> 201
               then (case read_prop data ''message'' of
                       Inl e \<Rightarrow> Inl e
                     | Inr m \<Rightarrow> Inl (Err (''Failed to send SMS: '' @ nat_str (hp_status p) @ '' '' @ js_str m)))
               else Inr ()))"

definition sms_send :: "network \<Rightarrow> sms_service \<Rightarrow> string \<Rightarrow> string \<Rightarrow> http_log \<Rightarrow> unit result \<times> http_log" where
  "sms_send net sv dest txt log = (case http_fetch net (text_request sv dest txt) log of (r, log1) \<Rightarrow> (sms_outcome r, log1))"

record mailer =
  ml_host :: jsval
  ml_port :: int
  ml_rejectUnauthorized :: jsval
  ml_secure :: jsval
  ml_auth :: "(jsval \<times> jsval) option"
  ml_from :: string

text \<open>A text is on when it is \<open>true\<close>, another value is itself, off when there is none.\<close>

definition text_flag :: "jsval \<Rightarrow> jsval" where
  "text_flag v = (case v of JStr s \<Rightarrow> JBool (s = ''true'') | _ \<Rightarrow> js_coalesce v (JBool False))"

text \<open>\<open>toNum\<close> is \<open>Number\<close>, zero for what is no number.\<close>

definition newEmailService :: "(jsval \<Rightarrow> int) \<Rightarrow> notify_conf \<Rightarrow> mailer" where
  "newEmailService toNum c =
     \<lparr>ml_host = nc_smtp_server c,
      ml_port = (if truthy (nc_smtp_port c) \<and> toNum (nc_smtp_port c) \<noteq> 0 then toNum (nc_smtp_port c) else 25),
      ml_rejectUnauthorized = text_flag (nc_smtp_verify c),
      ml_secure = text_flag (nc_smtp_tls c),
      ml_auth = (if truthy (nc_smtp_user c) then Some (nc_smtp_user c, nc_smtp_password c) else None),
      ml_from = (case nc_smtp_sender c of Some (ch # s) \<Rightarrow> ch # s | _ \<Rightarrow> ''noreply@'' @ nc_server_name c)\<rparr>"

definition email_send :: "(obj \<Rightarrow> unit result) \<Rightarrow> mailer \<Rightarrow> obj \<Rightarrow> unit result" where
  "email_send transport ml options =
     transport (if truthy (getp options ''from'') then options else put ''from'' (JStr (ml_from ml)) options)"

record notification_service =
  ns_email :: mailer
  ns_sms :: sms_service

definition newNotificationService :: "(jsval \<Rightarrow> int) \<Rightarrow> notify_conf \<Rightarrow> notification_service result" where
  "newNotificationService toNum c =
     (case newSmsService c of Inl e \<Rightarrow> Inl e | Inr sv \<Rightarrow> Inr \<lparr>ns_email = newEmailService toNum c, ns_sms = sv\<rparr>)"

definition sendSMS :: "network \<Rightarrow> notification_service \<Rightarrow> string \<Rightarrow> string \<Rightarrow> http_log \<Rightarrow> unit result \<times> http_log" where
  "sendSMS net ns dest txt log = sms_send net (ns_sms ns) dest txt log"

definition sendEmail :: "(obj \<Rightarrow> unit result) \<Rightarrow> notification_service \<Rightarrow> obj \<Rightarrow> unit result" where
  "sendEmail transport ns options = email_send transport (ns_email ns) options"

section \<open>The endpoint for texts\<close>

record sms_api =
  sa_url :: string
  sa_headers :: "(string \<times> string) list"

definition newSmsApi :: "notify_conf \<Rightarrow> sms_api result" where
  "newSmsApi c =
     (case (nc_sms_url c, nc_sms_key c, nc_sms_login c) of
        (Some url, Some key, Some login) \<Rightarrow>
          Inr \<lparr>sa_url = url, sa_headers = [(''content-type'', JSON_TYPE), (''cache-control'', ''no-cache''), (''api-key'', key), (''api-login'', login)]\<rparr>
      | _ \<Rightarrow> Inl (Err ''SMS API configuration is missing''))"

definition campaign_request :: "sms_api \<Rightarrow> jsval list \<Rightarrow> jsval \<Rightarrow> http_req" where
  "campaign_request sv dests txt =
     \<lparr>hq_method = ''POST'', hq_url = sa_url sv, hq_headers = sa_headers sv,
      hq_body = str_of (JObj [(''recipients'', JArr (map (\<lambda>n. JObj [(''phone_number'', n)]) dests)), (''sender'', JStr ''Twake''),
                              (''text'', txt), (''type'', JStr ''sms_low_cost'')])\<rparr>"

definition campaign_send :: "network \<Rightarrow> sms_api \<Rightarrow> jsval list \<Rightarrow> jsval \<Rightarrow> http_log \<Rightarrow> unit result \<times> http_log" where
  "campaign_send net sv dests txt log =
     (case http_fetch net (campaign_request sv dests txt) log of
        (Inl _, log1) \<Rightarrow> (Inl (Err ''Failed to send SMS''), log1)
      | (Inr p, log1) \<Rightarrow> (if hp_status p = 400 then Inl (Err ''Failed to send SMS'') else Inr (), log1))"

definition destinations :: "jsval \<Rightarrow> jsval list" where
  "destinations v = (case v of JArr vs \<Rightarrow> vs | _ \<Rightarrow> [v])"

text \<open>\<open>text.length === 0\<close>, which throws for null.\<close>

definition no_length :: "jsval \<Rightarrow> bool" where
  "no_length v = (case v of JStr s \<Rightarrow> s = [] | JArr vs \<Rightarrow> vs = [] | JObj ps \<Rightarrow> getp ps ''length'' = JNum 0 | Null \<Rightarrow> True | _ \<Rightarrow> False)"

definition checkSendRequirements :: "request \<Rightarrow> guard" where
  "checkSendRequirements req =
     (if field (body req) ''to'' = Undef \<or> field (body req) ''text'' = Undef \<or> no_length (field (body req) ''text'')
      then Done (message 400 ''Bad Request'') else Pass)"

definition validateMobilePhone :: "(string \<Rightarrow> bool) \<Rightarrow> request \<Rightarrow> guard" where
  "validateMobilePhone isMobile req =
     (if list_all (\<lambda>d. case d of JStr s \<Rightarrow> isMobile s | _ \<Rightarrow> False) (destinations (field (body req) ''to''))
      then Pass else Done (message 400 ''Invalid phone number''))"

definition sms_controller :: "network \<Rightarrow> sms_api \<Rightarrow> request \<Rightarrow> http_log \<Rightarrow> response \<times> http_log" where
  "sms_controller net sv req log =
     (let dest = field (body req) ''to''; txt = field (body req) ''text'' in
      if dest = Undef \<or> txt = Undef then (NextError (Err ''missing data''), log)
      else (case campaign_send net sv (destinations dest) txt log of
              (Inl e, log1) \<Rightarrow> (NextError e, log1)
            | (Inr _, log1) \<Rightarrow> (message 200 ''SMS sent successfully'', log1)))"

definition sms_route ::
  "network \<Rightarrow> sms_api \<Rightarrow> (string \<Rightarrow> bool) \<Rightarrow> (request \<Rightarrow> auth_outcome) \<Rightarrow> request \<Rightarrow> http_log \<Rightarrow> response \<times> http_log" where
  "sms_route net sv isMobile authenticator req0 log =
     (case authMiddleware authenticator req0 of
        Inl r \<Rightarrow> (r, log)
      | Inr req \<Rightarrow>
          (case checkSendRequirements req of
             Done r \<Rightarrow> (r, log)
           | Pass \<Rightarrow>
               (case validateMobilePhone isMobile req of
                  Done r \<Rightarrow> (r, log)
                | Pass \<Rightarrow> sms_controller net sv req log)))"

section \<open>The image of an access token\<close>

datatype qr_answer = QrPlain response | Svg "string option"

definition getImage :: "(string \<Rightarrow> string result) \<Rightarrow> string option \<Rightarrow> jsval \<Rightarrow> string option" where
  "getImage draw url token =
     (case url of
        None \<Rightarrow> None
      | Some u \<Rightarrow> (case draw (u @ ''?access_token='' @ js_str token) of Inl _ \<Rightarrow> None | Inr svg \<Rightarrow> Some svg))"

definition qr_get :: "token_env \<Rightarrow> (string \<Rightarrow> string result) \<Rightarrow> string option \<Rightarrow> request \<Rightarrow> http_log \<Rightarrow> qr_answer \<times> http_log" where
  "qr_get env draw url req log =
     (case map_of (headers req) ''cookie'' of
        None \<Rightarrow> (QrPlain (Json 400 (JObj [(''error'', JStr ''Cookies are missing'')])), log)
      | Some cookies \<Rightarrow>
          (case getAccessTokenWithCookie env cookies log of
             (token, log1) \<Rightarrow>
               if token = Null then (QrPlain (Json 400 (JObj [(''error'', JStr ''Invalid access token'')])), log1)
               else (Svg (getImage draw url token), log1)))"

definition qr_route ::
  "token_env \<Rightarrow> (string \<Rightarrow> string result) \<Rightarrow> string option \<Rightarrow> (request \<Rightarrow> auth_outcome) \<Rightarrow> request \<Rightarrow> http_log \<Rightarrow> qr_answer \<times> http_log" where
  "qr_route env draw url authenticator req0 log =
     (case authMiddleware authenticator req0 of Inl r \<Rightarrow> (QrPlain r, log) | Inr req \<Rightarrow> qr_get env draw url req log)"

section \<open>Properties\<close>

text \<open>
  The service is only there with an address; then a text is sent with exactly one request, for exactly
  the number and the text given, and it counts as sent if and only if the answer is JSON with 200 or 201.
\<close>

theorem sms_sent_iff:
  assumes "newNotificationService toNum c = Inr ns"
  shows "sendSMS net ns dest txt log = (r, log') \<Longrightarrow>
    log' = log @ [(text_request (ns_sms ns) dest txt, net log (text_request (ns_sms ns) dest txt))] \<and>
    (r = Inr () \<longleftrightarrow> (\<exists>p data. net log (text_request (ns_sms ns) dest txt) = Inr p \<and> resp_json p = Inr data \<and> hp_status p \<in> {200, 201}))"
    and "\<exists>url. nc_sms_url c = Some url \<and> url \<noteq> [] \<and> API_ENDPOINT (ns_sms ns) = buildUrl url ''/sms-campaign/send''"
  using assms
  by (auto simp: sendSMS_def sms_send_def http_fetch_def sms_outcome_def newNotificationService_def newSmsService_def
      split: sum.splits option.splits if_splits)

text \<open>Every mail has a sender: its own, the one of the configuration, or one of the server.\<close>

theorem email_has_sender:
  "\<exists>m. sendEmail transport \<lparr>ns_email = newEmailService toNum c, ns_sms = sv\<rparr> options = transport m \<and>
     truthy (getp m ''from'') \<and> (\<forall>k. k \<noteq> ''from'' \<longrightarrow> getp m k = getp options k) \<and>
     (truthy (getp options ''from'') \<longrightarrow> m = options)"
proof (cases "truthy (getp options ''from'')")
  case True
  then show ?thesis by (intro exI [of _ options]) (simp add: sendEmail_def email_send_def)
next
  case False
  have "ml_from (newEmailService toNum c) \<noteq> []" by (simp add: newEmailService_def split: option.split list.split)
  then show ?thesis using False
    by (intro exI [of _ "put ''from'' (JStr (ml_from (newEmailService toNum c))) options"]) (simp add: sendEmail_def email_send_def)
qed

lemma mobile_pass:
  "validateMobilePhone isMobile req = Pass \<longleftrightarrow> (\<forall>d \<in> set (destinations (field (body req) ''to'')). \<exists>s. d = JStr s \<and> isMobile s)"
proof -
  have "(case d of JStr s \<Rightarrow> isMobile s | _ \<Rightarrow> False) \<longleftrightarrow> (\<exists>s. d = JStr s \<and> isMobile s)" for d
    by (cases d) simp_all
  then show ?thesis by (simp add: validateMobilePhone_def list_all_iff)
qed

definition campaign :: "sms_api \<Rightarrow> request \<Rightarrow> http_req" where
  "campaign sv req = campaign_request sv (destinations (field (body req) ''to'')) (field (body req) ''text'')"

lemma sms_route_pass:
  assumes "authMiddleware authenticator req0 = Inr req" "checkSendRequirements req = Pass" "validateMobilePhone isMobile req = Pass"
  shows "sms_route net sv isMobile authenticator req0 log =
    (if \<exists>p. net log (campaign sv req) = Inr p \<and> hp_status p \<noteq> 400 then message 200 ''SMS sent successfully'' else NextError (Err ''Failed to send SMS''),
     log @ [(campaign sv req, net log (campaign sv req))])"
  using assms
  by (auto simp: sms_route_def checkSendRequirements_def sms_controller_def campaign_send_def campaign_def http_fetch_def Let_def
      split: sum.split if_splits)

text \<open>
  The endpoint sends nothing unless the caller is authenticated and every destination is a phone number;
  what it sends is one request for all of them.
\<close>

theorem sms_route_sends:
  assumes "sms_route net sv isMobile authenticator req0 log = (r, log')" "log' \<noteq> log"
  shows "\<exists>req. authMiddleware authenticator req0 = Inr req \<and> \<not> no_length (field (body req) ''text'') \<and>
    (\<forall>d \<in> set (destinations (field (body req) ''to'')). \<exists>s. d = JStr s \<and> isMobile s) \<and>
    log' = log @ [(campaign sv req, net log (campaign sv req))]"
proof -
  obtain req where a: "authMiddleware authenticator req0 = Inr req"
    using assms by (auto simp: sms_route_def split: sum.splits)
  have c: "checkSendRequirements req = Pass" "validateMobilePhone isMobile req = Pass"
    using assms a by (auto simp: sms_route_def split: guard.splits)
  have "\<not> no_length (field (body req) ''text'')" using c(1) by (simp add: checkSendRequirements_def split: if_splits)
  then show ?thesis using a sms_route_pass [OF a c, of net sv log] assms(1) c(2) mobile_pass by (intro exI [of _ req]) simp
qed

text \<open>
  Only the status 400 counts as a failure: a text that the provider refuses for want of credit or of a
  valid key is reported as sent.
\<close>

theorem sms_refusal_reported_sent:
  assumes "authMiddleware authenticator req0 = Inr req" "checkSendRequirements req = Pass" "validateMobilePhone isMobile req = Pass"
    "net log (campaign sv req) = Inr p" "hp_status p \<in> {401, 402, 403, 429, 500}"
  shows "fst (sms_route net sv isMobile authenticator req0 log) = message 200 ''SMS sent successfully''"
  unfolding sms_route_pass [OF assms(1-3)] using assms(4,5) by auto

text \<open>An empty list of destinations passes every check, and the request without recipients is sent.\<close>

theorem sms_without_recipients:
  assumes "authMiddleware authenticator req0 = Inr req" "field (body req) ''to'' = JArr []" "field (body req) ''text'' = JStr (c # t)"
  shows "snd (sms_route net sv isMobile authenticator req0 log) = log @ [(campaign_request sv [] (JStr (c # t)), net log (campaign_request sv [] (JStr (c # t))))]"
proof -
  have "checkSendRequirements req = Pass" "validateMobilePhone isMobile req = Pass"
    using assms(2,3) by (simp_all add: checkSendRequirements_def no_length_def validateMobilePhone_def destinations_def)
  note r = sms_route_pass [OF assms(1) this, of net sv log]
  show ?thesis unfolding r using assms(2,3) by (simp add: campaign_def destinations_def)
qed

text \<open>
  An image carries the token that the login with the cookies of this very request gave, and nothing is
  drawn without one; a failure of the drawing is answered as an image all the same, with no content.
\<close>

theorem qr_of_own_token:
  assumes "qr_route env draw url authenticator req0 log = (Svg (Some svg), log')"
  shows "\<exists>req cookies token u. authMiddleware authenticator req0 = Inr req \<and> map_of (headers req) ''cookie'' = Some cookies \<and> getAccessTokenWithCookie env cookies log = (token, log') \<and>
    token \<noteq> Null \<and> url = Some u \<and> draw (u @ ''?access_token='' @ js_str token) = Inr svg"
  using assms by (auto simp: qr_route_def qr_get_def getImage_def split: option.splits prod.splits if_splits sum.splits)

theorem qr_failure_answered:
  assumes "map_of (headers req) ''cookie'' = Some cookies" "getAccessTokenWithCookie env cookies log = (token, log')" "token \<noteq> Null"
    "url = None \<or> (\<exists>u e. url = Some u \<and> draw (u @ ''?access_token='' @ js_str token) = Inl e)"
  shows "qr_get env draw url req log = (Svg None, log')"
  using assms by (auto simp: qr_get_def getImage_def)

end
