(* ===== verification/Resolve.thy ===== *)
theory Resolve
  imports MatrixIds Authenticate
begin

text \<open>
  Finding the address of a Matrix server (\<open>packages/matrix-resolve\<close>).  The answers of the network to a
  request and of the name service are parameters, and so are the two operations of the cache.
\<close>

section \<open>The two patterns\<close>

definition ipv4_octet :: re where
  "ipv4_octet =
     RAlts [RSeq (RLit ''25'') (RCls [(CHR ''0'', CHR ''5'')]),
            RSeqs [RChr CHR ''2'', RCls [(CHR ''0'', CHR ''4'')], RCls d09],
            RSeq (ROpt (RCls [(CHR ''0'', CHR ''1'')])) (RBetween 1 2 (RCls d09))]"

definition ipv4 :: re where
  "ipv4 = RSeq (RRep 3 (RSeq ipv4_octet (RChr CHR ''.''))) ipv4_octet"

definition dotted6 :: re where
  "dotted6 = RSeq (RRep 3 (RSeq octet6_re (RChr CHR ''.''))) octet6_re"

text \<open>The alternatives of \<open>ipv6\<close> in their order.\<close>

definition ipv6 :: "re list" where
  "ipv6 =
     [RSeq (RRep 7 h16c) h16,
      RSeq (RBetween 1 7 h16c) (RChr CHR '':''),
      RSeq (RBetween 1 6 h16c) ch16,
      RSeq (RBetween 1 5 h16c) (RBetween 1 2 ch16),
      RSeq (RBetween 1 4 h16c) (RBetween 1 3 ch16),
      RSeq (RBetween 1 3 h16c) (RBetween 1 4 ch16),
      RSeq (RBetween 1 2 h16c) (RBetween 1 5 ch16),
      RSeq h16c (RBetween 1 6 ch16),
      RSeq (RChr CHR '':'') (RAlt (RBetween 1 7 ch16) (RChr CHR '':'')),
      RSeqs [RLit ''fe80:'', RUpTo 4 (RSeq (RChr CHR '':'') (RUpTo 4 (RCls hex_cls))), RChr CHR ''%'', RPlus (RCls alnum_cls)],
      RSeqs [RLit ''::'', ROpt (RSeqs [RLit ''ffff'', ROpt (RSeq (RChr CHR '':'') (RBetween 1 4 (RChr CHR ''0''))), RChr CHR '':'']), dotted6],
      RSeqs [RBetween 1 4 h16c, RChr CHR '':'', dotted6]]"

text \<open>\<open>(?:(?<!:):(\d+))?$\<close> after what was matched: the port, if there is one.\<close>

definition port_after :: "string \<Rightarrow> string \<Rightarrow> string option option" where
  "port_after before rest =
     (case rest of
        [] \<Rightarrow> Some None
      | c # ds \<Rightarrow>
          if c = CHR '':'' \<and> ds \<noteq> [] \<and> list_all is_digit ds \<and> (before = [] \<or> last before \<noteq> CHR '':'') then Some (Some ds) else None)"

fun first_some :: "('a \<Rightarrow> 'b option) \<Rightarrow> 'a list \<Rightarrow> 'b option" where
  "first_some f [] = None"
| "first_some f (x # xs) = (case f x of None \<Rightarrow> first_some f xs | Some y \<Rightarrow> Some y)"

text \<open>One alternative: its repetitions are greedy, so that it is tried on the longest part first.\<close>

definition literal_match :: "re \<Rightarrow> string \<Rightarrow> string option option" where
  "literal_match r name =
     first_some (\<lambda>n. if re_test r (take n name) then port_after (take n name) (drop n name) else None) (rev [0 ..< Suc (length name)])"

definition isIpLiteral :: "string \<Rightarrow> string option option" where
  "isIpLiteral name = first_some (\<lambda>r. literal_match r name) (ipv4 # ipv6)"

definition HOSTNAME_RE :: re where
  "HOSTNAME_RE =
     RSeqs [RStar (RSeqs [ROpt (RSeq (RCls alnum_cls) (RStar (RCls alnum_dash_cls))), RCls alnum_cls, RChr CHR ''.'']),
            RAlt (RSeqs [RCls [(CHR ''a'', CHR ''z''), (CHR ''A'', CHR ''Z'')], RStar (RCls alnum_dash_cls), RCls alnum_cls])
                 (RCls [(CHR ''a'', CHR ''z''), (CHR ''A'', CHR ''Z'')]),
            ROpt (RChr CHR ''.'')]"

text \<open>A hostname has no colon, so that it ends at the first one.\<close>

definition isHostname :: "string \<Rightarrow> string option option" where
  "isHostname name =
     (let h = takeWhile (\<lambda>c. c \<noteq> CHR '':'') name; rest = dropWhile (\<lambda>c. c \<noteq> CHR '':'') name
      in if re_test HOSTNAME_RE h then port_after [] rest else None)"

section \<open>The search\<close>

datatype resolved = Url string | Urls "string list"

record srv_record =
  srv_name :: string
  srv_port :: nat
  srv_priority :: nat

record resolve_env =
  rs_fetch :: "string \<Rightarrow> http_resp result"
  rs_srv :: "string \<Rightarrow> srv_record list result"
  rs_lookup :: "string \<Rightarrow> string option"

definition base_url :: "string \<Rightarrow> string" where
  "base_url host = ''https://'' @ host @ ''/''"

definition srv_url :: "srv_record \<Rightarrow> string" where
  "srv_url entry = base_url (srv_name entry @ CHR '':'' # nat_str (srv_port entry))"

definition dnsSrvResolve :: "resolve_env \<Rightarrow> string \<Rightarrow> resolved option" where
  "dnsSrvResolve env name =
     (case rs_srv env name of
        Inl _ \<Rightarrow> None
      | Inr [] \<Rightarrow> None
      | Inr [entry] \<Rightarrow> Some (Url (srv_url entry))
      | Inr entries \<Rightarrow> Some (Urls (map srv_url entries)))"

definition dnsResolve :: "resolve_env \<Rightarrow> string \<Rightarrow> resolved result" where
  "dnsResolve env name =
     (case dnsSrvResolve env (''_matrix-fed._tcp.'' @ name) of
        Some r \<Rightarrow> Inr r
      | None \<Rightarrow>
          (case dnsSrvResolve env (''_matrix._tcp.'' @ name) of
             Some r \<Rightarrow> Inr r
           | None \<Rightarrow>
               (case rs_lookup env name of
                  None \<Rightarrow> Inr (Url (base_url (name @ '':8448'')))
                | Some err \<Rightarrow> Inl (Err (''Unable to resolve '' @ name @ '': '' @ err)))))"

definition literal_url :: "string \<Rightarrow> string option \<Rightarrow> resolved" where
  "literal_url name port = Url (base_url (case port of None \<Rightarrow> name @ '':8448'' | Some _ \<Rightarrow> name))"

text \<open>The text the well-known document delegates to, if it is a text and not empty.\<close>

definition delegation :: "resolve_env \<Rightarrow> string \<Rightarrow> string option" where
  "delegation env name =
     (case rs_fetch env (''https://'' @ name @ ''/.well-known/matrix/server'') of
        Inl _ \<Rightarrow> None
      | Inr p \<Rightarrow>
          (case resp_json p of
             Inl _ \<Rightarrow> None
           | Inr data \<Rightarrow> (case field data ''m.server'' of JStr (c # s) \<Rightarrow> Some (c # s) | _ \<Rightarrow> None)))"

definition matrixResolve :: "resolve_env \<Rightarrow> string \<Rightarrow> resolved result" where
  "matrixResolve env name =
     (case isIpLiteral name of
        Some port \<Rightarrow> Inr (literal_url name port)
      | None \<Rightarrow>
          (case isHostname name of
             None \<Rightarrow> Inl (Err (name @ '' isn't a valid hostname''))
           | Some (Some _) \<Rightarrow> Inr (Url (base_url name))
           | Some None \<Rightarrow>
               (case delegation env name of
                  None \<Rightarrow> dnsResolve env name
                | Some matrixServer \<Rightarrow>
                    (case isIpLiteral matrixServer of
                       Some port \<Rightarrow> Inr (literal_url matrixServer port)
                     | None \<Rightarrow>
                         (case isHostname matrixServer of
                            Some (Some _) \<Rightarrow> Inr (Url (base_url matrixServer))
                          | _ \<Rightarrow> dnsResolve env matrixServer)))))"

text \<open>The object with the cache: \<open>cget\<close> and \<open>cset\<close> are the operations of the cache, \<open>None\<close> is none.\<close>

definition resolve_name ::
  "resolve_env \<Rightarrow> ('c \<Rightarrow> string \<Rightarrow> resolved option) \<Rightarrow> (string \<Rightarrow> resolved \<Rightarrow> 'c \<Rightarrow> 'c) \<Rightarrow> string \<Rightarrow> 'c option \<Rightarrow> resolved result \<times> 'c option" where
  "resolve_name env cget cset name cache =
     (case cache of
        None \<Rightarrow> (matrixResolve env name, None)
      | Some c \<Rightarrow>
          (case cget c name of
             Some v \<Rightarrow> (Inr v, Some c)
           | None \<Rightarrow>
               (case matrixResolve env name of
                  Inl e \<Rightarrow> (Inl e, Some c)
                | Inr v \<Rightarrow> (Inr v, Some (cset name v c)))))"

section \<open>Properties\<close>

text \<open>
  What answers, names a port: every address found is \<open>https\<close>, a name, a colon, a port and a slash.
\<close>

definition with_port :: "string \<Rightarrow> bool" where
  "with_port u \<longleftrightarrow> (\<exists>h p. u = base_url (h @ CHR '':'' # p) \<and> p \<noteq> [] \<and> list_all is_digit p)"

definition urls_of :: "resolved \<Rightarrow> string list" where
  "urls_of r = (case r of Url u \<Rightarrow> [u] | Urls us \<Rightarrow> us)"

lemma with_portI: "p \<noteq> [] \<Longrightarrow> list_all is_digit p \<Longrightarrow> with_port (base_url (h @ CHR '':'' # p))"
  unfolding with_port_def by blast

lemma default_port: "with_port (base_url (h @ '':8448''))"
  by (rule with_portI) code_simp+

lemma first_someE: "first_some f xs = Some y \<Longrightarrow> (\<And>x. x \<in> set xs \<Longrightarrow> f x = Some y \<Longrightarrow> P) \<Longrightarrow> P"
  by (induction xs) (auto split: option.splits)

lemma port_after_ports: "port_after b rest = Some (Some ds) \<Longrightarrow> rest = CHR '':'' # ds \<and> ds \<noteq> [] \<and> list_all is_digit ds"
  by (auto simp: port_after_def split: list.splits if_splits)

lemma literal_ports: "isIpLiteral name = Some (Some ds) \<Longrightarrow> \<exists>h. name = h @ CHR '':'' # ds \<and> ds \<noteq> [] \<and> list_all is_digit ds"
  unfolding isIpLiteral_def literal_match_def
  by (elim first_someE) (metis append_take_drop_id option.distinct(1) port_after_ports)

lemma hostname_ports: "isHostname name = Some (Some ds) \<Longrightarrow> \<exists>h. name = h @ CHR '':'' # ds \<and> ds \<noteq> [] \<and> list_all is_digit ds"
  unfolding isHostname_def Let_def
  by (metis option.distinct(1) port_after_ports takeWhile_dropWhile_id)

lemma own_port: "\<exists>h. name = h @ CHR '':'' # ds \<and> ds \<noteq> [] \<and> list_all is_digit ds \<Longrightarrow> with_port (base_url name)"
  using with_portI by blast

lemma literal_url_port: "isIpLiteral name = Some port \<Longrightarrow> u \<in> set (urls_of (literal_url name port)) \<Longrightarrow> with_port u"
  using own_port [OF literal_ports] default_port by (auto simp: literal_url_def urls_of_def split: option.splits)

lemma srv_port: "with_port (srv_url entry)"
  unfolding srv_url_def by (rule with_portI) (auto simp: list_all_iff dest: nat_str_digits)

lemma dnsSrv_port: "dnsSrvResolve env name = Some r \<Longrightarrow> u \<in> set (urls_of r) \<Longrightarrow> with_port u"
  using srv_port by (auto simp: dnsSrvResolve_def urls_of_def split: sum.splits list.splits)

lemma dns_port: "dnsResolve env name = Inr r \<Longrightarrow> u \<in> set (urls_of r) \<Longrightarrow> with_port u"
  using dnsSrv_port default_port by (auto simp: dnsResolve_def urls_of_def split: option.splits)

theorem resolved_has_port:
  assumes "matrixResolve env name = Inr r" "u \<in> set (urls_of r)"
  shows "with_port u"
  using assms literal_url_port own_port [OF hostname_ports] dns_port
  by (auto simp: matrixResolve_def urls_of_def split: option.splits)

text \<open>
  A name with a delegation is served where the name it delegates to is, by the steps that are left when
  that name has no document of its own: the name service is not asked for the delegating name.
\<close>

theorem delegation_followed:
  assumes "isIpLiteral name = None" "isHostname name = Some None" "delegation env name = Some server"
    "isIpLiteral server \<noteq> None \<or> isHostname server \<noteq> None"
  shows "matrixResolve env name = matrixResolve (env\<lparr>rs_fetch := \<lambda>_. Inl e\<rparr>) server"
proof -
  have d: "delegation (env\<lparr>rs_fetch := \<lambda>_. Inl e\<rparr>) server = None" by (simp add: delegation_def)
  have s: "dnsSrvResolve (env\<lparr>rs_fetch := \<lambda>_. Inl e\<rparr>) q = dnsSrvResolve env q" for q by (simp add: dnsSrvResolve_def)
  have l: "rs_lookup (env\<lparr>rs_fetch := \<lambda>_. Inl e\<rparr>) q = rs_lookup env q" for q by simp
  have n: "dnsResolve (env\<lparr>rs_fetch := \<lambda>_. Inl e\<rparr>) server = dnsResolve env server"
    unfolding dnsResolve_def s l ..
  show ?thesis
  proof (cases "isIpLiteral server")
    case None
    then show ?thesis using assms d n by (auto simp: matrixResolve_def split: option.splits)
  next
    case (Some port)
    then show ?thesis using assms by (simp add: matrixResolve_def)
  qed
qed

text \<open>The priorities of the records do not count: the addresses come in the order of the answer.\<close>

theorem srv_in_order_of_answer:
  assumes "isIpLiteral name = None" "isHostname name = Some None" "delegation env name = None"
    "rs_srv env (''_matrix-fed._tcp.'' @ name) = Inr entries" "1 < length entries"
  shows "matrixResolve env name = Inr (Urls (map srv_url entries))"
  using assms by (auto simp: matrixResolve_def dnsResolve_def dnsSrvResolve_def split: list.split)

text \<open>
  An address of version 6 is written in brackets in a server name; such a name is refused, while without
  brackets the last group of an address may be taken for a port.
\<close>

theorem bracketed_address_refused: "matrixResolve env ''[::1]:8448'' = Inl (Err ''[::1]:8448 isn't a valid hostname'')"
proof -
  have "isIpLiteral ''[::1]:8448'' = None" "isHostname ''[::1]:8448'' = None" by code_simp+
  then show ?thesis by (simp add: matrixResolve_def)
qed

theorem group_taken_for_port: "matrixResolve env ''1::2:80'' = Inr (Url ''https://1::2:80/'')"
proof -
  have "isIpLiteral ''1::2:80'' = Some (Some ''80'')" by code_simp
  then show ?thesis by (simp add: matrixResolve_def literal_url_def base_url_def)
qed

text \<open>
  A cache answers what was stored, or nothing for what it forgot.  Then, as long as the network and the
  name service keep their answers, the object answers as the function does; failures are not kept.
\<close>

definition cache_laws :: "('c \<Rightarrow> string \<Rightarrow> resolved option) \<Rightarrow> (string \<Rightarrow> resolved \<Rightarrow> 'c \<Rightarrow> 'c) \<Rightarrow> bool" where
  "cache_laws cget cset \<longleftrightarrow> (\<forall>k v c k'. cget (cset k v c) k' \<in> {None, if k' = k then Some v else cget c k'})"

definition cache_true :: "resolve_env \<Rightarrow> ('c \<Rightarrow> string \<Rightarrow> resolved option) \<Rightarrow> 'c option \<Rightarrow> bool" where
  "cache_true env cget cache \<longleftrightarrow> (\<forall>c k v. cache = Some c \<longrightarrow> cget c k = Some v \<longrightarrow> matrixResolve env k = Inr v)"

theorem cached_resolution:
  assumes "cache_laws cget cset" "cache_true env cget cache" "resolve_name env cget cset name cache = (r, cache')"
  shows "r = matrixResolve env name" "cache_true env cget cache'"
proof -
  have new: "matrixResolve env k' = Inr v'"
    if "cget (cset name v c) k' = Some v'" "cache = Some c" "matrixResolve env name = Inr v" for c v k' v'
  proof -
    have "cget (cset name v c) k' \<in> {None, if k' = name then Some v else cget c k'}"
      using assms(1) unfolding cache_laws_def by blast
    then have "Some v' = (if k' = name then Some v else cget c k')" unfolding that(1) by simp
    then show ?thesis using assms(2) that(2,3) by (auto simp: cache_true_def split: if_splits)
  qed
  show "r = matrixResolve env name"
    using assms(2,3) by (auto simp: resolve_name_def cache_true_def split: option.splits sum.splits)
  show "cache_true env cget cache'"
  proof (cases "\<exists>c v. cache = Some c \<and> cget c name = None \<and> matrixResolve env name = Inr v")
    case True
    then show ?thesis using assms(3) new by (auto simp: resolve_name_def cache_true_def)
  next
    case False
    then have "cache' = cache" using assms(3) by (auto simp: resolve_name_def split: option.splits sum.splits)
    then show ?thesis using assms(2) by simp
  qed
qed

text \<open>The first address is the one the identity server asks; a token it accepts was vouched for there.\<close>

definition first_url :: "resolve_env \<Rightarrow> string \<Rightarrow> string option" where
  "first_url env name = (case matrixResolve env name of Inl _ \<Rightarrow> None | Inr (Url u) \<Rightarrow> Some u | Inr (Urls us) \<Rightarrow> Some (hd us))"

lemma urls_not_empty: "matrixResolve env name = Inr (Urls us) \<Longrightarrow> us \<noteq> []"
proof -
  have "dnsResolve env n = Inr (Urls us) \<Longrightarrow> us \<noteq> []" for n
    by (auto simp: dnsResolve_def dnsSrvResolve_def split: option.splits sum.splits list.splits)
  then show "matrixResolve env name = Inr (Urls us) \<Longrightarrow> us \<noteq> []"
    by (auto simp: matrixResolve_def literal_url_def split: option.splits)
qed

lemma first_url_port: "first_url env name = Some u \<Longrightarrow> with_port u"
  using resolved_has_port urls_not_empty hd_in_set
  by (fastforce simp: first_url_def urls_of_def split: sum.splits resolved.splits)

theorem vouched_at_resolved_server:
  assumes "validateMatrixToken (first_url env) net server access s = (Inr sub, s')"
  shows "\<exists>u p. first_url env server = Some u \<and> with_port u \<and>
    net (as_log s) (userinfo_request u access) = Inr p \<and> matrix_id_like sub"
  using assms first_url_port
  by (auto simp: validateMatrixToken_def as_fetch_def http_fetch_def split: if_splits option.splits prod.splits sum.splits jsval.splits)

end
