(* ===== verification/Logger.thy ===== *)
theory Logger
  imports Config Express Regex
begin

text \<open>
  The logger (\<open>packages/logger\<close>): the options of the transports, each checked by a setter, the options of
  the logger, where its configuration comes from, and the text of a line.  The names of the npm levels,
  the environment and the files are parameters; the transports themselves are those of winston.
\<close>

section \<open>The options of a transport\<close>

text \<open>A setter keeps the value it is given, or throws; a class is the list of its setters in the order of the constructor.\<close>

type_synonym setter = "jsval \<Rightarrow> jsval result"

definition checked :: "(jsval \<Rightarrow> bool) \<Rightarrow> string \<Rightarrow> setter" where
  "checked ok msg v = (if nullish v \<or> ok v then Inr v else Inl (Err msg))"

fun run_setters :: "(string \<times> setter) list \<Rightarrow> jsval \<Rightarrow> obj result" where
  "run_setters [] v = Inr []"
| "run_setters ((k, set_k) # ss) v =
     (case set_k (field v k) of
        Inl e \<Rightarrow> Inl e
      | Inr x \<Rightarrow> (case run_setters ss v of Inl e \<Rightarrow> Inl e | Inr r \<Rightarrow> Inr ((k, x) # r)))"

definition text_value :: "jsval \<Rightarrow> bool" where "text_value v = (case v of JStr _ \<Rightarrow> True | _ \<Rightarrow> False)"

definition bool_value :: "jsval \<Rightarrow> bool" where "bool_value v = (case v of JBool _ \<Rightarrow> True | _ \<Rightarrow> False)"

definition number_value :: "jsval \<Rightarrow> bool" where "number_value v = (case v of JNum _ \<Rightarrow> True | _ \<Rightarrow> False)"

definition object_value :: "jsval \<Rightarrow> bool" where "object_value v = (case v of JObj _ \<Rightarrow> True | JArr _ \<Rightarrow> True | _ \<Rightarrow> False)"

definition is_level :: "string list \<Rightarrow> jsval \<Rightarrow> bool" where
  "is_level levels v = (case v of JStr s \<Rightarrow> s \<in> set levels | _ \<Rightarrow> False)"

definition are_levels :: "string list \<Rightarrow> jsval \<Rightarrow> bool" where
  "are_levels levels v = (case v of JArr vs \<Rightarrow> list_all (is_level levels) vs | _ \<Rightarrow> False)"

text \<open>\<open>/^[1-9][0-9]*[u]$/\<close> for the letters \<open>u\<close> of a unit\<close>

definition count_re :: "string \<Rightarrow> re" where
  "count_re units = RSeqs [RCls [(CHR ''1'', CHR ''9'')], RStar (RCls [(CHR ''0'', CHR ''9'')]), RCls (map (\<lambda>u. (u, u)) units)]"

definition count_value :: "string \<Rightarrow> jsval \<Rightarrow> bool" where
  "count_value units v = (case v of JStr s \<Rightarrow> re_test (count_re units) s | _ \<Rightarrow> False)"

definition text_setter :: "string \<Rightarrow> string \<times> setter" where
  "text_setter k = (k, checked text_value (k @ '' in error: value must be a string''))"

definition bool_setter :: "string \<Rightarrow> string \<times> setter" where
  "bool_setter k = (k, checked bool_value (k @ '' in error: value must be a boolean''))"

definition num_setter :: "string \<Rightarrow> string \<times> setter" where
  "num_setter k = (k, checked number_value (k @ '' in error: value must be a number''))"

definition nodeFlagsValues :: "string list" where
  "nodeFlagsValues = [''a'', ''ax'', ''a+'', ''ax+'', ''as'', ''as+'', ''r'', ''rs'', ''r+'', ''rs+'', ''w'', ''wx'', ''w+'', ''wx+'']"

definition WriteFileOptions :: "(string \<times> setter) list" where
  "WriteFileOptions =
     [(''flags'', checked (is_level nodeFlagsValues) ''flags in error: value must be a string and equal to one of the flags supported by Node''),
      text_setter ''encoding'', num_setter ''mode'', bool_setter ''autoClose'', bool_setter ''emitClose'', num_setter ''start'',
      num_setter ''highWaterMark'', bool_setter ''flush'']"

definition prefixed :: "string \<Rightarrow> 'a result \<Rightarrow> 'a result" where
  "prefixed pre r = (case r of Inl e \<Rightarrow> Inl (Err (pre @ err_msg e)) | Inr x \<Rightarrow> Inr x)"

definition options_object :: "string" where
  "options_object = ''options in error: value must be an object''"

definition write_options :: setter where
  "write_options v =
     (if nullish v then Inr Undef
      else if \<not> object_value v then Inl (Err options_object)
      else case prefixed ''options.'' (run_setters WriteFileOptions v) of Inl e \<Rightarrow> Inl e | Inr o1 \<Rightarrow> Inr (JObj o1))"

definition DefaultTransportOptions :: "string list \<Rightarrow> (string \<times> setter) list" where
  "DefaultTransportOptions levels =
     [(''level'', checked (is_level levels) ''level in error: value must equal to one of default npm levels''),
      bool_setter ''silent'', bool_setter ''handleExceptions'', bool_setter ''handleRejections'']"

definition levels_setter :: "string list \<Rightarrow> string \<Rightarrow> string \<times> setter" where
  "levels_setter levels k = (k, checked (are_levels levels) (k @ '' in error: value must an array containing default npm levels as string''))"

definition ConsoleTransportOptions :: "string list \<Rightarrow> (string \<times> setter) list" where
  "ConsoleTransportOptions levels =
     DefaultTransportOptions levels @ [text_setter ''eol'', levels_setter levels ''stderrLevels'', levels_setter levels ''consoleWarnLevels'']"

definition filename_setter :: "string \<Rightarrow> setter" where
  "filename_setter dflt v =
     (case checked text_value ''filename in error: value must be a string'' v of Inl e \<Rightarrow> Inl e | Inr x \<Rightarrow> Inr (js_coalesce x (JStr dflt)))"

definition log_file :: "(string \<Rightarrow> string option) \<Rightarrow> string" where
  "log_file env = (case env ''LOG_FILE'' of None \<Rightarrow> ''twake.log'' | Some f \<Rightarrow> f)"

definition FileTransportOptions :: "(string \<Rightarrow> string option) \<Rightarrow> string list \<Rightarrow> (string \<times> setter) list" where
  "FileTransportOptions env levels =
     DefaultTransportOptions levels @
     [text_setter ''eol'', bool_setter ''lazy'', text_setter ''dirname'', (''filename'', filename_setter (log_file env)), num_setter ''maxsize'',
      num_setter ''maxFiles'', bool_setter ''tailable'', bool_setter ''zippedArchive'', (''options'', write_options)]"

definition DailyRotateFileTransportOptions :: "string list \<Rightarrow> (string \<times> setter) list" where
  "DailyRotateFileTransportOptions levels =
     DefaultTransportOptions levels @
     [(''frequency'', checked (count_value ''mh'') ''frequency in error: value must be a string which follows pattern <integer> with \"m\" or \"h\" as suffix''),
      (''datePattern'', checked text_value ''datePattern in error: value must be a string which represents a format supported by moment.js library''),
      bool_setter ''zippedArchive'', (''filename'', filename_setter ''twake-%DATE%.log''), text_setter ''dirname'',
      (''maxSize'', checked (\<lambda>v. count_value ''kmg'' v \<or> number_value v)
         ''maxSize in error: value must be a number or a string which follows pattern <integer> with \"k\", \"m\" or \"g\" as suffix''),
      (''maxFiles'', checked (\<lambda>v. count_value ''d'' v \<or> number_value v)
         ''maxFiles in error: value must be a number or a string which follows pattern <integer> with \"d\" as suffix''),
      (''options'', write_options), text_setter ''auditFile'', bool_setter ''utc'', text_setter ''extension'', bool_setter ''createSymlink'',
      text_setter ''symlinkName'', text_setter ''auditHashType'']"

section \<open>Transports\<close>

datatype transport = ConsoleT "obj option" | FileT obj | DailyT obj

text \<open>The constructor of the options reads \<open>level\<close> first, which throws for null.\<close>

definition new_options :: "(string \<times> setter) list \<Rightarrow> jsval \<Rightarrow> obj result" where
  "new_options ss v =
     prefixed ''options.'' (if v = Null then Inl (Err ''Cannot read properties of null (reading 'level')'') else run_setters ss v)"

definition ConsoleTransportConf :: "string list \<Rightarrow> jsval \<Rightarrow> transport result" where
  "ConsoleTransportConf levels v =
     (if nullish v then Inr (ConsoleT None)
      else if \<not> object_value v then Inl (Err options_object)
      else case new_options (ConsoleTransportOptions levels) v of Inl e \<Rightarrow> Inl e | Inr o1 \<Rightarrow> Inr (ConsoleT (Some o1)))"

definition FileTransportConf :: "(string \<Rightarrow> string option) \<Rightarrow> string list \<Rightarrow> jsval \<Rightarrow> transport result" where
  "FileTransportConf env levels v =
     (if \<not> nullish v \<and> \<not> object_value v then Inl (Err options_object)
      else case new_options (FileTransportOptions env levels) v of Inl e \<Rightarrow> Inl e | Inr o1 \<Rightarrow> Inr (FileT o1))"

definition DailyRotateFileTransportConf :: "string list \<Rightarrow> jsval \<Rightarrow> transport result" where
  "DailyRotateFileTransportConf levels v =
     (if \<not> nullish v \<and> \<not> object_value v then Inl (Err options_object)
      else case new_options (DailyRotateFileTransportOptions levels) v of Inl e \<Rightarrow> Inl e | Inr o1 \<Rightarrow> Inr (DailyT o1))"

definition createTransportConf :: "(string \<Rightarrow> string option) \<Rightarrow> string list \<Rightarrow> jsval \<Rightarrow> transport result" where
  "createTransportConf env levels conf =
     (if nullish conf then Inl (Err (''Cannot read properties of '' @ js_str conf @ '' (reading 'type')''))
      else let t = field conf ''type''; opts = field conf ''options'' in
           if t = JStr ''Console'' then ConsoleTransportConf levels opts
           else if t = JStr ''DailyRotateFile'' then DailyRotateFileTransportConf levels opts
           else if t = JStr ''File'' then FileTransportConf env levels opts
           else Inl (Err ''type in error: value must be one of the listed transports in documentation''))"

fun create_all :: "(string \<Rightarrow> string option) \<Rightarrow> string list \<Rightarrow> jsval list \<Rightarrow> transport list result" where
  "create_all env levels [] = Inr []"
| "create_all env levels (c # cs) =
     (case createTransportConf env levels c of
        Inl e \<Rightarrow> Inl e
      | Inr t \<Rightarrow> (case create_all env levels cs of Inl e \<Rightarrow> Inl e | Inr ts \<Rightarrow> Inr (t # ts)))"

definition transport_of_type :: "string \<Rightarrow> jsval" where
  "transport_of_type t = JObj [(''type'', JStr t)]"

definition convertToITransportConf :: "bool \<Rightarrow> jsval \<Rightarrow> jsval list" where
  "convertToITransportConf getDefaultTransport v =
     (case v of
        JStr s \<Rightarrow> map transport_of_type (split_on CHR '','' s)
      | JArr vs \<Rightarrow> vs
      | _ \<Rightarrow> if getDefaultTransport then [transport_of_type ''Console''] else [])"

section \<open>The options of the logger and its configuration\<close>

record logger_options =
  logLevel :: jsval
  silent :: jsval
  logTransports :: "transport list"
  exitOnError :: jsval
  defaultMeta :: jsval
  exceptionHandlers :: "transport list"
  rejectionHandlers :: "transport list"

definition bind_result :: "'a result \<Rightarrow> ('a \<Rightarrow> 'b result) \<Rightarrow> 'b result" where
  "bind_result r f = (case r of Inl e \<Rightarrow> Inl e | Inr x \<Rightarrow> f x)"

definition TwakeLoggerOptions :: "(string \<Rightarrow> string option) \<Rightarrow> string list \<Rightarrow> obj \<Rightarrow> logger_options result" where
  "TwakeLoggerOptions env levels conf =
     bind_result (checked (is_level levels) ''log_level in error: value must equal to one of default npm levels'' (getp conf ''log_level'')) (\<lambda>level.
     bind_result (checked bool_value ''silent in error: value must be a boolean'' (getp conf ''silent'')) (\<lambda>sil.
     bind_result (prefixed ''log_transports.'' (create_all env levels (convertToITransportConf True (getp conf ''log_transports'')))) (\<lambda>ts.
     bind_result (checked bool_value ''exit_on_error in error: value must be a boolean'' (getp conf ''exit_on_error'')) (\<lambda>ex.
     bind_result (checked object_value ''default_meta in error: value must be an object'' (getp conf ''default_meta'')) (\<lambda>meta.
     bind_result (prefixed ''exception_handlers.'' (create_all env levels (convertToITransportConf False (getp conf ''exception_handlers'')))) (\<lambda>es.
     bind_result (prefixed ''rejection_handlers.'' (create_all env levels (convertToITransportConf False (getp conf ''rejection_handlers'')))) (\<lambda>rs.
       Inr \<lparr>logLevel = level, silent = sil, logTransports = ts, exitOnError = ex, defaultMeta = meta, exceptionHandlers = es, rejectionHandlers = rs\<rparr>)))))))"

datatype logger_error = ConfigFailed cfg_error | OptionFailed jserror

text \<open>The file of the environment, else \<open>etc/twake/logger.conf\<close> if there is one (\<open>Some\<close>), else the argument.\<close>

definition getConfigurationFile :: "(string \<Rightarrow> string option) \<Rightarrow> (string \<Rightarrow> string result) \<Rightarrow> string option \<Rightarrow> jsval \<Rightarrow> jsval result" where
  "getConfigurationFile env files confFile conf =
     bind_result (case env ''TWAKE_LOGGER_CONF'' of
         Some f \<Rightarrow> bind_result (files f) json_parse
       | None \<Rightarrow> (case confFile of Some content \<Rightarrow> json_parse content | None \<Rightarrow> Inr conf)) (\<lambda>res.
     if nullish res then Inr Undef
     else if \<not> object_value res then Inl (Err ''logger configuration in error: conf must be an object'')
     else if (case res of JObj ps \<Rightarrow> (case map_of ps ''logging'' of Some v \<Rightarrow> v \<noteq> Null \<and> \<not> object_value v | None \<Rightarrow> False) | _ \<Rightarrow> False)
     then Inl (Err ''logging field in error: value must be an object'')
     else Inr (field res ''logging''))"

definition logging_base :: "jsval \<Rightarrow> cfg_base" where
  "logging_base v = (case v of JObj ps \<Rightarrow> BaseObject ps | JArr vs \<Rightarrow> BaseObject (zip (map nat_str [0 ..< length vs]) vs) | _ \<Rightarrow> NoBase)"

definition getLogger ::
  "(string \<Rightarrow> int option) \<Rightarrow> (string \<Rightarrow> string option) \<Rightarrow> (string \<Rightarrow> string result) \<Rightarrow> string list \<Rightarrow> cfg_desc \<Rightarrow> string option \<Rightarrow> jsval \<Rightarrow>
   logger_error + logger_options" where
  "getLogger parseFloat env files levels desc confFile conf =
     (case getConfigurationFile env files confFile conf of
        Inl e \<Rightarrow> Inl (OptionFailed e)
      | Inr logging \<Rightarrow>
          (case twakeConfig parseFloat env files desc (logging_base logging) True False of
             Inl e \<Rightarrow> Inl (ConfigFailed e)
           | Inr loggingConf \<Rightarrow>
               (case TwakeLoggerOptions env levels loggingConf of Inl e \<Rightarrow> Inl (OptionFailed e) | Inr opts \<Rightarrow> Inr opts)))"

section \<open>The text of a line\<close>

definition line_separator :: string where "line_separator = '' | ''"

definition requestDetailsKeys :: "string list" where
  "requestDetailsKeys = [''ip'', ''matrixUserId'', ''httpMethod'', ''requestUrl'', ''endpointPath'', ''status'']"

definition requestDetails :: "obj \<Rightarrow> string" where
  "requestDetails info =
     (let details = join line_separator (map js_str (filter (\<lambda>v. \<not> nullish v) (map (getp info) requestDetailsKeys)))
      in if details \<noteq> [] then details @ line_separator else details)"

definition additionnalDetails :: "obj \<Rightarrow> string" where
  "additionnalDetails info =
     (let details = join line_separator (map (\<lambda>(k, v). to_upper k @ '': '' @ js_str v)
        (filter (\<lambda>(k, _). k \<notin> {''level'', ''message''} \<and> k \<notin> set requestDetailsKeys) info))
      in if details \<noteq> [] then line_separator @ details else details)"

definition log_line :: "string \<Rightarrow> obj \<Rightarrow> string" where
  "log_line isoDate info =
     to_upper (js_str (getp info ''level'')) @ line_separator @ isoDate @ line_separator @ requestDetails info @ js_str (getp info ''message'') @
     additionnalDetails info"

section \<open>Properties\<close>

text \<open>The constructor of a class succeeds if and only if each of its setters does, and then keeps what each of them answers, and nothing else.\<close>

theorem setters_independent:
  "run_setters ss v = Inr r \<longleftrightarrow> list_all2 (\<lambda>(k, set_k) (k', x). k' = k \<and> set_k (field v k) = Inr x) ss r"
proof (induction ss arbitrary: r)
  case Nil
  then show ?case by auto
next
  case (Cons s ss)
  obtain k f where s: "s = (k, f)" by (cases s)
  show ?case
  proof (cases r)
    case Nil
    then show ?thesis by (simp add: s split: sum.split)
  next
    case r: (Cons x r')
    obtain k' y where x: "x = (k', y)" by (cases x)
    show ?thesis unfolding r s x run_setters.simps list_all2_Cons prod.case Cons.IH [symmetric]
      by (auto split: sum.split)
  qed
qed

text \<open>A count with a unit is a number without leading zero and one letter.\<close>

lemma star_cls: "w \<in> star (lang (RCls rs)) \<longleftrightarrow> (\<forall>c \<in> set w. in_cls rs c)"
  by (induction w) (auto simp: star_Nil star_Cons)

theorem count_value_iff:
  "count_value units (JStr s) \<longleftrightarrow>
     (\<exists>c ds u. s = c # ds @ [u] \<and> in_range CHR ''1'' CHR ''9'' c \<and> list_all is_digit ds \<and> in_cls (map (\<lambda>u. (u, u)) units) u)"
  (is "_ \<longleftrightarrow> (\<exists>c ds u. ?P c ds u)")
proof -
  have "s \<in> lang (count_re units) \<longleftrightarrow> (\<exists>c w. s = c # w \<and> in_range CHR ''1'' CHR ''9'' c \<and>
      (\<exists>ds u. w = ds @ [u] \<and> list_all is_digit ds \<and> in_cls (map (\<lambda>u. (u, u)) units) u))"
  proof (cases s)
    case Nil
    then show ?thesis by (simp add: count_re_def)
  next
    case (Cons c w)
    have "w \<in> lang (RSeqs [RStar (RCls [(CHR ''0'', CHR ''9'')]), RCls (map (\<lambda>u. (u, u)) units)]) \<longleftrightarrow>
        (\<exists>ds u. w = ds @ [u] \<and> list_all is_digit ds \<and> in_cls (map (\<lambda>u. (u, u)) units) u)"
      unfolding RSeqs.simps lang_seq lang.simps(6) star_cls
      by (auto simp: list_all_iff in_cls_def is_digit_def)
    then show ?thesis using Cons by (simp add: count_re_def in_cls_def)
  qed
  then show ?thesis unfolding count_value_def jsval.case re_test_iff by blast
qed

text \<open>
  What a logger is made of has the declared types: levels that winston knows, booleans, and for each
  transport options whose level is one of winston; a file transport always has a name of a file.
\<close>

definition absent_or :: "(jsval \<Rightarrow> bool) \<Rightarrow> jsval \<Rightarrow> bool" where
  "absent_or ok v \<longleftrightarrow> nullish v \<or> ok v"

fun transport_typed :: "string list \<Rightarrow> transport \<Rightarrow> bool" where
  "transport_typed levels (ConsoleT None) = True"
| "transport_typed levels (ConsoleT (Some o1)) = absent_or (is_level levels) (getp o1 ''level'')"
| "transport_typed levels (FileT o1) = (absent_or (is_level levels) (getp o1 ''level'') \<and> text_value (getp o1 ''filename''))"
| "transport_typed levels (DailyT o1) = (absent_or (is_level levels) (getp o1 ''level'') \<and> text_value (getp o1 ''filename'') \<and>
     absent_or (count_value ''mh'') (getp o1 ''frequency'') \<and> absent_or (\<lambda>v. count_value ''kmg'' v \<or> number_value v) (getp o1 ''maxSize''))"

lemma checked_Inr: "checked ok msg v = Inr x \<longleftrightarrow> x = v \<and> absent_or ok v"
  by (auto simp: checked_def absent_or_def)

lemma run_setters_get:
  "run_setters ss v = Inr r \<Longrightarrow> map_of ss k = Some f \<Longrightarrow> \<exists>x. getp r k = x \<and> f (field v k) = Inr x"
proof (induction ss arbitrary: r)
  case (Cons s ss)
  obtain k' g where s: "s = (k', g)" by (cases s)
  obtain x r' where r: "g (field v k') = Inr x" "run_setters ss v = Inr r'" "r = (k', x) # r'"
    using Cons.prems(1) by (auto simp: s split: sum.splits)
  then show ?case using Cons.prems(2) Cons.IH [OF r(2)] by (cases "k = k'") (auto simp: s getp_def)
qed simp

lemma filename_text: "filename_setter d v = Inr x \<Longrightarrow> text_value x"
  by (auto simp: filename_setter_def checked_Inr absent_or_def js_coalesce_def text_value_def split: sum.splits if_splits)

lemma option_get: "new_options ss v = Inr r \<Longrightarrow> map_of ss k = Some f \<Longrightarrow> f (field v k) = Inr (getp r k)"
  using run_setters_get by (fastforce simp: new_options_def prefixed_def split: sum.splits if_splits)

lemma option_checked: "new_options ss v = Inr r \<Longrightarrow> map_of ss k = Some (checked ok msg) \<Longrightarrow> absent_or ok (getp r k)"
  using option_get [of ss v r k] by (fastforce simp: checked_Inr)

lemma createTransportConf_typed: "createTransportConf env levels conf = Inr t \<Longrightarrow> transport_typed levels t"
proof -
  let ?lv = "''level in error: value must equal to one of default npm levels''"
  have c: "map_of (ConsoleTransportOptions levels) ''level'' = Some (checked (is_level levels) ?lv)"
    by (simp add: ConsoleTransportOptions_def DefaultTransportOptions_def)
  have f: "map_of (FileTransportOptions env levels) ''level'' = Some (checked (is_level levels) ?lv)"
      "map_of (FileTransportOptions env levels) ''filename'' = Some (filename_setter (log_file env))"
    by (simp_all add: FileTransportOptions_def DefaultTransportOptions_def text_setter_def bool_setter_def num_setter_def)
  have d: "map_of (DailyRotateFileTransportOptions levels) ''level'' = Some (checked (is_level levels) ?lv)"
      "map_of (DailyRotateFileTransportOptions levels) ''filename'' = Some (filename_setter ''twake-%DATE%.log'')"
      "\<exists>m. map_of (DailyRotateFileTransportOptions levels) ''frequency'' = Some (checked (count_value ''mh'') m)"
      "\<exists>m. map_of (DailyRotateFileTransportOptions levels) ''maxSize'' = Some (checked (\<lambda>v. count_value ''kmg'' v \<or> number_value v) m)"
    by (simp_all add: DailyRotateFileTransportOptions_def DefaultTransportOptions_def text_setter_def bool_setter_def num_setter_def) blast+
  have co: "transport_typed levels t" if "ConsoleTransportConf levels v = Inr t" for v
    using that option_checked [OF _ c] by (auto simp: ConsoleTransportConf_def split: if_splits sum.splits)
  have fi: "transport_typed levels t" if "FileTransportConf env levels v = Inr t" for v
    using that option_checked [OF _ f(1)] filename_text [OF option_get [OF _ f(2)]]
    by (auto simp: FileTransportConf_def split: if_splits sum.splits)
  have da: "transport_typed levels t" if a: "DailyRotateFileTransportConf levels v = Inr t" for v
  proof -
    obtain o1 where o1: "new_options (DailyRotateFileTransportOptions levels) v = Inr o1" "t = DailyT o1"
      using a by (auto simp: DailyRotateFileTransportConf_def split: if_splits sum.splits)
    show ?thesis using o1(2) option_checked [OF o1(1) d(1)] filename_text [OF option_get [OF o1(1) d(2)]]
        d(3,4) option_checked [OF o1(1)] by auto
  qed
  assume "createTransportConf env levels conf = Inr t"
  then show ?thesis using co fi da by (auto simp: createTransportConf_def Let_def split: if_splits)
qed

lemma create_all_typed: "create_all env levels cs = Inr ts \<Longrightarrow> list_all (transport_typed levels) ts"
  by (induction cs arbitrary: ts) (auto split: sum.splits dest: createTransportConf_typed)

lemma bind_Inr: "bind_result r f = Inr y \<longleftrightarrow> (\<exists>x. r = Inr x \<and> f x = Inr y)"
  by (auto simp: bind_result_def split: sum.splits)

lemma prefixed_Inr: "prefixed p r = Inr x \<longleftrightarrow> r = Inr x"
  by (auto simp: prefixed_def split: sum.splits)

theorem logger_typed:
  assumes "getLogger parseFloat env files levels desc confFile conf = Inr lg"
  shows "absent_or (is_level levels) (logLevel lg) \<and> absent_or bool_value (silent lg) \<and> absent_or bool_value (exitOnError lg) \<and>
    list_all (transport_typed levels) (logTransports lg @ exceptionHandlers lg @ rejectionHandlers lg)"
proof -
  obtain c where "TwakeLoggerOptions env levels c = Inr lg"
    using assms by (auto simp: getLogger_def split: sum.splits)
  then show ?thesis
    unfolding TwakeLoggerOptions_def bind_Inr checked_Inr prefixed_Inr
    by (elim exE conjE) (auto dest: create_all_typed)
qed

text \<open>
  Options that are null are those of a console transport that has none, but make a transport to a file
  fail; and a list of types as a text has no spaces.
\<close>

theorem null_options:
  "createTransportConf env levels (JObj [(''type'', JStr ''Console''), (''options'', Null)]) = Inr (ConsoleT None)"
  "createTransportConf env levels (JObj [(''type'', JStr ''File''), (''options'', Null)]) =
     Inl (Err ''options.Cannot read properties of null (reading 'level')'')"
  by (simp_all add: createTransportConf_def field_def getp_def Let_def ConsoleTransportConf_def FileTransportConf_def new_options_def prefixed_def)

theorem spaces_in_types:
  "createTransportConf env levels (convertToITransportConf True (JStr ''Console, File'') ! 1) =
     Inl (Err ''type in error: value must be one of the listed transports in documentation'')"
proof -
  have "convertToITransportConf True (JStr ''Console, File'') ! 1 = transport_of_type '' File''" by code_simp
  then show ?thesis by (simp add: createTransportConf_def transport_of_type_def field_def getp_def Let_def)
qed

text \<open>The text of a message is written as it is: with a line break in it, it ends with any line that the logger could have written.\<close>

theorem log_lines_forged:
  "log_line t [(''level'', JStr l), (''message'', JStr (m @ [CHR 0x0A] @ log_line t' info'))] =
     log_line t [(''level'', JStr l), (''message'', JStr m)] @ [CHR 0x0A] @ log_line t' info'"
proof -
  have d: "requestDetails [(''level'', JStr l), (''message'', JStr x)] = []" "additionnalDetails [(''level'', JStr l), (''message'', JStr x)] = []" for x
    by (simp_all add: requestDetails_def requestDetailsKeys_def additionnalDetails_def getp_def)
  show ?thesis unfolding log_line_def [of t "[(''level'', JStr l), (''message'', JStr y)]" for y] d by (simp add: getp_def)
qed

end
