(* ===== verification/JsonBody.thy ===== *)
theory JsonBody
  imports MatrixIds Http
begin

text \<open>
  Reading the body of a request and writing an answer on plain streams (\<open>jsonContent\<close> and \<open>send\<close> of
  \<open>packages/utils/src/utils.ts\<close>).  A request is the list of the events its stream emits.  The decoding of
  percent signs in forms is a parameter.
\<close>

section \<open>Answers\<close>

text \<open>The length of a text in UTF-8.\<close>

definition byteLength :: "string \<Rightarrow> nat" where
  "byteLength s = sum_list (map (\<lambda>c. if (of_char c :: nat) < 128 then 1 else 2) s)"

definition send :: "nat \<Rightarrow> jsval \<Rightarrow> http_resp" where
  "send status v =
     (let content = (case v of JStr s \<Rightarrow> s | _ \<Rightarrow> str_of v) in
      \<lparr>hp_status = status,
       hp_headers = [(''Content-Type'', ''application/json; charset=utf-8''), (''Content-Length'', nat_str (byteLength content)),
         (''Access-Control-Allow-Origin'', ''*''), (''Access-Control-Allow-Methods'', ''GET, POST, PUT, DELETE, OPTIONS''),
         (''Access-Control-Allow-Headers'', ''Origin, X-Requested-With, Content-Type, Accept, Authorization'')],
       hp_body = content\<rparr>)"

section \<open>Forms\<close>

text \<open>\<open>querystring.parse\<close>: at most a thousand pieces, the empty ones left out; repeated names make a list.\<close>

definition form_text :: "(string \<Rightarrow> string) \<Rightarrow> string \<Rightarrow> string" where
  "form_text decode s = decode (map (\<lambda>c. if c = CHR ''+'' then CHR '' '' else c) s)"

definition form_piece :: "(string \<Rightarrow> string) \<Rightarrow> string \<Rightarrow> string \<times> string" where
  "form_piece decode p =
     (form_text decode (takeWhile (\<lambda>c. c \<noteq> CHR ''='') p), form_text decode (drop 1 (dropWhile (\<lambda>c. c \<noteq> CHR ''='') p)))"

definition add_field :: "string \<times> string \<Rightarrow> obj \<Rightarrow> obj" where
  "add_field kv o1 =
     (case kv of (k, x) \<Rightarrow>
        put k (case map_of o1 k of None \<Rightarrow> JStr x | Some (JArr xs) \<Rightarrow> JArr (xs @ [JStr x]) | Some y \<Rightarrow> JArr [y, JStr x]) o1)"

definition querystring_parse :: "(string \<Rightarrow> string) \<Rightarrow> string \<Rightarrow> jsval" where
  "querystring_parse decode s =
     JObj (foldl (\<lambda>o1 p. add_field (form_piece decode p) o1) [] (take 1000 (filter (\<lambda>p. p \<noteq> []) (split_on CHR ''&'' s))))"

section \<open>Reading a body\<close>

datatype stream_event = Data string | StreamError string | End

record body_state =
  content :: jsval
  accept :: bool
  sent :: "http_resp list"
  calls :: "jsval list"

text \<open>The error of a text that is no JSON is an object without properties of its own.\<close>

definition parse_failed :: jsval where
  "parse_failed = JObj [(''errcode'', JStr ''M_UNKNOWN''), (''error'', JObj [])]"

definition body_value :: "(string \<Rightarrow> string) \<Rightarrow> string option \<Rightarrow> jsval \<Rightarrow> jsval option" where
  "body_value decode contentType v =
     (case v of
        JStr s \<Rightarrow>
          (case contentType of
             Some t \<Rightarrow>
               if starts_with t ''application/x-www-form-urlencoded'' then Some (querystring_parse decode s)
               else (case json_parse s of Inl _ \<Rightarrow> None | Inr x \<Rightarrow> Some x)
           | None \<Rightarrow> (case json_parse s of Inl _ \<Rightarrow> None | Inr x \<Rightarrow> Some x))
      | _ \<Rightarrow> Some v)"

definition end_of_body :: "(string \<Rightarrow> string) \<Rightarrow> string option \<Rightarrow> body_state \<Rightarrow> body_state" where
  "end_of_body decode contentType s =
     (case body_value decode contentType (content s) of
        None \<Rightarrow> s\<lparr>sent := sent s @ [send 400 parse_failed], accept := False\<rparr>
      | Some v \<Rightarrow> if accept s then s\<lparr>calls := calls s @ [v]\<rparr> else s)"

fun body_step :: "(string \<Rightarrow> string) \<Rightarrow> string option \<Rightarrow> body_state \<Rightarrow> stream_event \<Rightarrow> body_state" where
  "body_step decode contentType s (Data d) = s\<lparr>content := JStr (js_str (content s) @ d)\<rparr>"
| "body_step decode contentType s (StreamError m) =
     s\<lparr>sent := sent s @ [send 400 (errMsg ''unknown'' (Some m))], accept := False\<rparr>"
| "body_step decode contentType s End = end_of_body decode contentType s"

definition jsonContent :: "(string \<Rightarrow> string) \<Rightarrow> string option \<Rightarrow> jsval \<Rightarrow> stream_event list \<Rightarrow> body_state" where
  "jsonContent decode contentType reqBody events =
     (let s0 = \<lparr>content = JStr [], accept = True, sent = [], calls = []\<rparr>;
          s1 = (if truthy reqBody then end_of_body decode contentType (s0\<lparr>content := reqBody\<rparr>) else s0)
      in foldl (body_step decode contentType) s1 events)"

text \<open>What follows: reading a key of null throws, in a listener of the stream that nothing guards.\<close>

definition validate_body :: "(string \<times> bool) list \<Rightarrow> jsval \<Rightarrow> reply option" where
  "validate_body desc v = (if nullish v then None else Some (validateParameters desc (own_props v)))"

section \<open>Properties\<close>

lemma data_steps:
  "foldl (body_step decode ct) s (map Data cs) = s\<lparr>content := (if cs = [] then content s else JStr (js_str (content s) @ concat cs))\<rparr>"
  by (induction cs arbitrary: s) auto

text \<open>
  However the network cuts a body into pieces: its value is handed on once, or one error is answered,
  and which of both depends on the whole text only.
\<close>

theorem pieces_do_not_matter:
  assumes "\<not> truthy reqBody"
  shows "calls (jsonContent decode ct reqBody (map Data cs @ [End])) = (case body_value decode ct (JStr (concat cs)) of None \<Rightarrow> [] | Some v \<Rightarrow> [v])"
    and "sent (jsonContent decode ct reqBody (map Data cs @ [End])) = (case body_value decode ct (JStr (concat cs)) of None \<Rightarrow> [send 400 parse_failed] | Some v \<Rightarrow> [])"
  using assms by (auto simp: jsonContent_def data_steps end_of_body_def Let_def split: option.split)

text \<open>A value that was written as JSON is read back, whatever the pieces.\<close>

theorem json_body_read_back:
  assumes "json_value v" "concat cs = str_of v" "ct \<in> {None, Some ''application/json''}" "\<not> truthy reqBody"
  shows "calls (jsonContent decode ct reqBody (map Data cs @ [End])) = [v] \<and> sent (jsonContent decode ct reqBody (map Data cs @ [End])) = []"
proof -
  have f: "\<not> starts_with ''application/json'' ''application/x-www-form-urlencoded''" by code_simp
  have "body_value decode ct (JStr (concat cs)) = Some v"
    using assms(2,3) f json_parse_str_of [OF assms(1)] by (auto simp: body_value_def)
  then show ?thesis unfolding pieces_do_not_matter [OF assms(4)] by simp
qed

text \<open>After an error of the stream nothing is handed on.\<close>

lemma accept_steps:
  "\<not> accept s \<Longrightarrow> \<not> accept (foldl (body_step decode ct) s es) \<and> calls (foldl (body_step decode ct) s es) = calls s"
proof (induction es arbitrary: s)
  case (Cons e es)
  have "\<not> accept (body_step decode ct s e) \<and> calls (body_step decode ct s e) = calls s"
    using Cons.prems by (cases e) (auto simp: end_of_body_def split: option.split)
  then show ?case using Cons.IH [of "body_step decode ct s e"] by simp
qed simp

theorem nothing_after_error:
  assumes "\<not> truthy reqBody"
  shows "calls (jsonContent decode ct reqBody (map Data cs @ StreamError m # es)) = []"
proof -
  let ?s = "body_step decode ct (foldl (body_step decode ct) \<lparr>content = JStr [], accept = True, sent = [], calls = []\<rparr> (map Data cs)) (StreamError m)"
  have "\<not> accept ?s" "calls ?s = []" by (simp_all add: data_steps)
  then show ?thesis using assms accept_steps [of ?s] by (simp add: jsonContent_def Let_def)
qed

text \<open>
  The body \<open>null\<close> is JSON: it is handed on, and the check of the parameters throws where nobody catches,
  which ends the process.
\<close>

theorem null_body_throws:
  shows "calls (jsonContent decode None Undef [Data ''null'', End]) = [Null]" "validate_body desc Null = None"
proof -
  have "json_parse ''null'' = Inr Null" by code_simp
  then show "calls (jsonContent decode None Undef [Data ''null'', End]) = [Null]"
    by (simp add: jsonContent_def end_of_body_def body_value_def)
  show "validate_body desc Null = None" by (simp add: validate_body_def)
qed

text \<open>The length that is announced is the one of the text, for a text of ASCII the number of its characters.\<close>

theorem length_of_ascii: "list_all (\<lambda>c. (of_char c :: nat) < 128) s \<Longrightarrow> byteLength s = length s"
  by (induction s) (auto simp: byteLength_def)

end
