(* ===== verification/Spec2Isabelle.thy ===== *)
theory Spec2Isabelle
  imports Prelude Regex MatrixIds Crypto Json Sql SqlStore IdDb Express Addressbook
    Http TokenService Invitation InvitationLaws InvitationAccept CommonSettings Amqp UserInfo MatrixApi Authenticate VaultApi
    Lookup CronUsers ThreePid StoreInvite Search Admin Config
    Federation Metrics WellKnown Terms LdapDb Schedule Notify Resolve Logger
    JsonBody
begin

text \<open>
  Verification development of the chat application of the Twake kickstart
  (\<open>src/chat_app/packages\<close>, TypeScript): the storage layer shared by the identity server and the
  Tom server, the identifiers and keys that go through it, and the APIs built on it.

  \<^bold>\<open>The parts and how they interact.\<close>  HTTP routes authenticate a request, run their middlewares and
  call a controller; a controller calls a service; a service calls the database object of the
  identity server (\<open>matrix-identity-server/src/db/index.ts\<close>), which hands every call to the class of
  the configured engine (\<open>db/sql/sqlite.ts\<close> or \<open>db/sql/pg.ts\<close>); that class composes an SQL text with
  numbered values and gives both to a driver.  The theories follow this order from the bottom up:

  \<^item> \<open>Prelude\<close>: JavaScript values, objects as association lists, results as sums, strings, decimal
    numbers, the stable sort with a comparator (locale \<open>js_comparator\<close>).
  \<^item> \<open>Regex\<close>, \<open>MatrixIds\<close>: regular expressions by derivatives, and \<open>packages/utils\<close> with its patterns,
    the Matrix identifiers, the error bodies and the parameter check.
  \<^item> \<open>Crypto\<close>, \<open>Json\<close>: \<open>packages/crypto\<close> (base64url, key pairs, canonical JSON, signing) and the
    runtime's \<open>JSON.stringify\<close> and \<open>JSON.parse\<close> with their round trip.
  \<^item> \<open>Sql\<close>: both SQL classes method by method, as the statement they build, the values they bind and
    the way they report the driver's answer, and \<open>_createTables.ts\<close>.
  \<^item> \<open>SqlStore\<close>: the interface \<open>table_db\<close> the rest of the program relies on (what a read, an
    insertion, an update, a deletion returns and leaves in the tables), and its interpretation on
    both classes over an in-memory engine for the statements they send.
  \<^item> \<open>IdDb\<close>: \<open>IdentityServerDb\<close>: schema, one-time tokens, invitation tokens, key pairs, clean-up.
  \<^item> \<open>Express\<close>: requests, responses, middlewares, authentication.
  \<^item> \<open>Addressbook\<close>: \<open>tom-server/src/addressbook-api\<close>: service, middlewares, controllers, routes.
  \<^item> \<open>Http\<close>, \<open>TokenService\<close>: \<open>fetch\<close> over a parameter that answers every request from the log of all
    exchanges, URLs and templates (\<open>utils.ts\<close>, \<open>utils/helpers\<close>), and the login with the cookies of the
    single sign-on (\<open>utils/services/token-service.ts\<close>, \<open>cookie-auth.middleware.ts\<close>).
  \<^item> \<open>Invitation\<close>: \<open>tom-server/src/invitation-api\<close>; acceptance is a pool of tasks with a step relation,
    because it starts work it does not await.  \<open>InvitationLaws\<close>, \<open>InvitationAccept\<close>: its properties.
  \<^item> \<open>CommonSettings\<close>, \<open>Amqp\<close>: \<open>packages/common-settings\<close> and \<open>packages/amqp-connector\<close>: the handler that
    stores the settings of a message and pushes the profile, and the connector that delivers
    messages to it, a pool of tasks over a broker that may answer anything.
  \<^item> \<open>UserInfo\<close>: \<open>tom-server/src/user-info-api\<close>: the profile merged from the Matrix server, the
    directory, the settings \<open>CommonSettings\<close> stores and the viewer's \<open>Addressbook\<close>, and its visibility.
  \<^item> \<open>MatrixApi\<close>: \<open>tom-server/src/matrix-api\<close>: rooms with the power levels of the configuration.
  \<^item> \<open>Authenticate\<close>, \<open>VaultApi\<close>: both authenticators and the account endpoints
    (\<open>matrix-identity-server/src/utils.ts\<close>, \<open>account\<close>, \<open>tom-server/src/identity-server/utils\<close>), and the
    recovery words (\<open>tom-server/src/vault-api\<close>), which are kept for the user they authenticate.
  \<^item> \<open>Lookup\<close>: \<open>matrix-identity-server/src/lookup\<close> and \<open>cron/changePepper.ts\<close>: who is found by the hash of
    an address, how the hashes of a directory are written, and how the pepper changes.
  \<^item> \<open>CronUsers\<close>: \<open>cron/updateUsers.ts\<close>, \<open>cron/check-quota.ts\<close> and \<open>lookup/diff.ts\<close>: the directory compared with
    the hashes, the history of the users, and the report of its changes.
  \<^item> \<open>ThreePid\<close>: \<open>matrix-identity-server/src/validate/email\<close> and \<open>3pid\<close>: sessions of validation, their tokens,
    and the hashes that \<open>Lookup\<close> answers from, written for and removed with such a session.
  \<^item> \<open>StoreInvite\<close>: \<open>matrix-identity-server/src/invitation\<close>, \<open>ephemeral_signing\<close>, \<open>keyManagement\<close>: invitations of
    addresses that \<open>Lookup\<close> does not know, and what is answered about the keys of the server.
  \<^item> \<open>Search\<close>: \<open>tom-server/src/identity-server/lookup/_search.ts\<close>: the search over the Matrix server, the directory
    and the viewer's \<open>Addressbook\<close>, completed by \<open>UserInfo\<close>.
  \<^item> \<open>Admin\<close>: \<open>admin-settings-api\<close>, which \<open>CommonSettings\<close> pushes profiles to, and \<open>deactivate-account-api\<close>; both
    log in with \<open>TokenService\<close>.
  \<^item> \<open>Federation\<close>: \<open>federated-identity-service\<close>, which answers lookups for several servers, and
    \<open>cron/update-federated-identity-hashes.ts\<close>, with which a server pushes what \<open>Lookup\<close> hashes there.
  \<^item> \<open>Config\<close>: \<open>packages/config-parser\<close>: the configuration every server starts with.
  \<^item> \<open>Metrics\<close>, \<open>WellKnown\<close>, \<open>Terms\<close>: \<open>tom-server/src/metrics-api\<close>, \<open>tom-server/src/wellKnown\<close> and
    \<open>matrix-identity-server/src/terms\<close>, whose table \<open>Authenticate\<close> reads.
  \<^item> \<open>LdapDb\<close>: the user directory over LDAP (\<open>matrix-identity-server/src/userdb\<close>) and its cache.
  \<^item> \<open>Schedule\<close>: \<open>matrix-identity-server/src/cron/index.ts\<close>, which starts the tasks of \<open>Lookup\<close>, \<open>CronUsers\<close> and
    \<open>Federation\<close>.
  \<^item> \<open>Notify\<close>: \<open>tom-server/src/utils/services\<close> for texts and mails, \<open>sms-api\<close>, and \<open>qrcode-api\<close>, which shows a token of
    \<open>TokenService\<close>.
  \<^item> \<open>Resolve\<close>: \<open>packages/matrix-resolve\<close>, with which \<open>Authenticate\<close> finds the server that vouches for a token.
  \<^item> \<open>Logger\<close>: \<open>packages/logger\<close>, configured through \<open>Config\<close>.
  \<^item> \<open>JsonBody\<close>: the part of \<open>packages/utils\<close> that reads a body from a stream and writes an answer.

  \<^bold>\<open>What is a parameter.\<close>  The drivers, \<open>uuidv7\<close>, \<open>Math.random\<close>, the clock, \<open>localeCompare\<close>, the
  nacl primitives, the user directory and the authenticator are arguments of the definitions.  The
  properties of the APIs assume of the database only that it keeps the laws of \<open>table_db\<close>
  (\<open>tom_database\<close>); their witnesses use the in-memory engine.  Errors are values: a rejected promise
  is \<open>Inl\<close>, a promise that never settles \<open>None\<close>.  Log calls are left out.

  \<^bold>\<open>What is shown.\<close>  \<open>MatrixIds\<close>: the patterns denote the sets their comments describe, the validator
  and the constructor of identifiers agree.  \<open>Crypto\<close>: encodings read back, canonical text does not
  depend on key order, signing keeps other signatures.  \<open>Sql\<close>: values are bound in order and never
  reach the text.  \<open>SqlStore\<close>: the classes implement the interface, tables survive a restart.
  \<open>IdDb\<close>: life time and single use of tokens, rotation of keys, and three defects (the empty token,
  the ignored key type, the clean-up that no timer calls).  \<open>Addressbook\<close>: ownership, listing,
  creation, addition (one row for each contact that is missing) and deletion, bounded retries, and the second book after a failed lookup.
  \<open>TokenService\<close>: where the cookies of the user go, and which text of a page is taken for a token.
  \<open>InvitationLaws\<close>: sending is all or nothing, links are reused, only the sender sees or removes an
  invitation, how long the rate limit holds; when a refused invitation leaves its row.  \<open>InvitationAccept\<close>: by induction over all runs, a row
  marked as accepted has a room with its sender; two runs show a second room for one invitation and
  a failure that is answered as a success.  \<open>CommonSettings\<close>, \<open>Amqp\<close>: an acknowledged message is
  stored, retries and delays are bounded, a connector that says it is reconnecting has a timer; and
  a run in which one lost connection is replaced by two.  \<open>UserInfo\<close>: who sees addresses and numbers,
  two ways around that guard, and that acknowledged settings reach the profile whoever looks at it.  \<open>MatrixApi\<close>: which
  levels a room starts with, how its owner is demoted, and how a room is lost.  \<open>Authenticate\<close>: the
  only ways in for a token, the life of a registered one, and the empty token that is let in.
  \<open>VaultApi\<close>: the handlers implement a map from users to sentences.  \<open>Lookup\<close>: a change of the pepper
  that succeeds makes every user of the directory findable under the new one; one that fails takes
  the hashes of the published one away at the next run; a request for no hash is told everything.
  \<open>CronUsers\<close>: no comparison loses a hash, so that a user who left is still found and, as the history
  keeps the old time, is not reported as deleted.  \<open>ThreePid\<close>: a session from its request to its validation,
  what a submission needs, for tokens of every type, and four defects (the
  empty token, unbinding of others, the wrong hash, columns that are too small).
  \<open>StoreInvite\<close>: what the answer hides of an address, the private key it gives away, and the lookup that
  never finds anybody.  \<open>Search\<close>: pages fit together, nobody is listed twice, what the settings hide,
  and what a limit that is a text does.
  \<open>Admin\<close>: a push that is acknowledged has reached the Matrix server, who can deactivate, and a refusal
  that is reported as done.  \<open>Federation\<close>: what is pushed is found, only the rows of the server named in a
  push change, the same push is refused twice, only hashes of active users leave a server, each to the
  service whose pepper it was made with, and one bad service stops the task.
  \<open>Config\<close>: where each value comes from and what its text denotes, for the
  new parser; what the old one, which is the default, does instead.  \<open>Metrics\<close>: the lists are nested and sorted and
  for administrators only.  \<open>WellKnown\<close>: what the Matrix server overrides, and the secret in the document.
  \<open>Terms\<close>: what an acceptance changes, and for whom.  \<open>LdapDb\<close>: the text of a filter means what was
  asked for (filters of RFC 4515 as data, their texts are unique), unless a value has special characters.
  \<open>Schedule\<close>: what runs when the server is ready, and what does not after a failed start.  \<open>Notify\<close>: when a text
  counts as sent.  \<open>Resolve\<close>: every address has a port, a delegation is followed, the cache tells the truth.
  \<open>Logger\<close>: a logger that is made has options of the declared types; lines can be forged.  \<open>JsonBody\<close>: the pieces of a body do not matter.

  \<^bold>\<open>Bounds and fuel.\<close>  \<open>json_parse\<close> runs with fuel one more than the length of its text, which
  \<open>json_parse_str_of\<close> shows is enough for every text the program writes; \<open>create_loop\<close> counts the
  three attempts of the code down.  Numbers are integers: the code's numbers are epochs, counts
  and flags below the double precision limit.  Characters are 8-bit; the identifiers and keys of the
  program are ASCII.  The store enforces the declared primary keys, those of several columns as well, and
  nothing else: declared lengths and widths of columns, which PostgreSQL checks and SQLite does not, and
  the folding of column names by PostgreSQL are left out.  A database that is \<open>healthy\<close> refuses only a
  second row with the same key; on PostgreSQL this is true of rows that fit the declared columns.  Where
  the rows of the program do not fit, \<open>ThreePid\<close> says so (\<open>session_exceeds_columns\<close>) and states the life of
  a session for SQLite.  Where a failure of the database makes a difference to the outcome, as for the
  deletion of a used token (\<open>IdDb\<close>) or of an undelivered invitation (\<open>InvitationLaws\<close>), the property
  does not assume \<open>healthy\<close> and says what is left.  The queries of one batch of \<open>UserInfo\<close>, which the
  code starts together, and the messages of a consumer in \<open>Amqp\<close> are handled one after the other.

  \<^bold>\<open>Not modelled.\<close>  Process start-up (\<open>server.mjs\<close>, the classes that only mount the routers), the connection
  set-up of the drivers, the SQL user directories and Matrix databases (subclasses of the modelled classes
  that open another connection), the transports of the logger, the browser widgets and the deployment
  scripts: they only call external services.  \<open>packages/db\<close> repeats the SQL classes of the identity server
  word for word.  Log calls inside the other parts are left out.
\<close>

end
